(* ===== verification/Prelude.thy ===== *)
theory Prelude
  imports Main "HOL-Library.Word" "HOL-Library.Monad_Syntax"
begin

text \<open>
  Shared vocabulary of the development: Go's fixed-width integers, byte strings, the
  collections of simplification rules that component proofs extend, and generic facts on
  lists and maps.

  Go values are modelled as follows.  \<open>int32\<close>, \<open>int64\<close> and \<open>int\<close> are HOL integers; where the
  code's arithmetic can leave the range, the model wraps the result explicitly with
  \<open>wrap32\<close>, \<open>wrap64\<close>.  \<open>uint8\<close> is \<open>8 word\<close>, \<open>[]byte\<close> a list of them.  An operation that can
  return an error or panic has an \<open>option\<close> result and \<open>None\<close> is the failure.
\<close>

named_theorems codec_simps \<open>equations of the wire readers on what the writers produce\<close>
named_theorems codec_ok \<open>well-formedness conditions of messages, unfolded\<close>

type_synonym byte = "8 word"
type_synonym bytes = "byte list"

section \<open>Fixed-width integers\<close>

definition i32 :: "int \<Rightarrow> bool" where
  "i32 x \<longleftrightarrow> - (2 ^ 31) \<le> x \<and> x < 2 ^ 31"

definition i64 :: "int \<Rightarrow> bool" where
  "i64 x \<longleftrightarrow> - (2 ^ 63) \<le> x \<and> x < 2 ^ 63"

definition i8 :: "int \<Rightarrow> bool" where
  "i8 x \<longleftrightarrow> - (2 ^ 7) \<le> x \<and> x < 2 ^ 7"

definition wrap32 :: "int \<Rightarrow> int" where
  "wrap32 x = (x + 2 ^ 31) mod 2 ^ 32 - 2 ^ 31"

definition wrap64 :: "int \<Rightarrow> int" where
  "wrap64 x = (x + 2 ^ 63) mod 2 ^ 64 - 2 ^ 63"

lemma wrap32_id [simp]: "i32 x \<Longrightarrow> wrap32 x = x"
  by (simp add: i32_def wrap32_def)

lemma wrap64_id [simp]: "i64 x \<Longrightarrow> wrap64 x = x"
  by (simp add: i64_def wrap64_def)

lemma i32_wrap32 [simp, intro]: "i32 (wrap32 x)"
  using pos_mod_bound [of "2 ^ 32" "x + 2 ^ 31"] pos_mod_sign [of "2 ^ 32" "x + 2 ^ 31"]
  by (auto simp: i32_def wrap32_def)

lemma i64_wrap64 [simp, intro]: "i64 (wrap64 x)"
  using pos_mod_bound [of "2 ^ 64" "x + 2 ^ 63"] pos_mod_sign [of "2 ^ 64" "x + 2 ^ 63"]
  by (auto simp: i64_def wrap64_def)

lemma wrap32_signed: "wrap32 x = sint (word_of_int x :: 32 word)"
proof -
  have "sint (word_of_int x :: 32 word) = signed_take_bit 31 x"
    by (simp add: signed_of_int)
  also have "\<dots> = wrap32 x"
    by (simp add: signed_take_bit_eq_take_bit_shift wrap32_def take_bit_eq_mod)
  finally show ?thesis ..
qed

lemma wrap64_signed: "wrap64 x = sint (word_of_int x :: 64 word)"
proof -
  have "sint (word_of_int x :: 64 word) = signed_take_bit 63 x"
    by (simp add: signed_of_int)
  also have "\<dots> = wrap64 x"
    by (simp add: signed_take_bit_eq_take_bit_shift wrap64_def take_bit_eq_mod)
  finally show ?thesis ..
qed

text \<open>Go's integer division and remainder truncate towards zero.\<close>

definition go_div :: "int \<Rightarrow> int \<Rightarrow> int" where
  "go_div a b = sgn a * sgn b * (\<bar>a\<bar> div \<bar>b\<bar>)"

definition go_mod :: "int \<Rightarrow> int \<Rightarrow> int" where
  "go_mod a b = a - b * go_div a b"

lemma go_div_nonneg [simp]: "0 \<le> a \<Longrightarrow> 0 < b \<Longrightarrow> go_div a b = a div b"
  by (cases "a = 0") (auto simp: go_div_def)

lemma go_mod_nonneg [simp]: "0 \<le> a \<Longrightarrow> 0 < b \<Longrightarrow> go_mod a b = a mod b"
  by (simp add: go_mod_def minus_div_mult_eq_mod [symmetric] mult.commute)

section \<open>Lists and maps\<close>

lemma map_of_filter_neq:
  "map_of (filter (\<lambda>(a, _). a \<noteq> k) xs) k' = (if k' = k then None else map_of xs k')"
  by (induction xs) auto

lemma distinct_fst_filter: "distinct (map fst xs) \<Longrightarrow> distinct (map fst (filter P xs))"
  by (induction xs) (auto simp: rev_image_eqI)

end
