(* ===== verification/Wire.thy ===== *)
theory Wire
  imports Prelude
begin

text \<open>
  The byte layer of the generated marshalling code (\<open>*/defs.go\<close>, \<open>state/state.go\<close>):
  little-endian fixed-width fields, the variable-length lengths of
  \<open>encoding/binary\<close>, bounded reads from the stream, and length-prefixed lists.
  \<open>Unmarshal\<close> methods are functions of the object they fill and the stream.

  The locale \<open>message\<close> is the contract of a message type: what \<open>Unmarshal\<close> reads back from
  what \<open>Marshal\<close> wrote, whatever follows in the stream.  Every message of the program is an
  interpretation of it.
\<close>

unbundle bit_operations_syntax

section \<open>Little-endian fields\<close>

text \<open>
  \<open>bs[k] = byte(tmp >> (8 * k))\<close> for \<open>k = 0, \<dots>, n - 1\<close>: the arithmetic shift of a
  signed value, then the conversion to a byte keeps the low eight bits.
\<close>

fun put_le :: "nat \<Rightarrow> int \<Rightarrow> bytes" where
  "put_le 0 x = []"
| "put_le (Suc n) x = word_of_int x # put_le n (drop_bit 8 x)"

text \<open>\<open>uint(bs[0]) | uint(bs[1]) << 8 | \<dots>\<close>\<close>

fun get_le :: "bytes \<Rightarrow> int" where
  "get_le [] = 0"
| "get_le (b # bs) = uint b OR push_bit 8 (get_le bs)"

definition i32_at :: "bytes \<Rightarrow> nat \<Rightarrow> int" where
  "i32_at bs k = wrap32 (get_le (take 4 (drop k bs)))"

definition i64_at :: "bytes \<Rightarrow> nat \<Rightarrow> int" where
  "i64_at bs k = wrap64 (get_le (take 8 (drop k bs)))"

lemma length_put_le [simp]: "length (put_le n x) = n"
  by (induction n arbitrary: x) auto

lemma get_put_le: "get_le (put_le n x) = take_bit (8 * n) x"
proof (induction n arbitrary: x)
  case 0
  then show ?case by simp
next
  case (Suc n)
  have "get_le (put_le (Suc n) x) = take_bit 8 x OR push_bit 8 (take_bit (8 * n) (drop_bit 8 x))"
    by (simp add: Suc.IH unsigned_of_int)
  also have "\<dots> = take_bit (8 * Suc n) x"
    by (rule bit_eqI) (auto simp: bit_or_iff bit_take_bit_iff bit_push_bit_iff bit_drop_bit_eq)
  finally show ?case .
qed

lemma get_le_nonneg [simp]: "0 \<le> get_le bs"
  by (induction bs) auto

lemma get_le_bound: "get_le bs < 2 ^ (8 * length bs)"
proof (induction bs)
  case Nil
  then show ?case by simp
next
  case (Cons b bs)
  have "push_bit 8 (get_le bs) = 2 ^ 8 * get_le bs"
    by (simp add: push_bit_eq_mult)
  also have "\<dots> < 2 ^ (8 * length (b # bs))"
    using Cons by (simp add: power_add)
  finally have "push_bit 8 (get_le bs) < 2 ^ (8 * length (b # bs))" .
  moreover have "uint b < 2 ^ (8 * length (b # bs))"
  proof -
    have "uint b < 2 ^ 8" using uint_lt2p [of b] by simp
    also have "(2::int) ^ 8 \<le> 2 ^ (8 * length (b # bs))"
      by (rule power_increasing) auto
    finally show ?thesis .
  qed
  ultimately show ?case
    using OR_upper [of "uint b" "8 * length (b # bs)" "push_bit 8 (get_le bs)"] by simp
qed

lemma wrap32_take_bit: "wrap32 (take_bit 32 x) = wrap32 x"
  by (simp add: wrap32_def take_bit_eq_mod mod_add_left_eq)

lemma wrap64_take_bit: "wrap64 (take_bit 64 x) = wrap64 x"
  by (simp add: wrap64_def take_bit_eq_mod mod_add_left_eq)

text \<open>
  A block of fields written with one \<open>wire.Write(bs)\<close>: each field takes its place in \<open>bs\<close>.
\<close>

definition layout :: "bytes list \<Rightarrow> bytes" where
  "layout fs = concat fs"

lemma length_layout [codec_simps]:
  "length (layout []) = 0" "length (layout (f # fs)) = length f + length (layout fs)"
  by (simp_all add: layout_def)

text \<open>Where a field starts at the offset, it is read back; otherwise the field before it is skipped.\<close>

lemma i32_at_field [codec_simps]: "i32 x \<Longrightarrow> i32_at (layout (put_le 4 x # fs)) 0 = x"
  by (simp add: i32_at_def layout_def get_put_le wrap32_take_bit)

lemma i64_at_field [codec_simps]: "i64 x \<Longrightarrow> i64_at (layout (put_le 8 x # fs)) 0 = x"
  by (simp add: i64_at_def layout_def get_put_le wrap64_take_bit)

lemma i32_at_skip [codec_simps]:
  "length f \<le> k \<Longrightarrow> i32_at (layout (f # fs)) k = i32_at (layout fs) (k - length f)"
  by (simp add: i32_at_def layout_def)

lemma i64_at_skip [codec_simps]:
  "length f \<le> k \<Longrightarrow> i64_at (layout (f # fs)) k = i64_at (layout fs) (k - length f)"
  by (simp add: i64_at_def layout_def)

lemma byte_at_field [codec_simps]: "layout ([b] # fs) ! 0 = b"
  by (simp add: layout_def)

lemma byte_at_skip [codec_simps]:
  "length f \<le> k \<Longrightarrow> layout (f # fs) ! k = layout fs ! (k - length f)"
  by (simp add: layout_def nth_append)

lemma sint_byte [codec_simps]: "i8 x \<Longrightarrow> sint (word_of_int x :: byte) = x"
proof -
  assume "i8 x"
  then have "x = signed_take_bit 7 x"
    by (simp add: i8_def signed_take_bit_int_eq_self)
  then show ?thesis by (simp add: signed_of_int)
qed

lemma i32_at_put: "i32 x \<Longrightarrow> i32_at (put_le 4 x) 0 = x"
  using i32_at_field [of x "[]"] by (simp add: layout_def)

lemma i64_at_put: "i64 x \<Longrightarrow> i64_at (put_le 8 x) 0 = x"
  using i64_at_field [of x "[]"] by (simp add: layout_def)

section \<open>Variable-length integers\<close>

text \<open>
  \<open>binary.PutVarint\<close>: zig-zag, then seven bits per byte, low bits first, the top bit set on
  all bytes but the last.  \<open>binary.ReadVarint\<close> reads at most ten bytes.
\<close>

fun put_uvarint :: "nat \<Rightarrow> bytes" where
  "put_uvarint x = (if x < 128 then [of_nat x] else of_nat (x mod 128 + 128) # put_uvarint (x div 128))"

declare put_uvarint.simps [simp del]

definition put_varint :: "int \<Rightarrow> bytes" where
  "put_varint x = put_uvarint (if x < 0 then nat (- 2 * x - 1) else nat (2 * x))"

fun get_uvarint :: "nat \<Rightarrow> nat \<Rightarrow> bytes \<Rightarrow> (nat \<times> bytes) option" where
  "get_uvarint i x [] = None"
| "get_uvarint i x (b # bs) =
     (if 10 \<le> i then None
      else if unat b < 128 then
        (if i = 9 \<and> 1 < unat b then None else Some (x + unat b * 2 ^ (7 * i), bs))
      else get_uvarint (Suc i) (x + (unat b mod 128) * 2 ^ (7 * i)) bs)"

definition get_varint :: "bytes \<Rightarrow> (int \<times> bytes) option" where
  "get_varint bs =
     (case get_uvarint 0 0 bs of None \<Rightarrow> None
      | Some (ux, rest) \<Rightarrow> Some (if even ux then int (ux div 2) else - int (ux div 2) - 1, rest))"

lemma get_put_uvarint:
  "y < 2 ^ (64 - 7 * i) \<Longrightarrow> i < 10 \<Longrightarrow>
   get_uvarint i x (put_uvarint y @ rest) = Some (x + y * 2 ^ (7 * i), rest)"
proof (induction y arbitrary: i x rule: put_uvarint.induct)
  case (1 y)
  show ?case
  proof (cases "y < 128")
    case True
    then have u: "unat (of_nat y :: byte) = y"
      by (simp add: unat_of_nat)
    have "\<not> (i = 9 \<and> 1 < y)"
      using "1.prems" by auto
    with True u "1.prems"(2) show ?thesis
      by (simp add: put_uvarint.simps [of y])
  next
    case False
    have i: "Suc i < 10"
    proof (rule ccontr)
      assume "\<not> Suc i < 10"
      with "1.prems"(2) have "i = 9" by simp
      with "1.prems"(1) False show False by simp
    qed
    have u: "unat (of_nat (y mod 128 + 128) :: byte) = y mod 128 + 128"
    proof -
      have "y mod 128 + 128 < 256" by simp
      then show ?thesis by (simp add: unat_of_nat del: of_nat_add)
    qed
    have "y div 128 < 2 ^ (64 - 7 * Suc i)"
    proof -
      have "(2::nat) ^ (64 - 7 * i) = 2 ^ (64 - 7 * Suc i) * 128"
        using i power_add [of "2::nat" "64 - 7 * Suc i" 7] by simp
      then show ?thesis using "1.prems"(1)
        by (simp add: less_mult_imp_div_less)
    qed
    from "1.IH" [OF False this i]
    have "get_uvarint (Suc i) (x + (y mod 128) * 2 ^ (7 * i)) (put_uvarint (y div 128) @ rest)
        = Some (x + (y mod 128) * 2 ^ (7 * i) + (y div 128) * 2 ^ (7 * Suc i), rest)" .
    moreover have "(y mod 128) * 2 ^ (7 * i) + (y div 128) * 2 ^ (7 * Suc i) = y * 2 ^ (7 * i)"
    proof -
      have "(y div 128) * 2 ^ (7 * Suc i) = (y div 128 * 128) * 2 ^ (7 * i)"
        by (simp add: power_add)
      then have "(y mod 128) * 2 ^ (7 * i) + (y div 128) * 2 ^ (7 * Suc i)
          = (y mod 128 + y div 128 * 128) * 2 ^ (7 * i)"
        by (simp only: distrib_right)
      then show ?thesis by simp
    qed
    ultimately show ?thesis
      using False u "1.prems"(2) by (simp add: put_uvarint.simps [of y] add.assoc del: of_nat_add)
  qed
qed

lemma get_put_varint [codec_simps]: "i64 x \<Longrightarrow> get_varint (put_varint x @ rest) = Some (x, rest)"
proof -
  assume "i64 x"
  then have "(if x < 0 then nat (- 2 * x - 1) else nat (2 * x)) < 2 ^ (64 - 7 * 0)"
    by (auto simp: i64_def)
  from get_put_uvarint [OF this, of 0] show ?thesis
    by (auto simp: put_varint_def get_varint_def even_nat_iff nat_div_distrib [of _ 2, simplified])
qed

section \<open>Marshalling methods\<close>

text \<open>
  An \<open>Unmarshal\<close> method updates the object it is called on.  Its model takes the object and the
  stream; it returns whether the error is \<open>nil\<close>, the object and the rest of the stream.  \<open>None\<close> is
  a panic: a negative length given to \<open>make\<close>.  A failed read consumes what there is.
\<close>

type_synonym 'a unmarshal = "'a \<Rightarrow> bytes \<Rightarrow> (bool \<times> 'a \<times> bytes) option"

text \<open>\<open>io.ReadAtLeast(wire, bs, n)\<close> with \<open>bs = b[:n]\<close>, or \<open>io.ReadFull\<close>; then assignments from \<open>bs\<close>.\<close>

definition read_block :: "nat \<Rightarrow> (bytes \<Rightarrow> 'a \<Rightarrow> 'a) \<Rightarrow> 'a unmarshal" where
  "read_block n assign t wire =
     (if length wire < n then Some (False, t, [])
      else Some (True, assign (take n wire) t, drop n wire))"

text \<open>Statements in sequence; \<open>return err\<close> leaves the rest undone.\<close>

fun steps :: "'a unmarshal list \<Rightarrow> 'a unmarshal" where
  "steps [] t wire = Some (True, t, wire)"
| "steps (r # rs) t wire =
     (case r t wire of None \<Rightarrow> None
      | Some (noerr, t, wire) \<Rightarrow> if noerr then steps rs t wire else Some (False, t, wire))"

text \<open>
  A field that has an \<open>Unmarshal\<close> of its own, called as a statement: the generated code drops the
  error (\<open>t.Command.Unmarshal(wire)\<close>).
\<close>

definition read_field :: "'b unmarshal \<Rightarrow> ('a \<Rightarrow> 'b) \<Rightarrow> ('b \<Rightarrow> 'a \<Rightarrow> 'a) \<Rightarrow> 'a unmarshal" where
  "read_field um sel upd t wire =
     (case um (sel t) wire of None \<Rightarrow> None | Some (noerr, x, wire) \<Rightarrow> Some (True, upd x t, wire))"

text \<open>
  The elements of a list made by \<open>make\<close>: where the code reads the fields of an element inline, an
  error returns (\<open>strict\<close>) and leaves the other elements zero; where it calls the \<open>Unmarshal\<close> of
  the element, the error is dropped and the loop goes on.
\<close>

fun read_elems :: "bool \<Rightarrow> 'b unmarshal \<Rightarrow> 'b \<Rightarrow> nat \<Rightarrow> bytes \<Rightarrow> (bool \<times> 'b list \<times> bytes) option" where
  "read_elems strict um z 0 wire = Some (True, [], wire)"
| "read_elems strict um z (Suc n) wire =
     (case um z wire of None \<Rightarrow> None
      | Some (noerr, x, wire) \<Rightarrow>
          if strict \<and> \<not> noerr then Some (False, x # replicate n z, wire)
          else (case read_elems strict um z n wire of None \<Rightarrow> None
                | Some (noerr, xs, wire) \<Rightarrow> Some (noerr, x # xs, wire)))"

text \<open>\<open>ReadVarint\<close> consumes at most ten bytes when it fails.\<close>

definition read_list :: "bool \<Rightarrow> 'b unmarshal \<Rightarrow> 'b \<Rightarrow> ('b list \<Rightarrow> 'a \<Rightarrow> 'a) \<Rightarrow> 'a unmarshal" where
  "read_list strict um z upd t wire =
     (case get_varint wire of None \<Rightarrow> Some (False, t, drop 10 wire)
      | Some (n, wire) \<Rightarrow>
          if n < 0 then None
          else (case read_elems strict um z (nat n) wire of None \<Rightarrow> None
                | Some (noerr, xs, wire) \<Rightarrow> Some (noerr, upd xs t, wire)))"

text \<open>\<open>alen := int64(len(xs)); PutVarint; for i { write xs[i] }\<close>\<close>

definition put_list :: "('a \<Rightarrow> bytes) \<Rightarrow> 'a list \<Rightarrow> bytes" where
  "put_list put xs = put_varint (int (length xs)) @ concat (map put xs)"

lemma read_block_append [codec_simps]:
  "length bs = n \<Longrightarrow> read_block n f t (bs @ rest) = Some (True, f bs t, rest)"
  by (simp add: read_block_def)

section \<open>The contract of a message type\<close>

text \<open>
  Whatever object it is called on (the code reuses objects it does not reset) and whatever follows
  in the stream, \<open>Unmarshal\<close> reads back what \<open>Marshal\<close> wrote and leaves the rest.
\<close>

locale message =
  fixes marshal :: "'a \<Rightarrow> bytes"
    and unmarshal :: "'a unmarshal"
    and ok :: "'a \<Rightarrow> bool"
  assumes roundtrip: "ok x \<Longrightarrow> unmarshal t (marshal x @ rest) = Some (True, x, rest)"
begin

text \<open>No encoding is a proper prefix of another: the stream splits in one way only.\<close>

lemma marshal_prefix_free:
  assumes "ok x" "ok y" "marshal x @ r = marshal y @ s"
  shows "x = y \<and> r = s"
proof -
  have "Some (True, x, r) = Some (True, y, s)"
    using roundtrip [OF assms(1), of x r] roundtrip [OF assms(2), of x s] unfolding assms(3)
    by (rule trans [OF sym])
  then show ?thesis by simp
qed

lemma marshal_inject: "ok x \<Longrightarrow> ok y \<Longrightarrow> marshal x = marshal y \<Longrightarrow> x = y"
  using marshal_prefix_free [of x y "[]" "[]"] by simp

text \<open>The elements of a list, and a sequence of messages on a connection.\<close>

lemma read_elems_marshal:
  "list_all ok xs \<Longrightarrow>
   read_elems strict unmarshal z (length xs) (concat (map marshal xs) @ rest) = Some (True, xs, rest)"
  by (induction xs) (auto simp: roundtrip)

lemma read_list_marshal:
  "list_all ok xs \<Longrightarrow> i64 (int (length xs)) \<Longrightarrow>
   read_list strict unmarshal z upd t (put_list marshal xs @ rest) = Some (True, upd xs t, rest)"
  by (simp add: read_list_def put_list_def get_put_varint read_elems_marshal)

lemma read_field_marshal:
  "ok x \<Longrightarrow> read_field unmarshal sel upd t (marshal x @ rest) = Some (True, upd x t, rest)"
  by (simp add: read_field_def roundtrip)

end

section \<open>Integers and bytes as elements\<close>

definition put_i32 :: "int \<Rightarrow> bytes" where
  "put_i32 x = put_le 4 x"

definition read_i32 :: "int unmarshal" where
  "read_i32 = read_block 4 (\<lambda>bs _. i32_at bs 0)"

interpretation i32_elem: message put_i32 read_i32 i32
  by unfold_locales (simp add: put_i32_def read_i32_def codec_simps i32_at_put)

definition put_i64 :: "int \<Rightarrow> bytes" where
  "put_i64 x = put_le 8 x"

definition read_i64 :: "int unmarshal" where
  "read_i64 = read_block 8 (\<lambda>bs _. i64_at bs 0)"

interpretation i64_elem: message put_i64 read_i64 i64
  by unfold_locales (simp add: put_i64_def read_i64_def codec_simps i64_at_put)

definition put_byte :: "byte \<Rightarrow> bytes" where
  "put_byte x = [x]"

definition read_byte :: "byte unmarshal" where
  "read_byte = read_block 1 (\<lambda>bs _. bs ! 0)"

lemma read_block_byte [codec_simps]: "read_block (Suc 0) f t (b # rest) = Some (True, f [b] t, rest)"
  by (simp add: read_block_def)

interpretation byte_elem: message put_byte read_byte "\<lambda>_. True"
  by unfold_locales (simp add: put_byte_def read_byte_def codec_simps)

lemma read_list_bytes:
  "i64 (int (length xs)) \<Longrightarrow>
   read_list strict read_byte z upd t (put_list put_byte xs @ rest) = Some (True, upd xs t, rest)"
  by (rule byte_elem.read_list_marshal) (simp_all add: list_all_iff)

lemmas elem_lists [codec_simps] =
  i32_elem.read_list_marshal i64_elem.read_list_marshal read_list_bytes

end
