(* ===== verification/State.thy ===== *)
theory State
  imports Wire "HOL-Library.RBT"
begin

text \<open>
  Package \<open>state\<close>: commands, the key-value store they run on, the conflict relation the
  protocols use to decide which commands may be reordered, and the commands' wire format.

  The store itself is a tree map of the package \<open>github.com/emirpasic/gods\<close>, which is not
  part of the repository: it is a parameter, the record \<open>treemap\<close> of the operations the code
  calls, and \<open>treemap_ok\<close> states what that package documents of them.
\<close>

section \<open>Commands\<close>

type_synonym operation = "8 word"
type_synonym key = int
type_synonym "value" = bytes

definition NONE :: operation where "NONE = 0"
definition PUT :: operation where "PUT = 1"
definition GET :: operation where "GET = 2"
definition SCAN :: operation where "SCAN = 3"

lemmas operation_defs = NONE_def PUT_def GET_def SCAN_def

lemma operations_distinct [simp]:
  "NONE \<noteq> PUT" "NONE \<noteq> GET" "NONE \<noteq> SCAN" "PUT \<noteq> NONE" "PUT \<noteq> GET" "PUT \<noteq> SCAN"
  "GET \<noteq> NONE" "GET \<noteq> PUT" "GET \<noteq> SCAN" "SCAN \<noteq> NONE" "SCAN \<noteq> PUT" "SCAN \<noteq> GET"
  by (simp_all add: operation_defs)

record command =
  Op :: operation
  K :: key
  V :: "value"

definition NIL :: "value" where "NIL = []"

definition zero_command :: command where
  "zero_command = \<lparr>Op = NONE, K = 0, V = []\<rparr>"

definition NOOP :: "command list" where
  "NOOP = [\<lparr>Op = NONE, K = 0, V = NIL\<rparr>]"

definition IsRead :: "command \<Rightarrow> bool" where
  "IsRead c \<longleftrightarrow> Op c = GET"

text \<open>\<open>binary.LittleEndian.Uint64(b)\<close> panics when \<open>b\<close> has fewer than eight bytes.\<close>

definition Uint64 :: "bytes \<Rightarrow> int option" where
  "Uint64 b = (if length b < 8 then None else Some (get_le (take 8 b)))"

section \<open>The store\<close>

record 'st treemap =
  tm_Size :: "'st \<Rightarrow> nat"
  tm_Put :: "key \<Rightarrow> value \<Rightarrow> 'st \<Rightarrow> 'st"
  tm_Get :: "'st \<Rightarrow> key \<Rightarrow> value option"
  tm_Select :: "(key \<Rightarrow> value \<Rightarrow> bool) \<Rightarrow> 'st \<Rightarrow> 'st"
  tm_Entries :: "'st \<Rightarrow> (key \<times> value) list" \<comment> \<open>what \<open>Iterator\<close> visits, in its order\<close>

text \<open>\<open>KeyComparator\<close> fixes the order in which the map keeps its keys.\<close>

definition KeyComparator :: "key \<Rightarrow> key \<Rightarrow> int" where
  "KeyComparator a b = (if a > b then 1 else if a < b then -1 else 0)"

definition treemap_ok :: "'st treemap \<Rightarrow> bool" where
  "treemap_ok T \<longleftrightarrow>
     (\<forall>st k v k'. tm_Get T (tm_Put T k v st) k' = (if k' = k then Some v else tm_Get T st k')) \<and>
     (\<forall>st P k. tm_Get T (tm_Select T P st) k =
        (case tm_Get T st k of None \<Rightarrow> None | Some v \<Rightarrow> if P k v then Some v else None)) \<and>
     (\<forall>st k v. (k, v) \<in> set (tm_Entries T st) \<longleftrightarrow> tm_Get T st k = Some v) \<and>
     (\<forall>st. sorted_wrt (\<lambda>a b. KeyComparator a b < 0) (map fst (tm_Entries T st))) \<and>
     (\<forall>st. tm_Size T st = length (tm_Entries T st))"

text \<open>Red-black trees of the library satisfy the contract, so it can hold.\<close>

definition rbt_treemap :: "(key, value) RBT.rbt treemap" where
  "rbt_treemap = \<lparr>tm_Size = (\<lambda>t. length (RBT.entries t)), tm_Put = RBT.insert, tm_Get = RBT.lookup,
     tm_Select = (\<lambda>P t. RBT.bulkload (filter (\<lambda>(k, v). P k v) (RBT.entries t))),
     tm_Entries = RBT.entries\<rparr>"

lemma KeyComparator_less: "KeyComparator a b < 0 \<longleftrightarrow> a < b"
  by (simp add: KeyComparator_def)

lemma map_of_filter_pred:
  "distinct (map fst xs) \<Longrightarrow> map_of (filter (\<lambda>(k, v). P k v) xs) k =
     (case map_of xs k of None \<Rightarrow> None | Some v \<Rightarrow> if P k v then Some v else None)"
  by (induction xs) (auto split: option.splits dest: map_of_SomeD simp: rev_image_eqI)

lemma treemap_ok_rbt: "treemap_ok rbt_treemap"
  unfolding treemap_ok_def
proof (intro conjI allI)
  fix st :: "(key, value) RBT.rbt" and P :: "key \<Rightarrow> value \<Rightarrow> bool" and k k' :: key and v :: "value"
  show "tm_Get rbt_treemap (tm_Put rbt_treemap k v st) k' = (if k' = k then Some v else tm_Get rbt_treemap st k')"
    by (simp add: rbt_treemap_def)
  show "tm_Get rbt_treemap (tm_Select rbt_treemap P st) k =
      (case tm_Get rbt_treemap st k of None \<Rightarrow> None | Some v \<Rightarrow> if P k v then Some v else None)"
    by (simp add: rbt_treemap_def RBT.lookup_bulkload map_of_filter_pred RBT.distinct_entries)
  show "(k, v) \<in> set (tm_Entries rbt_treemap st) \<longleftrightarrow> tm_Get rbt_treemap st k = Some v"
    by (simp add: rbt_treemap_def RBT.lookup_in_tree)
  show "sorted_wrt (\<lambda>a b. KeyComparator a b < 0) (map fst (tm_Entries rbt_treemap st))"
    using RBT.sorted_entries [of st] RBT.distinct_entries [of st]
    by (simp add: rbt_treemap_def KeyComparator_less strict_sorted_iff)
  show "tm_Size rbt_treemap st = length (tm_Entries rbt_treemap st)"
    by (simp add: rbt_treemap_def)
qed

section \<open>Execution\<close>

definition concat_values :: "value list \<Rightarrow> value" where
  "concat_values slices = concat slices"

text \<open>
  \<open>Execute\<close>: the reply and the new store.  A \<open>SCAN\<close> whose argument has fewer than eight bytes
  panics.  \<open>c.K + Key(count)\<close> wraps at 64 bits, as does the conversion of \<open>count\<close>.
\<close>

definition Execute :: "'st treemap \<Rightarrow> command \<Rightarrow> 'st \<Rightarrow> (value \<times> 'st) option" where
  "Execute T c st =
     (if Op c = PUT then Some (NIL, tm_Put T (K c) (V c) st)
      else if Op c = GET then
        (case tm_Get T st (K c) of Some v \<Rightarrow> Some (v, st) | None \<Rightarrow> Some (NIL, st))
      else if Op c = SCAN then
        do { count \<leftarrow> Uint64 (V c);
             let found = map snd (tm_Entries T (tm_Select T
                  (\<lambda>k _. k \<ge> K c \<and> k \<le> wrap64 (K c + wrap64 count)) st));
             Some (concat_values found, st) }
      else Some (NIL, st))"

text \<open>Execution of a command sequence, replies in order.\<close>

fun Execute_all :: "'st treemap \<Rightarrow> command list \<Rightarrow> 'st \<Rightarrow> (value list \<times> 'st) option" where
  "Execute_all T [] st = Some ([], st)"
| "Execute_all T (c # cs) st =
     do { (v, st) \<leftarrow> Execute T c st; (vs, st) \<leftarrow> Execute_all T cs st; Some (v # vs, st) }"

section \<open>Conflicts\<close>

definition Conflict :: "command \<Rightarrow> command \<Rightarrow> bool option" where
  "Conflict gamma delta =
     (if Op gamma = SCAN \<and> Op delta = SCAN then Some False
      else do {
        (k, lb, ub) \<leftarrow>
          (if Op gamma = SCAN then
             do { n \<leftarrow> Uint64 (V gamma); Some (K delta, K gamma, wrap64 (K gamma + wrap64 n)) }
           else if Op delta = SCAN then
             do { n \<leftarrow> Uint64 (V delta); Some (K gamma, K delta, wrap64 (K delta + wrap64 n)) }
           else Some (K gamma, K delta, K delta));
        Some (k \<ge> lb \<and> k \<le> ub \<and> (Op gamma = PUT \<or> Op delta = PUT)) })"

fun conflict_with_any :: "command \<Rightarrow> command list \<Rightarrow> bool option" where
  "conflict_with_any c [] = Some False"
| "conflict_with_any c (d # ds) =
     do { b \<leftarrow> Conflict c d; if b then Some True else conflict_with_any c ds }"

fun ConflictBatch :: "command list \<Rightarrow> command list \<Rightarrow> bool option" where
  "ConflictBatch [] batch2 = Some False"
| "ConflictBatch (c # cs) batch2 =
     do { b \<leftarrow> conflict_with_any c batch2; if b then Some True else ConflictBatch cs batch2 }"


section \<open>Commands that do not conflict commute\<close>

text \<open>
  The store is observed through \<open>Get\<close>.  What a command replies and what it does to the
  store are functions of that observation; the split into \<open>reply\<close> and \<open>after\<close> holds for
  every command that does not panic.
\<close>

definition panics :: "command \<Rightarrow> bool" where
  "panics c \<longleftrightarrow> Op c = SCAN \<and> length (V c) < 8"

definition in_scan :: "command \<Rightarrow> key \<Rightarrow> bool" where
  "in_scan c k \<longleftrightarrow> k \<ge> K c \<and> k \<le> wrap64 (K c + wrap64 (get_le (take 8 (V c))))"

definition after :: "'st treemap \<Rightarrow> command \<Rightarrow> 'st \<Rightarrow> 'st" where
  "after T c st = (if Op c = PUT then tm_Put T (K c) (V c) st else st)"

definition reply :: "'st treemap \<Rightarrow> command \<Rightarrow> 'st \<Rightarrow> value" where
  "reply T c st =
     (if Op c = GET then (case tm_Get T st (K c) of Some v \<Rightarrow> v | None \<Rightarrow> NIL)
      else if Op c = SCAN then concat (map snd (tm_Entries T (tm_Select T (\<lambda>k _. in_scan c k) st)))
      else NIL)"

lemma Execute_eq: "Execute T c st = (if panics c then None else Some (reply T c st, after T c st))"
  by (auto simp: Execute_def reply_def after_def panics_def in_scan_def Uint64_def concat_values_def
      split: option.splits)

fun final :: "'st treemap \<Rightarrow> command list \<Rightarrow> 'st \<Rightarrow> 'st" where
  "final T [] st = st"
| "final T (c # cs) st = final T cs (after T c st)"

fun replies :: "'st treemap \<Rightarrow> command list \<Rightarrow> 'st \<Rightarrow> value list" where
  "replies T [] st = []"
| "replies T (c # cs) st = reply T c st # replies T cs (after T c st)"

lemma Execute_all_eq:
  "Execute_all T cs st = (if list_ex panics cs then None else Some (replies T cs st, final T cs st))"
  by (induction cs arbitrary: st) (auto simp: Execute_eq)

lemma final_append [simp]: "final T (cs @ ds) st = final T ds (final T cs st)"
  by (induction cs arbitrary: st) auto

lemma replies_append [simp]: "replies T (cs @ ds) st = replies T cs st @ replies T ds (final T cs st)"
  by (induction cs arbitrary: st) auto

lemma length_replies [simp]: "length (replies T cs st) = length cs"
  by (induction cs arbitrary: st) auto

lemma tm_Get_after:
  "treemap_ok T \<Longrightarrow> tm_Get T (after T c st) =
     (if Op c = PUT then (tm_Get T st)(K c \<mapsto> V c) else tm_Get T st)"
  by (auto simp: treemap_ok_def after_def fun_eq_iff)

text \<open>The entries a selection visits are determined by the observation.\<close>

lemma entries_unique:
  assumes ok: "treemap_ok T" and eq: "tm_Get T s = tm_Get T s'"
  shows "tm_Entries T s = tm_Entries T s'"
proof -
  have srt: "sorted (map fst (tm_Entries T x))" "distinct (map fst (tm_Entries T x))" for x
    using ok by (auto simp: treemap_ok_def KeyComparator_less strict_sorted_iff)
  have st: "set (tm_Entries T s) = set (tm_Entries T s')"
    using ok eq by (auto simp: treemap_ok_def)
  moreover have "inj_on fst (set (tm_Entries T s) \<union> set (tm_Entries T s'))"
    using srt(2) [of s] st by (simp add: distinct_map)
  ultimately show ?thesis
    using srt by (intro map_sorted_distinct_set_unique [of fst])
qed

lemma selected_unique:
  assumes ok: "treemap_ok T"
    and eq: "\<And>k. P k \<Longrightarrow> tm_Get T s k = tm_Get T s' k"
  shows "tm_Entries T (tm_Select T (\<lambda>k _. P k) s) = tm_Entries T (tm_Select T (\<lambda>k _. P k) s')"
proof (rule entries_unique [OF ok])
  show "tm_Get T (tm_Select T (\<lambda>k _. P k) s) = tm_Get T (tm_Select T (\<lambda>k _. P k) s')"
    using ok eq by (auto simp: treemap_ok_def fun_eq_iff split: option.splits)
qed

lemma reply_cong: "treemap_ok T \<Longrightarrow> tm_Get T s = tm_Get T s' \<Longrightarrow> reply T c s = reply T c s'"
  by (simp add: reply_def selected_unique [of T _ s s'])

lemma replies_cong:
  "treemap_ok T \<Longrightarrow> tm_Get T s = tm_Get T s' \<Longrightarrow> replies T cs s = replies T cs s'"
  by (induction cs arbitrary: s s') (auto simp: tm_Get_after intro: reply_cong)

lemma final_cong:
  "treemap_ok T \<Longrightarrow> tm_Get T s = tm_Get T s' \<Longrightarrow> tm_Get T (final T cs s) = tm_Get T (final T cs s')"
  by (induction cs arbitrary: s s') (auto simp: tm_Get_after)

lemma Conflict_sym: "Conflict d c = Conflict c d"
  by (auto simp: Conflict_def Let_def split: Option.bind_splits)

lemma reply_after_commute:
  assumes ok: "treemap_ok T" and nc: "Conflict c d = Some False"
  shows "reply T c (after T d st) = reply T c st"
proof (cases "Op d = PUT")
  case False
  with ok show ?thesis by (intro reply_cong) (auto simp: tm_Get_after)
next
  case True
  with nc have "Op c = GET \<Longrightarrow> K c \<noteq> K d" and "Op c = SCAN \<Longrightarrow> \<not> in_scan c (K d)"
    by (auto simp: Conflict_def in_scan_def Uint64_def split: if_splits)
  with ok True show ?thesis
    by (auto simp: reply_def tm_Get_after
        intro!: arg_cong [where f = "\<lambda>xs. concat (map snd xs)"] selected_unique)
qed

lemma after_commute:
  assumes ok: "treemap_ok T" and nc: "Conflict c d = Some False"
  shows "tm_Get T (after T c (after T d st)) = tm_Get T (after T d (after T c st))"
proof -
  have "K c \<noteq> K d" if "Op c = PUT" "Op d = PUT"
    using nc that by (auto simp: Conflict_def)
  then show ?thesis using ok by (auto simp: tm_Get_after fun_upd_twist)
qed

lemma reply_final_commute:
  "treemap_ok T \<Longrightarrow> \<forall>d \<in> set ds. Conflict c d = Some False \<Longrightarrow>
   reply T c (final T ds st) = reply T c st"
  by (induction ds arbitrary: st) (auto simp: reply_after_commute)

lemma after_final_commute:
  "treemap_ok T \<Longrightarrow> \<forall>d \<in> set ds. Conflict c d = Some False \<Longrightarrow>
   tm_Get T (after T c (final T ds st)) = tm_Get T (final T ds (after T c st))"
proof (induction ds arbitrary: st)
  case Nil
  then show ?case by simp
next
  case (Cons d ds)
  have "tm_Get T (final T ds (after T c (after T d st))) = tm_Get T (final T ds (after T d (after T c st)))"
    using Cons.prems by (intro final_cong after_commute) auto
  with Cons show ?case by simp
qed

lemma replies_final_commute:
  "treemap_ok T \<Longrightarrow> \<forall>c \<in> set cs. \<forall>d \<in> set ds. Conflict c d = Some False \<Longrightarrow>
   replies T cs (final T ds st) = replies T cs st"
proof (induction cs arbitrary: st)
  case Nil
  then show ?case by simp
next
  case (Cons c cs)
  have "replies T cs (after T c (final T ds st)) = replies T cs (final T ds (after T c st))"
    using Cons.prems by (intro replies_cong after_final_commute) auto
  with Cons show ?case by (simp add: reply_final_commute)
qed

lemma final_final_commute:
  "treemap_ok T \<Longrightarrow> \<forall>c \<in> set cs. \<forall>d \<in> set ds. Conflict c d = Some False \<Longrightarrow>
   tm_Get T (final T cs (final T ds st)) = tm_Get T (final T ds (final T cs st))"
proof (induction cs arbitrary: st)
  case Nil
  then show ?case by simp
next
  case (Cons c cs)
  have "tm_Get T (final T cs (after T c (final T ds st))) = tm_Get T (final T cs (final T ds (after T c st)))"
    using Cons.prems by (intro final_cong after_final_commute) auto
  with Cons show ?case by simp
qed

lemma conflict_with_any_False:
  "conflict_with_any c ds = Some False \<longleftrightarrow> (\<forall>d \<in> set ds. Conflict c d = Some False)"
  by (induction ds) (auto split: Option.bind_splits if_splits)

lemma ConflictBatch_False:
  "ConflictBatch cs ds = Some False \<longleftrightarrow> (\<forall>c \<in> set cs. \<forall>d \<in> set ds. Conflict c d = Some False)"
proof (induction cs)
  case Nil
  then show ?case by simp
next
  case (Cons c cs)
  then show ?case
    using conflict_with_any_False [of c ds]
    by (cases "conflict_with_any c ds") (auto simp del: conflict_with_any.simps)
qed

text \<open>
  C28: batches that \<open>ConflictBatch\<close> reports as free of conflicts commute: executed in either
  order from any store, they panic together, every command gets the same reply, and the two
  final stores hold the same value under every key.
\<close>

theorem conflict_free_batches_commute:
  assumes "treemap_ok T" and "ConflictBatch cs ds = Some False"
  shows "rel_option (\<lambda>(vs, s) (ws, s').
           vs = drop (length ds) ws @ take (length ds) ws \<and> tm_Get T s = tm_Get T s')
         (Execute_all T (cs @ ds) st) (Execute_all T (ds @ cs) st)"
proof -
  have nc: "\<forall>c \<in> set cs. \<forall>d \<in> set ds. Conflict c d = Some False"
    using assms(2) by (simp add: ConflictBatch_False)
  then have nc': "\<forall>d \<in> set ds. \<forall>c \<in> set cs. Conflict d c = Some False"
    by (metis Conflict_sym)
  show ?thesis
    using replies_final_commute [OF assms(1) nc, of st] replies_final_commute [OF assms(1) nc', of st]
      final_final_commute [OF assms(1) nc, of st]
    by (auto simp: Execute_all_eq)
qed

theorem conflict_free_batches_commute_witness:
  "rel_option (\<lambda>(vs, s) (ws, s'). vs = drop 1 ws @ take 1 ws \<and> tm_Get rbt_treemap s = tm_Get rbt_treemap s')
     (Execute_all rbt_treemap ([\<lparr>Op = PUT, K = 1, V = [7]\<rparr>] @ [\<lparr>Op = SCAN, K = 2, V = [3, 0, 0, 0, 0, 0, 0, 0]\<rparr>]) RBT.empty)
     (Execute_all rbt_treemap ([\<lparr>Op = SCAN, K = 2, V = [3, 0, 0, 0, 0, 0, 0, 0]\<rparr>] @ [\<lparr>Op = PUT, K = 1, V = [7]\<rparr>]) RBT.empty)"
proof -
  have "ConflictBatch [\<lparr>Op = PUT, K = 1, V = [7]\<rparr>] [\<lparr>Op = SCAN, K = 2, V = [3, 0, 0, 0, 0, 0, 0, 0]\<rparr>] = Some False"
    by (simp add: Conflict_def Uint64_def)
  from conflict_free_batches_commute [OF treemap_ok_rbt this, of RBT.empty] show ?thesis by simp
qed


section \<open>Preloading\<close>

text \<open>
  \<open>fillPreloadedValue\<close> fills a value of the given size from a 64-bit generator seeded with the
  key; all arithmetic is on \<open>uint64\<close>.
\<close>

definition GOLDEN :: "64 word" where "GOLDEN = 0x9e3779b97f4a7c15"

definition mix64 :: "64 word \<Rightarrow> 64 word" where
  "mix64 w =
     (let w = (w XOR drop_bit 30 w) * 0xbf58476d1ce4e5b9;
          w = (w XOR drop_bit 27 w) * 0x94d049bb133111eb
      in w XOR drop_bit 31 w)"

fun word_bytes :: "nat \<Rightarrow> 64 word \<Rightarrow> bytes" where
  "word_bytes 0 w = []"
| "word_bytes (Suc n) w = ucast w # word_bytes n (drop_bit 8 w)"

fun fill_loop :: "nat \<Rightarrow> 64 word \<Rightarrow> bytes" where
  "fill_loop n s =
     (if n = 0 then [] else word_bytes (min 8 n) (mix64 (s + GOLDEN)) @ fill_loop (n - 8) (s + GOLDEN))"

declare fill_loop.simps [simp del]

definition fillPreloadedValue :: "nat \<Rightarrow> 64 word \<Rightarrow> 64 word \<Rightarrow> value" where
  "fillPreloadedValue n k seed = fill_loop n (seed XOR (k * GOLDEN))"

datatype preload_error = RecordCountNegative | ValueSizeNegative | StateNotEmpty

definition hex_digit :: "nat \<Rightarrow> char" where
  "hex_digit d = (''0123456789abcdef'' ! d)"

definition EncodeToString :: "bytes \<Rightarrow> string" where
  "EncodeToString bs = concat (map (\<lambda>b. [hex_digit (unat b div 16), hex_digit (unat b mod 16)]) bs)"

text \<open>The loop over the keys; \<open>written\<close> is what the digest has been fed so far.\<close>

fun preload_loop :: "'st treemap \<Rightarrow> nat \<Rightarrow> 64 word \<Rightarrow> int list \<Rightarrow> 'st \<Rightarrow> bytes \<Rightarrow> 'st \<times> bytes" where
  "preload_loop T n seed [] st written = (st, written)"
| "preload_loop T n seed (k # ks) st written =
     (let v = fillPreloadedValue n (word_of_int k) seed
      in preload_loop T n seed ks (tm_Put T k v st) (written @ put_le 8 k @ v))"

text \<open>\<open>sha\<close> is the standard library's hash, of which nothing is used.\<close>

definition Preload ::
  "(bytes \<Rightarrow> bytes) \<Rightarrow> 'st treemap \<Rightarrow> int \<Rightarrow> int \<Rightarrow> 64 word \<Rightarrow> 'st \<Rightarrow> preload_error + string \<times> 'st" where
  "Preload sha T recordCount valueSize seed st =
     (if recordCount < 0 then Inl RecordCountNegative
      else if valueSize < 0 then Inl ValueSizeNegative
      else if tm_Size T st \<noteq> 0 then Inl StateNotEmpty
      else (let (st, written) = preload_loop T (nat valueSize) seed [0..recordCount - 1] st []
            in Inr (EncodeToString (sha written), st)))"

lemma preload_loop_state:
  "treemap_ok T \<Longrightarrow> tm_Get T (fst (preload_loop T n seed ks st w)) k =
     (if k \<in> set ks then Some (fillPreloadedValue n (word_of_int k) seed) else tm_Get T st k)"
  by (induction ks arbitrary: st w) (auto simp: Let_def treemap_ok_def)

lemma preload_loop_written:
  "snd (preload_loop T n seed ks st w) =
     w @ concat (map (\<lambda>k. put_le 8 k @ fillPreloadedValue n (word_of_int k) seed) ks)"
  by (induction ks arbitrary: st w) (auto simp: Let_def)

lemma tm_Get_of_empty: "treemap_ok T \<Longrightarrow> tm_Size T st = 0 \<Longrightarrow> tm_Get T st k = None"
proof -
  assume T: "treemap_ok T" and "tm_Size T st = 0"
  then have "tm_Entries T st = []" by (simp add: treemap_ok_def)
  moreover have "(k, v) \<in> set (tm_Entries T st) \<longleftrightarrow> tm_Get T st k = Some v" for v
    using T by (simp add: treemap_ok_def)
  ultimately show ?thesis by (cases "tm_Get T st k") auto
qed

text \<open>
  Preloading succeeds exactly on non-negative sizes and an empty store; then the store holds
  the keys \<open>0\<close> to \<open>recordCount - 1\<close> with their generated values and nothing else, and the digest
  is that of the records in key order, so replicas with equal digests hold equal records.
\<close>

theorem preload_contents:
  assumes "treemap_ok T"
  shows "case Preload sha T recordCount valueSize seed st of
      Inl e \<Rightarrow> recordCount < 0 \<or> valueSize < 0 \<or> tm_Size T st \<noteq> 0
    | Inr (digest, st') \<Rightarrow>
        0 \<le> recordCount \<and> 0 \<le> valueSize \<and> tm_Size T st = 0 \<and>
        (\<forall>k. tm_Get T st' k = (if 0 \<le> k \<and> k < recordCount
           then Some (fillPreloadedValue (nat valueSize) (word_of_int k) seed) else None)) \<and>
        digest = EncodeToString (sha (concat (map (\<lambda>k. put_le 8 k @
           fillPreloadedValue (nat valueSize) (word_of_int k) seed) [0..recordCount - 1])))"
proof (cases "recordCount < 0 \<or> valueSize < 0 \<or> tm_Size T st \<noteq> 0")
  case True
  then show ?thesis by (auto simp: Preload_def)
next
  case False
  let ?l = "preload_loop T (nat valueSize) seed [0..recordCount - 1] st []"
  have "Preload sha T recordCount valueSize seed st
      = Inr (EncodeToString (sha (snd ?l)), fst ?l)"
    using False by (simp add: Preload_def split_beta)
  with False assms show ?thesis
    by (auto simp: preload_loop_state preload_loop_written tm_Get_of_empty)
qed

lemma rbt_size_empty [simp]: "tm_Size rbt_treemap RBT.empty = 0"
  by (simp add: rbt_treemap_def RBT.entries.rep_eq RBT.empty.rep_eq)

theorem preload_contents_witness:
  "case Preload (\<lambda>bs. bs) rbt_treemap 2 1 5 RBT.empty of Inl e \<Rightarrow> False
   | Inr (digest, st') \<Rightarrow> tm_Get rbt_treemap st' 1 = Some (fillPreloadedValue 1 1 5)"
  using preload_contents [OF treemap_ok_rbt, where sha = "\<lambda>bs. bs" and recordCount = 2
      and valueSize = 1 and seed = 5 and st = RBT.empty]
  by (auto split: sum.splits)

section \<open>Preloaded values are distinct\<close>

lemma xor_shift_inject:
  fixes x y :: "'a::len word"
  assumes "0 < n" and "x XOR drop_bit n x = y XOR drop_bit n y"
  shows "x = y"
proof -
  let ?z = "x XOR y"
  have step: "bit ?z i \<longleftrightarrow> bit ?z (i + n)" for i
  proof -
    have "bit (x XOR drop_bit n x) i = bit (y XOR drop_bit n y) i" by (simp add: assms(2))
    then show ?thesis by (auto simp: bit_xor_iff bit_drop_bit_eq add.commute)
  qed
  have up: "bit ?z (i + m * n)" if "bit ?z i" for i m
  proof (induction m)
    case 0
    with that show ?case by simp
  next
    case (Suc m)
    with step [of "i + m * n"] have "bit ?z (i + m * n + n)" by blast
    then show ?case by (simp add: add.assoc add.commute [of n])
  qed
  have "\<not> bit ?z i" for i
  proof
    assume "bit ?z i"
    then have "bit ?z (i + LENGTH('a) * n)" by (rule up)
    then have "i + LENGTH('a) * n < LENGTH('a)" by (rule bit_imp_le_length)
    moreover have "LENGTH('a) \<le> LENGTH('a) * n" using assms(1) by simp
    ultimately show False by simp
  qed
  then have "?z = 0" by (intro bit_eqI) simp
  moreover have "x = ?z XOR y" by (simp add: xor.assoc)
  ultimately show ?thesis by simp
qed

lemma odd_mult_inject:
  fixes x y c d :: "64 word"
  assumes "c * d = 1" and "x * c = y * c"
  shows "x = y"
proof -
  have "x * (c * d) = y * (c * d)"
    using assms(2) by (simp add: mult.assoc [symmetric])
  with assms(1) show ?thesis by simp
qed

lemma mix64_inject: "mix64 x = mix64 y \<Longrightarrow> x = y"
proof -
  let ?c = "0xbf58476d1ce4e5b9 :: 64 word" and ?d = "0x94d049bb133111eb :: 64 word"
  let ?f = "\<lambda>w::64 word. (w XOR drop_bit 30 w) * ?c"
  let ?g = "\<lambda>w::64 word. (w XOR drop_bit 27 w) * ?d"
  assume "mix64 x = mix64 y"
  then have "?g (?f x) = ?g (?f y)"
    unfolding mix64_def Let_def by (rule xor_shift_inject [rotated]) simp
  then have "?f x XOR drop_bit 27 (?f x) = ?f y XOR drop_bit 27 (?f y)"
    by (rule odd_mult_inject [where d = 3573116690164977347, rotated]) simp
  then have "?f x = ?f y" by (rule xor_shift_inject [rotated]) simp
  then have "x XOR drop_bit 30 x = y XOR drop_bit 30 y"
    by (rule odd_mult_inject [where d = 10871156337175269513, rotated]) simp
  then show "x = y" by (rule xor_shift_inject [rotated]) simp
qed

lemma take_bit_uint64: "take_bit 64 (uint (w :: 64 word)) = uint w"
  using uint_lt2p [of w] by (simp add: take_bit_int_eq_self)

lemma word_bytes_put_le: "word_bytes n w = put_le n (uint w)"
proof (induction n arbitrary: w)
  case 0
  then show ?case by simp
next
  case (Suc n)
  have "uint (drop_bit 8 w) = drop_bit 8 (uint w)"
    by (simp add: unsigned_drop_bit_eq take_bit_uint64)
  with Suc [of "drop_bit 8 w"] show ?case by simp
qed

lemma length_word_bytes [simp]: "length (word_bytes n w) = n"
  by (simp add: word_bytes_put_le)

lemma word_bytes_8_inject: "word_bytes 8 w = word_bytes 8 v \<Longrightarrow> w = v"
proof -
  assume "word_bytes 8 w = word_bytes 8 v"
  then have "get_le (put_le 8 (uint w)) = get_le (put_le 8 (uint v))"
    by (simp add: word_bytes_put_le)
  then have "take_bit 64 (uint w) = take_bit 64 (uint v)" by (simp add: get_put_le)
  then show "w = v" by (simp add: take_bit_uint64 word_uint_eq_iff)
qed

lemma length_fill_loop [simp]: "length (fill_loop n s) = n"
proof (induction n s rule: fill_loop.induct)
  case (1 n s)
  then show ?case by (subst fill_loop.simps) auto
qed

text \<open>
  The generated values have the requested size, and where a value holds at least eight
  bytes, different keys are preloaded with different values (under every seed).
\<close>

theorem preloaded_values_distinct:
  assumes n: "8 \<le> n" and ne: "k \<noteq> k'"
  shows "length (fillPreloadedValue n k seed) = n \<and>
         fillPreloadedValue n k seed \<noteq> fillPreloadedValue n k' seed"
proof (intro conjI)
  show "length (fillPreloadedValue n k seed) = n" by (simp add: fillPreloadedValue_def)
  have first: "take 8 (fillPreloadedValue n k seed) = word_bytes 8 (mix64 ((seed XOR (k * GOLDEN)) + GOLDEN))" for k
    using n by (simp add: fillPreloadedValue_def fill_loop.simps [of n])
  show "fillPreloadedValue n k seed \<noteq> fillPreloadedValue n k' seed"
  proof
    assume "fillPreloadedValue n k seed = fillPreloadedValue n k' seed"
    then have "word_bytes 8 (mix64 ((seed XOR (k * GOLDEN)) + GOLDEN))
        = word_bytes 8 (mix64 ((seed XOR (k' * GOLDEN)) + GOLDEN))"
      unfolding first [symmetric] by (rule arg_cong)
    then have "(seed XOR (k * GOLDEN)) + GOLDEN = (seed XOR (k' * GOLDEN)) + GOLDEN"
      by (rule mix64_inject [OF word_bytes_8_inject])
    then have "seed XOR (k * GOLDEN) = seed XOR (k' * GOLDEN)" by (rule add_right_imp_eq)
    then have "seed XOR (seed XOR (k * GOLDEN)) = seed XOR (seed XOR (k' * GOLDEN))" by (rule arg_cong)
    then have "k * GOLDEN = k' * GOLDEN"
      by (simp only: xor.assoc [symmetric] xor_self_eq xor.left_neutral)
    then have "k = k'"
      by (rule odd_mult_inject [where d = 17428512612931826493, rotated]) (simp add: GOLDEN_def)
    with ne show False by simp
  qed
qed


theorem preloaded_values_distinct_witness:
  "length (fillPreloadedValue 8 0 1) = 8 \<and> fillPreloadedValue 8 0 1 \<noteq> fillPreloadedValue 8 1 1"
  by (rule preloaded_values_distinct) simp_all


section \<open>Wire format\<close>

definition Marshal_Key :: "key \<Rightarrow> bytes" where
  "Marshal_Key k = put_le 8 k"

definition Unmarshal_Key :: "key unmarshal" where
  "Unmarshal_Key = read_block 8 (\<lambda>bs _. i64_at bs 0)"

definition Marshal_Operation :: "operation \<Rightarrow> bytes" where
  "Marshal_Operation t = [t]"

definition Unmarshal_Operation :: "operation unmarshal" where
  "Unmarshal_Operation = read_block 1 (\<lambda>bs _. bs ! 0)"

text \<open>
  \<open>Value.Marshal\<close> writes the length with \<open>PutUint16\<close> into the first two of four bytes, then
  all of the value.
\<close>

definition Marshal_Value :: "value \<Rightarrow> bytes" where
  "Marshal_Value v = put_le 2 (int (length v)) @ [0, 0] @ v"

definition Unmarshal_Value :: "value unmarshal" where
  "Unmarshal_Value t wire =
     (if length wire < 4 then Some (False, t, [])
      else read_block (nat (get_le (take 2 wire))) (\<lambda>bs _. bs) t (drop 4 wire))"

definition Marshal_Command :: "command \<Rightarrow> bytes" where
  "Marshal_Command c = Marshal_Operation (Op c) @ Marshal_Key (K c) @ Marshal_Value (V c)"

text \<open>\<open>Command.Unmarshal\<close> returns the errors of the fields it reads.\<close>

definition read_part :: "'b unmarshal \<Rightarrow> ('a \<Rightarrow> 'b) \<Rightarrow> ('b \<Rightarrow> 'a \<Rightarrow> 'a) \<Rightarrow> 'a unmarshal" where
  "read_part um sel upd t wire =
     (case um (sel t) wire of None \<Rightarrow> None | Some (noerr, x, wire) \<Rightarrow> Some (noerr, upd x t, wire))"

definition Unmarshal_Command :: "command unmarshal" where
  "Unmarshal_Command = steps
     [read_part Unmarshal_Operation Op (\<lambda>x t. t\<lparr>Op := x\<rparr>),
      read_part Unmarshal_Key K (\<lambda>x t. t\<lparr>K := x\<rparr>),
      read_part Unmarshal_Value V (\<lambda>x t. t\<lparr>V := x\<rparr>)]"

definition command_ok :: "command \<Rightarrow> bool" where
  "command_ok c \<longleftrightarrow> i64 (K c) \<and> length (V c) < 2 ^ 16"

lemma Unmarshal_Value_truncated:
  "Unmarshal_Value t (Marshal_Value v @ rest) =
     Some (True, take (length v mod 2 ^ 16) v, drop (length v mod 2 ^ 16) v @ rest)"
proof -
  let ?h = "put_le 2 (int (length v)) @ [0, 0] :: bytes"
  have h: "Marshal_Value v @ rest = ?h @ v @ rest" by (simp add: Marshal_Value_def)
  have len: "nat (get_le (put_le 2 (int (length v)))) = length v mod 2 ^ 16"
    by (simp add: get_put_le take_bit_eq_mod nat_mod_distrib)
  have "length v mod 2 ^ 16 \<le> length v" by simp
  then show ?thesis
    unfolding h Unmarshal_Value_def read_block_def
    by (simp add: len del: put_le.simps)
qed

lemma Unmarshal_Command_truncated:
  assumes "i64 (K c)"
  shows "Unmarshal_Command t (Marshal_Command c @ rest) =
     Some (True, c\<lparr>V := take (length (V c) mod 2 ^ 16) (V c)\<rparr>, drop (length (V c) mod 2 ^ 16) (V c) @ rest)"
proof -
  have "Unmarshal_Operation x (Marshal_Operation o' @ w) = Some (True, o', w)" for x o' w
    by (simp add: Unmarshal_Operation_def Marshal_Operation_def read_block_byte)
  moreover have "Unmarshal_Key x (Marshal_Key (K c) @ w) = Some (True, K c, w)" for x w
    using assms by (simp add: Unmarshal_Key_def Marshal_Key_def codec_simps i64_at_put del: put_le.simps)
  ultimately show ?thesis
    by (simp add: Unmarshal_Command_def Marshal_Command_def read_part_def Unmarshal_Value_truncated)
qed

text \<open>
  A command read back from its own encoding is the command, but for its value, which is cut
  to its length modulo 65536; the bytes cut off stay in the stream, in front of whatever was
  sent next.  The round trip holds exactly for values shorter than 65536 bytes.
\<close>

theorem command_roundtrip:
  assumes "i64 (K c)"
  shows "Unmarshal_Command t (Marshal_Command c @ rest) =
           Some (True, c\<lparr>V := take (length (V c) mod 2 ^ 16) (V c)\<rparr>, drop (length (V c) mod 2 ^ 16) (V c) @ rest)
       \<and> (Unmarshal_Command t (Marshal_Command c @ rest) = Some (True, c, rest) \<longleftrightarrow> length (V c) < 2 ^ 16)"
proof -
  let ?n = "length (V c) mod 2 ^ 16"
  have eq: "Unmarshal_Command t (Marshal_Command c @ rest) = Some (True, c\<lparr>V := take ?n (V c)\<rparr>, drop ?n (V c) @ rest)"
    using assms by (rule Unmarshal_Command_truncated)
  moreover have "drop ?n (V c) @ rest = rest \<longleftrightarrow> length (V c) < 2 ^ 16"
  proof
    assume "drop ?n (V c) @ rest = rest"
    then have "length (V c) \<le> ?n" by simp
    moreover have "?n < 2 ^ 16" by simp
    ultimately show "length (V c) < 2 ^ 16" by linarith
  qed simp
  ultimately show ?thesis by (cases c) auto
qed

theorem command_roundtrip_witness:
  "Unmarshal_Command zero_command (Marshal_Command \<lparr>Op = PUT, K = -5, V = [1, 2]\<rparr> @ [9])
     = Some (True, \<lparr>Op = PUT, K = -5, V = [1, 2]\<rparr>, [9])"
  using command_roundtrip [of "\<lparr>Op = PUT, K = -5, V = [1, 2]\<rparr>" zero_command "[9]"] by (simp add: i64_def)

interpretation command_msg: message Marshal_Command Unmarshal_Command command_ok
  by unfold_locales (simp add: Unmarshal_Command_truncated command_ok_def)

interpretation value_msg: message Marshal_Value Unmarshal_Value "\<lambda>v. length v < 2 ^ 16"
  by unfold_locales (simp add: Unmarshal_Value_truncated)

interpretation key_msg: message Marshal_Key Unmarshal_Key i64
  by unfold_locales (simp add: Marshal_Key_def Unmarshal_Key_def codec_simps i64_at_put del: put_le.simps)

lemmas state_fields [codec_simps] =
  command_msg.read_field_marshal command_msg.read_list_marshal
  value_msg.read_field_marshal key_msg.read_field_marshal

end
