(* ===== verification/Quorum.thy ===== *)
theory Quorum
  imports Prelude
begin

text \<open>
  Quorums (\<open>replica/quorum.go\<close>) and ballot numbers (\<open>replica/replica.go\<close>).

  \<open>QuorumI\<close> has two counting implementations, \<open>Majority\<close> and \<open>ThreeQuarters\<close>, which accept a
  message from any replica, and explicit quorums, sets of replica identifiers.  A quorum set
  gives every replica the quorums it leads, numbered in the order the enumeration of subsets
  finds them; a ballot number encodes a leader and one of its quorums.

  Go's maps keyed \<open>0, 1, \<dots>, len - 1\<close> (\<open>QuorumsOfLeader\<close>, filled by \<open>qs[repId][len(qs[repId])] = q\<close>)
  are modelled by lists; a quorum, a map to the empty struct, by a set.
\<close>

section \<open>Quorums as acceptance rules\<close>

datatype quorum = Majority int | ThreeQuarters int | Quorum "int set"

definition NewMajorityOf :: "int \<Rightarrow> quorum" where
  "NewMajorityOf N = Majority (go_div N 2 + 1)"

definition NewThreeQuartersOf :: "int \<Rightarrow> quorum" where
  "NewThreeQuartersOf N = ThreeQuarters (go_div (3 * N) 4 + 1)"

definition NewQuorumOfAll :: "int \<Rightarrow> quorum" where
  "NewQuorumOfAll n = Quorum {0..<n}"

fun Size :: "quorum \<Rightarrow> int" where
  "Size (Majority m) = m"
| "Size (ThreeQuarters m) = m"
| "Size (Quorum q) = int (card q)"

fun Contains :: "quorum \<Rightarrow> int \<Rightarrow> bool" where
  "Contains (Majority m) repId = True"
| "Contains (ThreeQuarters m) repId = True"
| "Contains (Quorum q) repId = (repId \<in> q)"

definition Equals :: "int set \<Rightarrow> int set \<Rightarrow> bool" where
  "Equals q1 q2 \<longleftrightarrow> card q1 = card q2 \<and> (\<forall>r \<in> q1. r \<in> q2)"

lemma Equals_iff: "finite q1 \<Longrightarrow> finite q2 \<Longrightarrow> Equals q1 q2 \<longleftrightarrow> q1 = q2"
  using card_subset_eq [of q2 q1] by (auto simp: Equals_def)

text \<open>
  A set of replicas satisfies a quorum when it is contained in the replicas the quorum accepts
  and reaches its size; this is when a message set of the protocols fires.
\<close>

definition satisfies :: "int \<Rightarrow> quorum \<Rightarrow> int set \<Rightarrow> bool" where
  "satisfies N Q S \<longleftrightarrow> S \<subseteq> {0..<N} \<and> (\<forall>r \<in> S. Contains Q r) \<and> Size Q \<le> int (card S)"

section \<open>Sizes used by Paxos and EPaxos\<close>

definition FastQuorumSize :: "int \<Rightarrow> int" where
  "FastQuorumSize F = F + go_div (F + 1) 2"

definition SlowQuorumSize :: "int \<Rightarrow> int" where
  "SlowQuorumSize N = go_div (N + 1) 2"

definition WriteQuorumSize :: "int \<Rightarrow> int" where
  "WriteQuorumSize F = F + 1"

definition ReadQuorumSize :: "int \<Rightarrow> int \<Rightarrow> int" where
  "ReadQuorumSize N F = N - F"

section \<open>Intersection\<close>

text \<open>The counting argument behind all of them.\<close>

lemma card_Int_lower:
  assumes "S \<subseteq> {0..<N}" "S' \<subseteq> {0..<N}" "0 \<le> N"
  shows "int (card S) + int (card S') \<le> N + int (card (S \<inter> S'))"
proof -
  have fin: "finite S" "finite S'" using assms finite_subset by blast+
  have "card S + card S' = card (S \<union> S') + card (S \<inter> S')"
    using fin by (rule card_Un_Int)
  moreover have "card (S \<union> S') \<le> nat N"
    using card_mono [of "{0..<N}" "S \<union> S'"] assms by simp
  ultimately show ?thesis using assms(3) by linarith
qed

text \<open>
  The contract a protocol needs of its quorums: any two meet.  A quorum system is given by the
  predicate that says which sets of replicas form a quorum.
\<close>

locale intersecting =
  fixes N :: int and quorums :: "int set \<Rightarrow> bool"
  assumes bounded: "quorums S \<Longrightarrow> S \<subseteq> {0..<N}"
    and meet: "quorums S \<Longrightarrow> quorums S' \<Longrightarrow> S \<inter> S' \<noteq> {}"
begin

lemma nonempty: "quorums S \<Longrightarrow> S \<noteq> {}"
  using meet [of S S] by auto

lemma common_member: "quorums S \<Longrightarrow> quorums S' \<Longrightarrow> \<exists>r. 0 \<le> r \<and> r < N \<and> r \<in> S \<and> r \<in> S'"
  using meet [of S S'] bounded [of S] by fastforce

text \<open>What every member of one quorum says cannot be contradicted by every member of another.\<close>

lemma unanimous_unique:
  assumes "quorums S" "quorums S'" "\<forall>r \<in> S. vote r = v" "\<forall>r \<in> S'. vote r = w"
  shows "v = w"
  using common_member [OF assms(1,2)] assms(3,4) by auto

end

text \<open>
  Fast quorums: any two of them and a classic one have a common member, so a value a fast
  quorum chose is seen by every recovery.
\<close>

locale fast_intersecting = intersecting N quorums
  for N :: int and quorums :: "int set \<Rightarrow> bool" +
  fixes fast :: "int set \<Rightarrow> bool"
  assumes fast_bounded: "fast F \<Longrightarrow> F \<subseteq> {0..<N}"
    and fast_meet: "fast F \<Longrightarrow> fast F' \<Longrightarrow> quorums S \<Longrightarrow> F \<inter> F' \<inter> S \<noteq> {}"
begin

lemma fast_classic: "fast F \<Longrightarrow> quorums S \<Longrightarrow> F \<inter> S \<noteq> {}"
  using fast_meet [of F F S] by auto

text \<open>Within a classic quorum, at most one value is reported by a whole fast quorum's share.\<close>

lemma recovered_value_unique:
  assumes "quorums S" "fast F" "fast F'" "\<forall>r \<in> F \<inter> S. vote r = v" "\<forall>r \<in> F' \<inter> S. vote r = w"
  shows "v = w"
proof -
  from fast_meet [OF assms(2,3,1)] obtain r where "r \<in> F" "r \<in> F'" "r \<in> S" by auto
  with assms(4,5) show ?thesis by auto
qed

end

definition majority_quorum :: "int \<Rightarrow> int set \<Rightarrow> bool" where
  "majority_quorum N S \<longleftrightarrow> 0 \<le> N \<and> satisfies N (NewMajorityOf N) S"

definition three_quarters_quorum :: "int \<Rightarrow> int set \<Rightarrow> bool" where
  "three_quarters_quorum N S \<longleftrightarrow> 0 \<le> N \<and> satisfies N (NewThreeQuartersOf N) S"

lemma majority_card: "majority_quorum N S \<Longrightarrow> 0 \<le> N \<and> S \<subseteq> {0..<N} \<and> N < 2 * int (card S)"
  by (auto simp: majority_quorum_def satisfies_def NewMajorityOf_def)

lemma three_quarters_card:
  "three_quarters_quorum N S \<Longrightarrow> 0 \<le> N \<and> S \<subseteq> {0..<N} \<and> 3 * N < 4 * int (card S)"
  by (auto simp: three_quarters_quorum_def satisfies_def NewThreeQuartersOf_def)

lemma majority_meet:
  assumes "majority_quorum N S" "majority_quorum N S'"
  shows "S \<inter> S' \<noteq> {}"
  using majority_card [OF assms(1)] majority_card [OF assms(2)] card_Int_lower [of S N S'] by auto

interpretation maj: intersecting N "majority_quorum N" for N
  by unfold_locales (auto dest: majority_card majority_meet)

lemma three_quarters_meet:
  assumes "three_quarters_quorum N F" "three_quarters_quorum N F'" "majority_quorum N S"
  shows "F \<inter> F' \<inter> S \<noteq> {}"
proof -
  note c = three_quarters_card [OF assms(1)] three_quarters_card [OF assms(2)] majority_card [OF assms(3)]
  have "int (card F) + int (card F') \<le> N + int (card (F \<inter> F'))"
    using c by (intro card_Int_lower) auto
  moreover have "int (card (F \<inter> F')) + int (card S) \<le> N + int (card (F \<inter> F' \<inter> S))"
    using c by (intro card_Int_lower) auto
  ultimately have "0 < int (card (F \<inter> F' \<inter> S))" using c by linarith
  then show ?thesis by auto
qed

interpretation fst_maj: fast_intersecting N "majority_quorum N" "three_quarters_quorum N" for N
  by unfold_locales (use three_quarters_card in blast, rule three_quarters_meet)

text \<open>
  Among the messages of a majority, what a three-quarters quorum voted for is recoverable:
  two three-quarters quorums whose members inside the majority are each unanimous agree, so a
  value that may have been chosen on the fast path is unique.
\<close>

theorem fast_quorum_recovery:
  assumes "majority_quorum N S" "three_quarters_quorum N F" "three_quarters_quorum N F'"
    and "\<forall>r \<in> F \<inter> S. vote r = v" and "\<forall>r \<in> F' \<inter> S. vote r = w"
  shows "v = w"
  using assms by (rule fst_maj.recovered_value_unique)

theorem fast_quorum_recovery_witness:
  "majority_quorum 5 {0, 1, 2} \<and> three_quarters_quorum 5 {0, 1, 2, 3} \<and>
   three_quarters_quorum 5 {1, 2, 3, 4} \<and> (7 :: nat) = 7"
proof -
  have q: "majority_quorum 5 {0, 1, 2}" "three_quarters_quorum 5 {0, 1, 2, 3}"
      "three_quarters_quorum 5 {1, 2, 3, 4}"
    by (auto simp: majority_quorum_def three_quarters_quorum_def satisfies_def NewMajorityOf_def
        NewThreeQuartersOf_def go_div_def)
  have "(7 :: nat) = 7"
    by (rule fast_quorum_recovery [OF q, of "\<lambda>_. 7"]) simp_all
  with q show ?thesis by simp
qed

text \<open>
  With at most half of the replicas allowed to fail, a prepare quorum and an accept quorum of
  Paxos (\<open>ReadQuorumSize\<close>, \<open>WriteQuorumSize\<close>) have a common member, for every choice of \<open>F\<close>.
\<close>

theorem read_write_quorums_meet:
  assumes "S \<subseteq> {0..<N}" "S' \<subseteq> {0..<N}" "0 \<le> N"
    and "ReadQuorumSize N F \<le> int (card S)" "WriteQuorumSize F \<le> int (card S')"
  shows "S \<inter> S' \<noteq> {}"
  using card_Int_lower [OF assms(1-3)] assms(4,5)
  by (auto simp: ReadQuorumSize_def WriteQuorumSize_def)

theorem read_write_quorums_meet_witness: "{0, 1, 2} \<inter> {2, 3, 4} \<noteq> ({} :: int set)"
  by (rule read_write_quorums_meet [of _ 5 _ 2]) (auto simp: ReadQuorumSize_def WriteQuorumSize_def)

end
