(* ===== verification/GoString.thy ===== *)
theory GoString
  imports Prelude
begin

text \<open>
  The operations on strings of Go's standard library that the program uses (\<open>strings\<close>, \<open>strconv\<close>, \<open>fmt\<close>, \<open>net\<close>), on ASCII
  strings: a character is one byte.
\<close>

section \<open>Package strings\<close>

text \<open>\<open>strings.Split\<close> with a separator of one character.\<close>

fun split_at :: "char \<Rightarrow> string \<Rightarrow> string list" where
  "split_at sep [] = [[]]"
| "split_at sep (c # cs) =
     (if c = sep then [] # split_at sep cs
      else (case split_at sep cs of [] \<Rightarrow> [[c]] | w # ws \<Rightarrow> (c # w) # ws))"

definition is_space :: "char \<Rightarrow> bool" where
  "is_space c \<longleftrightarrow> c \<in> {CHR '' '', CHR 0x09, CHR 0x0A, CHR 0x0B, CHR 0x0C, CHR 0x0D}"

text \<open>\<open>strings.Fields\<close>: the maximal pieces without white space; \<open>w\<close> is the piece that is being read.\<close>

fun fields_from :: "string \<Rightarrow> string \<Rightarrow> string list" where
  "fields_from w [] = (if w = [] then [] else [w])"
| "fields_from w (c # cs) =
     (if is_space c then (if w = [] then fields_from [] cs else w # fields_from [] cs)
      else fields_from (w @ [c]) cs)"

definition Fields :: "string \<Rightarrow> string list" where
  "Fields s = fields_from [] s"

definition lower_char :: "char \<Rightarrow> char" where
  "lower_char c = (let n = of_char c :: int in if 65 \<le> n \<and> n \<le> 90 then char_of (n + 32) else c)"

definition ToLower :: "string \<Rightarrow> string" where
  "ToLower s = map lower_char s"

fun HasPrefix :: "string \<Rightarrow> string \<Rightarrow> bool" where
  "HasPrefix s [] = True"
| "HasPrefix [] (p # ps) = False"
| "HasPrefix (c # cs) (p # ps) = (c = p \<and> HasPrefix cs ps)"

fun HasSubstring :: "string \<Rightarrow> string \<Rightarrow> bool" where
  "HasSubstring [] t = HasPrefix [] t"
| "HasSubstring (c # cs) t = (HasPrefix (c # cs) t \<or> HasSubstring cs t)"

lemma lower_char_idem [simp]: "lower_char (lower_char c) = lower_char c"
proof (cases "65 \<le> (of_char c :: int) \<and> (of_char c :: int) \<le> 90")
  case True
  then show ?thesis by (simp add: lower_char_def Let_def)
qed (auto simp: lower_char_def Let_def)

lemma ToLower_idem [simp]: "ToLower (ToLower s) = ToLower s"
  by (simp add: ToLower_def)

lemma fields_from_nonempty: "[] \<notin> set (fields_from w s)"
  by (induction w s rule: fields_from.induct) auto

lemma Fields_nonempty: "w \<in> set (Fields s) \<Longrightarrow> w \<noteq> []"
  using fields_from_nonempty by (auto simp: Fields_def)

section \<open>Decimal numbers\<close>

definition digit :: "int \<Rightarrow> char" where
  "digit n = char_of (48 + n)"

function show_nat :: "int \<Rightarrow> string" where
  "show_nat n = (if n < 10 then [digit n] else show_nat (n div 10) @ [digit (n mod 10)])"
  by auto
termination by (relation "measure nat") auto

declare show_nat.simps [simp del]

text \<open>The verb \<open>%d\<close> of \<open>fmt\<close>, and \<open>strconv.Itoa\<close>.\<close>

definition show_int :: "int \<Rightarrow> string" where
  "show_int i = (if i < 0 then CHR ''-'' # show_nat (- i) else show_nat i)"

definition is_digit :: "char \<Rightarrow> bool" where
  "is_digit c \<longleftrightarrow> 48 \<le> (of_char c :: int) \<and> (of_char c :: int) \<le> 57"

definition read_nat :: "string \<Rightarrow> int" where
  "read_nat s = foldl (\<lambda>n c. 10 * n + (of_char c - 48)) 0 s"

text \<open>\<open>strconv.Atoi\<close>: an optional sign and digits, in the range of \<open>int\<close>; \<open>None\<close> is an error.\<close>

definition read_sign :: "string \<Rightarrow> int \<times> string" where
  "read_sign s = (case s of [] \<Rightarrow> (1, s)
     | c # cs \<Rightarrow> if c = CHR ''-'' then (-1, cs) else if c = CHR ''+'' then (1, cs) else (1, s))"

definition Atoi :: "string \<Rightarrow> int option" where
  "Atoi s = (let (sg, ds) = read_sign s; i = sg * read_nat ds
     in if ds = [] \<or> \<not> list_all is_digit ds \<or> \<not> i64 i then None else Some i)"

lemma digit_value [simp]: "0 \<le> n \<Longrightarrow> n < 10 \<Longrightarrow> of_char (digit n) = 48 + n"
  by (simp add: digit_def)

lemma is_digit_digit [simp]: "0 \<le> n \<Longrightarrow> n < 10 \<Longrightarrow> is_digit (digit n)"
  by (simp add: is_digit_def)

lemma show_nat_digits: "0 \<le> n \<Longrightarrow> list_all is_digit (show_nat n)"
  by (induction n rule: show_nat.induct) (subst show_nat.simps, simp)

lemma show_nat_not_Nil [simp]: "show_nat n \<noteq> []"
  by (subst show_nat.simps) simp

lemma read_show_nat [simp]: "0 \<le> n \<Longrightarrow> read_nat (show_nat n) = n"
proof (induction n rule: show_nat.induct)
  case (1 n)
  then show ?case
    by (subst show_nat.simps) (simp add: read_nat_def)
qed

lemma digit_not_sign: "is_digit c \<Longrightarrow> c \<noteq> CHR ''-'' \<and> c \<noteq> CHR ''+'' \<and> c \<noteq> CHR '':'' \<and> c \<noteq> CHR ''['' \<and> c \<noteq> CHR '']''"
  by (auto simp: is_digit_def)

lemma read_sign_nat [simp]: "0 \<le> n \<Longrightarrow> read_sign (show_nat n) = (1, show_nat n)"
  using show_nat_digits [of n] by (cases "show_nat n") (auto simp: read_sign_def dest: digit_not_sign)

lemma read_sign_minus [simp]: "read_sign (CHR ''-'' # s) = (-1, s)"
  by (simp add: read_sign_def)

lemma Atoi_show_int [simp]: "i64 i \<Longrightarrow> Atoi (show_int i) = Some i"
  by (simp add: Atoi_def show_int_def Let_def show_nat_digits)

lemma not_digits: "list_all is_digit s \<Longrightarrow> \<not> is_digit c \<Longrightarrow> c \<notin> set s"
  by (auto simp: list_all_iff)

lemma show_int_no_colon:
  "CHR '':'' \<notin> set (show_int i)" "CHR ''['' \<notin> set (show_int i)" "CHR '']'' \<notin> set (show_int i)"
  by (simp_all add: show_int_def not_digits [OF show_nat_digits] is_digit_def)

section \<open>Endpoints\<close>

text \<open>
  \<open>net.SplitHostPort\<close>.  The port starts after the last colon, at \<open>i + 1\<close>; a host in brackets may contain colons.
\<close>

definition SplitHostPort :: "string \<Rightarrow> (string \<times> string) option" where
  "SplitHostPort s =
     (if CHR '':'' \<notin> set s then None
      else let port = rev (takeWhile (\<lambda>c. c \<noteq> CHR '':'') (rev s)); i = length s - length port - 1 in
        if hd s = CHR ''['' then
          let e = length (takeWhile (\<lambda>c. c \<noteq> CHR '']'') s) in
          if e = length s \<or> e + 1 \<noteq> i \<or> CHR ''['' \<in> set (drop 1 s) \<or> CHR '']'' \<in> set (drop (e + 1) s) then None
          else Some (drop 1 (take e s), port)
        else if CHR '':'' \<in> set (take i s) \<or> CHR ''['' \<in> set s \<or> CHR '']'' \<in> set s then None
        else Some (take i s, port))"

lemma SplitHostPort_colon:
  assumes "set h \<inter> {CHR '':'', CHR ''['', CHR '']''} = {}" "set p \<inter> {CHR '':'', CHR ''['', CHR '']''} = {}"
  shows "SplitHostPort (h @ CHR '':'' # p) = Some (h, p)"
proof -
  have tw: "takeWhile (\<lambda>c. c \<noteq> CHR '':'') (rev p @ CHR '':'' # rev h) = rev p"
    using assms by (subst takeWhile_append2) auto
  have "hd (h @ CHR '':'' # p) \<noteq> CHR ''[''"
    using assms by (cases h) auto
  then show ?thesis
    using assms by (auto simp: SplitHostPort_def Let_def tw)
qed

definition endpointHost :: "string \<Rightarrow> string \<times> bool" where
  "endpointHost e = (case SplitHostPort e of Some (h, p) \<Rightarrow> (h, True) | None \<Rightarrow> (e, False))"

definition sameEndpoint :: "string \<Rightarrow> string \<Rightarrow> bool" where
  "sameEndpoint l r \<longleftrightarrow> l = r \<or>
     (let (lh, lp) = endpointHost l; (rh, rp) = endpointHost r in (\<not> lp \<or> \<not> rp) \<and> lh = rh)"

definition hasPort :: "string \<Rightarrow> bool" where
  "hasPort e \<longleftrightarrow> SplitHostPort e \<noteq> None"

definition replicaEndpoint :: "string \<Rightarrow> int \<Rightarrow> string \<times> int" where
  "replicaEndpoint e defaultPort =
     (case SplitHostPort e of None \<Rightarrow> (e, defaultPort)
      | Some (h, p) \<Rightarrow> (case Atoi p of None \<Rightarrow> (e, defaultPort) | Some n \<Rightarrow> (h, n)))"

lemma sameEndpoint_refl [simp]: "sameEndpoint e e"
  by (simp add: sameEndpoint_def)

lemma sameEndpoint_sym: "sameEndpoint l r = sameEndpoint r l"
  by (auto simp: sameEndpoint_def split: prod.splits)

lemma sameEndpoint_ports:
  "hasPort l \<Longrightarrow> hasPort r \<Longrightarrow> sameEndpoint l r \<longleftrightarrow> l = r"
  by (auto simp: sameEndpoint_def hasPort_def endpointHost_def)

text \<open>An address is written \<open>host:port\<close> by the master and read back by \<open>replicaEndpoint\<close>.\<close>

lemma replicaEndpoint_colon:
  assumes "set h \<inter> {CHR '':'', CHR ''['', CHR '']''} = {}" "i64 p"
  shows "replicaEndpoint (h @ CHR '':'' # show_int p) d = (h, p)"
  using assms show_int_no_colon [of p]
  by (simp add: replicaEndpoint_def SplitHostPort_colon)

end
