(* ===== verification/QuorumSystem.thy ===== *)
theory QuorumSystem
  imports Quorum GoString "HOL-Library.Multiset"
begin

text \<open>
  Quorum sets and quorum systems (\<open>replica/quorum.go\<close>): the enumeration of the subsets of a
  given size, the numbering of a leader's quorums, the encoding of (leader, quorum) pairs in
  ballot numbers, and the ballots named by a quorum file.  \<open>int32\<close> arithmetic on ballots wraps.
\<close>

section \<open>Ballot numbers\<close>

definition Leader :: "int \<Rightarrow> int \<Rightarrow> int" where
  "Leader ballot repNum = go_mod ballot repNum"

definition NextBallotOf :: "int \<Rightarrow> int \<Rightarrow> int \<Rightarrow> int" where
  "NextBallotOf rid oldBallot repNum =
     wrap32 (wrap32 (wrap32 (go_div oldBallot repNum + 1) * repNum) + rid)"

text \<open>
  The next ballot of a replica is larger than the ballot it replaces and belongs to that
  replica, as long as the result fits in 32 bits; otherwise it wraps to a smaller number.
\<close>

theorem NextBallotOf_higher:
  assumes "0 \<le> oldBallot" "0 \<le> rid" "rid < repNum"
    and fits: "(oldBallot div repNum + 1) * repNum + rid < 2 ^ 31"
  shows "oldBallot < NextBallotOf rid oldBallot repNum \<and>
         Leader (NextBallotOf rid oldBallot repNum) repNum = rid \<and>
         NextBallotOf rid oldBallot repNum \<le> oldBallot + repNum + rid"
proof -
  define e where "e = oldBallot div repNum + 1"
  have N: "0 < repNum" using assms by simp
  have e1: "1 \<le> e" using assms(1) N by (simp add: e_def pos_imp_zdiv_nonneg_iff)
  have pos: "0 \<le> e * repNum" "e \<le> e * repNum"
    using e1 N by (simp_all add: mult_le_cancel_left1)
  have "e * repNum + rid < 2 ^ 31" using fits by (simp add: e_def)
  with pos e1 assms(2) have "i32 e" "i32 (e * repNum)" "i32 (e * repNum + rid)"
    unfolding i32_def by linarith+
  then have nb: "NextBallotOf rid oldBallot repNum = e * repNum + rid"
    using assms(1) N by (simp add: NextBallotOf_def e_def [symmetric])
  have "repNum * (oldBallot div repNum) + oldBallot mod repNum = oldBallot" by simp
  moreover have "0 \<le> oldBallot mod repNum" "oldBallot mod repNum < repNum" using N by simp_all
  moreover have "e * repNum = repNum * (oldBallot div repNum) + repNum"
    by (simp add: e_def algebra_simps)
  ultimately have "oldBallot < e * repNum" "e * repNum \<le> oldBallot + repNum" by linarith+
  moreover have "Leader (e * repNum + rid) repNum = rid"
    using assms N pos by (simp add: Leader_def)
  ultimately show ?thesis using nb assms(2) by simp
qed

theorem NextBallotOf_higher_witness:
  "7 < NextBallotOf 2 7 5 \<and> Leader (NextBallotOf 2 7 5) 5 = 2 \<and> NextBallotOf 2 7 5 \<le> 14"
  using NextBallotOf_higher [of 7 2 5] by simp

section \<open>Quorum sets\<close>

type_synonym quorums_of_leader = "int set list"
type_synonym quorum_set = "quorums_of_leader list"

text \<open>One call of \<open>treat\<close>: the leader, the number of its quorum and the quorum.\<close>

type_synonym treat_call = "int \<times> int \<times> int set"

text \<open>
  The body of \<open>subsets\<close> for a complete subset: every member gets the subset as its next quorum.
  Results are the quorum set and the calls of \<open>treat\<close> so far.
\<close>

definition record_quorum ::
  "int \<Rightarrow> int set \<Rightarrow> quorum_set \<times> treat_call list \<Rightarrow> quorum_set \<times> treat_call list" where
  "record_quorum repNum q acc =
     foldl (\<lambda>(qs, calls) repId.
         if repId \<in> q
         then (qs[nat repId := qs ! nat repId @ [q]],
               calls @ [(repId, int (length (qs ! nat repId)), q)])
         else (qs, calls))
       acc [0..repNum - 1]"

text \<open>
  \<open>subsets\<close> and its loop.  The code does not return after recording a subset, so the loop goes
  on with a negative size and records nothing more.  \<open>ids\<close> is the identity.
\<close>

function subsets ::
    "int \<Rightarrow> int \<Rightarrow> int \<Rightarrow> int set \<Rightarrow> quorum_set \<times> treat_call list \<Rightarrow> quorum_set \<times> treat_call list"
  and subsets_loop ::
    "int \<Rightarrow> int \<Rightarrow> int \<Rightarrow> int set \<Rightarrow> quorum_set \<times> treat_call list \<Rightarrow> quorum_set \<times> treat_call list" where
  "subsets repNum quorumSize i q acc =
     subsets_loop repNum quorumSize i q (if quorumSize = 0 then record_quorum repNum q acc else acc)"
| "subsets_loop repNum quorumSize j q acc =
     (if j < repNum then
        subsets_loop repNum quorumSize (j + 1) (insert j q - {j})
          (subsets repNum (quorumSize - 1) (j + 1) (insert j q) acc)
      else acc)"
  by pat_completeness auto
termination
  by (relation "measure (\<lambda>x. case x of Inl (n, k, i, q, a) \<Rightarrow> 2 * nat (n - i) + 1
        | Inr (n, k, j, q, a) \<Rightarrow> 2 * nat (n - j))") auto

declare subsets.simps [simp del] subsets_loop.simps [simp del]

definition newQuorumSetAdvance :: "int \<Rightarrow> int \<Rightarrow> quorum_set \<times> treat_call list" where
  "newQuorumSetAdvance quorumSize repNum =
     subsets repNum quorumSize 0 {} (replicate (nat repNum) [], [])"

definition NewQuorumSet :: "int \<Rightarrow> int \<Rightarrow> quorum_set" where
  "NewQuorumSet quorumSize repNum = fst (newQuorumSetAdvance quorumSize repNum)"

text \<open>
  \<open>AQ\<close> divides by the number of the leader's quorums: a leader without quorums, or a negative
  ballot, panics.
\<close>

definition AQ :: "quorum_set \<Rightarrow> int \<Rightarrow> int set option" where
  "AQ qs ballot =
     (let n = int (length qs); l = Leader ballot n;
          lqs = (if 0 \<le> l \<and> l < n then qs ! nat l else [])
      in if n = 0 \<or> lqs = [] then None
         else let qid = go_mod (go_div ballot n) (int (length lqs))
              in Some (if 0 \<le> qid \<and> qid < int (length lqs) then lqs ! nat qid else {}))"

fun find_quorum :: "int set \<Rightarrow> int set list \<Rightarrow> nat \<Rightarrow> nat option" where
  "find_quorum q [] i = None"
| "find_quorum q (qj # qjs) i = (if Equals qj q then Some i else find_quorum q qjs (Suc i))"

definition BallotOf :: "quorum_set \<Rightarrow> int \<Rightarrow> int set \<Rightarrow> int" where
  "BallotOf qs leader q =
     (let lqs = (if 0 \<le> leader \<and> leader < int (length qs) then qs ! nat leader else [])
      in case find_quorum q lqs 0 of
           None \<Rightarrow> -1
         | Some qid \<Rightarrow> wrap32 (wrap32 (int qid * int (length qs)) + leader))"

section \<open>The enumeration is complete and without repetition\<close>

text \<open>The subsets the loop completes, in order.\<close>

function enum_subsets :: "int \<Rightarrow> int \<Rightarrow> int \<Rightarrow> int set list" where
  "enum_subsets n k j =
     (if j < n then (if k = 1 then [{j}] else []) @
        map (insert j) (enum_subsets n (k - 1) (j + 1)) @ enum_subsets n k (j + 1)
      else [])"
  by pat_completeness auto
termination by (relation "measure (\<lambda>(n, k, j). nat (n - j))") auto

declare enum_subsets.simps [simp del]

lemma subsets_loop_enum:
  "(\<forall>x \<in> q. x < j) \<Longrightarrow>
   subsets_loop n k j q acc = foldl (\<lambda>a s. record_quorum n (q \<union> s) a) acc (enum_subsets n k j)"
proof (induction n k j arbitrary: q acc rule: enum_subsets.induct)
  case (1 n k j)
  show ?case
  proof (cases "j < n")
    case False
    then show ?thesis by (simp add: subsets_loop.simps [of n k j] enum_subsets.simps [of n k j])
  next
    case True
    have q1: "\<forall>x \<in> insert j q. x < j + 1" and q2: "\<forall>x \<in> q. x < j + 1"
      using "1.prems" by auto
    have q: "insert j q - {j} = q" using "1.prems" by auto
    let ?f = "\<lambda>q a s. record_quorum n (q \<union> s) a"
    have ins: "foldl (?f (insert j q)) a xs = foldl (?f q) a (map (insert j) xs)" for a xs
      by (simp add: foldl_map)
    have "subsets_loop n k j q acc =
        subsets_loop n k (j + 1) q (subsets n (k - 1) (j + 1) (insert j q) acc)"
      using True q by (simp add: subsets_loop.simps [of n k j])
    also have "\<dots> = foldl (?f q) (subsets n (k - 1) (j + 1) (insert j q) acc) (enum_subsets n k (j + 1))"
      using True by (rule "1.IH"(2)) (rule q2)
    also have "subsets n (k - 1) (j + 1) (insert j q) acc =
        foldl (?f q) (if k = 1 then record_quorum n (insert j q) acc else acc)
          (map (insert j) (enum_subsets n (k - 1) (j + 1)))"
      unfolding subsets.simps ins [symmetric] using True q1
      by (subst "1.IH"(1)) simp_all
    finally show ?thesis using True by (simp add: enum_subsets.simps [of n k j])
  qed
qed

lemma set_enum_subsets: "set (enum_subsets n k j) = {s. s \<subseteq> {j..<n} \<and> s \<noteq> {} \<and> int (card s) = k}"
proof (induction n k j rule: enum_subsets.induct)
  case (1 n k j)
  show ?case
  proof (cases "j < n")
    case False
    then show ?thesis by (auto simp: enum_subsets.simps [of n k j])
  next
    case True
    have ivl: "{j..<n} = insert j {j + 1..<n}" using True by auto
    have fin: "finite s" if "s \<subseteq> {j..<n}" for s using that finite_subset by blast
    show ?thesis
    proof (intro set_eqI iffI)
      fix s assume "s \<in> set (enum_subsets n k j)"
      with True "1.IH" consider "s = {j}" "k = 1"
        | t where "s = insert j t" "t \<subseteq> {j + 1..<n}" "int (card t) = k - 1"
        | "s \<subseteq> {j + 1..<n}" "s \<noteq> {}" "int (card s) = k"
        by (auto simp: enum_subsets.simps [of n k j] split: if_splits)
      then show "s \<in> {s. s \<subseteq> {j..<n} \<and> s \<noteq> {} \<and> int (card s) = k}"
      proof cases
        case 2
        then have "finite t" "j \<notin> t" using finite_subset by auto
        with 2 ivl show ?thesis by auto
      qed (use True ivl in auto)
    next
      fix s assume s: "s \<in> {s. s \<subseteq> {j..<n} \<and> s \<noteq> {} \<and> int (card s) = k}"
      show "s \<in> set (enum_subsets n k j)"
      proof (cases "j \<in> s")
        case False
        with s ivl have "s \<subseteq> {j + 1..<n}" by auto
        with s True "1.IH"(2) show ?thesis by (auto simp: enum_subsets.simps [of n k j])
      next
        case j: True
        let ?t = "s - {j}"
        have t: "?t \<subseteq> {j + 1..<n}" "s = insert j ?t" "int (card ?t) = k - 1"
          using s ivl j fin [of s] card_gt_0_iff [of s] by (auto simp: card_Diff_singleton of_nat_diff Suc_leI)
        show ?thesis
        proof (cases "?t = {}")
          case True
          with t have "s = {j}" "k = 1" by auto
          with \<open>j < n\<close> show ?thesis by (simp add: enum_subsets.simps [of n 1 j])
        next
          case False
          with t True "1.IH"(1) have "?t \<in> set (enum_subsets n (k - 1) (j + 1))" by auto
          then have "s \<in> insert j ` set (enum_subsets n (k - 1) (j + 1))"
            using t(2) by (metis image_eqI)
          with \<open>j < n\<close> show ?thesis by (simp add: enum_subsets.simps [of n k j])
        qed
      qed
    qed
  qed
qed

lemma inj_on_insert: "(\<And>s. s \<in> A \<Longrightarrow> j \<notin> s) \<Longrightarrow> inj_on (insert j) A"
  by (rule inj_onI) (metis insert_ident)

lemma not_in_later: "s \<in> set (enum_subsets n k (j + 1)) \<Longrightarrow> j \<notin> s"
  by (auto simp: set_enum_subsets)

lemma distinct_enum_subsets: "distinct (enum_subsets n k j)"
proof (induction n k j rule: enum_subsets.induct)
  case (1 n k j)
  show ?case
  proof (cases "j < n")
    case False
    then show ?thesis by (simp add: enum_subsets.simps [of n k j])
  next
    case True
    let ?a = "enum_subsets n (k - 1) (j + 1)" and ?b = "enum_subsets n k (j + 1)"
    have "distinct (map (insert j) ?a)"
      using 1(1) [OF True] inj_on_insert [OF not_in_later] by (simp add: distinct_map)
    moreover have "s \<notin> set ?b" if "j \<in> s" for s
      using that not_in_later by blast
    moreover have "{j} \<notin> insert j ` set ?a"
    proof
      assume "{j} \<in> insert j ` set ?a"
      then obtain s where "s \<in> set ?a" "insert j s = {j}" by auto
      moreover from this(1) have "j \<notin> s" by (rule not_in_later)
      moreover from \<open>s \<in> set ?a\<close> have "s \<noteq> {}" by (simp add: set_enum_subsets)
      ultimately show False by blast
    qed
    ultimately show ?thesis
      using True 1(2) [OF True] by (auto simp: enum_subsets.simps [of n k j])
  qed
qed


section \<open>What the quorum set holds\<close>

lemma record_ids:
  assumes "distinct rs" "\<forall>r \<in> set rs. 0 \<le> r \<and> nat r < length qs"
  shows "foldl (\<lambda>(qs, calls) repId.
            if repId \<in> q
            then (qs[nat repId := qs ! nat repId @ [q]], calls @ [(repId, int (length (qs ! nat repId)), q)])
            else (qs, calls)) (qs, calls) rs
       = (map (\<lambda>l. qs ! l @ (if int l \<in> q \<and> int l \<in> set rs then [q] else [])) [0..<length qs],
          calls @ map (\<lambda>r. (r, int (length (qs ! nat r)), q)) (filter (\<lambda>r. r \<in> q) rs))"
  using assms
proof (induction rs arbitrary: qs calls)
  case Nil
  then show ?case by (simp add: map_nth)
next
  case (Cons r rs)
  have upd: "(qs[nat r := xs]) ! nat r' = qs ! nat r'" if "r' \<in> set rs" for r' xs
    using Cons.prems that by (metis distinct.simps(2) nat_eq_iff list.set_intros(1,2) nth_list_update_neq)
  show ?case
  proof (cases "r \<in> q")
    case False
    then show ?thesis using Cons.prems
      by (auto simp: Cons.IH intro!: map_cong)
  next
    case True
    have "foldl (\<lambda>(qs, calls) repId.
            if repId \<in> q
            then (qs[nat repId := qs ! nat repId @ [q]], calls @ [(repId, int (length (qs ! nat repId)), q)])
            else (qs, calls)) (qs, calls) (r # rs)
        = (map (\<lambda>l. qs[nat r := qs ! nat r @ [q]] ! l @ (if int l \<in> q \<and> int l \<in> set rs then [q] else []))
             [0..<length qs],
           (calls @ [(r, int (length (qs ! nat r)), q)]) @
             map (\<lambda>r'. (r', int (length (qs[nat r := qs ! nat r @ [q]] ! nat r')), q)) (filter (\<lambda>r. r \<in> q) rs))"
      using True Cons.prems by (subst foldl_Cons) (simp add: Cons.IH)
    also have "map (\<lambda>r'. (r', int (length (qs[nat r := qs ! nat r @ [q]] ! nat r')), q)) (filter (\<lambda>r. r \<in> q) rs)
        = map (\<lambda>r'. (r', int (length (qs ! nat r')), q)) (filter (\<lambda>r. r \<in> q) rs)"
      by (rule map_cong) (auto simp: upd)
    also have "map (\<lambda>l. qs[nat r := qs ! nat r @ [q]] ! l @ (if int l \<in> q \<and> int l \<in> set rs then [q] else []))
             [0..<length qs]
        = map (\<lambda>l. qs ! l @ (if int l \<in> q \<and> int l \<in> set (r # rs) then [q] else [])) [0..<length qs]"
      using True Cons.prems by (intro map_cong) (auto simp: nth_list_update)
    finally show ?thesis using True by simp
  qed
qed

lemma record_quorum_eq:
  assumes "length qs = nat n" "q \<subseteq> {0..<n}"
  shows "record_quorum n q (qs, calls)
       = (map (\<lambda>l. qs ! l @ (if int l \<in> q then [q] else [])) [0..<nat n],
          calls @ map (\<lambda>r. (r, int (length (qs ! nat r)), q)) (filter (\<lambda>r. r \<in> q) [0..n - 1]))"
proof -
  have "int l \<in> set [0..n - 1]" if "int l \<in> q" for l using assms(2) that by auto
  then have "(\<lambda>l. qs ! l @ (if int l \<in> q \<and> int l \<in> set [0..n - 1] then [q] else []))
      = (\<lambda>l. qs ! l @ (if int l \<in> q then [q] else []))" by (intro ext) auto
  then show ?thesis
    unfolding record_quorum_def using assms by (subst record_ids) (auto simp: nat_less_iff)
qed

text \<open>The state after a list of subsets: every leader's quorums and every call of \<open>treat\<close>.\<close>

definition calls_ok :: "int \<Rightarrow> quorum_set \<times> treat_call list \<Rightarrow> bool" where
  "calls_ok n acc \<longleftrightarrow> distinct (snd acc) \<and> set (snd acc) =
     {(int l, int i, fst acc ! l ! i) | l i. l < nat n \<and> i < length (fst acc ! l)}"

lemma extended_quorums:
  fixes qs :: quorum_set and N :: nat and q :: "int set"
  defines "qs' \<equiv> map (\<lambda>l. qs ! l @ (if int l \<in> q then [q] else [])) [0..<N]"
  shows "{(int l, int i, qs ! l ! i) | l i. l < N \<and> i < length (qs ! l)}
      \<union> {(int l, int (length (qs ! l)), q) | l. l < N \<and> int l \<in> q}
      = {(int l, int i, qs' ! l ! i) | l i. l < N \<and> i < length (qs' ! l)}" (is "?A \<union> ?B = ?C")
proof (intro equalityI subsetI)
  fix x assume "x \<in> ?A \<union> ?B"
  then consider l i where "x = (int l, int i, qs ! l ! i)" "l < N" "i < length (qs ! l)"
    | l where "x = (int l, int (length (qs ! l)), q)" "l < N" "int l \<in> q" by auto
  then show "x \<in> ?C"
  proof cases
    case 1
    then show ?thesis by (intro CollectI exI [of _ l] exI [of _ i]) (auto simp: qs'_def nth_append)
  next
    case 2
    then show ?thesis
      by (intro CollectI exI [of _ l] exI [of _ "length (qs ! l)"]) (auto simp: qs'_def nth_append)
  qed
next
  fix x assume "x \<in> ?C"
  then obtain l i where x: "x = (int l, int i, qs' ! l ! i)" "l < N" "i < length (qs' ! l)" by auto
  then consider "i < length (qs ! l)" | "i = length (qs ! l)" "int l \<in> q"
    by (auto simp: qs'_def less_Suc_eq split: if_splits)
  then show "x \<in> ?A \<union> ?B"
  proof cases
    case 1
    with x have "x \<in> ?A" by (intro CollectI exI [of _ l] exI [of _ i]) (auto simp: qs'_def nth_append)
    then show ?thesis ..
  next
    case 2
    with x have "x \<in> ?B" by (intro CollectI exI [of _ l]) (auto simp: qs'_def nth_append)
    then show ?thesis ..
  qed
qed

lemma record_all:
  assumes "\<forall>q \<in> set xs. q \<subseteq> {0..<n}" "length (fst acc) = nat n" "calls_ok n acc"
  shows "fst (foldl (\<lambda>a q. record_quorum n q a) acc xs)
           = map (\<lambda>l. fst acc ! l @ filter (\<lambda>q. int l \<in> q) xs) [0..<nat n]
       \<and> calls_ok n (foldl (\<lambda>a q. record_quorum n q a) acc xs)"
  using assms
proof (induction xs arbitrary: acc)
  case Nil
  then have "map (\<lambda>l. fst acc ! l) [0..<nat n] = fst acc" by (metis map_nth)
  with Nil show ?case by simp
next
  case (Cons q xs)
  obtain qs calls where acc: "acc = (qs, calls)" by fastforce
  have len: "length qs = nat n" and q: "q \<subseteq> {0..<n}" using Cons.prems acc by auto
  let ?qs = "map (\<lambda>l. qs ! l @ (if int l \<in> q then [q] else [])) [0..<nat n]"
  have eq: "record_quorum n q acc = (?qs,
      calls @ map (\<lambda>r. (r, int (length (qs ! nat r)), q)) (filter (\<lambda>r. r \<in> q) [0..n - 1]))"
    unfolding acc using len q by (rule record_quorum_eq)
  have "calls_ok n (record_quorum n q acc)"
  proof -
    have old: "set calls = {(int l, int i, qs ! l ! i) | l i. l < nat n \<and> i < length (qs ! l)}"
      and dc: "distinct calls" using Cons.prems(3) acc by (simp_all add: calls_ok_def)
    have new: "set (map (\<lambda>r. (r, int (length (qs ! nat r)), q)) (filter (\<lambda>r. r \<in> q) [0..n - 1]))
        = {(int l, int (length (qs ! l)), q) | l. l < nat n \<and> int l \<in> q}" (is "?A = ?B")
    proof
      show "?A \<subseteq> ?B"
      proof
        fix x assume "x \<in> ?A"
        then obtain r where "r \<in> q" "0 \<le> r" "r < n" "x = (r, int (length (qs ! nat r)), q)" by auto
        then show "x \<in> ?B" by (intro CollectI exI [of _ "nat r"]) auto
      qed
      show "?B \<subseteq> ?A" using q by (auto simp: image_iff intro!: bexI)
    qed
    have "set (snd (record_quorum n q acc)) =
        {(int l, int i, ?qs ! l ! i) | l i. l < nat n \<and> i < length (?qs ! l)}"
      unfolding eq snd_conv set_append old new by (rule extended_quorums)
    moreover have "distinct (snd (record_quorum n q acc))"
      unfolding eq snd_conv distinct_append old new
      using dc by (auto simp: distinct_map inj_on_def)
    moreover have "fst (record_quorum n q acc) = ?qs" by (simp add: eq)
    ultimately show ?thesis by (simp add: calls_ok_def)
  qed
  then have "fst (foldl (\<lambda>a q. record_quorum n q a) (record_quorum n q acc) xs)
           = map (\<lambda>l. fst (record_quorum n q acc) ! l @ filter (\<lambda>q. int l \<in> q) xs) [0..<nat n]
       \<and> calls_ok n (foldl (\<lambda>a q. record_quorum n q a) (record_quorum n q acc) xs)"
    using Cons.prems(1) eq by (intro Cons.IH) auto
  then show ?case by (auto simp: eq [unfolded acc] acc)
qed

lemma quorum_set_eq:
  assumes "0 < k"
  shows "NewQuorumSet k n = map (\<lambda>l. filter (\<lambda>q. int l \<in> q) (enum_subsets n k 0)) [0..<nat n]
       \<and> calls_ok n (newQuorumSetAdvance k n)"
proof -
  let ?xs = "enum_subsets n k 0"
  have e: "newQuorumSetAdvance k n = foldl (\<lambda>a q. record_quorum n q a) (replicate (nat n) [], []) ?xs"
    using assms by (simp add: newQuorumSetAdvance_def subsets.simps subsets_loop_enum)
  have "\<forall>q \<in> set ?xs. q \<subseteq> {0..<n}" by (auto simp: set_enum_subsets)
  moreover have "calls_ok n (replicate (nat n) [], [])" by (auto simp: calls_ok_def)
  ultimately have "fst (foldl (\<lambda>a q. record_quorum n q a) (replicate (nat n) [], []) ?xs)
        = map (\<lambda>l. replicate (nat n) [] ! l @ filter (\<lambda>q. int l \<in> q) ?xs) [0..<nat n]
     \<and> calls_ok n (foldl (\<lambda>a q. record_quorum n q a) (replicate (nat n) [], []) ?xs)"
    using record_all [of ?xs n "(replicate (nat n) [], [])"] by simp
  moreover have "map (\<lambda>l. replicate (nat n) [] ! l @ filter (\<lambda>q. int l \<in> q) ?xs) [0..<nat n]
      = map (\<lambda>l. filter (\<lambda>q. int l \<in> q) ?xs) [0..<nat n]"
    by (rule map_cong) auto
  ultimately show ?thesis by (simp add: e NewQuorumSet_def)
qed

lemma length_NewQuorumSet: "0 < k \<Longrightarrow> length (NewQuorumSet k n) = nat n"
  by (simp add: quorum_set_eq)

lemma leader_quorums:
  assumes "0 < k" "l < nat n"
  shows "distinct (NewQuorumSet k n ! l) \<and>
         set (NewQuorumSet k n ! l) = {q. q \<subseteq> {0..<n} \<and> int l \<in> q \<and> int (card q) = k}"
  using assms by (auto simp: quorum_set_eq set_enum_subsets distinct_enum_subsets)

text \<open>
  The quorums of a leader are exactly the sets of \<open>quorumSize\<close> replicas that contain it, each
  numbered once.
\<close>

theorem quorums_of_leader_complete:
  assumes "0 < quorumSize" "0 \<le> l" "l < repNum"
  shows "distinct (NewQuorumSet quorumSize repNum ! nat l) \<and>
         set (NewQuorumSet quorumSize repNum ! nat l)
           = {q. q \<subseteq> {0..<repNum} \<and> l \<in> q \<and> int (card q) = quorumSize}"
  using leader_quorums [of quorumSize "nat l" repNum] assms by simp

theorem quorums_of_leader_complete_witness:
  "distinct (NewQuorumSet 2 3 ! nat 1) \<and>
   set (NewQuorumSet 2 3 ! nat 1) = {q. q \<subseteq> {0..<3} \<and> 1 \<in> q \<and> int (card q) = 2}"
  by (rule quorums_of_leader_complete) simp_all

section \<open>Ballots encode a leader and one of its quorums\<close>

lemma find_quorum_Some:
  assumes "q \<in> set qs" "finite q" "\<forall>q' \<in> set qs. finite q'"
  shows "\<exists>j < length qs. find_quorum q qs i = Some (i + j) \<and> qs ! j = q"
  using assms
proof (induction qs arbitrary: i)
  case Nil
  then show ?case by simp
next
  case (Cons x xs)
  show ?case
  proof (cases "x = q")
    case True
    with Cons.prems show ?thesis by (auto simp: Equals_iff)
  next
    case False
    with Cons.prems Cons.IH [of "Suc i"] obtain j where
      "j < length xs" "find_quorum q xs (Suc i) = Some (Suc i + j)" "xs ! j = q" by auto
    with False Cons.prems show ?thesis by (auto simp: Equals_iff intro!: exI [of _ "Suc j"])
  qed
qed

definition ballot_of_quorum :: "int \<Rightarrow> int \<Rightarrow> nat \<Rightarrow> int" where
  "ballot_of_quorum n l j = wrap32 (wrap32 (int j * n) + l)"

lemma ballot_of_quorum_eq:
  assumes "0 \<le> l" "l < n" "int j * n + l < 2 ^ 31"
  shows "ballot_of_quorum n l j = int j * n + l"
proof -
  have "0 \<le> int j * n" using assms(1,2) by simp
  with assms have "i32 (int j * n)" "i32 (int j * n + l)" unfolding i32_def by linarith+
  then show ?thesis by (simp add: ballot_of_quorum_def)
qed

lemma AQ_ballot:
  assumes "0 \<le> l" "l < int (length qs)" "j < length (qs ! nat l)"
  shows "AQ qs (int j * int (length qs) + l) = Some (qs ! nat l ! j)
       \<and> Leader (int j * int (length qs) + l) (int (length qs)) = l"
proof -
  have n: "0 < int (length qs)" using assms(1,2) by (rule order_le_less_trans)
  have nn: "0 \<le> int j * int (length qs) + l" using assms(1) by simp
  have "(int j * int (length qs) + l) mod int (length qs) = l" using assms by simp
  then have l: "Leader (int j * int (length qs) + l) (int (length qs)) = l"
    using n nn by (simp add: Leader_def)
  have "(int j * int (length qs) + l) div int (length qs) = int j" using assms n by simp
  then have d: "go_div (int j * int (length qs) + l) (int (length qs)) = int j"
    using go_div_nonneg [OF nn n] by simp
  have "go_mod (int j) (int (length (qs ! nat l))) = int j"
    using assms(3) by (subst go_mod_nonneg) auto
  moreover have "qs ! nat l \<noteq> []" using assms(3) by auto
  moreover have "qs \<noteq> []" using n by simp
  ultimately show ?thesis using l d assms by (auto simp: AQ_def Let_def)
qed

text \<open>
  \<open>BallotOf\<close> and \<open>AQ\<close> are inverse to each other: the ballot of a leader and one of its quorums
  belongs to that leader and selects that quorum, for every quorum of the given size that contains
  the leader, as long as all ballots fit in 32 bits.
\<close>

theorem ballot_encodes_quorum:
  fixes quorumSize repNum :: int
  defines "qs \<equiv> NewQuorumSet quorumSize repNum"
  assumes "0 < quorumSize" "0 \<le> l" "l < repNum"
    and q: "q \<subseteq> {0..<repNum}" "l \<in> q" "int (card q) = quorumSize"
    and fits: "(int (length (qs ! nat l)) + 1) * repNum < 2 ^ 31"
  shows "AQ qs (BallotOf qs l q) = Some q \<and> Leader (BallotOf qs l q) (int (length qs)) = l \<and>
         0 \<le> BallotOf qs l q"
proof -
  have len: "int (length qs) = repNum" using assms by (simp add: qs_def length_NewQuorumSet)
  have lq: "set (qs ! nat l) = {q. q \<subseteq> {0..<repNum} \<and> l \<in> q \<and> int (card q) = quorumSize}"
    using leader_quorums [of quorumSize "nat l" repNum] assms by (simp add: qs_def)
  with q have mem: "q \<in> set (qs ! nat l)" by simp
  have fin: "finite q'" if "q' \<subseteq> {0..<repNum}" for q' using that finite_subset by blast
  have "finite q" "\<forall>q' \<in> set (qs ! nat l). finite q'" using fin q(1) lq by blast+
  with mem have "\<exists>j < length (qs ! nat l). find_quorum q (qs ! nat l) 0 = Some (0 + j) \<and> qs ! nat l ! j = q"
    by (rule find_quorum_Some)
  then obtain j where j: "j < length (qs ! nat l)" "find_quorum q (qs ! nat l) 0 = Some j"
      "qs ! nat l ! j = q" by (metis add_0)
  have "int j * repNum + l < (int (length (qs ! nat l)) + 1) * repNum"
  proof -
    have "int j * repNum \<le> int (length (qs ! nat l)) * repNum" using j(1) assms by (intro mult_right_mono) auto
    then show ?thesis using assms(4) by (simp add: distrib_right)
  qed
  with fits have "ballot_of_quorum repNum l j = int j * repNum + l"
    using assms by (intro ballot_of_quorum_eq) auto
  then have "BallotOf qs l q = int j * int (length qs) + l"
    using j len assms(3,4) by (simp add: BallotOf_def Let_def ballot_of_quorum_def)
  moreover have "AQ qs (int j * int (length qs) + l) = Some (qs ! nat l ! j)
       \<and> Leader (int j * int (length qs) + l) (int (length qs)) = l"
    using assms(3,4) len j(1) by (intro AQ_ballot) auto
  ultimately show ?thesis using j(3) assms(3) len by simp
qed

lemma quorum_set_3: "NewQuorumSet 2 3 = [[{0, 1}, {0, 2}], [{0, 1}, {1, 2}], [{0, 2}, {1, 2}]]"
  by (simp add: quorum_set_eq enum_subsets.simps upt_rec insert_commute)

theorem ballot_encodes_quorum_witness:
  "AQ (NewQuorumSet 2 3) (BallotOf (NewQuorumSet 2 3) 1 {1, 2}) = Some {1, 2} \<and>
   Leader (BallotOf (NewQuorumSet 2 3) 1 {1, 2}) (int (length (NewQuorumSet 2 3))) = 1 \<and>
   0 \<le> BallotOf (NewQuorumSet 2 3) 1 {1, 2}"
  by (rule ballot_encodes_quorum) (auto simp: quorum_set_3)

section \<open>The ballot of a given quorum above a given ballot\<close>

text \<open>\<open>SameHigher\<close> divides by the number of quorums of the leader of \<open>sameAs\<close>; \<open>None\<close> is its panic.\<close>

definition SameHigher :: "quorum_set \<Rightarrow> int \<Rightarrow> int \<Rightarrow> int option" where
  "SameHigher qs sameAs higherThan =
     (let l = Leader sameAs (int (length qs));
          len = (if 0 \<le> l \<and> l < int (length qs) then int (length (qs ! nat l)) else 0);
          k = go_div higherThan len
      in if length qs = 0 \<or> len = 0 then None
         else Some (wrap32 (sameAs + wrap32 (wrap32 (k * len) * int (length qs)))))"

lemma AQ_cong:
  assumes "Leader b (int (length qs)) = l" "Leader b' (int (length qs)) = l" "0 \<le> l" "l < int (length qs)"
    and "go_mod (go_div b (int (length qs))) (int (length (qs ! nat l)))
       = go_mod (go_div b' (int (length qs))) (int (length (qs ! nat l)))"
  shows "AQ qs b = AQ qs b'"
  using assms unfolding AQ_def Let_def by simp

lemma AQ_shift:
  assumes "AQ qs b = Some q" "0 \<le> b" "0 \<le> k"
    and lqs: "lqs = qs ! nat (Leader b (int (length qs)))"
  shows "AQ qs (b + k * int (length lqs) * int (length qs)) = Some q"
proof -
  let ?n = "int (length qs)" and ?m = "int (length lqs)"
  let ?b = "b + k * ?m * ?n"
  have n: "0 < ?n" using assms(1) by (auto simp: AQ_def Let_def split: if_splits)
  then have l: "0 \<le> Leader b ?n" "Leader b ?n < ?n" using assms(2) by (simp_all add: Leader_def)
  with assms(1) lqs have ne: "lqs \<noteq> []" by (auto simp: AQ_def Let_def split: if_splits)
  then have m: "0 < ?m" by simp
  have nn: "0 \<le> ?b" using assms(2,3) by simp
  have lead: "Leader ?b ?n = Leader b ?n" using n nn assms(2) by (simp add: Leader_def)
  have "?b div ?n = b div ?n + k * ?m" using n by simp
  then have d: "go_div ?b ?n = go_div b ?n + k * ?m" "0 \<le> go_div b ?n"
    using n nn assms(2) by (simp_all add: pos_imp_zdiv_nonneg_iff)
  then have "go_mod (go_div ?b ?n) ?m = go_mod (go_div b ?n) ?m"
    using m assms(3) by simp
  then have "AQ qs ?b = AQ qs b" using lead lqs l by (intro AQ_cong) simp_all
  then show ?thesis using assms(1) by simp
qed

text \<open>
  \<open>SameHigher\<close> returns a ballot with the quorum and the leader of \<open>SameAs\<close>; but the result is
  above \<open>higherThan\<close> only where \<open>higherThan\<close> is at least the number of the leader's quorums (or
  below \<open>sameAs\<close>): for a smaller \<open>higherThan\<close> it is \<open>sameAs\<close> itself.
\<close>

theorem SameHigher_quorum:
  fixes sameAs higherThan :: int
  defines "m qs \<equiv> int (length (qs ! nat (Leader sameAs (int (length qs)))))"
  assumes "AQ qs sameAs = Some q" "0 \<le> sameAs" "0 \<le> higherThan" "2 \<le> length qs"
    and fits: "sameAs + higherThan * int (length qs) < 2 ^ 31"
  shows "\<exists>b. SameHigher qs sameAs higherThan = Some b \<and> AQ qs b = Some q \<and>
             Leader b (int (length qs)) = Leader sameAs (int (length qs)) \<and>
             (higherThan < b \<longleftrightarrow> m qs \<le> higherThan \<or> higherThan < sameAs)"
proof -
  let ?n = "int (length qs)" and ?m = "m qs"
  define k where "k = higherThan div ?m"
  let ?b = "sameAs + k * ?m * ?n"
  have n: "2 \<le> ?n" using assms by simp
  then have n0: "0 < ?n" by linarith
  have l: "0 \<le> Leader sameAs ?n" "Leader sameAs ?n < ?n"
    using go_mod_nonneg [OF assms(3) n0] n0 by (simp_all add: Leader_def)
  with assms(2) have "qs ! nat (Leader sameAs ?n) \<noteq> []" by (auto simp: AQ_def Let_def split: if_splits)
  then have m: "0 < ?m" by (simp add: m_def)
  have k: "0 \<le> k" "k * ?m \<le> higherThan" "higherThan < k * ?m + ?m"
    using assms(4) m pos_mod_bound [of ?m higherThan] pos_mod_sign [of ?m higherThan]
      div_mult_mod_eq [of higherThan ?m] unfolding k_def
    by (simp add: pos_imp_zdiv_nonneg_iff, linarith, linarith)
  have kn: "0 \<le> k * ?m" "k * ?m * ?n \<le> higherThan * ?n" "k * ?m * 2 \<le> k * ?m * ?n" "0 \<le> k * ?m * ?n"
    using k m n by (auto intro!: mult_right_mono mult_left_mono)
  have "k * ?m < 2 ^ 31" using kn fits assms(3) by linarith
  with kn fits assms(3) have "i32 (k * ?m)" "i32 (k * ?m * ?n)" "i32 ?b" unfolding i32_def by linarith+
  moreover have "go_div higherThan ?m = k" using assms(4) m by (simp add: k_def)
  moreover have "SameHigher qs sameAs higherThan
      = Some (wrap32 (sameAs + wrap32 (wrap32 (go_div higherThan ?m * ?m) * ?n)))"
    using l n m unfolding SameHigher_def Let_def m_def by auto
  ultimately have sh: "SameHigher qs sameAs higherThan = Some ?b" by simp
  have aq: "AQ qs ?b = Some q"
    using AQ_shift [OF assms(2,3) k(1) refl] by (simp add: m_def)
  have "0 \<le> ?b" using kn(4) assms(3) by linarith
  then have lead: "Leader ?b ?n = Leader sameAs ?n"
    unfolding Leader_def using go_mod_nonneg [OF _ n0] assms(3) by simp
  have "higherThan < ?b \<longleftrightarrow> ?m \<le> higherThan \<or> higherThan < sameAs"
  proof (cases "?m \<le> higherThan")
    case True
    with m have "1 \<le> k" by (simp add: k_def pos_imp_zdiv_pos_iff int_one_le_iff_zero_less)
    with m have "?m \<le> k * ?m" by (simp add: mult_le_cancel_right1)
    with True k kn assms(3) show ?thesis by linarith
  next
    case False
    with assms(4) m have "k = 0" by (simp add: k_def)
    with False show ?thesis by simp
  qed
  with sh aq lead show ?thesis by blast
qed

theorem SameHigher_quorum_witness:
  "\<exists>b. SameHigher (NewQuorumSet 2 3) 0 1 = Some b \<and> AQ (NewQuorumSet 2 3) b = Some {0, 1} \<and> \<not> 1 < b"
proof -
  have "AQ (NewQuorumSet 2 3) 0 = Some {0, 1}" by (simp add: quorum_set_3 AQ_def Leader_def Let_def)
  from SameHigher_quorum [OF this, of 1] show ?thesis by (auto simp: quorum_set_3 Leader_def)
qed

section \<open>Quorum files\<close>

datatype quorum_error = NO_QUORUM_FILE | THREE_QUARTERS | IO_ERROR

text \<open>
  The quorum file as \<open>os.Open\<close> and the scanner deliver it: no name given, an error of \<open>Open\<close>, or
  the lines and whether the scanner stopped with an error.
\<close>

datatype quorum_file = NoFile | OpenError | Lines "string list" bool

text \<open>What the code uses of \<open>Replica\<close>: \<open>N\<close>, \<open>Config.ReplicaAddrs\<close> and \<open>PeerAddrList\<close>.\<close>

record replica_addrs =
  rep_N :: int
  ReplicaAddrs :: "string \<Rightarrow> string option"
  PeerAddrList :: "string list"

definition find_replica :: "replica_addrs \<Rightarrow> string \<Rightarrow> int option" where
  "find_replica r addr =
     List.find (\<lambda>rid. let peerAddr = PeerAddrList r ! nat rid; peerHost = hd (split_at CHR '':'' peerAddr)
                 in addr = peerAddr \<or> CHR '':'' \<notin> set addr \<and> addr = peerHost) [0..rep_N r - 1]"

type_synonym file_state = "int set list \<times> int list \<times> quorum_error option"

definition quorum_line :: "replica_addrs \<Rightarrow> string \<Rightarrow> file_state \<Rightarrow> file_state" where
  "quorum_line r text acc =
     (let (AQs, leaders, err) = acc; data = split_at CHR '' '' text; i = length AQs - 1 in
      if data = [''---''] then (AQs @ [{}], leaders @ [0], err)
      else if data = [''3/4''] then (AQs, leaders, Some THREE_QUARTERS)
      else
        let isLeader = (length data \<noteq> 1);
            alias = (if isLeader then data ! 1 else data ! 0);
            addr = (case ReplicaAddrs r alias of Some a \<Rightarrow> a | None \<Rightarrow> [])
        in case find_replica r addr of
             None \<Rightarrow> (AQs, leaders, err)
           | Some rid \<Rightarrow>
               (AQs[i := insert rid (AQs ! i)], if isLeader then leaders[i := rid] else leaders, err))"

fun NewQuorumsFromFile :: "quorum_file \<Rightarrow> replica_addrs \<Rightarrow> file_state" where
  "NewQuorumsFromFile NoFile r = ([], [], Some NO_QUORUM_FILE)"
| "NewQuorumsFromFile OpenError r = ([], [], Some IO_ERROR)"
| "NewQuorumsFromFile (Lines ls scan_error) r =
     (let (AQs, leaders, err) = foldl (\<lambda>acc l. quorum_line r l acc) ([{}], [0], None) ls
      in (AQs, leaders, if scan_error then Some IO_ERROR else err))"

section \<open>Quorum systems\<close>

record quorum_system =
  sys_qs :: quorum_set
  ballots :: "int list"

text \<open>The callback of \<open>NewQuorumSystem\<close>, on the calls the enumeration makes, in order.\<close>

definition treat_entry ::
  "int \<Rightarrow> int set list \<Rightarrow> int list \<Rightarrow> treat_call \<Rightarrow> (int \<rightharpoonup> nat) \<times> int list \<Rightarrow> (int \<rightharpoonup> nat) \<times> int list" where
  "treat_entry N AQs leaders call acc =
     (case call of (l, qid, q) \<Rightarrow>
        foldl (\<lambda>(ids, bs) i.
            if leaders ! i \<noteq> l \<or> \<not> Equals q (AQs ! i) then (ids, bs)
            else let ballot = wrap32 (wrap32 (qid * N) + l) in (ids(ballot \<mapsto> i), bs @ [ballot]))
          acc [0..<length leaders])"

definition NewQuorumSystem ::
  "int \<Rightarrow> replica_addrs \<Rightarrow> quorum_file \<Rightarrow> quorum_system option \<times> quorum_error option" where
  "NewQuorumSystem quorumSize r qfile =
     (let (AQs, leaders, err) = NewQuorumsFromFile qfile r in
      if err = Some NO_QUORUM_FILE then
        (Some \<lparr>sys_qs = NewQuorumSet quorumSize (rep_N r), ballots = []\<rparr>, None)
      else if err \<noteq> None \<and> err \<noteq> Some THREE_QUARTERS then (None, err)
      else
        let (qs, calls) = newQuorumSetAdvance quorumSize (rep_N r);
            (ids, bs) = foldl (\<lambda>acc c. treat_entry (rep_N r) AQs leaders c acc) (Map.empty, []) calls
        in (Some \<lparr>sys_qs = qs, ballots = sort_key (\<lambda>b. the (ids b)) bs\<rparr>, err))"

definition BallotAt :: "quorum_system \<Rightarrow> nat \<Rightarrow> int" where
  "BallotAt sys i = (if i < length (ballots sys) then ballots sys ! i else -1)"

text \<open>
  Entries are well-formed when each is a set of \<open>quorumSize\<close> replicas with its leader in it, no
  (leader, quorum) pair is repeated, and the ballots fit in 32 bits.
\<close>

definition entries_ok :: "int \<Rightarrow> int \<Rightarrow> int set list \<Rightarrow> int list \<Rightarrow> bool" where
  "entries_ok k N AQs leaders \<longleftrightarrow> length AQs = length leaders \<and> distinct (zip leaders AQs) \<and>
     (\<forall>i < length leaders. AQs ! i \<subseteq> {0..<N} \<and> leaders ! i \<in> AQs ! i \<and> int (card (AQs ! i)) = k \<and>
        (int (length (NewQuorumSet k N ! nat (leaders ! i))) + 1) * N < 2 ^ 31)"

lemma distinct_concat_map:
  assumes "distinct xs" "\<forall>x \<in> set xs. distinct (f x)"
    and "\<forall>x \<in> set xs. \<forall>y \<in> set xs. \<forall>z. z \<in> set (f x) \<longrightarrow> z \<in> set (f y) \<longrightarrow> x = y"
  shows "distinct (concat (map f xs))"
  using assms
proof (induction xs)
  case Nil
  then show ?case by simp
next
  case (Cons x xs)
  have "set (f x) \<inter> set (concat (map f xs)) = {}"
  proof (rule ccontr)
    assume "\<not> ?thesis"
    then obtain z y where "z \<in> set (f x)" "y \<in> set xs" "z \<in> set (f y)" by auto
    with Cons.prems(3) have "x = y" by (metis list.set_intros)
    with \<open>y \<in> set xs\<close> Cons.prems(1) show False by simp
  qed
  with Cons show ?case by simp
qed

lemma foldl_map_upd:
  "foldl (\<lambda>m (k, v). m(k \<mapsto> v)) m xs = m ++ map_of (rev xs)"
  by (induction xs arbitrary: m) (auto simp: map_add_def split: option.splits)

definition entry_pairs :: "int \<Rightarrow> int set list \<Rightarrow> int list \<Rightarrow> treat_call \<Rightarrow> (int \<times> nat) list" where
  "entry_pairs N AQs leaders call =
     (case call of (l, qid, q) \<Rightarrow> map (\<lambda>i. (wrap32 (wrap32 (qid * N) + l), i))
        (filter (\<lambda>i. leaders ! i = l \<and> Equals q (AQs ! i)) [0..<length leaders]))"

lemma treat_entry_pairs:
  "treat_entry N AQs leaders call (ids, bs) =
     (foldl (\<lambda>m (k, v). m(k \<mapsto> v)) ids (entry_pairs N AQs leaders call),
      bs @ map fst (entry_pairs N AQs leaders call))"
proof -
  obtain l qid q where call: "call = (l, qid, q)" by (cases call)
  have "foldl (\<lambda>(ids, bs) i.
            if leaders ! i \<noteq> l \<or> \<not> Equals q (AQs ! i) then (ids, bs)
            else let ballot = wrap32 (wrap32 (qid * N) + l) in (ids(ballot \<mapsto> i), bs @ [ballot]))
          (ids, bs) is
      = (let ps = map (\<lambda>i. (wrap32 (wrap32 (qid * N) + l), i))
           (filter (\<lambda>i. leaders ! i = l \<and> Equals q (AQs ! i)) is)
         in (foldl (\<lambda>m (k, v). m(k \<mapsto> v)) ids ps, bs @ map fst ps))" for "is"
    by (induction "is" arbitrary: ids bs) (auto simp: Let_def)
  then show ?thesis by (simp add: treat_entry_def entry_pairs_def call Let_def)
qed

lemma treat_entries:
  "foldl (\<lambda>acc c. treat_entry N AQs leaders c acc) (ids, bs) calls =
     (let ps = concat (map (entry_pairs N AQs leaders) calls)
      in (foldl (\<lambda>m (k, v). m(k \<mapsto> v)) ids ps, bs @ map fst ps))"
  by (induction calls arbitrary: ids bs) (auto simp: treat_entry_pairs Let_def)

text \<open>The quorum of an entry has one number, and its ballot encodes the entry.\<close>

lemma entry_index:
  assumes "0 < k" "entries_ok k N AQs leaders" "i < length leaders"
  obtains j where "j < length (NewQuorumSet k N ! nat (leaders ! i))"
    "NewQuorumSet k N ! nat (leaders ! i) ! j = AQs ! i"
    "0 \<le> leaders ! i" "leaders ! i < N"
    "wrap32 (wrap32 (int j * N) + leaders ! i) = int j * N + leaders ! i"
    "\<And>j'. j' < length (NewQuorumSet k N ! nat (leaders ! i)) \<Longrightarrow>
       NewQuorumSet k N ! nat (leaders ! i) ! j' = AQs ! i \<Longrightarrow> j' = j"
proof -
  let ?l = "leaders ! i"
  let ?lqs = "NewQuorumSet k N ! nat ?l"
  have e: "AQs ! i \<subseteq> {0..<N}" "?l \<in> AQs ! i" "int (card (AQs ! i)) = k"
      "(int (length ?lqs) + 1) * N < 2 ^ 31" using assms by (auto simp: entries_ok_def)
  then have l: "0 \<le> ?l" "?l < N" by auto
  with leader_quorums [OF assms(1), of "nat ?l" N] e have q: "distinct ?lqs" "AQs ! i \<in> set ?lqs" by auto
  then obtain j where j: "j < length ?lqs" "?lqs ! j = AQs ! i" by (auto simp: in_set_conv_nth)
  have "int j * N \<le> int (length ?lqs) * N" using j(1) l by (intro mult_right_mono) auto
  with e(4) l have "int j * N + ?l < 2 ^ 31" unfolding distrib_right mult_1 by linarith
  with l have "wrap32 (wrap32 (int j * N) + ?l) = int j * N + ?l"
    using ballot_of_quorum_eq [of ?l N j] by (simp add: ballot_of_quorum_def)
  moreover have "j' = j" if "j' < length ?lqs" "?lqs ! j' = AQs ! i" for j'
    using that j q(1) by (simp add: nth_eq_iff_index_eq [symmetric])
  ultimately show ?thesis using that j l by blast
qed

definition entry_num :: "int \<Rightarrow> int \<Rightarrow> int set list \<Rightarrow> int list \<Rightarrow> nat \<Rightarrow> nat" where
  "entry_num k N AQs leaders i = the (find_quorum (AQs ! i) (NewQuorumSet k N ! nat (leaders ! i)) 0)"

lemma leader_quorum_finite:
  assumes "0 < k" "l < nat N" "q \<in> set (NewQuorumSet k N ! l)"
  shows "finite q"
  using leader_quorums [OF assms(1,2)] assms(3) finite_subset [of q "{0..<N}"] by auto

lemma entry_finite: "entries_ok k N AQs leaders \<Longrightarrow> i < length leaders \<Longrightarrow> finite (AQs ! i)"
  using finite_subset [of "AQs ! i" "{0..<N}"] by (auto simp: entries_ok_def)

lemma entry_num:
  assumes "0 < k" "entries_ok k N AQs leaders" "i < length leaders"
  shows "entry_num k N AQs leaders i < length (NewQuorumSet k N ! nat (leaders ! i)) \<and>
    NewQuorumSet k N ! nat (leaders ! i) ! entry_num k N AQs leaders i = AQs ! i \<and>
    0 \<le> leaders ! i \<and> leaders ! i < N \<and>
    wrap32 (wrap32 (int (entry_num k N AQs leaders i) * N) + leaders ! i)
      = int (entry_num k N AQs leaders i) * N + leaders ! i"
proof -
  let ?lqs = "NewQuorumSet k N ! nat (leaders ! i)"
  obtain j where j: "j < length ?lqs" "?lqs ! j = AQs ! i"
    "0 \<le> leaders ! i" "leaders ! i < N"
    "wrap32 (wrap32 (int j * N) + leaders ! i) = int j * N + leaders ! i"
    "\<And>j'. j' < length ?lqs \<Longrightarrow> ?lqs ! j' = AQs ! i \<Longrightarrow> j' = j"
    using entry_index [OF assms] by metis
  have "nat (leaders ! i) < nat N" using j(3,4) by simp
  then have "\<forall>q \<in> set ?lqs. finite q" using leader_quorum_finite [OF assms(1)] by blast
  moreover have "AQs ! i \<in> set ?lqs" using j(1,2) by (metis nth_mem)
  ultimately obtain m where m: "m < length ?lqs" "find_quorum (AQs ! i) ?lqs 0 = Some (0 + m)" "?lqs ! m = AQs ! i"
    using find_quorum_Some [OF _ entry_finite [OF assms(2,3)], of ?lqs 0] by blast
  have "entry_num k N AQs leaders i = j" unfolding entry_num_def m(2) using j(6) [OF m(1,3)] by simp
  then show ?thesis using j(1-5) by blast
qed

lemma entry_num_unique:
  assumes "0 < k" "entries_ok k N AQs leaders" "i < length leaders"
    and "j < length (NewQuorumSet k N ! nat (leaders ! i))" "NewQuorumSet k N ! nat (leaders ! i) ! j = AQs ! i"
  shows "j = entry_num k N AQs leaders i"
proof -
  have "distinct (NewQuorumSet k N ! nat (leaders ! i))"
    using leader_quorums [OF assms(1), of "nat (leaders ! i)" N] entry_num [OF assms(1-3)] by simp
  then show ?thesis
    using entry_num [OF assms(1-3)] assms(4,5)
      nth_eq_iff_index_eq [of _ j "entry_num k N AQs leaders i"] by blast
qed

definition entry_call :: "int \<Rightarrow> int \<Rightarrow> int set list \<Rightarrow> int list \<Rightarrow> nat \<Rightarrow> treat_call" where
  "entry_call k N AQs leaders i = (leaders ! i, int (entry_num k N AQs leaders i), AQs ! i)"

definition entry_ballot :: "int \<Rightarrow> int \<Rightarrow> int set list \<Rightarrow> int list \<Rightarrow> nat \<Rightarrow> int" where
  "entry_ballot k N AQs leaders i = int (entry_num k N AQs leaders i) * N + leaders ! i"

lemma treat_calls:
  assumes "0 < k"
  shows "distinct (snd (newQuorumSetAdvance k N)) \<and>
    set (snd (newQuorumSetAdvance k N)) =
      {(int l, int i, NewQuorumSet k N ! l ! i) | l i. l < nat N \<and> i < length (NewQuorumSet k N ! l)}"
  using quorum_set_eq [OF assms, of N] by (simp add: calls_ok_def NewQuorumSet_def)

lemma entry_pairs_block:
  assumes ok: "0 < k" "entries_ok k N AQs leaders" and c: "c \<in> set (snd (newQuorumSetAdvance k N))"
  shows "set (entry_pairs N AQs leaders c) =
    {(entry_ballot k N AQs leaders i, i) | i. i < length leaders \<and> c = entry_call k N AQs leaders i}"
proof -
  obtain l j where c: "c = (int l, int j, NewQuorumSet k N ! l ! j)" "l < nat N" "j < length (NewQuorumSet k N ! l)"
    using c unfolding treat_calls [OF ok(1), THEN conjunct2] by auto
  have fin: "finite (NewQuorumSet k N ! l ! j)" using leader_quorum_finite [OF ok(1) c(2)] c(3) by simp
  have "leaders ! i = int l \<and> Equals (NewQuorumSet k N ! l ! j) (AQs ! i) \<longleftrightarrow>
      c = entry_call k N AQs leaders i" if i: "i < length leaders" for i
    using c fin entry_finite [OF ok(2) i] entry_num [OF ok i] entry_num_unique [OF ok i, of j]
    by (auto simp: Equals_iff entry_call_def)
  moreover have "wrap32 (wrap32 (int j * N) + int l) = entry_ballot k N AQs leaders i"
    if "i < length leaders" "c = entry_call k N AQs leaders i" for i
    using that entry_num [OF ok that(1)] c(1) by (simp add: entry_call_def entry_ballot_def)
  ultimately show ?thesis by (auto simp: entry_pairs_def c(1) image_iff)
qed

lemma entry_call_called:
  assumes "0 < k" "entries_ok k N AQs leaders" "i < length leaders"
  shows "entry_call k N AQs leaders i \<in> set (snd (newQuorumSetAdvance k N))"
proof -
  let ?l = "nat (leaders ! i)" and ?j = "entry_num k N AQs leaders i"
  have "?l < nat N" "leaders ! i = int ?l" "?j < length (NewQuorumSet k N ! ?l)"
    using entry_num [OF assms] by auto
  moreover have "entry_call k N AQs leaders i = (leaders ! i, int ?j, NewQuorumSet k N ! ?l ! ?j)"
    using entry_num [OF assms] by (simp add: entry_call_def)
  ultimately have "\<exists>l j. entry_call k N AQs leaders i = (int l, int j, NewQuorumSet k N ! l ! j) \<and>
      l < nat N \<and> j < length (NewQuorumSet k N ! l)" by metis
  then show ?thesis unfolding treat_calls [OF assms(1), THEN conjunct2] by (rule CollectI)
qed

lemma entry_ballot_inj:
  assumes ok: "0 < k" "entries_ok k N AQs leaders" and i: "i < length leaders" "i' < length leaders"
    and eq: "entry_ballot k N AQs leaders i = entry_ballot k N AQs leaders i'"
  shows "i = i'"
proof -
  note n = entry_num [OF ok i(1)] entry_num [OF ok i(2)]
  have "entry_ballot k N AQs leaders i mod N = entry_ballot k N AQs leaders i' mod N" using eq by simp
  then have l: "leaders ! i = leaders ! i'" using n by (simp add: entry_ballot_def)
  with eq n have "entry_num k N AQs leaders i = entry_num k N AQs leaders i'"
    by (auto simp: entry_ballot_def)
  with l have "AQs ! i = AQs ! i'" using n by metis
  moreover have "distinct (zip leaders AQs)" "length AQs = length leaders"
    using ok(2) by (simp_all add: entries_ok_def)
  ultimately show ?thesis using l i nth_eq_iff_index_eq [of "zip leaders AQs" i i'] by simp
qed

lemma entry_ballot_AQ:
  assumes "0 < k" "entries_ok k N AQs leaders" "i < length leaders"
  shows "AQ (NewQuorumSet k N) (entry_ballot k N AQs leaders i) = Some (AQs ! i) \<and>
    Leader (entry_ballot k N AQs leaders i) N = leaders ! i"
proof -
  have n: "int (length (NewQuorumSet k N)) = N"
    using entry_num [OF assms] assms(1) by (simp add: length_NewQuorumSet)
  with entry_num [OF assms] AQ_ballot [of "leaders ! i" "NewQuorumSet k N" "entry_num k N AQs leaders i"]
  show ?thesis by (simp add: entry_ballot_def)
qed

lemma entry_pairs_calls:
  assumes "0 < k" "entries_ok k N AQs leaders"
  defines "ps \<equiv> concat (map (entry_pairs N AQs leaders) (snd (newQuorumSetAdvance k N)))"
  shows "distinct (map fst ps) \<and> set ps = {(entry_ballot k N AQs leaders i, i) | i. i < length leaders}"
proof -
  note block = entry_pairs_block [OF assms(1,2)]
  have set_ps: "set ps = {(entry_ballot k N AQs leaders i, i) | i. i < length leaders}"
    using block entry_call_called [OF assms(1,2)] unfolding ps_def by (auto simp: set_concat)
  have "distinct ps"
    unfolding ps_def
  proof (rule distinct_concat_map [OF treat_calls [OF assms(1), THEN conjunct1]])
    show "\<forall>c \<in> set (snd (newQuorumSetAdvance k N)). distinct (entry_pairs N AQs leaders c)"
      by (auto simp: entry_pairs_def distinct_map inj_on_def)
  qed (use block in auto)
  then show ?thesis
    using set_ps entry_ballot_inj [OF assms(1,2)] by (auto simp: distinct_map inj_on_def)
qed

lemma sorted_entry_ballots:
  assumes "0 < k" "entries_ok k N AQs leaders"
  defines "ps \<equiv> concat (map (entry_pairs N AQs leaders) (snd (newQuorumSetAdvance k N)))"
  shows "sort_key (\<lambda>b. the ((foldl (\<lambda>m (k, v). m(k \<mapsto> v)) Map.empty ps) b)) (map fst ps)
       = map (entry_ballot k N AQs leaders) [0..<length leaders]"
proof (rule sort_key_inj_key_eq)
  let ?bal = "entry_ballot k N AQs leaders"
  have d: "distinct (map fst ps)" and s: "set ps = {(?bal i, i) | i. i < length leaders}"
    using entry_pairs_calls [OF assms(1,2)] by (simp_all add: ps_def)
  have ids: "(foldl (\<lambda>m (k, v). m(k \<mapsto> v)) Map.empty ps) (?bal i) = Some i" if "i < length leaders" for i
    unfolding foldl_map_upd using d s that by (auto simp: rev_map [symmetric] intro!: map_of_is_SomeI)
  have db: "distinct (map ?bal [0..<length leaders])"
    using entry_ballot_inj [OF assms(1,2)] by (simp add: distinct_map inj_on_def)
  have im: "set (map fst ps) = set (map ?bal [0..<length leaders])"
    using s by (force simp: image_iff)
  then show "mset (map fst ps) = mset (map ?bal [0..<length leaders])"
    using d db by (simp only: set_eq_iff_mset_eq_distinct)
  show "inj_on (\<lambda>b. the ((foldl (\<lambda>m (k, v). m(k \<mapsto> v)) Map.empty ps) b)) (set (map fst ps))"
    unfolding im using ids by (auto simp: inj_on_def)
  have "map (\<lambda>b. the ((foldl (\<lambda>m (k, v). m(k \<mapsto> v)) Map.empty ps) b)) (map ?bal [0..<length leaders])
      = [0..<length leaders]"
    unfolding map_map using ids by (intro map_idI) simp
  then show "sorted (map (\<lambda>b. the ((foldl (\<lambda>m (k, v). m(k \<mapsto> v)) Map.empty ps) b))
      (map ?bal [0..<length leaders]))" by simp
qed

text \<open>
  On a quorum file whose entries are distinct and well-formed, the ballot at position \<open>i\<close> of the
  quorum system is led by the leader of the file's entry \<open>i\<close> and selects the quorum of that entry.
\<close>

theorem quorum_system_ballots:
  assumes "0 < quorumSize" "NewQuorumsFromFile qfile r = (AQs, leaders, err)"
    and "err = None \<or> err = Some THREE_QUARTERS" and "entries_ok quorumSize (rep_N r) AQs leaders"
  shows "\<exists>sys. NewQuorumSystem quorumSize r qfile = (Some sys, err) \<and>
    length (ballots sys) = length leaders \<and>
    (\<forall>i < length leaders. AQ (sys_qs sys) (BallotAt sys i) = Some (AQs ! i) \<and>
       Leader (BallotAt sys i) (rep_N r) = leaders ! i)"
proof -
  let ?N = "rep_N r"
  let ?ps = "concat (map (entry_pairs ?N AQs leaders) (snd (newQuorumSetAdvance quorumSize ?N)))"
  let ?sys = "\<lparr>sys_qs = NewQuorumSet quorumSize ?N,
     ballots = map (entry_ballot quorumSize ?N AQs leaders) [0..<length leaders]\<rparr>"
  have "NewQuorumSystem quorumSize r qfile = (Some \<lparr>sys_qs = NewQuorumSet quorumSize ?N,
      ballots = sort_key (\<lambda>b. the ((foldl (\<lambda>m (k, v). m(k \<mapsto> v)) Map.empty ?ps) b)) (map fst ?ps)\<rparr>, err)"
    using assms(2,3) by (auto simp: NewQuorumSystem_def treat_entries NewQuorumSet_def split_beta Let_def)
  then have "NewQuorumSystem quorumSize r qfile = (Some ?sys, err)"
    by (simp only: sorted_entry_ballots [OF assms(1,4)])
  then show ?thesis
    using entry_ballot_AQ [OF assms(1,4)] by (intro exI [of _ ?sys]) (simp add: BallotAt_def)
qed


definition example_addrs :: replica_addrs where
  "example_addrs = \<lparr>rep_N = 3, ReplicaAddrs = [''a'' \<mapsto> ''h0'', ''b'' \<mapsto> ''h1:7071'', ''c'' \<mapsto> ''h2''],
     PeerAddrList = [''h0:7070'', ''h1:7071'', ''h2:7072'']\<rparr>"

theorem quorum_system_ballots_witness:
  "\<exists>sys. NewQuorumSystem 2 example_addrs (Lines [''a'', ''leader b'', ''---'', ''leader c'', ''b''] False) = (Some sys, None) \<and>
     AQ (sys_qs sys) (BallotAt sys 1) = Some {1, 2} \<and> Leader (BallotAt sys 1) 3 = 2"
proof -
  have "NewQuorumsFromFile (Lines [''a'', ''leader b'', ''---'', ''leader c'', ''b''] False) example_addrs
      = ([{1, 0}, {1, 2}], [1, 2], None)"
    by (simp add: quorum_line_def find_replica_def example_addrs_def Let_def upto_rec1)
  moreover have "entries_ok 2 (rep_N example_addrs) [{1, 0}, {1, 2}] [1, 2]"
    by (simp add: entries_ok_def example_addrs_def quorum_set_3 less_Suc_eq_0_disj numeral_2_eq_2)
  ultimately show ?thesis
    using quorum_system_ballots [of 2 "Lines [''a'', ''leader b'', ''---'', ''leader c'', ''b''] False"
        example_addrs "[{1, 0}, {1, 2}]" "[1, 2]" None]
    by (auto simp: example_addrs_def numeral_2_eq_2)
qed

end
