(* ===== verification/Ids.thy ===== *)
theory Ids
  imports State
begin

text \<open>
  Command identifiers and hashes.  \<open>fastpaxos\<close>, \<open>n2paxos\<close>, \<open>curp\<close> and \<open>swift\<close> declare the same
  \<open>CommandId\<close> with the same generated methods; \<open>SHash\<close> is the 32-byte digest of \<open>swift\<close>.  Lists of
  them are written element by element with one \<open>Write\<close> per field (\<open>inline\<close>).
\<close>

section \<open>Command identifiers\<close>

datatype CommandId = CommandId (ClientId: int) (SeqNum: int)

text \<open>The order used where the model enumerates the keys of a Go map in a fixed order.\<close>

instantiation CommandId :: linorder
begin

definition less_eq_CommandId :: "CommandId \<Rightarrow> CommandId \<Rightarrow> bool" where
  "less_eq_CommandId a b \<longleftrightarrow> ClientId a < ClientId b \<or> ClientId a = ClientId b \<and> SeqNum a \<le> SeqNum b"

definition less_CommandId :: "CommandId \<Rightarrow> CommandId \<Rightarrow> bool" where
  "less_CommandId a b \<longleftrightarrow> ClientId a < ClientId b \<or> ClientId a = ClientId b \<and> SeqNum a < SeqNum b"

instance
  by standard (auto simp: less_eq_CommandId_def less_CommandId_def CommandId.expand)

end

definition zero_CommandId :: CommandId where
  "zero_CommandId = CommandId 0 0"

definition CommandId_ok :: "CommandId \<Rightarrow> bool" where
  [codec_ok]: "CommandId_ok c \<longleftrightarrow> i32 (ClientId c) \<and> i32 (SeqNum c)"

definition Marshal_CommandId :: "CommandId \<Rightarrow> bytes" where
  "Marshal_CommandId t = layout [put_le 4 (ClientId t), put_le 4 (SeqNum t)]"

definition Unmarshal_CommandId :: "CommandId unmarshal" where
  "Unmarshal_CommandId = read_block 8 (\<lambda>bs t. CommandId (i32_at bs 0) (i32_at bs 4))"

interpretation CommandId_msg: message Marshal_CommandId Unmarshal_CommandId CommandId_ok
  by unfold_locales (simp add: Marshal_CommandId_def Unmarshal_CommandId_def codec_simps codec_ok
      del: put_le.simps)

definition put_inline_CommandId :: "CommandId \<Rightarrow> bytes" where
  "put_inline_CommandId t = layout [put_le 4 (ClientId t)] @ layout [put_le 4 (SeqNum t)]"

definition read_inline_CommandId :: "CommandId unmarshal" where
  "read_inline_CommandId = steps
     [read_block 4 (\<lambda>bs t. CommandId (i32_at bs 0) (SeqNum t)),
      read_block 4 (\<lambda>bs t. CommandId (ClientId t) (i32_at bs 0))]"

interpretation CommandId_inline: message put_inline_CommandId read_inline_CommandId CommandId_ok
  by unfold_locales (simp add: put_inline_CommandId_def read_inline_CommandId_def codec_simps codec_ok
      del: put_le.simps)

section \<open>Hashes\<close>

record SHash =
  H :: bytes

definition zero_SHash :: SHash where
  "zero_SHash = \<lparr>H = replicate 32 0\<rparr>"

text \<open>\<open>H\<close> is an array of 32 bytes.\<close>

definition SHash_ok :: "SHash \<Rightarrow> bool" where
  [codec_ok]: "SHash_ok t \<longleftrightarrow> length (H t) = 32"

definition Marshal_SHash :: "SHash \<Rightarrow> bytes" where
  "Marshal_SHash t = layout (map (\<lambda>k. [H t ! k]) [0..<32])"

definition Unmarshal_SHash :: "SHash unmarshal" where
  "Unmarshal_SHash = read_block 32 (\<lambda>bs t. t\<lparr>H := map (\<lambda>k. bs ! k) [0..<32]\<rparr>)"

lemma layout_single: "layout (map (\<lambda>k. [xs ! k]) [0..<length xs]) = xs"
proof -
  have "concat (map (\<lambda>k. [f k]) ks) = map f ks" for f :: "nat \<Rightarrow> byte" and ks
    by (induction ks) auto
  then show ?thesis by (simp add: layout_def map_nth)
qed

interpretation SHash_msg: message Marshal_SHash Unmarshal_SHash SHash_ok
proof
  fix x t :: SHash and rest assume "SHash_ok x"
  then have len: "length (H x) = 32" by (simp add: codec_ok)
  then have m: "Marshal_SHash x = H x" using layout_single [of "H x"] by (simp add: Marshal_SHash_def)
  have "map (\<lambda>k. H x ! k) [0..<32] = H x" using map_nth [of "H x"] len by simp
  then show "Unmarshal_SHash t (Marshal_SHash x @ rest) = Some (True, x, rest)"
    unfolding m Unmarshal_SHash_def using len by (simp add: read_block_append)
qed

definition put_inline_SHash :: "SHash \<Rightarrow> bytes" where
  "put_inline_SHash t = concat (map (\<lambda>k. layout [[H t ! k]]) [0..<32])"

definition read_inline_SHash :: "SHash unmarshal" where
  "read_inline_SHash = steps (map (\<lambda>k. read_block 1 (\<lambda>bs t. t\<lparr>H := (H t)[k := bs ! 0]\<rparr>)) [0..<32])"

lemma read_bytes_in_order:
  "ks = [m..<m + length bs] \<Longrightarrow>
   steps (map (\<lambda>k. read_block 1 (\<lambda>bs t. t\<lparr>H := (H t)[k := bs ! 0]\<rparr>)) ks) t (bs @ rest)
     = Some (True, t\<lparr>H := foldl (\<lambda>h (k, b). h[k := b]) (H t) (zip ks bs)\<rparr>, rest)"
proof (induction bs arbitrary: m t ks)
  case Nil
  then show ?case by simp
next
  case (Cons b bs)
  then have ks: "ks = m # [Suc m..<Suc m + length bs]" by (simp add: upt_rec)
  show ?case unfolding ks using Cons.IH [of _ "Suc m"] by (simp add: read_block_def)
qed

lemma foldl_update_all:
  "length h = m + length bs \<Longrightarrow>
   foldl (\<lambda>h (k, b). h[k := b]) h (zip [m..<m + length bs] bs) = take m h @ bs"
proof (induction bs arbitrary: m h)
  case Nil
  then show ?case by simp
next
  case (Cons b bs)
  have "[m..<m + length (b # bs)] = m # [Suc m..<Suc m + length bs]" by (simp add: upt_rec)
  moreover have "take (Suc m) (h[m := b]) = take m h @ [b]"
    using Cons.prems by (simp add: take_Suc_conv_app_nth)
  ultimately show ?case using Cons.IH [of "h[m := b]" "Suc m"] Cons.prems by simp
qed

text \<open>An array keeps its length, so the object read into also holds 32 bytes.\<close>

lemma read_inline_SHash:
  assumes "SHash_ok x" "SHash_ok t"
  shows "read_inline_SHash t (put_inline_SHash x @ rest) = Some (True, x, rest)"
proof -
  have len: "length (H x) = 32" "length (H t) = 32" using assms by (simp_all add: codec_ok)
  have m: "put_inline_SHash x = H x"
    using layout_single [of "H x"] len by (simp add: put_inline_SHash_def layout_def)
  show ?thesis
    unfolding m read_inline_SHash_def
    using read_bytes_in_order [of "[0..<32]" 0 "H x" t rest] foldl_update_all [of "H t" 0 "H x"] len by simp
qed

lemma read_elems_SHash:
  "list_all SHash_ok xs \<Longrightarrow>
   read_elems strict read_inline_SHash zero_SHash (length xs) (concat (map put_inline_SHash xs) @ rest)
     = Some (True, xs, rest)"
  by (induction xs) (auto simp: read_inline_SHash codec_ok zero_SHash_def)

lemma read_list_SHash:
  "list_all SHash_ok xs \<Longrightarrow> i64 (int (length xs)) \<Longrightarrow>
   read_list strict read_inline_SHash zero_SHash upd t (put_list put_inline_SHash xs @ rest)
     = Some (True, upd xs t, rest)"
  by (simp add: read_list_def put_list_def get_put_varint read_elems_SHash)

lemmas id_lists [codec_simps] =
  CommandId_inline.read_list_marshal read_list_SHash

end
