(* ===== verification/ClientMsg.thy ===== *)
theory ClientMsg
  imports Ids
begin

text \<open>
  Messages between clients and replicas (\<open>replica/defs/defs.go\<close>).  Each message has a record,
         its
  \<open>Marshal\<close> and \<open>Unmarshal\<close> methods as the generator wrote them,
         the ranges its fields have by their
  Go types, and an interpretation of the contract of messages.
\<close>

section \<open>Propose\<close>

record Propose =
  Propose_CommandId :: "int"
  Propose_ClientId :: "int"
  Propose_Command :: "command"
  Propose_Timestamp :: "int"

definition Propose_ok :: "Propose \<Rightarrow> bool" where
  [codec_ok]: "Propose_ok t \<longleftrightarrow> i32 (Propose_CommandId t) \<and>
     i32 (Propose_ClientId t) \<and>
     command_ok (Propose_Command t) \<and>
     i64 (Propose_Timestamp t)"

definition zero_Propose :: Propose where
  "zero_Propose = \<lparr>Propose_CommandId = 0, Propose_ClientId = 0,
         Propose_Command = zero_command, Propose_Timestamp = 0\<rparr>"

definition Marshal_Propose :: "Propose \<Rightarrow> bytes" where
  "Marshal_Propose t =
     layout [put_le 4 (Propose_CommandId t), put_le 4 (Propose_ClientId t)] @
     Marshal_Command (Propose_Command t) @
     layout [put_le 8 (Propose_Timestamp t)]"

definition Unmarshal_Propose :: "Propose unmarshal" where
  "Unmarshal_Propose = steps
     [read_block 8 (\<lambda>bs t. t\<lparr>Propose_CommandId := i32_at bs 0,
         Propose_ClientId := i32_at bs 4\<rparr>),
      read_field Unmarshal_Command Propose_Command (\<lambda>x t. t\<lparr>Propose_Command := x\<rparr>),
      read_block 8 (\<lambda>bs t. t\<lparr>Propose_Timestamp := i64_at bs 0\<rparr>)]"

interpretation Propose_msg: message Marshal_Propose Unmarshal_Propose Propose_ok
  by unfold_locales (simp add: Marshal_Propose_def Unmarshal_Propose_def
         codec_simps codec_ok del: put_le.simps)

section \<open>ProposeReply\<close>

record ProposeReply =
  ProposeReply_OK :: "byte"
  ProposeReply_CommandId :: "int"

definition ProposeReply_ok :: "ProposeReply \<Rightarrow> bool" where
  [codec_ok]: "ProposeReply_ok t \<longleftrightarrow> i32 (ProposeReply_CommandId t)"

definition zero_ProposeReply :: ProposeReply where
  "zero_ProposeReply = \<lparr>ProposeReply_OK = 0, ProposeReply_CommandId = 0\<rparr>"

definition Marshal_ProposeReply :: "ProposeReply \<Rightarrow> bytes" where
  "Marshal_ProposeReply t =
     layout [[ProposeReply_OK t], put_le 4 (ProposeReply_CommandId t)]"

definition Unmarshal_ProposeReply :: "ProposeReply unmarshal" where
  "Unmarshal_ProposeReply = steps
     [read_block 5 (\<lambda>bs t. t\<lparr>ProposeReply_OK := bs ! 0,
         ProposeReply_CommandId := i32_at bs 1\<rparr>)]"

interpretation ProposeReply_msg: message Marshal_ProposeReply Unmarshal_ProposeReply ProposeReply_ok
  by unfold_locales (simp add: Marshal_ProposeReply_def Unmarshal_ProposeReply_def
         codec_simps codec_ok del: put_le.simps)

section \<open>ProposeReplyTS\<close>

record ProposeReplyTS =
  ProposeReplyTS_OK :: "byte"
  ProposeReplyTS_CommandId :: "int"
  ProposeReplyTS_Value :: "value"
  ProposeReplyTS_Timestamp :: "int"

definition ProposeReplyTS_ok :: "ProposeReplyTS \<Rightarrow> bool" where
  [codec_ok]: "ProposeReplyTS_ok t \<longleftrightarrow> i32 (ProposeReplyTS_CommandId t) \<and>
     length (ProposeReplyTS_Value t) < 2 ^ 16 \<and>
     i64 (ProposeReplyTS_Timestamp t)"

definition zero_ProposeReplyTS :: ProposeReplyTS where
  "zero_ProposeReplyTS = \<lparr>ProposeReplyTS_OK = 0, ProposeReplyTS_CommandId = 0,
         ProposeReplyTS_Value = [], ProposeReplyTS_Timestamp = 0\<rparr>"

definition Marshal_ProposeReplyTS :: "ProposeReplyTS \<Rightarrow> bytes" where
  "Marshal_ProposeReplyTS t =
     layout [[ProposeReplyTS_OK t], put_le 4 (ProposeReplyTS_CommandId t)] @
     Marshal_Value (ProposeReplyTS_Value t) @
     layout [put_le 8 (ProposeReplyTS_Timestamp t)]"

definition Unmarshal_ProposeReplyTS :: "ProposeReplyTS unmarshal" where
  "Unmarshal_ProposeReplyTS = steps
     [read_block 5 (\<lambda>bs t. t\<lparr>ProposeReplyTS_OK := bs ! 0,
         ProposeReplyTS_CommandId := i32_at bs 1\<rparr>),
      read_field Unmarshal_Value ProposeReplyTS_Value (\<lambda>x t. t\<lparr>ProposeReplyTS_Value := x\<rparr>),
      read_block 8 (\<lambda>bs t. t\<lparr>ProposeReplyTS_Timestamp := i64_at bs 0\<rparr>)]"

interpretation ProposeReplyTS_msg: message Marshal_ProposeReplyTS Unmarshal_ProposeReplyTS ProposeReplyTS_ok
  by unfold_locales (simp add: Marshal_ProposeReplyTS_def Unmarshal_ProposeReplyTS_def
         codec_simps codec_ok del: put_le.simps)

section \<open>Read\<close>

record Read =
  Read_CommandId :: "int"
  Read_Key :: "key"

definition Read_ok :: "Read \<Rightarrow> bool" where
  [codec_ok]: "Read_ok t \<longleftrightarrow> i32 (Read_CommandId t) \<and>
     i64 (Read_Key t)"

definition zero_Read :: Read where
  "zero_Read = \<lparr>Read_CommandId = 0, Read_Key = 0\<rparr>"

definition Marshal_Read :: "Read \<Rightarrow> bytes" where
  "Marshal_Read t =
     layout [put_le 4 (Read_CommandId t)] @
     Marshal_Key (Read_Key t)"

definition Unmarshal_Read :: "Read unmarshal" where
  "Unmarshal_Read = steps
     [read_block 4 (\<lambda>bs t. t\<lparr>Read_CommandId := i32_at bs 0\<rparr>),
      read_field Unmarshal_Key Read_Key (\<lambda>x t. t\<lparr>Read_Key := x\<rparr>)]"

interpretation Read_msg: message Marshal_Read Unmarshal_Read Read_ok
  by unfold_locales (simp add: Marshal_Read_def Unmarshal_Read_def
         codec_simps codec_ok del: put_le.simps)

section \<open>ReadReply\<close>

record ReadReply =
  ReadReply_CommandId :: "int"
  ReadReply_Value :: "value"

definition ReadReply_ok :: "ReadReply \<Rightarrow> bool" where
  [codec_ok]: "ReadReply_ok t \<longleftrightarrow> i32 (ReadReply_CommandId t) \<and>
     length (ReadReply_Value t) < 2 ^ 16"

definition zero_ReadReply :: ReadReply where
  "zero_ReadReply = \<lparr>ReadReply_CommandId = 0, ReadReply_Value = []\<rparr>"

definition Marshal_ReadReply :: "ReadReply \<Rightarrow> bytes" where
  "Marshal_ReadReply t =
     layout [put_le 4 (ReadReply_CommandId t)] @
     Marshal_Value (ReadReply_Value t)"

definition Unmarshal_ReadReply :: "ReadReply unmarshal" where
  "Unmarshal_ReadReply = steps
     [read_block 4 (\<lambda>bs t. t\<lparr>ReadReply_CommandId := i32_at bs 0\<rparr>),
      read_field Unmarshal_Value ReadReply_Value (\<lambda>x t. t\<lparr>ReadReply_Value := x\<rparr>)]"

interpretation ReadReply_msg: message Marshal_ReadReply Unmarshal_ReadReply ReadReply_ok
  by unfold_locales (simp add: Marshal_ReadReply_def Unmarshal_ReadReply_def
         codec_simps codec_ok del: put_le.simps)

section \<open>ProposeAndRead\<close>

record ProposeAndRead =
  ProposeAndRead_CommandId :: "int"
  ProposeAndRead_Command :: "command"
  ProposeAndRead_Key :: "key"

definition ProposeAndRead_ok :: "ProposeAndRead \<Rightarrow> bool" where
  [codec_ok]: "ProposeAndRead_ok t \<longleftrightarrow> i32 (ProposeAndRead_CommandId t) \<and>
     command_ok (ProposeAndRead_Command t) \<and>
     i64 (ProposeAndRead_Key t)"

definition zero_ProposeAndRead :: ProposeAndRead where
  "zero_ProposeAndRead = \<lparr>ProposeAndRead_CommandId = 0,
         ProposeAndRead_Command = zero_command, ProposeAndRead_Key = 0\<rparr>"

definition Marshal_ProposeAndRead :: "ProposeAndRead \<Rightarrow> bytes" where
  "Marshal_ProposeAndRead t =
     layout [put_le 4 (ProposeAndRead_CommandId t)] @
     Marshal_Command (ProposeAndRead_Command t) @
     Marshal_Key (ProposeAndRead_Key t)"

definition Unmarshal_ProposeAndRead :: "ProposeAndRead unmarshal" where
  "Unmarshal_ProposeAndRead = steps
     [read_block 4 (\<lambda>bs t. t\<lparr>ProposeAndRead_CommandId := i32_at bs 0\<rparr>),
      read_field Unmarshal_Command ProposeAndRead_Command (\<lambda>x t. t\<lparr>ProposeAndRead_Command := x\<rparr>),
      read_field Unmarshal_Key ProposeAndRead_Key (\<lambda>x t. t\<lparr>ProposeAndRead_Key := x\<rparr>)]"

interpretation ProposeAndRead_msg: message Marshal_ProposeAndRead Unmarshal_ProposeAndRead ProposeAndRead_ok
  by unfold_locales (simp add: Marshal_ProposeAndRead_def Unmarshal_ProposeAndRead_def
         codec_simps codec_ok del: put_le.simps)

section \<open>ProposeAndReadReply\<close>

record ProposeAndReadReply =
  ProposeAndReadReply_OK :: "byte"
  ProposeAndReadReply_CommandId :: "int"
  ProposeAndReadReply_Value :: "value"

definition ProposeAndReadReply_ok :: "ProposeAndReadReply \<Rightarrow> bool" where
  [codec_ok]: "ProposeAndReadReply_ok t \<longleftrightarrow> i32 (ProposeAndReadReply_CommandId t) \<and>
     length (ProposeAndReadReply_Value t) < 2 ^ 16"

definition zero_ProposeAndReadReply :: ProposeAndReadReply where
  "zero_ProposeAndReadReply = \<lparr>ProposeAndReadReply_OK = 0,
         ProposeAndReadReply_CommandId = 0, ProposeAndReadReply_Value = []\<rparr>"

definition Marshal_ProposeAndReadReply :: "ProposeAndReadReply \<Rightarrow> bytes" where
  "Marshal_ProposeAndReadReply t =
     layout [[ProposeAndReadReply_OK t], put_le 4 (ProposeAndReadReply_CommandId t)] @
     Marshal_Value (ProposeAndReadReply_Value t)"

definition Unmarshal_ProposeAndReadReply :: "ProposeAndReadReply unmarshal" where
  "Unmarshal_ProposeAndReadReply = steps
     [read_block 5 (\<lambda>bs t. t\<lparr>ProposeAndReadReply_OK := bs ! 0,
         ProposeAndReadReply_CommandId := i32_at bs 1\<rparr>),
      read_field Unmarshal_Value ProposeAndReadReply_Value (\<lambda>x t. t\<lparr>ProposeAndReadReply_Value := x\<rparr>)]"

interpretation ProposeAndReadReply_msg: message Marshal_ProposeAndReadReply Unmarshal_ProposeAndReadReply ProposeAndReadReply_ok
  by unfold_locales (simp add: Marshal_ProposeAndReadReply_def Unmarshal_ProposeAndReadReply_def
         codec_simps codec_ok del: put_le.simps)

section \<open>Beacon\<close>

record Beacon =
  Beacon_Timestamp :: "int"

definition Beacon_ok :: "Beacon \<Rightarrow> bool" where
  [codec_ok]: "Beacon_ok t \<longleftrightarrow> i64 (Beacon_Timestamp t)"

definition zero_Beacon :: Beacon where
  "zero_Beacon = \<lparr>Beacon_Timestamp = 0\<rparr>"

definition Marshal_Beacon :: "Beacon \<Rightarrow> bytes" where
  "Marshal_Beacon t =
     layout [put_le 8 (Beacon_Timestamp t)]"

definition Unmarshal_Beacon :: "Beacon unmarshal" where
  "Unmarshal_Beacon = steps
     [read_block 8 (\<lambda>bs t. t\<lparr>Beacon_Timestamp := i64_at bs 0\<rparr>)]"

interpretation Beacon_msg: message Marshal_Beacon Unmarshal_Beacon Beacon_ok
  by unfold_locales (simp add: Marshal_Beacon_def Unmarshal_Beacon_def
         codec_simps codec_ok del: put_le.simps)

section \<open>BeaconReply\<close>

record BeaconReply =
  BeaconReply_Timestamp :: "int"

definition BeaconReply_ok :: "BeaconReply \<Rightarrow> bool" where
  [codec_ok]: "BeaconReply_ok t \<longleftrightarrow> i64 (BeaconReply_Timestamp t)"

definition zero_BeaconReply :: BeaconReply where
  "zero_BeaconReply = \<lparr>BeaconReply_Timestamp = 0\<rparr>"

definition Marshal_BeaconReply :: "BeaconReply \<Rightarrow> bytes" where
  "Marshal_BeaconReply t =
     layout [put_le 8 (BeaconReply_Timestamp t)]"

definition Unmarshal_BeaconReply :: "BeaconReply unmarshal" where
  "Unmarshal_BeaconReply = steps
     [read_block 8 (\<lambda>bs t. t\<lparr>BeaconReply_Timestamp := i64_at bs 0\<rparr>)]"

interpretation BeaconReply_msg: message Marshal_BeaconReply Unmarshal_BeaconReply BeaconReply_ok
  by unfold_locales (simp add: Marshal_BeaconReply_def Unmarshal_BeaconReply_def
         codec_simps codec_ok del: put_le.simps)

section \<open>PingArgs\<close>

record PingArgs =
  PingArgs_ActAsLeader :: "byte"

definition PingArgs_ok :: "PingArgs \<Rightarrow> bool" where
  [codec_ok]: "PingArgs_ok t \<longleftrightarrow> True"

definition zero_PingArgs :: PingArgs where
  "zero_PingArgs = \<lparr>PingArgs_ActAsLeader = 0\<rparr>"

definition Marshal_PingArgs :: "PingArgs \<Rightarrow> bytes" where
  "Marshal_PingArgs t =
     layout [[PingArgs_ActAsLeader t]]"

definition Unmarshal_PingArgs :: "PingArgs unmarshal" where
  "Unmarshal_PingArgs = steps
     [read_block 1 (\<lambda>bs t. t\<lparr>PingArgs_ActAsLeader := bs ! 0\<rparr>)]"

interpretation PingArgs_msg: message Marshal_PingArgs Unmarshal_PingArgs PingArgs_ok
  by unfold_locales (simp add: Marshal_PingArgs_def Unmarshal_PingArgs_def
         codec_simps codec_ok del: put_le.simps)

section \<open>BeTheLeaderReply\<close>

record BeTheLeaderReply =
  BeTheLeaderReply_Leader :: "int"
  BeTheLeaderReply_NextLeader :: "int"

definition BeTheLeaderReply_ok :: "BeTheLeaderReply \<Rightarrow> bool" where
  [codec_ok]: "BeTheLeaderReply_ok t \<longleftrightarrow> i32 (BeTheLeaderReply_Leader t) \<and>
     i32 (BeTheLeaderReply_NextLeader t)"

definition zero_BeTheLeaderReply :: BeTheLeaderReply where
  "zero_BeTheLeaderReply = \<lparr>BeTheLeaderReply_Leader = 0,
         BeTheLeaderReply_NextLeader = 0\<rparr>"

definition Marshal_BeTheLeaderReply :: "BeTheLeaderReply \<Rightarrow> bytes" where
  "Marshal_BeTheLeaderReply t =
     layout [put_le 4 (BeTheLeaderReply_Leader t), put_le 4 (BeTheLeaderReply_NextLeader t)]"

definition Unmarshal_BeTheLeaderReply :: "BeTheLeaderReply unmarshal" where
  "Unmarshal_BeTheLeaderReply = steps
     [read_block 8 (\<lambda>bs t. t\<lparr>BeTheLeaderReply_Leader := i32_at bs 0,
         BeTheLeaderReply_NextLeader := i32_at bs 4\<rparr>)]"

interpretation BeTheLeaderReply_msg: message Marshal_BeTheLeaderReply Unmarshal_BeTheLeaderReply BeTheLeaderReply_ok
  by unfold_locales (simp add: Marshal_BeTheLeaderReply_def Unmarshal_BeTheLeaderReply_def
         codec_simps codec_ok del: put_le.simps)

section \<open>Proposals inside a replica\<close>

text \<open>
  \<open>GPropose\<close>: a proposal with the connection it came from.  The writer and its lock, only used to send
  the reply, are not modelled: a reply is recorded with its proposal.
\<close>

record GPropose = Propose +
  GPropose_Proxy :: bool

end
