(* ===== verification/Rpc.thy ===== *)
theory Rpc
  imports ClientMsg
begin

text \<open>
  The RPC table (\<open>rpc/rpc.go\<close>) and the loops that read a connection (\<open>replicaListener\<close> and
  \<open>clientListener\<close> of \<open>replica/replica.go\<close>).  A connection carries one type byte and one
  encoded message after the other.  Each decoded message is put on the channel its type is
  registered with by a goroutine of its own, so the order on the channel is not fixed: the model
  records the messages in the order in which they are read.
\<close>

section \<open>The table\<close>

text \<open>\<open>New\<close> followed by \<open>Unmarshal\<close>, with the message injected into the type of all messages.\<close>

type_synonym 'm decoder = "bytes \<Rightarrow> (bool \<times> 'm \<times> bytes) option"

definition new_unmarshal :: "'a \<Rightarrow> 'a unmarshal \<Rightarrow> ('a \<Rightarrow> 'm) \<Rightarrow> 'm decoder" where
  "new_unmarshal z um c wire = map_option (\<lambda>(noerr, x, wire). (noerr, c x, wire)) (um z wire)"

record 'm Pair =
  Obj :: "'m decoder"
  Chan :: nat

record 'm Table =
  table_id :: byte
  pairs :: "byte \<Rightarrow> 'm Pair option"

definition NewTableId :: "byte \<Rightarrow> 'm Table" where
  "NewTableId i = \<lparr>table_id = i, pairs = Map.empty\<rparr>"

definition Register :: "'m decoder \<Rightarrow> nat \<Rightarrow> 'm Table \<Rightarrow> byte \<times> 'm Table" where
  "Register obj notify t =
     (table_id t,
      t\<lparr>table_id := table_id t + 1, pairs := (pairs t)(table_id t \<mapsto> \<lparr>Obj = obj, Chan = notify\<rparr>)\<rparr>)"

definition Get :: "'m Table \<Rightarrow> byte \<Rightarrow> 'm Pair option" where
  "Get t i = pairs t i"

text \<open>Registering a list of decoders, on channels numbered in that order.\<close>

fun Register_all :: "'m decoder list \<Rightarrow> nat \<Rightarrow> 'm Table \<Rightarrow> 'm Table" where
  "Register_all [] ch t = t"
| "Register_all (d # ds) ch t = Register_all ds (Suc ch) (snd (Register d ch t))"

definition PROPOSE :: byte where "PROPOSE = 0"
definition READ :: byte where "READ = 2"
definition PROPOSE_AND_READ :: byte where "PROPOSE_AND_READ = 4"
definition GENERIC_SMR_BEACON :: byte where "GENERIC_SMR_BEACON = 6"
definition GENERIC_SMR_BEACON_REPLY :: byte where "GENERIC_SMR_BEACON_REPLY = 7"
definition STATS :: byte where "STATS = 8"
definition RPC_TABLE :: byte where "RPC_TABLE = 9"

lemmas message_types =
  PROPOSE_def READ_def PROPOSE_AND_READ_def GENERIC_SMR_BEACON_def GENERIC_SMR_BEACON_REPLY_def
  STATS_def RPC_TABLE_def

text \<open>Up to 247 types get consecutive codes from \<open>RPC_TABLE\<close> on; none is overwritten.\<close>

lemma Register_all_other:
  assumes "unat (table_id t) + length ds \<le> 256" "unat i < unat (table_id t)"
  shows "Get (Register_all ds ch t) i = Get t i"
  using assms
proof (induction ds arbitrary: ch t)
  case Nil
  then show ?case by simp
next
  case (Cons d ds)
  let ?t = "snd (Register d ch t)"
  have g: "Get ?t i = Get t i" using Cons.prems(2) by (auto simp: Register_def Get_def)
  show ?case
  proof (cases ds)
    case Nil
    with g show ?thesis by simp
  next
    case (Cons d' ds')
    have "unat (table_id t) + 1 < 256" using Cons.prems(1) local.Cons by simp
    then have "unat (table_id ?t) = Suc (unat (table_id t))" by (simp add: Register_def unat_word_ariths)
    with Cons.prems Cons.IH [of ?t "Suc ch"] g show ?thesis by simp
  qed
qed

text \<open>The decoder at position \<open>k\<close> of the list is found under the code \<open>k\<close> places further on.\<close>

lemma Register_all_nth:
  assumes "unat (table_id t) + length ds \<le> 256" "k < length ds"
  shows "Get (Register_all ds ch t) (table_id t + of_nat k) = Some \<lparr>Obj = ds ! k, Chan = ch + k\<rparr>"
  using assms
proof (induction ds arbitrary: ch t k)
  case Nil
  then show ?case by simp
next
  case (Cons d ds)
  let ?t = "snd (Register d ch t)"
  have g: "Get ?t (table_id t) = Some \<lparr>Obj = d, Chan = ch\<rparr>" by (simp add: Register_def Get_def)
  have tid: "table_id ?t = table_id t + 1" by (simp add: Register_def)
  show ?case
  proof (cases ds)
    case Nil
    with g Cons.prems show ?thesis by simp
  next
    case (Cons d' ds')
    have "unat (table_id t) + 1 < 256" using Cons.prems(1) local.Cons by simp
    then have u: "unat (table_id ?t) = Suc (unat (table_id t))" by (simp add: Register_def unat_word_ariths)
    then have len: "unat (table_id ?t) + length ds \<le> 256" using Cons.prems by simp
    show ?thesis
    proof (cases k)
      case 0
      then show ?thesis using Register_all_other [OF len, of "table_id t" "Suc ch"] u g by simp
    next
      case (Suc m)
      then have "Get (Register_all ds (Suc ch) ?t) (table_id ?t + of_nat m) = Some \<lparr>Obj = ds ! m, Chan = Suc ch + m\<rparr>"
        using Cons.prems by (intro Cons.IH [OF len]) simp
      then show ?thesis using Suc tid by (simp add: add.assoc)
    qed
  qed
qed

section \<open>Connections between replicas\<close>

datatype 'm event =
    ReplyTo int          \<comment> \<open>\<open>ReplyBeacon\<close> with the timestamp of the beacon\<close>
  | Latency int          \<comment> \<open>latency update from the timestamp of a beacon reply\<close>
  | Enqueue nat 'm       \<comment> \<open>a message for the channel of its type\<close>

datatype stop =
    Eof                  \<comment> \<open>the connection ended between two messages\<close>
  | Decode_error         \<comment> \<open>an \<open>Unmarshal\<close> returned an error\<close>
  | Panic                \<comment> \<open>a negative length\<close>
  | Fatal byte           \<comment> \<open>\<open>r.Fatal\<close>: the process exits\<close>
  | Running              \<comment> \<open>the bound on the number of iterations is used up\<close>

fun replicaListener ::
  "nat \<Rightarrow> 'm Table \<Rightarrow> Beacon \<Rightarrow> BeaconReply \<Rightarrow> bytes \<Rightarrow> 'm event list \<times> stop" where
  "replicaListener 0 table gbeacon gbeaconReply wire = ([], Running)"
| "replicaListener (Suc n) table gbeacon gbeaconReply [] = ([], Eof)"
| "replicaListener (Suc n) table gbeacon gbeaconReply (msgType # wire) =
     (if msgType = GENERIC_SMR_BEACON then
        (case Unmarshal_Beacon gbeacon wire of
           None \<Rightarrow> ([], Panic)
         | Some (noerr, gbeacon, wire) \<Rightarrow>
             if \<not> noerr then ([], Decode_error)
             else let (es, s) = replicaListener n table gbeacon gbeaconReply wire
                  in (ReplyTo (Beacon_Timestamp gbeacon) # es, s))
      else if msgType = GENERIC_SMR_BEACON_REPLY then
        (case Unmarshal_BeaconReply gbeaconReply wire of
           None \<Rightarrow> ([], Panic)
         | Some (noerr, gbeaconReply, wire) \<Rightarrow>
             if \<not> noerr then ([], Decode_error)
             else let (es, s) = replicaListener n table gbeacon gbeaconReply wire
                  in (Latency (BeaconReply_Timestamp gbeaconReply) # es, s))
      else
        (case Get table msgType of
           None \<Rightarrow> ([], Fatal msgType)
         | Some p \<Rightarrow>
             (case Obj p wire of
                None \<Rightarrow> ([], Panic)
              | Some (noerr, obj, wire) \<Rightarrow>
                  if \<not> noerr then ([], Decode_error)
                  else let (es, s) = replicaListener n table gbeacon gbeaconReply wire
                       in (Enqueue (Chan p) obj # es, s))))"

text \<open>
  What \<open>SendMsg\<close>, \<open>SendBeacon\<close> and \<open>ReplyBeacon\<close> append to the connection; a lost connection
  (a \<open>nil\<close> writer) takes nothing.
\<close>

definition SendMsg :: "byte \<Rightarrow> bytes \<Rightarrow> bytes option \<Rightarrow> bytes option" where
  "SendMsg code msg w = map_option (\<lambda>w. w @ code # msg) w"

definition SendBeacon :: "int \<Rightarrow> bytes option \<Rightarrow> bytes option" where
  "SendBeacon now w =
     map_option (\<lambda>w. w @ GENERIC_SMR_BEACON # Marshal_Beacon \<lparr>Beacon_Timestamp = now\<rparr>) w"

definition ReplyBeacon :: "int \<Rightarrow> bytes option \<Rightarrow> bytes option" where
  "ReplyBeacon timestamp w =
     map_option (\<lambda>w. w @ GENERIC_SMR_BEACON_REPLY # Marshal_BeaconReply \<lparr>BeaconReply_Timestamp = timestamp\<rparr>) w"

datatype 'm sent = Msg 'm | ABeacon int | ABeaconReply int

fun send :: "('m \<Rightarrow> byte) \<Rightarrow> ('m \<Rightarrow> bytes) \<Rightarrow> 'm sent \<Rightarrow> bytes option \<Rightarrow> bytes option" where
  "send code enc (Msg m) w = SendMsg (code m) (enc m) w"
| "send code enc (ABeacon now) w = SendBeacon now w"
| "send code enc (ABeaconReply ts) w = ReplyBeacon ts w"

fun sent_ok :: "('m \<Rightarrow> bool) \<Rightarrow> 'm sent \<Rightarrow> bool" where
  "sent_ok ok (Msg m) = ok m"
| "sent_ok ok (ABeacon now) = i64 now"
| "sent_ok ok (ABeaconReply ts) = i64 ts"

fun received :: "('m \<Rightarrow> nat) \<Rightarrow> ('m \<Rightarrow> 'm) \<Rightarrow> 'm sent \<Rightarrow> 'm event" where
  "received chan recv (Msg m) = Enqueue (chan m) (recv m)"
| "received chan recv (ABeacon now) = ReplyTo now"
| "received chan recv (ABeaconReply ts) = Latency ts"

text \<open>
  The contract between the sender and the receiver of a protocol's messages: every message the
  protocol sends has a registered type, and the registered decoder reads back what it encodes.
  \<open>recv\<close> is the message as received.
\<close>

locale endpoint =
  fixes table :: "'m Table"
    and code :: "'m \<Rightarrow> byte"
    and enc :: "'m \<Rightarrow> bytes"
    and chan :: "'m \<Rightarrow> nat"
    and ok :: "'m \<Rightarrow> bool"
    and recv :: "'m \<Rightarrow> 'm"
  assumes registered: "ok m \<Longrightarrow> \<exists>p. Get table (code m) = Some p \<and> Chan p = chan m \<and>
      (\<forall>rest. Obj p (enc m @ rest) = Some (True, recv m, rest))"
    and not_beacon: "code m \<noteq> GENERIC_SMR_BEACON" "code m \<noteq> GENERIC_SMR_BEACON_REPLY"
begin

lemma send_append: "send code enc x (Some w) = Some (w @ the (send code enc x (Some [])))"
  by (cases x) (auto simp: SendMsg_def SendBeacon_def ReplyBeacon_def)

lemma sends_append: "fold (send code enc) xs (Some w) = Some (w @ concat (map (\<lambda>x. the (send code enc x (Some []))) xs))"
proof (induction xs arbitrary: w)
  case Nil
  then show ?case by simp
next
  case (Cons x xs)
  have "fold (send code enc) (x # xs) (Some w) = fold (send code enc) xs (send code enc x (Some w))" by simp
  also have "send code enc x (Some w) = Some (w @ the (send code enc x (Some [])))" by (rule send_append)
  also have "fold (send code enc) xs \<dots> = Some ((w @ the (send code enc x (Some []))) @ concat (map (\<lambda>x. the (send code enc x (Some []))) xs))"
    by (rule Cons.IH)
  finally show ?case by simp
qed

lemma listen_one:
  "sent_ok ok x \<Longrightarrow> \<exists>b br. replicaListener (Suc n) table gb gbr (the (send code enc x (Some [])) @ rest) =
     (let (es, s) = replicaListener n table b br rest in (received chan recv x # es, s))"
proof (cases x)
  case (Msg m)
  moreover assume "sent_ok ok x"
  ultimately obtain p where "Get table (code m) = Some p" "Chan p = chan m"
      "\<forall>rest. Obj p (enc m @ rest) = Some (True, recv m, rest)"
    using registered [of m] by auto
  with Msg not_beacon show ?thesis by (auto simp: SendMsg_def)
next
  case (ABeacon now)
  moreover assume "sent_ok ok x"
  ultimately have "Unmarshal_Beacon gb (Marshal_Beacon \<lparr>Beacon_Timestamp = now\<rparr> @ rest)
      = Some (True, \<lparr>Beacon_Timestamp = now\<rparr>, rest)"
    by (intro Beacon_msg.roundtrip) (simp add: Beacon_ok_def)
  with ABeacon show ?thesis by (auto simp: SendBeacon_def)
next
  case (ABeaconReply ts)
  moreover assume "sent_ok ok x"
  ultimately have "Unmarshal_BeaconReply gbr (Marshal_BeaconReply \<lparr>BeaconReply_Timestamp = ts\<rparr> @ rest)
      = Some (True, \<lparr>BeaconReply_Timestamp = ts\<rparr>, rest)"
    by (intro BeaconReply_msg.roundtrip) (simp add: BeaconReply_ok_def)
  with ABeaconReply show ?thesis by (auto simp: ReplyBeacon_def message_types)
qed

lemma listener_concat:
  "list_all (sent_ok ok) xs \<Longrightarrow>
   replicaListener (Suc (length xs)) table gb gbr (concat (map (\<lambda>x. the (send code enc x (Some []))) xs))
     = (map (received chan recv) xs, Eof)"
proof (induction xs arbitrary: gb gbr)
  case Nil
  then show ?case by simp
next
  case (Cons x xs)
  obtain b br where "replicaListener (Suc (Suc (length xs))) table gb gbr
        (the (send code enc x (Some [])) @ concat (map (\<lambda>x. the (send code enc x (Some []))) xs)) =
      (let (es, s) = replicaListener (Suc (length xs)) table b br (concat (map (\<lambda>x. the (send code enc x (Some []))) xs))
       in (received chan recv x # es, s))"
    using listen_one [of x "Suc (length xs)" gb gbr] Cons.prems by fastforce
  with Cons show ?case by simp
qed

text \<open>Whatever is sent on a connection is read at the other end, message by message, in order.\<close>

lemma connection:
  "list_all (sent_ok ok) xs \<Longrightarrow> fold (send code enc) xs (Some []) = Some wire \<Longrightarrow>
   replicaListener (Suc (length xs)) table gb gbr wire = (map (received chan recv) xs, Eof)"
  using listener_concat by (auto simp: sends_append)

end

section \<open>Client connections\<close>

datatype 'm client_event =
    Bind int                   \<comment> \<open>\<open>ClientWriters[propose.ClientId] = writer\<close>\<close>
  | Answer ProposeReplyTS      \<comment> \<open>a local read, answered at once\<close>
  | Delay Propose              \<comment> \<open>to the delayed propose channel\<close>
  | StatsJson                  \<comment> \<open>the statistics, in JSON\<close>
  | Forward nat 'm

fun clientListener ::
  "nat \<Rightarrow> 'm Table \<Rightarrow> 'st treemap \<Rightarrow> 'st \<Rightarrow> bool \<Rightarrow> bytes \<Rightarrow> 'm client_event list \<times> stop" where
  "clientListener 0 table T st LRead wire = ([], Running)"
| "clientListener (Suc n) table T st LRead [] = ([], Eof)"
| "clientListener (Suc n) table T st LRead (msgType # wire) =
     (if msgType = PROPOSE then
        (case Unmarshal_Propose zero_Propose wire of
           None \<Rightarrow> ([], Panic)
         | Some (noerr, propose, wire) \<Rightarrow>
             if \<not> noerr then ([], Decode_error)
             else
               let op = Op (Propose_Command propose); bind = Bind (Propose_ClientId propose) in
               if LRead \<and> (op = GET \<or> op = SCAN) then
                 (case Execute T (Propose_Command propose) st of
                    None \<Rightarrow> ([bind], Panic)
                  | Some (v, st) \<Rightarrow>
                      let (es, s) = clientListener n table T st LRead wire
                      in (bind # Answer \<lparr>ProposeReplyTS_OK = 1, ProposeReplyTS_CommandId = Propose_CommandId propose,
                            ProposeReplyTS_Value = v, ProposeReplyTS_Timestamp = Propose_Timestamp propose\<rparr> # es, s))
               else
                 let (es, s) = clientListener n table T st LRead wire
                 in (bind # Delay propose # es, s))
      else if msgType = READ then
        (case Unmarshal_Read zero_Read wire of
           None \<Rightarrow> ([], Panic)
         | Some (noerr, _, wire) \<Rightarrow>
             if \<not> noerr then ([], Decode_error) else clientListener n table T st LRead wire)
      else if msgType = PROPOSE_AND_READ then
        (case Unmarshal_ProposeAndRead zero_ProposeAndRead wire of
           None \<Rightarrow> ([], Panic)
         | Some (noerr, _, wire) \<Rightarrow>
             if \<not> noerr then ([], Decode_error) else clientListener n table T st LRead wire)
      else if msgType = STATS then
        (let (es, s) = clientListener n table T st LRead wire in (StatsJson # es, s))
      else
        (case Get table msgType of
           None \<Rightarrow> ([], Fatal msgType)
         | Some p \<Rightarrow>
             (case Obj p wire of
                None \<Rightarrow> ([], Panic)
              | Some (noerr, obj, wire) \<Rightarrow>
                  if \<not> noerr then ([], Decode_error)
                  else let (es, s) = clientListener n table T st LRead wire
                       in (Forward (Chan p) obj # es, s))))"

end
