(* ===== verification/PaxosMsg.thy ===== *)
theory PaxosMsg
  imports Ids
begin

text \<open>
  Messages of Paxos (\<open>paxos/defs.go\<close>).  Each message has a record, its
  \<open>Marshal\<close> and \<open>Unmarshal\<close> methods as the generator wrote them,
         the ranges its fields have by their
  Go types, and an interpretation of the contract of messages.
\<close>

section \<open>Prepare\<close>

record Prepare =
  Prepare_LeaderId :: "int"
  Prepare_Instance :: "int"
  Prepare_Ballot :: "int"

definition Prepare_ok :: "Prepare \<Rightarrow> bool" where
  [codec_ok]: "Prepare_ok t \<longleftrightarrow> i32 (Prepare_LeaderId t) \<and>
     i32 (Prepare_Instance t) \<and>
     i32 (Prepare_Ballot t)"

definition zero_Prepare :: Prepare where
  "zero_Prepare = \<lparr>Prepare_LeaderId = 0, Prepare_Instance = 0, Prepare_Ballot = 0\<rparr>"

definition Marshal_Prepare :: "Prepare \<Rightarrow> bytes" where
  "Marshal_Prepare t =
     layout [put_le 4 (Prepare_LeaderId t), put_le 4 (Prepare_Instance t),
         put_le 4 (Prepare_Ballot t)]"

definition Unmarshal_Prepare :: "Prepare unmarshal" where
  "Unmarshal_Prepare = steps
     [read_block 12 (\<lambda>bs t. t\<lparr>Prepare_LeaderId := i32_at bs 0,
         Prepare_Instance := i32_at bs 4, Prepare_Ballot := i32_at bs 8\<rparr>)]"

interpretation Prepare_msg: message Marshal_Prepare Unmarshal_Prepare Prepare_ok
  by unfold_locales (simp add: Marshal_Prepare_def Unmarshal_Prepare_def
         codec_simps codec_ok del: put_le.simps)

section \<open>PrepareReply\<close>

record PrepareReply =
  PrepareReply_Instance :: "int"
  PrepareReply_Ballot :: "int"
  PrepareReply_VBallot :: "int"
  PrepareReply_DefaultBallot :: "int"
  PrepareReply_AcceptorId :: "int"
  PrepareReply_Command :: "command list"

definition PrepareReply_ok :: "PrepareReply \<Rightarrow> bool" where
  [codec_ok]: "PrepareReply_ok t \<longleftrightarrow> i32 (PrepareReply_Instance t) \<and>
     i32 (PrepareReply_Ballot t) \<and>
     i32 (PrepareReply_VBallot t) \<and>
     i32 (PrepareReply_DefaultBallot t) \<and>
     i32 (PrepareReply_AcceptorId t) \<and>
     list_all command_ok (PrepareReply_Command t) \<and>
     i64 (int (length (PrepareReply_Command t)))"

definition zero_PrepareReply :: PrepareReply where
  "zero_PrepareReply = \<lparr>PrepareReply_Instance = 0, PrepareReply_Ballot = 0,
         PrepareReply_VBallot = 0, PrepareReply_DefaultBallot = 0, PrepareReply_AcceptorId = 0,
         PrepareReply_Command = []\<rparr>"

definition Marshal_PrepareReply :: "PrepareReply \<Rightarrow> bytes" where
  "Marshal_PrepareReply t =
     layout [put_le 4 (PrepareReply_Instance t), put_le 4 (PrepareReply_Ballot t),
         put_le 4 (PrepareReply_VBallot t), put_le 4 (PrepareReply_DefaultBallot t),
         put_le 4 (PrepareReply_AcceptorId t)] @
     put_list Marshal_Command (PrepareReply_Command t)"

definition Unmarshal_PrepareReply :: "PrepareReply unmarshal" where
  "Unmarshal_PrepareReply = steps
     [read_block 20 (\<lambda>bs t. t\<lparr>PrepareReply_Instance := i32_at bs 0,
         PrepareReply_Ballot := i32_at bs 4, PrepareReply_VBallot := i32_at bs 8,
         PrepareReply_DefaultBallot := i32_at bs 12,
         PrepareReply_AcceptorId := i32_at bs 16\<rparr>),
      read_list False Unmarshal_Command zero_command (\<lambda>xs t. t\<lparr>PrepareReply_Command := xs\<rparr>)]"

interpretation PrepareReply_msg: message Marshal_PrepareReply Unmarshal_PrepareReply PrepareReply_ok
  by unfold_locales (simp add: Marshal_PrepareReply_def Unmarshal_PrepareReply_def
         codec_simps codec_ok del: put_le.simps)

section \<open>Accept\<close>

record Accept =
  Accept_LeaderId :: "int"
  Accept_Instance :: "int"
  Accept_Ballot :: "int"
  Accept_Command :: "command list"

definition Accept_ok :: "Accept \<Rightarrow> bool" where
  [codec_ok]: "Accept_ok t \<longleftrightarrow> i32 (Accept_LeaderId t) \<and>
     i32 (Accept_Instance t) \<and>
     i32 (Accept_Ballot t) \<and>
     list_all command_ok (Accept_Command t) \<and>
     i64 (int (length (Accept_Command t)))"

definition zero_Accept :: Accept where
  "zero_Accept = \<lparr>Accept_LeaderId = 0, Accept_Instance = 0, Accept_Ballot = 0,
         Accept_Command = []\<rparr>"

definition Marshal_Accept :: "Accept \<Rightarrow> bytes" where
  "Marshal_Accept t =
     layout [put_le 4 (Accept_LeaderId t), put_le 4 (Accept_Instance t),
         put_le 4 (Accept_Ballot t)] @
     put_list Marshal_Command (Accept_Command t)"

definition Unmarshal_Accept :: "Accept unmarshal" where
  "Unmarshal_Accept = steps
     [read_block 12 (\<lambda>bs t. t\<lparr>Accept_LeaderId := i32_at bs 0,
         Accept_Instance := i32_at bs 4, Accept_Ballot := i32_at bs 8\<rparr>),
      read_list False Unmarshal_Command zero_command (\<lambda>xs t. t\<lparr>Accept_Command := xs\<rparr>)]"

interpretation Accept_msg: message Marshal_Accept Unmarshal_Accept Accept_ok
  by unfold_locales (simp add: Marshal_Accept_def Unmarshal_Accept_def
         codec_simps codec_ok del: put_le.simps)

section \<open>AcceptReply\<close>

record AcceptReply =
  AcceptReply_Instance :: "int"
  AcceptReply_Ballot :: "int"

definition AcceptReply_ok :: "AcceptReply \<Rightarrow> bool" where
  [codec_ok]: "AcceptReply_ok t \<longleftrightarrow> i32 (AcceptReply_Instance t) \<and>
     i32 (AcceptReply_Ballot t)"

definition zero_AcceptReply :: AcceptReply where
  "zero_AcceptReply = \<lparr>AcceptReply_Instance = 0, AcceptReply_Ballot = 0\<rparr>"

definition Marshal_AcceptReply :: "AcceptReply \<Rightarrow> bytes" where
  "Marshal_AcceptReply t =
     layout [put_le 4 (AcceptReply_Instance t), put_le 4 (AcceptReply_Ballot t)]"

definition Unmarshal_AcceptReply :: "AcceptReply unmarshal" where
  "Unmarshal_AcceptReply = steps
     [read_block 8 (\<lambda>bs t. t\<lparr>AcceptReply_Instance := i32_at bs 0,
         AcceptReply_Ballot := i32_at bs 4\<rparr>)]"

interpretation AcceptReply_msg: message Marshal_AcceptReply Unmarshal_AcceptReply AcceptReply_ok
  by unfold_locales (simp add: Marshal_AcceptReply_def Unmarshal_AcceptReply_def
         codec_simps codec_ok del: put_le.simps)

section \<open>Commit\<close>

record Commit =
  Commit_LeaderId :: "int"
  Commit_Instance :: "int"
  Commit_Ballot :: "int"
  Commit_Command :: "command list"

definition Commit_ok :: "Commit \<Rightarrow> bool" where
  [codec_ok]: "Commit_ok t \<longleftrightarrow> i32 (Commit_LeaderId t) \<and>
     i32 (Commit_Instance t) \<and>
     i32 (Commit_Ballot t) \<and>
     list_all command_ok (Commit_Command t) \<and>
     i64 (int (length (Commit_Command t)))"

definition zero_Commit :: Commit where
  "zero_Commit = \<lparr>Commit_LeaderId = 0, Commit_Instance = 0, Commit_Ballot = 0,
         Commit_Command = []\<rparr>"

definition Marshal_Commit :: "Commit \<Rightarrow> bytes" where
  "Marshal_Commit t =
     layout [put_le 4 (Commit_LeaderId t), put_le 4 (Commit_Instance t),
         put_le 4 (Commit_Ballot t)] @
     put_list Marshal_Command (Commit_Command t)"

definition Unmarshal_Commit :: "Commit unmarshal" where
  "Unmarshal_Commit = steps
     [read_block 12 (\<lambda>bs t. t\<lparr>Commit_LeaderId := i32_at bs 0,
         Commit_Instance := i32_at bs 4, Commit_Ballot := i32_at bs 8\<rparr>),
      read_list False Unmarshal_Command zero_command (\<lambda>xs t. t\<lparr>Commit_Command := xs\<rparr>)]"

interpretation Commit_msg: message Marshal_Commit Unmarshal_Commit Commit_ok
  by unfold_locales (simp add: Marshal_Commit_def Unmarshal_Commit_def
         codec_simps codec_ok del: put_le.simps)

section \<open>CommitShort\<close>

record CommitShort =
  CommitShort_LeaderId :: "int"
  CommitShort_Instance :: "int"
  CommitShort_Count :: "int"
  CommitShort_Ballot :: "int"

definition CommitShort_ok :: "CommitShort \<Rightarrow> bool" where
  [codec_ok]: "CommitShort_ok t \<longleftrightarrow> i32 (CommitShort_LeaderId t) \<and>
     i32 (CommitShort_Instance t) \<and>
     i32 (CommitShort_Count t) \<and>
     i32 (CommitShort_Ballot t)"

definition zero_CommitShort :: CommitShort where
  "zero_CommitShort = \<lparr>CommitShort_LeaderId = 0, CommitShort_Instance = 0,
         CommitShort_Count = 0, CommitShort_Ballot = 0\<rparr>"

definition Marshal_CommitShort :: "CommitShort \<Rightarrow> bytes" where
  "Marshal_CommitShort t =
     layout [put_le 4 (CommitShort_LeaderId t), put_le 4 (CommitShort_Instance t),
         put_le 4 (CommitShort_Count t), put_le 4 (CommitShort_Ballot t)]"

definition Unmarshal_CommitShort :: "CommitShort unmarshal" where
  "Unmarshal_CommitShort = steps
     [read_block 16 (\<lambda>bs t. t\<lparr>CommitShort_LeaderId := i32_at bs 0,
         CommitShort_Instance := i32_at bs 4, CommitShort_Count := i32_at bs 8,
         CommitShort_Ballot := i32_at bs 12\<rparr>)]"

interpretation CommitShort_msg: message Marshal_CommitShort Unmarshal_CommitShort CommitShort_ok
  by unfold_locales (simp add: Marshal_CommitShort_def Unmarshal_CommitShort_def
         codec_simps codec_ok del: put_le.simps)

section \<open>All messages\<close>

datatype paxos_msg =
    PrepareMsg Prepare
  | AcceptMsg Accept
  | CommitMsg Commit
  | CommitShortMsg CommitShort
  | PrepareReplyMsg PrepareReply
  | AcceptReplyMsg AcceptReply

end
