(* ===== verification/FastPaxosMsg.thy ===== *)
theory FastPaxosMsg
  imports Ids
begin

text \<open>
  Messages of Fast Paxos (\<open>fastpaxos/defs.go\<close>).  Each message has a record, its
  \<open>Marshal\<close> and \<open>Unmarshal\<close> methods as the generator wrote them,
         the ranges its fields have by their
  Go types, and an interpretation of the contract of messages.
\<close>

section \<open>M2B\<close>

record FastM2B =
  FastM2B_CmdId :: "CommandId"
  FastM2B_Ballot :: "int"
  FastM2B_Cballot :: "int"
  FastM2B_Replica :: "int"
  FastM2B_InstanceId :: "int"

definition FastM2B_ok :: "FastM2B \<Rightarrow> bool" where
  [codec_ok]: "FastM2B_ok t \<longleftrightarrow> CommandId_ok (FastM2B_CmdId t) \<and>
     i32 (FastM2B_Ballot t) \<and>
     i32 (FastM2B_Cballot t) \<and>
     i32 (FastM2B_Replica t) \<and>
     i64 (FastM2B_InstanceId t)"

definition zero_FastM2B :: FastM2B where
  "zero_FastM2B = \<lparr>FastM2B_CmdId = zero_CommandId, FastM2B_Ballot = 0, FastM2B_Cballot = 0,
         FastM2B_Replica = 0, FastM2B_InstanceId = 0\<rparr>"

definition Marshal_FastM2B :: "FastM2B \<Rightarrow> bytes" where
  "Marshal_FastM2B t =
     layout [put_le 4 (ClientId (FastM2B_CmdId t)), put_le 4 (SeqNum (FastM2B_CmdId t)),
         put_le 4 (FastM2B_Ballot t), put_le 4 (FastM2B_Cballot t), put_le 4 (FastM2B_Replica t),
         put_le 8 (FastM2B_InstanceId t)]"

definition Unmarshal_FastM2B :: "FastM2B unmarshal" where
  "Unmarshal_FastM2B = steps
     [read_block 28 (\<lambda>bs t. t\<lparr>FastM2B_CmdId := CommandId (i32_at bs 0) (i32_at bs 4),
         FastM2B_Ballot := i32_at bs 8, FastM2B_Cballot := i32_at bs 12,
         FastM2B_Replica := i32_at bs 16, FastM2B_InstanceId := i64_at bs 20\<rparr>)]"

interpretation FastM2B_msg: message Marshal_FastM2B Unmarshal_FastM2B FastM2B_ok
  by unfold_locales (simp add: Marshal_FastM2B_def Unmarshal_FastM2B_def
         codec_simps codec_ok del: put_le.simps)

section \<open>All messages\<close>

datatype fastpaxos_msg =
    FastM2BMsg FastM2B

end
