(* ===== verification/N2PaxosMsg.thy ===== *)
theory N2PaxosMsg
  imports Ids
begin

text \<open>
  Messages of N2Paxos (\<open>n2paxos/defs.go\<close>).  Each message has a record, its
  \<open>Marshal\<close> and \<open>Unmarshal\<close> methods as the generator wrote them,
         the ranges its fields have by their
  Go types, and an interpretation of the contract of messages.
\<close>

section \<open>M2A\<close>

record N2M2A =
  N2M2A_Replica :: "int"
  N2M2A_Ballot :: "int"
  N2M2A_Cmd :: "command"
  N2M2A_CmdId :: "CommandId"
  N2M2A_CmdSlot :: "int"

definition N2M2A_ok :: "N2M2A \<Rightarrow> bool" where
  [codec_ok]: "N2M2A_ok t \<longleftrightarrow> i32 (N2M2A_Replica t) \<and>
     i32 (N2M2A_Ballot t) \<and>
     command_ok (N2M2A_Cmd t) \<and>
     CommandId_ok (N2M2A_CmdId t) \<and>
     i64 (N2M2A_CmdSlot t)"

definition zero_N2M2A :: N2M2A where
  "zero_N2M2A = \<lparr>N2M2A_Replica = 0, N2M2A_Ballot = 0, N2M2A_Cmd = zero_command,
         N2M2A_CmdId = zero_CommandId, N2M2A_CmdSlot = 0\<rparr>"

definition Marshal_N2M2A :: "N2M2A \<Rightarrow> bytes" where
  "Marshal_N2M2A t =
     layout [put_le 4 (N2M2A_Replica t), put_le 4 (N2M2A_Ballot t)] @
     Marshal_Command (N2M2A_Cmd t) @
     layout [put_le 4 (ClientId (N2M2A_CmdId t)), put_le 4 (SeqNum (N2M2A_CmdId t)),
         put_le 8 (N2M2A_CmdSlot t)]"

definition Unmarshal_N2M2A :: "N2M2A unmarshal" where
  "Unmarshal_N2M2A = steps
     [read_block 8 (\<lambda>bs t. t\<lparr>N2M2A_Replica := i32_at bs 0,
         N2M2A_Ballot := i32_at bs 4\<rparr>),
      read_field Unmarshal_Command N2M2A_Cmd (\<lambda>x t. t\<lparr>N2M2A_Cmd := x\<rparr>),
      read_block 16 (\<lambda>bs t. t\<lparr>N2M2A_CmdId := CommandId (i32_at bs 0) (i32_at bs 4),
         N2M2A_CmdSlot := i64_at bs 8\<rparr>)]"

interpretation N2M2A_msg: message Marshal_N2M2A Unmarshal_N2M2A N2M2A_ok
  by unfold_locales (simp add: Marshal_N2M2A_def Unmarshal_N2M2A_def
         codec_simps codec_ok del: put_le.simps)

lemmas N2M2A_lists [codec_simps] = N2M2A_msg.read_list_marshal

section \<open>M2B\<close>

record N2M2B =
  N2M2B_Replica :: "int"
  N2M2B_Ballot :: "int"
  N2M2B_CmdSlot :: "int"

definition N2M2B_ok :: "N2M2B \<Rightarrow> bool" where
  [codec_ok]: "N2M2B_ok t \<longleftrightarrow> i32 (N2M2B_Replica t) \<and>
     i32 (N2M2B_Ballot t) \<and>
     i64 (N2M2B_CmdSlot t)"

definition zero_N2M2B :: N2M2B where
  "zero_N2M2B = \<lparr>N2M2B_Replica = 0, N2M2B_Ballot = 0, N2M2B_CmdSlot = 0\<rparr>"

definition Marshal_N2M2B :: "N2M2B \<Rightarrow> bytes" where
  "Marshal_N2M2B t =
     layout [put_le 4 (N2M2B_Replica t), put_le 4 (N2M2B_Ballot t), put_le 8 (N2M2B_CmdSlot t)]"

definition Unmarshal_N2M2B :: "N2M2B unmarshal" where
  "Unmarshal_N2M2B = steps
     [read_block 16 (\<lambda>bs t. t\<lparr>N2M2B_Replica := i32_at bs 0,
         N2M2B_Ballot := i32_at bs 4, N2M2B_CmdSlot := i64_at bs 8\<rparr>)]"

interpretation N2M2B_msg: message Marshal_N2M2B Unmarshal_N2M2B N2M2B_ok
  by unfold_locales (simp add: Marshal_N2M2B_def Unmarshal_N2M2B_def
         codec_simps codec_ok del: put_le.simps)

text \<open>As an element of \<open>M2s.TwoBs\<close>, field by field.\<close>

definition put_inline_N2M2B :: "N2M2B \<Rightarrow> bytes" where
  "put_inline_N2M2B t =
     layout [put_le 4 (N2M2B_Replica t)] @ layout [put_le 4 (N2M2B_Ballot t)] @ layout [put_le 8 (N2M2B_CmdSlot t)]"

definition read_inline_N2M2B :: "N2M2B unmarshal" where
  "read_inline_N2M2B = steps
     [read_block 4 (\<lambda>bs t. t\<lparr>N2M2B_Replica := i32_at bs 0\<rparr>),
      read_block 4 (\<lambda>bs t. t\<lparr>N2M2B_Ballot := i32_at bs 0\<rparr>),
      read_block 8 (\<lambda>bs t. t\<lparr>N2M2B_CmdSlot := i64_at bs 0\<rparr>)]"

interpretation N2M2B_inline: message put_inline_N2M2B read_inline_N2M2B N2M2B_ok
  by unfold_locales (simp add: put_inline_N2M2B_def read_inline_N2M2B_def
         codec_simps codec_ok del: put_le.simps)

lemmas N2M2B_inline_lists [codec_simps] = N2M2B_inline.read_list_marshal

section \<open>M2s\<close>

record N2M2s =
  N2M2s_TwoAs :: "N2M2A list"
  N2M2s_TwoBs :: "N2M2B list"

definition N2M2s_ok :: "N2M2s \<Rightarrow> bool" where
  [codec_ok]: "N2M2s_ok t \<longleftrightarrow> list_all N2M2A_ok (N2M2s_TwoAs t) \<and>
     i64 (int (length (N2M2s_TwoAs t))) \<and>
     list_all N2M2B_ok (N2M2s_TwoBs t) \<and>
     i64 (int (length (N2M2s_TwoBs t)))"

definition zero_N2M2s :: N2M2s where
  "zero_N2M2s = \<lparr>N2M2s_TwoAs = [], N2M2s_TwoBs = []\<rparr>"

definition Marshal_N2M2s :: "N2M2s \<Rightarrow> bytes" where
  "Marshal_N2M2s t =
     put_list Marshal_N2M2A (N2M2s_TwoAs t) @
     put_list put_inline_N2M2B (N2M2s_TwoBs t)"

definition Unmarshal_N2M2s :: "N2M2s unmarshal" where
  "Unmarshal_N2M2s = steps
     [read_list False Unmarshal_N2M2A zero_N2M2A (\<lambda>xs t. t\<lparr>N2M2s_TwoAs := xs\<rparr>),
      read_list True read_inline_N2M2B zero_N2M2B (\<lambda>xs t. t\<lparr>N2M2s_TwoBs := xs\<rparr>)]"

interpretation N2M2s_msg: message Marshal_N2M2s Unmarshal_N2M2s N2M2s_ok
  by unfold_locales (simp add: Marshal_N2M2s_def Unmarshal_N2M2s_def
         codec_simps codec_ok del: put_le.simps)

section \<open>M1A\<close>

record N2M1A =
  N2M1A_Replica :: "int"
  N2M1A_Ballot :: "int"

definition N2M1A_ok :: "N2M1A \<Rightarrow> bool" where
  [codec_ok]: "N2M1A_ok t \<longleftrightarrow> i32 (N2M1A_Replica t) \<and>
     i32 (N2M1A_Ballot t)"

definition zero_N2M1A :: N2M1A where
  "zero_N2M1A = \<lparr>N2M1A_Replica = 0, N2M1A_Ballot = 0\<rparr>"

definition Marshal_N2M1A :: "N2M1A \<Rightarrow> bytes" where
  "Marshal_N2M1A t =
     layout [put_le 4 (N2M1A_Replica t), put_le 4 (N2M1A_Ballot t)]"

definition Unmarshal_N2M1A :: "N2M1A unmarshal" where
  "Unmarshal_N2M1A = steps
     [read_block 8 (\<lambda>bs t. t\<lparr>N2M1A_Replica := i32_at bs 0,
         N2M1A_Ballot := i32_at bs 4\<rparr>)]"

interpretation N2M1A_msg: message Marshal_N2M1A Unmarshal_N2M1A N2M1A_ok
  by unfold_locales (simp add: Marshal_N2M1A_def Unmarshal_N2M1A_def
         codec_simps codec_ok del: put_le.simps)

section \<open>M1B\<close>

record N2M1B =
  N2M1B_Replica :: "int"
  N2M1B_Ballot :: "int"
  N2M1B_CBallot :: "int"
  N2M1B_Cmds :: "command list"

definition N2M1B_ok :: "N2M1B \<Rightarrow> bool" where
  [codec_ok]: "N2M1B_ok t \<longleftrightarrow> i32 (N2M1B_Replica t) \<and>
     i32 (N2M1B_Ballot t) \<and>
     i32 (N2M1B_CBallot t) \<and>
     list_all command_ok (N2M1B_Cmds t) \<and>
     i64 (int (length (N2M1B_Cmds t)))"

definition zero_N2M1B :: N2M1B where
  "zero_N2M1B = \<lparr>N2M1B_Replica = 0, N2M1B_Ballot = 0, N2M1B_CBallot = 0,
         N2M1B_Cmds = []\<rparr>"

definition Marshal_N2M1B :: "N2M1B \<Rightarrow> bytes" where
  "Marshal_N2M1B t =
     layout [put_le 4 (N2M1B_Replica t), put_le 4 (N2M1B_Ballot t), put_le 4 (N2M1B_CBallot t)] @
     put_list Marshal_Command (N2M1B_Cmds t)"

definition Unmarshal_N2M1B :: "N2M1B unmarshal" where
  "Unmarshal_N2M1B = steps
     [read_block 12 (\<lambda>bs t. t\<lparr>N2M1B_Replica := i32_at bs 0,
         N2M1B_Ballot := i32_at bs 4, N2M1B_CBallot := i32_at bs 8\<rparr>),
      read_list False Unmarshal_Command zero_command (\<lambda>xs t. t\<lparr>N2M1B_Cmds := xs\<rparr>)]"

interpretation N2M1B_msg: message Marshal_N2M1B Unmarshal_N2M1B N2M1B_ok
  by unfold_locales (simp add: Marshal_N2M1B_def Unmarshal_N2M1B_def
         codec_simps codec_ok del: put_le.simps)

section \<open>MPaxosSync\<close>

record N2MPaxosSync =
  N2MPaxosSync_Replica :: "int"
  N2MPaxosSync_Ballot :: "int"
  N2MPaxosSync_Cmds :: "command list"

definition N2MPaxosSync_ok :: "N2MPaxosSync \<Rightarrow> bool" where
  [codec_ok]: "N2MPaxosSync_ok t \<longleftrightarrow> i32 (N2MPaxosSync_Replica t) \<and>
     i32 (N2MPaxosSync_Ballot t) \<and>
     list_all command_ok (N2MPaxosSync_Cmds t) \<and>
     i64 (int (length (N2MPaxosSync_Cmds t)))"

definition zero_N2MPaxosSync :: N2MPaxosSync where
  "zero_N2MPaxosSync = \<lparr>N2MPaxosSync_Replica = 0, N2MPaxosSync_Ballot = 0,
         N2MPaxosSync_Cmds = []\<rparr>"

definition Marshal_N2MPaxosSync :: "N2MPaxosSync \<Rightarrow> bytes" where
  "Marshal_N2MPaxosSync t =
     layout [put_le 4 (N2MPaxosSync_Replica t), put_le 4 (N2MPaxosSync_Ballot t)] @
     put_list Marshal_Command (N2MPaxosSync_Cmds t)"

definition Unmarshal_N2MPaxosSync :: "N2MPaxosSync unmarshal" where
  "Unmarshal_N2MPaxosSync = steps
     [read_block 8 (\<lambda>bs t. t\<lparr>N2MPaxosSync_Replica := i32_at bs 0,
         N2MPaxosSync_Ballot := i32_at bs 4\<rparr>),
      read_list False Unmarshal_Command zero_command (\<lambda>xs t. t\<lparr>N2MPaxosSync_Cmds := xs\<rparr>)]"

interpretation N2MPaxosSync_msg: message Marshal_N2MPaxosSync Unmarshal_N2MPaxosSync N2MPaxosSync_ok
  by unfold_locales (simp add: Marshal_N2MPaxosSync_def Unmarshal_N2MPaxosSync_def
         codec_simps codec_ok del: put_le.simps)

section \<open>All messages\<close>

datatype n2paxos_msg =
    N2M1AMsg N2M1A
  | N2M1BMsg N2M1B
  | N2M2AMsg N2M2A
  | N2M2BMsg N2M2B
  | N2M2sMsg N2M2s
  | N2MPaxosSyncMsg N2MPaxosSync

end
