(* ===== verification/CurpMsg.thy ===== *)
theory CurpMsg
  imports Ids
begin

text \<open>
  Messages of CURP (\<open>curp/defs.go\<close>).  Each message has a record, its
  \<open>Marshal\<close> and \<open>Unmarshal\<close> methods as the generator wrote them,
         the ranges its fields have by their
  Go types, and an interpretation of the contract of messages.
\<close>

section \<open>MReply\<close>

record CurpMReply =
  CurpMReply_Replica :: "int"
  CurpMReply_Ballot :: "int"
  CurpMReply_CmdId :: "CommandId"
  CurpMReply_Rep :: "bytes"
  CurpMReply_Ok :: "byte"

definition CurpMReply_ok :: "CurpMReply \<Rightarrow> bool" where
  [codec_ok]: "CurpMReply_ok t \<longleftrightarrow> i32 (CurpMReply_Replica t) \<and>
     i32 (CurpMReply_Ballot t) \<and>
     CommandId_ok (CurpMReply_CmdId t) \<and>
     i64 (int (length (CurpMReply_Rep t)))"

definition zero_CurpMReply :: CurpMReply where
  "zero_CurpMReply = \<lparr>CurpMReply_Replica = 0, CurpMReply_Ballot = 0,
         CurpMReply_CmdId = zero_CommandId, CurpMReply_Rep = [], CurpMReply_Ok = 0\<rparr>"

definition Marshal_CurpMReply :: "CurpMReply \<Rightarrow> bytes" where
  "Marshal_CurpMReply t =
     layout [put_le 4 (CurpMReply_Replica t), put_le 4 (CurpMReply_Ballot t),
         put_le 4 (ClientId (CurpMReply_CmdId t)), put_le 4 (SeqNum (CurpMReply_CmdId t))] @
     put_list put_byte (CurpMReply_Rep t) @
     layout [[CurpMReply_Ok t]]"

definition Unmarshal_CurpMReply :: "CurpMReply unmarshal" where
  "Unmarshal_CurpMReply = steps
     [read_block 16 (\<lambda>bs t. t\<lparr>CurpMReply_Replica := i32_at bs 0,
         CurpMReply_Ballot := i32_at bs 4,
         CurpMReply_CmdId := CommandId (i32_at bs 8) (i32_at bs 12)\<rparr>),
      read_list True read_byte 0 (\<lambda>xs t. t\<lparr>CurpMReply_Rep := xs\<rparr>),
      read_block 1 (\<lambda>bs t. t\<lparr>CurpMReply_Ok := bs ! 0\<rparr>)]"

interpretation CurpMReply_msg: message Marshal_CurpMReply Unmarshal_CurpMReply CurpMReply_ok
  by unfold_locales (simp add: Marshal_CurpMReply_def Unmarshal_CurpMReply_def
         codec_simps codec_ok del: put_le.simps)

section \<open>MAccept\<close>

record CurpMAccept =
  CurpMAccept_Replica :: "int"
  CurpMAccept_Ballot :: "int"
  CurpMAccept_Cmd :: "command"
  CurpMAccept_CmdId :: "CommandId"
  CurpMAccept_CmdSlot :: "int"

definition CurpMAccept_ok :: "CurpMAccept \<Rightarrow> bool" where
  [codec_ok]: "CurpMAccept_ok t \<longleftrightarrow> i32 (CurpMAccept_Replica t) \<and>
     i32 (CurpMAccept_Ballot t) \<and>
     command_ok (CurpMAccept_Cmd t) \<and>
     CommandId_ok (CurpMAccept_CmdId t) \<and>
     i64 (CurpMAccept_CmdSlot t)"

definition zero_CurpMAccept :: CurpMAccept where
  "zero_CurpMAccept = \<lparr>CurpMAccept_Replica = 0, CurpMAccept_Ballot = 0,
         CurpMAccept_Cmd = zero_command, CurpMAccept_CmdId = zero_CommandId,
         CurpMAccept_CmdSlot = 0\<rparr>"

definition Marshal_CurpMAccept :: "CurpMAccept \<Rightarrow> bytes" where
  "Marshal_CurpMAccept t =
     layout [put_le 4 (CurpMAccept_Replica t), put_le 4 (CurpMAccept_Ballot t)] @
     Marshal_Command (CurpMAccept_Cmd t) @
     layout [put_le 4 (ClientId (CurpMAccept_CmdId t)), put_le 4 (SeqNum (CurpMAccept_CmdId t)),
         put_le 8 (CurpMAccept_CmdSlot t)]"

definition Unmarshal_CurpMAccept :: "CurpMAccept unmarshal" where
  "Unmarshal_CurpMAccept = steps
     [read_block 8 (\<lambda>bs t. t\<lparr>CurpMAccept_Replica := i32_at bs 0,
         CurpMAccept_Ballot := i32_at bs 4\<rparr>),
      read_field Unmarshal_Command CurpMAccept_Cmd (\<lambda>x t. t\<lparr>CurpMAccept_Cmd := x\<rparr>),
      read_block 16 (\<lambda>bs t. t\<lparr>CurpMAccept_CmdId := CommandId (i32_at bs 0) (i32_at bs 4),
         CurpMAccept_CmdSlot := i64_at bs 8\<rparr>)]"

interpretation CurpMAccept_msg: message Marshal_CurpMAccept Unmarshal_CurpMAccept CurpMAccept_ok
  by unfold_locales (simp add: Marshal_CurpMAccept_def Unmarshal_CurpMAccept_def
         codec_simps codec_ok del: put_le.simps)

lemmas CurpMAccept_lists [codec_simps] = CurpMAccept_msg.read_list_marshal

section \<open>MAcceptAck\<close>

record CurpMAcceptAck =
  CurpMAcceptAck_Replica :: "int"
  CurpMAcceptAck_Ballot :: "int"
  CurpMAcceptAck_CmdSlot :: "int"

definition CurpMAcceptAck_ok :: "CurpMAcceptAck \<Rightarrow> bool" where
  [codec_ok]: "CurpMAcceptAck_ok t \<longleftrightarrow> i32 (CurpMAcceptAck_Replica t) \<and>
     i32 (CurpMAcceptAck_Ballot t) \<and>
     i64 (CurpMAcceptAck_CmdSlot t)"

definition zero_CurpMAcceptAck :: CurpMAcceptAck where
  "zero_CurpMAcceptAck = \<lparr>CurpMAcceptAck_Replica = 0, CurpMAcceptAck_Ballot = 0,
         CurpMAcceptAck_CmdSlot = 0\<rparr>"

definition Marshal_CurpMAcceptAck :: "CurpMAcceptAck \<Rightarrow> bytes" where
  "Marshal_CurpMAcceptAck t =
     layout [put_le 4 (CurpMAcceptAck_Replica t), put_le 4 (CurpMAcceptAck_Ballot t),
         put_le 8 (CurpMAcceptAck_CmdSlot t)]"

definition Unmarshal_CurpMAcceptAck :: "CurpMAcceptAck unmarshal" where
  "Unmarshal_CurpMAcceptAck = steps
     [read_block 16 (\<lambda>bs t. t\<lparr>CurpMAcceptAck_Replica := i32_at bs 0,
         CurpMAcceptAck_Ballot := i32_at bs 4, CurpMAcceptAck_CmdSlot := i64_at bs 8\<rparr>)]"

interpretation CurpMAcceptAck_msg: message Marshal_CurpMAcceptAck Unmarshal_CurpMAcceptAck CurpMAcceptAck_ok
  by unfold_locales (simp add: Marshal_CurpMAcceptAck_def Unmarshal_CurpMAcceptAck_def
         codec_simps codec_ok del: put_le.simps)

text \<open>As an element of \<open>MAAcks.Acks\<close>, field by field.\<close>

definition put_inline_CurpMAcceptAck :: "CurpMAcceptAck \<Rightarrow> bytes" where
  "put_inline_CurpMAcceptAck t =
     layout [put_le 4 (CurpMAcceptAck_Replica t)] @ layout [put_le 4 (CurpMAcceptAck_Ballot t)] @ layout [put_le 8 (CurpMAcceptAck_CmdSlot t)]"

definition read_inline_CurpMAcceptAck :: "CurpMAcceptAck unmarshal" where
  "read_inline_CurpMAcceptAck = steps
     [read_block 4 (\<lambda>bs t. t\<lparr>CurpMAcceptAck_Replica := i32_at bs 0\<rparr>),
      read_block 4 (\<lambda>bs t. t\<lparr>CurpMAcceptAck_Ballot := i32_at bs 0\<rparr>),
      read_block 8 (\<lambda>bs t. t\<lparr>CurpMAcceptAck_CmdSlot := i64_at bs 0\<rparr>)]"

interpretation CurpMAcceptAck_inline: message put_inline_CurpMAcceptAck read_inline_CurpMAcceptAck CurpMAcceptAck_ok
  by unfold_locales (simp add: put_inline_CurpMAcceptAck_def read_inline_CurpMAcceptAck_def
         codec_simps codec_ok del: put_le.simps)

lemmas CurpMAcceptAck_inline_lists [codec_simps] = CurpMAcceptAck_inline.read_list_marshal

section \<open>MAAcks\<close>

record CurpMAAcks =
  CurpMAAcks_Acks :: "CurpMAcceptAck list"
  CurpMAAcks_Accepts :: "CurpMAccept list"

definition CurpMAAcks_ok :: "CurpMAAcks \<Rightarrow> bool" where
  [codec_ok]: "CurpMAAcks_ok t \<longleftrightarrow> list_all CurpMAcceptAck_ok (CurpMAAcks_Acks t) \<and>
     i64 (int (length (CurpMAAcks_Acks t))) \<and>
     list_all CurpMAccept_ok (CurpMAAcks_Accepts t) \<and>
     i64 (int (length (CurpMAAcks_Accepts t)))"

definition zero_CurpMAAcks :: CurpMAAcks where
  "zero_CurpMAAcks = \<lparr>CurpMAAcks_Acks = [], CurpMAAcks_Accepts = []\<rparr>"

definition Marshal_CurpMAAcks :: "CurpMAAcks \<Rightarrow> bytes" where
  "Marshal_CurpMAAcks t =
     put_list put_inline_CurpMAcceptAck (CurpMAAcks_Acks t) @
     put_list Marshal_CurpMAccept (CurpMAAcks_Accepts t)"

definition Unmarshal_CurpMAAcks :: "CurpMAAcks unmarshal" where
  "Unmarshal_CurpMAAcks = steps
     [read_list True read_inline_CurpMAcceptAck zero_CurpMAcceptAck (\<lambda>xs t. t\<lparr>CurpMAAcks_Acks := xs\<rparr>),
      read_list False Unmarshal_CurpMAccept zero_CurpMAccept (\<lambda>xs t. t\<lparr>CurpMAAcks_Accepts := xs\<rparr>)]"

interpretation CurpMAAcks_msg: message Marshal_CurpMAAcks Unmarshal_CurpMAAcks CurpMAAcks_ok
  by unfold_locales (simp add: Marshal_CurpMAAcks_def Unmarshal_CurpMAAcks_def
         codec_simps codec_ok del: put_le.simps)

section \<open>MRecordAck\<close>

record CurpMRecordAck =
  CurpMRecordAck_Replica :: "int"
  CurpMRecordAck_Ballot :: "int"
  CurpMRecordAck_CmdId :: "CommandId"
  CurpMRecordAck_Ok :: "byte"

definition CurpMRecordAck_ok :: "CurpMRecordAck \<Rightarrow> bool" where
  [codec_ok]: "CurpMRecordAck_ok t \<longleftrightarrow> i32 (CurpMRecordAck_Replica t) \<and>
     i32 (CurpMRecordAck_Ballot t) \<and>
     CommandId_ok (CurpMRecordAck_CmdId t)"

definition zero_CurpMRecordAck :: CurpMRecordAck where
  "zero_CurpMRecordAck = \<lparr>CurpMRecordAck_Replica = 0, CurpMRecordAck_Ballot = 0,
         CurpMRecordAck_CmdId = zero_CommandId, CurpMRecordAck_Ok = 0\<rparr>"

definition Marshal_CurpMRecordAck :: "CurpMRecordAck \<Rightarrow> bytes" where
  "Marshal_CurpMRecordAck t =
     layout [put_le 4 (CurpMRecordAck_Replica t), put_le 4 (CurpMRecordAck_Ballot t),
         put_le 4 (ClientId (CurpMRecordAck_CmdId t)), put_le 4 (SeqNum (CurpMRecordAck_CmdId t)),
         [CurpMRecordAck_Ok t]]"

definition Unmarshal_CurpMRecordAck :: "CurpMRecordAck unmarshal" where
  "Unmarshal_CurpMRecordAck = steps
     [read_block 17 (\<lambda>bs t. t\<lparr>CurpMRecordAck_Replica := i32_at bs 0,
         CurpMRecordAck_Ballot := i32_at bs 4,
         CurpMRecordAck_CmdId := CommandId (i32_at bs 8) (i32_at bs 12),
         CurpMRecordAck_Ok := bs ! 16\<rparr>)]"

interpretation CurpMRecordAck_msg: message Marshal_CurpMRecordAck Unmarshal_CurpMRecordAck CurpMRecordAck_ok
  by unfold_locales (simp add: Marshal_CurpMRecordAck_def Unmarshal_CurpMRecordAck_def
         codec_simps codec_ok del: put_le.simps)

section \<open>MCommit\<close>

record CurpMCommit =
  CurpMCommit_Replica :: "int"
  CurpMCommit_Ballot :: "int"
  CurpMCommit_CmdSlot :: "int"

definition CurpMCommit_ok :: "CurpMCommit \<Rightarrow> bool" where
  [codec_ok]: "CurpMCommit_ok t \<longleftrightarrow> i32 (CurpMCommit_Replica t) \<and>
     i32 (CurpMCommit_Ballot t) \<and>
     i64 (CurpMCommit_CmdSlot t)"

definition zero_CurpMCommit :: CurpMCommit where
  "zero_CurpMCommit = \<lparr>CurpMCommit_Replica = 0, CurpMCommit_Ballot = 0,
         CurpMCommit_CmdSlot = 0\<rparr>"

definition Marshal_CurpMCommit :: "CurpMCommit \<Rightarrow> bytes" where
  "Marshal_CurpMCommit t =
     layout [put_le 4 (CurpMCommit_Replica t), put_le 4 (CurpMCommit_Ballot t),
         put_le 8 (CurpMCommit_CmdSlot t)]"

definition Unmarshal_CurpMCommit :: "CurpMCommit unmarshal" where
  "Unmarshal_CurpMCommit = steps
     [read_block 16 (\<lambda>bs t. t\<lparr>CurpMCommit_Replica := i32_at bs 0,
         CurpMCommit_Ballot := i32_at bs 4, CurpMCommit_CmdSlot := i64_at bs 8\<rparr>)]"

interpretation CurpMCommit_msg: message Marshal_CurpMCommit Unmarshal_CurpMCommit CurpMCommit_ok
  by unfold_locales (simp add: Marshal_CurpMCommit_def Unmarshal_CurpMCommit_def
         codec_simps codec_ok del: put_le.simps)

section \<open>MSync\<close>

record CurpMSync =
  CurpMSync_CmdId :: "CommandId"

definition CurpMSync_ok :: "CurpMSync \<Rightarrow> bool" where
  [codec_ok]: "CurpMSync_ok t \<longleftrightarrow> CommandId_ok (CurpMSync_CmdId t)"

definition zero_CurpMSync :: CurpMSync where
  "zero_CurpMSync = \<lparr>CurpMSync_CmdId = zero_CommandId\<rparr>"

definition Marshal_CurpMSync :: "CurpMSync \<Rightarrow> bytes" where
  "Marshal_CurpMSync t =
     layout [put_le 4 (ClientId (CurpMSync_CmdId t)), put_le 4 (SeqNum (CurpMSync_CmdId t))]"

definition Unmarshal_CurpMSync :: "CurpMSync unmarshal" where
  "Unmarshal_CurpMSync = steps
     [read_block 8 (\<lambda>bs t. t\<lparr>CurpMSync_CmdId := CommandId (i32_at bs 0) (i32_at bs 4)\<rparr>)]"

interpretation CurpMSync_msg: message Marshal_CurpMSync Unmarshal_CurpMSync CurpMSync_ok
  by unfold_locales (simp add: Marshal_CurpMSync_def Unmarshal_CurpMSync_def
         codec_simps codec_ok del: put_le.simps)

section \<open>MSyncReply\<close>

record CurpMSyncReply =
  CurpMSyncReply_Replica :: "int"
  CurpMSyncReply_Ballot :: "int"
  CurpMSyncReply_CmdId :: "CommandId"
  CurpMSyncReply_Rep :: "bytes"

definition CurpMSyncReply_ok :: "CurpMSyncReply \<Rightarrow> bool" where
  [codec_ok]: "CurpMSyncReply_ok t \<longleftrightarrow> i32 (CurpMSyncReply_Replica t) \<and>
     i32 (CurpMSyncReply_Ballot t) \<and>
     CommandId_ok (CurpMSyncReply_CmdId t) \<and>
     i64 (int (length (CurpMSyncReply_Rep t)))"

definition zero_CurpMSyncReply :: CurpMSyncReply where
  "zero_CurpMSyncReply = \<lparr>CurpMSyncReply_Replica = 0, CurpMSyncReply_Ballot = 0,
         CurpMSyncReply_CmdId = zero_CommandId, CurpMSyncReply_Rep = []\<rparr>"

definition Marshal_CurpMSyncReply :: "CurpMSyncReply \<Rightarrow> bytes" where
  "Marshal_CurpMSyncReply t =
     layout [put_le 4 (CurpMSyncReply_Replica t), put_le 4 (CurpMSyncReply_Ballot t),
         put_le 4 (ClientId (CurpMSyncReply_CmdId t)), put_le 4 (SeqNum (CurpMSyncReply_CmdId t))] @
     put_list put_byte (CurpMSyncReply_Rep t)"

definition Unmarshal_CurpMSyncReply :: "CurpMSyncReply unmarshal" where
  "Unmarshal_CurpMSyncReply = steps
     [read_block 16 (\<lambda>bs t. t\<lparr>CurpMSyncReply_Replica := i32_at bs 0,
         CurpMSyncReply_Ballot := i32_at bs 4,
         CurpMSyncReply_CmdId := CommandId (i32_at bs 8) (i32_at bs 12)\<rparr>),
      read_list True read_byte 0 (\<lambda>xs t. t\<lparr>CurpMSyncReply_Rep := xs\<rparr>)]"

interpretation CurpMSyncReply_msg: message Marshal_CurpMSyncReply Unmarshal_CurpMSyncReply CurpMSyncReply_ok
  by unfold_locales (simp add: Marshal_CurpMSyncReply_def Unmarshal_CurpMSyncReply_def
         codec_simps codec_ok del: put_le.simps)

section \<open>All messages\<close>

datatype curp_msg =
    CurpMReplyMsg CurpMReply
  | CurpMAcceptMsg CurpMAccept
  | CurpMAcceptAckMsg CurpMAcceptAck
  | CurpMAAcksMsg CurpMAAcks
  | CurpMRecordAckMsg CurpMRecordAck
  | CurpMCommitMsg CurpMCommit
  | CurpMSyncMsg CurpMSync
  | CurpMSyncReplyMsg CurpMSyncReply

end
