(* ===== verification/EPaxosMsg.thy ===== *)
theory EPaxosMsg
  imports Ids
begin

text \<open>
  Messages of EPaxos (\<open>epaxos/defs.go\<close>).  Each message has a record, its
  \<open>Marshal\<close> and \<open>Unmarshal\<close> methods as the generator wrote them,
         the ranges its fields have by their
  Go types, and an interpretation of the contract of messages.
\<close>

section \<open>Prepare\<close>

record EPrepare =
  EPrepare_LeaderId :: "int"
  EPrepare_Replica :: "int"
  EPrepare_Instance :: "int"
  EPrepare_Ballot :: "int"

definition EPrepare_ok :: "EPrepare \<Rightarrow> bool" where
  [codec_ok]: "EPrepare_ok t \<longleftrightarrow> i32 (EPrepare_LeaderId t) \<and>
     i32 (EPrepare_Replica t) \<and>
     i32 (EPrepare_Instance t) \<and>
     i32 (EPrepare_Ballot t)"

definition zero_EPrepare :: EPrepare where
  "zero_EPrepare = \<lparr>EPrepare_LeaderId = 0, EPrepare_Replica = 0, EPrepare_Instance = 0,
         EPrepare_Ballot = 0\<rparr>"

definition Marshal_EPrepare :: "EPrepare \<Rightarrow> bytes" where
  "Marshal_EPrepare t =
     layout [put_le 4 (EPrepare_LeaderId t), put_le 4 (EPrepare_Replica t),
         put_le 4 (EPrepare_Instance t), put_le 4 (EPrepare_Ballot t)]"

definition Unmarshal_EPrepare :: "EPrepare unmarshal" where
  "Unmarshal_EPrepare = steps
     [read_block 16 (\<lambda>bs t. t\<lparr>EPrepare_LeaderId := i32_at bs 0,
         EPrepare_Replica := i32_at bs 4, EPrepare_Instance := i32_at bs 8,
         EPrepare_Ballot := i32_at bs 12\<rparr>)]"

interpretation EPrepare_msg: message Marshal_EPrepare Unmarshal_EPrepare EPrepare_ok
  by unfold_locales (simp add: Marshal_EPrepare_def Unmarshal_EPrepare_def
         codec_simps codec_ok del: put_le.simps)

section \<open>PrepareReply\<close>

record EPrepareReply =
  EPrepareReply_AcceptorId :: "int"
  EPrepareReply_Replica :: "int"
  EPrepareReply_Instance :: "int"
  EPrepareReply_Ballot :: "int"
  EPrepareReply_VBallot :: "int"
  EPrepareReply_Status :: "int"
  EPrepareReply_Command :: "command list"
  EPrepareReply_Seq :: "int"
  EPrepareReply_Deps :: "int list"

definition EPrepareReply_ok :: "EPrepareReply \<Rightarrow> bool" where
  [codec_ok]: "EPrepareReply_ok t \<longleftrightarrow> i32 (EPrepareReply_AcceptorId t) \<and>
     i32 (EPrepareReply_Replica t) \<and>
     i32 (EPrepareReply_Instance t) \<and>
     i32 (EPrepareReply_Ballot t) \<and>
     i32 (EPrepareReply_VBallot t) \<and>
     i8 (EPrepareReply_Status t) \<and>
     list_all command_ok (EPrepareReply_Command t) \<and>
     i64 (int (length (EPrepareReply_Command t))) \<and>
     i32 (EPrepareReply_Seq t) \<and>
     list_all i32 (EPrepareReply_Deps t) \<and>
     i64 (int (length (EPrepareReply_Deps t)))"

definition zero_EPrepareReply :: EPrepareReply where
  "zero_EPrepareReply = \<lparr>EPrepareReply_AcceptorId = 0, EPrepareReply_Replica = 0,
         EPrepareReply_Instance = 0, EPrepareReply_Ballot = 0, EPrepareReply_VBallot = 0,
         EPrepareReply_Status = 0, EPrepareReply_Command = [], EPrepareReply_Seq = 0,
         EPrepareReply_Deps = []\<rparr>"

definition Marshal_EPrepareReply :: "EPrepareReply \<Rightarrow> bytes" where
  "Marshal_EPrepareReply t =
     layout [put_le 4 (EPrepareReply_AcceptorId t), put_le 4 (EPrepareReply_Replica t),
         put_le 4 (EPrepareReply_Instance t), put_le 4 (EPrepareReply_Ballot t),
         [word_of_int (EPrepareReply_Status t)]] @
     put_list Marshal_Command (EPrepareReply_Command t) @
     layout [put_le 4 (EPrepareReply_Seq t)] @
     put_list put_i32 (EPrepareReply_Deps t)"

definition Unmarshal_EPrepareReply :: "EPrepareReply unmarshal" where
  "Unmarshal_EPrepareReply = steps
     [read_block 17 (\<lambda>bs t. t\<lparr>EPrepareReply_AcceptorId := i32_at bs 0,
         EPrepareReply_Replica := i32_at bs 4, EPrepareReply_Instance := i32_at bs 8,
         EPrepareReply_Ballot := i32_at bs 12, EPrepareReply_Status := sint (bs ! 16)\<rparr>),
      read_list False Unmarshal_Command zero_command (\<lambda>xs t. t\<lparr>EPrepareReply_Command := xs\<rparr>),
      read_block 4 (\<lambda>bs t. t\<lparr>EPrepareReply_Seq := i32_at bs 0\<rparr>),
      read_list True read_i32 0 (\<lambda>xs t. t\<lparr>EPrepareReply_Deps := xs\<rparr>)]"

text \<open>
  \<open>Marshal\<close> does not write \<open>VBallot\<close> and \<open>Unmarshal\<close> does not read it: the receiver keeps what its
  object held.
\<close>

lemma Unmarshal_EPrepareReply_keeps_VBallot:
  "EPrepareReply_ok x \<Longrightarrow> Unmarshal_EPrepareReply t (Marshal_EPrepareReply x @ rest)
     = Some (True, x\<lparr>EPrepareReply_VBallot := EPrepareReply_VBallot t\<rparr>, rest)"
  by (simp add: Marshal_EPrepareReply_def Unmarshal_EPrepareReply_def codec_simps codec_ok del: put_le.simps)

section \<open>PreAccept\<close>

record EPreAccept =
  EPreAccept_LeaderId :: "int"
  EPreAccept_Replica :: "int"
  EPreAccept_Instance :: "int"
  EPreAccept_Ballot :: "int"
  EPreAccept_Command :: "command list"
  EPreAccept_Seq :: "int"
  EPreAccept_Deps :: "int list"

definition EPreAccept_ok :: "EPreAccept \<Rightarrow> bool" where
  [codec_ok]: "EPreAccept_ok t \<longleftrightarrow> i32 (EPreAccept_LeaderId t) \<and>
     i32 (EPreAccept_Replica t) \<and>
     i32 (EPreAccept_Instance t) \<and>
     i32 (EPreAccept_Ballot t) \<and>
     list_all command_ok (EPreAccept_Command t) \<and>
     i64 (int (length (EPreAccept_Command t))) \<and>
     i32 (EPreAccept_Seq t) \<and>
     list_all i32 (EPreAccept_Deps t) \<and>
     i64 (int (length (EPreAccept_Deps t)))"

definition zero_EPreAccept :: EPreAccept where
  "zero_EPreAccept = \<lparr>EPreAccept_LeaderId = 0, EPreAccept_Replica = 0,
         EPreAccept_Instance = 0, EPreAccept_Ballot = 0, EPreAccept_Command = [],
         EPreAccept_Seq = 0, EPreAccept_Deps = []\<rparr>"

definition Marshal_EPreAccept :: "EPreAccept \<Rightarrow> bytes" where
  "Marshal_EPreAccept t =
     layout [put_le 4 (EPreAccept_LeaderId t), put_le 4 (EPreAccept_Replica t),
         put_le 4 (EPreAccept_Instance t), put_le 4 (EPreAccept_Ballot t)] @
     put_list Marshal_Command (EPreAccept_Command t) @
     layout [put_le 4 (EPreAccept_Seq t)] @
     put_list put_i32 (EPreAccept_Deps t)"

definition Unmarshal_EPreAccept :: "EPreAccept unmarshal" where
  "Unmarshal_EPreAccept = steps
     [read_block 16 (\<lambda>bs t. t\<lparr>EPreAccept_LeaderId := i32_at bs 0,
         EPreAccept_Replica := i32_at bs 4, EPreAccept_Instance := i32_at bs 8,
         EPreAccept_Ballot := i32_at bs 12\<rparr>),
      read_list False Unmarshal_Command zero_command (\<lambda>xs t. t\<lparr>EPreAccept_Command := xs\<rparr>),
      read_block 4 (\<lambda>bs t. t\<lparr>EPreAccept_Seq := i32_at bs 0\<rparr>),
      read_list True read_i32 0 (\<lambda>xs t. t\<lparr>EPreAccept_Deps := xs\<rparr>)]"

interpretation EPreAccept_msg: message Marshal_EPreAccept Unmarshal_EPreAccept EPreAccept_ok
  by unfold_locales (simp add: Marshal_EPreAccept_def Unmarshal_EPreAccept_def
         codec_simps codec_ok del: put_le.simps)

section \<open>PreAcceptReply\<close>

record EPreAcceptReply =
  EPreAcceptReply_Replica :: "int"
  EPreAcceptReply_Instance :: "int"
  EPreAcceptReply_Ballot :: "int"
  EPreAcceptReply_VBallot :: "int"
  EPreAcceptReply_Seq :: "int"
  EPreAcceptReply_Deps :: "int list"
  EPreAcceptReply_CommittedDeps :: "int list"
  EPreAcceptReply_Status :: "int"

definition EPreAcceptReply_ok :: "EPreAcceptReply \<Rightarrow> bool" where
  [codec_ok]: "EPreAcceptReply_ok t \<longleftrightarrow> i32 (EPreAcceptReply_Replica t) \<and>
     i32 (EPreAcceptReply_Instance t) \<and>
     i32 (EPreAcceptReply_Ballot t) \<and>
     i32 (EPreAcceptReply_VBallot t) \<and>
     i32 (EPreAcceptReply_Seq t) \<and>
     list_all i32 (EPreAcceptReply_Deps t) \<and>
     i64 (int (length (EPreAcceptReply_Deps t))) \<and>
     list_all i32 (EPreAcceptReply_CommittedDeps t) \<and>
     i64 (int (length (EPreAcceptReply_CommittedDeps t))) \<and>
     i8 (EPreAcceptReply_Status t)"

definition zero_EPreAcceptReply :: EPreAcceptReply where
  "zero_EPreAcceptReply = \<lparr>EPreAcceptReply_Replica = 0, EPreAcceptReply_Instance = 0,
         EPreAcceptReply_Ballot = 0, EPreAcceptReply_VBallot = 0, EPreAcceptReply_Seq = 0,
         EPreAcceptReply_Deps = [], EPreAcceptReply_CommittedDeps = [],
         EPreAcceptReply_Status = 0\<rparr>"

definition Marshal_EPreAcceptReply :: "EPreAcceptReply \<Rightarrow> bytes" where
  "Marshal_EPreAcceptReply t =
     layout [put_le 4 (EPreAcceptReply_Replica t), put_le 4 (EPreAcceptReply_Instance t),
         put_le 4 (EPreAcceptReply_Ballot t), put_le 4 (EPreAcceptReply_VBallot t),
         put_le 4 (EPreAcceptReply_Seq t), [word_of_int (EPreAcceptReply_Status t)]] @
     put_list put_i32 (EPreAcceptReply_Deps t) @
     put_list put_i32 (EPreAcceptReply_CommittedDeps t)"

definition Unmarshal_EPreAcceptReply :: "EPreAcceptReply unmarshal" where
  "Unmarshal_EPreAcceptReply = steps
     [read_block 21 (\<lambda>bs t. t\<lparr>EPreAcceptReply_Replica := i32_at bs 0,
         EPreAcceptReply_Instance := i32_at bs 4, EPreAcceptReply_Ballot := i32_at bs 8,
         EPreAcceptReply_VBallot := i32_at bs 12, EPreAcceptReply_Seq := i32_at bs 16,
         EPreAcceptReply_Status := sint (bs ! 20)\<rparr>),
      read_list True read_i32 0 (\<lambda>xs t. t\<lparr>EPreAcceptReply_Deps := xs\<rparr>),
      read_list True read_i32 0 (\<lambda>xs t. t\<lparr>EPreAcceptReply_CommittedDeps := xs\<rparr>)]"

interpretation EPreAcceptReply_msg: message Marshal_EPreAcceptReply Unmarshal_EPreAcceptReply EPreAcceptReply_ok
  by unfold_locales (simp add: Marshal_EPreAcceptReply_def Unmarshal_EPreAcceptReply_def
         codec_simps codec_ok del: put_le.simps)

section \<open>PreAcceptOK\<close>

record EPreAcceptOK =
  EPreAcceptOK_Instance :: "int"

definition EPreAcceptOK_ok :: "EPreAcceptOK \<Rightarrow> bool" where
  [codec_ok]: "EPreAcceptOK_ok t \<longleftrightarrow> i32 (EPreAcceptOK_Instance t)"

definition zero_EPreAcceptOK :: EPreAcceptOK where
  "zero_EPreAcceptOK = \<lparr>EPreAcceptOK_Instance = 0\<rparr>"

definition Marshal_EPreAcceptOK :: "EPreAcceptOK \<Rightarrow> bytes" where
  "Marshal_EPreAcceptOK t =
     layout [put_le 4 (EPreAcceptOK_Instance t)]"

definition Unmarshal_EPreAcceptOK :: "EPreAcceptOK unmarshal" where
  "Unmarshal_EPreAcceptOK = steps
     [read_block 4 (\<lambda>bs t. t\<lparr>EPreAcceptOK_Instance := i32_at bs 0\<rparr>)]"

interpretation EPreAcceptOK_msg: message Marshal_EPreAcceptOK Unmarshal_EPreAcceptOK EPreAcceptOK_ok
  by unfold_locales (simp add: Marshal_EPreAcceptOK_def Unmarshal_EPreAcceptOK_def
         codec_simps codec_ok del: put_le.simps)

section \<open>Accept\<close>

record EAccept =
  EAccept_LeaderId :: "int"
  EAccept_Replica :: "int"
  EAccept_Instance :: "int"
  EAccept_Ballot :: "int"
  EAccept_Seq :: "int"
  EAccept_Deps :: "int list"

definition EAccept_ok :: "EAccept \<Rightarrow> bool" where
  [codec_ok]: "EAccept_ok t \<longleftrightarrow> i32 (EAccept_LeaderId t) \<and>
     i32 (EAccept_Replica t) \<and>
     i32 (EAccept_Instance t) \<and>
     i32 (EAccept_Ballot t) \<and>
     i32 (EAccept_Seq t) \<and>
     list_all i32 (EAccept_Deps t) \<and>
     i64 (int (length (EAccept_Deps t)))"

definition zero_EAccept :: EAccept where
  "zero_EAccept = \<lparr>EAccept_LeaderId = 0, EAccept_Replica = 0, EAccept_Instance = 0,
         EAccept_Ballot = 0, EAccept_Seq = 0, EAccept_Deps = []\<rparr>"

definition Marshal_EAccept :: "EAccept \<Rightarrow> bytes" where
  "Marshal_EAccept t =
     layout [put_le 4 (EAccept_LeaderId t), put_le 4 (EAccept_Replica t),
         put_le 4 (EAccept_Instance t), put_le 4 (EAccept_Ballot t), put_le 4 (EAccept_Seq t)] @
     put_list put_i32 (EAccept_Deps t)"

definition Unmarshal_EAccept :: "EAccept unmarshal" where
  "Unmarshal_EAccept = steps
     [read_block 20 (\<lambda>bs t. t\<lparr>EAccept_LeaderId := i32_at bs 0,
         EAccept_Replica := i32_at bs 4, EAccept_Instance := i32_at bs 8,
         EAccept_Ballot := i32_at bs 12, EAccept_Seq := i32_at bs 16\<rparr>),
      read_list True read_i32 0 (\<lambda>xs t. t\<lparr>EAccept_Deps := xs\<rparr>)]"

interpretation EAccept_msg: message Marshal_EAccept Unmarshal_EAccept EAccept_ok
  by unfold_locales (simp add: Marshal_EAccept_def Unmarshal_EAccept_def
         codec_simps codec_ok del: put_le.simps)

section \<open>AcceptReply\<close>

record EAcceptReply =
  EAcceptReply_Replica :: "int"
  EAcceptReply_Instance :: "int"
  EAcceptReply_Ballot :: "int"

definition EAcceptReply_ok :: "EAcceptReply \<Rightarrow> bool" where
  [codec_ok]: "EAcceptReply_ok t \<longleftrightarrow> i32 (EAcceptReply_Replica t) \<and>
     i32 (EAcceptReply_Instance t) \<and>
     i32 (EAcceptReply_Ballot t)"

definition zero_EAcceptReply :: EAcceptReply where
  "zero_EAcceptReply = \<lparr>EAcceptReply_Replica = 0, EAcceptReply_Instance = 0,
         EAcceptReply_Ballot = 0\<rparr>"

definition Marshal_EAcceptReply :: "EAcceptReply \<Rightarrow> bytes" where
  "Marshal_EAcceptReply t =
     layout [put_le 4 (EAcceptReply_Replica t), put_le 4 (EAcceptReply_Instance t),
         put_le 4 (EAcceptReply_Ballot t)]"

definition Unmarshal_EAcceptReply :: "EAcceptReply unmarshal" where
  "Unmarshal_EAcceptReply = steps
     [read_block 12 (\<lambda>bs t. t\<lparr>EAcceptReply_Replica := i32_at bs 0,
         EAcceptReply_Instance := i32_at bs 4, EAcceptReply_Ballot := i32_at bs 8\<rparr>)]"

interpretation EAcceptReply_msg: message Marshal_EAcceptReply Unmarshal_EAcceptReply EAcceptReply_ok
  by unfold_locales (simp add: Marshal_EAcceptReply_def Unmarshal_EAcceptReply_def
         codec_simps codec_ok del: put_le.simps)

section \<open>Commit\<close>

record ECommit =
  ECommit_LeaderId :: "int"
  ECommit_Replica :: "int"
  ECommit_Instance :: "int"
  ECommit_Ballot :: "int"
  ECommit_Command :: "command list"
  ECommit_Seq :: "int"
  ECommit_Deps :: "int list"

definition ECommit_ok :: "ECommit \<Rightarrow> bool" where
  [codec_ok]: "ECommit_ok t \<longleftrightarrow> i32 (ECommit_LeaderId t) \<and>
     i32 (ECommit_Replica t) \<and>
     i32 (ECommit_Instance t) \<and>
     i32 (ECommit_Ballot t) \<and>
     list_all command_ok (ECommit_Command t) \<and>
     i64 (int (length (ECommit_Command t))) \<and>
     i32 (ECommit_Seq t) \<and>
     list_all i32 (ECommit_Deps t) \<and>
     i64 (int (length (ECommit_Deps t)))"

definition zero_ECommit :: ECommit where
  "zero_ECommit = \<lparr>ECommit_LeaderId = 0, ECommit_Replica = 0, ECommit_Instance = 0,
         ECommit_Ballot = 0, ECommit_Command = [], ECommit_Seq = 0, ECommit_Deps = []\<rparr>"

definition Marshal_ECommit :: "ECommit \<Rightarrow> bytes" where
  "Marshal_ECommit t =
     layout [put_le 4 (ECommit_LeaderId t), put_le 4 (ECommit_Replica t),
         put_le 4 (ECommit_Instance t), put_le 4 (ECommit_Ballot t)] @
     put_list Marshal_Command (ECommit_Command t) @
     layout [put_le 4 (ECommit_Seq t)] @
     put_list put_i32 (ECommit_Deps t)"

definition Unmarshal_ECommit :: "ECommit unmarshal" where
  "Unmarshal_ECommit = steps
     [read_block 16 (\<lambda>bs t. t\<lparr>ECommit_LeaderId := i32_at bs 0,
         ECommit_Replica := i32_at bs 4, ECommit_Instance := i32_at bs 8,
         ECommit_Ballot := i32_at bs 12\<rparr>),
      read_list False Unmarshal_Command zero_command (\<lambda>xs t. t\<lparr>ECommit_Command := xs\<rparr>),
      read_block 4 (\<lambda>bs t. t\<lparr>ECommit_Seq := i32_at bs 0\<rparr>),
      read_list True read_i32 0 (\<lambda>xs t. t\<lparr>ECommit_Deps := xs\<rparr>)]"

interpretation ECommit_msg: message Marshal_ECommit Unmarshal_ECommit ECommit_ok
  by unfold_locales (simp add: Marshal_ECommit_def Unmarshal_ECommit_def
         codec_simps codec_ok del: put_le.simps)

section \<open>TryPreAccept\<close>

record ETryPreAccept =
  ETryPreAccept_LeaderId :: "int"
  ETryPreAccept_Replica :: "int"
  ETryPreAccept_Instance :: "int"
  ETryPreAccept_Ballot :: "int"
  ETryPreAccept_Command :: "command list"
  ETryPreAccept_Seq :: "int"
  ETryPreAccept_Deps :: "int list"

definition ETryPreAccept_ok :: "ETryPreAccept \<Rightarrow> bool" where
  [codec_ok]: "ETryPreAccept_ok t \<longleftrightarrow> i32 (ETryPreAccept_LeaderId t) \<and>
     i32 (ETryPreAccept_Replica t) \<and>
     i32 (ETryPreAccept_Instance t) \<and>
     i32 (ETryPreAccept_Ballot t) \<and>
     list_all command_ok (ETryPreAccept_Command t) \<and>
     i64 (int (length (ETryPreAccept_Command t))) \<and>
     i32 (ETryPreAccept_Seq t) \<and>
     list_all i32 (ETryPreAccept_Deps t) \<and>
     i64 (int (length (ETryPreAccept_Deps t)))"

definition zero_ETryPreAccept :: ETryPreAccept where
  "zero_ETryPreAccept = \<lparr>ETryPreAccept_LeaderId = 0, ETryPreAccept_Replica = 0,
         ETryPreAccept_Instance = 0, ETryPreAccept_Ballot = 0, ETryPreAccept_Command = [],
         ETryPreAccept_Seq = 0, ETryPreAccept_Deps = []\<rparr>"

definition Marshal_ETryPreAccept :: "ETryPreAccept \<Rightarrow> bytes" where
  "Marshal_ETryPreAccept t =
     layout [put_le 4 (ETryPreAccept_LeaderId t), put_le 4 (ETryPreAccept_Replica t),
         put_le 4 (ETryPreAccept_Instance t), put_le 4 (ETryPreAccept_Ballot t)] @
     put_list Marshal_Command (ETryPreAccept_Command t) @
     layout [put_le 4 (ETryPreAccept_Seq t)] @
     put_list put_i32 (ETryPreAccept_Deps t)"

definition Unmarshal_ETryPreAccept :: "ETryPreAccept unmarshal" where
  "Unmarshal_ETryPreAccept = steps
     [read_block 16 (\<lambda>bs t. t\<lparr>ETryPreAccept_LeaderId := i32_at bs 0,
         ETryPreAccept_Replica := i32_at bs 4, ETryPreAccept_Instance := i32_at bs 8,
         ETryPreAccept_Ballot := i32_at bs 12\<rparr>),
      read_list False Unmarshal_Command zero_command (\<lambda>xs t. t\<lparr>ETryPreAccept_Command := xs\<rparr>),
      read_block 4 (\<lambda>bs t. t\<lparr>ETryPreAccept_Seq := i32_at bs 0\<rparr>),
      read_list True read_i32 0 (\<lambda>xs t. t\<lparr>ETryPreAccept_Deps := xs\<rparr>)]"

interpretation ETryPreAccept_msg: message Marshal_ETryPreAccept Unmarshal_ETryPreAccept ETryPreAccept_ok
  by unfold_locales (simp add: Marshal_ETryPreAccept_def Unmarshal_ETryPreAccept_def
         codec_simps codec_ok del: put_le.simps)

section \<open>TryPreAcceptReply\<close>

record ETryPreAcceptReply =
  ETryPreAcceptReply_AcceptorId :: "int"
  ETryPreAcceptReply_Replica :: "int"
  ETryPreAcceptReply_Instance :: "int"
  ETryPreAcceptReply_Ballot :: "int"
  ETryPreAcceptReply_VBallot :: "int"
  ETryPreAcceptReply_ConflictReplica :: "int"
  ETryPreAcceptReply_ConflictInstance :: "int"
  ETryPreAcceptReply_ConflictStatus :: "int"

definition ETryPreAcceptReply_ok :: "ETryPreAcceptReply \<Rightarrow> bool" where
  [codec_ok]: "ETryPreAcceptReply_ok t \<longleftrightarrow> i32 (ETryPreAcceptReply_AcceptorId t) \<and>
     i32 (ETryPreAcceptReply_Replica t) \<and>
     i32 (ETryPreAcceptReply_Instance t) \<and>
     i32 (ETryPreAcceptReply_Ballot t) \<and>
     i32 (ETryPreAcceptReply_VBallot t) \<and>
     i32 (ETryPreAcceptReply_ConflictReplica t) \<and>
     i32 (ETryPreAcceptReply_ConflictInstance t) \<and>
     i8 (ETryPreAcceptReply_ConflictStatus t)"

definition zero_ETryPreAcceptReply :: ETryPreAcceptReply where
  "zero_ETryPreAcceptReply = \<lparr>ETryPreAcceptReply_AcceptorId = 0,
         ETryPreAcceptReply_Replica = 0, ETryPreAcceptReply_Instance = 0,
         ETryPreAcceptReply_Ballot = 0, ETryPreAcceptReply_VBallot = 0,
         ETryPreAcceptReply_ConflictReplica = 0, ETryPreAcceptReply_ConflictInstance = 0,
         ETryPreAcceptReply_ConflictStatus = 0\<rparr>"

definition Marshal_ETryPreAcceptReply :: "ETryPreAcceptReply \<Rightarrow> bytes" where
  "Marshal_ETryPreAcceptReply t =
     layout [put_le 4 (ETryPreAcceptReply_AcceptorId t), put_le 4 (ETryPreAcceptReply_Replica t),
         put_le 4 (ETryPreAcceptReply_Instance t), put_le 4 (ETryPreAcceptReply_Ballot t),
         put_le 4 (ETryPreAcceptReply_VBallot t), put_le 4 (ETryPreAcceptReply_ConflictReplica t),
         put_le 4 (ETryPreAcceptReply_ConflictInstance t),
         [word_of_int (ETryPreAcceptReply_ConflictStatus t)]]"

definition Unmarshal_ETryPreAcceptReply :: "ETryPreAcceptReply unmarshal" where
  "Unmarshal_ETryPreAcceptReply = steps
     [read_block 29 (\<lambda>bs t. t\<lparr>ETryPreAcceptReply_AcceptorId := i32_at bs 0,
         ETryPreAcceptReply_Replica := i32_at bs 4, ETryPreAcceptReply_Instance := i32_at bs 8,
         ETryPreAcceptReply_Ballot := i32_at bs 12, ETryPreAcceptReply_VBallot := i32_at bs 16,
         ETryPreAcceptReply_ConflictReplica := i32_at bs 20,
         ETryPreAcceptReply_ConflictInstance := i32_at bs 24,
         ETryPreAcceptReply_ConflictStatus := sint (bs ! 28)\<rparr>)]"

interpretation ETryPreAcceptReply_msg: message Marshal_ETryPreAcceptReply Unmarshal_ETryPreAcceptReply ETryPreAcceptReply_ok
  by unfold_locales (simp add: Marshal_ETryPreAcceptReply_def Unmarshal_ETryPreAcceptReply_def
         codec_simps codec_ok del: put_le.simps)

section \<open>All messages\<close>

datatype epaxos_msg =
    EPrepareMsg EPrepare
  | EPrepareReplyMsg EPrepareReply
  | EPreAcceptMsg EPreAccept
  | EPreAcceptReplyMsg EPreAcceptReply
  | EAcceptMsg EAccept
  | EAcceptReplyMsg EAcceptReply
  | ECommitMsg ECommit
  | ETryPreAcceptMsg ETryPreAccept
  | ETryPreAcceptReplyMsg ETryPreAcceptReply

end
