(* ===== verification/SwiftMsg.thy ===== *)
theory SwiftMsg
  imports Ids
begin

text \<open>
  Messages of Swift (\<open>swift/defs.go\<close>).  \<open>MSync\<close> is encoded by \<open>encoding/gob\<close> and is not here.  Each message has a record,
         its
  \<open>Marshal\<close> and \<open>Unmarshal\<close> methods as the generator wrote them,
         the ranges its fields have by their
  Go types, and an interpretation of the contract of messages.
\<close>

section \<open>MFastAck\<close>

record SwiftMFastAck =
  SwiftMFastAck_Replica :: "int"
  SwiftMFastAck_Ballot :: "int"
  SwiftMFastAck_CmdId :: "CommandId"
  SwiftMFastAck_Dep :: "CommandId list"
  SwiftMFastAck_Checksum :: "SHash list"
  SwiftMFastAck_Seqnum :: "int"

definition SwiftMFastAck_ok :: "SwiftMFastAck \<Rightarrow> bool" where
  [codec_ok]: "SwiftMFastAck_ok t \<longleftrightarrow> i32 (SwiftMFastAck_Replica t) \<and>
     i32 (SwiftMFastAck_Ballot t) \<and>
     CommandId_ok (SwiftMFastAck_CmdId t) \<and>
     list_all CommandId_ok (SwiftMFastAck_Dep t) \<and>
     i64 (int (length (SwiftMFastAck_Dep t))) \<and>
     list_all SHash_ok (SwiftMFastAck_Checksum t) \<and>
     i64 (int (length (SwiftMFastAck_Checksum t))) \<and>
     i64 (SwiftMFastAck_Seqnum t)"

definition zero_SwiftMFastAck :: SwiftMFastAck where
  "zero_SwiftMFastAck = \<lparr>SwiftMFastAck_Replica = 0, SwiftMFastAck_Ballot = 0,
         SwiftMFastAck_CmdId = zero_CommandId, SwiftMFastAck_Dep = [], SwiftMFastAck_Checksum = [],
         SwiftMFastAck_Seqnum = 0\<rparr>"

definition Marshal_SwiftMFastAck :: "SwiftMFastAck \<Rightarrow> bytes" where
  "Marshal_SwiftMFastAck t =
     layout [put_le 4 (SwiftMFastAck_Replica t), put_le 4 (SwiftMFastAck_Ballot t),
         put_le 4 (ClientId (SwiftMFastAck_CmdId t)), put_le 4 (SeqNum (SwiftMFastAck_CmdId t))] @
     put_list put_inline_CommandId (SwiftMFastAck_Dep t) @
     put_list put_inline_SHash (SwiftMFastAck_Checksum t) @
     layout [put_le 8 (SwiftMFastAck_Seqnum t)]"

definition Unmarshal_SwiftMFastAck :: "SwiftMFastAck unmarshal" where
  "Unmarshal_SwiftMFastAck = steps
     [read_block 16 (\<lambda>bs t. t\<lparr>SwiftMFastAck_Replica := i32_at bs 0,
         SwiftMFastAck_Ballot := i32_at bs 4,
         SwiftMFastAck_CmdId := CommandId (i32_at bs 8) (i32_at bs 12)\<rparr>),
      read_list True read_inline_CommandId zero_CommandId (\<lambda>xs t. t\<lparr>SwiftMFastAck_Dep := xs\<rparr>),
      read_list True read_inline_SHash zero_SHash (\<lambda>xs t. t\<lparr>SwiftMFastAck_Checksum := xs\<rparr>),
      read_block 8 (\<lambda>bs t. t\<lparr>SwiftMFastAck_Seqnum := i64_at bs 0\<rparr>)]"

interpretation SwiftMFastAck_msg: message Marshal_SwiftMFastAck Unmarshal_SwiftMFastAck SwiftMFastAck_ok
  by unfold_locales (simp add: Marshal_SwiftMFastAck_def Unmarshal_SwiftMFastAck_def
         codec_simps codec_ok del: put_le.simps)

lemmas SwiftMFastAck_lists [codec_simps] = SwiftMFastAck_msg.read_list_marshal

section \<open>MFastAckClient\<close>

record SwiftMFastAckClient =
  SwiftMFastAckClient_Replica :: "int"
  SwiftMFastAckClient_Ballot :: "int"
  SwiftMFastAckClient_CmdId :: "CommandId"
  SwiftMFastAckClient_Checksum :: "SHash list"

definition SwiftMFastAckClient_ok :: "SwiftMFastAckClient \<Rightarrow> bool" where
  [codec_ok]: "SwiftMFastAckClient_ok t \<longleftrightarrow> i32 (SwiftMFastAckClient_Replica t) \<and>
     i32 (SwiftMFastAckClient_Ballot t) \<and>
     CommandId_ok (SwiftMFastAckClient_CmdId t) \<and>
     list_all SHash_ok (SwiftMFastAckClient_Checksum t) \<and>
     i64 (int (length (SwiftMFastAckClient_Checksum t)))"

definition zero_SwiftMFastAckClient :: SwiftMFastAckClient where
  "zero_SwiftMFastAckClient = \<lparr>SwiftMFastAckClient_Replica = 0,
         SwiftMFastAckClient_Ballot = 0, SwiftMFastAckClient_CmdId = zero_CommandId,
         SwiftMFastAckClient_Checksum = []\<rparr>"

definition Marshal_SwiftMFastAckClient :: "SwiftMFastAckClient \<Rightarrow> bytes" where
  "Marshal_SwiftMFastAckClient t =
     layout [put_le 4 (SwiftMFastAckClient_Replica t), put_le 4 (SwiftMFastAckClient_Ballot t),
         put_le 4 (ClientId (SwiftMFastAckClient_CmdId t)),
         put_le 4 (SeqNum (SwiftMFastAckClient_CmdId t))] @
     put_list put_inline_SHash (SwiftMFastAckClient_Checksum t)"

definition Unmarshal_SwiftMFastAckClient :: "SwiftMFastAckClient unmarshal" where
  "Unmarshal_SwiftMFastAckClient = steps
     [read_block 16 (\<lambda>bs t. t\<lparr>SwiftMFastAckClient_Replica := i32_at bs 0,
         SwiftMFastAckClient_Ballot := i32_at bs 4,
         SwiftMFastAckClient_CmdId := CommandId (i32_at bs 8) (i32_at bs 12)\<rparr>),
      read_list True read_inline_SHash zero_SHash (\<lambda>xs t. t\<lparr>SwiftMFastAckClient_Checksum := xs\<rparr>)]"

interpretation SwiftMFastAckClient_msg: message Marshal_SwiftMFastAckClient Unmarshal_SwiftMFastAckClient SwiftMFastAckClient_ok
  by unfold_locales (simp add: Marshal_SwiftMFastAckClient_def Unmarshal_SwiftMFastAckClient_def
         codec_simps codec_ok del: put_le.simps)

section \<open>MSlowAck\<close>

record SwiftMSlowAck =
  SwiftMSlowAck_Replica :: "int"
  SwiftMSlowAck_Ballot :: "int"
  SwiftMSlowAck_CmdId :: "CommandId"
  SwiftMSlowAck_Dep :: "CommandId list"
  SwiftMSlowAck_Checksum :: "SHash list"

definition SwiftMSlowAck_ok :: "SwiftMSlowAck \<Rightarrow> bool" where
  [codec_ok]: "SwiftMSlowAck_ok t \<longleftrightarrow> i32 (SwiftMSlowAck_Replica t) \<and>
     i32 (SwiftMSlowAck_Ballot t) \<and>
     CommandId_ok (SwiftMSlowAck_CmdId t) \<and>
     list_all CommandId_ok (SwiftMSlowAck_Dep t) \<and>
     i64 (int (length (SwiftMSlowAck_Dep t))) \<and>
     list_all SHash_ok (SwiftMSlowAck_Checksum t) \<and>
     i64 (int (length (SwiftMSlowAck_Checksum t)))"

definition zero_SwiftMSlowAck :: SwiftMSlowAck where
  "zero_SwiftMSlowAck = \<lparr>SwiftMSlowAck_Replica = 0, SwiftMSlowAck_Ballot = 0,
         SwiftMSlowAck_CmdId = zero_CommandId, SwiftMSlowAck_Dep = [],
         SwiftMSlowAck_Checksum = []\<rparr>"

definition Marshal_SwiftMSlowAck :: "SwiftMSlowAck \<Rightarrow> bytes" where
  "Marshal_SwiftMSlowAck t =
     layout [put_le 4 (SwiftMSlowAck_Replica t), put_le 4 (SwiftMSlowAck_Ballot t),
         put_le 4 (ClientId (SwiftMSlowAck_CmdId t)), put_le 4 (SeqNum (SwiftMSlowAck_CmdId t))] @
     put_list put_inline_CommandId (SwiftMSlowAck_Dep t) @
     put_list put_inline_SHash (SwiftMSlowAck_Checksum t)"

definition Unmarshal_SwiftMSlowAck :: "SwiftMSlowAck unmarshal" where
  "Unmarshal_SwiftMSlowAck = steps
     [read_block 16 (\<lambda>bs t. t\<lparr>SwiftMSlowAck_Replica := i32_at bs 0,
         SwiftMSlowAck_Ballot := i32_at bs 4,
         SwiftMSlowAck_CmdId := CommandId (i32_at bs 8) (i32_at bs 12)\<rparr>),
      read_list True read_inline_CommandId zero_CommandId (\<lambda>xs t. t\<lparr>SwiftMSlowAck_Dep := xs\<rparr>),
      read_list True read_inline_SHash zero_SHash (\<lambda>xs t. t\<lparr>SwiftMSlowAck_Checksum := xs\<rparr>)]"

interpretation SwiftMSlowAck_msg: message Marshal_SwiftMSlowAck Unmarshal_SwiftMSlowAck SwiftMSlowAck_ok
  by unfold_locales (simp add: Marshal_SwiftMSlowAck_def Unmarshal_SwiftMSlowAck_def
         codec_simps codec_ok del: put_le.simps)

section \<open>MLightSlowAck\<close>

record SwiftMLightSlowAck =
  SwiftMLightSlowAck_Replica :: "int"
  SwiftMLightSlowAck_Ballot :: "int"
  SwiftMLightSlowAck_CmdId :: "CommandId"

definition SwiftMLightSlowAck_ok :: "SwiftMLightSlowAck \<Rightarrow> bool" where
  [codec_ok]: "SwiftMLightSlowAck_ok t \<longleftrightarrow> i32 (SwiftMLightSlowAck_Replica t) \<and>
     i32 (SwiftMLightSlowAck_Ballot t) \<and>
     CommandId_ok (SwiftMLightSlowAck_CmdId t)"

definition zero_SwiftMLightSlowAck :: SwiftMLightSlowAck where
  "zero_SwiftMLightSlowAck = \<lparr>SwiftMLightSlowAck_Replica = 0, SwiftMLightSlowAck_Ballot = 0,
         SwiftMLightSlowAck_CmdId = zero_CommandId\<rparr>"

definition Marshal_SwiftMLightSlowAck :: "SwiftMLightSlowAck \<Rightarrow> bytes" where
  "Marshal_SwiftMLightSlowAck t =
     layout [put_le 4 (SwiftMLightSlowAck_Replica t), put_le 4 (SwiftMLightSlowAck_Ballot t),
         put_le 4 (ClientId (SwiftMLightSlowAck_CmdId t)),
         put_le 4 (SeqNum (SwiftMLightSlowAck_CmdId t))]"

definition Unmarshal_SwiftMLightSlowAck :: "SwiftMLightSlowAck unmarshal" where
  "Unmarshal_SwiftMLightSlowAck = steps
     [read_block 16 (\<lambda>bs t. t\<lparr>SwiftMLightSlowAck_Replica := i32_at bs 0,
         SwiftMLightSlowAck_Ballot := i32_at bs 4,
         SwiftMLightSlowAck_CmdId := CommandId (i32_at bs 8) (i32_at bs 12)\<rparr>)]"

interpretation SwiftMLightSlowAck_msg: message Marshal_SwiftMLightSlowAck Unmarshal_SwiftMLightSlowAck SwiftMLightSlowAck_ok
  by unfold_locales (simp add: Marshal_SwiftMLightSlowAck_def Unmarshal_SwiftMLightSlowAck_def
         codec_simps codec_ok del: put_le.simps)

text \<open>As an element of \<open>MAcks.LightSlowAcks\<close>, field by field.\<close>

definition put_inline_SwiftMLightSlowAck :: "SwiftMLightSlowAck \<Rightarrow> bytes" where
  "put_inline_SwiftMLightSlowAck t =
     layout [put_le 4 (SwiftMLightSlowAck_Replica t)] @ layout [put_le 4 (SwiftMLightSlowAck_Ballot t)] @ layout [put_le 4 (ClientId (SwiftMLightSlowAck_CmdId t))] @ layout [put_le 4 (SeqNum (SwiftMLightSlowAck_CmdId t))]"

definition read_inline_SwiftMLightSlowAck :: "SwiftMLightSlowAck unmarshal" where
  "read_inline_SwiftMLightSlowAck = steps
     [read_block 4 (\<lambda>bs t. t\<lparr>SwiftMLightSlowAck_Replica := i32_at bs 0\<rparr>),
      read_block 4 (\<lambda>bs t. t\<lparr>SwiftMLightSlowAck_Ballot := i32_at bs 0\<rparr>),
      read_block 4 (\<lambda>bs t. t\<lparr>SwiftMLightSlowAck_CmdId := CommandId (i32_at bs 0) (SeqNum (SwiftMLightSlowAck_CmdId t))\<rparr>),
      read_block 4 (\<lambda>bs t. t\<lparr>SwiftMLightSlowAck_CmdId := CommandId (ClientId (SwiftMLightSlowAck_CmdId t)) (i32_at bs 0)\<rparr>)]"

interpretation SwiftMLightSlowAck_inline: message put_inline_SwiftMLightSlowAck read_inline_SwiftMLightSlowAck SwiftMLightSlowAck_ok
  by unfold_locales (simp add: put_inline_SwiftMLightSlowAck_def read_inline_SwiftMLightSlowAck_def
         codec_simps codec_ok del: put_le.simps)

lemmas SwiftMLightSlowAck_inline_lists [codec_simps] = SwiftMLightSlowAck_inline.read_list_marshal

section \<open>MAcks\<close>

record SwiftMAcks =
  SwiftMAcks_FastAcks :: "SwiftMFastAck list"
  SwiftMAcks_LightSlowAcks :: "SwiftMLightSlowAck list"

definition SwiftMAcks_ok :: "SwiftMAcks \<Rightarrow> bool" where
  [codec_ok]: "SwiftMAcks_ok t \<longleftrightarrow> list_all SwiftMFastAck_ok (SwiftMAcks_FastAcks t) \<and>
     i64 (int (length (SwiftMAcks_FastAcks t))) \<and>
     list_all SwiftMLightSlowAck_ok (SwiftMAcks_LightSlowAcks t) \<and>
     i64 (int (length (SwiftMAcks_LightSlowAcks t)))"

definition zero_SwiftMAcks :: SwiftMAcks where
  "zero_SwiftMAcks = \<lparr>SwiftMAcks_FastAcks = [], SwiftMAcks_LightSlowAcks = []\<rparr>"

definition Marshal_SwiftMAcks :: "SwiftMAcks \<Rightarrow> bytes" where
  "Marshal_SwiftMAcks t =
     put_list Marshal_SwiftMFastAck (SwiftMAcks_FastAcks t) @
     put_list put_inline_SwiftMLightSlowAck (SwiftMAcks_LightSlowAcks t)"

definition Unmarshal_SwiftMAcks :: "SwiftMAcks unmarshal" where
  "Unmarshal_SwiftMAcks = steps
     [read_list False Unmarshal_SwiftMFastAck zero_SwiftMFastAck (\<lambda>xs t. t\<lparr>SwiftMAcks_FastAcks := xs\<rparr>),
      read_list True read_inline_SwiftMLightSlowAck zero_SwiftMLightSlowAck (\<lambda>xs t. t\<lparr>SwiftMAcks_LightSlowAcks := xs\<rparr>)]"

interpretation SwiftMAcks_msg: message Marshal_SwiftMAcks Unmarshal_SwiftMAcks SwiftMAcks_ok
  by unfold_locales (simp add: Marshal_SwiftMAcks_def Unmarshal_SwiftMAcks_def
         codec_simps codec_ok del: put_le.simps)

section \<open>Ack\<close>

record SwiftAck =
  SwiftAck_CmdId :: "CommandId"
  SwiftAck_Dep :: "CommandId list"
  SwiftAck_Checksum :: "SHash list"
  SwiftAck_Seqnum :: "int"

definition SwiftAck_ok :: "SwiftAck \<Rightarrow> bool" where
  [codec_ok]: "SwiftAck_ok t \<longleftrightarrow> CommandId_ok (SwiftAck_CmdId t) \<and>
     list_all CommandId_ok (SwiftAck_Dep t) \<and>
     i64 (int (length (SwiftAck_Dep t))) \<and>
     list_all SHash_ok (SwiftAck_Checksum t) \<and>
     i64 (int (length (SwiftAck_Checksum t))) \<and>
     i64 (SwiftAck_Seqnum t)"

definition zero_SwiftAck :: SwiftAck where
  "zero_SwiftAck = \<lparr>SwiftAck_CmdId = zero_CommandId, SwiftAck_Dep = [],
         SwiftAck_Checksum = [], SwiftAck_Seqnum = 0\<rparr>"

definition Marshal_SwiftAck :: "SwiftAck \<Rightarrow> bytes" where
  "Marshal_SwiftAck t =
     layout [put_le 4 (ClientId (SwiftAck_CmdId t)), put_le 4 (SeqNum (SwiftAck_CmdId t))] @
     put_list put_inline_CommandId (SwiftAck_Dep t) @
     put_list put_inline_SHash (SwiftAck_Checksum t) @
     layout [put_le 8 (SwiftAck_Seqnum t)]"

definition Unmarshal_SwiftAck :: "SwiftAck unmarshal" where
  "Unmarshal_SwiftAck = steps
     [read_block 8 (\<lambda>bs t. t\<lparr>SwiftAck_CmdId := CommandId (i32_at bs 0) (i32_at bs 4)\<rparr>),
      read_list True read_inline_CommandId zero_CommandId (\<lambda>xs t. t\<lparr>SwiftAck_Dep := xs\<rparr>),
      read_list True read_inline_SHash zero_SHash (\<lambda>xs t. t\<lparr>SwiftAck_Checksum := xs\<rparr>),
      read_block 8 (\<lambda>bs t. t\<lparr>SwiftAck_Seqnum := i64_at bs 0\<rparr>)]"

interpretation SwiftAck_msg: message Marshal_SwiftAck Unmarshal_SwiftAck SwiftAck_ok
  by unfold_locales (simp add: Marshal_SwiftAck_def Unmarshal_SwiftAck_def
         codec_simps codec_ok del: put_le.simps)

lemmas SwiftAck_lists [codec_simps] = SwiftAck_msg.read_list_marshal

section \<open>MOptAcks\<close>

record SwiftMOptAcks =
  SwiftMOptAcks_Replica :: "int"
  SwiftMOptAcks_Ballot :: "int"
  SwiftMOptAcks_Acks :: "SwiftAck list"

definition SwiftMOptAcks_ok :: "SwiftMOptAcks \<Rightarrow> bool" where
  [codec_ok]: "SwiftMOptAcks_ok t \<longleftrightarrow> i32 (SwiftMOptAcks_Replica t) \<and>
     i32 (SwiftMOptAcks_Ballot t) \<and>
     list_all SwiftAck_ok (SwiftMOptAcks_Acks t) \<and>
     i64 (int (length (SwiftMOptAcks_Acks t)))"

definition zero_SwiftMOptAcks :: SwiftMOptAcks where
  "zero_SwiftMOptAcks = \<lparr>SwiftMOptAcks_Replica = 0, SwiftMOptAcks_Ballot = 0,
         SwiftMOptAcks_Acks = []\<rparr>"

definition Marshal_SwiftMOptAcks :: "SwiftMOptAcks \<Rightarrow> bytes" where
  "Marshal_SwiftMOptAcks t =
     layout [put_le 4 (SwiftMOptAcks_Replica t), put_le 4 (SwiftMOptAcks_Ballot t)] @
     put_list Marshal_SwiftAck (SwiftMOptAcks_Acks t)"

definition Unmarshal_SwiftMOptAcks :: "SwiftMOptAcks unmarshal" where
  "Unmarshal_SwiftMOptAcks = steps
     [read_block 8 (\<lambda>bs t. t\<lparr>SwiftMOptAcks_Replica := i32_at bs 0,
         SwiftMOptAcks_Ballot := i32_at bs 4\<rparr>),
      read_list False Unmarshal_SwiftAck zero_SwiftAck (\<lambda>xs t. t\<lparr>SwiftMOptAcks_Acks := xs\<rparr>)]"

interpretation SwiftMOptAcks_msg: message Marshal_SwiftMOptAcks Unmarshal_SwiftMOptAcks SwiftMOptAcks_ok
  by unfold_locales (simp add: Marshal_SwiftMOptAcks_def Unmarshal_SwiftMOptAcks_def
         codec_simps codec_ok del: put_le.simps)

section \<open>MReply\<close>

record SwiftMReply =
  SwiftMReply_Replica :: "int"
  SwiftMReply_Ballot :: "int"
  SwiftMReply_CmdId :: "CommandId"
  SwiftMReply_Checksum :: "SHash list"
  SwiftMReply_Rep :: "bytes"

definition SwiftMReply_ok :: "SwiftMReply \<Rightarrow> bool" where
  [codec_ok]: "SwiftMReply_ok t \<longleftrightarrow> i32 (SwiftMReply_Replica t) \<and>
     i32 (SwiftMReply_Ballot t) \<and>
     CommandId_ok (SwiftMReply_CmdId t) \<and>
     list_all SHash_ok (SwiftMReply_Checksum t) \<and>
     i64 (int (length (SwiftMReply_Checksum t))) \<and>
     i64 (int (length (SwiftMReply_Rep t)))"

definition zero_SwiftMReply :: SwiftMReply where
  "zero_SwiftMReply = \<lparr>SwiftMReply_Replica = 0, SwiftMReply_Ballot = 0,
         SwiftMReply_CmdId = zero_CommandId, SwiftMReply_Checksum = [],
         SwiftMReply_Rep = []\<rparr>"

definition Marshal_SwiftMReply :: "SwiftMReply \<Rightarrow> bytes" where
  "Marshal_SwiftMReply t =
     layout [put_le 4 (SwiftMReply_Replica t), put_le 4 (SwiftMReply_Ballot t),
         put_le 4 (ClientId (SwiftMReply_CmdId t)), put_le 4 (SeqNum (SwiftMReply_CmdId t))] @
     put_list put_inline_SHash (SwiftMReply_Checksum t) @
     put_list put_byte (SwiftMReply_Rep t)"

definition Unmarshal_SwiftMReply :: "SwiftMReply unmarshal" where
  "Unmarshal_SwiftMReply = steps
     [read_block 16 (\<lambda>bs t. t\<lparr>SwiftMReply_Replica := i32_at bs 0,
         SwiftMReply_Ballot := i32_at bs 4,
         SwiftMReply_CmdId := CommandId (i32_at bs 8) (i32_at bs 12)\<rparr>),
      read_list True read_inline_SHash zero_SHash (\<lambda>xs t. t\<lparr>SwiftMReply_Checksum := xs\<rparr>),
      read_list True read_byte 0 (\<lambda>xs t. t\<lparr>SwiftMReply_Rep := xs\<rparr>)]"

interpretation SwiftMReply_msg: message Marshal_SwiftMReply Unmarshal_SwiftMReply SwiftMReply_ok
  by unfold_locales (simp add: Marshal_SwiftMReply_def Unmarshal_SwiftMReply_def
         codec_simps codec_ok del: put_le.simps)

section \<open>MAccept\<close>

record SwiftMAccept =
  SwiftMAccept_Replica :: "int"
  SwiftMAccept_Ballot :: "int"
  SwiftMAccept_CmdId :: "CommandId"
  SwiftMAccept_Rep :: "bytes"

definition SwiftMAccept_ok :: "SwiftMAccept \<Rightarrow> bool" where
  [codec_ok]: "SwiftMAccept_ok t \<longleftrightarrow> i32 (SwiftMAccept_Replica t) \<and>
     i32 (SwiftMAccept_Ballot t) \<and>
     CommandId_ok (SwiftMAccept_CmdId t) \<and>
     i64 (int (length (SwiftMAccept_Rep t)))"

definition zero_SwiftMAccept :: SwiftMAccept where
  "zero_SwiftMAccept = \<lparr>SwiftMAccept_Replica = 0, SwiftMAccept_Ballot = 0,
         SwiftMAccept_CmdId = zero_CommandId, SwiftMAccept_Rep = []\<rparr>"

definition Marshal_SwiftMAccept :: "SwiftMAccept \<Rightarrow> bytes" where
  "Marshal_SwiftMAccept t =
     layout [put_le 4 (SwiftMAccept_Replica t), put_le 4 (SwiftMAccept_Ballot t),
         put_le 4 (ClientId (SwiftMAccept_CmdId t)), put_le 4 (SeqNum (SwiftMAccept_CmdId t))] @
     put_list put_byte (SwiftMAccept_Rep t)"

definition Unmarshal_SwiftMAccept :: "SwiftMAccept unmarshal" where
  "Unmarshal_SwiftMAccept = steps
     [read_block 16 (\<lambda>bs t. t\<lparr>SwiftMAccept_Replica := i32_at bs 0,
         SwiftMAccept_Ballot := i32_at bs 4,
         SwiftMAccept_CmdId := CommandId (i32_at bs 8) (i32_at bs 12)\<rparr>),
      read_list True read_byte 0 (\<lambda>xs t. t\<lparr>SwiftMAccept_Rep := xs\<rparr>)]"

interpretation SwiftMAccept_msg: message Marshal_SwiftMAccept Unmarshal_SwiftMAccept SwiftMAccept_ok
  by unfold_locales (simp add: Marshal_SwiftMAccept_def Unmarshal_SwiftMAccept_def
         codec_simps codec_ok del: put_le.simps)

section \<open>MNewLeader\<close>

record SwiftMNewLeader =
  SwiftMNewLeader_Replica :: "int"
  SwiftMNewLeader_Ballot :: "int"

definition SwiftMNewLeader_ok :: "SwiftMNewLeader \<Rightarrow> bool" where
  [codec_ok]: "SwiftMNewLeader_ok t \<longleftrightarrow> i32 (SwiftMNewLeader_Replica t) \<and>
     i32 (SwiftMNewLeader_Ballot t)"

definition zero_SwiftMNewLeader :: SwiftMNewLeader where
  "zero_SwiftMNewLeader = \<lparr>SwiftMNewLeader_Replica = 0, SwiftMNewLeader_Ballot = 0\<rparr>"

definition Marshal_SwiftMNewLeader :: "SwiftMNewLeader \<Rightarrow> bytes" where
  "Marshal_SwiftMNewLeader t =
     layout [put_le 4 (SwiftMNewLeader_Replica t), put_le 4 (SwiftMNewLeader_Ballot t)]"

definition Unmarshal_SwiftMNewLeader :: "SwiftMNewLeader unmarshal" where
  "Unmarshal_SwiftMNewLeader = steps
     [read_block 8 (\<lambda>bs t. t\<lparr>SwiftMNewLeader_Replica := i32_at bs 0,
         SwiftMNewLeader_Ballot := i32_at bs 4\<rparr>)]"

interpretation SwiftMNewLeader_msg: message Marshal_SwiftMNewLeader Unmarshal_SwiftMNewLeader SwiftMNewLeader_ok
  by unfold_locales (simp add: Marshal_SwiftMNewLeader_def Unmarshal_SwiftMNewLeader_def
         codec_simps codec_ok del: put_le.simps)

section \<open>MNewLeaderAck\<close>

record SwiftMNewLeaderAck =
  SwiftMNewLeaderAck_Replica :: "int"
  SwiftMNewLeaderAck_Ballot :: "int"
  SwiftMNewLeaderAck_Cballot :: "int"

definition SwiftMNewLeaderAck_ok :: "SwiftMNewLeaderAck \<Rightarrow> bool" where
  [codec_ok]: "SwiftMNewLeaderAck_ok t \<longleftrightarrow> i32 (SwiftMNewLeaderAck_Replica t) \<and>
     i32 (SwiftMNewLeaderAck_Ballot t) \<and>
     i32 (SwiftMNewLeaderAck_Cballot t)"

definition zero_SwiftMNewLeaderAck :: SwiftMNewLeaderAck where
  "zero_SwiftMNewLeaderAck = \<lparr>SwiftMNewLeaderAck_Replica = 0, SwiftMNewLeaderAck_Ballot = 0,
         SwiftMNewLeaderAck_Cballot = 0\<rparr>"

definition Marshal_SwiftMNewLeaderAck :: "SwiftMNewLeaderAck \<Rightarrow> bytes" where
  "Marshal_SwiftMNewLeaderAck t =
     layout [put_le 4 (SwiftMNewLeaderAck_Replica t), put_le 4 (SwiftMNewLeaderAck_Ballot t),
         put_le 4 (SwiftMNewLeaderAck_Cballot t)]"

definition Unmarshal_SwiftMNewLeaderAck :: "SwiftMNewLeaderAck unmarshal" where
  "Unmarshal_SwiftMNewLeaderAck = steps
     [read_block 12 (\<lambda>bs t. t\<lparr>SwiftMNewLeaderAck_Replica := i32_at bs 0,
         SwiftMNewLeaderAck_Ballot := i32_at bs 4,
         SwiftMNewLeaderAck_Cballot := i32_at bs 8\<rparr>)]"

interpretation SwiftMNewLeaderAck_msg: message Marshal_SwiftMNewLeaderAck Unmarshal_SwiftMNewLeaderAck SwiftMNewLeaderAck_ok
  by unfold_locales (simp add: Marshal_SwiftMNewLeaderAck_def Unmarshal_SwiftMNewLeaderAck_def
         codec_simps codec_ok del: put_le.simps)

section \<open>SDep\<close>

record SwiftSDep =
  SwiftSDep_Dep :: "CommandId list"

definition SwiftSDep_ok :: "SwiftSDep \<Rightarrow> bool" where
  [codec_ok]: "SwiftSDep_ok t \<longleftrightarrow> list_all CommandId_ok (SwiftSDep_Dep t) \<and>
     i64 (int (length (SwiftSDep_Dep t)))"

definition zero_SwiftSDep :: SwiftSDep where
  "zero_SwiftSDep = \<lparr>SwiftSDep_Dep = []\<rparr>"

definition Marshal_SwiftSDep :: "SwiftSDep \<Rightarrow> bytes" where
  "Marshal_SwiftSDep t =
     put_list put_inline_CommandId (SwiftSDep_Dep t)"

definition Unmarshal_SwiftSDep :: "SwiftSDep unmarshal" where
  "Unmarshal_SwiftSDep = steps
     [read_list True read_inline_CommandId zero_CommandId (\<lambda>xs t. t\<lparr>SwiftSDep_Dep := xs\<rparr>)]"

interpretation SwiftSDep_msg: message Marshal_SwiftSDep Unmarshal_SwiftSDep SwiftSDep_ok
  by unfold_locales (simp add: Marshal_SwiftSDep_def Unmarshal_SwiftSDep_def
         codec_simps codec_ok del: put_le.simps)

lemmas SwiftSDep_lists [codec_simps] = SwiftSDep_msg.read_list_marshal

section \<open>MNewLeaderAckN\<close>

record SwiftMNewLeaderAckN =
  SwiftMNewLeaderAckN_Replica :: "int"
  SwiftMNewLeaderAckN_Ballot :: "int"
  SwiftMNewLeaderAckN_Cballot :: "int"
  SwiftMNewLeaderAckN_CmdIds :: "CommandId list"
  SwiftMNewLeaderAckN_Phases :: "int list"
  SwiftMNewLeaderAckN_Cmds :: "command list"
  SwiftMNewLeaderAckN_Deps :: "SwiftSDep list"

definition SwiftMNewLeaderAckN_ok :: "SwiftMNewLeaderAckN \<Rightarrow> bool" where
  [codec_ok]: "SwiftMNewLeaderAckN_ok t \<longleftrightarrow> i32 (SwiftMNewLeaderAckN_Replica t) \<and>
     i32 (SwiftMNewLeaderAckN_Ballot t) \<and>
     i32 (SwiftMNewLeaderAckN_Cballot t) \<and>
     list_all CommandId_ok (SwiftMNewLeaderAckN_CmdIds t) \<and>
     i64 (int (length (SwiftMNewLeaderAckN_CmdIds t))) \<and>
     list_all i64 (SwiftMNewLeaderAckN_Phases t) \<and>
     i64 (int (length (SwiftMNewLeaderAckN_Phases t))) \<and>
     list_all command_ok (SwiftMNewLeaderAckN_Cmds t) \<and>
     i64 (int (length (SwiftMNewLeaderAckN_Cmds t))) \<and>
     list_all SwiftSDep_ok (SwiftMNewLeaderAckN_Deps t) \<and>
     i64 (int (length (SwiftMNewLeaderAckN_Deps t)))"

definition zero_SwiftMNewLeaderAckN :: SwiftMNewLeaderAckN where
  "zero_SwiftMNewLeaderAckN = \<lparr>SwiftMNewLeaderAckN_Replica = 0,
         SwiftMNewLeaderAckN_Ballot = 0, SwiftMNewLeaderAckN_Cballot = 0,
         SwiftMNewLeaderAckN_CmdIds = [], SwiftMNewLeaderAckN_Phases = [],
         SwiftMNewLeaderAckN_Cmds = [], SwiftMNewLeaderAckN_Deps = []\<rparr>"

definition Marshal_SwiftMNewLeaderAckN :: "SwiftMNewLeaderAckN \<Rightarrow> bytes" where
  "Marshal_SwiftMNewLeaderAckN t =
     layout [put_le 4 (SwiftMNewLeaderAckN_Replica t), put_le 4 (SwiftMNewLeaderAckN_Ballot t),
         put_le 4 (SwiftMNewLeaderAckN_Cballot t)] @
     put_list put_inline_CommandId (SwiftMNewLeaderAckN_CmdIds t) @
     put_list put_i64 (SwiftMNewLeaderAckN_Phases t) @
     put_list Marshal_Command (SwiftMNewLeaderAckN_Cmds t) @
     put_list Marshal_SwiftSDep (SwiftMNewLeaderAckN_Deps t)"

definition Unmarshal_SwiftMNewLeaderAckN :: "SwiftMNewLeaderAckN unmarshal" where
  "Unmarshal_SwiftMNewLeaderAckN = steps
     [read_block 12 (\<lambda>bs t. t\<lparr>SwiftMNewLeaderAckN_Replica := i32_at bs 0,
         SwiftMNewLeaderAckN_Ballot := i32_at bs 4,
         SwiftMNewLeaderAckN_Cballot := i32_at bs 8\<rparr>),
      read_list True read_inline_CommandId zero_CommandId (\<lambda>xs t. t\<lparr>SwiftMNewLeaderAckN_CmdIds := xs\<rparr>),
      read_list True read_i64 0 (\<lambda>xs t. t\<lparr>SwiftMNewLeaderAckN_Phases := xs\<rparr>),
      read_list False Unmarshal_Command zero_command (\<lambda>xs t. t\<lparr>SwiftMNewLeaderAckN_Cmds := xs\<rparr>),
      read_list False Unmarshal_SwiftSDep zero_SwiftSDep (\<lambda>xs t. t\<lparr>SwiftMNewLeaderAckN_Deps := xs\<rparr>)]"

interpretation SwiftMNewLeaderAckN_msg: message Marshal_SwiftMNewLeaderAckN Unmarshal_SwiftMNewLeaderAckN SwiftMNewLeaderAckN_ok
  by unfold_locales (simp add: Marshal_SwiftMNewLeaderAckN_def Unmarshal_SwiftMNewLeaderAckN_def
         codec_simps codec_ok del: put_le.simps)

section \<open>MShareState\<close>

record SwiftMShareState =
  SwiftMShareState_Replica :: "int"
  SwiftMShareState_Ballot :: "int"

definition SwiftMShareState_ok :: "SwiftMShareState \<Rightarrow> bool" where
  [codec_ok]: "SwiftMShareState_ok t \<longleftrightarrow> i32 (SwiftMShareState_Replica t) \<and>
     i32 (SwiftMShareState_Ballot t)"

definition zero_SwiftMShareState :: SwiftMShareState where
  "zero_SwiftMShareState = \<lparr>SwiftMShareState_Replica = 0,
         SwiftMShareState_Ballot = 0\<rparr>"

definition Marshal_SwiftMShareState :: "SwiftMShareState \<Rightarrow> bytes" where
  "Marshal_SwiftMShareState t =
     layout [put_le 4 (SwiftMShareState_Replica t), put_le 4 (SwiftMShareState_Ballot t)]"

definition Unmarshal_SwiftMShareState :: "SwiftMShareState unmarshal" where
  "Unmarshal_SwiftMShareState = steps
     [read_block 8 (\<lambda>bs t. t\<lparr>SwiftMShareState_Replica := i32_at bs 0,
         SwiftMShareState_Ballot := i32_at bs 4\<rparr>)]"

interpretation SwiftMShareState_msg: message Marshal_SwiftMShareState Unmarshal_SwiftMShareState SwiftMShareState_ok
  by unfold_locales (simp add: Marshal_SwiftMShareState_def Unmarshal_SwiftMShareState_def
         codec_simps codec_ok del: put_le.simps)

section \<open>MLightSync\<close>

record SwiftMLightSync =
  SwiftMLightSync_Replica :: "int"
  SwiftMLightSync_Ballot :: "int"

definition SwiftMLightSync_ok :: "SwiftMLightSync \<Rightarrow> bool" where
  [codec_ok]: "SwiftMLightSync_ok t \<longleftrightarrow> i32 (SwiftMLightSync_Replica t) \<and>
     i32 (SwiftMLightSync_Ballot t)"

definition zero_SwiftMLightSync :: SwiftMLightSync where
  "zero_SwiftMLightSync = \<lparr>SwiftMLightSync_Replica = 0, SwiftMLightSync_Ballot = 0\<rparr>"

definition Marshal_SwiftMLightSync :: "SwiftMLightSync \<Rightarrow> bytes" where
  "Marshal_SwiftMLightSync t =
     layout [put_le 4 (SwiftMLightSync_Replica t), put_le 4 (SwiftMLightSync_Ballot t)]"

definition Unmarshal_SwiftMLightSync :: "SwiftMLightSync unmarshal" where
  "Unmarshal_SwiftMLightSync = steps
     [read_block 8 (\<lambda>bs t. t\<lparr>SwiftMLightSync_Replica := i32_at bs 0,
         SwiftMLightSync_Ballot := i32_at bs 4\<rparr>)]"

interpretation SwiftMLightSync_msg: message Marshal_SwiftMLightSync Unmarshal_SwiftMLightSync SwiftMLightSync_ok
  by unfold_locales (simp add: Marshal_SwiftMLightSync_def Unmarshal_SwiftMLightSync_def
         codec_simps codec_ok del: put_le.simps)

section \<open>MCollect\<close>

record SwiftMCollect =
  SwiftMCollect_Replica :: "int"
  SwiftMCollect_Ballot :: "int"
  SwiftMCollect_Ids :: "CommandId list"

definition SwiftMCollect_ok :: "SwiftMCollect \<Rightarrow> bool" where
  [codec_ok]: "SwiftMCollect_ok t \<longleftrightarrow> i32 (SwiftMCollect_Replica t) \<and>
     i32 (SwiftMCollect_Ballot t) \<and>
     list_all CommandId_ok (SwiftMCollect_Ids t) \<and>
     i64 (int (length (SwiftMCollect_Ids t)))"

definition zero_SwiftMCollect :: SwiftMCollect where
  "zero_SwiftMCollect = \<lparr>SwiftMCollect_Replica = 0, SwiftMCollect_Ballot = 0,
         SwiftMCollect_Ids = []\<rparr>"

definition Marshal_SwiftMCollect :: "SwiftMCollect \<Rightarrow> bytes" where
  "Marshal_SwiftMCollect t =
     layout [put_le 4 (SwiftMCollect_Replica t), put_le 4 (SwiftMCollect_Ballot t)] @
     put_list put_inline_CommandId (SwiftMCollect_Ids t)"

definition Unmarshal_SwiftMCollect :: "SwiftMCollect unmarshal" where
  "Unmarshal_SwiftMCollect = steps
     [read_block 8 (\<lambda>bs t. t\<lparr>SwiftMCollect_Replica := i32_at bs 0,
         SwiftMCollect_Ballot := i32_at bs 4\<rparr>),
      read_list True read_inline_CommandId zero_CommandId (\<lambda>xs t. t\<lparr>SwiftMCollect_Ids := xs\<rparr>)]"

interpretation SwiftMCollect_msg: message Marshal_SwiftMCollect Unmarshal_SwiftMCollect SwiftMCollect_ok
  by unfold_locales (simp add: Marshal_SwiftMCollect_def Unmarshal_SwiftMCollect_def
         codec_simps codec_ok del: put_le.simps)

section \<open>MPing\<close>

record SwiftMPing =
  SwiftMPing_Replica :: "int"
  SwiftMPing_Ballot :: "int"

definition SwiftMPing_ok :: "SwiftMPing \<Rightarrow> bool" where
  [codec_ok]: "SwiftMPing_ok t \<longleftrightarrow> i32 (SwiftMPing_Replica t) \<and>
     i32 (SwiftMPing_Ballot t)"

definition zero_SwiftMPing :: SwiftMPing where
  "zero_SwiftMPing = \<lparr>SwiftMPing_Replica = 0, SwiftMPing_Ballot = 0\<rparr>"

definition Marshal_SwiftMPing :: "SwiftMPing \<Rightarrow> bytes" where
  "Marshal_SwiftMPing t =
     layout [put_le 4 (SwiftMPing_Replica t), put_le 4 (SwiftMPing_Ballot t)]"

definition Unmarshal_SwiftMPing :: "SwiftMPing unmarshal" where
  "Unmarshal_SwiftMPing = steps
     [read_block 8 (\<lambda>bs t. t\<lparr>SwiftMPing_Replica := i32_at bs 0,
         SwiftMPing_Ballot := i32_at bs 4\<rparr>)]"

interpretation SwiftMPing_msg: message Marshal_SwiftMPing Unmarshal_SwiftMPing SwiftMPing_ok
  by unfold_locales (simp add: Marshal_SwiftMPing_def Unmarshal_SwiftMPing_def
         codec_simps codec_ok del: put_le.simps)

section \<open>MPingRep\<close>

record SwiftMPingRep =
  SwiftMPingRep_Replica :: "int"
  SwiftMPingRep_Ballot :: "int"

definition SwiftMPingRep_ok :: "SwiftMPingRep \<Rightarrow> bool" where
  [codec_ok]: "SwiftMPingRep_ok t \<longleftrightarrow> i32 (SwiftMPingRep_Replica t) \<and>
     i32 (SwiftMPingRep_Ballot t)"

definition zero_SwiftMPingRep :: SwiftMPingRep where
  "zero_SwiftMPingRep = \<lparr>SwiftMPingRep_Replica = 0, SwiftMPingRep_Ballot = 0\<rparr>"

definition Marshal_SwiftMPingRep :: "SwiftMPingRep \<Rightarrow> bytes" where
  "Marshal_SwiftMPingRep t =
     layout [put_le 4 (SwiftMPingRep_Replica t), put_le 4 (SwiftMPingRep_Ballot t)]"

definition Unmarshal_SwiftMPingRep :: "SwiftMPingRep unmarshal" where
  "Unmarshal_SwiftMPingRep = steps
     [read_block 8 (\<lambda>bs t. t\<lparr>SwiftMPingRep_Replica := i32_at bs 0,
         SwiftMPingRep_Ballot := i32_at bs 4\<rparr>)]"

interpretation SwiftMPingRep_msg: message Marshal_SwiftMPingRep Unmarshal_SwiftMPingRep SwiftMPingRep_ok
  by unfold_locales (simp add: Marshal_SwiftMPingRep_def Unmarshal_SwiftMPingRep_def
         codec_simps codec_ok del: put_le.simps)

section \<open>All messages\<close>

text \<open>
  \<open>MSync\<close> is encoded by \<open>encoding/gob\<close>: its type is a parameter.
\<close>

datatype 'sync swift_msg =
    SwiftMFastAckMsg SwiftMFastAck
  | SwiftMFastAckClientMsg SwiftMFastAckClient
  | SwiftMSlowAckMsg SwiftMSlowAck
  | SwiftMLightSlowAckMsg SwiftMLightSlowAck
  | SwiftMAcksMsg SwiftMAcks
  | SwiftMOptAcksMsg SwiftMOptAcks
  | SwiftMReplyMsg SwiftMReply
  | SwiftMNewLeaderMsg SwiftMNewLeader
  | SwiftMNewLeaderAckNMsg SwiftMNewLeaderAckN
  | Swift_MSync 'sync
  | SwiftMPingMsg SwiftMPing
  | SwiftMPingRepMsg SwiftMPingRep
  | SwiftMCollectMsg SwiftMCollect
  | SwiftMAcceptMsg SwiftMAccept

end
