(* ===== verification/Connections.thy ===== *)
theory Connections
  imports Rpc PaxosMsg FastPaxosMsg N2PaxosMsg CurpMsg EPaxosMsg SwiftMsg
begin

text \<open>
  The messages of every protocol as they are registered and sent.  For each protocol: the sum of
  its message types, its RPC table (the \<open>Register\<close> calls in their order), the type codes, and the
  interpretation of the contract between the two ends of a connection.
\<close>

section \<open>Paxos\<close>

text \<open>The registrations of \<open>paxos/paxos.go (New)\<close>.\<close>

definition paxos_decoders :: "paxos_msg decoder list" where
  "paxos_decoders =
     [new_unmarshal zero_Prepare Unmarshal_Prepare PrepareMsg,
      new_unmarshal zero_Accept Unmarshal_Accept AcceptMsg,
      new_unmarshal zero_Commit Unmarshal_Commit CommitMsg,
      new_unmarshal zero_CommitShort Unmarshal_CommitShort CommitShortMsg,
      new_unmarshal zero_PrepareReply Unmarshal_PrepareReply PrepareReplyMsg,
      new_unmarshal zero_AcceptReply Unmarshal_AcceptReply AcceptReplyMsg]"

definition paxos_table :: "paxos_msg Table" where
  "paxos_table = Register_all paxos_decoders 0 (NewTableId RPC_TABLE)"

fun paxos_index :: "paxos_msg \<Rightarrow> nat" where
  "paxos_index (PrepareMsg m) = 0"
| "paxos_index (AcceptMsg m) = 1"
| "paxos_index (CommitMsg m) = 2"
| "paxos_index (CommitShortMsg m) = 3"
| "paxos_index (PrepareReplyMsg m) = 4"
| "paxos_index (AcceptReplyMsg m) = 5"

definition paxos_code :: "paxos_msg \<Rightarrow> byte" where
  "paxos_code m = RPC_TABLE + of_nat (paxos_index m)"

fun paxos_enc :: "paxos_msg \<Rightarrow> bytes" where
  "paxos_enc (PrepareMsg m) = Marshal_Prepare m"
| "paxos_enc (AcceptMsg m) = Marshal_Accept m"
| "paxos_enc (CommitMsg m) = Marshal_Commit m"
| "paxos_enc (CommitShortMsg m) = Marshal_CommitShort m"
| "paxos_enc (PrepareReplyMsg m) = Marshal_PrepareReply m"
| "paxos_enc (AcceptReplyMsg m) = Marshal_AcceptReply m"

fun paxos_ok :: "paxos_msg \<Rightarrow> bool" where
  "paxos_ok (PrepareMsg m) = Prepare_ok m"
| "paxos_ok (AcceptMsg m) = Accept_ok m"
| "paxos_ok (CommitMsg m) = Commit_ok m"
| "paxos_ok (CommitShortMsg m) = CommitShort_ok m"
| "paxos_ok (PrepareReplyMsg m) = PrepareReply_ok m"
| "paxos_ok (AcceptReplyMsg m) = AcceptReply_ok m"

interpretation paxos_end: endpoint paxos_table paxos_code paxos_enc paxos_index paxos_ok id
proof
  fix m assume ok: "paxos_ok m"
  have k: "paxos_index m < length paxos_decoders" by (cases m) (simp_all add: paxos_decoders_def)
  have "Get paxos_table (paxos_code m) = Some \<lparr>Obj = paxos_decoders ! paxos_index m, Chan = paxos_index m\<rparr>"
    using Register_all_nth [OF _ k, of "NewTableId RPC_TABLE" 0]
    by (simp add: paxos_table_def paxos_code_def NewTableId_def paxos_decoders_def RPC_TABLE_def)
  moreover have "(paxos_decoders ! paxos_index m) (paxos_enc m @ rest) = Some (True, id m, rest)" for rest
    using ok
    by (cases m) (simp_all add: paxos_decoders_def new_unmarshal_def
          Prepare_msg.roundtrip Accept_msg.roundtrip Commit_msg.roundtrip
          CommitShort_msg.roundtrip PrepareReply_msg.roundtrip AcceptReply_msg.roundtrip)
  ultimately show "\<exists>p. Get paxos_table (paxos_code m) = Some p \<and> Chan p = paxos_index m \<and>
      (\<forall>rest. Obj p (paxos_enc m @ rest) = Some (True, id m, rest))" by simp
qed (case_tac m; simp add: paxos_code_def message_types)+

section \<open>FastPaxos\<close>

text \<open>The registrations of \<open>fastpaxos/defs.go (initCs)\<close>.\<close>

definition fastpaxos_decoders :: "fastpaxos_msg decoder list" where
  "fastpaxos_decoders =
     [new_unmarshal zero_FastM2B Unmarshal_FastM2B FastM2BMsg]"

definition fastpaxos_table :: "fastpaxos_msg Table" where
  "fastpaxos_table = Register_all fastpaxos_decoders 0 (NewTableId RPC_TABLE)"

fun fastpaxos_index :: "fastpaxos_msg \<Rightarrow> nat" where
  "fastpaxos_index (FastM2BMsg m) = 0"

definition fastpaxos_code :: "fastpaxos_msg \<Rightarrow> byte" where
  "fastpaxos_code m = RPC_TABLE + of_nat (fastpaxos_index m)"

fun fastpaxos_enc :: "fastpaxos_msg \<Rightarrow> bytes" where
  "fastpaxos_enc (FastM2BMsg m) = Marshal_FastM2B m"

fun fastpaxos_ok :: "fastpaxos_msg \<Rightarrow> bool" where
  "fastpaxos_ok (FastM2BMsg m) = FastM2B_ok m"

interpretation fastpaxos_end: endpoint fastpaxos_table fastpaxos_code fastpaxos_enc fastpaxos_index fastpaxos_ok id
proof
  fix m assume ok: "fastpaxos_ok m"
  have k: "fastpaxos_index m < length fastpaxos_decoders" by (cases m) (simp_all add: fastpaxos_decoders_def)
  have "Get fastpaxos_table (fastpaxos_code m) = Some \<lparr>Obj = fastpaxos_decoders ! fastpaxos_index m, Chan = fastpaxos_index m\<rparr>"
    using Register_all_nth [OF _ k, of "NewTableId RPC_TABLE" 0]
    by (simp add: fastpaxos_table_def fastpaxos_code_def NewTableId_def fastpaxos_decoders_def RPC_TABLE_def)
  moreover have "(fastpaxos_decoders ! fastpaxos_index m) (fastpaxos_enc m @ rest) = Some (True, id m, rest)" for rest
    using ok
    by (cases m) (simp_all add: fastpaxos_decoders_def new_unmarshal_def
          FastM2B_msg.roundtrip)
  ultimately show "\<exists>p. Get fastpaxos_table (fastpaxos_code m) = Some p \<and> Chan p = fastpaxos_index m \<and>
      (\<forall>rest. Obj p (fastpaxos_enc m @ rest) = Some (True, id m, rest))" by simp
qed (case_tac m; simp add: fastpaxos_code_def message_types)+

section \<open>N2Paxos\<close>

text \<open>The registrations of \<open>n2paxos/defs.go (initCs)\<close>.\<close>

definition n2paxos_decoders :: "n2paxos_msg decoder list" where
  "n2paxos_decoders =
     [new_unmarshal zero_N2M1A Unmarshal_N2M1A N2M1AMsg,
      new_unmarshal zero_N2M1B Unmarshal_N2M1B N2M1BMsg,
      new_unmarshal zero_N2M2A Unmarshal_N2M2A N2M2AMsg,
      new_unmarshal zero_N2M2B Unmarshal_N2M2B N2M2BMsg,
      new_unmarshal zero_N2M2s Unmarshal_N2M2s N2M2sMsg,
      new_unmarshal zero_N2MPaxosSync Unmarshal_N2MPaxosSync N2MPaxosSyncMsg]"

definition n2paxos_table :: "n2paxos_msg Table" where
  "n2paxos_table = Register_all n2paxos_decoders 0 (NewTableId RPC_TABLE)"

fun n2paxos_index :: "n2paxos_msg \<Rightarrow> nat" where
  "n2paxos_index (N2M1AMsg m) = 0"
| "n2paxos_index (N2M1BMsg m) = 1"
| "n2paxos_index (N2M2AMsg m) = 2"
| "n2paxos_index (N2M2BMsg m) = 3"
| "n2paxos_index (N2M2sMsg m) = 4"
| "n2paxos_index (N2MPaxosSyncMsg m) = 5"

definition n2paxos_code :: "n2paxos_msg \<Rightarrow> byte" where
  "n2paxos_code m = RPC_TABLE + of_nat (n2paxos_index m)"

fun n2paxos_enc :: "n2paxos_msg \<Rightarrow> bytes" where
  "n2paxos_enc (N2M1AMsg m) = Marshal_N2M1A m"
| "n2paxos_enc (N2M1BMsg m) = Marshal_N2M1B m"
| "n2paxos_enc (N2M2AMsg m) = Marshal_N2M2A m"
| "n2paxos_enc (N2M2BMsg m) = Marshal_N2M2B m"
| "n2paxos_enc (N2M2sMsg m) = Marshal_N2M2s m"
| "n2paxos_enc (N2MPaxosSyncMsg m) = Marshal_N2MPaxosSync m"

fun n2paxos_ok :: "n2paxos_msg \<Rightarrow> bool" where
  "n2paxos_ok (N2M1AMsg m) = N2M1A_ok m"
| "n2paxos_ok (N2M1BMsg m) = N2M1B_ok m"
| "n2paxos_ok (N2M2AMsg m) = N2M2A_ok m"
| "n2paxos_ok (N2M2BMsg m) = N2M2B_ok m"
| "n2paxos_ok (N2M2sMsg m) = N2M2s_ok m"
| "n2paxos_ok (N2MPaxosSyncMsg m) = N2MPaxosSync_ok m"

interpretation n2paxos_end: endpoint n2paxos_table n2paxos_code n2paxos_enc n2paxos_index n2paxos_ok id
proof
  fix m assume ok: "n2paxos_ok m"
  have k: "n2paxos_index m < length n2paxos_decoders" by (cases m) (simp_all add: n2paxos_decoders_def)
  have "Get n2paxos_table (n2paxos_code m) = Some \<lparr>Obj = n2paxos_decoders ! n2paxos_index m, Chan = n2paxos_index m\<rparr>"
    using Register_all_nth [OF _ k, of "NewTableId RPC_TABLE" 0]
    by (simp add: n2paxos_table_def n2paxos_code_def NewTableId_def n2paxos_decoders_def RPC_TABLE_def)
  moreover have "(n2paxos_decoders ! n2paxos_index m) (n2paxos_enc m @ rest) = Some (True, id m, rest)" for rest
    using ok
    by (cases m) (simp_all add: n2paxos_decoders_def new_unmarshal_def
          N2M1A_msg.roundtrip N2M1B_msg.roundtrip N2M2A_msg.roundtrip N2M2B_msg.roundtrip
          N2M2s_msg.roundtrip N2MPaxosSync_msg.roundtrip)
  ultimately show "\<exists>p. Get n2paxos_table (n2paxos_code m) = Some p \<and> Chan p = n2paxos_index m \<and>
      (\<forall>rest. Obj p (n2paxos_enc m @ rest) = Some (True, id m, rest))" by simp
qed (case_tac m; simp add: n2paxos_code_def message_types)+

section \<open>Curp\<close>

text \<open>The registrations of \<open>curp/defs.go (initCs)\<close>.\<close>

definition curp_decoders :: "curp_msg decoder list" where
  "curp_decoders =
     [new_unmarshal zero_CurpMReply Unmarshal_CurpMReply CurpMReplyMsg,
      new_unmarshal zero_CurpMAccept Unmarshal_CurpMAccept CurpMAcceptMsg,
      new_unmarshal zero_CurpMAcceptAck Unmarshal_CurpMAcceptAck CurpMAcceptAckMsg,
      new_unmarshal zero_CurpMAAcks Unmarshal_CurpMAAcks CurpMAAcksMsg,
      new_unmarshal zero_CurpMRecordAck Unmarshal_CurpMRecordAck CurpMRecordAckMsg,
      new_unmarshal zero_CurpMCommit Unmarshal_CurpMCommit CurpMCommitMsg,
      new_unmarshal zero_CurpMSync Unmarshal_CurpMSync CurpMSyncMsg,
      new_unmarshal zero_CurpMSyncReply Unmarshal_CurpMSyncReply CurpMSyncReplyMsg]"

definition curp_table :: "curp_msg Table" where
  "curp_table = Register_all curp_decoders 0 (NewTableId RPC_TABLE)"

fun curp_index :: "curp_msg \<Rightarrow> nat" where
  "curp_index (CurpMReplyMsg m) = 0"
| "curp_index (CurpMAcceptMsg m) = 1"
| "curp_index (CurpMAcceptAckMsg m) = 2"
| "curp_index (CurpMAAcksMsg m) = 3"
| "curp_index (CurpMRecordAckMsg m) = 4"
| "curp_index (CurpMCommitMsg m) = 5"
| "curp_index (CurpMSyncMsg m) = 6"
| "curp_index (CurpMSyncReplyMsg m) = 7"

definition curp_code :: "curp_msg \<Rightarrow> byte" where
  "curp_code m = RPC_TABLE + of_nat (curp_index m)"

fun curp_enc :: "curp_msg \<Rightarrow> bytes" where
  "curp_enc (CurpMReplyMsg m) = Marshal_CurpMReply m"
| "curp_enc (CurpMAcceptMsg m) = Marshal_CurpMAccept m"
| "curp_enc (CurpMAcceptAckMsg m) = Marshal_CurpMAcceptAck m"
| "curp_enc (CurpMAAcksMsg m) = Marshal_CurpMAAcks m"
| "curp_enc (CurpMRecordAckMsg m) = Marshal_CurpMRecordAck m"
| "curp_enc (CurpMCommitMsg m) = Marshal_CurpMCommit m"
| "curp_enc (CurpMSyncMsg m) = Marshal_CurpMSync m"
| "curp_enc (CurpMSyncReplyMsg m) = Marshal_CurpMSyncReply m"

fun curp_ok :: "curp_msg \<Rightarrow> bool" where
  "curp_ok (CurpMReplyMsg m) = CurpMReply_ok m"
| "curp_ok (CurpMAcceptMsg m) = CurpMAccept_ok m"
| "curp_ok (CurpMAcceptAckMsg m) = CurpMAcceptAck_ok m"
| "curp_ok (CurpMAAcksMsg m) = CurpMAAcks_ok m"
| "curp_ok (CurpMRecordAckMsg m) = CurpMRecordAck_ok m"
| "curp_ok (CurpMCommitMsg m) = CurpMCommit_ok m"
| "curp_ok (CurpMSyncMsg m) = CurpMSync_ok m"
| "curp_ok (CurpMSyncReplyMsg m) = CurpMSyncReply_ok m"

interpretation curp_end: endpoint curp_table curp_code curp_enc curp_index curp_ok id
proof
  fix m assume ok: "curp_ok m"
  have k: "curp_index m < length curp_decoders" by (cases m) (simp_all add: curp_decoders_def)
  have "Get curp_table (curp_code m) = Some \<lparr>Obj = curp_decoders ! curp_index m, Chan = curp_index m\<rparr>"
    using Register_all_nth [OF _ k, of "NewTableId RPC_TABLE" 0]
    by (simp add: curp_table_def curp_code_def NewTableId_def curp_decoders_def RPC_TABLE_def)
  moreover have "(curp_decoders ! curp_index m) (curp_enc m @ rest) = Some (True, id m, rest)" for rest
    using ok
    by (cases m) (simp_all add: curp_decoders_def new_unmarshal_def
          CurpMReply_msg.roundtrip CurpMAccept_msg.roundtrip CurpMAcceptAck_msg.roundtrip
          CurpMAAcks_msg.roundtrip CurpMRecordAck_msg.roundtrip CurpMCommit_msg.roundtrip
          CurpMSync_msg.roundtrip CurpMSyncReply_msg.roundtrip)
  ultimately show "\<exists>p. Get curp_table (curp_code m) = Some p \<and> Chan p = curp_index m \<and>
      (\<forall>rest. Obj p (curp_enc m @ rest) = Some (True, id m, rest))" by simp
qed (case_tac m; simp add: curp_code_def message_types)+

section \<open>EPaxos\<close>

text \<open>The registrations of \<open>epaxos/epaxos.go (New)\<close>.\<close>

definition epaxos_decoders :: "epaxos_msg decoder list" where
  "epaxos_decoders =
     [new_unmarshal zero_EPrepare Unmarshal_EPrepare EPrepareMsg,
      new_unmarshal zero_EPrepareReply Unmarshal_EPrepareReply EPrepareReplyMsg,
      new_unmarshal zero_EPreAccept Unmarshal_EPreAccept EPreAcceptMsg,
      new_unmarshal zero_EPreAcceptReply Unmarshal_EPreAcceptReply EPreAcceptReplyMsg,
      new_unmarshal zero_EAccept Unmarshal_EAccept EAcceptMsg,
      new_unmarshal zero_EAcceptReply Unmarshal_EAcceptReply EAcceptReplyMsg,
      new_unmarshal zero_ECommit Unmarshal_ECommit ECommitMsg,
      new_unmarshal zero_ETryPreAccept Unmarshal_ETryPreAccept ETryPreAcceptMsg,
      new_unmarshal zero_ETryPreAcceptReply Unmarshal_ETryPreAcceptReply ETryPreAcceptReplyMsg]"

definition epaxos_table :: "epaxos_msg Table" where
  "epaxos_table = Register_all epaxos_decoders 0 (NewTableId RPC_TABLE)"

fun epaxos_index :: "epaxos_msg \<Rightarrow> nat" where
  "epaxos_index (EPrepareMsg m) = 0"
| "epaxos_index (EPrepareReplyMsg m) = 1"
| "epaxos_index (EPreAcceptMsg m) = 2"
| "epaxos_index (EPreAcceptReplyMsg m) = 3"
| "epaxos_index (EAcceptMsg m) = 4"
| "epaxos_index (EAcceptReplyMsg m) = 5"
| "epaxos_index (ECommitMsg m) = 6"
| "epaxos_index (ETryPreAcceptMsg m) = 7"
| "epaxos_index (ETryPreAcceptReplyMsg m) = 8"

definition epaxos_code :: "epaxos_msg \<Rightarrow> byte" where
  "epaxos_code m = RPC_TABLE + of_nat (epaxos_index m)"

fun epaxos_enc :: "epaxos_msg \<Rightarrow> bytes" where
  "epaxos_enc (EPrepareMsg m) = Marshal_EPrepare m"
| "epaxos_enc (EPrepareReplyMsg m) = Marshal_EPrepareReply m"
| "epaxos_enc (EPreAcceptMsg m) = Marshal_EPreAccept m"
| "epaxos_enc (EPreAcceptReplyMsg m) = Marshal_EPreAcceptReply m"
| "epaxos_enc (EAcceptMsg m) = Marshal_EAccept m"
| "epaxos_enc (EAcceptReplyMsg m) = Marshal_EAcceptReply m"
| "epaxos_enc (ECommitMsg m) = Marshal_ECommit m"
| "epaxos_enc (ETryPreAcceptMsg m) = Marshal_ETryPreAccept m"
| "epaxos_enc (ETryPreAcceptReplyMsg m) = Marshal_ETryPreAcceptReply m"

fun epaxos_ok :: "epaxos_msg \<Rightarrow> bool" where
  "epaxos_ok (EPrepareMsg m) = EPrepare_ok m"
| "epaxos_ok (EPrepareReplyMsg m) = EPrepareReply_ok m"
| "epaxos_ok (EPreAcceptMsg m) = EPreAccept_ok m"
| "epaxos_ok (EPreAcceptReplyMsg m) = EPreAcceptReply_ok m"
| "epaxos_ok (EAcceptMsg m) = EAccept_ok m"
| "epaxos_ok (EAcceptReplyMsg m) = EAcceptReply_ok m"
| "epaxos_ok (ECommitMsg m) = ECommit_ok m"
| "epaxos_ok (ETryPreAcceptMsg m) = ETryPreAccept_ok m"
| "epaxos_ok (ETryPreAcceptReplyMsg m) = ETryPreAcceptReply_ok m"

text \<open>A \<open>PrepareReply\<close> arrives without its \<open>VBallot\<close>: the field of the new object stays zero.\<close>

fun epaxos_recv :: "epaxos_msg \<Rightarrow> epaxos_msg" where
  "epaxos_recv (EPrepareReplyMsg m) = EPrepareReplyMsg (m\<lparr>EPrepareReply_VBallot := 0\<rparr>)"
| "epaxos_recv m = m"

interpretation epaxos_end: endpoint epaxos_table epaxos_code epaxos_enc epaxos_index epaxos_ok epaxos_recv
proof
  fix m assume ok: "epaxos_ok m"
  have k: "epaxos_index m < length epaxos_decoders" by (cases m) (simp_all add: epaxos_decoders_def)
  have "Get epaxos_table (epaxos_code m) = Some \<lparr>Obj = epaxos_decoders ! epaxos_index m, Chan = epaxos_index m\<rparr>"
    using Register_all_nth [OF _ k, of "NewTableId RPC_TABLE" 0]
    by (simp add: epaxos_table_def epaxos_code_def NewTableId_def epaxos_decoders_def RPC_TABLE_def)
  moreover have "(epaxos_decoders ! epaxos_index m) (epaxos_enc m @ rest) = Some (True, epaxos_recv m, rest)" for rest
    using ok
    by (cases m) (simp_all add: epaxos_decoders_def new_unmarshal_def
          EPrepare_msg.roundtrip Unmarshal_EPrepareReply_keeps_VBallot zero_EPrepareReply_def
          EPreAccept_msg.roundtrip EPreAcceptReply_msg.roundtrip EAccept_msg.roundtrip
          EAcceptReply_msg.roundtrip ECommit_msg.roundtrip ETryPreAccept_msg.roundtrip
          ETryPreAcceptReply_msg.roundtrip)
  ultimately show "\<exists>p. Get epaxos_table (epaxos_code m) = Some p \<and> Chan p = epaxos_index m \<and>
      (\<forall>rest. Obj p (epaxos_enc m @ rest) = Some (True, epaxos_recv m, rest))" by simp
qed (case_tac m; simp add: epaxos_code_def message_types)+

section \<open>Swift\<close>

text \<open>
  \<open>MSync\<close> is encoded by \<open>encoding/gob\<close>: its encoder and decoder are parameters.
\<close>

text \<open>The registrations of \<open>swift/defs.go (initCs)\<close>.\<close>

definition swift_decoders :: "('sync decoder) \<Rightarrow> 'sync swift_msg decoder list" where
  "swift_decoders gob_dec =
     [new_unmarshal zero_SwiftMFastAck Unmarshal_SwiftMFastAck SwiftMFastAckMsg,
      new_unmarshal zero_SwiftMFastAckClient Unmarshal_SwiftMFastAckClient SwiftMFastAckClientMsg,
      new_unmarshal zero_SwiftMSlowAck Unmarshal_SwiftMSlowAck SwiftMSlowAckMsg,
      new_unmarshal zero_SwiftMLightSlowAck Unmarshal_SwiftMLightSlowAck SwiftMLightSlowAckMsg,
      new_unmarshal zero_SwiftMAcks Unmarshal_SwiftMAcks SwiftMAcksMsg,
      new_unmarshal zero_SwiftMOptAcks Unmarshal_SwiftMOptAcks SwiftMOptAcksMsg,
      new_unmarshal zero_SwiftMReply Unmarshal_SwiftMReply SwiftMReplyMsg,
      new_unmarshal zero_SwiftMNewLeader Unmarshal_SwiftMNewLeader SwiftMNewLeaderMsg,
      new_unmarshal zero_SwiftMNewLeaderAckN Unmarshal_SwiftMNewLeaderAckN SwiftMNewLeaderAckNMsg,
      (\<lambda>wire. map_option (\<lambda>(noerr, x, wire). (noerr, Swift_MSync x, wire)) (gob_dec wire)),
      new_unmarshal zero_SwiftMPing Unmarshal_SwiftMPing SwiftMPingMsg,
      new_unmarshal zero_SwiftMPingRep Unmarshal_SwiftMPingRep SwiftMPingRepMsg,
      new_unmarshal zero_SwiftMCollect Unmarshal_SwiftMCollect SwiftMCollectMsg,
      new_unmarshal zero_SwiftMAccept Unmarshal_SwiftMAccept SwiftMAcceptMsg]"

definition swift_table :: "('sync decoder) \<Rightarrow> 'sync swift_msg Table" where
  "swift_table gob_dec = Register_all (swift_decoders gob_dec) 0 (NewTableId RPC_TABLE)"

fun swift_index :: "'sync swift_msg \<Rightarrow> nat" where
  "swift_index (SwiftMFastAckMsg m) = 0"
| "swift_index (SwiftMFastAckClientMsg m) = 1"
| "swift_index (SwiftMSlowAckMsg m) = 2"
| "swift_index (SwiftMLightSlowAckMsg m) = 3"
| "swift_index (SwiftMAcksMsg m) = 4"
| "swift_index (SwiftMOptAcksMsg m) = 5"
| "swift_index (SwiftMReplyMsg m) = 6"
| "swift_index (SwiftMNewLeaderMsg m) = 7"
| "swift_index (SwiftMNewLeaderAckNMsg m) = 8"
| "swift_index (Swift_MSync m) = 9"
| "swift_index (SwiftMPingMsg m) = 10"
| "swift_index (SwiftMPingRepMsg m) = 11"
| "swift_index (SwiftMCollectMsg m) = 12"
| "swift_index (SwiftMAcceptMsg m) = 13"

definition swift_code :: "'sync swift_msg \<Rightarrow> byte" where
  "swift_code m = RPC_TABLE + of_nat (swift_index m)"

fun swift_enc :: "('sync \<Rightarrow> bytes) \<Rightarrow> 'sync swift_msg \<Rightarrow> bytes" where
  "swift_enc gob_enc (SwiftMFastAckMsg m) = Marshal_SwiftMFastAck m"
| "swift_enc gob_enc (SwiftMFastAckClientMsg m) = Marshal_SwiftMFastAckClient m"
| "swift_enc gob_enc (SwiftMSlowAckMsg m) = Marshal_SwiftMSlowAck m"
| "swift_enc gob_enc (SwiftMLightSlowAckMsg m) = Marshal_SwiftMLightSlowAck m"
| "swift_enc gob_enc (SwiftMAcksMsg m) = Marshal_SwiftMAcks m"
| "swift_enc gob_enc (SwiftMOptAcksMsg m) = Marshal_SwiftMOptAcks m"
| "swift_enc gob_enc (SwiftMReplyMsg m) = Marshal_SwiftMReply m"
| "swift_enc gob_enc (SwiftMNewLeaderMsg m) = Marshal_SwiftMNewLeader m"
| "swift_enc gob_enc (SwiftMNewLeaderAckNMsg m) = Marshal_SwiftMNewLeaderAckN m"
| "swift_enc gob_enc (Swift_MSync m) = gob_enc m"
| "swift_enc gob_enc (SwiftMPingMsg m) = Marshal_SwiftMPing m"
| "swift_enc gob_enc (SwiftMPingRepMsg m) = Marshal_SwiftMPingRep m"
| "swift_enc gob_enc (SwiftMCollectMsg m) = Marshal_SwiftMCollect m"
| "swift_enc gob_enc (SwiftMAcceptMsg m) = Marshal_SwiftMAccept m"

fun swift_ok :: "('sync \<Rightarrow> bool) \<Rightarrow> 'sync swift_msg \<Rightarrow> bool" where
  "swift_ok gob_ok (SwiftMFastAckMsg m) = SwiftMFastAck_ok m"
| "swift_ok gob_ok (SwiftMFastAckClientMsg m) = SwiftMFastAckClient_ok m"
| "swift_ok gob_ok (SwiftMSlowAckMsg m) = SwiftMSlowAck_ok m"
| "swift_ok gob_ok (SwiftMLightSlowAckMsg m) = SwiftMLightSlowAck_ok m"
| "swift_ok gob_ok (SwiftMAcksMsg m) = SwiftMAcks_ok m"
| "swift_ok gob_ok (SwiftMOptAcksMsg m) = SwiftMOptAcks_ok m"
| "swift_ok gob_ok (SwiftMReplyMsg m) = SwiftMReply_ok m"
| "swift_ok gob_ok (SwiftMNewLeaderMsg m) = SwiftMNewLeader_ok m"
| "swift_ok gob_ok (SwiftMNewLeaderAckNMsg m) = SwiftMNewLeaderAckN_ok m"
| "swift_ok gob_ok (Swift_MSync m) = gob_ok m"
| "swift_ok gob_ok (SwiftMPingMsg m) = SwiftMPing_ok m"
| "swift_ok gob_ok (SwiftMPingRepMsg m) = SwiftMPingRep_ok m"
| "swift_ok gob_ok (SwiftMCollectMsg m) = SwiftMCollect_ok m"
| "swift_ok gob_ok (SwiftMAcceptMsg m) = SwiftMAccept_ok m"

lemma swift_registered:
  assumes "\<forall>m rest. gob_ok m \<longrightarrow> gob_dec (gob_enc m @ rest) = Some (True, m, rest)" "swift_ok gob_ok m"
  shows "\<exists>p. Get (swift_table gob_dec) (swift_code m) = Some p \<and> Chan p = swift_index m \<and>
    (\<forall>rest. Obj p (swift_enc gob_enc m @ rest) = Some (True, id m, rest))"
proof -
  have k: "swift_index m < length (swift_decoders gob_dec)" by (cases m) (simp_all add: swift_decoders_def)
  have "Get (swift_table gob_dec) (swift_code m) = Some \<lparr>Obj = swift_decoders gob_dec ! swift_index m, Chan = swift_index m\<rparr>"
    using Register_all_nth [OF _ k, of "NewTableId RPC_TABLE" 0]
    by (simp add: swift_table_def swift_code_def NewTableId_def swift_decoders_def RPC_TABLE_def)
  moreover have "(swift_decoders gob_dec ! swift_index m) (swift_enc gob_enc m @ rest) = Some (True, id m, rest)" for rest
    using assms
    by (cases m) (simp_all add: swift_decoders_def new_unmarshal_def
          SwiftMFastAck_msg.roundtrip SwiftMFastAckClient_msg.roundtrip
          SwiftMSlowAck_msg.roundtrip SwiftMLightSlowAck_msg.roundtrip SwiftMAcks_msg.roundtrip
          SwiftMOptAcks_msg.roundtrip SwiftMReply_msg.roundtrip SwiftMNewLeader_msg.roundtrip
          SwiftMNewLeaderAckN_msg.roundtrip SwiftMPing_msg.roundtrip SwiftMPingRep_msg.roundtrip
          SwiftMCollect_msg.roundtrip SwiftMAccept_msg.roundtrip)
  ultimately show ?thesis by simp
qed

lemma swift_endpoint:
  assumes "\<forall>m rest. gob_ok m \<longrightarrow> gob_dec (gob_enc m @ rest) = Some (True, m, rest)"
  shows "endpoint (swift_table gob_dec) swift_code (swift_enc gob_enc) swift_index (swift_ok gob_ok) id"
proof
  fix m show "swift_ok gob_ok m \<Longrightarrow> \<exists>p. Get (swift_table gob_dec) (swift_code m) = Some p \<and> Chan p = swift_index m \<and>
      (\<forall>rest. Obj p (swift_enc gob_enc m @ rest) = Some (True, id m, rest))"
    using assms by (rule swift_registered)
qed (case_tac m; simp add: swift_code_def message_types)+

text \<open>
  A replica reads the Paxos messages another one sends it, with beacons between them, in the
  order and with the contents they were sent with, and puts each on the channel of its type.
\<close>

theorem paxos_connection:
  assumes "list_all (sent_ok paxos_ok) xs" "fold (send paxos_code paxos_enc) xs (Some []) = Some wire"
  shows "replicaListener (Suc (length xs)) paxos_table gb gbr wire
     = (map (received paxos_index id) xs, Eof)"
  using assms by (rule paxos_end.connection)

theorem paxos_connection_witness:
  "\<exists>wire. replicaListener 3 paxos_table zero_Beacon zero_BeaconReply wire
     = (map (received paxos_index id)
         [ABeacon 5, Msg (AcceptReplyMsg \<lparr>AcceptReply_Instance = 1, AcceptReply_Ballot = 2\<rparr>)], Eof)"
proof -
  let ?xs = "[ABeacon 5, Msg (AcceptReplyMsg \<lparr>AcceptReply_Instance = 1, AcceptReply_Ballot = 2\<rparr>)]"
  have "list_all (sent_ok paxos_ok) ?xs"
    by (simp add: zero_AcceptReply_def AcceptReply_ok_def i32_def i64_def i8_def zero_CommandId_def CommandId_ok_def)
  moreover obtain wire where "fold (send paxos_code paxos_enc) ?xs (Some []) = Some wire"
    by (auto simp: SendBeacon_def SendMsg_def)
  ultimately show ?thesis
    using paxos_connection [of ?xs wire] by (auto simp: eval_nat_numeral simp del: replicaListener.simps)
qed

text \<open>
  A replica reads the Fast Paxos messages another one sends it, with beacons between them, in the
  order and with the contents they were sent with, and puts each on the channel of its type.
\<close>

theorem fastpaxos_connection:
  assumes "list_all (sent_ok fastpaxos_ok) xs" "fold (send fastpaxos_code fastpaxos_enc) xs (Some []) = Some wire"
  shows "replicaListener (Suc (length xs)) fastpaxos_table gb gbr wire
     = (map (received fastpaxos_index id) xs, Eof)"
  using assms by (rule fastpaxos_end.connection)

theorem fastpaxos_connection_witness:
  "\<exists>wire. replicaListener 3 fastpaxos_table zero_Beacon zero_BeaconReply wire
     = (map (received fastpaxos_index id)
         [ABeacon 5, Msg (FastM2BMsg zero_FastM2B)], Eof)"
proof -
  let ?xs = "[ABeacon 5, Msg (FastM2BMsg zero_FastM2B)]"
  have "list_all (sent_ok fastpaxos_ok) ?xs"
    by (simp add: zero_FastM2B_def FastM2B_ok_def i32_def i64_def i8_def zero_CommandId_def CommandId_ok_def)
  moreover obtain wire where "fold (send fastpaxos_code fastpaxos_enc) ?xs (Some []) = Some wire"
    by (auto simp: SendBeacon_def SendMsg_def)
  ultimately show ?thesis
    using fastpaxos_connection [of ?xs wire] by (auto simp: eval_nat_numeral simp del: replicaListener.simps)
qed

text \<open>
  A replica reads the N2Paxos messages another one sends it, with beacons between them, in the
  order and with the contents they were sent with, and puts each on the channel of its type.
\<close>

theorem n2paxos_connection:
  assumes "list_all (sent_ok n2paxos_ok) xs" "fold (send n2paxos_code n2paxos_enc) xs (Some []) = Some wire"
  shows "replicaListener (Suc (length xs)) n2paxos_table gb gbr wire
     = (map (received n2paxos_index id) xs, Eof)"
  using assms by (rule n2paxos_end.connection)

theorem n2paxos_connection_witness:
  "\<exists>wire. replicaListener 3 n2paxos_table zero_Beacon zero_BeaconReply wire
     = (map (received n2paxos_index id)
         [ABeacon 5, Msg (N2M2sMsg zero_N2M2s)], Eof)"
proof -
  let ?xs = "[ABeacon 5, Msg (N2M2sMsg zero_N2M2s)]"
  have "list_all (sent_ok n2paxos_ok) ?xs"
    by (simp add: zero_N2M2s_def N2M2s_ok_def i32_def i64_def i8_def zero_CommandId_def CommandId_ok_def)
  moreover obtain wire where "fold (send n2paxos_code n2paxos_enc) ?xs (Some []) = Some wire"
    by (auto simp: SendBeacon_def SendMsg_def)
  ultimately show ?thesis
    using n2paxos_connection [of ?xs wire] by (auto simp: eval_nat_numeral simp del: replicaListener.simps)
qed

text \<open>
  A replica reads the CURP messages another one sends it, with beacons between them, in the
  order and with the contents they were sent with, and puts each on the channel of its type.
\<close>

theorem curp_connection:
  assumes "list_all (sent_ok curp_ok) xs" "fold (send curp_code curp_enc) xs (Some []) = Some wire"
  shows "replicaListener (Suc (length xs)) curp_table gb gbr wire
     = (map (received curp_index id) xs, Eof)"
  using assms by (rule curp_end.connection)

theorem curp_connection_witness:
  "\<exists>wire. replicaListener 3 curp_table zero_Beacon zero_BeaconReply wire
     = (map (received curp_index id)
         [ABeacon 5, Msg (CurpMAAcksMsg zero_CurpMAAcks)], Eof)"
proof -
  let ?xs = "[ABeacon 5, Msg (CurpMAAcksMsg zero_CurpMAAcks)]"
  have "list_all (sent_ok curp_ok) ?xs"
    by (simp add: zero_CurpMAAcks_def CurpMAAcks_ok_def i32_def i64_def i8_def zero_CommandId_def CommandId_ok_def)
  moreover obtain wire where "fold (send curp_code curp_enc) ?xs (Some []) = Some wire"
    by (auto simp: SendBeacon_def SendMsg_def)
  ultimately show ?thesis
    using curp_connection [of ?xs wire] by (auto simp: eval_nat_numeral simp del: replicaListener.simps)
qed

text \<open>
  A replica reads the EPaxos messages another one sends it, with beacons between them, in the
  order and with the contents they were sent with, but for \<open>PrepareReply.VBallot\<close>, which always
  arrives as 0: the receiver cannot tell in which ballot a value was accepted.
\<close>

theorem epaxos_connection:
  assumes "list_all (sent_ok epaxos_ok) xs" "fold (send epaxos_code epaxos_enc) xs (Some []) = Some wire"
  shows "replicaListener (Suc (length xs)) epaxos_table gb gbr wire
     = (map (received epaxos_index epaxos_recv) xs, Eof)"
  using assms by (rule epaxos_end.connection)

theorem epaxos_connection_witness:
  "\<exists>wire. replicaListener 3 epaxos_table zero_Beacon zero_BeaconReply wire
     = (map (received epaxos_index epaxos_recv)
         [ABeacon 5, Msg (EPrepareReplyMsg (zero_EPrepareReply\<lparr>EPrepareReply_VBallot := 7\<rparr>))], Eof)"
proof -
  let ?xs = "[ABeacon 5, Msg (EPrepareReplyMsg (zero_EPrepareReply\<lparr>EPrepareReply_VBallot := 7\<rparr>))]"
  have "list_all (sent_ok epaxos_ok) ?xs"
    by (simp add: zero_EPrepareReply_def EPrepareReply_ok_def i32_def i64_def i8_def zero_CommandId_def CommandId_ok_def)
  moreover obtain wire where "fold (send epaxos_code epaxos_enc) ?xs (Some []) = Some wire"
    by (auto simp: SendBeacon_def SendMsg_def)
  ultimately show ?thesis
    using epaxos_connection [of ?xs wire] by (auto simp: eval_nat_numeral simp del: replicaListener.simps)
qed

text \<open>
  A replica reads the Swift messages another one sends it, with beacons between them, in the
  order and with the contents they were sent with, for every encoding of \<open>MSync\<close> that reads back
  what it writes.
\<close>

theorem swift_connection:
  assumes "\<forall>m rest. gob_ok m \<longrightarrow> gob_dec (gob_enc m @ rest) = Some (True, m, rest)"
    and "list_all (sent_ok (swift_ok gob_ok)) xs"
    and "fold (send swift_code (swift_enc gob_enc)) xs (Some []) = Some wire"
  shows "replicaListener (Suc (length xs)) (swift_table gob_dec) gb gbr wire
     = (map (received swift_index id) xs, Eof)"
  using endpoint.connection [OF swift_endpoint [OF assms(1)] assms(2,3)] .

theorem swift_connection_witness:
  "\<exists>wire. replicaListener 4 (swift_table (\<lambda>wire. Some (True, (), wire))) zero_Beacon zero_BeaconReply wire
     = ([ReplyTo 5, Enqueue 4 (SwiftMAcksMsg zero_SwiftMAcks), Enqueue 9 (Swift_MSync ())], Eof)"
proof -
  let ?xs = "[ABeacon 5, Msg (SwiftMAcksMsg zero_SwiftMAcks), Msg (Swift_MSync ())]"
  have "list_all (sent_ok (swift_ok (\<lambda>_. True))) ?xs"
    by (simp add: zero_SwiftMAcks_def SwiftMAcks_ok_def i64_def)
  moreover obtain wire where "fold (send swift_code (swift_enc (\<lambda>_. []))) ?xs (Some []) = Some wire"
    by (auto simp: SendBeacon_def SendMsg_def)
  ultimately show ?thesis
    using swift_connection [of "\<lambda>_. True" "\<lambda>wire. Some (True, (), wire)" "\<lambda>_. []" ?xs wire]
    by (auto simp: eval_nat_numeral simp del: replicaListener.simps)
qed

end
