(* ===== verification/MsgSet.thy ===== *)
theory MsgSet
  imports Quorum "HOL-Library.AList"
begin

text \<open>
  Message sets (\<open>replica/mset.go\<close>): the messages of one round, at most one per replica, and the
  handler that is called whenever they reach a quorum.

  The functions a message set is made with (\<open>accept\<close>, \<open>freeMsg\<close>, \<open>handler\<close>) are arguments of the
  model: \<open>accept\<close> is applied, the messages given to \<open>freeMsg\<close> and the calls of \<open>handler\<close> are
  returned.  Go iterates over a map in no fixed order; the list handed to the handler is in order
  of insertion here, and what is proved of it is about its elements.
\<close>

record 'm msgset =
  ms_q :: quorum
  ms_msgs :: "(int \<times> 'm) list"
  ms_leaderMsg :: "'m option"

definition NewMsgSet :: "quorum \<Rightarrow> 'm msgset" where
  "NewMsgSet Q = \<lparr>ms_q = Q, ms_msgs = [], ms_leaderMsg = None\<rparr>"

definition ReinitMsgSet :: "'m msgset option \<Rightarrow> quorum \<Rightarrow> 'm msgset" where
  "ReinitMsgSet ms Q =
     (case ms of None \<Rightarrow> NewMsgSet Q
      | Some ms \<Rightarrow> ms\<lparr>ms_q := Q, ms_leaderMsg := None, ms_msgs := []\<rparr>)"

text \<open>What \<open>Add\<close> does: its result, the messages it frees, and the call of the handler.\<close>

record 'm add_result =
  added :: bool
  freed :: "'m list"
  call :: "('m option \<times> 'm list) option"

definition Add ::
  "('m \<Rightarrow> 'm option \<Rightarrow> bool) \<Rightarrow> int \<Rightarrow> bool \<Rightarrow> 'm \<Rightarrow> 'm msgset \<Rightarrow> 'm add_result \<times> 'm msgset" where
  "Add accept repId isLeader msg ms =
     (if \<not> Contains (ms_q ms) repId then (\<lparr>added = False, freed = [], call = None\<rparr>, ms)
      else if ms_leaderMsg ms \<noteq> None \<and> map_of (ms_msgs ms) repId \<noteq> None
        then (\<lparr>added = False, freed = [], call = None\<rparr>, ms)
      else
        let (added, freed, ms) =
          (if isLeader then
             (True, map snd (filter (\<lambda>(_, m). \<not> accept m (Some msg)) (ms_msgs ms)),
              ms\<lparr>ms_leaderMsg := Some msg,
                 ms_msgs := filter (\<lambda>(_, m). accept m (Some msg)) (ms_msgs ms)\<rparr>)
           else if accept msg (ms_leaderMsg ms) then
             (True, [], ms\<lparr>ms_msgs := AList.update repId msg (ms_msgs ms)\<rparr>)
           else (False, [msg], ms))
        in (\<lparr>added = added, freed = freed,
             call = (if Size (ms_q ms) \<le> int (length (ms_msgs ms)) \<or>
                        Size (ms_q ms) - 1 \<le> int (length (ms_msgs ms)) \<and> ms_leaderMsg ms \<noteq> None
                     then Some (ms_leaderMsg ms, map snd (ms_msgs ms)) else None)\<rparr>, ms))"

definition Free :: "'m msgset option \<Rightarrow> 'm list" where
  "Free ms = (case ms of None \<Rightarrow> []
     | Some ms \<Rightarrow> (case ms_leaderMsg ms of None \<Rightarrow> [] | Some m \<Rightarrow> [m]) @ map snd (ms_msgs ms))"

section \<open>Invariant\<close>

text \<open>
  \<open>l\<close> is the replica whose messages are added with \<open>isLeader\<close>, \<open>hist\<close> the messages added so far.
\<close>

definition msgset_inv ::
  "('m \<Rightarrow> 'm option \<Rightarrow> bool) \<Rightarrow> int \<Rightarrow> (int \<times> 'm) set \<Rightarrow> 'm msgset \<Rightarrow> bool" where
  "msgset_inv accept l hist ms \<longleftrightarrow>
     distinct (map fst (ms_msgs ms)) \<and> l \<notin> fst ` set (ms_msgs ms) \<and>
     set (ms_msgs ms) \<subseteq> hist \<and>
     (\<forall>(r, m) \<in> set (ms_msgs ms). Contains (ms_q ms) r \<and> accept m (ms_leaderMsg ms)) \<and>
     (\<forall>m. ms_leaderMsg ms = Some m \<longrightarrow> (l, m) \<in> hist \<and> Contains (ms_q ms) l)"

lemma msgset_inv_New: "msgset_inv accept l hist (NewMsgSet Q)"
  by (simp add: msgset_inv_def NewMsgSet_def)

lemma Reinit_New: "ReinitMsgSet ms Q = (case ms of None \<Rightarrow> NewMsgSet Q
    | Some ms \<Rightarrow> (NewMsgSet Q)\<lparr>ms_q := Q\<rparr>)" for ms :: "'m msgset option"
  by (cases ms) (simp_all add: ReinitMsgSet_def NewMsgSet_def)

lemma Add_q [simp]: "ms_q (snd (Add accept r isL m ms)) = ms_q ms"
  by (simp add: Add_def)

lemma Add_cases:
  obtains (refused) "snd (Add accept r isL m ms) = ms" "call (fst (Add accept r isL m ms)) = None"
      "\<not> added (fst (Add accept r isL m ms))"
    | (stored) ms' where "snd (Add accept r isL m ms) = ms'" "Contains (ms_q ms) r"
      "ms' = (if isL then ms\<lparr>ms_leaderMsg := Some m, ms_msgs := filter (\<lambda>(_, m'). accept m' (Some m)) (ms_msgs ms)\<rparr>
              else if accept m (ms_leaderMsg ms) then ms\<lparr>ms_msgs := AList.update r m (ms_msgs ms)\<rparr> else ms)"
      "call (fst (Add accept r isL m ms)) =
         (if Size (ms_q ms) \<le> int (length (ms_msgs ms')) \<or>
             Size (ms_q ms) - 1 \<le> int (length (ms_msgs ms')) \<and> ms_leaderMsg ms' \<noteq> None
          then Some (ms_leaderMsg ms', map snd (ms_msgs ms')) else None)"
proof (cases "\<not> Contains (ms_q ms) r \<or> ms_leaderMsg ms \<noteq> None \<and> map_of (ms_msgs ms) r \<noteq> None")
  case True
  then show ?thesis by (intro refused) (auto simp: Add_def)
next
  case False
  let ?ms' = "if isL then ms\<lparr>ms_leaderMsg := Some m, ms_msgs := filter (\<lambda>(_, m'). accept m' (Some m)) (ms_msgs ms)\<rparr>
              else if accept m (ms_leaderMsg ms) then ms\<lparr>ms_msgs := AList.update r m (ms_msgs ms)\<rparr> else ms"
  have q: "ms_q ?ms' = ms_q ms" by simp
  have g: "Contains (ms_q ms) r = True" "(ms_leaderMsg ms \<noteq> None \<and> map_of (ms_msgs ms) r \<noteq> None) = False"
    using False by blast+
  have e: "snd (Add accept r isL m ms) = ?ms'"
    unfolding Add_def g by (cases isL; cases "accept m (ms_leaderMsg ms)") simp_all
  have "call (fst (Add accept r isL m ms)) =
         (if Size (ms_q ?ms') \<le> int (length (ms_msgs ?ms')) \<or>
             Size (ms_q ?ms') - 1 \<le> int (length (ms_msgs ?ms')) \<and> ms_leaderMsg ?ms' \<noteq> None
          then Some (ms_leaderMsg ?ms', map snd (ms_msgs ?ms')) else None)"
    unfolding Add_def g by (cases isL; cases "accept m (ms_leaderMsg ms)") simp_all
  with q e g show ?thesis by (intro stored [of ?ms']) simp_all
qed

lemma Add_inv:
  assumes "msgset_inv accept l hist ms" "isL \<longleftrightarrow> r = l"
  shows "msgset_inv accept l (insert (r, m) hist) (snd (Add accept r isL m ms))"
proof (cases rule: Add_cases [of accept r isL m ms])
  case refused
  with assms(1) show ?thesis by (auto simp: msgset_inv_def)
next
  case (stored ms')
  have d: "distinct (map fst (AList.update r m (ms_msgs ms)))"
    using assms(1) by (simp add: msgset_inv_def distinct_update)
  have s: "set (AList.update r m (ms_msgs ms)) \<subseteq> insert (r, m) (set (ms_msgs ms))"
  proof
    fix x assume "x \<in> set (AList.update r m (ms_msgs ms))"
    moreover obtain a b where "x = (a, b)" by fastforce
    ultimately have "map_of (AList.update r m (ms_msgs ms)) a = Some b" using d by simp
    then have "x = (r, m) \<or> map_of (ms_msgs ms) a = Some b"
      using \<open>x = (a, b)\<close> by (simp add: update_conv' split: if_splits)
    then show "x \<in> insert (r, m) (set (ms_msgs ms))"
      using \<open>x = (a, b)\<close> map_of_SomeD by fastforce
  qed
  show ?thesis
    unfolding stored(1) stored(3)
    using assms stored(2) d s distinct_fst_filter [of "ms_msgs ms"]
    by (auto simp: msgset_inv_def split: if_splits)
qed

text \<open>A call of the handler is backed by a quorum: the replicas whose messages are in the set.\<close>

definition backed ::
  "('m \<Rightarrow> 'm option \<Rightarrow> bool) \<Rightarrow> quorum \<Rightarrow> int \<Rightarrow> (int \<times> 'm) set \<Rightarrow> 'm option \<times> 'm list \<Rightarrow> bool" where
  "backed accept Q l hist c \<longleftrightarrow>
     (case c of (lm, msgs) \<Rightarrow>
        (\<forall>m \<in> set msgs. accept m lm) \<and>
        (\<exists>S. finite S \<and> (\<forall>r \<in> S. Contains Q r) \<and> Size Q \<le> int (card S) \<and>
           (\<forall>r \<in> S. \<exists>m. (r, m) \<in> hist \<and> (m \<in> set msgs \<or> r = l \<and> lm = Some m))))"

lemma Add_call:
  assumes "msgset_inv accept l hist ms" "isL \<longleftrightarrow> r = l"
    and c: "call (fst (Add accept r isL m ms)) = Some c"
  shows "backed accept (ms_q ms) l (insert (r, m) hist) c"
proof (cases rule: Add_cases [of accept r isL m ms])
  case refused
  with c show ?thesis by simp
next
  case (stored ms')
  have inv: "msgset_inv accept l (insert (r, m) hist) ms'"
    using Add_inv [OF assms(1,2), of m] stored(1) by simp
  have q: "ms_q ms' = ms_q ms" using stored(1) Add_q by metis
  have c: "c = (ms_leaderMsg ms', map snd (ms_msgs ms'))"
    and size: "Size (ms_q ms) \<le> int (length (ms_msgs ms')) \<or>
             Size (ms_q ms) - 1 \<le> int (length (ms_msgs ms')) \<and> ms_leaderMsg ms' \<noteq> None"
    using c stored(4) by (auto split: if_splits)
  let ?K = "fst ` set (ms_msgs ms')"
  let ?S = "if ms_leaderMsg ms' = None then ?K else insert l ?K"
  have "distinct (map fst (ms_msgs ms'))" using inv by (simp add: msgset_inv_def)
  then have "card ?K = length (ms_msgs ms')" by (metis distinct_card length_map set_map)
  moreover have "l \<notin> ?K" using inv by (simp add: msgset_inv_def)
  ultimately have "Size (ms_q ms) \<le> int (card ?S)" using size by auto
  moreover have "\<forall>r' \<in> ?S. Contains (ms_q ms) r' \<and>
      (\<exists>m'. (r', m') \<in> insert (r, m) hist \<and> (m' \<in> set (map snd (ms_msgs ms')) \<or> r' = l \<and> ms_leaderMsg ms' = Some m'))"
  proof
    fix r' assume "r' \<in> ?S"
    then consider m' where "(r', m') \<in> set (ms_msgs ms')" | "r' = l" "ms_leaderMsg ms' \<noteq> None"
      by (auto split: if_splits)
    then show "Contains (ms_q ms) r' \<and> (\<exists>m'. (r', m') \<in> insert (r, m) hist \<and>
        (m' \<in> set (map snd (ms_msgs ms')) \<or> r' = l \<and> ms_leaderMsg ms' = Some m'))"
    proof cases
      case 1
      moreover from this have "m' \<in> set (map snd (ms_msgs ms'))" by force
      moreover have "(r', m') \<in> insert (r, m) hist" "Contains (ms_q ms) r'"
        using inv q \<open>(r', m') \<in> set (ms_msgs ms')\<close> unfolding msgset_inv_def by auto
      ultimately show ?thesis by blast
    next
      case 2
      then show ?thesis using inv q unfolding msgset_inv_def by auto
    qed
  qed
  moreover have "\<forall>m' \<in> set (map snd (ms_msgs ms')). accept m' (ms_leaderMsg ms')"
    using inv by (auto simp: msgset_inv_def)
  moreover have "finite ?S" by simp
  ultimately show ?thesis unfolding backed_def c prod.case by blast
qed

text \<open>
  A call with a message of the leader: the leader and a quorum, of which each other member sent a message that is accepted.
\<close>

lemma Add_leader_quorum:
  assumes "msgset_inv accept l hist ms" "isL \<longleftrightarrow> r = l" "(r, m) \<in> hist"
    and c: "call (fst (Add accept r isL m ms)) = Some (Some lm, msgs)"
  shows "(l, lm) \<in> hist \<and> (\<exists>S. finite S \<and> l \<in> S \<and> Size (ms_q ms) \<le> int (card S) \<and>
    (\<forall>p \<in> S - {l}. \<exists>m'. (p, m') \<in> hist \<and> accept m' (Some lm)))"
proof -
  have hist: "insert (r, m) hist = hist" using assms(3) by blast
  have "msgset_inv accept l hist (snd (Add accept r isL m ms))"
    using Add_inv [OF assms(1,2), of m] by (simp only: hist)
  moreover have "ms_leaderMsg (snd (Add accept r isL m ms)) = Some lm"
    using c by (cases rule: Add_cases [of accept r isL m ms]) (auto split: if_splits)
  ultimately have l: "(l, lm) \<in> hist" by (simp add: msgset_inv_def)
  have "backed accept (ms_q ms) l hist (Some lm, msgs)"
    using Add_call [OF assms(1,2) c] by (simp only: hist)
  then obtain S where S: "finite S" "Size (ms_q ms) \<le> int (card S)" and a: "\<forall>m \<in> set msgs. accept m (Some lm)"
    and h: "\<forall>p \<in> S. \<exists>m. (p, m) \<in> hist \<and> (m \<in> set msgs \<or> p = l \<and> Some lm = Some m)"
    unfolding backed_def prod.case by (elim conjE exE) (rule that; assumption)
  have "\<forall>p \<in> insert l S - {l}. \<exists>m'. (p, m') \<in> hist \<and> accept m' (Some lm)" using a h by blast
  moreover have "card S \<le> card (insert l S)" by (simp add: card_insert_le)
  ultimately show ?thesis using l S by (intro conjI exI [of _ "insert l S"]) simp_all
qed

section \<open>Runs\<close>

text \<open>Messages added one after the other, and the calls of the handler they cause.\<close>

fun Add_all ::
  "('m \<Rightarrow> 'm option \<Rightarrow> bool) \<Rightarrow> int \<Rightarrow> (int \<times> 'm) list \<Rightarrow> 'm msgset \<Rightarrow> ('m option \<times> 'm list) list \<times> 'm msgset" where
  "Add_all accept l [] ms = ([], ms)"
| "Add_all accept l ((r, m) # adds) ms =
     (let (res, ms) = Add accept r (r = l) m ms; (calls, ms) = Add_all accept l adds ms
      in (case call res of None \<Rightarrow> calls | Some c \<Rightarrow> c # calls, ms))"

lemma backed_mono:
  assumes "backed accept Q l hist c" "hist \<subseteq> hist'"
  shows "backed accept Q l hist' c"
proof -
  obtain lm msgs where c: "c = (lm, msgs)" by fastforce
  from assms(1) obtain S where S: "\<forall>m \<in> set msgs. accept m lm" "finite S" "\<forall>r \<in> S. Contains Q r"
      "Size Q \<le> int (card S)" "\<forall>r \<in> S. \<exists>m. (r, m) \<in> hist \<and> (m \<in> set msgs \<or> r = l \<and> lm = Some m)"
    unfolding backed_def c prod.case by blast
  from S(5) assms(2) have "\<forall>r \<in> S. \<exists>m. (r, m) \<in> hist' \<and> (m \<in> set msgs \<or> r = l \<and> lm = Some m)"
    by (meson subsetD)
  with S(1-4) show ?thesis unfolding backed_def c prod.case by blast
qed

lemma Add_all_calls:
  assumes "msgset_inv accept l hist ms" "c \<in> set (fst (Add_all accept l adds ms))"
  shows "backed accept (ms_q ms) l (hist \<union> set adds) c"
  using assms
proof (induction adds arbitrary: ms hist)
  case Nil
  then show ?case by simp
next
  case (Cons a adds)
  obtain r m where a: "a = (r, m)" by fastforce
  let ?res = "fst (Add accept r (r = l) m ms)" and ?ms = "snd (Add accept r (r = l) m ms)"
  have inv: "msgset_inv accept l (insert (r, m) hist) ?ms" using Cons.prems(1) by (rule Add_inv) simp
  have "fst (Add_all accept l (a # adds) ms) =
      (case call ?res of None \<Rightarrow> fst (Add_all accept l adds ?ms)
       | Some c \<Rightarrow> c # fst (Add_all accept l adds ?ms))"
    by (simp add: a split_beta Let_def)
  then have "c \<in> set (fst (Add_all accept l adds ?ms)) \<or> call ?res = Some c"
    using Cons.prems(2) by (auto split: option.splits)
  then show ?case
  proof
    assume "c \<in> set (fst (Add_all accept l adds ?ms))"
    from Cons.IH [OF inv this] show ?thesis by (simp add: a)
  next
    assume "call ?res = Some c"
    with Add_call [OF Cons.prems(1)] have "backed accept (ms_q ms) l (insert (r, m) hist) c" by simp
    then show ?thesis by (rule backed_mono) (auto simp: a)
  qed
qed



end
