(* ===== verification/Hook.thy ===== *)
theory Hook
  imports Prelude
begin

text \<open>
  Conditional calls (\<open>hook/cond.go\<close>): \<open>CondF\<close> keeps the functions that wait for a condition as one
  composed closure, \<open>OptCondF\<close> as a reused array of functions.

  The functions and the conditions act on a state \<open>'s\<close> of the program.  Functions that call methods
  of the object they wait on are not modelled.
\<close>

record 's CondF =
  cf_cond :: "'s \<Rightarrow> bool"
  cf_fun :: "'s \<Rightarrow> 's"
  cf_wanna :: bool

definition NewCondF :: "('s \<Rightarrow> bool) \<Rightarrow> 's CondF" where
  "NewCondF cond = \<lparr>cf_cond = cond, cf_fun = (\<lambda>s. s), cf_wanna = False\<rparr>"

definition ReinitCondF :: "'s CondF option \<Rightarrow> ('s \<Rightarrow> bool) \<Rightarrow> 's CondF" where
  "ReinitCondF cf cond =
     (case cf of None \<Rightarrow> NewCondF cond
      | Some cf \<Rightarrow> cf\<lparr>cf_cond := cond, cf_fun := (\<lambda>s. s), cf_wanna := False\<rparr>)"

definition Call :: "('s \<Rightarrow> 's) \<Rightarrow> 's CondF \<times> 's \<Rightarrow> bool \<times> 's CondF \<times> 's" where
  "Call f = (\<lambda>(cf, s).
     if cf_cond cf s then
       let (cf, s) = (if cf_wanna cf then (cf\<lparr>cf_wanna := False\<rparr>, cf_fun cf s) else (cf, s));
           cf = cf\<lparr>cf_wanna := False\<rparr>;
           s = f s
       in (True, cf\<lparr>cf_fun := (\<lambda>s. s)\<rparr>, s)
     else
       let oldFun = cf_fun cf
       in (False, cf\<lparr>cf_fun := (\<lambda>s. f (oldFun s)), cf_wanna := True\<rparr>, s))"

definition Recall :: "'s CondF \<times> 's \<Rightarrow> bool \<times> 's CondF \<times> 's" where
  "Recall = (\<lambda>(cf, s).
     if cf_wanna cf \<and> cf_cond cf s then
       let cf = cf\<lparr>cf_wanna := False\<rparr>; s = cf_fun cf s
       in (True, cf\<lparr>cf_fun := (\<lambda>s. s)\<rparr>, s)
     else (False, cf, s))"

definition AndCond :: "('s \<Rightarrow> bool) \<Rightarrow> 's CondF \<Rightarrow> 's CondF" where
  "AndCond cond cf = (let oldCond = cf_cond cf in cf\<lparr>cf_cond := (\<lambda>s. oldCond s \<and> cond s)\<rparr>)"

definition OrCond :: "('s \<Rightarrow> bool) \<Rightarrow> 's CondF \<Rightarrow> 's CondF" where
  "OrCond cond cf = (let oldCond = cf_cond cf in cf\<lparr>cf_cond := (\<lambda>s. oldCond s \<or> cond s)\<rparr>)"

record 's OptCondF =
  ocf_cond :: "'s \<Rightarrow> bool"
  ocf_funs :: "('s \<Rightarrow> 's) list"
  ocf_funs_num :: nat

definition NewOptCondF :: "('s \<Rightarrow> bool) \<Rightarrow> 's OptCondF" where
  "NewOptCondF cond = \<lparr>ocf_cond = cond, ocf_funs = [], ocf_funs_num = 0\<rparr>"

definition ReinitOptCondF :: "'s OptCondF option \<Rightarrow> ('s \<Rightarrow> bool) \<Rightarrow> 's OptCondF" where
  "ReinitOptCondF cf cond =
     (case cf of None \<Rightarrow> NewOptCondF cond
      | Some cf \<Rightarrow> cf\<lparr>ocf_cond := cond, ocf_funs_num := 0\<rparr>)"

definition run_funs :: "'s OptCondF \<Rightarrow> 's \<Rightarrow> 's" where
  "run_funs cf s = fold (\<lambda>i. ocf_funs cf ! i) [0..<ocf_funs_num cf] s"

definition OptCall :: "('s \<Rightarrow> 's) \<Rightarrow> 's OptCondF \<times> 's \<Rightarrow> bool \<times> 's OptCondF \<times> 's" where
  "OptCall f = (\<lambda>(cf, s).
     if ocf_cond cf s then
       let s = run_funs cf s; s = f s in (True, cf\<lparr>ocf_funs_num := 0\<rparr>, s)
     else
       let cf = (if length (ocf_funs cf) \<le> ocf_funs_num cf
                 then cf\<lparr>ocf_funs := ocf_funs cf @ [f]\<rparr>
                 else cf\<lparr>ocf_funs := (ocf_funs cf)[ocf_funs_num cf := f]\<rparr>)
       in (False, cf\<lparr>ocf_funs_num := ocf_funs_num cf + 1\<rparr>, s))"

definition OptRecall :: "'s OptCondF \<times> 's \<Rightarrow> bool \<times> 's OptCondF \<times> 's" where
  "OptRecall = (\<lambda>(cf, s).
     if 0 < ocf_funs_num cf \<and> ocf_cond cf s then
       let s = run_funs cf s in (True, cf\<lparr>ocf_funs_num := 0\<rparr>, s)
     else (False, cf, s))"

section \<open>The contract\<close>

text \<open>
  Abstractly, the object is the list of the functions that wait: a call or recall with the
  condition true runs them in the order of the calls, then forgets them.
\<close>

datatype 's operation = CallOp "'s \<Rightarrow> 's" | RecallOp | ReinitOp "'s \<Rightarrow> bool" | Outside "'s \<Rightarrow> 's"

fun abstract_op :: "'s operation \<Rightarrow> ('s \<Rightarrow> bool) \<times> ('s \<Rightarrow> 's) list \<times> 's \<Rightarrow> bool \<times> ('s \<Rightarrow> bool) \<times> ('s \<Rightarrow> 's) list \<times> 's" where
  "abstract_op (CallOp f) (cond, fs, s) =
     (if cond s then (True, cond, [], f (fold (\<lambda>f. f) fs s)) else (False, cond, fs @ [f], s))"
| "abstract_op RecallOp (cond, fs, s) =
     (if fs \<noteq> [] \<and> cond s then (True, cond, [], fold (\<lambda>f. f) fs s) else (False, cond, fs, s))"
| "abstract_op (ReinitOp cond') (cond, fs, s) = (True, cond', [], s)"
| "abstract_op (Outside g) (cond, fs, s) = (True, cond, fs, g s)"

fun cond_op :: "'s operation \<Rightarrow> 's CondF \<times> 's \<Rightarrow> bool \<times> 's CondF \<times> 's" where
  "cond_op (CallOp f) x = Call f x"
| "cond_op RecallOp x = Recall x"
| "cond_op (ReinitOp cond) (cf, s) = (True, ReinitCondF (Some cf) cond, s)"
| "cond_op (Outside g) (cf, s) = (True, cf, g s)"

fun optcond_op :: "'s operation \<Rightarrow> 's OptCondF \<times> 's \<Rightarrow> bool \<times> 's OptCondF \<times> 's" where
  "optcond_op (CallOp f) x = OptCall f x"
| "optcond_op RecallOp x = OptRecall x"
| "optcond_op (ReinitOp cond) (cf, s) = (True, ReinitOptCondF (Some cf) cond, s)"
| "optcond_op (Outside g) (cf, s) = (True, cf, g s)"

fun run_ops :: "('op \<Rightarrow> 'x \<Rightarrow> bool \<times> 'x) \<Rightarrow> 'op list \<Rightarrow> 'x \<Rightarrow> bool list \<times> 'x" where
  "run_ops step [] x = ([], x)"
| "run_ops step (op # ops) x =
     (let (b, x) = step op x; (bs, x) = run_ops step ops x in (b # bs, x))"

text \<open>An implementation of the contract: its abstraction commutes with every operation.\<close>

locale conditional_call =
  fixes step :: "'s operation \<Rightarrow> 'c \<times> 's \<Rightarrow> bool \<times> 'c \<times> 's"
    and init :: "('s \<Rightarrow> bool) \<Rightarrow> 'c"
    and rel :: "'c \<Rightarrow> ('s \<Rightarrow> bool) \<Rightarrow> ('s \<Rightarrow> 's) list \<Rightarrow> bool"
  assumes init_rel: "rel (init cond) cond []"
    and step_rel: "rel c cond fs \<Longrightarrow> step op (c, s) = (b, c', s') \<Longrightarrow>
      \<exists>cond' fs'. abstract_op op (cond, fs, s) = (b, cond', fs', s') \<and> rel c' cond' fs'"
begin

lemma run_rel:
  assumes "rel c cond fs"
  shows "\<exists>cond' fs'. fst (run_ops abstract_op ops (cond, fs, s)) = fst (run_ops step ops (c, s)) \<and>
    snd (run_ops abstract_op ops (cond, fs, s)) = (cond', fs', snd (snd (run_ops step ops (c, s)))) \<and>
    rel (fst (snd (run_ops step ops (c, s)))) cond' fs'"
  using assms
proof (induction ops arbitrary: c cond fs s)
  case Nil
  then show ?case by simp
next
  case (Cons op ops)
  obtain b c' s' where st: "step op (c, s) = (b, c', s')" by (cases "step op (c, s)") auto
  from step_rel [OF Cons.prems st] obtain cond' fs' where
    ab: "abstract_op op (cond, fs, s) = (b, cond', fs', s')" and r: "rel c' cond' fs'" by auto
  from Cons.IH [OF r, of s'] st ab show ?case by (simp add: split_beta Let_def)
qed

lemma run_abstract:
  "fst (run_ops step ops (init cond, s)) = fst (run_ops abstract_op ops (cond, [], s)) \<and>
   snd (snd (run_ops step ops (init cond, s))) = snd (snd (snd (run_ops abstract_op ops (cond, [], s))))"
  using run_rel [OF init_rel, of ops cond s] by auto

end

definition cond_rel :: "'s CondF \<Rightarrow> ('s \<Rightarrow> bool) \<Rightarrow> ('s \<Rightarrow> 's) list \<Rightarrow> bool" where
  "cond_rel cf cond fs \<longleftrightarrow> cf_cond cf = cond \<and> cf_fun cf = fold (\<lambda>f. f) fs \<and> (cf_wanna cf \<longleftrightarrow> fs \<noteq> [])"

definition optcond_rel :: "'s OptCondF \<Rightarrow> ('s \<Rightarrow> bool) \<Rightarrow> ('s \<Rightarrow> 's) list \<Rightarrow> bool" where
  "optcond_rel cf cond fs \<longleftrightarrow> ocf_cond cf = cond \<and> ocf_funs_num cf \<le> length (ocf_funs cf) \<and>
     take (ocf_funs_num cf) (ocf_funs cf) = fs"

lemma fold_id_snoc: "fold (\<lambda>f. f) (fs @ [f]) = (\<lambda>s. f (fold (\<lambda>f. f) fs s))"
  by (rule ext) simp

interpretation condf: conditional_call cond_op NewCondF cond_rel
proof
  fix cond show "cond_rel (NewCondF cond) cond []"
    by (simp add: cond_rel_def NewCondF_def id_def)
next
  fix c :: "'s CondF" and cond fs op s b c' s'
  assume r: "cond_rel c cond fs" and st: "cond_op op (c, s) = (b, c', s')"
  show "\<exists>cond' fs'. abstract_op op (cond, fs, s) = (b, cond', fs', s') \<and> cond_rel c' cond' fs'"
  proof (cases op)
    case (CallOp f)
    with r st show ?thesis
      by (cases "cond s"; cases "fs = []")
        (auto simp: Call_def cond_rel_def Let_def fold_id_snoc id_def)
  next
    case RecallOp
    with r st show ?thesis
      by (auto simp: Recall_def cond_rel_def Let_def id_def split: if_splits)
  next
    case (ReinitOp x)
    with r st show ?thesis by (auto simp: ReinitCondF_def cond_rel_def id_def)
  next
    case (Outside x)
    with r st show ?thesis by (auto simp: cond_rel_def)
  qed
qed

lemma run_funs_take:
  assumes "ocf_funs_num cf \<le> length (ocf_funs cf)"
  shows "run_funs cf = fold (\<lambda>f. f) (take (ocf_funs_num cf) (ocf_funs cf))"
proof -
  have "take (ocf_funs_num cf) (ocf_funs cf) = map (\<lambda>i. ocf_funs cf ! i) [0..<ocf_funs_num cf]"
    using assms by (simp add: list_eq_iff_nth_eq)
  then show ?thesis by (intro ext) (simp add: run_funs_def fold_map o_def)
qed

interpretation optcondf: conditional_call optcond_op NewOptCondF optcond_rel
proof
  fix cond show "optcond_rel (NewOptCondF cond) cond []"
    by (simp add: optcond_rel_def NewOptCondF_def)
next
  fix c :: "'s OptCondF" and cond fs op s b c' s'
  assume r: "optcond_rel c cond fs" and st: "optcond_op op (c, s) = (b, c', s')"
  then have run: "run_funs c = fold (\<lambda>f. f) fs" by (simp add: run_funs_take optcond_rel_def)
  show "\<exists>cond' fs'. abstract_op op (cond, fs, s) = (b, cond', fs', s') \<and> optcond_rel c' cond' fs'"
  proof (cases op)
    case (CallOp f)
    with r st run show ?thesis
      by (cases "cond s"; cases "length (ocf_funs c) \<le> ocf_funs_num c")
        (auto simp: OptCall_def optcond_rel_def Let_def take_Suc_conv_app_nth)
  next
    case RecallOp
    with r st run show ?thesis
      by (cases "cond s"; cases "ocf_funs_num c = 0") (auto simp: OptRecall_def optcond_rel_def Let_def)
  next
    case (ReinitOp x)
    with r st show ?thesis by (auto simp: ReinitOptCondF_def optcond_rel_def)
  next
    case (Outside x)
    with r st show ?thesis by (auto simp: optcond_rel_def)
  qed
qed


text \<open>
  Functions called while the condition is false run once, in the order of the calls, at the
  first recall with the condition true, and a second recall runs nothing.
\<close>

theorem CondF_runs_pending_in_order:
  assumes "\<not> cond s" "cond (g s)" "fs \<noteq> []"
  shows "snd (snd (run_ops cond_op (map CallOp fs @ [Outside g, RecallOp, RecallOp]) (NewCondF cond, s)))
       = fold (\<lambda>f. f) fs (g s)"
proof -
  have calls: "run_ops abstract_op (map CallOp fs @ ops) (cond, pre, s)
      = (replicate (length fs) False @ fst (run_ops abstract_op ops (cond, pre @ fs, s)),
         snd (run_ops abstract_op ops (cond, pre @ fs, s)))" for pre ops
    using assms(1) by (induction fs arbitrary: pre) (simp_all add: split_beta Let_def)
  show ?thesis
    unfolding condf.run_abstract [THEN conjunct2] calls using assms by simp
qed

theorem CondF_runs_pending_in_order_witness:
  "snd (snd (run_ops cond_op (map CallOp [\<lambda>s. s + 1, \<lambda>s. 2 * s] @ [Outside (\<lambda>s. s + 10), RecallOp, RecallOp])
     (NewCondF (\<lambda>s. 10 \<le> s), 0 :: nat))) = 22"
  using CondF_runs_pending_in_order [of "\<lambda>s. 10 \<le> s" "0 :: nat" "\<lambda>s. s + 10" "[\<lambda>s. s + 1, \<lambda>s. 2 * s]"] by simp

end
