(* ===== verification/KeyInfo.thy ===== *)
theory KeyInfo
  imports Ids
begin

text \<open>
  Conflicts per key (\<open>swift/key.go\<close>): the interface \<open>keyInfo\<close>, its two implementations, and the keys a
  command touches.  \<open>fullKeyInfo\<close> keeps the last command and the last write of every client, in
  arrays indexed by client; \<open>lightKeyInfo\<close> keeps the last command and the last write.
\<close>

section \<open>The keys of a command\<close>

text \<open>
  \<open>None\<close> is a panic: a value shorter than eight bytes, or a count that \<open>make\<close> does not accept
  (more than \<open>2 ^ 63\<close> as \<open>int\<close>).
\<close>

definition keysOf :: "command \<Rightarrow> key list option" where
  "keysOf cmd =
     (if Op cmd = SCAN then
        do { count \<leftarrow> Uint64 (V cmd);
             if 2 ^ 63 \<le> count then None
             else Some (map (\<lambda>i. wrap64 (K cmd + i)) [0..count - 1]) }
      else Some [K cmd])"

section \<open>Full key information\<close>

record fullKeyInfo =
  clientLastWrite :: "CommandId list"
  clientLastCmd :: "CommandId list"
  lastWriteIndex :: "int \<Rightarrow> nat option"
  lastCmdIndex :: "int \<Rightarrow> nat option"

definition newFullKeyInfo :: fullKeyInfo where
  "newFullKeyInfo = \<lparr>clientLastWrite = [], clientLastCmd = [], lastWriteIndex = Map.empty, lastCmdIndex = Map.empty\<rparr>"

text \<open>The code of \<open>add\<close> and \<open>remove\<close> for one array and its index.\<close>

definition index_add :: "CommandId \<Rightarrow> CommandId list \<times> (int \<Rightarrow> nat option) \<Rightarrow> CommandId list \<times> (int \<Rightarrow> nat option)" where
  "index_add cmdId = (\<lambda>(arr, index).
     case index (ClientId cmdId) of
       Some i \<Rightarrow> (arr[i := cmdId], index)
     | None \<Rightarrow> (arr @ [cmdId], index(ClientId cmdId \<mapsto> length arr)))"

definition index_remove :: "CommandId \<Rightarrow> CommandId list \<times> (int \<Rightarrow> nat option) \<Rightarrow> CommandId list \<times> (int \<Rightarrow> nat option)" where
  "index_remove cmdId = (\<lambda>(arr, index).
     case index (ClientId cmdId) of
       Some i \<Rightarrow>
         let lastIndex = length arr - 1; lastId = arr ! lastIndex;
             index = index(ClientId lastId \<mapsto> i);
             arr = take lastIndex (arr[i := lastId])
         in (arr, index(ClientId cmdId := None))
     | None \<Rightarrow> (arr, index))"

definition full_add :: "command \<Rightarrow> CommandId \<Rightarrow> fullKeyInfo \<Rightarrow> fullKeyInfo" where
  "full_add cmd cmdId ki =
     (let (arr, index) = index_add cmdId (clientLastCmd ki, lastCmdIndex ki);
          ki = ki\<lparr>clientLastCmd := arr, lastCmdIndex := index\<rparr>
      in if Op cmd = PUT then
           let (arr, index) = index_add cmdId (clientLastWrite ki, lastWriteIndex ki)
           in ki\<lparr>clientLastWrite := arr, lastWriteIndex := index\<rparr>
         else ki)"

definition full_remove :: "command \<Rightarrow> CommandId \<Rightarrow> fullKeyInfo \<Rightarrow> fullKeyInfo" where
  "full_remove cmd cmdId ki =
     (let (arr, index) = index_remove cmdId (clientLastCmd ki, lastCmdIndex ki);
          ki = ki\<lparr>clientLastCmd := arr, lastCmdIndex := index\<rparr>
      in if Op cmd = PUT then
           let (arr, index) = index_remove cmdId (clientLastWrite ki, lastWriteIndex ki)
           in ki\<lparr>clientLastWrite := arr, lastWriteIndex := index\<rparr>
         else ki)"

definition full_getConflictCmds :: "command \<Rightarrow> fullKeyInfo \<Rightarrow> CommandId list" where
  "full_getConflictCmds cmd ki = (if Op cmd = GET then clientLastWrite ki else clientLastCmd ki)"

section \<open>Light key information\<close>

record lightKeyInfo =
  lastWrite :: "CommandId list"
  lastCmd :: "CommandId list"

definition newLightKeyInfo :: lightKeyInfo where
  "newLightKeyInfo = \<lparr>lastWrite = [], lastCmd = []\<rparr>"

definition light_add :: "command \<Rightarrow> CommandId \<Rightarrow> lightKeyInfo \<Rightarrow> lightKeyInfo" where
  "light_add cmd cmdId ki =
     (let ki = ki\<lparr>lastCmd := [cmdId]\<rparr>
      in if Op cmd = PUT then ki\<lparr>lastWrite := [cmdId]\<rparr> else ki)"

definition light_remove :: "command \<Rightarrow> CommandId \<Rightarrow> lightKeyInfo \<Rightarrow> lightKeyInfo" where
  "light_remove cmd cmdId ki =
     (let ki = (if lastCmd ki \<noteq> [] \<and> lastCmd ki ! 0 = cmdId then ki\<lparr>lastCmd := []\<rparr> else ki)
      in if lastWrite ki \<noteq> [] \<and> lastWrite ki ! 0 = cmdId then ki\<lparr>lastWrite := []\<rparr> else ki)"

definition light_getConflictCmds :: "command \<Rightarrow> lightKeyInfo \<Rightarrow> CommandId list" where
  "light_getConflictCmds cmd ki = (if Op cmd = GET then lastWrite ki else lastCmd ki)"

section \<open>The interface\<close>

text \<open>
  What \<open>keyInfo\<close> promises a replica that computes dependencies: the command added last is a conflict
  of every command it does not commute with as a read, and nothing but added commands is reported.
\<close>

locale keyInfo =
  fixes add :: "command \<Rightarrow> CommandId \<Rightarrow> 'k \<Rightarrow> 'k"
    and remove :: "command \<Rightarrow> CommandId \<Rightarrow> 'k \<Rightarrow> 'k"
    and conflicts :: "command \<Rightarrow> 'k \<Rightarrow> CommandId list"
    and new :: 'k
    and inv :: "'k \<Rightarrow> bool"
  assumes inv_new: "inv new"
    and inv_add: "inv ki \<Longrightarrow> inv (add cmd cmdId ki)"
    and inv_remove: "inv ki \<Longrightarrow> inv (remove cmd cmdId ki)"
    and conflicts_new: "conflicts cmd new = []"
    and conflicts_add: "inv ki \<Longrightarrow> set (conflicts cmd' (add cmd cmdId ki)) \<subseteq> insert cmdId (set (conflicts cmd' ki))"
    and conflicts_remove: "inv ki \<Longrightarrow> set (conflicts cmd' (remove cmd cmdId ki)) \<subseteq> set (conflicts cmd' ki)"
    and add_conflicts: "inv ki \<Longrightarrow> Op cmd' \<noteq> GET \<or> Op cmd = PUT \<Longrightarrow> cmdId \<in> set (conflicts cmd' (add cmd cmdId ki))"
begin

text \<open>A history adds commands (\<open>True\<close>) and removes them.\<close>

lemma conflicts_history:
  assumes "inv ki"
  shows "inv (fold (\<lambda>(b, cmd, c) ki. if b then add cmd c ki else remove cmd c ki) hist ki) \<and>
    set (conflicts cmd' (fold (\<lambda>(b, cmd, c) ki. if b then add cmd c ki else remove cmd c ki) hist ki))
      \<subseteq> set (conflicts cmd' ki) \<union> {c. \<exists>cmd. (True, cmd, c) \<in> set hist}"
  using assms
proof (induction hist arbitrary: ki)
  case Nil
  then show ?case by simp
next
  case (Cons x hist)
  obtain b cmd c where x: "x = (b, cmd, c)" by (cases x) auto
  let ?ki = "if b then add cmd c ki else remove cmd c ki"
  have inv: "inv ?ki" using inv_add inv_remove Cons.prems by simp
  have sub: "set (conflicts cmd' ?ki) \<subseteq> set (conflicts cmd' ki) \<union> (if b then {c} else {})"
    using conflicts_add [OF Cons.prems, of cmd' cmd c] conflicts_remove [OF Cons.prems, of cmd' cmd c] by auto
  from Cons.IH [OF inv] sub show ?case by (auto simp: x split: if_splits)
qed

lemma last_added_conflicts:
  assumes "Op cmd' \<noteq> GET \<or> Op cmd = PUT"
  shows "cmdId \<in> set (conflicts cmd' (add cmd cmdId
    (fold (\<lambda>(b, cmd, c) ki. if b then add cmd c ki else remove cmd c ki) hist new)))"
  using add_conflicts conflicts_history [OF inv_new] assms by blast

end

interpretation light: keyInfo light_add light_remove light_getConflictCmds newLightKeyInfo "\<lambda>_. True"
  by unfold_locales
    (auto simp: light_add_def light_remove_def light_getConflictCmds_def newLightKeyInfo_def Let_def)

section \<open>The arrays of \<open>fullKeyInfo\<close>\<close>

text \<open>
  Abstractly, an array and its index are a map from clients to commands.  The invariant: the index
  of a client is the position of its only command.
\<close>

definition index_ok :: "CommandId list \<times> (int \<Rightarrow> nat option) \<Rightarrow> bool" where
  "index_ok = (\<lambda>(arr, index). \<forall>c i. index c = Some i \<longleftrightarrow> i < length arr \<and> ClientId (arr ! i) = c)"

definition index_abs :: "CommandId list \<times> (int \<Rightarrow> nat option) \<Rightarrow> int \<Rightarrow> CommandId option" where
  "index_abs = (\<lambda>(arr, index) c. map_option (\<lambda>i. arr ! i) (index c))"

lemma index_ok_empty: "index_ok ([], Map.empty)"
  by (simp add: index_ok_def)

lemma index_set: "index_ok (arr, index) \<Longrightarrow> set arr = {x. \<exists>c. index_abs (arr, index) c = Some x}"
  by (auto simp: index_ok_def index_abs_def in_set_conv_nth)

lemma index_same: "index_ok (arr, index) \<Longrightarrow> i < length arr \<Longrightarrow> j < length arr \<Longrightarrow>
    ClientId (arr ! i) = ClientId (arr ! j) \<Longrightarrow> i = j"
  unfolding index_ok_def by (metis (mono_tags, lifting) case_prodD option.inject)

lemma index_add_ok:
  assumes "index_ok x"
  shows "index_ok (index_add cmdId x) \<and> index_abs (index_add cmdId x) = (index_abs x)(ClientId cmdId \<mapsto> cmdId)"
proof -
  obtain arr index where x: "x = (arr, index)" by fastforce
  have ok: "index c = Some i \<longleftrightarrow> i < length arr \<and> ClientId (arr ! i) = c" for c i
    using assms by (simp add: index_ok_def x)
  show ?thesis
  proof (cases "index (ClientId cmdId)")
    case None
    then have "\<forall>i < length arr. ClientId (arr ! i) \<noteq> ClientId cmdId" using ok by (metis option.simps(3))
    then have "index_ok (index_add cmdId x)"
      using None ok by (auto simp: x index_add_def index_ok_def nth_append less_Suc_eq)
    moreover have "index_abs (index_add cmdId x) c = ((index_abs x)(ClientId cmdId \<mapsto> cmdId)) c" for c
      using None ok [of c] by (cases "index c") (auto simp: x index_add_def index_abs_def nth_append)
    ultimately show ?thesis by (auto simp: fun_eq_iff)
  next
    case (Some i)
    then have i: "i < length arr" "ClientId (arr ! i) = ClientId cmdId" using ok by auto
    have r: "index_add cmdId x = (arr[i := cmdId], index)" using Some by (simp add: x index_add_def)
    have cid: "ClientId (arr[i := cmdId] ! j) = ClientId (arr ! j)" for j
      using i by (cases "j = i") simp_all
    have "index_ok (index_add cmdId x)" using assms unfolding r by (simp add: x index_ok_def cid)
    moreover have "index_abs (index_add cmdId x) c = ((index_abs x)(ClientId cmdId \<mapsto> cmdId)) c" for c
    proof (cases "c = ClientId cmdId")
      case True
      then show ?thesis using Some i by (simp add: r index_abs_def)
    next
      case False
      show ?thesis
      proof (cases "index c")
        case (Some j)
        then have "j \<noteq> i" using ok [of c j] i False by auto
        then show ?thesis using Some False unfolding x r [unfolded x] by (simp add: index_abs_def)
      qed (use False r in \<open>simp add: x index_abs_def\<close>)
    qed
    ultimately show ?thesis by (auto simp: fun_eq_iff)
  qed
qed

lemma index_remove_ok:
  assumes "index_ok x"
  shows "index_ok (index_remove cmdId x) \<and> index_abs (index_remove cmdId x) = (index_abs x)(ClientId cmdId := None)"
proof -
  obtain arr index where x: "x = (arr, index)" by fastforce
  have ok: "index c = Some i \<longleftrightarrow> i < length arr \<and> ClientId (arr ! i) = c" for c i
    using assms by (simp add: index_ok_def x)
  show ?thesis
  proof (cases "index (ClientId cmdId)")
    case None
    then show ?thesis using assms by (auto simp: x index_remove_def index_abs_def fun_eq_iff)
  next
    case (Some i)
    then have i: "i < length arr" "ClientId (arr ! i) = ClientId cmdId" using ok by auto
    let ?n = "length arr - 1" and ?l = "arr ! (length arr - 1)"
    have n: "?n < length arr" using i by simp
    have r: "index_remove cmdId x =
        (take ?n (arr[i := ?l]), (index(ClientId ?l \<mapsto> i))(ClientId cmdId := None))"
      using Some by (simp add: x index_remove_def Let_def)
    have nth: "take ?n (arr[i := ?l]) ! j = (if j = i then ?l else arr ! j)" if "j < ?n" for j
      using that by (simp add: nth_list_update)
    have same: "j = j'" if "j < length arr" "j' < length arr" "ClientId (arr ! j) = ClientId (arr ! j')" for j j'
      using index_same assms that x by blast
    have lhs: "((index(ClientId ?l \<mapsto> i))(ClientId cmdId := None)) c = Some j \<longleftrightarrow>
        c \<noteq> ClientId cmdId \<and> (if c = ClientId ?l then j = i else j < length arr \<and> ClientId (arr ! j) = c)" for c j
      using ok [of c j] by auto
    have "((index(ClientId ?l \<mapsto> i))(ClientId cmdId := None)) c = Some j
        \<longleftrightarrow> j < length (take ?n (arr[i := ?l])) \<and> ClientId (take ?n (arr[i := ?l]) ! j) = c" for c j
    proof (cases "j < ?n")
      case False
      then have j: "j < length arr \<Longrightarrow> j = ?n" by simp
      have "\<not> (c \<noteq> ClientId cmdId \<and> (if c = ClientId ?l then j = i else j < length arr \<and> ClientId (arr ! j) = c))"
        using i j by (metis (no_types))
      then show ?thesis unfolding lhs using False by simp
    next
      case True
      then have j: "j < length arr" "j \<noteq> ?n" by simp_all
      have len: "j < length (take ?n (arr[i := ?l]))" using True by simp
      show ?thesis
      proof (cases "j = i")
        case eq: True
        then have "ClientId ?l \<noteq> ClientId cmdId" using same [OF n i(1)] i(2) j(2) by auto
        then show ?thesis unfolding lhs nth [OF True] using eq len i by auto
      next
        case neq: False
        have "ClientId (arr ! j) \<noteq> ClientId cmdId" using same [OF j(1) i(1)] i(2) neq by auto
        moreover have "ClientId (arr ! j) \<noteq> ClientId ?l" using same [OF j(1) n] j(2) by auto
        ultimately show ?thesis unfolding lhs nth [OF True] using neq len j(1) by auto
      qed
    qed
    then have "index_ok (index_remove cmdId x)" by (simp add: r index_ok_def)
    moreover have "index_abs (index_remove cmdId x) c = ((index_abs x)(ClientId cmdId := None)) c" for c
    proof (cases "c = ClientId cmdId")
      case True
      then show ?thesis unfolding r by (simp add: index_abs_def)
    next
      case c: False
      show ?thesis
      proof (cases "c = ClientId ?l")
        case True
        then have "i \<noteq> ?n" using i(2) c by auto
        then have "i < ?n" using i(1) by simp
        moreover have "index c = Some ?n" using ok n True by auto
        ultimately show ?thesis
          unfolding x r [unfolded x] index_abs_def prod.case using c True nth [of i] by simp
      next
        case False
        have same_index: "((index(ClientId ?l \<mapsto> i))(ClientId cmdId := None)) c = index c"
          using c False by simp
        show ?thesis
        proof (cases "index c")
          case None
          then show ?thesis unfolding x r [unfolded x] index_abs_def prod.case same_index using c by simp
        next
          case (Some j)
          then have j: "j < length arr" "ClientId (arr ! j) = c" using ok by auto
          then have "j \<noteq> i" "j \<noteq> ?n" using i(2) c False by auto
          then have "take ?n (arr[i := ?l]) ! j = arr ! j" using j(1) nth [of j] by simp
          then show ?thesis unfolding x r [unfolded x] index_abs_def prod.case same_index using c Some by simp
        qed
      qed
    qed
    ultimately show ?thesis by (auto simp: fun_eq_iff)
  qed
qed

text \<open>The two arrays of \<open>fullKeyInfo\<close>.\<close>

definition full_inv :: "fullKeyInfo \<Rightarrow> bool" where
  "full_inv ki \<longleftrightarrow> index_ok (clientLastCmd ki, lastCmdIndex ki) \<and> index_ok (clientLastWrite ki, lastWriteIndex ki)"

definition full_cmds :: "fullKeyInfo \<Rightarrow> int \<Rightarrow> CommandId option" where
  "full_cmds ki = index_abs (clientLastCmd ki, lastCmdIndex ki)"

definition full_writes :: "fullKeyInfo \<Rightarrow> int \<Rightarrow> CommandId option" where
  "full_writes ki = index_abs (clientLastWrite ki, lastWriteIndex ki)"

lemma full_add_abs:
  assumes "full_inv ki"
  shows "full_inv (full_add cmd cmdId ki) \<and>
    full_cmds (full_add cmd cmdId ki) = (full_cmds ki)(ClientId cmdId \<mapsto> cmdId) \<and>
    full_writes (full_add cmd cmdId ki)
      = (if Op cmd = PUT then (full_writes ki)(ClientId cmdId \<mapsto> cmdId) else full_writes ki)"
proof -
  obtain a i where c: "index_add cmdId (clientLastCmd ki, lastCmdIndex ki) = (a, i)" by fastforce
  obtain b j where w: "index_add cmdId (clientLastWrite ki, lastWriteIndex ki) = (b, j)" by fastforce
  note ok = index_add_ok [of "(clientLastCmd ki, lastCmdIndex ki)" cmdId]
    index_add_ok [of "(clientLastWrite ki, lastWriteIndex ki)" cmdId]
  show ?thesis
    using assms ok c w by (simp add: full_add_def full_inv_def full_cmds_def full_writes_def)
qed

lemma full_remove_abs:
  assumes "full_inv ki"
  shows "full_inv (full_remove cmd cmdId ki) \<and>
    full_cmds (full_remove cmd cmdId ki) = (full_cmds ki)(ClientId cmdId := None) \<and>
    full_writes (full_remove cmd cmdId ki)
      = (if Op cmd = PUT then (full_writes ki)(ClientId cmdId := None) else full_writes ki)"
proof -
  obtain a i where c: "index_remove cmdId (clientLastCmd ki, lastCmdIndex ki) = (a, i)" by fastforce
  obtain b j where w: "index_remove cmdId (clientLastWrite ki, lastWriteIndex ki) = (b, j)" by fastforce
  note ok = index_remove_ok [of "(clientLastCmd ki, lastCmdIndex ki)" cmdId]
    index_remove_ok [of "(clientLastWrite ki, lastWriteIndex ki)" cmdId]
  show ?thesis
    using assms ok c w by (simp add: full_remove_def full_inv_def full_cmds_def full_writes_def)
qed

lemma full_conflicts_set:
  "full_inv ki \<Longrightarrow> set (full_getConflictCmds cmd ki)
     = {x. \<exists>c. (if Op cmd = GET then full_writes ki else full_cmds ki) c = Some x}"
  using index_set [of "clientLastCmd ki" "lastCmdIndex ki"] index_set [of "clientLastWrite ki" "lastWriteIndex ki"]
  by (simp add: full_inv_def full_getConflictCmds_def full_cmds_def full_writes_def)

interpretation full: keyInfo full_add full_remove full_getConflictCmds newFullKeyInfo full_inv
proof
  show "full_inv newFullKeyInfo"
    using index_ok_empty by (simp add: full_inv_def newFullKeyInfo_def)
  show "full_getConflictCmds cmd newFullKeyInfo = []" for cmd
    by (simp add: full_getConflictCmds_def newFullKeyInfo_def)
next
  fix ki cmd cmdId assume inv: "full_inv ki"
  note a = full_add_abs [OF inv, of cmd cmdId] and r = full_remove_abs [OF inv, of cmd cmdId]
  show "full_inv (full_add cmd cmdId ki)" "full_inv (full_remove cmd cmdId ki)" using a r by simp_all
  fix cmd'
  show "set (full_getConflictCmds cmd' (full_add cmd cmdId ki)) \<subseteq> insert cmdId (set (full_getConflictCmds cmd' ki))"
    using a inv by (auto simp: full_conflicts_set split: if_splits)
  show "set (full_getConflictCmds cmd' (full_remove cmd cmdId ki)) \<subseteq> set (full_getConflictCmds cmd' ki)"
    using r inv by (auto simp: full_conflicts_set split: if_splits)
  show "Op cmd' \<noteq> GET \<or> Op cmd = PUT \<Longrightarrow> cmdId \<in> set (full_getConflictCmds cmd' (full_add cmd cmdId ki))"
    using a by (auto simp: full_conflicts_set)
qed

section \<open>Properties\<close>

text \<open>Histories: commands added (\<open>True\<close>) and removed, on the arrays and on the maps they represent.\<close>

type_synonym history = "(bool \<times> command \<times> CommandId) list"

definition full_history :: "history \<Rightarrow> fullKeyInfo" where
  "full_history hist =
     fold (\<lambda>(b, cmd, c) ki. if b then full_add cmd c ki else full_remove cmd c ki) hist newFullKeyInfo"

definition light_history :: "history \<Rightarrow> lightKeyInfo" where
  "light_history hist =
     fold (\<lambda>(b, cmd, c) ki. if b then light_add cmd c ki else light_remove cmd c ki) hist newLightKeyInfo"

definition client_step :: "bool \<times> command \<times> CommandId \<Rightarrow> (int \<Rightarrow> CommandId option) \<Rightarrow> int \<Rightarrow> CommandId option" where
  "client_step = (\<lambda>(b, cmd, c) m. m(ClientId c := (if b then Some c else None)))"

definition client_map :: "history \<Rightarrow> int \<Rightarrow> CommandId option" where
  "client_map hist = fold client_step hist Map.empty"

lemma full_history_abs:
  "full_inv ki \<Longrightarrow>
   (let ki' = fold (\<lambda>(b, cmd, c) ki. if b then full_add cmd c ki else full_remove cmd c ki) hist ki
    in full_inv ki' \<and>
       full_cmds ki' = fold client_step hist (full_cmds ki) \<and>
       full_writes ki' = fold client_step
          (filter (\<lambda>(b, cmd, c). Op cmd = PUT) hist) (full_writes ki))"
proof (induction hist arbitrary: ki)
  case Nil
  then show ?case by simp
next
  case (Cons x hist)
  obtain b cmd c where x: "x = (b, cmd, c)" by (cases x) auto
  let ?ki = "if b then full_add cmd c ki else full_remove cmd c ki"
  have ab: "full_inv ?ki \<and> full_cmds ?ki = client_step x (full_cmds ki) \<and>
      full_writes ?ki = (if Op cmd = PUT then client_step x (full_writes ki) else full_writes ki)"
    using full_add_abs [OF Cons.prems, of cmd c] full_remove_abs [OF Cons.prems, of cmd c]
    by (auto simp: x client_step_def)
  then have inv: "full_inv ?ki" by blast
  have f: "fold (\<lambda>(b, cmd, c) ki. if b then full_add cmd c ki else full_remove cmd c ki) (x # hist) ki
      = fold (\<lambda>(b, cmd, c) ki. if b then full_add cmd c ki else full_remove cmd c ki) hist ?ki"
    by (simp add: x)
  have p: "filter (\<lambda>(b, cmd, c). Op cmd = PUT) (x # hist) =
      (if Op cmd = PUT then x # filter (\<lambda>(b, cmd, c). Op cmd = PUT) hist
       else filter (\<lambda>(b, cmd, c). Op cmd = PUT) hist)" by (simp add: x)
  show ?case unfolding f p using Cons.IH [OF inv] ab by (simp add: Let_def)
qed

text \<open>
  C38: the arrays and indices of \<open>fullKeyInfo\<close> represent two maps from clients to commands: after any
  history of additions and removals, the conflicts of a command are the last commands (for a read,
  the last writes) of the clients that were not removed since, and nothing else.
\<close>

theorem fullKeyInfo_conflicts:
  "set (full_getConflictCmds cmd (full_history hist)) =
     {x. \<exists>c. client_map (if Op cmd = GET then filter (\<lambda>(b, cmd, c). Op cmd = PUT) hist else hist) c = Some x}"
proof -
  have new: "full_inv newFullKeyInfo" "full_cmds newFullKeyInfo = Map.empty" "full_writes newFullKeyInfo = Map.empty"
    using full.inv_new by (auto simp: full_cmds_def full_writes_def newFullKeyInfo_def index_abs_def)
  from full_history_abs [OF new(1), of hist] new(2,3) show ?thesis
    by (simp add: full_conflicts_set full_history_def client_map_def Let_def)
qed

text \<open>
  \<open>LightKeyInfo\<close> reports less: as long as no command is removed, each conflict it reports is one
  \<open>fullKeyInfo\<close> reports, and it reports the command added last whenever that is not a read or the
  new command is not one.
\<close>

theorem lightKeyInfo_within_full:
  fixes cmd :: command and hist :: history
  defines "adds \<equiv> map (\<lambda>(cmd, c). (True, cmd, c))"
  shows "set (light_getConflictCmds cmd (light_history (adds xs))) \<subseteq>
           set (full_getConflictCmds cmd (full_history (adds xs))) \<and>
         (xs \<noteq> [] \<and> (Op cmd \<noteq> GET \<or> Op (fst (last xs)) = PUT) \<longrightarrow>
           snd (last xs) \<in> set (light_getConflictCmds cmd (light_history (adds xs))))"
proof (cases xs rule: rev_cases)
  case Nil
  then show ?thesis
    by (simp add: adds_def light_history_def newLightKeyInfo_def light_getConflictCmds_def)
next
  case (snoc ys y)
  have step: "client_map (adds (zs @ [(d, c)])) = (client_map (adds zs))(ClientId c \<mapsto> c)" for zs d c
    by (simp add: client_map_def client_step_def adds_def)
  have lc: "lastCmd (light_history (adds (zs @ [(d, c)]))) = [c]" for zs d c
    by (simp add: light_history_def adds_def light_add_def Let_def)
  have lw: "lastWrite (light_history (adds zs)) = [] \<or>
      (\<exists>d c us. filter (\<lambda>(d, c). Op d = PUT) zs = us @ [(d, c)] \<and> lastWrite (light_history (adds zs)) = [c])" for zs
    by (induction zs rule: rev_induct)
      (auto simp: light_history_def adds_def light_add_def newLightKeyInfo_def Let_def)
  have writes: "filter (\<lambda>(b, cmd, c). Op cmd = PUT) (adds zs) = adds (filter (\<lambda>(d, c). Op d = PUT) zs)" for zs
    by (induction zs) (auto simp: adds_def)
  have "set (light_getConflictCmds cmd (light_history (adds xs))) \<subseteq>
           set (full_getConflictCmds cmd (full_history (adds xs)))"
  proof (cases "Op cmd = GET")
    case True
    with lw [of xs] show ?thesis
      by (auto simp: fullKeyInfo_conflicts writes light_getConflictCmds_def step)
  next
    case False
    then show ?thesis using snoc
      by (cases y) (auto simp: fullKeyInfo_conflicts light_getConflictCmds_def step lc)
  qed
  moreover have "snd (last xs) \<in> set (light_getConflictCmds cmd (light_history (adds xs)))"
    if "Op cmd \<noteq> GET \<or> Op (fst (last xs)) = PUT"
    using light.last_added_conflicts [of cmd "fst y" "snd y" "adds ys"] that snoc
    by (cases y) (simp add: light_history_def adds_def)
  ultimately show ?thesis by blast
qed

theorem lightKeyInfo_within_full_witness:
  "CommandId 1 2 \<in> set (light_getConflictCmds \<lparr>Op = GET, K = 5, V = []\<rparr>
     (light_history (map (\<lambda>(cmd, c). (True, cmd, c)) [(\<lparr>Op = PUT, K = 5, V = []\<rparr>, CommandId 1 2)])))"
  using lightKeyInfo_within_full [of "\<lparr>Op = GET, K = 5, V = []\<rparr>" "[(\<lparr>Op = PUT, K = 5, V = []\<rparr>, CommandId 1 2)]"]
  by simp

text \<open>
  A scan from key \<open>k\<close> with count \<open>n\<close> conflicts with a write to key \<open>k + n\<close> (and reads that key when
  it is executed), but \<open>keysOf\<close> stops at \<open>k + n - 1\<close>: the replica records no dependency between the
  two commands.
\<close>

theorem keysOf_misses_scan_end:
  assumes "Uint64 v = Some n" "0 \<le> k" "k + n < 2 ^ 63"
  shows "Conflict \<lparr>Op = SCAN, K = k, V = v\<rparr> \<lparr>Op = PUT, K = k + n, V = w\<rparr> = Some True \<and>
    (\<exists>ks. keysOf \<lparr>Op = SCAN, K = k, V = v\<rparr> = Some ks \<and> k + n \<notin> set ks) \<and>
    keysOf \<lparr>Op = PUT, K = k + n, V = w\<rparr> = Some [k + n]"
proof -
  have n: "0 \<le> n" using assms(1) by (auto simp: Uint64_def split: if_splits)
  have ids: "wrap64 (k + i) = k + i" if "0 \<le> i" "i \<le> n" for i
    using that assms(2,3) by (intro wrap64_id) (auto simp: i64_def)
  have "wrap64 n = n" using n assms by (intro wrap64_id) (auto simp: i64_def)
  moreover have "map (\<lambda>i. wrap64 (k + i)) [0..n - 1] = map (\<lambda>i. k + i) [0..n - 1]"
    by (rule map_cong) (auto simp: ids)
  moreover have "n < 2 ^ 63" using assms by simp
  ultimately show ?thesis
    using assms n ids [of n] by (auto simp: Conflict_def keysOf_def SCAN_def PUT_def)
qed

theorem keysOf_misses_scan_end_witness:
  "Conflict \<lparr>Op = SCAN, K = 5, V = put_le 8 3\<rparr> \<lparr>Op = PUT, K = 8, V = []\<rparr> = Some True \<and>
   (\<exists>ks. keysOf \<lparr>Op = SCAN, K = 5, V = put_le 8 3\<rparr> = Some ks \<and> 8 \<notin> set ks)"
proof -
  have "Uint64 (put_le 8 3) = Some 3" by (simp add: Uint64_def get_put_le del: put_le.simps)
  from keysOf_misses_scan_end [OF this, of 5] show ?thesis by simp
qed

end
