(* ===== verification/HashLog.thy ===== *)
theory HashLog
  imports Ids
begin

text \<open>
  The hash log of a key (\<open>swift/dpath.go\<close>): a doubly linked list of pending commands above the last
  synchronised one, and the hash of the whole log.

  Nodes live in a store from addresses to nodes, so that the model updates pointers as the code
  does.  SHA-256 is a parameter.  \<open>nil\<close> is \<open>None\<close>.
\<close>

type_synonym addr = nat

record HashNode =
  node_id :: CommandId
  node_next :: "addr option"
  node_previous :: "addr option"

record UpdateEntry =
  upd_hash :: "SHash list"
  upd_seqnum :: int

record HashLog =
  synced :: int
  syncedHash :: SHash
  pendingHead :: "addr option"
  pendingTail :: "addr option"
  log_hash :: SHash
  nodes :: "CommandId \<Rightarrow> addr option"
  pendingUpd :: "CommandId \<Rightarrow> UpdateEntry option"
  heap :: "addr \<Rightarrow> HashNode option"
  fresh :: addr

definition NewHashLog :: HashLog where
  "NewHashLog = \<lparr>synced = -1, syncedHash = zero_SHash, pendingHead = None, pendingTail = None,
     log_hash = zero_SHash, nodes = Map.empty, pendingUpd = Map.empty, heap = Map.empty, fresh = 0\<rparr>"

definition hash :: "(bytes \<Rightarrow> bytes) \<Rightarrow> SHash \<Rightarrow> CommandId \<Rightarrow> SHash" where
  "hash sha initial cmdId =
     \<lparr>H = sha (H initial @ put_le 4 (ClientId cmdId) @ put_le 4 (SeqNum cmdId))\<rparr>"

text \<open>Assignments through a pointer; \<open>None\<close> is the panic on a dangling or \<open>nil\<close> pointer.\<close>

definition set_next :: "addr option \<Rightarrow> addr option \<Rightarrow> (addr \<Rightarrow> HashNode option) \<Rightarrow> (addr \<Rightarrow> HashNode option) option" where
  "set_next p v h = do { p \<leftarrow> p; n \<leftarrow> h p; Some (h(p \<mapsto> n\<lparr>node_next := v\<rparr>)) }"

definition set_previous :: "addr option \<Rightarrow> addr option \<Rightarrow> (addr \<Rightarrow> HashNode option) \<Rightarrow> (addr \<Rightarrow> HashNode option) option" where
  "set_previous p v h = do { p \<leftarrow> p; n \<leftarrow> h p; Some (h(p \<mapsto> n\<lparr>node_previous := v\<rparr>)) }"

text \<open>\<open>for n != nil { initial = hash(initial, n.id); n = n.next }\<close>: no result if it does not end.\<close>

partial_function (option) hash_from ::
  "(SHash \<Rightarrow> CommandId \<Rightarrow> SHash) \<Rightarrow> (addr \<Rightarrow> HashNode option) \<Rightarrow> addr option \<Rightarrow> SHash \<Rightarrow> SHash option" where
  "hash_from hsh h n initial =
     (case n of None \<Rightarrow> Some initial
      | Some a \<Rightarrow> do { nd \<leftarrow> h a; hash_from hsh h (node_next nd) (hsh initial (node_id nd)) })"

definition unlink :: "addr \<Rightarrow> CommandId \<Rightarrow> HashLog \<Rightarrow> HashLog option" where
  "unlink n cmdId l =
     do { nd \<leftarrow> heap l n;
          let previous = node_previous nd;
          let next = node_next nd;
          h \<leftarrow> (if previous \<noteq> None then set_next previous next (heap l) else Some (heap l));
          h \<leftarrow> (if next \<noteq> None then set_previous next previous h else Some h);
          let l = (if pendingHead l = Some n then l\<lparr>pendingHead := next\<rparr> else l);
          let l = (if pendingTail l = Some n then l\<lparr>pendingTail := previous\<rparr> else l);
          h \<leftarrow> set_previous (Some n) None h;
          h \<leftarrow> set_next (Some n) None h;
          Some (l\<lparr>heap := h, nodes := (nodes l)(cmdId := None)\<rparr>) }"

definition update :: "(bytes \<Rightarrow> bytes) \<Rightarrow> CommandId \<Rightarrow> int \<Rightarrow> SHash \<Rightarrow> bool \<Rightarrow> HashLog \<Rightarrow> HashLog option" where
  "update sha cmdId s h save l =
     (let exists = (nodes l cmdId \<noteq> None) in
      if \<not> exists \<and> save then
        Some (l\<lparr>pendingUpd := (pendingUpd l)(cmdId \<mapsto> \<lparr>upd_hash = [h], upd_seqnum = s\<rparr>)\<rparr>)
      else do {
        l \<leftarrow> (case nodes l cmdId of None \<Rightarrow> Some l | Some n \<Rightarrow> unlink n cmdId l);
        if s \<le> synced l \<and> \<not> exists then Some l
        else do {
          let l = (if s > synced l then l\<lparr>synced := s, syncedHash := h\<rparr> else l);
          initial \<leftarrow> hash_from (hash sha) (heap l) (pendingHead l) (syncedHash l);
          Some (l\<lparr>log_hash := initial\<rparr>) } })"

definition Update :: "(bytes \<Rightarrow> bytes) \<Rightarrow> CommandId \<Rightarrow> int \<Rightarrow> SHash \<Rightarrow> HashLog \<Rightarrow> HashLog option" where
  "Update sha cmdId s h l = update sha cmdId s h True l"

definition Append :: "(bytes \<Rightarrow> bytes) \<Rightarrow> CommandId \<Rightarrow> HashLog \<Rightarrow> (SHash \<times> HashLog) option" where
  "Append sha cmdId l =
     (case pendingUpd l cmdId of
        Some upd \<Rightarrow>
          do { l \<leftarrow> update sha cmdId (upd_seqnum upd) (upd_hash upd ! 0) False
                   (l\<lparr>pendingUpd := (pendingUpd l)(cmdId := None)\<rparr>);
               Some (upd_hash upd ! 0, l) }
      | None \<Rightarrow>
          let node = fresh l;
              l = l\<lparr>heap := (heap l)(node \<mapsto> \<lparr>node_id = cmdId, node_next = None, node_previous = None\<rparr>),
                    fresh := node + 1, nodes := (nodes l)(cmdId \<mapsto> node)\<rparr>
          in (case pendingHead l of
                None \<Rightarrow>
                  let h = hash sha (syncedHash l) cmdId
                  in Some (h, l\<lparr>pendingHead := Some node, log_hash := h\<rparr>)
              | Some ph \<Rightarrow>
                  do { l \<leftarrow> (case pendingTail l of
                          None \<Rightarrow> do { h \<leftarrow> set_previous (Some node) (Some ph) (heap l);
                                      h \<leftarrow> set_next (Some ph) (Some node) h;
                                      Some (l\<lparr>pendingTail := Some node, heap := h\<rparr>) }
                        | Some pt \<Rightarrow> do { h \<leftarrow> set_next (Some pt) (Some node) (heap l);
                                      h \<leftarrow> set_previous (Some node) (Some pt) h;
                                      Some (l\<lparr>pendingTail := Some node, heap := h\<rparr>) });
                       let h = hash sha (log_hash l) cmdId;
                       Some (h, l\<lparr>log_hash := h\<rparr>) }))"

text \<open>\<open>SHashesEq\<close> looks every hash of the first list up in the second.\<close>

definition SHashesEq :: "SHash list \<Rightarrow> SHash list \<Rightarrow> bool" where
  "SHashesEq hs1 hs2 \<longleftrightarrow> length hs1 = length hs2 \<and> list_all (\<lambda>h. list_ex (\<lambda>g. H h = H g) hs2) hs1"

section \<open>The list a log represents\<close>

text \<open>
  Abstractly, a log is the last synchronised position and hash, the pending commands in order, and
  the updates that came before their command.
\<close>

record abs_log =
  a_synced :: int
  a_syncedHash :: SHash
  a_pending :: "CommandId list"
  a_early :: "CommandId \<Rightarrow> UpdateEntry option"

definition a_hash :: "(bytes \<Rightarrow> bytes) \<Rightarrow> abs_log \<Rightarrow> SHash" where
  "a_hash sha a = foldl (hash sha) (a_syncedHash a) (a_pending a)"

definition a_sync :: "CommandId \<Rightarrow> int \<Rightarrow> SHash \<Rightarrow> abs_log \<Rightarrow> abs_log" where
  "a_sync cmdId s h a =
     (let a = a\<lparr>a_pending := removeAll cmdId (a_pending a)\<rparr>
      in if s > a_synced a then a\<lparr>a_synced := s, a_syncedHash := h\<rparr> else a)"

definition a_update :: "CommandId \<Rightarrow> int \<Rightarrow> SHash \<Rightarrow> abs_log \<Rightarrow> abs_log" where
  "a_update cmdId s h a =
     (if cmdId \<in> set (a_pending a) then a_sync cmdId s h a
      else a\<lparr>a_early := (a_early a)(cmdId \<mapsto> \<lparr>upd_hash = [h], upd_seqnum = s\<rparr>)\<rparr>)"

definition a_append :: "(bytes \<Rightarrow> bytes) \<Rightarrow> CommandId \<Rightarrow> abs_log \<Rightarrow> SHash \<times> abs_log" where
  "a_append sha cmdId a =
     (case a_early a cmdId of
        Some upd \<Rightarrow>
          (upd_hash upd ! 0,
           a_sync cmdId (upd_seqnum upd) (upd_hash upd ! 0) (a\<lparr>a_early := (a_early a)(cmdId := None)\<rparr>))
      | None \<Rightarrow>
          let a = a\<lparr>a_pending := a_pending a @ [cmdId]\<rparr> in (a_hash sha a, a))"

text \<open>A segment of the linked list: the nodes at \<open>ps\<close>, between \<open>prev\<close> and \<open>nxt\<close>.\<close>

fun first :: "addr list \<Rightarrow> addr option \<Rightarrow> addr option" where
  "first [] nxt = nxt"
| "first (p # ps) nxt = Some p"

fun final :: "addr option \<Rightarrow> addr list \<Rightarrow> addr option" where
  "final prev [] = prev"
| "final prev (p # ps) = final (Some p) ps"

fun dseg :: "(addr \<Rightarrow> HashNode option) \<Rightarrow> addr option \<Rightarrow> (addr \<times> CommandId) list \<Rightarrow> addr option \<Rightarrow> bool" where
  "dseg h prev [] nxt = True"
| "dseg h prev ((p, c) # ps) nxt =
     (h p = Some \<lparr>node_id = c, node_next = first (map fst ps) nxt, node_previous = prev\<rparr> \<and>
      dseg h (Some p) ps nxt)"

lemma first_append: "first (xs @ ys) nxt = first xs (first ys nxt)"
  by (cases xs) auto

lemma dseg_final_append: "final prev (xs @ ys) = final (final prev xs) ys"
  by (induction xs arbitrary: prev) auto

lemma final_snoc [simp]: "final prev (xs @ [p]) = Some p"
  by (simp add: dseg_final_append)

lemma dseg_append:
  "dseg h prev (xs @ ys) nxt \<longleftrightarrow>
     dseg h prev xs (first (map fst ys) nxt) \<and> dseg h (final prev (map fst xs)) ys nxt"
proof (induction xs arbitrary: prev)
  case Nil
  then show ?case by simp
next
  case (Cons x xs)
  obtain q c where x: "x = (q, c)" by fastforce
  show ?case using Cons.IH [of "Some q"] by (simp add: x first_append conj_assoc)
qed

lemma dseg_frame: "p \<notin> fst ` set ps \<Longrightarrow> dseg (h(p := v)) prev ps nxt = dseg h prev ps nxt"
proof (induction ps arbitrary: prev)
  case Nil
  then show ?case by simp
next
  case (Cons x ps)
  obtain q c where x: "x = (q, c)" by fastforce
  have "q \<noteq> p" "p \<notin> fst ` set ps" using Cons.prems by (auto simp: x)
  then show ?case using Cons.IH by (simp add: x)
qed

lemma dseg_cong:
  "\<forall>q \<in> fst ` set ps. h' q = h q \<Longrightarrow> dseg h' prev ps nxt = dseg h prev ps nxt"
proof (induction ps arbitrary: prev)
  case (Cons x ps)
  then show ?case by (cases x) simp
qed simp

text \<open>Changing what the last node points to, and what the first node points back to.\<close>

lemma dseg_set_next:
  assumes "dseg h prev ps nxt" "distinct (map fst ps)" "ps \<noteq> []"
  shows "\<exists>h'. set_next (final prev (map fst ps)) v h = Some h' \<and> dseg h' prev ps v \<and>
    (\<forall>q. q \<notin> fst ` set ps \<longrightarrow> h' q = h q)"
proof -
  from assms(3) obtain xs p c where ps: "ps = xs @ [(p, c)]" by (metis old.prod.exhaust rev_exhaust)
  let ?n = "\<lparr>node_id = c, node_next = nxt, node_previous = final prev (map fst xs)\<rparr>"
  have d: "dseg h prev xs (Some p)" "h p = Some ?n" using assms(1) by (auto simp: ps dseg_append)
  let ?h = "h(p \<mapsto> ?n\<lparr>node_next := v\<rparr>)"
  have "set_next (final prev (map fst ps)) v h = Some ?h" using d by (simp add: ps set_next_def)
  moreover have "dseg ?h prev ps v"
    using d assms(2) by (simp add: ps dseg_append dseg_frame)
  ultimately show ?thesis by (auto simp: ps)
qed

lemma dseg_set_previous:
  assumes "dseg h prev ps nxt" "distinct (map fst ps)" "ps \<noteq> []"
  shows "\<exists>h'. set_previous (first (map fst ps) None) v h = Some h' \<and> dseg h' v ps nxt \<and>
    (\<forall>q. q \<notin> fst ` set ps \<longrightarrow> h' q = h q)"
proof -
  from assms(3) obtain p c xs where ps: "ps = (p, c) # xs" by (metis list.exhaust old.prod.exhaust)
  let ?n = "\<lparr>node_id = c, node_next = first (map fst xs) nxt, node_previous = prev\<rparr>"
  have d: "dseg h (Some p) xs nxt" "h p = Some ?n" using assms(1) by (auto simp: ps)
  let ?h = "h(p \<mapsto> ?n\<lparr>node_previous := v\<rparr>)"
  have "set_previous (first (map fst ps) None) v h = Some ?h" using d by (simp add: ps set_previous_def)
  moreover have "dseg ?h v ps nxt"
    using d assms(2) by (simp add: ps dseg_frame)
  ultimately show ?thesis by (auto simp: ps)
qed

lemma hash_from_dseg:
  "dseg h prev ps None \<Longrightarrow> hash_from hsh h (first (map fst ps) None) initial = Some (foldl hsh initial (map snd ps))"
proof (induction ps arbitrary: prev initial)
  case Nil
  then show ?case by (simp add: hash_from.simps)
next
  case (Cons x ps)
  obtain p c where x: "x = (p, c)" by fastforce
  from Cons show ?case by (subst hash_from.simps) (auto simp: x)
qed

section \<open>The invariant\<close>

text \<open>
  \<open>ps\<close> lists the nodes from head to tail.  With one node the tail may be \<open>nil\<close>: the code sets it when
  the second node is linked.  All nodes are older than \<open>fresh\<close>, so a new node is not among them.
\<close>

definition linked :: "HashLog \<Rightarrow> (addr \<times> CommandId) list \<Rightarrow> bool" where
  "linked l ps \<longleftrightarrow> dseg (heap l) None ps None \<and> distinct (map fst ps) \<and> distinct (map snd ps) \<and>
     pendingHead l = first (map fst ps) None \<and>
     (pendingTail l = final None (map fst ps) \<or> length ps = 1 \<and> pendingTail l = None) \<and>
     (\<forall>c a. nodes l c = Some a \<longleftrightarrow> (a, c) \<in> set ps) \<and>
     (\<forall>p \<in> fst ` set ps. p < fresh l)"

definition abs :: "HashLog \<Rightarrow> (addr \<times> CommandId) list \<Rightarrow> abs_log" where
  "abs l ps = \<lparr>a_synced = synced l, a_syncedHash = syncedHash l, a_pending = map snd ps, a_early = pendingUpd l\<rparr>"

definition log_inv :: "(bytes \<Rightarrow> bytes) \<Rightarrow> HashLog \<Rightarrow> abs_log \<Rightarrow> bool" where
  "log_inv sha l a \<longleftrightarrow> (\<exists>ps. linked l ps \<and> a = abs l ps \<and> log_hash l = a_hash sha a)"

lemma log_inv_New: "log_inv sha NewHashLog \<lparr>a_synced = -1, a_syncedHash = zero_SHash, a_pending = [], a_early = Map.empty\<rparr>"
  by (auto simp: log_inv_def linked_def abs_def a_hash_def NewHashLog_def intro!: exI [of _ "[]"])

lemma unlink_steps:
  assumes "heap l n = Some nd"
    and "(if node_previous nd \<noteq> None then set_next (node_previous nd) (node_next nd) (heap l) else Some (heap l)) = Some h1"
    and "(if node_next nd \<noteq> None then set_previous (node_next nd) (node_previous nd) h1 else Some h1) = Some h2"
    and "set_previous (Some n) None h2 = Some h3" "set_next (Some n) None h3 = Some h4"
  shows "unlink n c l = Some (let l = (if pendingHead l = Some n then l\<lparr>pendingHead := node_next nd\<rparr> else l);
     l = (if pendingTail l = Some n then l\<lparr>pendingTail := node_previous nd\<rparr> else l)
     in l\<lparr>heap := h4, nodes := (nodes l)(c := None)\<rparr>)"
  using assms by (simp add: unlink_def Let_def split del: if_split)

text \<open>Unlinking a node takes its command out of the list.\<close>

lemma unlink_linked:
  assumes l: "linked l (xs @ (n, c) # ys)"
  shows "\<exists>l'. unlink n c l = Some l' \<and> linked l' (xs @ ys) \<and>
    synced l' = synced l \<and> syncedHash l' = syncedHash l \<and> pendingUpd l' = pendingUpd l \<and> fresh l' = fresh l"
proof -
  let ?prev = "final None (map fst xs)" and ?next = "first (map fst ys) None"
  have d: "dseg (heap l) None xs (Some n)" "heap l n = Some \<lparr>node_id = c, node_next = ?next, node_previous = ?prev\<rparr>"
      "dseg (heap l) (Some n) ys None" and dist: "distinct (map fst (xs @ (n, c) # ys))"
    using l by (auto simp: linked_def dseg_append)
  have prev0: "?prev \<noteq> None \<longleftrightarrow> xs \<noteq> []" by (cases xs rule: rev_cases) auto
  have next0: "?next \<noteq> None \<longleftrightarrow> ys \<noteq> []" by (cases ys) auto
  obtain h1 where h1: "(if ?prev \<noteq> None then set_next ?prev ?next (heap l) else Some (heap l)) = Some h1"
      "dseg h1 None xs ?next" "\<forall>q. q \<notin> fst ` set xs \<longrightarrow> h1 q = heap l q"
  proof (cases "xs = []")
    case True
    then show ?thesis using that [of "heap l"] by simp
  next
    case False
    with dseg_set_next [OF d(1) _ False, of ?next] dist prev0 show ?thesis using that by auto
  qed
  have disj: "fst ` set xs \<inter> fst ` set ys = {}" using dist by auto
  then have "\<forall>q \<in> fst ` set ys. h1 q = heap l q" using h1(3) by blast
  then have ys1: "dseg h1 (Some n) ys None" using d(3) dseg_cong [of ys h1 "heap l"] by blast
  obtain h2 where h2: "(if ?next \<noteq> None then set_previous ?next ?prev h1 else Some h1) = Some h2"
      "dseg h2 ?prev ys None" "\<forall>q. q \<notin> fst ` set ys \<longrightarrow> h2 q = h1 q"
  proof (cases "ys = []")
    case True
    then show ?thesis using that [of h1] by simp
  next
    case False
    with dseg_set_previous [OF ys1 _ False, of ?prev] dist next0 show ?thesis using that by auto
  qed
  have "\<forall>q \<in> fst ` set xs. h2 q = h1 q" using h2(3) disj by blast
  then have xs2: "dseg h2 None xs ?next" using h1(2) dseg_cong [of xs h2 h1] by blast
  have "n \<notin> fst ` set xs" "n \<notin> fst ` set ys" using dist by auto
  then have "h2 n = heap l n" using h2(3) h1(3) by simp
  then obtain h3 where h3: "set_previous (Some n) None h2 = Some h3" "\<forall>q. q \<noteq> n \<longrightarrow> h3 q = h2 q" "h3 n \<noteq> None"
    using d(2) by (auto simp: set_previous_def)
  then obtain h4 where h4: "set_next (Some n) None h3 = Some h4" "\<forall>q. q \<noteq> n \<longrightarrow> h4 q = h2 q"
    by (auto simp: set_next_def)
  have all4: "dseg h4 None (xs @ ys) None"
  proof -
    have "h4 = h2(n := h4 n)" using h4(2) by auto
    moreover have "dseg (h2(n := h4 n)) None (xs @ ys) None"
      using xs2 h2(2) dist by (subst dseg_frame) (auto simp: dseg_append)
    ultimately show ?thesis by metis
  qed
  let ?l = "let l = (if pendingHead l = Some n then l\<lparr>pendingHead := ?next\<rparr> else l);
     l = (if pendingTail l = Some n then l\<lparr>pendingTail := ?prev\<rparr> else l)
     in l\<lparr>heap := h4, nodes := (nodes l)(c := None)\<rparr>"
  have u: "unlink n c l = Some ?l"
  proof -
    obtain nd where nd: "heap l n = Some nd" "node_previous nd = ?prev" "node_next nd = ?next"
      using d(2) by simp
    show ?thesis by (rule unlink_steps [OF nd(1), unfolded nd(2,3), OF h1(1) h2(1) h3(1) h4(1)])
  qed
  have head: "pendingHead ?l = first (map fst (xs @ ys)) None"
  proof (cases xs)
    case Nil
    then show ?thesis using l by (simp add: linked_def Let_def)
  next
    case (Cons x xs')
    then have "pendingHead l = Some (fst x)" "fst x \<noteq> n" using l dist by (auto simp: linked_def)
    then show ?thesis using Cons by (simp add: Let_def)
  qed
  have tail: "pendingTail ?l = final None (map fst (xs @ ys)) \<or> length (xs @ ys) = 1 \<and> pendingTail ?l = None"
  proof (cases ys rule: rev_cases)
    case Nil
    then have "pendingTail l = Some n \<or> xs = [] \<and> pendingTail l = None" using l by (auto simp: linked_def)
    then show ?thesis using Nil by (auto simp: Let_def)
  next
    case (snoc ys' y)
    then have "pendingTail l = Some (fst y)" "fst y \<noteq> n" using l dist
      by (auto simp: linked_def dseg_final_append)
    then show ?thesis using snoc by (simp add: Let_def dseg_final_append)
  qed
  have nodes: "\<forall>c' a. nodes ?l c' = Some a \<longleftrightarrow> (a, c') \<in> set (xs @ ys)"
  proof (intro allI)
    fix c' a
    have o: "nodes l c' = Some a \<longleftrightarrow> (a, c') \<in> set (xs @ (n, c) # ys)" using l by (simp add: linked_def)
    have "distinct (map snd (xs @ (n, c) # ys))" using l by (simp add: linked_def)
    then have "(a, c) \<notin> set (xs @ ys)" by force
    then show "nodes ?l c' = Some a \<longleftrightarrow> (a, c') \<in> set (xs @ ys)"
      using o by (cases "c' = c") (auto simp: Let_def)
  qed
  have "linked ?l (xs @ ys)"
    unfolding linked_def
  proof (intro conjI)
    show "dseg (heap ?l) None (xs @ ys) None" using all4 by (simp add: Let_def)
    show "distinct (map fst (xs @ ys))" using dist by simp
    show "distinct (map snd (xs @ ys))" using l by (simp add: linked_def)
    show "\<forall>p \<in> fst ` set (xs @ ys). p < fresh ?l" using l by (auto simp: linked_def Let_def)
  qed (use head tail nodes in auto)
  with u show ?thesis by (intro exI [of _ ?l]) (simp add: Let_def)
qed

lemma removeAll_distinct:
  assumes "distinct (xs @ c # ys)"
  shows "removeAll c (xs @ c # ys) = xs @ ys"
  using assms by (simp add: removeAll_id)

lemma linked_node:
  assumes "linked l ps" "nodes l c = Some n"
  obtains xs ys where "ps = xs @ (n, c) # ys" "removeAll c (map snd ps) = map snd (xs @ ys)"
proof -
  have "(n, c) \<in> set ps" using assms by (simp add: linked_def)
  then obtain xs ys where ps: "ps = xs @ (n, c) # ys" by (meson split_list)
  have "distinct (map snd xs @ c # map snd ys)" using assms(1) by (simp add: linked_def ps)
  then have "removeAll c (map snd ps) = map snd (xs @ ys)" using removeAll_distinct by (simp add: ps)
  with ps show ?thesis by (rule that)
qed

lemma linked_pending: "linked l ps \<Longrightarrow> nodes l c = None \<longleftrightarrow> c \<notin> set (map snd ps)"
proof
  assume l: "linked l ps" and "nodes l c = None"
  then have "(a, c) \<notin> set ps" for a unfolding linked_def by (metis option.distinct(1))
  then show "c \<notin> set (map snd ps)" by auto
next
  assume l: "linked l ps" and "c \<notin> set (map snd ps)"
  then have "nodes l c \<noteq> Some a" for a by (force simp: linked_def)
  then show "nodes l c = None" by (cases "nodes l c") auto
qed

lemma linked_set: "linked (l\<lparr>synced := s, syncedHash := h\<rparr>) ps = linked l ps"
  "linked (l\<lparr>log_hash := h\<rparr>) ps = linked l ps" "linked (l\<lparr>pendingUpd := u\<rparr>) ps = linked l ps"
  by (simp_all add: linked_def)

lemma linked_hash_from:
  "linked l ps \<Longrightarrow> hash_from hsh (heap l) (pendingHead l) i = Some (foldl hsh i (map snd ps))"
  using hash_from_dseg [of "heap l" None ps] by (simp add: linked_def)

text \<open>The last part of \<open>update\<close>: the synchronised position and the hash.\<close>

lemma resync_inv:
  fixes s :: int and h :: SHash
  assumes "linked l ps"
  defines "l1 \<equiv> (if s > synced l then l\<lparr>synced := s, syncedHash := h\<rparr> else l)"
  shows "\<exists>i. hash_from (hash sha) (heap l1) (pendingHead l1) (syncedHash l1) = Some i \<and>
    log_inv sha (l1\<lparr>log_hash := i\<rparr>)
      (if s > synced l then (abs l ps)\<lparr>a_synced := s, a_syncedHash := h\<rparr> else abs l ps)"
proof -
  have l1: "linked l1 ps" using assms(1) by (simp add: l1_def linked_set)
  from linked_hash_from [OF this, of "hash sha" "syncedHash l1"] l1 show ?thesis
    unfolding log_inv_def by (intro exI [of _ "foldl (hash sha) (syncedHash l1) (map snd ps)"] conjI exI [of _ ps])
      (auto simp: linked_set abs_def a_hash_def l1_def)
qed

lemma update_save:
  assumes "log_inv sha l a"
  shows "\<exists>l'. update sha c s h True l = Some l' \<and> log_inv sha l' (a_update c s h a)"
proof -
  obtain ps where ps: "linked l ps" "a = abs l ps" "log_hash l = a_hash sha a"
    using assms by (auto simp: log_inv_def)
  show ?thesis
  proof (cases "nodes l c")
    case None
    with linked_pending [OF ps(1)] have "c \<notin> set (a_pending a)" by (simp add: ps(2) abs_def)
    with None ps show ?thesis
      by (auto simp: update_def a_update_def log_inv_def linked_set abs_def a_hash_def intro!: exI [of _ ps])
  next
    case (Some n)
    obtain xs ys where p: "ps = xs @ (n, c) # ys" "removeAll c (map snd ps) = map snd (xs @ ys)"
      using linked_node [OF ps(1) Some] .
    obtain l2 where l2: "unlink n c l = Some l2" "linked l2 (xs @ ys)" "synced l2 = synced l"
        "syncedHash l2 = syncedHash l" "pendingUpd l2 = pendingUpd l"
      using unlink_linked ps(1) p(1) by blast
    have "c \<in> set (a_pending a)" using p(1) by (simp add: ps(2) abs_def)
    then have "a_update c s h a =
        (if s > synced l2 then (abs l2 (xs @ ys))\<lparr>a_synced := s, a_syncedHash := h\<rparr> else abs l2 (xs @ ys))"
      using p(2) l2 by (simp add: a_update_def a_sync_def ps(2) abs_def)
    with resync_inv [OF l2(2), of sha s h] Some l2(1) show ?thesis
      by (auto simp: update_def Let_def simp del: if_split)
  qed
qed

lemma update_early:
  assumes "log_inv sha l a"
  shows "\<exists>l'. update sha c s h False l = Some l' \<and> log_inv sha l' (a_sync c s h a)"
proof -
  obtain ps where ps: "linked l ps" "a = abs l ps" "log_hash l = a_hash sha a"
    using assms by (auto simp: log_inv_def)
  note pending = linked_pending [OF ps(1), of c]
  show ?thesis
  proof (cases "nodes l c = None")
  case False
  then have "c \<in> set (a_pending a)" using pending by (simp add: ps(2) abs_def)
  with False update_save [OF assms, of c s h] show ?thesis
    by (simp add: update_def a_update_def)
next
  case True
  have "c \<notin> set (a_pending a)" using pending True by (simp add: ps(2) abs_def)
  then have r: "a_sync c s h a = (if s > synced l then (abs l ps)\<lparr>a_synced := s, a_syncedHash := h\<rparr> else abs l ps)"
    by (simp add: a_sync_def ps(2) abs_def removeAll_id)
  show ?thesis
  proof (cases "s > synced l")
    case False
    then show ?thesis using True assms ps(2) r by (simp add: update_def)
  next
    case s: True
    with resync_inv [OF ps(1), of sha s h] True r show ?thesis
      by (auto simp: update_def Let_def)
  qed
  qed
qed

lemma linked_append_node:
  assumes l: "linked l ps" and c: "c \<notin> set (map snd ps)" and tail: "ps \<noteq> []"
  defines "n \<equiv> fresh l"
  defines "h \<equiv> (heap l)(n \<mapsto> \<lparr>node_id = c, node_next = None, node_previous = None\<rparr>)"
  shows "\<exists>h' h''. set_previous (Some n) (final None (map fst ps)) h = Some h' \<and>
      set_next (final None (map fst ps)) (Some n) h' = Some h'' \<and>
      dseg h'' None (ps @ [(n, c)]) None \<and>
      set_next (final None (map fst ps)) (Some n) h \<bind> set_previous (Some n) (final None (map fst ps)) = Some h''"
proof -
  obtain xs p d where ps: "ps = xs @ [(p, d)]" using tail by (metis old.prod.exhaust rev_exhaust)
  have n: "n \<notin> fst ` set ps" using l by (auto simp: linked_def n_def)
  then have pn: "p \<noteq> n" by (simp add: ps)
  let ?prev = "final None (map fst xs)"
  have d: "dseg (heap l) None xs (Some p)" "heap l p = Some \<lparr>node_id = d, node_next = None, node_previous = ?prev\<rparr>"
    and dist: "p \<notin> fst ` set xs" using l by (auto simp: linked_def ps dseg_append)
  let ?h'' = "(heap l)(n \<mapsto> \<lparr>node_id = c, node_next = None, node_previous = Some p\<rparr>,
      p \<mapsto> \<lparr>node_id = d, node_next = Some n, node_previous = ?prev\<rparr>)"
  have "dseg ?h'' None (ps @ [(n, c)]) None"
    using d dist n pn by (simp add: ps dseg_append dseg_frame)
  moreover have "set_previous (Some n) (Some p) h = Some (h(n \<mapsto> \<lparr>node_id = c, node_next = None, node_previous = Some p\<rparr>))"
    by (simp add: set_previous_def h_def)
  moreover have "set_next (Some p) (Some n) (h(n \<mapsto> \<lparr>node_id = c, node_next = None, node_previous = Some p\<rparr>)) = Some ?h''"
    using d pn by (simp add: set_next_def h_def)
  moreover have "set_next (Some p) (Some n) h \<bind> set_previous (Some n) (Some p) = Some ?h''"
    using d pn by (simp add: set_next_def set_previous_def h_def fun_upd_twist)
  ultimately show ?thesis by (simp add: ps)
qed

lemma linked_snoc:
  assumes l: "linked l ps" and c: "c \<notin> set (map snd ps)"
    and l': "dseg (heap l') None (ps @ [(fresh l, c)]) None" "nodes l' = (nodes l)(c \<mapsto> fresh l)" "fresh l' = fresh l + 1"
      "pendingHead l' = first (map fst (ps @ [(fresh l, c)])) None"
      "pendingTail l' = Some (fresh l) \<or> ps = [] \<and> pendingTail l' = None"
  shows "linked l' (ps @ [(fresh l, c)])"
proof -
  have "\<forall>p \<in> fst ` set ps. p < fresh l" and nd: "\<forall>c a. nodes l c = Some a \<longleftrightarrow> (a, c) \<in> set ps"
    and ds: "distinct (map fst ps)" "distinct (map snd ps)"
    using l by (simp_all add: linked_def)
  then have "fresh l \<notin> fst ` set ps" "\<forall>p \<in> fst ` set (ps @ [(fresh l, c)]). p < fresh l'" using l'(3) by fastforce+
  moreover have "nodes l' c' = Some a \<longleftrightarrow> (a, c') \<in> set (ps @ [(fresh l, c)])" for c' a
    using nd c by (cases "c' = c") (auto simp: l'(2) image_iff)
  moreover have "pendingTail l' = final None (map fst (ps @ [(fresh l, c)])) \<or>
      length (ps @ [(fresh l, c)]) = 1 \<and> pendingTail l' = None" using l'(5) by auto
  ultimately show ?thesis unfolding linked_def using ds c l' by auto
qed

lemma Append_steps:
  assumes "l1 = l\<lparr>heap := (heap l)(fresh l \<mapsto> \<lparr>node_id = c, node_next = None, node_previous = None\<rparr>),
        fresh := fresh l + 1, nodes := (nodes l)(c \<mapsto> fresh l)\<rparr>"
    and "pendingUpd l c = None" "pendingHead l1 = Some p"
    and "(case pendingTail l1 of
              None \<Rightarrow> do { h \<leftarrow> set_previous (Some (fresh l)) (Some p) (heap l1); h \<leftarrow> set_next (Some p) (Some (fresh l)) h;
                          Some (l1\<lparr>pendingTail := Some (fresh l), heap := h\<rparr>) }
            | Some pt \<Rightarrow> do { h \<leftarrow> set_next (Some pt) (Some (fresh l)) (heap l1); h \<leftarrow> set_previous (Some (fresh l)) (Some pt) h;
                          Some (l1\<lparr>pendingTail := Some (fresh l), heap := h\<rparr>) }) = Some l2"
  shows "Append sha c l = Some (hash sha (log_hash l2) c, l2\<lparr>log_hash := hash sha (log_hash l2) c\<rparr>)"
  unfolding Append_def assms(2) option.case Let_def assms(1) [symmetric] assms(3,4) by simp

lemma append_inv:
  assumes "log_inv sha l a" "c \<notin> set (a_pending a)"
  shows "\<exists>l'. Append sha c l = Some (fst (a_append sha c a), l') \<and> log_inv sha l' (snd (a_append sha c a))"
proof -
  obtain ps where ps: "linked l ps" "a = abs l ps" "log_hash l = a_hash sha a"
    using assms(1) by (auto simp: log_inv_def)
  have early: "a_early a = pendingUpd l" by (simp add: ps(2) abs_def)
  have c: "c \<notin> set (map snd ps)" using assms(2) by (simp add: ps(2) abs_def)
  show ?thesis
  proof (cases "pendingUpd l c")
    case (Some upd)
    have "log_inv sha (l\<lparr>pendingUpd := (pendingUpd l)(c := None)\<rparr>) (a\<lparr>a_early := (a_early a)(c := None)\<rparr>)"
      using ps by (auto simp: log_inv_def linked_set abs_def a_hash_def intro!: exI [of _ ps])
    from update_early [OF this, of c "upd_seqnum upd" "upd_hash upd ! 0"] Some show ?thesis
      by (auto simp: Append_def a_append_def early)
  next
    case None
    let ?n = "fresh l"
    let ?l = "l\<lparr>heap := (heap l)(?n \<mapsto> \<lparr>node_id = c, node_next = None, node_previous = None\<rparr>),
        fresh := ?n + 1, nodes := (nodes l)(c \<mapsto> ?n)\<rparr>"
    let ?a = "a\<lparr>a_pending := a_pending a @ [c]\<rparr>"
    have app: "a_append sha c a = (a_hash sha ?a, ?a)" using None by (simp add: a_append_def early Let_def)
    have hsh: "a_hash sha ?a = hash sha (log_hash l) c" by (simp add: ps(3) a_hash_def)
    show ?thesis
    proof (cases "ps = []")
      case True
      let ?h = "hash sha (syncedHash l) c"
      let ?l' = "?l\<lparr>pendingHead := Some ?n, log_hash := ?h\<rparr>"
      have "pendingHead l = None" "pendingTail l = None" using ps(1) True by (auto simp: linked_def)
      then have "Append sha c l = Some (?h, ?l')" using None by (simp add: Append_def Let_def)
      moreover have "linked ?l' (ps @ [(?n, c)])"
        using \<open>pendingTail l = None\<close> True by (intro linked_snoc [OF ps(1) c]) simp_all
      moreover have "?h = a_hash sha ?a" using True ps by (simp add: a_hash_def abs_def)
      moreover have "?a = abs ?l' (ps @ [(?n, c)])" by (simp add: abs_def ps(2))
      moreover have "log_hash ?l' = ?h" by simp
      ultimately show ?thesis unfolding app fst_conv snd_conv log_inv_def by metis
    next
      case False
      then obtain p where head: "pendingHead l = Some p" "Some p = first (map fst ps) None"
        using ps(1) by (cases ps) (auto simp: linked_def)
      obtain h' h'' where h: "set_previous (Some ?n) (final None (map fst ps)) (heap ?l) = Some h'"
        "set_next (final None (map fst ps)) (Some ?n) h' = Some h''"
        "dseg h'' None (ps @ [(?n, c)]) None"
        "set_next (final None (map fst ps)) (Some ?n) (heap ?l) \<bind> set_previous (Some ?n) (final None (map fst ps)) = Some h''"
        using linked_append_node [OF ps(1) c False] by auto
      let ?l' = "?l\<lparr>pendingTail := Some ?n, heap := h''\<rparr>"
      have "(case pendingTail ?l of
              None \<Rightarrow> do { h \<leftarrow> set_previous (Some ?n) (Some p) (heap ?l); h \<leftarrow> set_next (Some p) (Some ?n) h;
                          Some (?l\<lparr>pendingTail := Some ?n, heap := h\<rparr>) }
            | Some pt \<Rightarrow> do { h \<leftarrow> set_next (Some pt) (Some ?n) (heap ?l); h \<leftarrow> set_previous (Some ?n) (Some pt) h;
                          Some (?l\<lparr>pendingTail := Some ?n, heap := h\<rparr>) }) = Some ?l'"
      proof (cases "pendingTail l")
        case None
        then have "length ps = 1" "final None (map fst ps) = Some p"
          using ps(1) False head(2) by (cases ps rule: rev_cases; auto simp: linked_def first_append)+
        then show ?thesis using None h(1,2) by simp
      next
        case (Some pt)
        then have "final None (map fst ps) = Some pt" using ps(1) by (auto simp: linked_def)
        then show ?thesis using Some h(4) by (auto simp: bind_eq_Some_conv)
      qed
      from Append_steps [OF refl None _ this] head(1)
      have "Append sha c l = Some (hash sha (log_hash l) c, ?l'\<lparr>log_hash := hash sha (log_hash l) c\<rparr>)" by simp
      moreover have "linked (?l'\<lparr>log_hash := hash sha (log_hash l) c\<rparr>) (ps @ [(?n, c)])"
        using h(3) head False by (intro linked_snoc [OF ps(1) c]) (simp_all add: first_append, cases ps, auto)
      moreover have "?a = abs (?l'\<lparr>log_hash := hash sha (log_hash l) c\<rparr>) (ps @ [(?n, c)])"
        by (simp add: abs_def ps(2))
      moreover have "log_hash (?l'\<lparr>log_hash := hash sha (log_hash l) c\<rparr>) = hash sha (log_hash l) c" by simp
      ultimately show ?thesis using hsh unfolding app fst_conv snd_conv log_inv_def by metis
    qed
  qed
qed

section \<open>Refinement\<close>

datatype log_op = AppendOp CommandId | UpdateOp CommandId int SHash

text \<open>A run of the log, with the hashes \<open>Append\<close> returned; \<open>None\<close> if a call panics or does not end.\<close>

fun run_log :: "(bytes \<Rightarrow> bytes) \<Rightarrow> log_op list \<Rightarrow> HashLog \<Rightarrow> (SHash list \<times> HashLog) option" where
  "run_log sha [] l = Some ([], l)"
| "run_log sha (AppendOp c # ops) l =
     do { (h, l) \<leftarrow> Append sha c l; (hs, l) \<leftarrow> run_log sha ops l; Some (h # hs, l) }"
| "run_log sha (UpdateOp c s h # ops) l = do { l \<leftarrow> Update sha c s h l; run_log sha ops l }"

fun run_abs :: "(bytes \<Rightarrow> bytes) \<Rightarrow> log_op list \<Rightarrow> abs_log \<Rightarrow> SHash list \<times> abs_log" where
  "run_abs sha [] a = ([], a)"
| "run_abs sha (AppendOp c # ops) a =
     (let (h, a) = a_append sha c a; (hs, a) = run_abs sha ops a in (h # hs, a))"
| "run_abs sha (UpdateOp c s h # ops) a = run_abs sha ops (a_update c s h a)"

text \<open>A command is appended only while it is not pending.\<close>

fun appends_ok :: "(bytes \<Rightarrow> bytes) \<Rightarrow> log_op list \<Rightarrow> abs_log \<Rightarrow> bool" where
  "appends_ok sha [] a = True"
| "appends_ok sha (AppendOp c # ops) a =
     (c \<notin> set (a_pending a) \<and> appends_ok sha ops (snd (a_append sha c a)))"
| "appends_ok sha (UpdateOp c s h # ops) a = appends_ok sha ops (a_update c s h a)"

definition new_abs :: abs_log where
  "new_abs = \<lparr>a_synced = -1, a_syncedHash = zero_SHash, a_pending = [], a_early = Map.empty\<rparr>"

lemma run_log_refines:
  "log_inv sha l a \<Longrightarrow> appends_ok sha ops a \<Longrightarrow>
   \<exists>l'. run_log sha ops l = Some (fst (run_abs sha ops a), l') \<and> log_inv sha l' (snd (run_abs sha ops a))"
proof (induction ops arbitrary: l a)
  case Nil
  then show ?case by simp
next
  case (Cons op ops)
  show ?case
  proof (cases op)
    case (AppendOp c)
    then obtain l2 where "Append sha c l = Some (fst (a_append sha c a), l2)" "log_inv sha l2 (snd (a_append sha c a))"
      using append_inv [OF Cons.prems(1)] Cons.prems(2) by auto
    moreover from this Cons.prems(2) AppendOp obtain l' where
      "run_log sha ops l2 = Some (fst (run_abs sha ops (snd (a_append sha c a))), l')"
      "log_inv sha l' (snd (run_abs sha ops (snd (a_append sha c a))))"
      using Cons.IH [of l2 "snd (a_append sha c a)"] by auto
    ultimately show ?thesis using AppendOp by (simp add: split_beta Let_def)
  next
    case (UpdateOp c s h)
    then obtain l2 where "Update sha c s h l = Some l2" "log_inv sha l2 (a_update c s h a)"
      using update_save [OF Cons.prems(1), of c s h] by (auto simp: Update_def)
    with Cons.IH [of l2] Cons.prems(2) UpdateOp show ?thesis by auto
  qed
qed

text \<open>
  C14: the linked list with its pointers, map of nodes and saved updates implements the abstract log:
  as long as no pending command is appended again, no operation dereferences a dangling pointer or
  loops, \<open>Append\<close> returns the hashes the abstract log gives, and the hash of the log is always the
  hash of the last synchronised command extended by the pending commands in order.
\<close>

theorem hash_log_refines_list:
  assumes "appends_ok sha ops new_abs"
  shows "\<exists>l. run_log sha ops NewHashLog = Some (fst (run_abs sha ops new_abs), l) \<and>
    synced l = a_synced (snd (run_abs sha ops new_abs)) \<and>
    log_hash l = foldl (hash sha) (a_syncedHash (snd (run_abs sha ops new_abs))) (a_pending (snd (run_abs sha ops new_abs)))"
proof -
  have "log_inv sha NewHashLog new_abs" using log_inv_New by (simp add: new_abs_def)
  from run_log_refines [OF this assms] obtain l where
    "run_log sha ops NewHashLog = Some (fst (run_abs sha ops new_abs), l)" "log_inv sha l (snd (run_abs sha ops new_abs))"
    by auto
  moreover from this(2) have "log_hash l = a_hash sha (snd (run_abs sha ops new_abs))"
    "synced l = a_synced (snd (run_abs sha ops new_abs))" by (auto simp: log_inv_def abs_def)
  ultimately show ?thesis by (simp add: a_hash_def)
qed

theorem hash_log_refines_list_witness:
  "\<exists>l hs. run_log id [AppendOp (CommandId 1 1), AppendOp (CommandId 2 1), UpdateOp (CommandId 1 1) 0 zero_SHash] NewHashLog = Some (hs, l) \<and>
     log_hash l = hash id zero_SHash (CommandId 2 1)"
proof -
  let ?ops = "[AppendOp (CommandId 1 1), AppendOp (CommandId 2 1), UpdateOp (CommandId 1 1) 0 zero_SHash]"
  have "appends_ok id ?ops new_abs" by (simp add: new_abs_def a_append_def Let_def)
  from hash_log_refines_list [OF this] show ?thesis
    by (auto simp: new_abs_def a_append_def a_update_def a_sync_def Let_def)
qed

section \<open>What equal hashes say\<close>

text \<open>Without collisions, the hash of a path determines where it started and its commands.\<close>

lemma hash_inject:
  assumes "inj sha" "CommandId_ok c" "CommandId_ok d" "hash sha x c = hash sha y d"
  shows "x = y \<and> c = d"
proof -
  let ?t = "\<lambda>c. put_le 4 (ClientId c) @ put_le 4 (SeqNum c)"
  have "H x @ ?t c = H y @ ?t d" using assms(1,4) by (simp add: hash_def inj_eq del: put_le.simps)
  then have "H x = H y" "?t c = ?t d"
    by (simp_all add: append_eq_append_conv del: put_le.simps append_assoc)
  then have "put_le 4 (ClientId c) = put_le 4 (ClientId d)" "put_le 4 (SeqNum c) = put_le 4 (SeqNum d)"
    by (simp_all add: append_eq_append_conv del: put_le.simps)
  then have "ClientId c = ClientId d" "SeqNum c = SeqNum d"
    using assms(2,3) i32_at_put by (metis CommandId_ok_def)+
  with \<open>H x = H y\<close> show ?thesis by (simp add: CommandId.expand)
qed

lemma foldl_hash_inject:
  "inj sha \<Longrightarrow> list_all CommandId_ok xs \<Longrightarrow> list_all CommandId_ok ys \<Longrightarrow> length xs = length ys \<Longrightarrow>
   foldl (hash sha) i xs = foldl (hash sha) j ys \<Longrightarrow> i = j \<and> xs = ys"
proof (induction xs arbitrary: ys rule: rev_induct)
  case Nil
  then show ?case by simp
next
  case (snoc x xs)
  then obtain zs z where ys: "ys = zs @ [z]" by (metis length_append_singleton length_0_conv nat.distinct(1) rev_exhaust)
  with snoc.prems hash_inject [of sha x z] have "x = z" "foldl (hash sha) i xs = foldl (hash sha) j zs" by auto
  with snoc ys show ?case by auto
qed

text \<open>
  Replicas whose logs have the same hash and equally many pending commands have the same
  synchronised prefix (by its hash) and the same pending commands in the same order: the fast path,
  which compares only hashes, agrees on the order of commands.  SHA-256 is assumed not to collide.
\<close>

theorem equal_hashes_equal_paths:
  assumes "inj sha" and "appends_ok sha ops new_abs" "appends_ok sha ops' new_abs"
    and "run_log sha ops NewHashLog = Some (hs, l)" "run_log sha ops' NewHashLog = Some (hs', l')"
    and "a = snd (run_abs sha ops new_abs)" "a' = snd (run_abs sha ops' new_abs)"
    and "list_all CommandId_ok (a_pending a)" "list_all CommandId_ok (a_pending a')"
    and "length (a_pending a) = length (a_pending a')" "log_hash l = log_hash l'"
  shows "a_syncedHash a = a_syncedHash a' \<and> a_pending a = a_pending a'"
proof -
  have "log_hash l = foldl (hash sha) (a_syncedHash a) (a_pending a)"
    using hash_log_refines_list [OF assms(2)] assms(4,6) by auto
  moreover have "log_hash l' = foldl (hash sha) (a_syncedHash a') (a_pending a')"
    using hash_log_refines_list [OF assms(3)] assms(5,7) by auto
  ultimately have "foldl (hash sha) (a_syncedHash a) (a_pending a) = foldl (hash sha) (a_syncedHash a') (a_pending a')"
    using assms(11) by simp
  with foldl_hash_inject [OF assms(1,8,9,10)] show ?thesis by blast
qed

theorem equal_hashes_equal_paths_witness:
  "a_pending (snd (run_abs id [AppendOp (CommandId 1 1)] new_abs)) = [CommandId 1 1]"
proof -
  have ok: "appends_ok id [AppendOp (CommandId 1 1)] new_abs" by (simp add: new_abs_def)
  from hash_log_refines_list [OF ok] obtain l where l:
    "run_log id [AppendOp (CommandId 1 1)] NewHashLog = Some (fst (run_abs id [AppendOp (CommandId 1 1)] new_abs), l)"
    by blast
  have "a_syncedHash (snd (run_abs id [AppendOp (CommandId 1 1)] new_abs)) = a_syncedHash (snd (run_abs id [AppendOp (CommandId 1 1)] new_abs)) \<and>
      a_pending (snd (run_abs id [AppendOp (CommandId 1 1)] new_abs)) = a_pending (snd (run_abs id [AppendOp (CommandId 1 1)] new_abs))"
    by (rule equal_hashes_equal_paths [OF _ ok ok l l refl refl])
      (simp_all add: new_abs_def a_append_def Let_def CommandId_ok_def i32_def)
  then show ?thesis by (simp add: new_abs_def a_append_def Let_def)
qed

text \<open>
  \<open>SHashesEq\<close>, used to compare the checksums of two acknowledgements, is not symmetric: it only
  looks the hashes of its first argument up in the second, so it also accepts lists of the same
  length in which the second has a hash the first does not have.
\<close>

theorem SHashesEq_not_symmetric:
  assumes "H x \<noteq> H y"
  shows "SHashesEq [x, x] [x, y] \<and> \<not> SHashesEq [x, y] [x, x]"
  using assms by (auto simp: SHashesEq_def)

theorem SHashesEq_not_symmetric_witness:
  "\<not> SHashesEq [zero_SHash, \<lparr>H = [1]\<rparr>] [zero_SHash, zero_SHash]"
proof -
  have "H zero_SHash \<noteq> H \<lparr>H = [1]\<rparr>" by (auto simp: zero_SHash_def dest: arg_cong [of _ _ length])
  from SHashesEq_not_symmetric [OF this] show ?thesis by blast
qed

end
