(* ===== verification/DelayChan.thy ===== *)
theory DelayChan
  imports ClientMsg
begin

text \<open>
  The delayed propose channel of a client connection (\<open>DelayProposeChan\<close> in
  \<open>replica/defs/latency.go\<close>): a proposal is logged when it arrives and handled after the delay; the
  log, a binary search tree over command numbers, passes proposals on in the order of their numbers.

  \<open>inorderReady\<close> changes the tree in place and returns a new root.  The model returns both: the
  tree at the old root after the changes, and the tree at the root that is returned.  With no delay
  proposals go straight to the channel.
\<close>

datatype bstNode = Leaf | Node bstNode Propose bool bstNode

abbreviation cid :: "Propose \<Rightarrow> int" where
  "cid \<equiv> Propose_CommandId"

fun bst_insert :: "Propose \<Rightarrow> bstNode \<Rightarrow> bstNode" where
  "bst_insert p Leaf = Node Leaf p False Leaf"
| "bst_insert p (Node l q rd r) =
     (if cid p < cid q then Node (bst_insert p l) q rd r
      else if cid p > cid q then Node l q rd (bst_insert p r)
      else Node l q rd r)"

text \<open>The node with a number, as what follows it: whether it exists, and \<open>n.ready = true\<close> on it.\<close>

fun find_node :: "int \<Rightarrow> bstNode \<Rightarrow> bool" where
  "find_node i Leaf = False"
| "find_node i (Node l q rd r) =
     (if cid q = i then True else if cid q < i then find_node i r else find_node i l)"

fun set_ready :: "int \<Rightarrow> bstNode \<Rightarrow> bstNode" where
  "set_ready i Leaf = Leaf"
| "set_ready i (Node l q rd r) =
     (if cid q = i then Node l q True r
      else if cid q < i then Node l q rd (set_ready i r) else Node (set_ready i l) q rd r)"

fun inorderReady :: "bstNode \<Rightarrow> int \<Rightarrow> bstNode \<times> bstNode \<times> int \<times> Propose list" where
  "inorderReady Leaf mn = (Leaf, Leaf, mn, [])"
| "inorderReady (Node lt p rd rt) mn =
     (let (lt, l, i, handled) = inorderReady lt mn;
          lt = (if l = Leaf then Leaf else lt)
      in if \<not> rd \<or> i \<noteq> wrap32 (cid p - 1) then (Node lt p rd rt, Node lt p rd rt, i, handled)
         else let (rt, r, j, handled') = inorderReady rt (wrap32 (i + 1))
              in (Node lt p rd rt, r, j, handled @ p # handled'))"

datatype logCall = LOG_INSERT Propose | LOG_HANDLE Propose

text \<open>The loop of the channel's goroutine: the state is the log and \<open>min\<close>.\<close>

definition NewDelayProposeChan :: "bstNode \<times> int" where
  "NewDelayProposeChan = (Leaf, -1)"

fun delay_step :: "logCall \<Rightarrow> bstNode \<times> int \<Rightarrow> (bstNode \<times> int) \<times> Propose list" where
  "delay_step (LOG_INSERT p) (log, mn) = ((bst_insert p log, mn), [])"
| "delay_step (LOG_HANDLE p) (log, mn) =
     (let log = (if find_node (cid p) log then log else bst_insert p log);
          log = set_ready (cid p) log;
          (_, log, mn, handled) = inorderReady log mn
      in ((log, mn), handled))"

fun delay_run :: "logCall list \<Rightarrow> bstNode \<times> int \<Rightarrow> (bstNode \<times> int) \<times> Propose list" where
  "delay_run [] st = (st, [])"
| "delay_run (c # cs) st =
     (let (st, out) = delay_step c st; (st, outs) = delay_run cs st in (st, out @ outs))"

section \<open>Proposals logged in order\<close>

text \<open>
  A client numbers its commands from 0 and its connection delivers them in order.  The log is then a
  chain to the right; \<open>chain\<close> lists its proposals with their flags.
\<close>

fun chain :: "(Propose \<times> bool) list \<Rightarrow> bstNode" where
  "chain [] = Leaf"
| "chain ((p, rd) # ps) = Node Leaf p rd (chain ps)"

fun numbered :: "int \<Rightarrow> (Propose \<times> bool) list \<Rightarrow> bool" where
  "numbered i [] = True"
| "numbered i ((p, rd) # ps) = (cid p = i \<and> numbered (i + 1) ps)"

lemma numbered_append: "numbered i (xs @ ys) \<longleftrightarrow> numbered i xs \<and> numbered (i + int (length xs)) ys"
  by (induction i xs rule: numbered.induct) (auto simp: add.assoc add.commute)

lemma chain_insert: "numbered i ps \<Longrightarrow> cid p = i + int (length ps) \<Longrightarrow> bst_insert p (chain ps) = chain (ps @ [(p, False)])"
  by (induction i ps rule: numbered.induct) auto

lemma chain_find: "numbered i ps \<Longrightarrow> find_node k (chain ps) \<longleftrightarrow> i \<le> k \<and> k < i + int (length ps)"
  by (induction i ps rule: numbered.induct) auto

lemma chain_set_ready:
  "numbered i ps \<Longrightarrow> i \<le> k \<Longrightarrow> k < i + int (length ps) \<Longrightarrow>
   set_ready k (chain ps) = chain (ps[nat (k - i) := (fst (ps ! nat (k - i)), True)])"
proof (induction i ps rule: numbered.induct)
  case (1 i)
  then show ?case by simp
next
  case (2 i p rd ps)
  show ?case
  proof (cases "k = i")
    case True
    with 2 show ?thesis by simp
  next
    case False
    then have "nat (k - i) = Suc (nat (k - (i + 1)))" using "2.prems"(2) by simp
    with 2 False show ?thesis by simp
  qed
qed

text \<open>On a chain, what is passed on is the run of ready proposals at its start.\<close>

lemma chain_inorderReady:
  "numbered (mn + 1) ps \<Longrightarrow> -1 \<le> mn \<Longrightarrow> mn + int (length ps) < 2 ^ 31 \<Longrightarrow>
   snd (inorderReady (chain ps) mn) =
     (chain (dropWhile snd ps), mn + int (length (takeWhile snd ps)), map fst (takeWhile snd ps))"
proof (induction ps arbitrary: mn)
  case Nil
  then show ?case by simp
next
  case (Cons x ps)
  obtain p rd where x: "x = (p, rd)" by fastforce
  have w: "wrap32 mn = mn" "wrap32 (mn + 1) = mn + 1"
    using Cons.prems by (auto simp: i32_def)
  have p: "cid p = mn + 1" "numbered (mn + 1 + 1) ps" using Cons.prems(1) by (simp_all add: x)
  show ?case
  proof (cases rd)
    case False
    then show ?thesis using w p by (simp add: x)
  next
    case True
    have IH: "snd (inorderReady (chain ps) (mn + 1)) =
       (chain (dropWhile snd ps), mn + 1 + int (length (takeWhile snd ps)), map fst (takeWhile snd ps))"
      using Cons.prems p by (intro Cons.IH) auto
    obtain t where t: "inorderReady (chain ps) (mn + 1) =
        (t, chain (dropWhile snd ps), mn + 1 + int (length (takeWhile snd ps)), map fst (takeWhile snd ps))"
      using IH by (cases "inorderReady (chain ps) (mn + 1)") auto
    show ?thesis using True w p t by (simp add: x)
  qed
qed

text \<open>
  Calls in which the proposals \<open>p 0, p 1, \<dots>\<close> are logged in order and each is handled after it was
  logged: \<open>n\<close> are logged, those in \<open>S\<close> handled.
\<close>

inductive calls_in_order :: "(nat \<Rightarrow> Propose) \<Rightarrow> nat \<Rightarrow> nat set \<Rightarrow> logCall list \<Rightarrow> bool" for p where
  start: "calls_in_order p 0 {} []"
| logged: "calls_in_order p n S cs \<Longrightarrow> calls_in_order p (Suc n) S (cs @ [LOG_INSERT (p n)])"
| handled: "calls_in_order p n S cs \<Longrightarrow> k < n \<Longrightarrow> k \<notin> S \<Longrightarrow>
    calls_in_order p n (insert k S) (cs @ [LOG_HANDLE (p k)])"

inductive_cases calls_in_order_snoc: "calls_in_order p n S (cs @ [c])"

definition log_of :: "(nat \<Rightarrow> Propose) \<Rightarrow> nat \<Rightarrow> nat \<Rightarrow> nat set \<Rightarrow> (Propose \<times> bool) list" where
  "log_of p d n S = map (\<lambda>k. (p k, k \<in> S)) [d..<n]"

lemma numbered_log_of:
  assumes "\<forall>k. cid (p k) = int k"
  shows "numbered (int d) (log_of p d n S)"
proof (induction "n - d" arbitrary: d)
  case 0
  then show ?case by (simp add: log_of_def)
next
  case (Suc m)
  then have d: "[d..<n] = d # [Suc d..<n]" by (simp add: upt_rec)
  have "numbered (int (Suc d)) (log_of p (Suc d) n S)" using Suc by (intro Suc.hyps(1)) simp
  then show ?case using assms by (simp add: log_of_def d add.commute)
qed

lemma delay_run_append:
  "delay_run (cs @ cs') st =
     (let (st, out) = delay_run cs st; (st, out') = delay_run cs' st in (st, out @ out'))"
  by (induction cs arbitrary: st) (auto simp: Let_def split_beta)

definition done_prefix :: "nat \<Rightarrow> nat set \<Rightarrow> nat" where
  "done_prefix n S = length (takeWhile (\<lambda>k. k \<in> S) [0..<n])"

lemma done_prefix_props: "done_prefix n S \<le> n" "k < done_prefix n S \<Longrightarrow> k \<in> S"
  "done_prefix n S < n \<Longrightarrow> done_prefix n S \<notin> S"
proof -
  show "done_prefix n S \<le> n"
    using length_takeWhile_le [of "\<lambda>k. k \<in> S" "[0..<n]"] by (simp add: done_prefix_def)
  show "k \<in> S" if "k < done_prefix n S"
  proof -
    have "takeWhile (\<lambda>k. k \<in> S) [0..<n] ! k \<in> set (takeWhile (\<lambda>k. k \<in> S) [0..<n])"
      using that by (simp add: done_prefix_def)
    moreover have "takeWhile (\<lambda>k. k \<in> S) [0..<n] ! k = k"
      using that \<open>done_prefix n S \<le> n\<close> by (simp add: done_prefix_def takeWhile_nth)
    ultimately show ?thesis using set_takeWhileD by fastforce
  qed
  show "done_prefix n S \<notin> S" if "done_prefix n S < n"
    using that nth_length_takeWhile [of "\<lambda>k. k \<in> S" "[0..<n]"] by (simp add: done_prefix_def)
qed

lemma done_prefix_unique:
  assumes "d \<le> n" "\<forall>k < d. k \<in> S" "d < n \<longrightarrow> d \<notin> S"
  shows "done_prefix n S = d"
proof (rule linorder_cases)
  assume "done_prefix n S < d"
  then show ?thesis using assms done_prefix_props(3) [of n S] by auto
next
  assume "d < done_prefix n S"
  then show ?thesis using assms(3) done_prefix_props(1) [of n S] done_prefix_props(2) [of d n S] by auto
qed

lemma calls_in_order_handled: "calls_in_order p n S cs \<Longrightarrow> k \<in> S \<Longrightarrow> k < n"
  by (induction rule: calls_in_order.induct) auto

lemma log_of_split:
  assumes "d \<le> e" "e \<le> n" "\<forall>k. d \<le> k \<and> k < e \<longrightarrow> k \<in> S" "e < n \<longrightarrow> e \<notin> S"
  shows "takeWhile snd (log_of p d n S) = map (\<lambda>k. (p k, True)) [d..<e]"
    and "dropWhile snd (log_of p d n S) = log_of p e n S"
proof -
  have "[d..<n] = [d..<e] @ [e..<n]" using assms by (metis le_add_diff_inverse upt_add_eq_append)
  then have l: "log_of p d n S = map (\<lambda>k. (p k, True)) [d..<e] @ log_of p e n S"
    using assms(3) by (auto simp: log_of_def)
  have e: "log_of p e n S = [] \<or> (\<exists>x xs. log_of p e n S = x # xs \<and> \<not> snd x)"
    using assms(4) by (cases "e < n") (auto simp: log_of_def upt_rec)
  show "takeWhile snd (log_of p d n S) = map (\<lambda>k. (p k, True)) [d..<e]" unfolding l
    using e by (subst takeWhile_append2) auto
  show "dropWhile snd (log_of p d n S) = log_of p e n S" unfolding l
    using e by (subst dropWhile_append2) auto
qed

lemma log_of_snoc:
  "d \<le> n \<Longrightarrow> n \<notin> S \<Longrightarrow> log_of p d (Suc n) S = log_of p d n S @ [(p n, False)]"
  by (simp add: log_of_def)

lemma log_of_ready:
  "d \<le> k \<Longrightarrow> k < n \<Longrightarrow>
   (log_of p d n S)[k - d := (fst (log_of p d n S ! (k - d)), True)] = log_of p d n (insert k S)"
  by (rule nth_equalityI) (auto simp: log_of_def nth_list_update)

lemma length_log_of [simp]: "length (log_of p d n S) = n - d"
  by (simp add: log_of_def)

lemma delay_step_insert:
  assumes "\<forall>k. cid (p k) = int k" "d \<le> n" "n \<notin> S"
  shows "delay_step (LOG_INSERT (p n)) (chain (log_of p d n S), mn) = ((chain (log_of p d (Suc n) S), mn), [])"
  using assms chain_insert [OF numbered_log_of [OF assms(1)], of "p n" d n S]
  by (simp add: log_of_snoc of_nat_diff)

lemma delay_step_handle:
  assumes cid: "\<forall>k. cid (p k) = int k" and k: "d \<le> k" "k < n" and n: "n < 2 ^ 31"
    and e: "d \<le> e" "e \<le> n" "\<forall>i. d \<le> i \<and> i < e \<longrightarrow> i \<in> insert k S" "e < n \<longrightarrow> e \<notin> insert k S"
  shows "delay_step (LOG_HANDLE (p k)) (chain (log_of p d n S), int d - 1) =
    ((chain (log_of p e n (insert k S)), int e - 1), map p [d..<e])"
proof -
  have num: "numbered (int d) (log_of p d n T)" for T by (rule numbered_log_of [OF cid])
  have f: "find_node (cid (p k)) (chain (log_of p d n S))"
    using cid k by (simp add: chain_find [OF num])
  have s: "set_ready (cid (p k)) (chain (log_of p d n S)) = chain (log_of p d n (insert k S))"
    using chain_set_ready [OF num [of S], of "int k"] cid k log_of_ready [of d k n p S]
    by (simp add: of_nat_diff nat_diff_distrib)
  have "int n < 2 ^ 31" using of_nat_less_iff [of n "2 ^ 31", where ?'a = int] n by simp
  then have r: "snd (inorderReady (chain (log_of p d n (insert k S))) (int d - 1)) =
      (chain (log_of p e n (insert k S)), int e - 1, map p [d..<e])"
    using num [of "insert k S"] k e(1) log_of_split [OF e, of p]
    by (subst chain_inorderReady) (auto simp: of_nat_diff comp_def)
  show ?thesis using r
    by (cases "inorderReady (chain (log_of p d n (insert k S))) (int d - 1)") (simp add: f s)
qed

lemma delay_run_in_order:
  assumes "calls_in_order p n S cs" "\<forall>k. cid (p k) = int k" "n < 2 ^ 31"
  shows "delay_run cs NewDelayProposeChan =
    ((chain (log_of p (done_prefix n S) n S), int (done_prefix n S) - 1), map p [0..<done_prefix n S])"
  using assms
proof (induction rule: calls_in_order.induct)
  case start
  then show ?case by (simp add: NewDelayProposeChan_def done_prefix_def log_of_def)
next
  case (logged n S cs)
  let ?d = "done_prefix n S"
  have S: "n \<notin> S" using calls_in_order_handled [OF logged.hyps] by blast
  have d: "done_prefix (Suc n) S = ?d"
    using done_prefix_props(1,3) [of n S] done_prefix_props(2) [of _ n S] S
    by (intro done_prefix_unique) (auto simp: less_Suc_eq)
  have IH: "delay_run cs NewDelayProposeChan =
      ((chain (log_of p ?d n S), int ?d - 1), map p [0..<?d])"
    using logged.IH logged.prems by simp
  show ?case
    using delay_step_insert [OF logged.prems(1) done_prefix_props(1) S, where mn = "int ?d - 1"]
    by (simp only: delay_run_append IH d) simp
next
  case (handled n S cs k)
  let ?d = "done_prefix n S" and ?e = "done_prefix n (insert k S)"
  have k: "?d \<le> k" using done_prefix_props(2) [of k n S] handled.hyps by (meson not_le)
  have e: "?d \<le> ?e"
  proof (rule ccontr)
    assume "\<not> ?d \<le> ?e"
    then show False using done_prefix_props(1) [of n S] done_prefix_props(2) [of ?e n S]
        done_prefix_props(3) [of n "insert k S"] by auto
  qed
  have IH: "delay_run cs NewDelayProposeChan =
      ((chain (log_of p ?d n S), int ?d - 1), map p [0..<?d])"
    using handled.IH handled.prems by simp
  have st: "delay_step (LOG_HANDLE (p k)) (chain (log_of p ?d n S), int ?d - 1) =
      ((chain (log_of p ?e n (insert k S)), int ?e - 1), map p [?d..<?e])"
    using k e handled.prems handled.hyps done_prefix_props(1,3) [of n "insert k S"]
      done_prefix_props(2) [of _ n "insert k S"]
    by (intro delay_step_handle) auto
  have u: "[0..<?e] = [0..<?d] @ [?d..<?e]"
    using e by (metis le_add_diff_inverse upt_add_eq_append zero_le)
  show ?case using st by (simp only: delay_run_append IH u map_append) simp
qed

definition a_proposal :: "nat \<Rightarrow> Propose" where
  "a_proposal k = zero_Propose\<lparr>Propose_CommandId := int k\<rparr>"

text \<open>
  A client numbers its commands from 0 and each is handled, its delay over, after it was logged.
  Then, whatever the order in which the delays end, the channel passes on exactly the longest prefix of
  the commands whose delays are over, each once and in the order of their numbers.
\<close>

theorem delayed_proposals_in_order:
  assumes "calls_in_order p n S cs" "\<forall>k. Propose_CommandId (p k) = int k" "n < 2 ^ 31"
  shows "snd (delay_run cs NewDelayProposeChan) = map p [0..<done_prefix n S]"
  using delay_run_in_order [OF assms] by simp

theorem delayed_proposals_in_order_witness:
  "snd (delay_run [LOG_INSERT (a_proposal 0), LOG_INSERT (a_proposal 1), LOG_INSERT (a_proposal 2),
      LOG_HANDLE (a_proposal 1), LOG_HANDLE (a_proposal 0)] NewDelayProposeChan) =
    [a_proposal 0, a_proposal 1]"
proof -
  note start [of a_proposal]
  from logged [OF this] have "calls_in_order a_proposal 1 {} [LOG_INSERT (a_proposal 0)]" by simp
  from logged [OF this] have
    "calls_in_order a_proposal 2 {} [LOG_INSERT (a_proposal 0), LOG_INSERT (a_proposal 1)]"
    by (simp add: numeral_2_eq_2)
  from logged [OF this] have
    "calls_in_order a_proposal 3 {} [LOG_INSERT (a_proposal 0), LOG_INSERT (a_proposal 1), LOG_INSERT (a_proposal 2)]"
    by (simp add: numeral_3_eq_3 numeral_2_eq_2)
  from handled [OF this, of 1] have
    "calls_in_order a_proposal 3 {1} [LOG_INSERT (a_proposal 0), LOG_INSERT (a_proposal 1), LOG_INSERT (a_proposal 2),
      LOG_HANDLE (a_proposal 1)]" by simp
  from handled [OF this, of 0] have c:
    "calls_in_order a_proposal 3 {0, 1} [LOG_INSERT (a_proposal 0), LOG_INSERT (a_proposal 1), LOG_INSERT (a_proposal 2),
      LOG_HANDLE (a_proposal 1), LOG_HANDLE (a_proposal 0)]" by simp
  have d: "map a_proposal [0..<done_prefix 3 {0, 1}] = [a_proposal 0, a_proposal 1]"
    by (simp add: done_prefix_def upt_rec)
  show ?thesis unfolding d [symmetric]
    by (rule delayed_proposals_in_order [OF c]) (simp_all add: a_proposal_def)
qed

text \<open>
  The order of the log calls matters.  When proposals 3, 0 and 1 are logged in this order and the
  delay of 0 ends before that of 1, proposal 1 is never passed on: handling 0 leaves the emptied node in
  place below 3, the next number is looked for below it, and 1 is never the continuation of what it
  reports, although 0 was passed on and 1 is ready.
\<close>

theorem delayed_proposal_stuck:
  "snd (delay_run [LOG_INSERT (a_proposal 3), LOG_INSERT (a_proposal 0), LOG_INSERT (a_proposal 1),
      LOG_HANDLE (a_proposal 0), LOG_HANDLE (a_proposal 1)] NewDelayProposeChan) = [a_proposal 0]"
  by (simp add: a_proposal_def NewDelayProposeChan_def i32_def Let_def)

end
