(* ===== verification/FastPaxos.thy ===== *)
theory FastPaxos
  imports FastPaxosMsg ClientMsg MsgSet
begin

text \<open>
  Fast Paxos with uncoordinated recovery (\<open>fastpaxos/fastpaxos.go\<close>).  Every replica votes for the
  proposals it receives, in the order it receives them, at ballot 0 of successive instances.  A fast
  quorum of equal votes commits; otherwise the votes are read as promises and every replica votes again,
  at ballot 1, for the value it recovers from them.

  The model has the replica's state, its handlers with the recursion among them, and the system of all
  replicas.  A handler that panics ends in \<open>Inl\<close> of the state it reached, one that returns in \<open>Inr\<close>.
  Messages are not consumed: what a replica sent can reach any other replica at any time, never, or more
  than once.
\<close>

section \<open>State\<close>

record fast_instance =
  fi_value :: CommandId
  fi_ballot :: int
  fi_cballot :: int
  fi_committed :: bool
  fi_m2bSets :: "int \<Rightarrow> FastM2B msgset option"

record 'st FastReplica =
  fr_Id :: int
  fr_next :: int
  fr_cmds :: "CommandId \<Rightarrow> GPropose option"
  fr_delivered :: "CommandId set"
  fr_instances :: "int \<Rightarrow> fast_instance option"
  fr_lastExecuted :: int
  fr_defaultFastQuorum :: quorum
  fr_State :: 'st
  fr_sent :: "FastM2B list" \<comment> \<open>given to \<open>SendToAll\<close>, in order\<close>
  fr_replied :: "(GPropose \<times> ProposeReplyTS) list" \<comment> \<open>replies, with the proposals they answer\<close>

type_synonym 'st fast_run = "'st FastReplica + 'st FastReplica"

definition INST_NUM :: int where
  "INST_NUM = 10 ^ 8"

definition NewFastReplica :: "int \<Rightarrow> quorum \<Rightarrow> 'st \<Rightarrow> 'st FastReplica" where
  "NewFastReplica rid Q st =
     \<lparr>fr_Id = rid, fr_next = 0, fr_cmds = Map.empty, fr_delivered = {}, fr_instances = Map.empty,
      fr_lastExecuted = -1, fr_defaultFastQuorum = Q, fr_State = st, fr_sent = [], fr_replied = []\<rparr>"

definition new_instance :: fast_instance where
  "new_instance = \<lparr>fi_value = zero_CommandId, fi_ballot = 0, fi_cballot = 0, fi_committed = False,
     fi_m2bSets = Map.empty\<rparr>"

text \<open>
  \<open>getInstance\<close>.  The slice has \<open>INST_NUM\<close> entries.  Beyond them the code copies it into a longer
  one, which it drops, and calls itself with the same arguments, so that the stack overflows.
\<close>

definition getInstance :: "int \<Rightarrow> 'st FastReplica \<Rightarrow> 'st FastReplica + fast_instance \<times> 'st FastReplica" where
  "getInstance instanceId r =
     (if 0 \<le> instanceId \<and> instanceId < INST_NUM then
        (case fr_instances r instanceId of
           Some i \<Rightarrow> Inr (i, r)
         | None \<Rightarrow> Inr (new_instance, r\<lparr>fr_instances := (fr_instances r)(instanceId \<mapsto> new_instance)\<rparr>))
      else Inl r)"

definition set_instance :: "int \<Rightarrow> fast_instance \<Rightarrow> 'st FastReplica \<Rightarrow> 'st FastReplica" where
  "set_instance instanceId i r = r\<lparr>fr_instances := (fr_instances r)(instanceId \<mapsto> i)\<rparr>"

definition getM2bSet :: "fast_instance \<Rightarrow> int \<Rightarrow> 'st FastReplica \<Rightarrow> FastM2B msgset" where
  "getM2bSet i ballot r =
     (case fi_m2bSets i ballot of Some s \<Rightarrow> s | None \<Rightarrow> NewMsgSet (fr_defaultFastQuorum r))"

definition advanceBallot :: "fast_instance \<Rightarrow> int \<Rightarrow> fast_instance" where
  "advanceBallot i ballot =
     (if ballot > fi_ballot i then i\<lparr>fi_ballot := ballot, fi_cballot := ballot\<rparr> else i)"

definition SendToAll :: "FastM2B \<Rightarrow> 'st FastReplica \<Rightarrow> 'st FastReplica" where
  "SendToAll m2b r = r\<lparr>fr_sent := fr_sent r @ [m2b]\<rparr>"

section \<open>Committing and executing\<close>

text \<open>The body of the loop of \<open>commit\<close>: the command is looked up without a test, so an unknown one panics.\<close>

definition fast_deliver :: "'st treemap \<Rightarrow> CommandId \<Rightarrow> 'st FastReplica \<Rightarrow> 'st fast_run" where
  "fast_deliver T v r =
     (if v \<in> fr_delivered r then Inr r
      else
        let r = r\<lparr>fr_delivered := insert v (fr_delivered r)\<rparr>
        in case fr_cmds r v of
             None \<Rightarrow> Inl r
           | Some p \<Rightarrow>
              (case Execute T (Propose_Command p) (fr_State r) of
                 None \<Rightarrow> Inl r
               | Some (x, st) \<Rightarrow>
                   let res = \<lparr>ProposeReplyTS_OK = 1, ProposeReplyTS_CommandId = Propose_CommandId p,
                              ProposeReplyTS_Value = x, ProposeReplyTS_Timestamp = Propose_Timestamp p\<rparr>;
                       r = r\<lparr>fr_State := st\<rparr>
                   in Inr (if GPropose_Proxy p then r\<lparr>fr_replied := fr_replied r @ [(p, res)]\<rparr> else r)))"

lemma fast_deliver_frame:
  assumes "fast_deliver T v r = Inl r' \<or> fast_deliver T v r = Inr r'"
  shows "fr_lastExecuted r' = fr_lastExecuted r" "fr_instances r' = fr_instances r" "fr_Id r' = fr_Id r"
    "fr_next r' = fr_next r" "fr_cmds r' = fr_cmds r" "fr_sent r' = fr_sent r"
    "fr_defaultFastQuorum r' = fr_defaultFastQuorum r"
  using assms by (auto simp: fast_deliver_def Let_def split: if_splits option.splits prod.splits)

function exec_loop :: "'st treemap \<Rightarrow> 'st FastReplica \<Rightarrow> 'st fast_run" where
  "exec_loop T r =
     (case getInstance (fr_lastExecuted r + 1) r of
        Inl r \<Rightarrow> Inl r
      | Inr (i, r) \<Rightarrow>
          if fi_committed i then
            (case fast_deliver T (fi_value i) r of
               Inl r \<Rightarrow> Inl r
             | Inr r \<Rightarrow> exec_loop T (r\<lparr>fr_lastExecuted := fr_lastExecuted r + 1\<rparr>))
          else Inr r)"
  by pat_completeness auto
termination
proof (relation "measure (\<lambda>(T, r). nat (INST_NUM - fr_lastExecuted r))")
  show "wf (measure (\<lambda>(T :: 'st treemap, r). nat (INST_NUM - fr_lastExecuted r)))" by simp
next
  fix T and r :: "'st FastReplica" and b i r' r''
  assume "getInstance (fr_lastExecuted r + 1) r = Inr b" "(i, r') = b"
    "fast_deliver T (fi_value i) r' = Inr r''"
  moreover from this have "fr_lastExecuted r' = fr_lastExecuted r" "fr_lastExecuted r + 1 < INST_NUM"
    by (auto simp: getInstance_def split: if_splits option.splits)
  ultimately show "((T, r''\<lparr>fr_lastExecuted := fr_lastExecuted r'' + 1\<rparr>), T, r)
      \<in> measure (\<lambda>(T, r). nat (INST_NUM - fr_lastExecuted r))"
    using fast_deliver_frame(1) [of T "fi_value i" r' r''] by simp
qed

declare exec_loop.simps [simp del]

definition fast_commit :: "'st treemap \<Rightarrow> int \<Rightarrow> CommandId \<Rightarrow> 'st FastReplica \<Rightarrow> 'st fast_run" where
  "fast_commit T instanceId v r =
     (case getInstance instanceId r of
        Inl r \<Rightarrow> Inl r
      | Inr (i, r) \<Rightarrow>
          exec_loop T (set_instance instanceId (i\<lparr>fi_value := v, fi_committed := True\<rparr>) r))"

section \<open>Votes\<close>

text \<open>
  \<open>handleM2Bs\<close>, the handler of the message sets, up to its last line: the message it returns is the one
  the code then gives to \<open>handleM2B\<close>.  The sort is by \<open>Cballot\<close>, then by \<open>Replica\<close>.
\<close>

definition handleM2Bs ::
  "'st treemap \<Rightarrow> FastM2B list \<Rightarrow> 'st FastReplica \<Rightarrow> 'st FastReplica + 'st FastReplica \<times> FastM2B option" where
  "handleM2Bs T m2bs r =
     (if m2bs = [] then Inl r
      else
        let v = FastM2B_CmdId (hd m2bs)
        in if \<forall>m \<in> set m2bs. FastM2B_CmdId m = v then
             (case fast_commit T (FastM2B_InstanceId (hd m2bs)) v r of
                Inl r \<Rightarrow> Inl r | Inr r \<Rightarrow> Inr (r, None))
           else
             let maxV = last (sort_key FastM2B_Cballot (sort_key FastM2B_Replica m2bs));
                 j = FastM2B_InstanceId maxV
             in case fr_instances r j of
                  None \<Rightarrow> Inl r
                | Some i \<Rightarrow>
                    if fi_ballot i \<noteq> FastM2B_Ballot maxV then Inr (r, None)
                    else
                      let i = advanceBallot (i\<lparr>fi_value := FastM2B_CmdId maxV\<rparr>) (wrap32 (FastM2B_Ballot maxV + 1));
                          m2b = \<lparr>FastM2B_CmdId = fi_value i, FastM2B_Ballot = fi_ballot i,
                                 FastM2B_Cballot = fi_cballot i, FastM2B_Replica = fr_Id r,
                                 FastM2B_InstanceId = j\<rparr>
                      in Inr (SendToAll m2b (set_instance j i r), Some m2b))"

definition addM2B :: "FastM2B \<Rightarrow> 'st FastReplica \<Rightarrow> 'st FastReplica + 'st FastReplica \<times> FastM2B list option" where
  "addM2B m2b r =
     (case getInstance (FastM2B_InstanceId m2b) r of
        Inl r \<Rightarrow> Inl r
      | Inr (i, r) \<Rightarrow>
          let (res, s) = Add (\<lambda>_ _. True) (FastM2B_Replica m2b) False m2b (getM2bSet i (FastM2B_Ballot m2b) r)
          in Inr (set_instance (FastM2B_InstanceId m2b)
                    (i\<lparr>fi_m2bSets := (fi_m2bSets i)(FastM2B_Ballot m2b \<mapsto> s)\<rparr>) r,
                  map_option snd (call res)))"

text \<open>
  \<open>handleM2B\<close>, and through the handler of the message set \<open>handleM2B\<close> again.  \<open>None\<close> is a recursion
  that does not end: the replica votes again and again for the same value at the last ballot.
\<close>

partial_function (option) handleM2B ::
  "'st treemap \<Rightarrow> FastM2B \<Rightarrow> 'st FastReplica \<Rightarrow> 'st fast_run option" where
  "handleM2B T m2b r =
     (case addM2B m2b r of
        Inl r \<Rightarrow> Some (Inl r)
      | Inr (r, None) \<Rightarrow> Some (Inr r)
      | Inr (r, Some m2bs) \<Rightarrow>
          (case handleM2Bs T m2bs r of
             Inl r \<Rightarrow> Some (Inl r)
           | Inr (r, None) \<Rightarrow> Some (Inr r)
           | Inr (r, Some m2b') \<Rightarrow> handleM2B T m2b' r))"

definition handleProposal :: "'st treemap \<Rightarrow> GPropose \<Rightarrow> 'st FastReplica \<Rightarrow> 'st fast_run option" where
  "handleProposal T proposal r =
     (let cmdId = CommandId (Propose_ClientId proposal) (Propose_CommandId proposal);
          r = r\<lparr>fr_cmds := (fr_cmds r)(cmdId \<mapsto> proposal)\<rparr>
      in case getInstance (fr_next r) r of
           Inl r \<Rightarrow> Some (Inl r)
         | Inr (i, r) \<Rightarrow>
             let r = r\<lparr>fr_next := fr_next r + 1\<rparr>;
                 i = i\<lparr>fi_value := cmdId\<rparr>;
                 m2b = \<lparr>FastM2B_CmdId = fi_value i, FastM2B_Ballot = fi_ballot i,
                        FastM2B_Cballot = fi_cballot i, FastM2B_Replica = fr_Id r,
                        FastM2B_InstanceId = fr_next r - 1\<rparr>
             in handleM2B T m2b (SendToAll m2b (set_instance (fr_next r - 1) i r)))"

section \<open>The system\<close>

text \<open>
  All replicas, each with the run it is in.  A replica whose handler panicked, or did not return, takes
  no more steps; what it sent before stays in the network.  Command identifiers determine commands.
\<close>

definition of_run :: "'st fast_run \<Rightarrow> 'st FastReplica" where
  "of_run x = (case x of Inl r \<Rightarrow> r | Inr r \<Rightarrow> r)"

lemma of_run_simps [simp]: "of_run (Inl r) = r" "of_run (Inr r) = r"
  by (simp_all add: of_run_def)

definition NewFastSystem :: "quorum \<Rightarrow> 'st \<Rightarrow> int \<Rightarrow> 'st fast_run" where
  "NewFastSystem Q st p = Inr (NewFastReplica p Q st)"

definition proposal_id :: "GPropose \<Rightarrow> CommandId" where
  "proposal_id p = CommandId (Propose_ClientId p) (Propose_CommandId p)"

inductive fast_reachable ::
  "'st treemap \<Rightarrow> (CommandId \<Rightarrow> command) \<Rightarrow> quorum \<Rightarrow> 'st \<Rightarrow> (int \<Rightarrow> 'st fast_run) \<Rightarrow> bool"
  for T cmd Q st where
  init: "fast_reachable T cmd Q st (NewFastSystem Q st)"
| propose: "fast_reachable T cmd Q st S \<Longrightarrow> S p = Inr r \<Longrightarrow>
    Propose_Command prop = cmd (proposal_id prop) \<Longrightarrow>
    handleProposal T prop r = Some x \<Longrightarrow> fast_reachable T cmd Q st (S(p := x))"
| receive: "fast_reachable T cmd Q st S \<Longrightarrow> S p = Inr r \<Longrightarrow> p \<noteq> q \<Longrightarrow>
    m \<in> set (fr_sent (of_run (S q))) \<Longrightarrow>
    handleM2B T m r = Some x \<Longrightarrow> fast_reachable T cmd Q st (S(p := x))"

section \<open>Invariant\<close>

text \<open>
  With one fixed fast quorum \<open>Q\<close>, the value of an instance is the vote at ballot 0 of the member of \<open>Q\<close>
  with the highest identifier: equal votes equal it, and recovery takes it.  \<open>vote0\<close> says what that vote
  is, \<open>all_voted\<close> that every member of \<open>Q\<close> has voted at ballot 0.
\<close>

definition vote0 :: "int set \<Rightarrow> (int \<Rightarrow> 'st FastReplica) \<Rightarrow> int \<Rightarrow> CommandId \<Rightarrow> bool" where
  "vote0 Q S j v \<longleftrightarrow> (\<exists>m \<in> set (fr_sent (S (Max Q))).
     FastM2B_InstanceId m = j \<and> FastM2B_Ballot m = 0 \<and> FastM2B_CmdId m = v)"

definition all_voted :: "int set \<Rightarrow> (int \<Rightarrow> 'st FastReplica) \<Rightarrow> int \<Rightarrow> bool" where
  "all_voted Q S j \<longleftrightarrow> (\<forall>q \<in> Q. \<exists>m \<in> set (fr_sent (S q)). FastM2B_InstanceId m = j \<and> FastM2B_Ballot m = 0)"

definition votes_ok :: "int set \<Rightarrow> (int \<Rightarrow> 'st FastReplica) \<Rightarrow> bool" where
  "votes_ok Q S \<longleftrightarrow>
     (\<forall>p. \<forall>m \<in> set (fr_sent (S p)). FastM2B_Replica m = p) \<and>
     (\<forall>q \<in> Q. \<forall>m \<in> set (fr_sent (S q)).
        FastM2B_InstanceId m < fr_next (S q) \<and>
        (FastM2B_Ballot m = 0 \<or> FastM2B_Ballot m = 1) \<and> FastM2B_Cballot m = FastM2B_Ballot m \<and>
        (FastM2B_Ballot m = 1 \<longrightarrow>
           all_voted Q S (FastM2B_InstanceId m) \<and> vote0 Q S (FastM2B_InstanceId m) (FastM2B_CmdId m)) \<and>
        (\<forall>m' \<in> set (fr_sent (S q)). FastM2B_InstanceId m' = FastM2B_InstanceId m \<and>
           FastM2B_Ballot m = 0 \<and> FastM2B_Ballot m' = 0 \<longrightarrow> FastM2B_CmdId m' = FastM2B_CmdId m))"

definition m2bs_ok :: "int set \<Rightarrow> (int \<Rightarrow> 'st FastReplica) \<Rightarrow> int \<Rightarrow> int \<Rightarrow> FastM2B msgset \<Rightarrow> bool" where
  "m2bs_ok Q S j b s \<longleftrightarrow>
     ms_q s = Quorum Q \<and> ms_leaderMsg s = None \<and> distinct (map fst (ms_msgs s)) \<and>
     (\<forall>(q, m) \<in> set (ms_msgs s). q \<in> Q \<and> m \<in> set (fr_sent (S q)) \<and>
        FastM2B_InstanceId m = j \<and> FastM2B_Ballot m = b)"

definition inst_ok :: "int set \<Rightarrow> (int \<Rightarrow> 'st FastReplica) \<Rightarrow> int \<Rightarrow> int \<Rightarrow> fast_instance \<Rightarrow> bool" where
  "inst_ok Q S p j i \<longleftrightarrow>
     (fi_ballot i = 0 \<or> fi_ballot i = 1) \<and> fi_cballot i = fi_ballot i \<and>
     (fi_ballot i = 1 \<or> fi_committed i \<longrightarrow> all_voted Q S j \<and> (p \<in> Q \<longrightarrow> vote0 Q S j (fi_value i))) \<and>
     (\<forall>b s. fi_m2bSets i b = Some s \<longrightarrow> m2bs_ok Q S j b s)"

text \<open>What a replica has executed: its committed values in the order of the instances, each once.\<close>

fun deliver_all ::
  "'st treemap \<Rightarrow> (CommandId \<Rightarrow> command) \<Rightarrow> CommandId list \<Rightarrow> CommandId set \<times> 'st \<Rightarrow> CommandId set \<times> 'st" where
  "deliver_all T cmd [] (D, st) = (D, st)"
| "deliver_all T cmd (v # vs) (D, st) =
     deliver_all T cmd vs (if v \<in> D then (D, st) else (insert v D, after T (cmd v) st))"

definition value_at :: "'st FastReplica \<Rightarrow> int \<Rightarrow> CommandId" where
  "value_at r j = fi_value (the (fr_instances r j))"

definition committed_at :: "'st FastReplica \<Rightarrow> int \<Rightarrow> bool" where
  "committed_at r j \<longleftrightarrow> (\<exists>i. fr_instances r j = Some i \<and> fi_committed i)"

definition executed_ok :: "'st treemap \<Rightarrow> (CommandId \<Rightarrow> command) \<Rightarrow> 'st \<Rightarrow> 'st FastReplica \<Rightarrow> bool" where
  "executed_ok T cmd st r \<longleftrightarrow>
     -1 \<le> fr_lastExecuted r \<and> (\<forall>j. 0 \<le> j \<and> j \<le> fr_lastExecuted r \<longrightarrow> committed_at r j) \<and>
     (\<forall>v p. fr_cmds r v = Some p \<longrightarrow> Propose_Command p = cmd v) \<and>
     deliver_all T cmd (map (value_at r) [0..fr_lastExecuted r]) ({}, st) = (fr_delivered r, fr_State r)"

definition fast_inv :: "int set \<Rightarrow> (int \<Rightarrow> 'st FastReplica) \<Rightarrow> bool" where
  "fast_inv Q S \<longleftrightarrow> votes_ok Q S \<and>
     (\<forall>p. fr_Id (S p) = p \<and> fr_defaultFastQuorum (S p) = Quorum Q) \<and>
     (\<forall>p j i. fr_instances (S p) j = Some i \<longrightarrow> inst_ok Q S p j i)"


subsection \<open>What the steps leave alone\<close>

definition sent_le :: "(int \<Rightarrow> 'st FastReplica) \<Rightarrow> (int \<Rightarrow> 'st FastReplica) \<Rightarrow> bool" where
  "sent_le S S' \<longleftrightarrow> (\<forall>q. set (fr_sent (S q)) \<subseteq> set (fr_sent (S' q)))"

lemma vote0_mono: "vote0 Q S j v \<Longrightarrow> sent_le S S' \<Longrightarrow> vote0 Q S' j v"
  unfolding vote0_def sent_le_def by blast

lemma all_voted_mono: "all_voted Q S j \<Longrightarrow> sent_le S S' \<Longrightarrow> all_voted Q S' j"
  unfolding all_voted_def sent_le_def by (meson subsetD)

lemma m2bs_ok_mono: "m2bs_ok Q S j b s \<Longrightarrow> sent_le S S' \<Longrightarrow> m2bs_ok Q S' j b s"
  unfolding m2bs_ok_def sent_le_def by fast

lemma inst_ok_mono: "inst_ok Q S p j i \<Longrightarrow> sent_le S S' \<Longrightarrow> inst_ok Q S' p j i"
  unfolding inst_ok_def using vote0_mono all_voted_mono m2bs_ok_mono by meson

lemma inst_ok_new [simp]: "inst_ok Q S p j new_instance"
  by (simp add: inst_ok_def new_instance_def)

lemma votes_ok_same:
  assumes "votes_ok Q S" "\<And>q. fr_sent (S' q) = fr_sent (S q)" "\<And>q. fr_next (S q) \<le> fr_next (S' q)"
  shows "votes_ok Q S'"
proof -
  have v: "vote0 Q S' = vote0 Q S" "all_voted Q S' = all_voted Q S"
    using assms(2) by (auto simp: vote0_def all_voted_def fun_eq_iff)
  show ?thesis using assms(1) order_less_le_trans [OF _ assms(3)]
    unfolding votes_ok_def assms(2) v by blast
qed

text \<open>What happens inside a handler apart from votes: entries are made for instances, and commands executed.\<close>

definition fast_frame :: "'st FastReplica \<Rightarrow> 'st FastReplica \<Rightarrow> bool" where
  "fast_frame r r' \<longleftrightarrow> fr_sent r' = fr_sent r \<and> fr_next r' = fr_next r \<and> fr_Id r' = fr_Id r \<and>
     fr_cmds r' = fr_cmds r \<and> fr_defaultFastQuorum r' = fr_defaultFastQuorum r \<and>
     (\<forall>j. fr_instances r' j = fr_instances r j \<or>
          fr_instances r j = None \<and> fr_instances r' j = Some new_instance)"

lemma fast_frame_refl [simp]: "fast_frame r r"
  by (simp add: fast_frame_def)

lemma fast_frame_trans: "fast_frame r r' \<Longrightarrow> fast_frame r' r'' \<Longrightarrow> fast_frame r r''"
  unfolding fast_frame_def by metis

lemma fast_frame_deliver:
  "fast_deliver T v r = Inl r' \<or> fast_deliver T v r = Inr r' \<Longrightarrow> fast_frame r r'"
  by (simp add: fast_frame_def fast_deliver_frame)

lemma fast_frame_inv:
  assumes "fast_inv Q S" "fast_frame (S p) r'"
  shows "fast_inv Q (S(p := r'))"
proof -
  have le: "sent_le S (S(p := r'))" using assms(2) by (auto simp: sent_le_def fast_frame_def)
  have "votes_ok Q S" "fr_sent r' = fr_sent (S p)" "fr_next r' = fr_next (S p)"
    using assms by (simp_all only: fast_inv_def fast_frame_def)
  then have "votes_ok Q (S(p := r'))" by (intro votes_ok_same [of Q S "S(p := r')"]) simp_all
  moreover have "inst_ok Q (S(p := r')) q j i" if "fr_instances ((S(p := r')) q) j = Some i" for q j i
  proof (cases "q = p \<and> fr_instances (S p) j = None")
    case True
    then show ?thesis using that assms(2) unfolding fast_frame_def
      by (metis fun_upd_same inst_ok_new option.inject option.simps(3))
  next
    case False
    then have "fr_instances (S q) j = Some i"
      using that assms(2) unfolding fast_frame_def by (metis fun_upd_apply)
    with assms(1) have "inst_ok Q S q j i" unfolding fast_inv_def by blast
    then show ?thesis using le by (rule inst_ok_mono)
  qed
  moreover have "fr_Id ((S(p := r')) q) = q \<and> fr_defaultFastQuorum ((S(p := r')) q) = Quorum Q" for q
    using assms by (simp add: fast_inv_def fast_frame_def)
  ultimately show ?thesis unfolding fast_inv_def by blast
qed

lemma getInstance_Inr:
  assumes "getInstance j r = Inr (i, r')"
  shows "fast_frame r r'" "fr_instances r' j = Some i" "fr_lastExecuted r' = fr_lastExecuted r"
    "fr_delivered r' = fr_delivered r" "fr_State r' = fr_State r" "0 \<le> j" "j < INST_NUM"
  using assms by (auto simp: getInstance_def fast_frame_def split: if_splits option.splits)

lemma getInstance_Inl: "getInstance j r = Inl r' \<Longrightarrow> r' = r"
  by (auto simp: getInstance_def split: if_splits option.splits)

lemma fast_frame_exec_loop: "fast_frame r (of_run (exec_loop T r))"
proof (induction T r rule: exec_loop.induct)
  case (1 T r)
  show ?case
  proof (cases "getInstance (fr_lastExecuted r + 1) r")
    case (Inl r')
    then show ?thesis using getInstance_Inl by (subst exec_loop.simps) fastforce
  next
    case (Inr x)
    obtain i r' where x: "x = (i, r')" by fastforce
    have f: "fast_frame r r'" using getInstance_Inr(1) Inr x by blast
    show ?thesis
    proof (cases "fi_committed i")
      case False
      then show ?thesis using f by (subst exec_loop.simps) (simp add: Inr x)
    next
      case True
      show ?thesis
      proof (cases "fast_deliver T (fi_value i) r'")
        case (Inl r'')
        then show ?thesis using f True fast_frame_deliver fast_frame_trans
          by (subst exec_loop.simps) (fastforce simp: Inr x)
      next
        case d: (Inr r'')
        let ?r = "r''\<lparr>fr_lastExecuted := fr_lastExecuted r'' + 1\<rparr>"
        have "fast_frame r ?r"
          using fast_frame_trans [OF f fast_frame_deliver [OF disjI2 [OF d]]]
          by (simp add: fast_frame_def)
        moreover have "fast_frame ?r (of_run (exec_loop T ?r))"
          by (rule 1 [OF Inr _ True d]) (simp add: x)
        moreover have "exec_loop T r = exec_loop T ?r"
          by (subst exec_loop.simps) (simp add: Inr x True d)
        ultimately show ?thesis using fast_frame_trans by metis
      qed
    qed
  qed
qed

subsection \<open>Execution\<close>

lemma deliver_all_append: "deliver_all T cmd (vs @ ws) a = deliver_all T cmd ws (deliver_all T cmd vs a)"
  by (induction T cmd vs a rule: deliver_all.induct) auto

lemma executed_ok_frame:
  assumes "executed_ok T cmd st r" "fr_lastExecuted r' = fr_lastExecuted r"
    "fr_delivered r' = fr_delivered r" "fr_State r' = fr_State r"
    "\<And>v p. fr_cmds r' v = Some p \<Longrightarrow> Propose_Command p = cmd v"
    and i: "\<And>j. committed_at r j \<Longrightarrow> committed_at r' j \<and> value_at r' j = value_at r j"
  shows "executed_ok T cmd st r'"
proof -
  have "map (value_at r') [0..fr_lastExecuted r] = map (value_at r) [0..fr_lastExecuted r]"
    using assms(1) i by (intro map_cong) (auto simp: executed_ok_def)
  then show ?thesis using assms unfolding executed_ok_def by (metis (no_types, lifting))
qed

lemma executed_ok_same_instances:
  assumes "executed_ok T cmd st r" "fast_frame r r'" "fr_lastExecuted r' = fr_lastExecuted r"
    "fr_delivered r' = fr_delivered r" "fr_State r' = fr_State r"
  shows "executed_ok T cmd st r'"
proof (rule executed_ok_frame [OF assms(1,3,4,5)])
  show "Propose_Command p = cmd v" if "fr_cmds r' v = Some p" for v p
    using that assms(1,2) by (simp add: executed_ok_def fast_frame_def)
  show "committed_at r' j \<and> value_at r' j = value_at r j" if "committed_at r j" for j
    using that assms(2) unfolding committed_at_def value_at_def fast_frame_def
    by (metis option.distinct(1))
qed

lemma executed_ok_exec_loop:
  "executed_ok T cmd st r \<Longrightarrow> exec_loop T r = Inr r' \<Longrightarrow> executed_ok T cmd st r'"
proof (induction T r rule: exec_loop.induct)
  case (1 T r)
  obtain i r1 where g: "getInstance (fr_lastExecuted r + 1) r = Inr (i, r1)"
    using "1.prems"(2) by (subst (asm) exec_loop.simps) (auto split: sum.splits)
  note gi = getInstance_Inr [OF g]
  have ok: "executed_ok T cmd st r1"
    using executed_ok_same_instances [OF "1.prems"(1) gi(1,3,4,5)] .
  show ?case
  proof (cases "fi_committed i")
    case False
    then show ?thesis using "1.prems"(2) ok by (subst (asm) exec_loop.simps) (simp add: g)
  next
    case True
    then obtain r2 where d: "fast_deliver T (fi_value i) r1 = Inr r2"
      using "1.prems"(2) by (subst (asm) exec_loop.simps) (auto simp: g split: sum.splits)
    let ?r = "r2\<lparr>fr_lastExecuted := fr_lastExecuted r2 + 1\<rparr>"
    note df = fast_deliver_frame [OF disjI2 [OF d]]
    have l: "-1 \<le> fr_lastExecuted r1" using ok by (simp add: executed_ok_def)
    have cs: "fr_cmds r1 v = Some p \<Longrightarrow> Propose_Command p = cmd v" for v p
      using ok by (simp add: executed_ok_def)
    have v: "value_at ?r = value_at r1" "committed_at ?r = committed_at r1"
      using df by (simp_all add: value_at_def committed_at_def fun_eq_iff)
    have one: "deliver_all T cmd [fi_value i] (fr_delivered r1, fr_State r1) = (fr_delivered r2, fr_State r2)"
      using d cs by (auto simp: fast_deliver_def Let_def Execute_eq split: if_splits option.splits prod.splits)
    have upt: "[0..fr_lastExecuted r1 + 1] = [0..fr_lastExecuted r1] @ [fr_lastExecuted r1 + 1]"
      using l by (simp add: upto_rec2)
    have vi: "value_at r1 (fr_lastExecuted r1 + 1) = fi_value i"
      using gi by (simp add: value_at_def)
    have "committed_at r1 j" if "0 \<le> j" "j \<le> fr_lastExecuted r1 + 1" for j
    proof (cases "j = fr_lastExecuted r1 + 1")
      case True
      then show ?thesis using gi \<open>fi_committed i\<close> by (auto simp: committed_at_def)
    next
      case False
      then show ?thesis using that ok by (auto simp: executed_ok_def)
    qed
    moreover have "deliver_all T cmd (map (value_at r1) [0..fr_lastExecuted r1 + 1]) ({}, st) =
        (fr_delivered r2, fr_State r2)"
      using ok one by (simp add: upt deliver_all_append vi executed_ok_def)
    ultimately have "executed_ok T cmd st ?r"
      using l cs df v by (simp add: executed_ok_def)
    moreover have "exec_loop T ?r = Inr r'"
      using "1.prems"(2) by (subst (asm) exec_loop.simps) (simp add: g True d)
    ultimately show ?thesis using "1.IH" [OF g _ True d] by simp
  qed
qed


subsection \<open>The handlers\<close>

lemma fast_inv_instance:
  "fast_inv Q S \<Longrightarrow> fr_instances (S p) j = Some i \<Longrightarrow> inst_ok Q S p j i"
  by (simp add: fast_inv_def)

lemma fast_inv_set_instance:
  assumes "fast_inv Q S" "inst_ok Q S p j i"
  shows "fast_inv Q (S(p := set_instance j i (S p)))"
proof -
  let ?S = "S(p := set_instance j i (S p))"
  have le: "sent_le S ?S" by (simp add: sent_le_def set_instance_def)
  have "votes_ok Q S" using assms(1) by (simp only: fast_inv_def)
  then have "votes_ok Q ?S" by (rule votes_ok_same) (simp_all add: set_instance_def)
  moreover have "inst_ok Q ?S q k i'" if "fr_instances (?S q) k = Some i'" for q k i'
  proof (cases "q = p \<and> k = j")
    case True
    then show ?thesis using that inst_ok_mono [OF assms(2) le] by (simp add: set_instance_def)
  next
    case False
    then have "fr_instances (S q) k = Some i'" using that by (auto simp: set_instance_def split: if_splits)
    then show ?thesis using fast_inv_instance [OF assms(1)] inst_ok_mono le by blast
  qed
  moreover have "fr_Id (?S q) = q \<and> fr_defaultFastQuorum (?S q) = Quorum Q" for q
    using assms(1) by (simp add: fast_inv_def set_instance_def)
  ultimately show ?thesis unfolding fast_inv_def by blast
qed

text \<open>A call of the handler \<open>handleM2Bs\<close> is backed by votes of all members of the quorum at one ballot.\<close>

definition quorum_votes :: "int set \<Rightarrow> (int \<Rightarrow> 'st FastReplica) \<Rightarrow> int \<Rightarrow> int \<Rightarrow> FastM2B list \<Rightarrow> bool" where
  "quorum_votes Q S j b msgs \<longleftrightarrow>
     (\<forall>m \<in> set msgs. \<exists>q \<in> Q. m \<in> set (fr_sent (S q)) \<and> FastM2B_InstanceId m = j \<and> FastM2B_Ballot m = b) \<and>
     (\<forall>q \<in> Q. \<exists>m \<in> set msgs. m \<in> set (fr_sent (S q)) \<and> FastM2B_InstanceId m = j \<and> FastM2B_Ballot m = b)"

lemma quorum_votes_mono: "quorum_votes Q S j b msgs \<Longrightarrow> sent_le S S' \<Longrightarrow> quorum_votes Q S' j b msgs"
  unfolding quorum_votes_def sent_le_def by (meson subsetD)

lemma Add_accept_all:
  assumes "ms_leaderMsg s = None" "ms_q s = Quorum Q"
  shows "Add (\<lambda>_ _. True) q False m s =
    (let u = AList.update q m (ms_msgs s)
     in if q \<in> Q then (\<lparr>added = True, freed = [],
                call = (if int (card Q) \<le> int (length u) then Some (None, map snd u) else None)\<rparr>, s\<lparr>ms_msgs := u\<rparr>)
        else (\<lparr>added = False, freed = [], call = None\<rparr>, s))"
  using assms by (simp add: Add_def Let_def)

lemma m2bs_ok_Add:
  assumes ok: "m2bs_ok Q S j b s" and m: "m \<in> set (fr_sent (S q))" "FastM2B_InstanceId m = j" "FastM2B_Ballot m = b"
    and Q: "finite Q" and a: "Add (\<lambda>_ _. True) q False m s = (res, s')"
  shows "m2bs_ok Q S j b s'" and "call res = Some c \<Longrightarrow> quorum_votes Q S j b (snd c)"
proof -
  let ?u = "AList.update q m (ms_msgs s)"
  have s: "ms_q s = Quorum Q" "ms_leaderMsg s = None" "distinct (map fst (ms_msgs s))"
    using ok by (simp_all add: m2bs_ok_def)
  have el: "(q', m') = (q, m) \<or> (q', m') \<in> set (ms_msgs s)" if "(q', m') \<in> set ?u" for q' m'
  proof -
    have "map_of ?u q' = Some m'" using that s(3) by (simp add: distinct_update)
    then have "(q', m') = (q, m) \<or> map_of (ms_msgs s) q' = Some m'"
      by (simp add: update_conv' split: if_splits)
    then show ?thesis using map_of_SomeD by fast
  qed
  have u: "m2bs_ok Q S j b (s\<lparr>ms_msgs := ?u\<rparr>)" if "q \<in> Q"
    using ok m that el distinct_update [OF s(3), of q m] unfolding m2bs_ok_def by fastforce
  have r: "(s' = s \<and> call res = None) \<or> q \<in> Q \<and> s' = s\<lparr>ms_msgs := ?u\<rparr> \<and>
      call res = (if int (card Q) \<le> int (length ?u) then Some (None, map snd ?u) else None)"
    using a Add_accept_all [OF s(2,1), of q m] by (auto simp: Let_def split: if_splits)
  then show ok': "m2bs_ok Q S j b s'" using ok u by auto
  show "quorum_votes Q S j b (snd c)" if "call res = Some c"
  proof -
    from r that have q: "q \<in> Q" and s': "s' = s\<lparr>ms_msgs := ?u\<rparr>" and len: "card Q \<le> length ?u"
      and c: "c = (None, map snd ?u)" by (auto split: if_splits)
    have d: "distinct (map fst ?u)" using ok' unfolding s' m2bs_ok_def by simp
    have el: "q' \<in> Q \<and> m' \<in> set (fr_sent (S q')) \<and> FastM2B_InstanceId m' = j \<and> FastM2B_Ballot m' = b"
      if "(q', m') \<in> set ?u" for q' m'
    proof -
      have "\<forall>(q, m) \<in> set ?u. q \<in> Q \<and> m \<in> set (fr_sent (S q)) \<and>
          FastM2B_InstanceId m = j \<and> FastM2B_Ballot m = b"
        using ok' unfolding s' m2bs_ok_def by simp
      then show ?thesis using that by blast
    qed
    have Qu: "fst ` set ?u = Q"
    proof (rule card_subset_eq [OF Q])
      show *: "fst ` set ?u \<subseteq> Q" using el by auto
      have "card (fst ` set ?u) = length ?u" using distinct_card [OF d] by simp
      then show "card (fst ` set ?u) = card Q" using len card_mono [OF Q *] by simp
    qed
    show ?thesis unfolding quorum_votes_def c snd_conv
    proof (intro conjI ballI)
      fix m' assume "m' \<in> set (map snd ?u)"
      then obtain q' where "(q', m') \<in> set ?u" by auto
      then show "\<exists>q \<in> Q. m' \<in> set (fr_sent (S q)) \<and> FastM2B_InstanceId m' = j \<and> FastM2B_Ballot m' = b"
        using el by blast
    next
      fix q' assume "q' \<in> Q"
      with Qu obtain m' where "(q', m') \<in> set ?u" by force
      then show "\<exists>m \<in> set (map snd ?u). m \<in> set (fr_sent (S q')) \<and> FastM2B_InstanceId m = j \<and> FastM2B_Ballot m = b"
        using el by force
    qed
  qed
qed

lemma addM2B_inv:
  assumes inv: "fast_inv Q S" and m: "m \<in> set (fr_sent (S q))" and Q: "finite Q"
    and a: "addM2B m (S p) = Inr (r', c)"
  shows "fast_inv Q (S(p := r'))" "fr_sent r' = fr_sent (S p)"
    "c = Some msgs \<Longrightarrow> quorum_votes Q S (FastM2B_InstanceId m) (FastM2B_Ballot m) msgs"
    "c = Some msgs \<Longrightarrow> \<exists>i. fr_instances r' (FastM2B_InstanceId m) = Some i"
proof -
  let ?j = "FastM2B_InstanceId m" and ?b = "FastM2B_Ballot m"
  obtain i r where g: "getInstance ?j (S p) = Inr (i, r)"
    using a by (auto simp: addM2B_def split: sum.splits)
  note gi = getInstance_Inr [OF g]
  obtain res s where ad: "Add (\<lambda>_ _. True) (FastM2B_Replica m) False m (getM2bSet i ?b r) = (res, s)"
    by fastforce
  let ?i = "i\<lparr>fi_m2bSets := (fi_m2bSets i)(?b \<mapsto> s)\<rparr>"
  have r': "r' = set_instance ?j ?i r" and c: "c = map_option snd (call res)"
    using a by (simp_all add: addM2B_def g ad)
  define S1 where "S1 = S(p := r)"
  have Sp: "S1 p = r" "S1(p := x) = S(p := x)" for x by (simp_all add: S1_def)
  have inv': "fast_inv Q S1" unfolding S1_def using fast_frame_inv [OF inv gi(1)] .
  have sent: "fr_sent r = fr_sent (S p)" using gi(1) by (simp add: fast_frame_def)
  have le: "sent_le S1 S" using sent by (simp add: sent_le_def S1_def)
  have m': "m \<in> set (fr_sent (S1 q))" using m sent by (cases "q = p") (simp_all add: S1_def)
  have rep: "FastM2B_Replica m = q" using inv m by (auto simp: fast_inv_def votes_ok_def)
  have i: "inst_ok Q S1 p ?j i" using fast_inv_instance [OF inv', of p ?j i] gi(2) Sp(1) by simp
  have "ms_q (NewMsgSet (fr_defaultFastQuorum r) :: FastM2B msgset) = Quorum Q"
    using inv' Sp(1) by (simp add: fast_inv_def NewMsgSet_def) metis
  then have "m2bs_ok Q S1 ?j ?b (getM2bSet i ?b r)"
    using i by (auto simp: getM2bSet_def inst_ok_def m2bs_ok_def NewMsgSet_def split: option.splits)
  note added = m2bs_ok_Add [OF this m' refl refl Q ad [unfolded rep]]
  have "inst_ok Q S1 p ?j ?i" using i added(1) by (simp add: inst_ok_def)
  then show "fast_inv Q (S(p := r'))"
    using fast_inv_set_instance [OF inv', of p ?j ?i] by (simp add: r' Sp)
  show "fr_sent r' = fr_sent (S p)" using sent by (simp add: r' set_instance_def)
  show "quorum_votes Q S ?j ?b msgs" if "c = Some msgs"
    using that added(2) quorum_votes_mono [OF _ le] by (auto simp: c)
  show "\<exists>i. fr_instances r' ?j = Some i" by (simp add: r' set_instance_def)
qed


lemma fast_inv_votes: "fast_inv Q S \<Longrightarrow> votes_ok Q S"
  by (simp only: fast_inv_def)

lemma sent_Replica: "fast_inv Q S \<Longrightarrow> m \<in> set (fr_sent (S q)) \<Longrightarrow> FastM2B_Replica m = q"
  using fast_inv_votes unfolding votes_ok_def by blast

lemma sent_votes:
  assumes "fast_inv Q S" "q \<in> Q" "m \<in> set (fr_sent (S q))"
  shows "FastM2B_InstanceId m < fr_next (S q)" "FastM2B_Ballot m = 1 \<or> FastM2B_Ballot m = 0"
    "FastM2B_Cballot m = FastM2B_Ballot m"
    "FastM2B_Ballot m = 1 \<Longrightarrow> all_voted Q S (FastM2B_InstanceId m)"
    "FastM2B_Ballot m = 1 \<Longrightarrow> vote0 Q S (FastM2B_InstanceId m) (FastM2B_CmdId m)"
  using fast_inv_votes [OF assms(1)] assms(2,3) unfolding votes_ok_def by blast+

lemma vote0_unique:
  assumes "fast_inv Q S" "finite Q" "Q \<noteq> {}" "vote0 Q S j v" "vote0 Q S j v'"
  shows "v = v'"
  using fast_inv_votes [OF assms(1)] Max_in [OF assms(2,3)] assms(4,5)
  unfolding votes_ok_def vote0_def by metis

lemma quorum_votes_values:
  assumes inv: "fast_inv Q S" and Q: "finite Q" "Q \<noteq> {}" and v: "quorum_votes Q S j b msgs"
  shows "all_voted Q S j" "msgs \<noteq> []" "\<forall>m \<in> set msgs. FastM2B_InstanceId m = j \<and> FastM2B_Ballot m = b"
    "b = 1 \<or> b = 0"
    "b = 1 \<Longrightarrow> m \<in> set msgs \<Longrightarrow> vote0 Q S j (FastM2B_CmdId m)"
    "b = 0 \<Longrightarrow> m \<in> set msgs \<Longrightarrow> FastM2B_Replica m = Max Q \<Longrightarrow> vote0 Q S j (FastM2B_CmdId m)"
    "\<exists>m \<in> set msgs. FastM2B_Replica m = Max Q"
proof -
  note M = Max_in [OF Q]
  note ok = sent_votes [OF inv]
  from v M obtain m0 where m0: "m0 \<in> set msgs" "m0 \<in> set (fr_sent (S (Max Q)))"
      "FastM2B_InstanceId m0 = j" "FastM2B_Ballot m0 = b"
    unfolding quorum_votes_def by blast
  show b: "b = 1 \<or> b = 0" using ok(2) [OF M m0(2)] m0(4) by simp
  show "msgs \<noteq> []" using m0 by auto
  show *: "\<forall>m \<in> set msgs. FastM2B_InstanceId m = j \<and> FastM2B_Ballot m = b"
    using v unfolding quorum_votes_def by blast
  show "\<exists>m \<in> set msgs. FastM2B_Replica m = Max Q" using m0(1) sent_Replica [OF inv m0(2)] by blast
  have s: "\<exists>q \<in> Q. m \<in> set (fr_sent (S q))" if "m \<in> set msgs" for m
    using that v unfolding quorum_votes_def by blast
  show "vote0 Q S j (FastM2B_CmdId m)" if "b = 1" "m \<in> set msgs"
    using s [OF that(2)] * ok(5) that by auto
  show "vote0 Q S j (FastM2B_CmdId m)" if "b = 0" "m \<in> set msgs" "FastM2B_Replica m = Max Q"
  proof -
    obtain q where q: "m \<in> set (fr_sent (S q))" using s \<open>m \<in> set msgs\<close> by blast
    then have "m \<in> set (fr_sent (S (Max Q)))" using that(3) sent_Replica [OF inv q] by simp
    then show ?thesis using that * unfolding vote0_def by blast
  qed
  show "all_voted Q S j"
  proof (cases "b = 0")
    case True
    then show ?thesis using v unfolding quorum_votes_def all_voted_def by blast
  next
    case False
    then show ?thesis using b m0 ok(4) [OF M m0(2)] by simp
  qed
qed

lemma last_sorted_max:
  assumes "xs \<noteq> []" "\<forall>x \<in> set xs. c x = b" "x \<in> set xs"
  shows "last (sort_key c (sort_key (f :: 'a \<Rightarrow> int) xs)) \<in> set xs"
    "f x \<le> f (last (sort_key (c :: 'a \<Rightarrow> int) (sort_key f xs)))"
proof -
  let ?ys = "sort_key f xs"
  have "c (?ys ! k) = b" if "k < length ?ys" for k
    using nth_mem [OF that] assms(2) by (metis set_sort)
  then have "map c ?ys = replicate (length ?ys) b" by (intro nth_equalityI) simp_all
  then have ys: "sort_key c ?ys = ?ys" by (intro sort_key_id_if_sorted) (simp add: sorted_replicate)
  have ne: "?ys \<noteq> []" using assms(1) by (metis length_0_conv length_sort)
  then show "last (sort_key c ?ys) \<in> set xs" unfolding ys using last_in_set [OF ne] by simp
  obtain k where k: "k < length ?ys" "?ys ! k = x" using assms(3) by (metis in_set_conv_nth set_sort)
  have "map f ?ys ! k \<le> map f ?ys ! (length ?ys - 1)"
    by (rule sorted_nth_mono) (use k in simp_all)
  then show "f x \<le> f (last (sort_key c ?ys))" unfolding ys using k ne by (simp add: last_conv_nth)
qed

lemma recovered_value:
  assumes inv: "fast_inv Q S" and Q: "finite Q" "Q \<noteq> {}" and v: "quorum_votes Q S j b msgs"
  defines "maxV \<equiv> last (sort_key FastM2B_Cballot (sort_key FastM2B_Replica msgs))"
  shows "maxV \<in> set msgs" "vote0 Q S j (FastM2B_CmdId maxV)"
proof -
  note q = quorum_votes_values [OF assms(1-4)]
  have el: "FastM2B_Cballot m = b" "FastM2B_Replica m \<in> Q" if m: "m \<in> set msgs" for m
  proof -
    obtain k where k: "k \<in> Q" "m \<in> set (fr_sent (S k))" using m v unfolding quorum_votes_def by blast
    show "FastM2B_Cballot m = b" using sent_votes(3) [OF inv k] q(3) m by simp
    show "FastM2B_Replica m \<in> Q" using sent_Replica [OF inv k(2)] k(1) by simp
  qed
  obtain x where x: "x \<in> set msgs" "FastM2B_Replica x = Max Q" using q(7) by blast
  have "\<forall>m \<in> set msgs. FastM2B_Cballot m = b" using el by blast
  note mx = last_sorted_max [OF q(2) this x(1), of FastM2B_Replica, folded maxV_def]
  then show m: "maxV \<in> set msgs" by simp
  have "FastM2B_Replica maxV = Max Q" using mx(2) x(2) el(2) [OF m] Max_ge [OF Q(1)] by force
  then show "vote0 Q S j (FastM2B_CmdId maxV)" using q(4,5,6) m by blast
qed

text \<open>Committing the value of an instance.\<close>

lemma fast_commit_inv:
  assumes inv: "fast_inv Q S" and Q: "finite Q" "Q \<noteq> {}" and v: "all_voted Q S j" "vote0 Q S j v"
  shows "fast_inv Q (S(p := of_run (fast_commit T j v (S p))))"
    "fr_sent (of_run (fast_commit T j v (S p))) = fr_sent (S p)"
    "p \<in> Q \<Longrightarrow> executed_ok T cmd st (S p) \<Longrightarrow> fast_commit T j v (S p) = Inr r' \<Longrightarrow> executed_ok T cmd st r'"
proof -
  let ?thesis = "fast_inv Q (S(p := of_run (fast_commit T j v (S p)))) \<and>
    fr_sent (of_run (fast_commit T j v (S p))) = fr_sent (S p) \<and>
    (p \<in> Q \<longrightarrow> executed_ok T cmd st (S p) \<longrightarrow> fast_commit T j v (S p) = Inr r' \<longrightarrow> executed_ok T cmd st r')"
  have ?thesis
  proof (cases "getInstance j (S p)")
    case (Inl r)
    then show ?thesis using inv getInstance_Inl [OF Inl] by (simp add: fast_commit_def)
  next
    case (Inr x)
    obtain i r where x: "x = (i, r)" by fastforce
    note gi = getInstance_Inr [OF Inr [unfolded x]]
    let ?i = "i\<lparr>fi_value := v, fi_committed := True\<rparr>"
    let ?r = "set_instance j ?i r"
    have c: "fast_commit T j v (S p) = exec_loop T ?r" by (simp add: fast_commit_def Inr x)
    define S1 where "S1 = S(p := r)"
    have Sp: "S1 p = r" "S1(p := y) = S(p := y)" for y by (simp_all add: S1_def)
    have inv1: "fast_inv Q S1" unfolding S1_def using inv gi(1) by (rule fast_frame_inv)
    have le: "sent_le S S1" using gi(1) by (simp add: sent_le_def S1_def fast_frame_def)
    have i: "inst_ok Q S1 p j i" using fast_inv_instance [OF inv1] gi(2) Sp(1) by simp
    note v1 = all_voted_mono [OF v(1) le] vote0_mono [OF v(2) le]
    have "inst_ok Q S1 p j ?i" using i v1 by (simp add: inst_ok_def)
    note inv2 = fast_inv_set_instance [OF inv1 this, unfolded Sp]
    have f: "fast_frame ?r (of_run (exec_loop T ?r))" by (rule fast_frame_exec_loop)
    have "fast_inv Q (S(p := of_run (exec_loop T ?r)))"
      using fast_frame_inv [OF inv2, of p] f by simp
    moreover have "fr_sent (of_run (exec_loop T ?r)) = fr_sent (S p)"
      using f gi(1) by (simp add: fast_frame_def set_instance_def)
    moreover have "executed_ok T cmd st r'"
      if "p \<in> Q" "executed_ok T cmd st (S p)" "exec_loop T ?r = Inr r'"
    proof -
      have e1: "executed_ok T cmd st r"
        using executed_ok_same_instances [OF that(2) gi(1,3,4,5)] .
      have "fi_value i = v" if "fi_committed i"
        using that i \<open>p \<in> Q\<close> vote0_unique [OF inv1 Q _ v1(2)] by (simp add: inst_ok_def)
      then have "committed_at ?r k \<and> value_at ?r k = value_at r k" if "committed_at r k" for k
        using that gi(2) by (auto simp: committed_at_def value_at_def set_instance_def)
      then have "executed_ok T cmd st ?r"
        using e1 by (intro executed_ok_frame [OF e1]) (auto simp: set_instance_def executed_ok_def)
      then show ?thesis using that(3) by (rule executed_ok_exec_loop)
    qed
    ultimately show ?thesis unfolding c by blast
  qed
  then show "fast_inv Q (S(p := of_run (fast_commit T j v (S p))))"
    "fr_sent (of_run (fast_commit T j v (S p))) = fr_sent (S p)"
    "p \<in> Q \<Longrightarrow> executed_ok T cmd st (S p) \<Longrightarrow> fast_commit T j v (S p) = Inr r' \<Longrightarrow> executed_ok T cmd st r'"
    by blast+
qed


text \<open>Sending a vote.\<close>

lemma fast_inv_SendToAll:
  assumes inv: "fast_inv Q S" and r: "FastM2B_Replica m = p"
    and m: "p \<in> Q \<Longrightarrow> FastM2B_InstanceId m < fr_next (S p)"
      "p \<in> Q \<Longrightarrow> FastM2B_Ballot m = 1 \<or> FastM2B_Ballot m = 0"
      "p \<in> Q \<Longrightarrow> FastM2B_Cballot m = FastM2B_Ballot m"
      "p \<in> Q \<Longrightarrow> FastM2B_Ballot m = 1 \<Longrightarrow>
         all_voted Q S (FastM2B_InstanceId m) \<and> vote0 Q S (FastM2B_InstanceId m) (FastM2B_CmdId m)"
      "p \<in> Q \<Longrightarrow> FastM2B_Ballot m = 0 \<Longrightarrow>
         \<forall>m' \<in> set (fr_sent (S p)). FastM2B_InstanceId m' \<noteq> FastM2B_InstanceId m"
  shows "fast_inv Q (S(p := SendToAll m (S p))) \<and> sent_le S (S(p := SendToAll m (S p)))"
proof -
  define S' where "S' = S(p := SendToAll m (S p))"
  have le: "sent_le S S'" by (auto simp: sent_le_def SendToAll_def S'_def)
  have sent: "x \<in> set (fr_sent (S' q)) \<longleftrightarrow> x \<in> set (fr_sent (S q)) \<or> q = p \<and> x = m" for x q
    by (auto simp: SendToAll_def S'_def)
  have next_eq: "fr_next (S' q) = fr_next (S q)" for q by (simp add: S'_def SendToAll_def)
  have "votes_ok Q S'" unfolding votes_ok_def
  proof (intro conjI allI ballI)
    fix q x assume "x \<in> set (fr_sent (S' q))"
    then show "FastM2B_Replica x = q" using sent sent_Replica [OF inv] r by blast
  next
    fix q x assume q: "q \<in> Q" and x: "x \<in> set (fr_sent (S' q))"
    note old = sent_votes [OF inv q]
    have c: "x \<in> set (fr_sent (S q)) \<or> q = p \<and> x = m" using x sent by blast
    show "FastM2B_InstanceId x < fr_next (S' q)" using c old(1) m(1) q next_eq by auto
    show "FastM2B_Ballot x = 0 \<or> FastM2B_Ballot x = 1" using c old(2) m(2) q by blast
    show "FastM2B_Cballot x = FastM2B_Ballot x" using c old(3) m(3) q by blast
    show "FastM2B_Ballot x = 1 \<longrightarrow>
        all_voted Q S' (FastM2B_InstanceId x) \<and> vote0 Q S' (FastM2B_InstanceId x) (FastM2B_CmdId x)"
      using c old(4,5) m(4) q all_voted_mono [OF _ le] vote0_mono [OF _ le] by blast
    fix y assume y: "y \<in> set (fr_sent (S' q))"
    have d: "y \<in> set (fr_sent (S q)) \<or> q = p \<and> y = m" using y sent by blast
    show "FastM2B_InstanceId y = FastM2B_InstanceId x \<and> FastM2B_Ballot x = 0 \<and> FastM2B_Ballot y = 0 \<longrightarrow>
        FastM2B_CmdId y = FastM2B_CmdId x"
    proof (cases "x \<in> set (fr_sent (S q)) \<and> y \<in> set (fr_sent (S q))")
      case True
      then show ?thesis using fast_inv_votes [OF inv] q unfolding votes_ok_def by blast
    next
      case False
      then show ?thesis using c d m(5) q by metis
    qed
  qed
  moreover have "inst_ok Q S' q j i" if "fr_instances (S' q) j = Some i" for q j i
  proof -
    have "fr_instances (S q) j = Some i" using that by (auto simp: S'_def SendToAll_def split: if_splits)
    then show ?thesis using fast_inv_instance [OF inv] inst_ok_mono le by blast
  qed
  moreover have "fr_Id (S' q) = q \<and> fr_defaultFastQuorum (S' q) = Quorum Q" for q
    using inv by (simp add: fast_inv_def S'_def SendToAll_def)
  ultimately show ?thesis using le unfolding fast_inv_def S'_def by blast
qed

lemma handleM2Bs_inv:
  assumes inv: "fast_inv Q S" and Q: "finite Q" "Q \<noteq> {}" and v: "quorum_votes Q S j b msgs"
    and i: "fr_instances (S p) j = Some i"
    and h: "handleM2Bs T msgs (S p) = x"
  shows "x = Inl r' \<or> x = Inr (r', c) \<Longrightarrow> fast_inv Q (S(p := r')) \<and> sent_le S (S(p := r'))"
    "x = Inr (r', Some m) \<Longrightarrow> m \<in> set (fr_sent r')"
    "p \<in> Q \<Longrightarrow> executed_ok T cmd st (S p) \<Longrightarrow> x = Inr (r', c) \<Longrightarrow> executed_ok T cmd st r'"
proof -
  note q = quorum_votes_values [OF inv Q v]
  note mx = recovered_value [OF inv Q v]
  let ?v = "FastM2B_CmdId (hd msgs)"
  let ?m = "last (sort_key FastM2B_Cballot (sort_key FastM2B_Replica msgs))"
  have hd: "FastM2B_InstanceId (hd msgs) = j" using q(2,3) by simp
  have m: "FastM2B_InstanceId ?m = j" "FastM2B_Ballot ?m = b" using q(3) mx(1) by blast+
  have le_refl: "sent_le S S" by (simp add: sent_le_def)
  have "(\<forall>r' c. x = Inl r' \<or> x = Inr (r', c) \<longrightarrow> fast_inv Q (S(p := r')) \<and> sent_le S (S(p := r'))) \<and>
    (\<forall>r' m. x = Inr (r', Some m) \<longrightarrow> m \<in> set (fr_sent r')) \<and>
    (p \<in> Q \<longrightarrow> executed_ok T cmd st (S p) \<longrightarrow> (\<forall>r' c. x = Inr (r', c) \<longrightarrow> executed_ok T cmd st r'))"
  proof (cases "\<forall>m \<in> set msgs. FastM2B_CmdId m = ?v")
    case True
    then have "vote0 Q S j ?v" using mx by metis
    note cm = fast_commit_inv [OF inv Q q(1) this, where p = p and T = T]
    have x: "x = (case fast_commit T j ?v (S p) of Inl r \<Rightarrow> Inl r | Inr r \<Rightarrow> Inr (r, None))"
      unfolding h [symmetric] handleM2Bs_def Let_def if_P [OF True] if_not_P [OF q(2)] hd ..
    show ?thesis using cm(1,2) cm(3) [where cmd = cmd and st = st]
      by (cases "fast_commit T j ?v (S p)") (simp_all add: x sent_le_def)
  next
    case False
    show ?thesis
    proof (cases "fi_ballot i = b")
      case True
      note ib = fast_inv_instance [OF inv i]
      have b: "b = 0"
      proof (rule ccontr)
        assume "b \<noteq> 0"
        then have "\<forall>m \<in> set msgs. vote0 Q S j (FastM2B_CmdId m)" using q(4,5) by blast
        then show False using False vote0_unique [OF inv Q] q(2) hd_in_set by metis
      qed
      let ?w = "FastM2B_CmdId ?m"
      let ?i = "i\<lparr>fi_value := ?w, fi_ballot := 1, fi_cballot := 1\<rparr>"
      let ?m' = "\<lparr>FastM2B_CmdId = ?w, FastM2B_Ballot = 1, FastM2B_Cballot = 1, FastM2B_Replica = p,
          FastM2B_InstanceId = j\<rparr>"
      let ?r = "SendToAll ?m' (set_instance j ?i (S p))"
      have id: "fr_Id (S p) = p" using inv by (simp add: fast_inv_def)
      have x: "x = Inr (?r, Some ?m')"
        using h False q(2) hd m i True b id
        by (simp add: handleM2Bs_def Let_def advanceBallot_def wrap32_id i32_def)
      have "inst_ok Q S p j ?i" using ib q(1) mx(2) by (simp add: inst_ok_def)
      note inv1 = fast_inv_set_instance [OF inv this]
      have "fast_inv Q (S(p := SendToAll ?m' (S1 p))) \<and> sent_le S1 (S(p := SendToAll ?m' (S1 p)))"
        if "S1 = S(p := set_instance j ?i (S p))" for S1
      proof -
        have le: "sent_le S S1" "sent_le S1 S" by (simp_all add: that sent_le_def set_instance_def)
        have nx: "j < fr_next (S1 p)" if "p \<in> Q"
        proof -
          from q(1) that obtain m where "m \<in> set (fr_sent (S p))" "FastM2B_InstanceId m = j"
            unfolding all_voted_def by blast
          then show ?thesis using sent_votes(1) [OF inv that] by (auto simp: \<open>S1 = _\<close> set_instance_def)
        qed
        have "fast_inv Q (S1(p := SendToAll ?m' (S1 p))) \<and> sent_le S1 (S1(p := SendToAll ?m' (S1 p)))"
          using inv1 nx all_voted_mono [OF q(1) le(1)] vote0_mono [OF mx(2) le(1)]
          by (intro fast_inv_SendToAll) (simp_all add: that)
        then show ?thesis by (simp add: that)
      qed
      from this [OF refl] have "fast_inv Q (S(p := ?r)) \<and> sent_le S (S(p := ?r))"
        by (auto simp: sent_le_def set_instance_def SendToAll_def)
      moreover have "executed_ok T cmd st ?r" if "p \<in> Q" "executed_ok T cmd st (S p)"
      proof (rule executed_ok_frame [OF that(2)])
        have "fi_value i = ?w" if "fi_committed i"
          using that ib \<open>p \<in> Q\<close> vote0_unique [OF inv Q _ mx(2)] by (simp add: inst_ok_def)
        then show "committed_at ?r k \<and> value_at ?r k = value_at (S p) k" if "committed_at (S p) k" for k
          using that i by (auto simp: committed_at_def value_at_def set_instance_def SendToAll_def)
      qed (use that in \<open>auto simp: set_instance_def SendToAll_def executed_ok_def\<close>)
      ultimately show ?thesis unfolding x by (simp add: SendToAll_def)
    next
      case ne: False
      then have "x = Inr (S p, None)" using h False q(2) m i by (simp add: handleM2Bs_def Let_def)
      then show ?thesis using inv le_refl by simp
    qed
  qed
  then show "x = Inl r' \<or> x = Inr (r', c) \<Longrightarrow> fast_inv Q (S(p := r')) \<and> sent_le S (S(p := r'))"
    "x = Inr (r', Some m) \<Longrightarrow> m \<in> set (fr_sent r')"
    "p \<in> Q \<Longrightarrow> executed_ok T cmd st (S p) \<Longrightarrow> x = Inr (r', c) \<Longrightarrow> executed_ok T cmd st r'"
    by blast+
qed


text \<open>\<open>handleM2B\<close>, by induction over its recursion.\<close>

definition run_ok :: "'st treemap \<Rightarrow> (CommandId \<Rightarrow> command) \<Rightarrow> 'st \<Rightarrow> int set \<Rightarrow> (int \<Rightarrow> 'st FastReplica) \<Rightarrow> int \<Rightarrow> 'st fast_run \<Rightarrow> bool" where
  "run_ok T cmd st Q S p x \<longleftrightarrow> fast_inv Q (S(p := of_run x)) \<and> sent_le S (S(p := of_run x)) \<and>
     (p \<in> Q \<longrightarrow> executed_ok T cmd st (S p) \<longrightarrow> (\<forall>r. x = Inr r \<longrightarrow> executed_ok T cmd st r))"

lemma run_ok_trans:
  assumes "sent_le S (S(p := r))" "p \<in> Q \<Longrightarrow> executed_ok T cmd st (S p) \<Longrightarrow> executed_ok T cmd st r"
    "run_ok T cmd st Q (S(p := r)) p x"
  shows "run_ok T cmd st Q S p x"
proof -
  have x: "fast_inv Q (S(p := of_run x))" "sent_le (S(p := r)) (S(p := of_run x))"
    "p \<in> Q \<Longrightarrow> executed_ok T cmd st r \<Longrightarrow> x = Inr r' \<Longrightarrow> executed_ok T cmd st r'" for r'
    using assms(3) by (simp_all add: run_ok_def)
  have "sent_le S (S(p := of_run x))"
    using order_trans assms(1) x(2) unfolding sent_le_def by metis
  then show ?thesis using assms(2) x(1,3) unfolding run_ok_def by blast
qed

lemma addM2B_executed:
  assumes "addM2B m r = Inr (r', c)" "executed_ok T cmd st r"
  shows "executed_ok T cmd st r'"
proof -
  obtain i r1 where g: "getInstance (FastM2B_InstanceId m) r = Inr (i, r1)"
    using assms(1) by (auto simp: addM2B_def split: sum.splits)
  note gi = getInstance_Inr [OF g]
  obtain s where r': "r' = set_instance (FastM2B_InstanceId m) (i\<lparr>fi_m2bSets := s\<rparr>) r1"
    using assms(1) by (auto simp: addM2B_def g split: prod.splits)
  have e: "executed_ok T cmd st r1" using executed_ok_same_instances [OF assms(2) gi(1,3,4,5)] .
  show ?thesis
    by (rule executed_ok_frame [OF e])
      (use gi(2) e in \<open>auto simp: r' set_instance_def executed_ok_def committed_at_def value_at_def\<close>)
qed

lemma addM2B_Inl: "addM2B m r = Inl r' \<Longrightarrow> r' = r"
  using getInstance_Inl by (auto simp: addM2B_def split: sum.splits prod.splits)

lemma handleM2B_inv:
  assumes Q: "finite Q" "Q \<noteq> {}" and h: "handleM2B T m r = Some x"
  shows "fast_inv Q S \<Longrightarrow> S p = r \<Longrightarrow> m \<in> set (fr_sent (S q)) \<Longrightarrow> run_ok T cmd st Q S p x"
  using h
proof (induction arbitrary: S q rule: handleM2B.raw_induct [rotated, consumes 1, case_names step])
  case (step rec T m r x)
  note inv = step.prems(1) and Sp = step.prems(2) and m = step.prems(3)
  show ?case
  proof (cases "addM2B m r")
    case (Inl r')
    then have "x = Inl r" using step(2) addM2B_Inl [OF Inl] by simp
    then show ?thesis using inv Sp by (auto simp: run_ok_def sent_le_def)
  next
    case (Inr y)
    obtain r1 c where y: "y = (r1, c)" by fastforce
    note add = addM2B_inv [OF inv m Q(1), of p r1 c, unfolded Sp, OF Inr [unfolded y]]
    have e1: "executed_ok T cmd st (S p) \<Longrightarrow> executed_ok T cmd st r1"
      using addM2B_executed [OF Inr [unfolded y]] Sp by simp
    have le1: "sent_le S (S(p := r1))" using add(2) Sp by (simp add: sent_le_def)
    show ?thesis
    proof (cases c)
      case None
      then have "x = Inr r1" using step(2) by (simp add: Inr y)
      then show ?thesis using add(1) e1 le1 by (simp add: run_ok_def)
    next
      case (Some msgs)
      let ?j = "FastM2B_InstanceId m" and ?S = "S(p := r1)"
      obtain i where i: "fr_instances (?S p) ?j = Some i" using add(4) [OF Some] by auto
      note qv = quorum_votes_mono [OF add(3) [OF Some] le1]
      note h2 = handleM2Bs_inv [OF add(1) Q qv i refl, of T, unfolded fun_upd_upd fun_upd_same]
      have x: "(case handleM2Bs T msgs r1 of
             Inl r \<Rightarrow> Some (Inl r)
           | Inr (r, None) \<Rightarrow> Some (Inr r)
           | Inr (r, Some m2b') \<Rightarrow> rec T m2b' r) = Some x"
        using step(2) by (simp add: Inr y Some)
      have "run_ok T cmd st Q ?S p x"
      proof (cases "handleM2Bs T msgs r1")
        case (Inl r2)
        then have "x = Inl r2" using x by simp
        moreover have "fast_inv Q (S(p := r2)) \<and> sent_le ?S (S(p := r2))" using h2(1) Inl by blast
        ultimately show ?thesis by (simp only: run_ok_def of_run_simps) simp
      next
        case h: (Inr z)
        obtain r2 d where z: "z = (r2, d)" by fastforce
        have i2: "fast_inv Q (S(p := r2))" "sent_le ?S (S(p := r2))" using h2(1) h z by blast+
        have e2: "p \<in> Q \<Longrightarrow> executed_ok T cmd st r1 \<Longrightarrow> executed_ok T cmd st r2" using h2(3) h z by blast
        show ?thesis
        proof (cases d)
          case None
          then have "x = Inr r2" using x h z by simp
          then show ?thesis using i2 e2 by (simp add: run_ok_def)
        next
          case (Some m')
          have "m' \<in> set (fr_sent ((S(p := r2)) p))" using h2(2) h z Some by simp
          moreover have "rec T m' r2 = Some x" using x h z Some by simp
          ultimately have "run_ok T cmd st Q (S(p := r2)) p x"
            using step(1) [OF _ i2(1) fun_upd_same] by blast
          then show ?thesis using run_ok_trans [of ?S p r2] i2 e2 by simp
        qed
      qed
      then show ?thesis using run_ok_trans [OF le1] e1 by blast
    qed
  qed
qed


lemma handleProposal_cases:
  assumes Q: "finite Q" "Q \<noteq> {}" and inv: "fast_inv Q S"
    and pr: "Propose_Command prop = cmd (proposal_id prop)"
  obtains (panics) r0 where "handleProposal T prop (S p) = Some (Inl r0)" "run_ok T cmd st Q S p (Inl r0)"
    | (votes) m r4 where "handleProposal T prop (S p) = handleM2B T m r4" "fast_inv Q (S(p := r4))"
        "m \<in> set (fr_sent r4)" "sent_le S (S(p := r4))"
        "p \<in> Q \<Longrightarrow> executed_ok T cmd st (S p) \<Longrightarrow> executed_ok T cmd st r4"
proof -
  define v where "v = proposal_id prop"
  define r0 where "r0 = S p\<lparr>fr_cmds := (fr_cmds (S p))(v \<mapsto> prop)\<rparr>"
  have h: "handleProposal T prop (S p) = (case getInstance (fr_next r0) r0 of
           Inl r \<Rightarrow> Some (Inl r)
         | Inr (i, r) \<Rightarrow>
             let r = r\<lparr>fr_next := fr_next r + 1\<rparr>;
                 i = i\<lparr>fi_value := v\<rparr>;
                 m2b = \<lparr>FastM2B_CmdId = fi_value i, FastM2B_Ballot = fi_ballot i,
                        FastM2B_Cballot = fi_cballot i, FastM2B_Replica = fr_Id r,
                        FastM2B_InstanceId = fr_next r - 1\<rparr>
             in handleM2B T m2b (SendToAll m2b (set_instance (fr_next r - 1) i r)))"
    unfolding handleProposal_def r0_def v_def proposal_id_def Let_def ..
  have same: "fr_sent r0 = fr_sent (S p)" "fr_instances r0 = fr_instances (S p)" "fr_next r0 = fr_next (S p)"
    "fr_Id r0 = fr_Id (S p)" "fr_defaultFastQuorum r0 = fr_defaultFastQuorum (S p)"
    "fr_lastExecuted r0 = fr_lastExecuted (S p)" "fr_delivered r0 = fr_delivered (S p)" "fr_State r0 = fr_State (S p)"
    by (simp_all add: r0_def)
  define S0 where "S0 = S(p := r0)"
  have S0: "S0 p = r0" "S0(p := y) = S(p := y)" for y by (simp_all add: S0_def)
  have sent0: "fr_sent (S0 q) = fr_sent (S q)" "fr_next (S0 q) = fr_next (S q)"
    "fr_instances (S0 q) = fr_instances (S q)" "fr_Id (S0 q) = fr_Id (S q)"
    "fr_defaultFastQuorum (S0 q) = fr_defaultFastQuorum (S q)" for q
    by (simp_all add: S0_def same)
  have le0: "sent_le S S0" by (simp add: sent_le_def sent0)
  have inv0: "fast_inv Q S0"
    using inv votes_ok_same [OF fast_inv_votes [OF inv], of S0] inst_ok_mono [OF _ le0]
    by (simp add: fast_inv_def sent0)
  have e0: "executed_ok T cmd st r0" if "executed_ok T cmd st (S p)"
    by (rule executed_ok_frame [OF that])
      (use that pr in \<open>auto simp: same committed_at_def value_at_def r0_def executed_ok_def v_def split: if_splits\<close>)
  show ?thesis
  proof (cases "getInstance (fr_next r0) r0")
    case (Inl r)
    then have "handleProposal T prop (S p) = Some (Inl r0)" using h getInstance_Inl [OF Inl] by simp
    then show ?thesis using inv0 le0 by (intro panics) (simp_all add: run_ok_def S0_def)
  next
    case (Inr y)
    obtain i r1 where y: "y = (i, r1)" by fastforce
    note gi = getInstance_Inr [OF Inr [unfolded y]]
    let ?j = "fr_next r0"
    define S1 where "S1 = S(p := r1)"
    have S1: "S1 p = r1" "S1(p := z) = S(p := z)" for z by (simp_all add: S1_def)
    have inv1: "fast_inv Q S1"
      using fast_frame_inv [OF inv0, of p r1] gi(1) by (simp add: S0 S1_def)
    have r1: "fr_sent r1 = fr_sent (S p)" "fr_next r1 = ?j" "fr_Id r1 = p"
      using gi(1) inv by (auto simp: fast_frame_def same fast_inv_def)
    note i1 = fast_inv_instance [OF inv1, of p ?j i, unfolded S1, OF gi(2)]
    have fresh: "m \<in> set (fr_sent (S1 p)) \<Longrightarrow> FastM2B_InstanceId m \<noteq> ?j" if "p \<in> Q" for m
      using sent_votes(1) [OF inv1 that] S1 r1(2) by force
    have i0: "fi_ballot i = 0 \<and> \<not> fi_committed i" if "p \<in> Q"
      using i1 fresh [OF that] that unfolding inst_ok_def all_voted_def by blast
    let ?i = "i\<lparr>fi_value := v\<rparr>"
    have "inst_ok Q S1 p ?j ?i" using i1 i0 by (auto simp: inst_ok_def)
    note inv2 = fast_inv_set_instance [OF inv1 this, unfolded S1]
    define r2 where "r2 = set_instance ?j ?i (r1\<lparr>fr_next := ?j + 1\<rparr>)"
    define S2 where "S2 = S(p := r2)"
    have S2: "S2 p = r2" "S2(p := z) = S(p := z)" for z by (simp_all add: S2_def)
    have r2: "fr_sent r2 = fr_sent r1" "fr_next r2 = ?j + 1" by (simp_all add: r2_def set_instance_def)
    have le2: "sent_le S S2" by (simp add: sent_le_def S2_def r1 r2)
    have inv3: "fast_inv Q S2"
    proof -
      let ?S = "S(p := set_instance ?j ?i r1)"
      have "votes_ok Q S2" using fast_inv_votes [OF inv2]
        by (rule votes_ok_same) (simp_all add: S2_def r2_def set_instance_def r1)
      moreover have "sent_le ?S S2" by (simp add: sent_le_def S2_def r2_def set_instance_def)
      moreover have "fr_instances (S2 q) = fr_instances (?S q)" "fr_Id (S2 q) = fr_Id (?S q)"
        "fr_defaultFastQuorum (S2 q) = fr_defaultFastQuorum (?S q)" for q
        by (simp_all add: S2_def r2_def set_instance_def)
      ultimately show ?thesis using inv2 inst_ok_mono unfolding fast_inv_def by metis
    qed
    have e2: "executed_ok T cmd st r2" if "executed_ok T cmd st (S p)" "p \<in> Q"
    proof -
      have e1: "executed_ok T cmd st r1"
        using executed_ok_same_instances [OF e0 [OF that(1)] gi(1,3,4,5)] .
      show ?thesis
        by (rule executed_ok_frame [OF e1])
          (use gi(2) e1 i0 [OF that(2)] in
            \<open>auto simp: r2_def set_instance_def executed_ok_def committed_at_def value_at_def split: if_splits\<close>)
    qed
    let ?m = "\<lparr>FastM2B_CmdId = v, FastM2B_Ballot = fi_ballot i, FastM2B_Cballot = fi_cballot i,
        FastM2B_Replica = p, FastM2B_InstanceId = ?j\<rparr>"
    have "fast_inv Q (S2(p := SendToAll ?m (S2 p))) \<and> sent_le S2 (S2(p := SendToAll ?m (S2 p)))"
      using i0 i1 fresh S1 S2 r2 by (intro fast_inv_SendToAll [OF inv3]) (auto simp: inst_ok_def)
    then have inv4: "fast_inv Q (S(p := SendToAll ?m r2))" "sent_le S2 (S(p := SendToAll ?m r2))"
      by (simp_all add: S2)
    show ?thesis
    proof (rule votes [of ?m "SendToAll ?m r2"])
      show "handleProposal T prop (S p) = handleM2B T ?m (SendToAll ?m r2)"
        using h by (simp add: Inr y Let_def r1 r2_def)
      show "fast_inv Q (S(p := SendToAll ?m r2))" by (rule inv4)
      show "?m \<in> set (fr_sent (SendToAll ?m r2))" by (simp add: SendToAll_def)
      show "sent_le S (S(p := SendToAll ?m r2))"
        using le2 inv4(2) unfolding sent_le_def by (meson order_trans)
      show "executed_ok T cmd st (SendToAll ?m r2)" if "p \<in> Q" "executed_ok T cmd st (S p)"
        by (rule executed_ok_frame [OF e2 [OF that(2,1)]])
          (use e2 [OF that(2,1)] in \<open>auto simp: SendToAll_def executed_ok_def committed_at_def value_at_def\<close>)
    qed
  qed
qed

lemma handleProposal_inv:
  assumes Q: "finite Q" "Q \<noteq> {}" and inv: "fast_inv Q S"
    and pr: "Propose_Command prop = cmd (proposal_id prop)" and h: "handleProposal T prop (S p) = Some x"
  shows "run_ok T cmd st Q S p x"
proof (cases rule: handleProposal_cases [where cmd = cmd and T = T and p = p and st = st, OF Q inv pr, case_names panics votes])
  case (panics r0)
  then show ?thesis using h by simp
next
  case (votes m r4)
  have "run_ok T cmd st Q (S(p := r4)) p x"
    using votes(1) h by (intro handleM2B_inv [OF Q _ votes(2)]) (use votes(3) in auto)
  then show ?thesis using run_ok_trans votes(4,5) by metis
qed

section \<open>Termination\<close>

text \<open>A quorum of votes at ballot 1 agrees, so it never leads to ballot 2.\<close>

lemma handleM2Bs_ballot_1:
  assumes inv: "fast_inv Q S" and Q: "finite Q" "Q \<noteq> {}" and v: "quorum_votes Q S j 1 msgs"
  shows "handleM2Bs T msgs (S p) \<noteq> Inr (r', Some m)"
proof -
  note q = quorum_votes_values [OF inv Q v]
  have "\<forall>m \<in> set msgs. FastM2B_CmdId m = FastM2B_CmdId (hd msgs)"
    using q(5) vote0_unique [OF inv Q] q(2) hd_in_set by metis
  then show ?thesis
    unfolding handleM2Bs_def Let_def if_not_P [OF q(2)] by (auto split: sum.splits)
qed

lemma handleM2Bs_next_ballot:
  assumes inv: "fast_inv Q S" and Q: "finite Q" "Q \<noteq> {}" and v: "quorum_votes Q S j b msgs"
    and h: "handleM2Bs T msgs (S p) = Inr (r', Some m)"
  shows "FastM2B_Ballot m = 1"
proof -
  note q = quorum_votes_values [OF inv Q v]
  have b: "b = 0" using q(4) handleM2Bs_ballot_1 [OF inv Q] v h by blast
  have "FastM2B_Ballot (last (sort_key FastM2B_Cballot (sort_key FastM2B_Replica msgs))) = 0"
    using recovered_value(1) [OF inv Q v] q(3) b by blast
  moreover define v where "v = FastM2B_CmdId (hd msgs)"
  ultimately show ?thesis using h unfolding handleM2Bs_def Let_def v_def [symmetric]
    by (auto simp: advanceBallot_def i32_def split: if_splits sum.splits option.splits)
qed

lemma handleM2B_returns:
  assumes inv: "fast_inv Q S" and Q: "finite Q" "Q \<noteq> {}" and m: "m \<in> set (fr_sent (S q))"
  shows "\<exists>x. handleM2B T m (S p) = Some x"
proof -
  have step: "\<exists>x. handleM2B T m (S p) = Some x"
    if inv: "fast_inv Q S" and m: "m \<in> set (fr_sent (S q))"
      and more: "\<And>msgs r1 r2 m'. quorum_votes Q (S(p := r1)) (FastM2B_InstanceId m) (FastM2B_Ballot m) msgs \<Longrightarrow>
        fast_inv Q (S(p := r1)) \<Longrightarrow> handleM2Bs T msgs r1 = Inr (r2, Some m') \<Longrightarrow> fast_inv Q (S(p := r2)) \<Longrightarrow>
        m' \<in> set (fr_sent r2) \<Longrightarrow> \<exists>x. handleM2B T m' r2 = Some x" for S m q
  proof (cases "addM2B m (S p)")
    case (Inl r')
    then show ?thesis by (subst handleM2B.simps) simp
  next
    case (Inr y)
    obtain r1 c where y: "y = (r1, c)" by fastforce
    note add = addM2B_inv [OF inv m Q(1), of p r1 c, OF Inr [unfolded y]]
    have le1: "sent_le S (S(p := r1))" using add(2) by (simp add: sent_le_def)
    show ?thesis
    proof (cases c)
      case None
      then show ?thesis by (subst handleM2B.simps) (simp add: Inr y)
    next
      case (Some msgs)
      obtain i where i: "fr_instances ((S(p := r1)) p) (FastM2B_InstanceId m) = Some i" using add(4) [OF Some] by auto
      note qv = quorum_votes_mono [OF add(3) [OF Some] le1]
      note h2 = handleM2Bs_inv [OF add(1) Q qv i refl, of T, unfolded fun_upd_upd fun_upd_same]
      have h: "\<exists>x. handleM2B T m' r2 = Some x" if "handleM2Bs T msgs r1 = Inr (r2, Some m')" for r2 m'
        using more [OF qv add(1) that] h2(1,2) that by blast
      have e: "handleM2B T m (S p) = (case handleM2Bs T msgs r1 of
             Inl r \<Rightarrow> Some (Inl r)
           | Inr (r, None) \<Rightarrow> Some (Inr r)
           | Inr (r, Some m2b') \<Rightarrow> handleM2B T m2b' r)"
        by (subst handleM2B.simps) (simp add: Inr y Some)
      show ?thesis unfolding e by (auto split: sum.splits option.splits intro: h)
    qed
  qed
  have at1: "\<exists>x. handleM2B T m (S p) = Some x"
    if m: "fast_inv Q S" "m \<in> set (fr_sent (S q))" "FastM2B_Ballot m = 1" for S m q
  proof (rule step [OF m(1,2)])
    fix msgs r1 r2 m'
    assume a: "quorum_votes Q (S(p := r1)) (FastM2B_InstanceId m) (FastM2B_Ballot m) msgs"
      "fast_inv Q (S(p := r1))" "handleM2Bs T msgs r1 = Inr (r2, Some m')"
    have "handleM2Bs T msgs ((S(p := r1)) p) \<noteq> Inr (r2, Some m')"
      using a(1) m(3) by (intro handleM2Bs_ballot_1 [OF a(2) Q]) simp
    then show "\<exists>x. handleM2B T m' r2 = Some x" using a(3) by simp
  qed
  show ?thesis
  proof (rule step [OF inv m])
    fix msgs r1 r2 m'
    assume a: "quorum_votes Q (S(p := r1)) (FastM2B_InstanceId m) (FastM2B_Ballot m) msgs"
      "fast_inv Q (S(p := r1))" "handleM2Bs T msgs r1 = Inr (r2, Some m')" "fast_inv Q (S(p := r2))"
      "m' \<in> set (fr_sent r2)"
    have "FastM2B_Ballot m' = 1" using handleM2Bs_next_ballot [OF a(2) Q a(1), of T p] a(3) by simp
    then show "\<exists>x. handleM2B T m' r2 = Some x" using at1 [OF a(4), of m' p] a(5) by simp
  qed
qed

section \<open>Agreement\<close>

lemma fast_reachable_inv:
  assumes Q: "finite Q" "Q \<noteq> {}"
  shows "fast_reachable T cmd (Quorum Q) st S \<Longrightarrow>
    fast_inv Q (of_run \<circ> S) \<and> (\<forall>p \<in> Q. \<forall>r. S p = Inr r \<longrightarrow> executed_ok T cmd st r)"
proof (induction rule: fast_reachable.induct)
  case init
  then show ?case
    by (auto simp: NewFastSystem_def NewFastReplica_def fast_inv_def votes_ok_def executed_ok_def comp_def)
next
  case (propose S p r pr x)
  let ?S = "of_run \<circ> S"
  have r: "?S p = r" using propose.hyps by simp
  have u: "of_run \<circ> S(p := x) = ?S(p := of_run x)" by (simp add: fun_eq_iff)
  from handleProposal_inv [OF Q, of ?S pr cmd T p x st] propose r
  have "run_ok T cmd st Q ?S p x" by simp
  then have "fast_inv Q (of_run \<circ> S(p := x))" "\<forall>r. p \<in> Q \<and> x = Inr r \<longrightarrow> executed_ok T cmd st r"
    using propose unfolding run_ok_def u r by blast+
  moreover from this have "\<forall>p' \<in> Q. \<forall>r. (S(p := x)) p' = Inr r \<longrightarrow> executed_ok T cmd st r"
    using propose.IH by simp
  ultimately show ?case by blast
next
  case (receive S p r q m x)
  let ?S = "of_run \<circ> S"
  have r: "?S p = r" using receive.hyps by simp
  have u: "of_run \<circ> S(p := x) = ?S(p := of_run x)" by (simp add: fun_eq_iff)
  from handleM2B_inv [OF Q, of T m r x ?S p q cmd st] receive r
  have "run_ok T cmd st Q ?S p x" by simp
  then have "fast_inv Q (of_run \<circ> S(p := x))" "\<forall>r. p \<in> Q \<and> x = Inr r \<longrightarrow> executed_ok T cmd st r"
    using receive unfolding run_ok_def u r by blast+
  moreover from this have "\<forall>p' \<in> Q. \<forall>r. (S(p := x)) p' = Inr r \<longrightarrow> executed_ok T cmd st r"
    using receive.IH by simp
  ultimately show ?case by blast
qed


text \<open>
  C1: With one fixed fast quorum \<open>Q\<close>, for every order and loss of messages, crash and collision: there
  is one value per instance such that the instances that members of \<open>Q\<close> have committed hold it, and
  every member of \<open>Q\<close> has executed exactly the values of the instances up to its last executed one, in
  order and each command once, so that members with the same last executed instance have the same state.
\<close>

theorem fastpaxos_agreement:
  assumes "finite Q" "Q \<noteq> {}" "fast_reachable T cmd (Quorum Q) st S"
  shows "\<exists>chosen. \<forall>p \<in> Q.
    (\<forall>j i. fr_instances (of_run (S p)) j = Some i \<and> fi_committed i \<longrightarrow> fi_value i = chosen j) \<and>
    (\<forall>r. S p = Inr r \<longrightarrow>
       deliver_all T cmd (map chosen [0..fr_lastExecuted r]) ({}, st) = (fr_delivered r, fr_State r))"
proof (intro exI ballI conjI allI impI)
  let ?S = "of_run \<circ> S"
  let ?chosen = "\<lambda>j. SOME v. vote0 Q ?S j v"
  note inv = fast_reachable_inv [OF assms]
  note fi = conjunct1 [OF inv]
  fix p assume p: "p \<in> Q"
  have val: "fi_value i = ?chosen j"
    if "fr_instances (of_run (S p)) j = Some i" "fi_committed i" for j i
  proof -
    have v: "vote0 Q ?S j (fi_value i)"
      using fast_inv_instance [OF fi, of p j i] that p by (simp add: inst_ok_def)
    then have "vote0 Q ?S j (?chosen j)" by (rule someI)
    then show ?thesis using vote0_unique [OF fi assms(1,2) v] by blast
  qed
  then show "fi_value i = ?chosen j"
    if "fr_instances (of_run (S p)) j = Some i \<and> fi_committed i" for j i
    using that by blast
  show "deliver_all T cmd (map ?chosen [0..fr_lastExecuted r]) ({}, st) = (fr_delivered r, fr_State r)"
    if "S p = Inr r" for r
  proof -
    have e: "executed_ok T cmd st r" using inv p that by blast
    have "map ?chosen [0..fr_lastExecuted r] = map (value_at r) [0..fr_lastExecuted r]"
      using e val that by (intro map_cong) (auto simp: executed_ok_def committed_at_def value_at_def)
    then show ?thesis using e unfolding executed_ok_def by (metis (no_types, lifting))
  qed
qed

text \<open>
  C15: With one fixed fast quorum the handlers return: the recursion of \<open>handleM2B\<close> through the handler
  of the message sets ends, whatever proposal arrives and whatever message was sent.
\<close>

theorem fastpaxos_handlers_return:
  assumes "finite Q" "Q \<noteq> {}" "fast_reachable T cmd (Quorum Q) st S" "S p = Inr r"
  shows "(m \<in> set (fr_sent (of_run (S q))) \<longrightarrow> handleM2B T m r \<noteq> None) \<and>
    (Propose_Command prop = cmd (proposal_id prop) \<longrightarrow> handleProposal T prop r \<noteq> None)"
proof (intro conjI impI)
  let ?S = "of_run \<circ> S"
  note inv = conjunct1 [OF fast_reachable_inv [OF assms(1-3)]]
  have r: "?S p = r" using assms(4) by simp
  show "handleM2B T m r \<noteq> None" if "m \<in> set (fr_sent (of_run (S q)))"
    using handleM2B_returns [OF inv assms(1,2), of m q T p] that r by auto
  show "handleProposal T prop r \<noteq> None" if pr: "Propose_Command prop = cmd (proposal_id prop)"
  proof (cases rule: handleProposal_cases [where cmd = cmd and T = T and p = p and st = st, OF assms(1,2) inv pr, case_names panics votes])
    case (panics r0)
    then show ?thesis by (simp add: r [symmetric])
  next
    case (votes m r4)
    have "\<exists>x. handleM2B T m r4 = Some x"
      using handleM2B_returns [OF votes(2) assms(1,2), of m p T p] votes(3) by simp
    then show ?thesis using votes(1) r by auto
  qed
qed

section \<open>Runs\<close>

datatype fast_action = Proposal int GPropose | Deliver int int nat

text \<open>
  Runs as lists of actions: a proposal reaches a replica, or the \<open>n\<close>-th message a replica sent reaches another.
\<close>

fun fast_act :: "'st treemap \<Rightarrow> fast_action \<Rightarrow> (int \<Rightarrow> 'st fast_run) \<Rightarrow> (int \<Rightarrow> 'st fast_run) option" where
  "fast_act T (Proposal p pr) S =
     (case S p of Inl _ \<Rightarrow> None
      | Inr r \<Rightarrow> (case handleProposal T pr r of None \<Rightarrow> None | Some x \<Rightarrow> Some (S(p := x))))"
| "fast_act T (Deliver q p n) S =
     (if p = q \<or> length (fr_sent (of_run (S q))) \<le> n then None
      else case S p of Inl _ \<Rightarrow> None
      | Inr r \<Rightarrow> (case handleM2B T (fr_sent (of_run (S q)) ! n) r of None \<Rightarrow> None | Some x \<Rightarrow> Some (S(p := x))))"

fun fast_acts :: "'st treemap \<Rightarrow> fast_action list \<Rightarrow> (int \<Rightarrow> 'st fast_run) \<Rightarrow> (int \<Rightarrow> 'st fast_run) option" where
  "fast_acts T [] S = Some S"
| "fast_acts T (a # as) S = (case fast_act T a S of None \<Rightarrow> None | Some S \<Rightarrow> fast_acts T as S)"

lemma fast_acts_reachable:
  assumes "fast_reachable T cmd Q st S" "fast_acts T as S = Some S'"
    "\<forall>p pr. Proposal p pr \<in> set as \<longrightarrow> Propose_Command pr = cmd (proposal_id pr)"
  shows "fast_reachable T cmd Q st S'"
  using assms
proof (induction as arbitrary: S)
  case Nil
  then show ?case by simp
next
  case (Cons a as)
  then obtain S1 where a: "fast_act T a S = Some S1" "fast_acts T as S1 = Some S'"
    by (auto split: option.splits)
  have "fast_reachable T cmd Q st S1"
  proof (cases a)
    case (Proposal p pr)
    then obtain r x where r: "S p = Inr r" "handleProposal T pr r = Some x" "S1 = S(p := x)"
      using a(1) by (auto split: sum.splits option.splits)
    have "Propose_Command pr = cmd (proposal_id pr)" 
      using Cons.prems(3) unfolding Proposal by (meson list.set_intros(1))
    from propose [OF Cons.prems(1) r(1) this r(2)] show ?thesis by (simp only: r(3))
  next
    case (Deliver q p n)
    then obtain r x where r: "p \<noteq> q" "n < length (fr_sent (of_run (S q)))" "S p = Inr r"
        "handleM2B T (fr_sent (of_run (S q)) ! n) r = Some x" "S1 = S(p := x)"
      using a(1) by (auto split: sum.splits option.splits if_splits)
    from receive [OF Cons.prems(1) r(3,1) nth_mem [OF r(2)] r(4)] show ?thesis by (simp only: r(5))
  qed
  moreover have "\<forall>p pr. Proposal p pr \<in> set as \<longrightarrow> Propose_Command pr = cmd (proposal_id pr)"
    using Cons.prems(3) by (meson list.set_intros(2))
  ultimately show ?case using Cons.IH a(2) by blast
qed

text \<open>Proposals that write their own number at one key, to run the system on.\<close>

definition put_proposal :: "int \<Rightarrow> GPropose" where
  "put_proposal n = \<lparr>Propose_CommandId = n, Propose_ClientId = 7,
     Propose_Command = \<lparr>Op = PUT, K = 0, V = [word_of_int n]\<rparr>, Propose_Timestamp = 0, GPropose_Proxy = False\<rparr>"

definition put_of :: "CommandId \<Rightarrow> command" where
  "put_of v = \<lparr>Op = PUT, K = 0, V = [word_of_int (SeqNum v)]\<rparr>"

lemmas fast_eval = handleProposal_def put_proposal_def getInstance_def INST_NUM_def new_instance_def
  addM2B_def getM2bSet_def SendToAll_def set_instance_def NewMsgSet_def Add_def handleM2Bs_def
  fast_commit_def fast_deliver_def advanceBallot_def i32_def Execute_def Let_def
  NewFastSystem_def NewFastReplica_def handleM2B.simps exec_loop.simps

lemma put_run_reachable:
  assumes "fast_acts T as (NewFastSystem Q st) = Some S" "\<forall>a \<in> set as. \<forall>p pr. a = Proposal p pr \<longrightarrow> (\<exists>n. pr = put_proposal n)"
  shows "fast_reachable T put_of Q st S"
proof (rule fast_acts_reachable [OF init assms(1)], intro allI impI)
  fix p pr assume "Proposal p pr \<in> set as"
  then obtain n where "pr = put_proposal n" using assms(2) by blast
  then show "Propose_Command pr = put_of (proposal_id pr)"
    by (simp add: put_proposal_def put_of_def proposal_id_def)
qed

text \<open>The two members of the quorum receive two proposals in opposite orders and recover.\<close>

theorem fastpaxos_agreement_witness:
  "\<exists>S r r'. fast_reachable rbt_treemap put_of (Quorum {0, 1}) RBT.empty S \<and> S 0 = Inr r \<and> S 1 = Inr r' \<and>
     fr_lastExecuted r = 1 \<and> fr_lastExecuted r' = 1 \<and> fr_State r = fr_State r'"
proof -
  let ?as = "[Proposal 0 (put_proposal 2), Proposal 0 (put_proposal 1), Proposal 1 (put_proposal 1),
     Proposal 1 (put_proposal 2), Deliver 1 0 0, Deliver 1 0 1, Deliver 0 1 0, Deliver 0 1 1,
     Deliver 1 0 2, Deliver 1 0 3, Deliver 0 1 2, Deliver 0 1 3]"
  obtain S r r' where S: "fast_acts rbt_treemap ?as (NewFastSystem (Quorum {0, 1}) RBT.empty) = Some S"
      "S 0 = Inr r" "S 1 = Inr r'" "fr_lastExecuted r = 1" "fr_lastExecuted r' = 1"
    by (simp add: fast_eval)
  have re: "fast_reachable rbt_treemap put_of (Quorum {0, 1}) RBT.empty S"
    by (rule put_run_reachable [OF S(1)]) auto
  from fastpaxos_agreement [OF _ _ re] obtain chosen where
    "\<forall>p \<in> {0, 1}. \<forall>r. S p = Inr r \<longrightarrow>
       deliver_all rbt_treemap put_of (map chosen [0..fr_lastExecuted r]) ({}, RBT.empty) = (fr_delivered r, fr_State r)"
    by auto
  then have "(fr_delivered r, fr_State r) = (fr_delivered r', fr_State r')"
    using S(2-5) by (metis insertI1 insertI2)
  then show ?thesis using S(2-5) re by blast
qed

theorem fastpaxos_handlers_return_witness:
  "\<exists>r. NewFastSystem (Quorum {0, 1}) RBT.empty 0 = Inr r \<and> handleProposal rbt_treemap (put_proposal 2) r \<noteq> None"
proof -
  have r: "NewFastSystem (Quorum {0, 1}) RBT.empty 0 = Inr (NewFastReplica 0 (Quorum {0, 1}) RBT.empty)"
    by (simp add: NewFastSystem_def)
  have "fast_reachable rbt_treemap put_of (Quorum {0, 1}) RBT.empty (NewFastSystem (Quorum {0, 1}) RBT.empty)"
    by (rule init)
  from fastpaxos_handlers_return [OF _ _ this r, of undefined 0 "put_proposal 2"] r show ?thesis
    by (auto simp: put_proposal_def put_of_def proposal_id_def)
qed

text \<open>
  Outside the quorum a committed value can be overwritten.  Replica 2 learns that instance 1 holds
  a command before it received its second proposal; handling that proposal then replaces the committed
  value.  It has executed as many instances as replica 0, and has a different state.
\<close>

theorem fastpaxos_commit_overwritten:
  "\<exists>S r r'. fast_reachable T put_of (Quorum {0, 1}) st S \<and> S 0 = Inr r \<and> S 2 = Inr r' \<and>
     fr_lastExecuted r = 1 \<and> fr_lastExecuted r' = 1 \<and>
     fr_State r = tm_Put T 0 [1] (tm_Put T 0 [2] st) \<and> fr_State r' = tm_Put T 0 [2] st"
proof -
  let ?as = "[Proposal 0 (put_proposal 2), Proposal 0 (put_proposal 1), Proposal 1 (put_proposal 2),
     Proposal 1 (put_proposal 1), Deliver 1 0 0, Deliver 1 0 1, Proposal 2 (put_proposal 1),
     Deliver 0 2 1, Deliver 1 2 1, Proposal 2 (put_proposal 2), Deliver 0 2 0, Deliver 1 2 0]"
  obtain S r r' where S: "fast_acts T ?as (NewFastSystem (Quorum {0, 1}) st) = Some S"
      "S 0 = Inr r" "S 2 = Inr r'" "fr_lastExecuted r = 1" "fr_lastExecuted r' = 1"
      "fr_State r = tm_Put T 0 [1] (tm_Put T 0 [2] st)" "fr_State r' = tm_Put T 0 [2] st"
    by (simp add: fast_eval)
  have "fast_reachable T put_of (Quorum {0, 1}) st S" by (rule put_run_reachable [OF S(1)]) auto
  then show ?thesis using S(2-7) by blast
qed

text \<open>
  A replica that learns of a commit before it received the proposal panics: it looks the
  command up without a test.
\<close>

theorem fastpaxos_unknown_command_panics:
  "\<exists>S r. fast_reachable T put_of (Quorum {0, 1}) st S \<and> S 2 = Inl r"
proof -
  let ?as = "[Proposal 0 (put_proposal 2), Proposal 1 (put_proposal 2), Deliver 1 2 0, Deliver 0 2 0]"
  obtain S r where S: "fast_acts T ?as (NewFastSystem (Quorum {0, 1}) st) = Some S" "S 2 = Inl r"
    by (simp add: fast_eval)
  have "fast_reachable T put_of (Quorum {0, 1}) st S" by (rule put_run_reachable [OF S(1)]) auto
  then show ?thesis using S(2) by blast
qed

end
