(* ===== verification/Paxos.thy ===== *)
theory Paxos
  imports PaxosMsg ClientMsg Quorum
begin

text \<open>
  The Paxos replica (\<open>paxos/paxos.go\<close>): its state, its handlers, the execution of committed instances and
  recovery.  A handler that panics, or that does not return, ends in \<open>Inl\<close> of the state it reached; one that
  returns ends in \<open>Inr\<close>.  Messages given to \<open>SendMsg\<close> are listed with their destination, replies to clients with
  the proposal they answer.
\<close>

section \<open>State\<close>

datatype InstanceStatus = PREPARING | PREPARED | ACCEPTED | COMMITTED

fun status_num :: "InstanceStatus \<Rightarrow> int" where
  "status_num PREPARING = 0"
| "status_num PREPARED = 1"
| "status_num ACCEPTED = 2"
| "status_num COMMITTED = 3"

record LeaderBookkeeping =
  lb_clientProposals :: "GPropose list option"
  lb_prepareOKs :: int
  lb_acceptOKs :: int
  lb_nacks :: int
  lb_ballot :: int
  lb_cmds :: "command list option"
  lb_lastTriedBallot :: int

record Instance =
  in_cmds :: "command list option"
  in_bal :: int
  in_vbal :: int
  in_status :: InstanceStatus
  in_lb :: "LeaderBookkeeping option"

record 'st PaxosReplica =
  pr_Id :: int
  pr_N :: int
  pr_F :: int
  pr_Alive :: "bool list"
  pr_PreferredPeerOrder :: "int list"
  pr_Dreply :: bool
  pr_Durable :: bool
  pr_ProposeChan :: "GPropose list"
  pr_instancesToRecover :: "int list"
  pr_IsLeader :: bool
  pr_instanceSpace :: "int \<Rightarrow> Instance option"
  pr_crtInstance :: int
  pr_maxRecvBallot :: int
  pr_defaultBallot :: "int list"
  pr_smallestDefaultBallot :: int
  pr_executedUpTo :: int
  pr_totalRecNum :: int
  pr_totalSendNum :: int
  pr_timeout :: int
  pr_problemInstance :: int
  pr_State :: 'st
  pr_StableStore :: bytes
  pr_sent :: "(int \<times> paxos_msg) list"
  pr_replied :: "(GPropose \<times> ProposeReplyTS) list"

type_synonym 'st paxos_run = "'st PaxosReplica + 'st PaxosReplica"

definition INSTANCES :: int where
  "INSTANCES = 15 * 1024 * 1024"

text \<open>
  A replica when it starts its loop: the flags are those of \<open>replica.New\<close>; who is alive and in which order
  peers are preferred was found when the connections were made.
\<close>

definition NewPaxosReplica :: "int \<Rightarrow> int \<Rightarrow> int \<Rightarrow> bool list \<Rightarrow> int list \<Rightarrow> bool \<Rightarrow> 'st \<Rightarrow> 'st PaxosReplica" where
  "NewPaxosReplica rid n f alive pref isLeader st =
     \<lparr>pr_Id = rid, pr_N = n, pr_F = f, pr_Alive = alive, pr_PreferredPeerOrder = pref,
      pr_Dreply = True, pr_Durable = False, pr_ProposeChan = [], pr_instancesToRecover = [],
      pr_IsLeader = isLeader, pr_instanceSpace = Map.empty, pr_crtInstance = -1, pr_maxRecvBallot = -1,
      pr_defaultBallot = replicate (nat n) (-1), pr_smallestDefaultBallot = -1, pr_executedUpTo = -1,
      pr_totalRecNum = 0, pr_totalSendNum = 0, pr_timeout = 0, pr_problemInstance = 0, pr_State = st,
      pr_StableStore = [], pr_sent = [], pr_replied = []\<rparr>"

definition BeTheLeader :: "'st PaxosReplica \<Rightarrow> 'st PaxosReplica" where
  "BeTheLeader r = r\<lparr>pr_IsLeader := True, pr_totalRecNum := 0, pr_totalSendNum := 0\<rparr>"

text \<open>\<open>r.instanceSpace[i]\<close> and its assignment; an index out of range panics.\<close>

definition in_range :: "int \<Rightarrow> bool" where
  "in_range i \<longleftrightarrow> 0 \<le> i \<and> i < INSTANCES"

definition put_inst :: "int \<Rightarrow> Instance \<Rightarrow> 'st PaxosReplica \<Rightarrow> 'st PaxosReplica" where
  "put_inst i inst r = r\<lparr>pr_instanceSpace := (pr_instanceSpace r)(i \<mapsto> inst)\<rparr>"

definition with_inst ::
  "int \<Rightarrow> 'st PaxosReplica \<Rightarrow> (Instance option \<Rightarrow> 'st paxos_run) \<Rightarrow> 'st paxos_run" where
  "with_inst i r f = (if in_range i then f (pr_instanceSpace r i) else Inl r)"

definition own_default :: "'st PaxosReplica \<Rightarrow> int" where
  "own_default r = pr_defaultBallot r ! nat (pr_Id r)"

definition WriteQuorum :: "'st PaxosReplica \<Rightarrow> int" where
  "WriteQuorum r = WriteQuorumSize (pr_F r)"

definition ReadQuorum :: "'st PaxosReplica \<Rightarrow> int" where
  "ReadQuorum r = ReadQuorumSize (pr_N r) (pr_F r)"

section \<open>Stable storage\<close>

definition recordInstanceMetadata :: "Instance \<Rightarrow> 'st PaxosReplica \<Rightarrow> 'st PaxosReplica" where
  "recordInstanceMetadata inst r =
     (if \<not> pr_Durable r then r
      else r\<lparr>pr_StableStore := pr_StableStore r @ put_le 4 (in_bal inst) @ put_le 1 (status_num (in_status inst))\<rparr>)"

definition recordCommands :: "command list option \<Rightarrow> 'st PaxosReplica \<Rightarrow> 'st PaxosReplica" where
  "recordCommands cmds r =
     (if \<not> pr_Durable r then r
      else case cmds of None \<Rightarrow> r
      | Some cs \<Rightarrow> r\<lparr>pr_StableStore := pr_StableStore r @ concat (map Marshal_Command cs)\<rparr>)"

section \<open>Sending\<close>

definition SendMsg :: "int \<Rightarrow> paxos_msg \<Rightarrow> 'st PaxosReplica \<Rightarrow> 'st paxos_run" where
  "SendMsg peerId m r =
     (if 0 \<le> peerId \<and> peerId < pr_N r then
        (if peerId = pr_Id r then Inr r else Inr (r\<lparr>pr_sent := pr_sent r @ [(peerId, m)]\<rparr>))
      else Inl r)"

definition ReplyProposeTS :: "GPropose \<Rightarrow> ProposeReplyTS \<Rightarrow> 'st PaxosReplica \<Rightarrow> 'st PaxosReplica" where
  "ReplyProposeTS p res r = r\<lparr>pr_replied := pr_replied r @ [(p, res)]\<rparr>"

text \<open>The loop of the broadcasts: the first \<open>N - 1\<close> peers of the preferred order that are alive.\<close>

definition broadcast :: "paxos_msg \<Rightarrow> 'st PaxosReplica \<Rightarrow> 'st PaxosReplica" where
  "broadcast m r = r\<lparr>pr_sent := pr_sent r @ map (\<lambda>q. (q, m))
     (filter (\<lambda>q. q \<noteq> pr_Id r \<and> pr_Alive r ! nat q) (take (nat (pr_N r - 1)) (pr_PreferredPeerOrder r)))\<rparr>"

text \<open>The broadcasts recover from a panic, so that nothing is sent for a missing instance or bookkeeping.\<close>

definition bcastPrepare :: "int \<Rightarrow> 'st PaxosReplica \<Rightarrow> 'st PaxosReplica" where
  "bcastPrepare i r =
     (case pr_instanceSpace r i of
        Some inst \<Rightarrow>
          (case in_lb inst of
             Some lb \<Rightarrow> broadcast (PrepareMsg \<lparr>Prepare_LeaderId = pr_Id r, Prepare_Instance = i,
                                          Prepare_Ballot = lb_lastTriedBallot lb\<rparr>) r
           | None \<Rightarrow> r)
      | None \<Rightarrow> r)"

definition wire :: "command list option \<Rightarrow> command list" where
  "wire cmds = (case cmds of None \<Rightarrow> [] | Some cs \<Rightarrow> cs)"

definition bcastAccept :: "int \<Rightarrow> 'st PaxosReplica \<Rightarrow> 'st PaxosReplica" where
  "bcastAccept i r =
     (case pr_instanceSpace r i of
        Some inst \<Rightarrow>
          (case in_lb inst of
             Some lb \<Rightarrow> broadcast (AcceptMsg \<lparr>Accept_LeaderId = pr_Id r, Accept_Instance = i,
                                        Accept_Ballot = lb_lastTriedBallot lb, Accept_Command = wire (lb_cmds lb)\<rparr>) r
           | None \<Rightarrow> r)
      | None \<Rightarrow> r)"

definition bcastCommit :: "int \<Rightarrow> int \<Rightarrow> command list option \<Rightarrow> 'st PaxosReplica \<Rightarrow> 'st PaxosReplica" where
  "bcastCommit i ballot command r =
     broadcast (CommitShortMsg \<lparr>CommitShort_LeaderId = pr_Id r, CommitShort_Instance = i,
       CommitShort_Count = wrap32 (int (length (wire command))), CommitShort_Ballot = ballot\<rparr>) r"

section \<open>Ballots\<close>

text \<open>The loop of \<open>makeBallot\<close>; \<open>None\<close> if it does not end, since \<open>n\<close> wraps around.\<close>

partial_function (option) ballot_loop :: "int \<Rightarrow> int \<Rightarrow> int \<Rightarrow> int \<Rightarrow> int option" where
  "ballot_loop N d m n = (if n < d \<or> n < m then ballot_loop N d m (wrap32 (n + wrap32 N)) else Some n)"

definition next_ballot :: "'st PaxosReplica \<Rightarrow> int option" where
  "next_ballot r =
     (if pr_IsLeader r then ballot_loop (pr_N r) (own_default r) (pr_maxRecvBallot r) (pr_Id r)
      else Some (pr_Id r))"

definition makeBallot :: "int \<Rightarrow> 'st PaxosReplica \<Rightarrow> 'st paxos_run" where
  "makeBallot i r = with_inst i r (\<lambda>x.
     case x of None \<Rightarrow> Inl r
     | Some inst \<Rightarrow>
        (case next_ballot r of None \<Rightarrow> Inl r
         | Some n \<Rightarrow>
            (case in_lb inst of None \<Rightarrow> Inl r
             | Some lb \<Rightarrow> Inr (put_inst i (inst\<lparr>in_lb := Some (lb\<lparr>lb_lastTriedBallot := n\<rparr>)\<rparr>) r))))"

text \<open>A new ballot, made for instance \<open>k\<close>, and the prepares of instance \<open>i\<close>.\<close>

definition retry :: "int \<Rightarrow> int \<Rightarrow> 'st PaxosReplica \<Rightarrow> 'st paxos_run" where
  "retry k i r = (case makeBallot k r of Inl r \<Rightarrow> Inl r | Inr r \<Rightarrow> Inr (bcastPrepare i r))"

section \<open>Handlers\<close>

definition new_inst :: "'st PaxosReplica \<Rightarrow> LeaderBookkeeping option \<Rightarrow> Instance" where
  "new_inst r lb = \<lparr>in_cmds = None, in_bal = own_default r, in_vbal = own_default r,
     in_status = PREPARING, in_lb = lb\<rparr>"

definition handlePropose :: "GPropose \<Rightarrow> 'st PaxosReplica \<Rightarrow> 'st paxos_run" where
  "handlePropose propose r =
     (if \<not> pr_IsLeader r then
        Inr (ReplyProposeTS propose \<lparr>ProposeReplyTS_OK = 0, ProposeReplyTS_CommandId = -1,
               ProposeReplyTS_Value = NIL, ProposeReplyTS_Timestamp = 0\<rparr> r)
      else
        let proposals = propose # pr_ProposeChan r;
            cmds = map Propose_Command proposals;
            r = r\<lparr>pr_ProposeChan := []\<rparr>;
            crt = wrap32 (pr_crtInstance r + 1);
            r = r\<lparr>pr_crtInstance := crt\<rparr>
        in with_inst crt r (\<lambda>_.
          let lb = \<lparr>lb_clientProposals = Some proposals, lb_prepareOKs = 0, lb_acceptOKs = 0, lb_nacks = 0,
                    lb_ballot = pr_Id r, lb_cmds = None, lb_lastTriedBallot = -1\<rparr>;
              r = put_inst crt (new_inst r (Some lb)) r
          in case next_ballot r of
               None \<Rightarrow> Inl r
             | Some n \<Rightarrow>
                let lb = lb\<lparr>lb_lastTriedBallot := n\<rparr>;
                    inst = (new_inst r (Some lb));
                    r = (put_inst crt inst r)\<lparr>pr_defaultBallot := (pr_defaultBallot r)[nat (pr_Id r) := n]\<rparr>
                in if n \<noteq> pr_smallestDefaultBallot r then Inr (bcastPrepare crt r)
                   else Inr (bcastAccept crt (put_inst crt
                     (inst\<lparr>in_cmds := Some cmds, in_lb := Some (lb\<lparr>lb_cmds := Some cmds\<rparr>),
                           in_bal := n, in_vbal := n, in_status := ACCEPTED\<rparr>) r))))"

definition note_ballot :: "int \<Rightarrow> 'st PaxosReplica \<Rightarrow> 'st PaxosReplica" where
  "note_ballot b r = (if b > pr_maxRecvBallot r then r\<lparr>pr_maxRecvBallot := b\<rparr> else r)"

definition note_instance :: "int \<Rightarrow> 'st PaxosReplica \<Rightarrow> 'st PaxosReplica" where
  "note_instance i r = (if i > pr_crtInstance r then r\<lparr>pr_crtInstance := i\<rparr> else r)"

definition handlePrepare :: "Prepare \<Rightarrow> 'st PaxosReplica \<Rightarrow> 'st paxos_run" where
  "handlePrepare p r =
     (let i = Prepare_Instance p; r = note_ballot (Prepare_Ballot p) r
      in with_inst i r (\<lambda>x.
        let (inst, r) = (case x of Some inst \<Rightarrow> (inst, r)
               | None \<Rightarrow> let r = note_instance i r; inst = new_inst r None in (inst, put_inst i inst r))
        in if in_status inst = COMMITTED then
             SendMsg (Prepare_LeaderId p) (CommitMsg \<lparr>Commit_LeaderId = Prepare_LeaderId p, Commit_Instance = i,
               Commit_Ballot = in_vbal inst, Commit_Command = wire (in_cmds inst)\<rparr>) r
           else
             let (inst, r) = (if in_bal inst < Prepare_Ballot p then
                    let inst = inst\<lparr>in_bal := Prepare_Ballot p, in_status := PREPARED\<rparr>;
                        r = put_inst i inst r
                    in (inst, if pr_crtInstance r = i
                              then r\<lparr>pr_defaultBallot := (pr_defaultBallot r)[nat (pr_Id r) := Prepare_Ballot p]\<rparr> else r)
                  else (inst, r))
             in SendMsg (Prepare_LeaderId p) (PrepareReplyMsg \<lparr>PrepareReply_Instance = i,
                  PrepareReply_Ballot = in_bal inst, PrepareReply_VBallot = in_vbal inst,
                  PrepareReply_DefaultBallot = own_default r, PrepareReply_AcceptorId = pr_Id r,
                  PrepareReply_Command = wire (in_cmds inst)\<rparr>) r))"

definition handleAccept :: "Accept \<Rightarrow> 'st PaxosReplica \<Rightarrow> 'st paxos_run" where
  "handleAccept a r =
     (let i = Accept_Instance a
      in with_inst i r (\<lambda>x.
        let r = note_ballot (Accept_Ballot a) r;
            cmds = Some (Accept_Command a);
            (inst, r) =
              (case x of
                 None \<Rightarrow>
                   let r = note_instance i r;
                       inst = \<lparr>in_cmds = cmds, in_bal = Accept_Ballot a, in_vbal = Accept_Ballot a,
                               in_status = ACCEPTED, in_lb = None\<rparr>
                   in (inst, recordCommands cmds (recordInstanceMetadata inst (put_inst i inst r)))
               | Some inst \<Rightarrow>
                   if Accept_Ballot a < in_bal inst then (inst, r)
                   else if in_status inst = COMMITTED then (inst, r)
                   else
                     let inst = inst\<lparr>in_cmds := cmds, in_bal := Accept_Ballot a, in_vbal := Accept_Ballot a,
                                     in_status := ACCEPTED\<rparr>
                     in (inst, recordCommands cmds (recordInstanceMetadata inst (put_inst i inst r))))
        in SendMsg (Accept_LeaderId a)
             (AcceptReplyMsg \<lparr>AcceptReply_Instance = i, AcceptReply_Ballot = in_bal inst\<rparr>) r))"

definition handleCommit :: "Commit \<Rightarrow> 'st PaxosReplica \<Rightarrow> 'st paxos_run" where
  "handleCommit c r =
     (let i = Commit_Instance c
      in with_inst i r (\<lambda>x.
        let (inst, r) = (case x of Some inst \<Rightarrow> (inst, r)
               | None \<Rightarrow> let r = note_instance i r; inst = new_inst r None in (inst, put_inst i inst r))
        in if in_status inst = COMMITTED then Inr r
           else if Commit_Ballot c < in_bal inst then Inr r
           else
             let (inst, r) = (case in_lb inst of
                    Some lb \<Rightarrow>
                      (case lb_clientProposals lb of
                         Some ps \<Rightarrow> (inst\<lparr>in_lb := Some (lb\<lparr>lb_clientProposals := None\<rparr>)\<rparr>,
                                     r\<lparr>pr_ProposeChan := pr_ProposeChan r @ ps\<rparr>)
                       | None \<Rightarrow> (inst, r))
                  | None \<Rightarrow> (inst, r));
                 inst = inst\<lparr>in_cmds := Some (Commit_Command c), in_bal := Commit_Ballot c,
                             in_vbal := Commit_Ballot c, in_status := COMMITTED\<rparr>
             in Inr (recordCommands (Some (Commit_Command c)) (recordInstanceMetadata inst (put_inst i inst r)))))"

definition handleCommitShort :: "CommitShort \<Rightarrow> 'st PaxosReplica \<Rightarrow> 'st paxos_run" where
  "handleCommitShort c r =
     (let i = CommitShort_Instance c
      in with_inst i r (\<lambda>x.
        case x of None \<Rightarrow> Inr r
        | Some inst \<Rightarrow>
            if in_status inst = COMMITTED then Inr r
            else if CommitShort_Ballot c < in_bal inst then Inr r
            else let inst = inst\<lparr>in_status := COMMITTED, in_bal := CommitShort_Ballot c\<rparr>
                 in Inr (recordCommands (in_cmds inst) (recordInstanceMetadata inst (put_inst i inst r)))))"

text \<open>The number of default ballots that are known and the smallest of them.\<close>

fun known_defaults :: "int list \<Rightarrow> int \<times> int" where
  "known_defaults [] = (0, 2 ^ 31 - 1)"
| "known_defaults (e # es) =
     (let (count, m) = known_defaults es in if e \<noteq> -1 then (count + 1, min e m) else (count, m))"

text \<open>What \<open>handlePrepareReply\<close> does on each reply from the quorum on.\<close>

definition note_defaults :: "'st PaxosReplica \<Rightarrow> 'st PaxosReplica" where
  "note_defaults r =
     (let (count, m) = known_defaults (pr_defaultBallot r)
      in if count \<ge> ReadQuorum r - 1 \<and> m > pr_smallestDefaultBallot r
         then r\<lparr>pr_smallestDefaultBallot := m\<rparr> else r)"

definition prepare_quorum :: "int \<Rightarrow> Instance \<Rightarrow> LeaderBookkeeping \<Rightarrow> 'st PaxosReplica \<Rightarrow> 'st PaxosReplica" where
  "prepare_quorum i inst lb r =
     (let cmds = (case lb_clientProposals lb of Some ps \<Rightarrow> map Propose_Command ps | None \<Rightarrow> NOOP);
          inst = inst\<lparr>in_lb := Some (lb\<lparr>lb_cmds := Some cmds\<rparr>), in_cmds := Some cmds,
                      in_bal := lb_lastTriedBallot lb, in_status := ACCEPTED\<rparr>;
          r = note_defaults (put_inst i inst r);
          r = bcastAccept i (recordInstanceMetadata inst r)
      in r\<lparr>pr_totalSendNum := pr_totalSendNum r + int (length cmds)\<rparr>)"

definition handlePrepareReply :: "PrepareReply \<Rightarrow> 'st PaxosReplica \<Rightarrow> 'st paxos_run" where
  "handlePrepareReply p r =
     (let i = PrepareReply_Instance p
      in with_inst i r (\<lambda>x.
        case x of None \<Rightarrow> Inl r
        | Some inst \<Rightarrow>
          let r = note_ballot (PrepareReply_Ballot p) r
          in case in_lb inst of None \<Rightarrow> Inl r
          | Some lb \<Rightarrow>
            if PrepareReply_Ballot p < lb_lastTriedBallot lb then Inr r
            else if PrepareReply_Ballot p > lb_lastTriedBallot lb then
              let lb = lb\<lparr>lb_nacks := lb_nacks lb + 1\<rparr>;
                  r = put_inst i (inst\<lparr>in_lb := Some lb\<rparr>) r
              in if lb_nacks lb + 1 > pr_N r div 2 \<and> pr_IsLeader r
                 then retry i i r
                 else Inr r
            else
              let lb = (if PrepareReply_VBallot p > lb_ballot lb
                        then lb\<lparr>lb_ballot := PrepareReply_VBallot p, lb_cmds := Some (PrepareReply_Command p)\<rparr>
                        else lb);
                  lb = lb\<lparr>lb_prepareOKs := lb_prepareOKs lb + 1\<rparr>;
                  r = put_inst i (inst\<lparr>in_lb := Some lb\<rparr>) r;
                  q = PrepareReply_AcceptorId p
              in if q < 0 \<or> int (length (pr_defaultBallot r)) \<le> q then Inl r
              else
                let r = (if pr_defaultBallot r ! nat q < PrepareReply_DefaultBallot p
                         then r\<lparr>pr_defaultBallot := (pr_defaultBallot r)[nat q := PrepareReply_DefaultBallot p]\<rparr> else r);
                    r = (if lb_prepareOKs lb < ReadQuorum r \<and> PrepareReply_Command p \<noteq> []
                         then r\<lparr>pr_totalRecNum := pr_totalRecNum r + int (length (PrepareReply_Command p))\<rparr> else r)
                in if lb_prepareOKs lb + 1 \<ge> ReadQuorum r then Inr (prepare_quorum i inst lb r) else Inr r))"

text \<open>The replies of \<open>handleAcceptReply\<close>, one for each command; a command without a proposal panics.\<close>

fun reply_accepted :: "command list \<Rightarrow> GPropose list \<Rightarrow> 'st PaxosReplica \<Rightarrow> 'st paxos_run" where
  "reply_accepted [] ps r = Inr r"
| "reply_accepted (c # cs) [] r = Inl r"
| "reply_accepted (c # cs) (p # ps) r =
     reply_accepted cs ps (ReplyProposeTS p \<lparr>ProposeReplyTS_OK = 1, ProposeReplyTS_CommandId = Propose_CommandId p,
       ProposeReplyTS_Value = NIL, ProposeReplyTS_Timestamp = Propose_Timestamp p\<rparr> r)"

text \<open>What \<open>handleAcceptReply\<close> does when enough replicas have accepted.\<close>

definition accept_quorum :: "int \<Rightarrow> Instance \<Rightarrow> LeaderBookkeeping \<Rightarrow> 'st PaxosReplica \<Rightarrow> 'st paxos_run" where
  "accept_quorum i inst lb r =
     (let inst = inst\<lparr>in_status := COMMITTED\<rparr>;
          r = bcastCommit i (in_bal inst) (in_cmds inst) (recordInstanceMetadata inst (put_inst i inst r))
      in case lb_clientProposals lb of
           Some ps \<Rightarrow> if \<not> pr_Dreply r then reply_accepted (wire (in_cmds inst)) ps r else Inr r
         | None \<Rightarrow> Inr r)"

text \<open>
  \<open>handleAcceptReply\<close>.  On refusals the code calls \<open>makeBallot\<close> with the ballot of the reply where it means the
  instance.
\<close>

definition handleAcceptReply :: "AcceptReply \<Rightarrow> 'st PaxosReplica \<Rightarrow> 'st paxos_run" where
  "handleAcceptReply a r =
     (let i = AcceptReply_Instance a
      in with_inst i r (\<lambda>x.
        case x of None \<Rightarrow> Inl r
        | Some inst \<Rightarrow>
          let r = note_ballot (AcceptReply_Ballot a) r
          in if in_status inst = COMMITTED then Inr r
          else case in_lb inst of None \<Rightarrow> Inl r
          | Some lb \<Rightarrow>
            if AcceptReply_Ballot a < lb_lastTriedBallot lb then Inr r
            else if AcceptReply_Ballot a > lb_lastTriedBallot lb then
              let lb = lb\<lparr>lb_nacks := lb_nacks lb + 1\<rparr>;
                  r = put_inst i (inst\<lparr>in_lb := Some lb\<rparr>) r
              in if lb_nacks lb + 1 \<ge> WriteQuorum r \<and> pr_IsLeader r
                 then retry (AcceptReply_Ballot a) i r
                 else Inr r
            else
              let lb = lb\<lparr>lb_acceptOKs := lb_acceptOKs lb + 1\<rparr>;
                  inst = inst\<lparr>in_lb := Some lb\<rparr>;
                  r = put_inst i inst r
              in if lb_acceptOKs lb + 1 \<ge> WriteQuorum r then accept_quorum i inst lb r else Inr r))"

text \<open>\<open>recover\<close>, for an instance that was not committed in time.\<close>

definition recover :: "int \<Rightarrow> 'st PaxosReplica \<Rightarrow> 'st paxos_run" where
  "recover i r = with_inst i r (\<lambda>x.
     let inst = (case x of Some inst \<Rightarrow> inst | None \<Rightarrow> new_inst r None);
         inst = (case in_lb inst of Some lb \<Rightarrow> inst
           | None \<Rightarrow> inst\<lparr>in_lb := Some \<lparr>lb_clientProposals = None, lb_prepareOKs = 0, lb_acceptOKs = 0, lb_nacks = 0,
               lb_ballot = -1, lb_cmds = None, lb_lastTriedBallot = -1\<rparr>\<rparr>)
     in retry i i (put_inst i inst r))"

section \<open>Execution\<close>

text \<open>The commands of a committed instance: with the proposals at hand each is executed and answered.\<close>

fun exec_reply :: "'st treemap \<Rightarrow> command list \<Rightarrow> GPropose list \<Rightarrow> 'st PaxosReplica \<Rightarrow> 'st paxos_run" where
  "exec_reply T [] ps r = Inr r"
| "exec_reply T (c # cs) ps r =
     (case Execute T c (pr_State r) of
        None \<Rightarrow> Inl r
      | Some (val, st) \<Rightarrow>
          let r = r\<lparr>pr_State := st\<rparr>
          in case ps of [] \<Rightarrow> Inl r
             | p # ps \<Rightarrow> exec_reply T cs ps (ReplyProposeTS p \<lparr>ProposeReplyTS_OK = 1,
                 ProposeReplyTS_CommandId = Propose_CommandId p, ProposeReplyTS_Value = val,
                 ProposeReplyTS_Timestamp = Propose_Timestamp p\<rparr> r))"

fun exec_puts :: "'st treemap \<Rightarrow> command list \<Rightarrow> 'st PaxosReplica \<Rightarrow> 'st paxos_run" where
  "exec_puts T [] r = Inr r"
| "exec_puts T (c # cs) r =
     (if Op c = PUT then
        (case Execute T c (pr_State r) of None \<Rightarrow> Inl r | Some (val, st) \<Rightarrow> exec_puts T cs (r\<lparr>pr_State := st\<rparr>))
      else exec_puts T cs r)"

definition exec_instance :: "'st treemap \<Rightarrow> Instance \<Rightarrow> command list \<Rightarrow> 'st PaxosReplica \<Rightarrow> 'st paxos_run" where
  "exec_instance T inst cmds r =
     (case in_lb inst of
        Some lb \<Rightarrow>
          (case lb_clientProposals lb of
             Some ps \<Rightarrow> if pr_Dreply r then exec_reply T cmds ps r else exec_puts T cmds r
           | None \<Rightarrow> exec_puts T cmds r)
      | None \<Rightarrow> exec_puts T cmds r)"

definition SLEEP_TIME_NS :: int where "SLEEP_TIME_NS = 10 ^ 6"

definition COMMIT_GRACE_PERIOD :: int where "COMMIT_GRACE_PERIOD = 3 * 10 ^ 9"

text \<open>What the executor does at the first instance it cannot execute.\<close>

definition exec_blocked :: "int \<Rightarrow> 'st PaxosReplica \<Rightarrow> 'st PaxosReplica" where
  "exec_blocked i r =
     (if i = pr_problemInstance r then
        let r = r\<lparr>pr_timeout := pr_timeout r + SLEEP_TIME_NS\<rparr>
        in if pr_timeout r \<ge> COMMIT_GRACE_PERIOD then
             r\<lparr>pr_instancesToRecover := pr_instancesToRecover r @ [pr_problemInstance r..pr_crtInstance r],
               pr_problemInstance := 0, pr_timeout := 0\<rparr>
           else r
      else r\<lparr>pr_problemInstance := i, pr_timeout := 0\<rparr>)"

text \<open>One pass of \<open>executeCommands\<close> over the instances; \<open>k\<close> bounds the instances left, see \<open>executeCommands\<close>.\<close>

fun exec_pass :: "'st treemap \<Rightarrow> nat \<Rightarrow> int \<Rightarrow> 'st PaxosReplica \<Rightarrow> 'st paxos_run" where
  "exec_pass T 0 i r = Inr r"
| "exec_pass T (Suc k) i r = with_inst i r (\<lambda>x.
     case x of
       Some inst \<Rightarrow>
         (case in_cmds inst of
            Some cmds \<Rightarrow>
              if in_status inst = COMMITTED then
                (case exec_instance T inst cmds r of
                   Inl r \<Rightarrow> Inl r
                 | Inr r \<Rightarrow> exec_pass T k (i + 1) (r\<lparr>pr_executedUpTo := pr_executedUpTo r + 1\<rparr>))
              else Inr (exec_blocked i r)
          | None \<Rightarrow> Inr (exec_blocked i r))
     | None \<Rightarrow> Inr (exec_blocked i r))"

definition executeCommands :: "'st treemap \<Rightarrow> 'st PaxosReplica \<Rightarrow> 'st paxos_run" where
  "executeCommands T r =
     exec_pass T (nat (pr_crtInstance r - pr_executedUpTo r)) (pr_executedUpTo r + 1) r"

section \<open>The loop\<close>

definition handle_msg :: "paxos_msg \<Rightarrow> 'st PaxosReplica \<Rightarrow> 'st paxos_run" where
  "handle_msg m r = (case m of
       PrepareMsg p \<Rightarrow> handlePrepare p r
     | AcceptMsg a \<Rightarrow> handleAccept a r
     | CommitMsg c \<Rightarrow> handleCommit c r
     | CommitShortMsg c \<Rightarrow> handleCommitShort c r
     | PrepareReplyMsg p \<Rightarrow> handlePrepareReply p r
     | AcceptReplyMsg a \<Rightarrow> handleAcceptReply a r)"


section \<open>Ballots are unique\<close>

lemma ballot_loop_Some:
  assumes "0 < N" "N < 2 ^ 31" "0 \<le> n" "n < 2 ^ 31" "max d m + N < 2 ^ 31"
  shows "\<exists>b. ballot_loop N d m n = Some b \<and> d \<le> b \<and> m \<le> b \<and> n \<le> b \<and> b mod N = n mod N \<and>
    (b = n \<or> b < max d m + N)"
  using assms(3,4)
proof (induction "nat (max d m - n)" arbitrary: n rule: less_induct)
  case less
  show ?case
  proof (cases "n < d \<or> n < m")
    case False
    then show ?thesis by (subst ballot_loop.simps) auto
  next
    case True
    have w: "wrap32 (n + wrap32 N) = n + N"
      using True assms(1,2,5) less.prems by (auto simp: i32_def)
    have "nat (max d m - (n + N)) < nat (max d m - n)" using True assms(1) by linarith
    moreover have "0 \<le> n + N" "n + N < 2 ^ 31" using True assms(1,5) less.prems by linarith+
    ultimately obtain b where b: "ballot_loop N d m (n + N) = Some b" "d \<le> b" "m \<le> b" "n + N \<le> b"
        "b mod N = (n + N) mod N" "b = n + N \<or> b < max d m + N"
      using less.hyps by blast
    have "ballot_loop N d m n = Some b" using True b(1) w by (subst ballot_loop.simps) simp
    then show ?thesis using b True assms(1) by (intro exI [of _ b]) auto
  qed
qed

text \<open>
  Whatever ballots it has received, as long as they leave room below the limit of 32 bits, the ballot a
  replica makes is one of its own, so that two replicas never make the same, and a leader's is at least
  every ballot it has received and its own default, and less than \<open>N\<close> above them.
\<close>

theorem makeBallot_unique:
  assumes "0 \<le> pr_Id r" "pr_Id r < pr_N r" "max (own_default r) (pr_maxRecvBallot r) + pr_N r < 2 ^ 31"
    and "0 \<le> pr_Id r'" "pr_Id r' < pr_N r'" "max (own_default r') (pr_maxRecvBallot r') + pr_N r' < 2 ^ 31"
    and "pr_N r < 2 ^ 31" "pr_N r' = pr_N r"
  shows "\<exists>b b'. next_ballot r = Some b \<and> next_ballot r' = Some b' \<and> (pr_Id r \<noteq> pr_Id r' \<longrightarrow> b \<noteq> b') \<and>
    (pr_IsLeader r \<longrightarrow> own_default r \<le> b \<and> pr_maxRecvBallot r \<le> b \<and>
       b < max (max (own_default r) (pr_maxRecvBallot r)) 0 + pr_N r)"
proof -
  have ex: "\<exists>b. next_ballot r = Some b \<and> b mod pr_N r = pr_Id r \<and>
      (pr_IsLeader r \<longrightarrow> own_default r \<le> b \<and> pr_maxRecvBallot r \<le> b \<and>
         b < max (max (own_default r) (pr_maxRecvBallot r)) 0 + pr_N r)"
    if hyps: "0 \<le> pr_Id r" "pr_Id r < pr_N r" "max (own_default r) (pr_maxRecvBallot r) + pr_N r < 2 ^ 31"
      "pr_N r < 2 ^ 31" for r :: "'c PaxosReplica"
  proof (cases "pr_IsLeader r")
    case False
    then show ?thesis using that by (simp add: next_ballot_def)
  next
    case True
    have "0 < pr_N r" "pr_Id r < 2 ^ 31" using that by linarith+
    then obtain b where "ballot_loop (pr_N r) (own_default r) (pr_maxRecvBallot r) (pr_Id r) = Some b"
        "own_default r \<le> b" "pr_maxRecvBallot r \<le> b" "b mod pr_N r = pr_Id r mod pr_N r"
        "b = pr_Id r \<or> b < max (own_default r) (pr_maxRecvBallot r) + pr_N r"
      using ballot_loop_Some [OF _ hyps(4,1) _ hyps(3)] by blast
    then show ?thesis using True that by (auto simp: next_ballot_def)
  qed
  have "pr_N r' < 2 ^ 31" using assms(7,8) by simp
  from ex [OF assms(1-3,7)] ex [OF assms(4-6) this] show ?thesis using assms(8) by metis
qed

theorem makeBallot_unique_witness:
  "\<exists>b b'. next_ballot (NewPaxosReplica 1 3 1 [] [] True () \<lparr>pr_maxRecvBallot := 5\<rparr>) = Some b \<and>
     next_ballot (NewPaxosReplica 2 3 1 [] [] True ()) = Some b' \<and> b \<noteq> b' \<and> 5 \<le> b \<and> b < 8"
  using makeBallot_unique [of "NewPaxosReplica 1 3 1 [] [] True () \<lparr>pr_maxRecvBallot := 5\<rparr>"
      "NewPaxosReplica 2 3 1 [] [] True ()"]
  by (auto simp: NewPaxosReplica_def own_default_def nat_numeral)

section \<open>Committed instances\<close>

definition committed :: "int \<Rightarrow> command list option \<Rightarrow> 'st PaxosReplica \<Rightarrow> bool" where
  "committed i cmds r \<longleftrightarrow> (\<exists>inst. pr_instanceSpace r i = Some inst \<and> in_status inst = COMMITTED \<and> in_cmds inst = cmds)"

definition of_run :: "'st paxos_run \<Rightarrow> 'st PaxosReplica" where
  "of_run x = (case x of Inl r \<Rightarrow> r | Inr r \<Rightarrow> r)"

lemma paxos_of_run_simps [simp]: "of_run (Inl r) = r" "of_run (Inr r) = r"
  by (simp_all add: of_run_def)

text \<open>The space of instances after the steps that do not touch it.\<close>

lemma space_simps [simp]:
  "pr_instanceSpace (note_ballot b r) = pr_instanceSpace r"
  "pr_instanceSpace (note_instance i r) = pr_instanceSpace r"
  "pr_instanceSpace (recordInstanceMetadata inst r) = pr_instanceSpace r"
  "pr_instanceSpace (recordCommands cmds r) = pr_instanceSpace r"
  "pr_instanceSpace (ReplyProposeTS p res r) = pr_instanceSpace r"
  "pr_instanceSpace (broadcast m r) = pr_instanceSpace r"
  "pr_instanceSpace (bcastPrepare i r) = pr_instanceSpace r"
  "pr_instanceSpace (bcastAccept i r) = pr_instanceSpace r"
  "pr_instanceSpace (note_defaults r) = pr_instanceSpace r"
  "pr_instanceSpace (bcastCommit i b cmds r) = pr_instanceSpace r"
  "pr_instanceSpace (of_run (SendMsg q m r)) = pr_instanceSpace r"
  "pr_instanceSpace (put_inst i inst r) = (pr_instanceSpace r)(i \<mapsto> inst)"
  by (simp_all add: note_ballot_def note_instance_def recordInstanceMetadata_def recordCommands_def
      ReplyProposeTS_def broadcast_def bcastPrepare_def bcastAccept_def bcastCommit_def SendMsg_def put_inst_def
      note_defaults_def split_beta Let_def split: option.splits)

lemma makeBallot_cases:
  obtains (stop) "makeBallot i r = Inl r"
    | (made) inst lb n where "pr_instanceSpace r i = Some inst" "in_lb inst = Some lb" "next_ballot r = Some n"
        "in_range i" "makeBallot i r = Inr (put_inst i (inst\<lparr>in_lb := Some (lb\<lparr>lb_lastTriedBallot := n\<rparr>)\<rparr>) r)"
  by (cases "in_range i"; cases "pr_instanceSpace r i"; cases "next_ballot r"; cases "in_lb (the (pr_instanceSpace r i))")
    (auto simp: makeBallot_def with_inst_def)

lemma committed_makeBallot: "committed i cmds r \<Longrightarrow> committed i cmds (of_run (makeBallot j r))"
  by (cases rule: makeBallot_cases [of j r]) (auto simp: committed_def)

lemma reply_accepted_space [simp]:
  "pr_instanceSpace (of_run (reply_accepted cs ps r)) = pr_instanceSpace r"
  by (induction cs ps r rule: reply_accepted.induct) auto

lemma committed_msg_stays:
  assumes "committed i cmds r" "\<And>p. m \<noteq> PrepareReplyMsg p"
  shows "committed i cmds (of_run (handle_msg m r))"
proof (cases m)
  case (PrepareMsg p)
  then show ?thesis using assms(1)
    by (auto simp: handle_msg_def handlePrepare_def with_inst_def Let_def committed_def split: option.splits)
next
  case (AcceptMsg a)
  then show ?thesis using assms(1)
    by (auto simp: handle_msg_def handleAccept_def with_inst_def Let_def committed_def split: option.splits)
next
  case (CommitMsg c)
  then show ?thesis using assms(1)
    by (auto simp: handle_msg_def handleCommit_def with_inst_def Let_def committed_def split: option.splits)
next
  case (CommitShortMsg c)
  then show ?thesis using assms(1)
    by (auto simp: handle_msg_def handleCommitShort_def with_inst_def Let_def committed_def split: option.splits)
next
  case (PrepareReplyMsg p)
  then show ?thesis using assms(2) by blast
next
  case (AcceptReplyMsg a)
  let ?j = "AcceptReply_Instance a" and ?r = "note_ballot (AcceptReply_Ballot a) r"
  have c: "committed i cmds ?r" using assms(1) by (simp add: committed_def)
  have "committed i cmds (of_run (handleAcceptReply a r))"
  proof (cases "?j = i")
    case True
    then have "of_run (handleAcceptReply a r) = r \<or> of_run (handleAcceptReply a r) = ?r"
      using assms(1) by (auto simp: committed_def handleAcceptReply_def with_inst_def Let_def)
    then show ?thesis using assms(1) c by auto
  next
    case False
    have up: "committed i cmds (put_inst ?j inst (note_ballot b r))" for inst b
      using False assms(1) by (simp add: committed_def)
    have nack: "committed i cmds (of_run (retry k l (put_inst ?j inst (note_ballot b r))))" for inst k l b
    proof -
      have "committed i cmds (of_run (makeBallot k (put_inst ?j inst (note_ballot b r))))"
        by (rule committed_makeBallot [OF up])
      then show ?thesis
        by (cases "makeBallot k (put_inst ?j inst (note_ballot b r))") (simp_all add: committed_def retry_def)
    qed
    have quorum: "committed i cmds (of_run (accept_quorum ?j inst lb (put_inst ?j inst' (note_ballot b r))))" for inst inst' lb b
      using False assms(1) by (simp add: committed_def accept_quorum_def Let_def split: option.split)
    show ?thesis
      by (simp add: handleAcceptReply_def with_inst_def Let_def c assms(1) up nack quorum split: option.split)
  qed
  then show ?thesis by (simp add: AcceptReplyMsg handle_msg_def)
qed

text \<open>
  C20: An instance a replica has committed keeps its status and its commands whatever message the replica
  handles, except replies to its own prepares.
\<close>

theorem committed_instances_stay:
  assumes "committed i cmds r" "\<And>p. m \<noteq> PrepareReplyMsg p"
  shows "committed i cmds (of_run (handle_msg m r))"
  using assms by (rule committed_msg_stays)

theorem committed_instances_stay_witness:
  "committed 0 (Some []) (of_run (handle_msg (CommitShortMsg zero_CommitShort)
     (put_inst 0 \<lparr>in_cmds = Some [], in_bal = 0, in_vbal = 0, in_status = COMMITTED, in_lb = None\<rparr>
        (NewPaxosReplica 1 3 1 [] [] False ()))))"
  by (rule committed_instances_stay) (simp_all add: committed_def)

text \<open>
  A reply to a prepare that comes late is the exception: it takes a committed instance back to \<open>ACCEPTED\<close> and
  sets its commands anew, to no operation if the proposals were given back to the clients' channel.
\<close>

theorem late_prepare_reply_reopens:
  assumes "in_range i" "pr_instanceSpace r i = Some inst" "in_status inst = COMMITTED" "in_lb inst = Some lb"
    "lb_clientProposals lb = None" "PrepareReply_Instance p = i" "PrepareReply_Ballot p = lb_lastTriedBallot lb"
    "0 \<le> PrepareReply_AcceptorId p" "PrepareReply_AcceptorId p < int (length (pr_defaultBallot r))"
    "lb_prepareOKs lb + 2 \<ge> ReadQuorum r"
  shows "\<exists>inst'. pr_instanceSpace (of_run (handlePrepareReply p r)) i = Some inst' \<and>
    in_status inst' = ACCEPTED \<and> in_cmds inst' = Some NOOP"
  using assms
  by (simp add: handlePrepareReply_def with_inst_def Let_def prepare_quorum_def ReadQuorum_def put_inst_def
      note_ballot_def)

end
