(* ===== verification/PaxosSystem.thy ===== *)
theory PaxosSystem
  imports Paxos
begin

text \<open>
  The system of Paxos replicas: the actions of \<open>run\<close>, of the executor and of the network; agreement while one
  replica leads; and runs in which the code does not agree.
\<close>

section \<open>Actions\<close>

text \<open>
  The channels of a replica are read in no fixed order, and every message is put into its channel by a goroutine
  of its own, so that messages are handled in any order; they can also be lost.  \<open>Deliver q p k\<close> hands the
  \<open>k\<close>-th message that \<open>q\<close> sent to its destination \<open>p\<close>.
\<close>

datatype paxos_action =
    Queue int GPropose \<comment> \<open>a client's proposal enters \<open>ProposeChan\<close>\<close>
  | TakeProposal int
  | Deliver int int nat
  | ExecuteCommands int
  | TakeRecovery int
  | Lead int \<comment> \<open>the master's call of \<open>BeTheLeader\<close>\<close>

type_synonym 'st paxos_system = "int \<Rightarrow> 'st paxos_run"

definition take_proposal :: "'st PaxosReplica \<Rightarrow> 'st paxos_run option" where
  "take_proposal r = (case pr_ProposeChan r of [] \<Rightarrow> None
     | p # ps \<Rightarrow> Some (handlePropose p (r\<lparr>pr_ProposeChan := ps\<rparr>)))"

definition take_recovery :: "'st PaxosReplica \<Rightarrow> 'st paxos_run option" where
  "take_recovery r = (case pr_instancesToRecover r of [] \<Rightarrow> None
     | i # is \<Rightarrow> Some (recover i (r\<lparr>pr_instancesToRecover := is\<rparr>)))"

definition message_of :: "'st paxos_system \<Rightarrow> int \<Rightarrow> int \<Rightarrow> nat \<Rightarrow> paxos_msg option" where
  "message_of S q p k =
     (let ms = pr_sent (of_run (S q))
      in if k < length ms \<and> fst (ms ! k) = p then Some (snd (ms ! k)) else None)"

fun replica_act :: "'st treemap \<Rightarrow> 'st paxos_system \<Rightarrow> paxos_action \<Rightarrow> int \<times> ('st PaxosReplica \<Rightarrow> 'st paxos_run option)" where
  "replica_act T S (Queue p pr) = (p, \<lambda>r. Some (Inr (r\<lparr>pr_ProposeChan := pr_ProposeChan r @ [pr]\<rparr>)))"
| "replica_act T S (TakeProposal p) = (p, take_proposal)"
| "replica_act T S (Deliver q p k) = (p, \<lambda>r. map_option (\<lambda>m. handle_msg m r) (message_of S q p k))"
| "replica_act T S (ExecuteCommands p) = (p, \<lambda>r. Some (executeCommands T r))"
| "replica_act T S (TakeRecovery p) = (p, take_recovery)"
| "replica_act T S (Lead p) = (p, \<lambda>r. Some (Inr (BeTheLeader r)))"

definition paxos_act :: "'st treemap \<Rightarrow> paxos_action \<Rightarrow> 'st paxos_system \<Rightarrow> 'st paxos_system option" where
  "paxos_act T a S =
     (let (p, f) = replica_act T S a
      in case S p of Inl r \<Rightarrow> None | Inr r \<Rightarrow> map_option (\<lambda>x. S(p := x)) (f r))"

fun paxos_acts :: "'st treemap \<Rightarrow> paxos_action list \<Rightarrow> 'st paxos_system \<Rightarrow> 'st paxos_system option" where
  "paxos_acts T [] S = Some S"
| "paxos_acts T (a # as) S = (case paxos_act T a S of None \<Rightarrow> None | Some S \<Rightarrow> paxos_acts T as S)"

text \<open>\<open>n\<close> replicas of which \<open>L\<close> is made the leader when they start.\<close>

definition NewPaxosSystem :: "int \<Rightarrow> int \<Rightarrow> int \<Rightarrow> 'st \<Rightarrow> 'st paxos_system" where
  "NewPaxosSystem n f L st p = Inr (NewPaxosReplica p n f (replicate (nat n) True)
     (map (\<lambda>i. (p + 1 + i) mod n) [0..n - 1]) (p = L) st)"

text \<open>
  Runs under a stable leader: no other replica is made the leader, no instance is recovered, and no \<open>Commit\<close>,
  the answer of a committed replica to a prepare, is handled.
\<close>

fun stable :: "'st paxos_system \<Rightarrow> paxos_action \<Rightarrow> bool" where
  "stable S (Deliver q p k) = (case message_of S q p k of Some (CommitMsg c) \<Rightarrow> False | _ \<Rightarrow> True)"
| "stable S (TakeRecovery p) = False"
| "stable S (Lead p) = False"
| "stable S a = True"

inductive stable_run :: "'st treemap \<Rightarrow> 'st paxos_system \<Rightarrow> 'st paxos_system \<Rightarrow> bool" for T S0 where
  start: "stable_run T S0 S0"
| act: "stable_run T S0 S \<Longrightarrow> stable S a \<Longrightarrow> paxos_act T a S = Some S' \<Longrightarrow> stable_run T S0 S'"

section \<open>Invariant\<close>

text \<open>
  \<open>B\<close> gives the batch of an instance, the commands of the proposals the leader made it for.  All that is
  ever accepted in an instance is its batch.
\<close>

type_synonym batches = "int \<Rightarrow> command list option"

definition inst_good :: "bool \<Rightarrow> batches \<Rightarrow> int \<Rightarrow> Instance \<Rightarrow> bool" where
  "inst_good leads B i inst \<longleftrightarrow>
     (if leads then \<exists>lb ps. in_lb inst = Some lb \<and> lb_clientProposals lb = Some ps \<and>
        B i = Some (map Propose_Command ps) \<and> (in_cmds inst = None \<or> in_cmds inst = B i)
      else in_lb inst = None \<and> (in_cmds inst = None \<or> in_cmds inst = B i))"

definition msg_good :: "int \<Rightarrow> batches \<Rightarrow> int \<Rightarrow> int \<times> paxos_msg \<Rightarrow> bool" where
  "msg_good L B p qm \<longleftrightarrow>
     (case snd qm of
        PrepareMsg x \<Rightarrow> p = L \<and> fst qm \<noteq> L \<and> Prepare_LeaderId x = L
      | AcceptMsg x \<Rightarrow> p = L \<and> fst qm \<noteq> L \<and> Accept_LeaderId x = L \<and> B (Accept_Instance x) = Some (Accept_Command x)
      | CommitShortMsg x \<Rightarrow> p = L \<and> fst qm \<noteq> L
      | PrepareReplyMsg x \<Rightarrow> fst qm = L
      | AcceptReplyMsg x \<Rightarrow> fst qm = L
      | CommitMsg x \<Rightarrow> True)"

definition good :: "int \<Rightarrow> batches \<Rightarrow> 'st PaxosReplica \<Rightarrow> bool" where
  "good L B r \<longleftrightarrow>
     (pr_IsLeader r \<longleftrightarrow> pr_Id r = L) \<and> (\<forall>qm \<in> set (pr_sent r). msg_good L B (pr_Id r) qm) \<and>
     (\<forall>i inst. pr_instanceSpace r i = Some inst \<longrightarrow> inst_good (pr_Id r = L) B i inst)"

lemma goodD:
  assumes "good L B r"
  shows "pr_IsLeader r \<longleftrightarrow> pr_Id r = L" "qm \<in> set (pr_sent r) \<Longrightarrow> msg_good L B (pr_Id r) qm"
    "pr_instanceSpace r i = Some inst \<Longrightarrow> inst_good (pr_Id r = L) B i inst"
  using assms unfolding good_def by blast+

text \<open>Steps that leave alone what the invariant speaks of.\<close>

lemma good_simps [simp]:
  "good L B (note_ballot b r) = good L B r"
  "good L B (recordInstanceMetadata inst r) = good L B r"
  "good L B (recordCommands cmds r) = good L B r"
  "good L B (note_defaults r) = good L B r"
  "good L B (ReplyProposeTS p res r) = good L B r"
  "good L B (r\<lparr>pr_defaultBallot := d\<rparr>) = good L B r"
  "good L B (r\<lparr>pr_ProposeChan := ch\<rparr>) = good L B r"
  "good L B (r\<lparr>pr_crtInstance := k\<rparr>) = good L B r"
  "good L B (r\<lparr>pr_instancesToRecover := is\<rparr>) = good L B r"
  "good L B (r\<lparr>pr_timeout := k\<rparr>) = good L B r"
  "good L B (r\<lparr>pr_problemInstance := k\<rparr>) = good L B r"
  "good L B (r\<lparr>pr_totalRecNum := k\<rparr>) = good L B r"
  "good L B (r\<lparr>pr_totalSendNum := k\<rparr>) = good L B r"
  "good L B (r\<lparr>pr_State := st\<rparr>) = good L B r"
  "good L B (r\<lparr>pr_executedUpTo := e\<rparr>) = good L B r"
  by (auto simp: good_def note_ballot_def recordInstanceMetadata_def recordCommands_def note_defaults_def
      ReplyProposeTS_def split_beta Let_def split: option.splits)

lemma Id_simps [simp]:
  "pr_Id (note_ballot b r) = pr_Id r" "pr_Id (note_instance i r) = pr_Id r"
  "pr_Id (recordInstanceMetadata inst r) = pr_Id r" "pr_Id (recordCommands cmds r) = pr_Id r"
  "pr_Id (note_defaults r) = pr_Id r" "pr_Id (ReplyProposeTS p res r) = pr_Id r"
  "pr_Id (put_inst i inst r) = pr_Id r" "pr_Id (broadcast m r) = pr_Id r"
  "pr_Id (bcastPrepare i r) = pr_Id r" "pr_Id (bcastAccept i r) = pr_Id r" "pr_Id (bcastCommit i b cmds r) = pr_Id r"
  by (auto simp: note_ballot_def note_instance_def recordInstanceMetadata_def recordCommands_def note_defaults_def
      ReplyProposeTS_def put_inst_def broadcast_def bcastPrepare_def bcastAccept_def bcastCommit_def split_beta Let_def
      split: option.splits)

lemma good_note_instance [simp]: "good L B r \<Longrightarrow> good L B (note_instance i r)"
  by (force simp: good_def note_instance_def)

lemma good_put_inst [simp]:
  "good L B r \<Longrightarrow> inst_good (pr_Id r = L) B i inst \<Longrightarrow> good L B (put_inst i inst r)"
  by (simp add: good_def put_inst_def)

lemma good_SendMsg [simp]:
  "good L B r \<Longrightarrow> msg_good L B (pr_Id r) (q, m) \<Longrightarrow> good L B (of_run (SendMsg q m r))"
  by (auto simp: good_def SendMsg_def)

lemma good_broadcast:
  "good L B r \<Longrightarrow> (\<And>q. q \<noteq> pr_Id r \<Longrightarrow> msg_good L B (pr_Id r) (q, m)) \<Longrightarrow> good L B (broadcast m r)"
  by (auto simp: good_def broadcast_def)

lemma good_bcastPrepare [simp]: "good L B r \<Longrightarrow> pr_Id r = L \<Longrightarrow> good L B (bcastPrepare i r)"
  by (auto simp: bcastPrepare_def msg_good_def intro!: good_broadcast split: option.split)

lemma good_bcastAccept [simp]:
  "good L B r \<Longrightarrow> pr_Id r = L \<Longrightarrow> pr_instanceSpace r i = Some inst \<Longrightarrow> in_lb inst = Some lb \<Longrightarrow>
   lb_cmds lb = Some cmds \<Longrightarrow> B i = Some cmds \<Longrightarrow> good L B (bcastAccept i r)"
  by (auto simp: bcastAccept_def msg_good_def wire_def intro!: good_broadcast)

lemma good_bcastCommit [simp]: "good L B r \<Longrightarrow> pr_Id r = L \<Longrightarrow> good L B (bcastCommit i b cmds r)"
  by (auto simp: bcastCommit_def msg_good_def intro!: good_broadcast)

lemma good_mono:
  assumes "good L B r" "B \<subseteq>\<^sub>m B'" "pr_Id r \<noteq> L"
  shows "good L B' r"
proof -
  have "inst_good False B' i inst" if "inst_good False B i inst" for i inst
    using that assms(2) by (auto simp: inst_good_def map_le_def dom_def)
  moreover have "msg_good L B' (pr_Id r) qm" if "msg_good L B (pr_Id r) qm" for qm
    using that assms(3) by (auto simp: msg_good_def split: paxos_msg.splits)
  ultimately show ?thesis using assms(1,3) unfolding good_def by simp
qed

lemma inst_good_leader [simp]:
  "inst_good True B i inst \<longleftrightarrow> (\<exists>lb ps. in_lb inst = Some lb \<and> lb_clientProposals lb = Some ps \<and>
     B i = Some (map Propose_Command ps) \<and> (in_cmds inst = None \<or> in_cmds inst = B i))"
  "inst_good False B i inst \<longleftrightarrow> in_lb inst = None \<and> (in_cmds inst = None \<or> in_cmds inst = B i)"
  by (simp_all add: inst_good_def)

subsection \<open>The leader\<close>

lemma good_retry:
  assumes "good L B r" "pr_Id r = L"
  shows "good L B (of_run (retry k i r))"
proof (cases rule: makeBallot_cases [of k r])
  case stop
  then show ?thesis using assms by (simp add: retry_def)
next
  case (made inst lb n)
  have "inst_good True B k inst" using goodD(3) [OF assms(1) made(1)] assms(2) by simp
  then show ?thesis using made assms by (auto simp: retry_def)
qed

lemma good_put_leader:
  assumes "good L B r" "pr_Id r = L" "pr_instanceSpace r i = Some inst" "in_lb inst = Some lb"
    "lb_clientProposals lb' = lb_clientProposals lb" "in_cmds inst' = in_cmds inst" "in_lb inst' = Some lb'"
  shows "good L B (put_inst i inst' r)"
  using goodD(3) [OF assms(1,3)] assms by auto

lemma good_prepare_quorum:
  assumes "good L B r" "pr_Id r = L" "lb_clientProposals lb = Some ps" "B i = Some (map Propose_Command ps)"
  shows "good L B (prepare_quorum i inst lb r)"
proof -
  let ?cmds = "map Propose_Command ps"
  let ?inst = "inst\<lparr>in_lb := Some (lb\<lparr>lb_cmds := Some ?cmds\<rparr>), in_cmds := Some ?cmds,
     in_bal := lb_lastTriedBallot lb, in_status := ACCEPTED\<rparr>"
  have "good L B (put_inst i ?inst r)" using assms by simp
  then have "good L B (bcastAccept i (recordInstanceMetadata ?inst (note_defaults (put_inst i ?inst r))))"
    using assms by simp
  then show ?thesis using assms(3) by (simp add: prepare_quorum_def Let_def)
qed

lemma good_handlePrepareReply:
  assumes g: "good L B r" "pr_Id r = L"
  shows "good L B (of_run (handlePrepareReply p r))"
proof (cases "in_range (PrepareReply_Instance p) \<and>
    (\<exists>inst lb. pr_instanceSpace r (PrepareReply_Instance p) = Some inst \<and> in_lb inst = Some lb)")
  case False
  then show ?thesis using g
    by (auto simp: handlePrepareReply_def with_inst_def Let_def split: option.split)
next
  case True
  let ?i = "PrepareReply_Instance p"
  obtain inst lb where i: "in_range ?i" "pr_instanceSpace r ?i = Some inst" "in_lb inst = Some lb"
    using True by blast
  have "inst_good True B ?i inst" using goodD(3) [OF g(1) i(2)] g(2) by simp
  then obtain ps where ps: "lb_clientProposals lb = Some ps" "B ?i = Some (map Propose_Command ps)"
    using i(3) by auto
  have put: "good L B (put_inst ?i (inst\<lparr>in_lb := Some lb'\<rparr>) (note_ballot b r))"
    if "lb_clientProposals lb' = lb_clientProposals lb" for lb' b
    using g i that by (intro good_put_leader [where inst = inst and lb = lb]) simp_all
  define lb1 where "lb1 = (if PrepareReply_VBallot p > lb_ballot lb
      then lb\<lparr>lb_ballot := PrepareReply_VBallot p, lb_cmds := Some (PrepareReply_Command p)\<rparr> else lb)"
  have lb1: "lb_clientProposals lb1 = Some ps" by (simp add: lb1_def ps)
  show ?thesis
    using g by (simp add: handlePrepareReply_def with_inst_def i Let_def put ps lb1 lb1_def [symmetric]
        good_retry good_prepare_quorum)
qed

lemma good_reply_accepted: "good L B r \<Longrightarrow> good L B (of_run (reply_accepted cs ps r))"
  by (induction cs ps r rule: reply_accepted.induct) auto

lemma good_accept_quorum:
  assumes "good L B r" "pr_Id r = L" "inst_good True B i inst"
  shows "good L B (of_run (accept_quorum i inst lb r))"
  using assms by (auto simp: accept_quorum_def Let_def good_reply_accepted split: option.split)

lemma good_handleAcceptReply:
  assumes g: "good L B r" "pr_Id r = L"
  shows "good L B (of_run (handleAcceptReply a r))"
proof (cases "in_range (AcceptReply_Instance a) \<and>
    (\<exists>inst lb. pr_instanceSpace r (AcceptReply_Instance a) = Some inst \<and> in_lb inst = Some lb)")
  case False
  then show ?thesis using g
    by (auto simp: handleAcceptReply_def with_inst_def Let_def split: option.split)
next
  case True
  let ?i = "AcceptReply_Instance a"
  obtain inst lb where i: "in_range ?i" "pr_instanceSpace r ?i = Some inst" "in_lb inst = Some lb"
    using True by blast
  have ig: "inst_good True B ?i inst" using goodD(3) [OF g(1) i(2)] g(2) by simp
  have put: "good L B (put_inst ?i (inst\<lparr>in_lb := Some lb'\<rparr>) (note_ballot b r))"
    if "lb_clientProposals lb' = lb_clientProposals lb" for lb' b
    using g i that by (intro good_put_leader [where inst = inst and lb = lb]) simp_all
  show ?thesis
    using g ig by (auto simp: handleAcceptReply_def with_inst_def i Let_def put
        intro!: good_retry good_accept_quorum)
qed

subsection \<open>The other replicas\<close>

lemma good_handlePrepare:
  assumes "good L B r" "pr_Id r \<noteq> L" "Prepare_LeaderId p = L"
  shows "good L B (of_run (handlePrepare p r))"
  using assms goodD(3) [OF assms(1), of "Prepare_Instance p"]
  by (auto simp: handlePrepare_def with_inst_def Let_def msg_good_def new_inst_def split: option.split)

lemma good_handleAccept:
  assumes "good L B r" "pr_Id r \<noteq> L" "Accept_LeaderId a = L" "B (Accept_Instance a) = Some (Accept_Command a)"
  shows "good L B (of_run (handleAccept a r))"
  using assms goodD(3) [OF assms(1), of "Accept_Instance a"]
  by (auto simp: handleAccept_def with_inst_def Let_def msg_good_def split: option.split)

lemma good_handleCommitShort:
  assumes "good L B r" "pr_Id r \<noteq> L"
  shows "good L B (of_run (handleCommitShort c r))"
  using assms goodD(3) [OF assms(1), of "CommitShort_Instance c"]
  by (auto simp: handleCommitShort_def with_inst_def Let_def split: option.split)


subsection \<open>Proposals\<close>

lemma good_handlePropose_other:
  "good L B r \<Longrightarrow> pr_Id r \<noteq> L \<Longrightarrow> good L B (of_run (handlePropose p r))"
  using goodD(1) [of L B r] by (simp add: handlePropose_def)

text \<open>The leader opens instances in order, so the next one has no batch yet.\<close>

definition opened :: "batches \<Rightarrow> 'st PaxosReplica \<Rightarrow> bool" where
  "opened B r \<longleftrightarrow> -1 \<le> pr_crtInstance r \<and> pr_crtInstance r < INSTANCES \<and>
     (\<forall>i. B i \<noteq> None \<longrightarrow> i \<le> pr_crtInstance r)"

lemma good_new_batch:
  assumes "good L B r" "pr_Id r = L" "B i = None"
  shows "good L (B(i \<mapsto> cmds)) r"
proof -
  have "inst_good True (B(i \<mapsto> cmds)) j inst" if "inst_good True B j inst" for j inst
    using that assms(3) by (cases "j = i") auto
  moreover have "msg_good L (B(i \<mapsto> cmds)) p qm" if "msg_good L B p qm" for p qm
    using that assms(3) by (auto simp: msg_good_def split: paxos_msg.splits)
  ultimately show ?thesis using assms(1,2) unfolding good_def by (simp del: fun_upd_apply)
qed

lemma good_handlePropose:
  assumes g: "good L B r" "pr_Id r = L" "opened B r"
  shows "\<exists>B'. B \<subseteq>\<^sub>m B' \<and> good L B' (of_run (handlePropose p r)) \<and>
    (\<forall>r'. handlePropose p r = Inr r' \<longrightarrow> opened B' r')"
proof -
  let ?crt = "pr_crtInstance r + 1" and ?ps = "p # pr_ProposeChan r"
  let ?cmds = "map Propose_Command ?ps"
  let ?r = "r\<lparr>pr_ProposeChan := [], pr_crtInstance := ?crt\<rparr>"
  have lead: "pr_IsLeader r" using goodD(1) [OF g(1)] g(2) by simp
  have w: "wrap32 ?crt = ?crt" using g(3) by (simp add: opened_def INSTANCES_def i32_def)
  show ?thesis
  proof (cases "in_range ?crt")
    case False
    then have "handlePropose p r = Inl ?r"
      by (simp add: handlePropose_def lead Let_def w with_inst_def)
    then show ?thesis using g by (intro exI [of _ B]) simp
  next
    case True
    let ?B = "B(?crt \<mapsto> ?cmds)"
    have new: "B ?crt = None" using g(3) unfolding opened_def by (metis add.commute less_le_not_le zless_add1_eq)
    have gB: "good L ?B ?r" using good_new_batch [OF g(1,2) new] by simp
    have op: "opened ?B r'" if "pr_crtInstance r' = ?crt" for r' :: "'a PaxosReplica"
      using g(3) True that by (auto simp: opened_def in_range_def)
    let ?lb = "\<lparr>lb_clientProposals = Some ?ps, lb_prepareOKs = 0, lb_acceptOKs = 0, lb_nacks = 0,
                    lb_ballot = pr_Id r, lb_cmds = None, lb_lastTriedBallot = -1\<rparr>"
    let ?r1 = "put_inst ?crt (new_inst ?r (Some ?lb)) ?r"
    have g1: "good L ?B ?r1" using gB g(2) by (simp add: new_inst_def)
    have le: "B \<subseteq>\<^sub>m ?B" using new by (auto simp: map_le_def dom_def)
    show ?thesis
    proof (cases "next_ballot ?r1")
      case None
      then have "handlePropose p r = Inl ?r1"
        using True by (simp add: handlePropose_def lead Let_def w with_inst_def)
      then show ?thesis using g1 le by auto
    next
      case (Some n)
      let ?lb1 = "?lb\<lparr>lb_lastTriedBallot := n\<rparr>"
      let ?inst = "new_inst ?r1 (Some ?lb1)"
      let ?r2 = "(put_inst ?crt ?inst ?r1)\<lparr>pr_defaultBallot := (pr_defaultBallot ?r1)[nat (pr_Id r) := n]\<rparr>"
      let ?r3 = "put_inst ?crt (?inst\<lparr>in_cmds := Some ?cmds, in_lb := Some (?lb1\<lparr>lb_cmds := Some ?cmds\<rparr>),
          in_bal := n, in_vbal := n, in_status := ACCEPTED\<rparr>) ?r2"
      have g2: "good L ?B ?r2" "good L ?B ?r3" using g1 g(2) by (simp_all add: new_inst_def)
      have h: "handlePropose p r = Inr (if n \<noteq> pr_smallestDefaultBallot ?r2 then bcastPrepare ?crt ?r2
          else bcastAccept ?crt ?r3)"
        using True Some by (simp add: handlePropose_def lead Let_def w with_inst_def)
      have "good L ?B (bcastPrepare ?crt ?r2)" using g2(1) g(2) by simp
      moreover have "good L ?B (bcastAccept ?crt ?r3)" using g2(2) g(2) by (simp add: new_inst_def)
      moreover have "pr_crtInstance (bcastPrepare ?crt ?r2) = ?crt" "pr_crtInstance (bcastAccept ?crt ?r3) = ?crt"
        by (simp_all add: bcastPrepare_def bcastAccept_def broadcast_def put_inst_def split: option.split)
      ultimately show ?thesis unfolding h using le op by (intro exI [of _ ?B]) auto
    qed
  qed
qed

section \<open>Execution\<close>

text \<open>Fields of the executor and the counter of instances, in the handlers.\<close>

definition core :: "'st PaxosReplica \<Rightarrow> int \<times> 'st" where
  "core r = (pr_executedUpTo r, pr_State r)"

lemma core_simps [simp]:
  "core (note_ballot b r) = core r" "core (note_instance i r) = core r"
  "core (recordInstanceMetadata inst r) = core r" "core (recordCommands cmds r) = core r"
  "core (note_defaults r) = core r" "core (ReplyProposeTS p res r) = core r"
  "core (put_inst i inst r) = core r" "core (broadcast m r) = core r"
  "core (bcastPrepare i r) = core r" "core (bcastAccept i r) = core r" "core (bcastCommit i b cmds r) = core r"
  "core (of_run (SendMsg q m r)) = core r"
  "core (r\<lparr>pr_defaultBallot := d\<rparr>) = core r" "core (r\<lparr>pr_ProposeChan := ch\<rparr>) = core r"
  "core (r\<lparr>pr_crtInstance := k\<rparr>) = core r" "core (r\<lparr>pr_totalRecNum := k\<rparr>) = core r"
  "core (r\<lparr>pr_totalSendNum := k\<rparr>) = core r"
  by (auto simp: core_def note_ballot_def note_instance_def recordInstanceMetadata_def recordCommands_def
      note_defaults_def ReplyProposeTS_def put_inst_def broadcast_def bcastPrepare_def bcastAccept_def
      bcastCommit_def SendMsg_def split_beta Let_def split: option.splits)

lemma crt_simps [simp]:
  "pr_crtInstance (note_ballot b r) = pr_crtInstance r"
  "pr_crtInstance (recordInstanceMetadata inst r) = pr_crtInstance r"
  "pr_crtInstance (note_defaults r) = pr_crtInstance r" "pr_crtInstance (ReplyProposeTS p res r) = pr_crtInstance r"
  "pr_crtInstance (put_inst i inst r) = pr_crtInstance r" "pr_crtInstance (broadcast m r) = pr_crtInstance r"
  "pr_crtInstance (bcastPrepare i r) = pr_crtInstance r" "pr_crtInstance (bcastAccept i r) = pr_crtInstance r"
  "pr_crtInstance (bcastCommit i b cmds r) = pr_crtInstance r"
  by (auto simp: note_ballot_def recordInstanceMetadata_def note_defaults_def ReplyProposeTS_def put_inst_def
      broadcast_def bcastPrepare_def bcastAccept_def bcastCommit_def split_beta Let_def split: option.splits)

lemma retry_fields [simp]:
  "core (of_run (retry k i r)) = core r" "pr_crtInstance (of_run (retry k i r)) = pr_crtInstance r"
  "pr_Id (of_run (retry k i r)) = pr_Id r"
  by (cases rule: makeBallot_cases [of k r]; simp add: retry_def)+

lemma reply_accepted_fields [simp]:
  "core (of_run (reply_accepted cs ps r)) = core r"
  "pr_crtInstance (of_run (reply_accepted cs ps r)) = pr_crtInstance r"
  "pr_Id (of_run (reply_accepted cs ps r)) = pr_Id r"
  by (induction cs ps r rule: reply_accepted.induct) auto

lemma quorum_fields [simp]:
  "core (prepare_quorum i inst lb r) = core r" "pr_crtInstance (prepare_quorum i inst lb r) = pr_crtInstance r"
  "pr_Id (prepare_quorum i inst lb r) = pr_Id r"
  "core (of_run (accept_quorum i inst lb r)) = core r"
  "pr_crtInstance (of_run (accept_quorum i inst lb r)) = pr_crtInstance r"
  "pr_Id (of_run (accept_quorum i inst lb r)) = pr_Id r"
  by (simp_all add: prepare_quorum_def accept_quorum_def Let_def split: option.split)

lemma SendMsg_Id [simp]: "pr_Id (of_run (SendMsg q m r)) = pr_Id r"
  by (simp add: SendMsg_def)

lemma leader_fields [simp]:
  "core (of_run (handlePrepareReply p r)) = core r"
  "pr_crtInstance (of_run (handlePrepareReply p r)) = pr_crtInstance r"
  "pr_Id (of_run (handlePrepareReply p r)) = pr_Id r"
  "core (of_run (handleAcceptReply a r)) = core r"
  "pr_crtInstance (of_run (handleAcceptReply a r)) = pr_crtInstance r"
  "pr_Id (of_run (handleAcceptReply a r)) = pr_Id r"
  by (simp_all add: handlePrepareReply_def handleAcceptReply_def with_inst_def Let_def split: option.split)

lemma other_fields [simp]:
  "core (of_run (handlePrepare p r)) = core r" "pr_Id (of_run (handlePrepare p r)) = pr_Id r"
  "core (of_run (handleAccept a r)) = core r" "pr_Id (of_run (handleAccept a r)) = pr_Id r"
  "core (of_run (handleCommitShort c r)) = core r" "pr_Id (of_run (handleCommitShort c r)) = pr_Id r"
  "core (of_run (handlePropose pr r)) = core r" "pr_Id (of_run (handlePropose pr r)) = pr_Id r"
  by (simp_all add: handlePrepare_def handleAccept_def handleCommitShort_def handlePropose_def with_inst_def Let_def
      split: option.split)


definition executed :: "'st treemap \<Rightarrow> 'st \<Rightarrow> batches \<Rightarrow> 'st PaxosReplica \<Rightarrow> bool" where
  "executed T st B r \<longleftrightarrow> -1 \<le> pr_executedUpTo r \<and>
     (\<forall>i. 0 \<le> i \<and> i \<le> pr_executedUpTo r \<longrightarrow> B i \<noteq> None) \<and>
     pr_State r = final T (concat (map (\<lambda>i. the (B i)) [0..pr_executedUpTo r])) st"

lemma executed_core: "core r' = core r \<Longrightarrow> executed T st B r' = executed T st B r"
  by (simp add: core_def executed_def)

lemma executed_mono:
  assumes "executed T st B r" "B \<subseteq>\<^sub>m B'"
  shows "executed T st B' r"
proof -
  have "B' i = B i" if "0 \<le> i" "i \<le> pr_executedUpTo r" for i
    using assms that unfolding executed_def map_le_def by (metis domIff)
  then have "map (\<lambda>i. the (B' i)) [0..pr_executedUpTo r] = map (\<lambda>i. the (B i)) [0..pr_executedUpTo r]"
    and "\<forall>i. 0 \<le> i \<and> i \<le> pr_executedUpTo r \<longrightarrow> B' i = B i" by simp_all
  then show ?thesis using assms(1) unfolding executed_def by metis
qed

lemma ReplyProposeTS_fields [simp]:
  "pr_State (ReplyProposeTS p res r) = pr_State r" "pr_executedUpTo (ReplyProposeTS p res r) = pr_executedUpTo r"
  by (simp_all add: ReplyProposeTS_def)

lemma exec_reply_state: "exec_reply T cs ps r = Inr r' \<Longrightarrow> pr_State r' = final T cs (pr_State r)"
proof (induction cs arbitrary: ps r)
  case Nil
  then show ?case by simp
next
  case (Cons c cs)
  then show ?case by (cases ps) (auto simp: Execute_eq Let_def split: if_splits)
qed

lemma exec_puts_state: "exec_puts T cs r = Inr r' \<Longrightarrow> pr_State r' = final T cs (pr_State r)"
  by (induction T cs r rule: exec_puts.induct) (auto simp: Execute_eq after_def split: if_splits)

lemma exec_reply_fields:
  "pr_executedUpTo (of_run (exec_reply T cs ps r)) = pr_executedUpTo r \<and>
   pr_crtInstance (of_run (exec_reply T cs ps r)) = pr_crtInstance r \<and> pr_Id (of_run (exec_reply T cs ps r)) = pr_Id r \<and>
   pr_instanceSpace (of_run (exec_reply T cs ps r)) = pr_instanceSpace r \<and>
   good L B (of_run (exec_reply T cs ps r)) = good L B r"
proof (induction cs arbitrary: ps r)
  case Nil
  then show ?case by simp
next
  case (Cons c cs)
  then show ?case by (cases ps) (simp_all add: Execute_eq Let_def)
qed

lemma exec_puts_fields:
  "pr_executedUpTo (of_run (exec_puts T cs r)) = pr_executedUpTo r \<and>
   pr_crtInstance (of_run (exec_puts T cs r)) = pr_crtInstance r \<and> pr_Id (of_run (exec_puts T cs r)) = pr_Id r \<and>
   pr_instanceSpace (of_run (exec_puts T cs r)) = pr_instanceSpace r \<and>
   good L B (of_run (exec_puts T cs r)) = good L B r"
  by (induction T cs r rule: exec_puts.induct) (auto split: option.splits)

lemma exec_instance_fields:
  "pr_executedUpTo (of_run (exec_instance T inst cs r)) = pr_executedUpTo r"
  "pr_crtInstance (of_run (exec_instance T inst cs r)) = pr_crtInstance r"
  "pr_Id (of_run (exec_instance T inst cs r)) = pr_Id r"
  "good L B (of_run (exec_instance T inst cs r)) = good L B r"
  "exec_instance T inst cs r = Inr r' \<Longrightarrow> pr_State r' = final T cs (pr_State r)"
  using exec_reply_fields [of T cs _ r L B] exec_puts_fields [of T cs r L B]
  by (auto simp: exec_instance_def exec_reply_state exec_puts_state split: option.splits if_splits)

lemma exec_blocked_fields [simp]:
  "core (exec_blocked i r) = core r" "pr_crtInstance (exec_blocked i r) = pr_crtInstance r"
  "pr_Id (exec_blocked i r) = pr_Id r" "good L B (exec_blocked i r) = good L B r"
  by (simp_all add: exec_blocked_def core_def Let_def)

lemma exec_pass_good:
  "good L B r \<Longrightarrow> good L B (of_run (exec_pass T k i r)) \<and> pr_Id (of_run (exec_pass T k i r)) = pr_Id r \<and>
     pr_crtInstance (of_run (exec_pass T k i r)) = pr_crtInstance r"
proof (induction k arbitrary: i r)
  case 0
  then show ?case by simp
next
  case (Suc k)
  have *: "good L B (of_run (exec_instance T inst cs r))" "pr_Id (of_run (exec_instance T inst cs r)) = pr_Id r"
    "pr_crtInstance (of_run (exec_instance T inst cs r)) = pr_crtInstance r" for inst cs
    using exec_instance_fields(2,3,4) Suc.prems by metis+
  have "good L B (of_run (case exec_instance T inst cs r of Inl r \<Rightarrow> Inl r
      | Inr r \<Rightarrow> exec_pass T k (i + 1) (r\<lparr>pr_executedUpTo := pr_executedUpTo r + 1\<rparr>))) \<and>
    pr_Id (of_run (case exec_instance T inst cs r of Inl r \<Rightarrow> Inl r
      | Inr r \<Rightarrow> exec_pass T k (i + 1) (r\<lparr>pr_executedUpTo := pr_executedUpTo r + 1\<rparr>))) = pr_Id r \<and>
    pr_crtInstance (of_run (case exec_instance T inst cs r of Inl r \<Rightarrow> Inl r
      | Inr r \<Rightarrow> exec_pass T k (i + 1) (r\<lparr>pr_executedUpTo := pr_executedUpTo r + 1\<rparr>))) = pr_crtInstance r" for inst cs
    using * [of inst cs] Suc.IH by (cases "exec_instance T inst cs r") simp_all
  then show ?case using Suc.prems by (simp add: with_inst_def split: option.split)
qed

lemma exec_pass_executed:
  "executed T st B r \<Longrightarrow> good L B r \<Longrightarrow> i = pr_executedUpTo r + 1 \<Longrightarrow> exec_pass T k i r = Inr r' \<Longrightarrow>
   executed T st B r'"
proof (induction k arbitrary: i r)
  case 0
  then show ?case by simp
next
  case (Suc k)
  show ?case
  proof (cases "in_range i \<and> (\<exists>inst cs. pr_instanceSpace r i = Some inst \<and> in_cmds inst = Some cs \<and> in_status inst = COMMITTED)")
    case False
    then have "r' = exec_blocked i r"
      using Suc.prems(4) by (auto simp: with_inst_def split: if_splits option.splits)
    then show ?thesis using Suc.prems(1) executed_core exec_blocked_fields(1) by metis
  next
    case True
    then obtain inst cs where i: "in_range i" "pr_instanceSpace r i = Some inst" "in_cmds inst = Some cs"
      "in_status inst = COMMITTED" by blast
    then obtain r1 where r1: "exec_instance T inst cs r = Inr r1"
        "exec_pass T k (i + 1) (r1\<lparr>pr_executedUpTo := pr_executedUpTo r1 + 1\<rparr>) = Inr r'"
      using Suc.prems(4) by (auto simp: with_inst_def split: sum.splits)
    let ?r = "r1\<lparr>pr_executedUpTo := pr_executedUpTo r1 + 1\<rparr>"
    note f = exec_instance_fields(1,4) [where T = T and inst = inst and cs = cs and r = r, unfolded r1(1) paxos_of_run_simps]
    have b: "B i = Some cs"
      using goodD(3) [OF Suc.prems(2) i(2)] i(3) by (cases "pr_Id r = L") auto
    have l: "-1 \<le> pr_executedUpTo r" using Suc.prems(1) by (simp add: executed_def)
    have up: "[0..i] = [0..pr_executedUpTo r] @ [i]"
      using l Suc.prems(3) by (simp add: upto_rec2)
    have fa: "final T (xs @ ys) s = final T ys (final T xs s)" for xs ys s
      by (induction xs arbitrary: s) auto
    have "executed T st B ?r"
      unfolding executed_def
    proof (intro conjI allI impI)
      show "B j \<noteq> None" if "0 \<le> j \<and> j \<le> pr_executedUpTo ?r" for j
        using that Suc.prems(1,3) b f(1) by (cases "j = i") (auto simp: executed_def)
      show "pr_State ?r = final T (concat (map (\<lambda>i. the (B i)) [0..pr_executedUpTo ?r])) st"
        using exec_instance_fields(5) [OF r1(1)] Suc.prems(1) b
        by (simp add: f(1) Suc.prems(3) [symmetric] up fa executed_def)
    qed (use l f(1) in simp)
    moreover have "good L B ?r" using f(2) Suc.prems(2) by simp
    ultimately show ?thesis using Suc.IH [OF _ _ _ r1(2)] Suc.prems(3) f(1) by simp
  qed
qed

section \<open>Agreement under a stable leader\<close>

definition system_good :: "'st treemap \<Rightarrow> 'st \<Rightarrow> int \<Rightarrow> batches \<Rightarrow> 'st paxos_system \<Rightarrow> bool" where
  "system_good T st L B S \<longleftrightarrow>
     (\<forall>p. pr_Id (of_run (S p)) = p \<and> good L B (of_run (S p)) \<and>
        (\<forall>r. S p = Inr r \<longrightarrow> executed T st B r \<and> (p = L \<longrightarrow> opened B r)))"

lemma system_good_upd:
  assumes "system_good T st L B S" "pr_Id (of_run x) = p" "good L B' (of_run x)" "B \<subseteq>\<^sub>m B'"
    and "p \<noteq> L \<Longrightarrow> B' = B" "\<And>r. x = Inr r \<Longrightarrow> executed T st B' r \<and> (p = L \<longrightarrow> opened B' r)"
  shows "system_good T st L B' (S(p := x))"
proof -
  let ?ok = "\<lambda>B p x. pr_Id (of_run x) = p \<and> good L B (of_run x) \<and>
     (\<forall>r. x = Inr r \<longrightarrow> executed T st B r \<and> (p = L \<longrightarrow> opened B r))"
  have "?ok B' q ((S(p := x)) q)" for q
  proof (cases "q = p")
    case True
    then show ?thesis using assms(2,3,6) unfolding True fun_upd_same by blast
  next
    case False
    have old: "?ok B q (S q)" using assms(1) unfolding system_good_def by blast
    have "?ok B' q (S q)"
    proof (cases "p = L")
      case True
      have qL: "q \<noteq> L" using True False by simp
      have "good L B' (of_run (S q))" using old qL by (intro good_mono [OF _ assms(4)]) auto
      moreover have "executed T st B' r" if "S q = Inr r" for r
        using executed_mono [where T = T and st = st and r = r, OF _ assms(4)] old that by simp
      ultimately show ?thesis using old qL by simp
    next
      case False
      show ?thesis unfolding assms(5) [OF False] by (rule old)
    qed
    then show ?thesis unfolding fun_upd_other [OF False] .
  qed
  then show ?thesis unfolding system_good_def by blast
qed

lemma stable_step:
  assumes inv: "system_good T st L B S" and st: "stable S a" and act: "paxos_act T a S = Some S'"
  shows "\<exists>B'. B \<subseteq>\<^sub>m B' \<and> system_good T st L B' S'"
proof -
  obtain p f where pf: "replica_act T S a = (p, f)" by fastforce
  obtain r x where r: "S p = Inr r" "f r = Some x" "S' = S(p := x)"
    using act by (auto simp: paxos_act_def pf split: sum.splits)
  have g: "good L B r" "pr_Id r = p" "executed T st B r" "p = L \<Longrightarrow> opened B r"
    using inv r(1) unfolding system_good_def by (metis paxos_of_run_simps(2))+
  have same: "\<exists>B'. B \<subseteq>\<^sub>m B' \<and> system_good T st L B' S'"
    if "good L B (of_run x)" "pr_Id (of_run x) = p" "core (of_run x) = core r"
      "p = L \<Longrightarrow> pr_crtInstance (of_run x) = pr_crtInstance r"
  proof -
    have "executed T st B r' \<and> (p = L \<longrightarrow> opened B r')" if "x = Inr r'" for r'
    proof -
      have "executed T st B r'" using executed_core [of r' r] \<open>core (of_run x) = core r\<close> that g(3) by simp
      then show ?thesis using \<open>p = L \<Longrightarrow> pr_crtInstance (of_run x) = pr_crtInstance r\<close> that g(4)
        by (simp add: opened_def)
    qed
    then have "system_good T st L B (S(p := x))" by (intro system_good_upd [OF inv that(2,1) map_le_refl]) blast+
    then show ?thesis unfolding r(3) by (intro exI [of _ B]) simp
  qed
  show ?thesis
  proof (cases a)
    case (Queue q pr)
    then show ?thesis using pf r(2) g by (intro same) auto
  next
    case (TakeProposal q)
    then obtain pr ps where ch: "pr_ProposeChan r = pr # ps" "x = handlePropose pr (r\<lparr>pr_ProposeChan := ps\<rparr>)"
      using pf r(2) by (auto simp: take_proposal_def split: list.splits)
    let ?r = "r\<lparr>pr_ProposeChan := ps\<rparr>"
    have g': "good L B ?r" "pr_Id ?r = p" using g by simp_all
    have c: "core (of_run x) = core r" by (simp add: ch(2))
    show ?thesis
    proof (cases "p = L")
      case False
      then show ?thesis using g' c ch(2) by (intro same) (simp_all add: good_handlePropose_other)
    next
      case True
      have "opened B ?r" using g(4) True by (simp add: opened_def)
      then obtain B' where B': "B \<subseteq>\<^sub>m B'" "good L B' (of_run x)" "\<forall>r'. x = Inr r' \<longrightarrow> opened B' r'"
        using good_handlePropose [OF g'(1), of pr] g'(2) True ch(2) by auto
      have "executed T st B' r'" if "x = Inr r'" for r'
        using executed_mono [OF g(3) B'(1)] executed_core [of r' r] c that by simp
      then have "system_good T st L B' S'" unfolding r(3)
        using system_good_upd [OF inv _ B'(2,1), of p] B'(3) True g(2) by (simp add: ch(2))
      then show ?thesis using B'(1) by blast
    qed
  next
    case (Deliver q p' k)
    then obtain m where m: "message_of S q p k = Some m" "x = handle_msg m r" and p': "p' = p"
      using pf r(2) by auto
    then have "k < length (pr_sent (of_run (S q)))" "pr_sent (of_run (S q)) ! k = (p, m)"
      by (auto simp: message_of_def Let_def prod_eq_iff split: if_splits)
    then have "(p, m) \<in> set (pr_sent (of_run (S q)))" by (metis nth_mem)
    moreover have "good L B (of_run (S q))" using inv by (simp add: system_good_def)
    ultimately have mg: "msg_good L B (pr_Id (of_run (S q))) (p, m)" using goodD(2) by blast
    have nc: "m \<noteq> CommitMsg c" for c using st m(1) Deliver p' by auto
    show ?thesis
    proof (rule same)
      show "good L B (of_run x)" "pr_Id (of_run x) = p" "core (of_run x) = core r"
        "p = L \<Longrightarrow> pr_crtInstance (of_run x) = pr_crtInstance r"
        using mg nc g(1,2) unfolding m(2) handle_msg_def
        by (auto simp: msg_good_def good_handlePrepare good_handleAccept good_handleCommitShort
            good_handlePrepareReply good_handleAcceptReply split: paxos_msg.splits)
    qed
  next
    case (ExecuteCommands q)
    then have x: "x = executeCommands T r" "q = p" using pf r(2) by auto
    note eg = exec_pass_good [OF g(1), of T "nat (pr_crtInstance r - pr_executedUpTo r)" "pr_executedUpTo r + 1",
        folded executeCommands_def x(1)]
    have "executed T st B r' \<and> (p = L \<longrightarrow> opened B r')" if "x = Inr r'" for r'
    proof -
      have "executed T st B r'"
        using exec_pass_executed [OF g(3,1) refl] that unfolding x(1) executeCommands_def by blast
      then show ?thesis using eg that g(4) by (simp add: opened_def)
    qed
    then have "system_good T st L B S'" unfolding r(3)
      using eg g(2) by (intro system_good_upd [OF inv _ _ map_le_refl]) blast+
    then show ?thesis by (intro exI [of _ B]) simp
  qed (use st in auto)
qed


end
