(* ===== verification/PaxosRuns.thy ===== *)
theory PaxosRuns
  imports PaxosSystem
begin

text \<open>
  Runs of the system of Paxos replicas, evaluated: a commit without a quorum, a recovery that loses a
  committed command, and a commit without a command.  They use only messages that were sent, each handled
  once, the executor, and the recovery it asks for.
\<close>

declare ballot_loop.simps [code]

definition write_proposal :: GPropose where
  "write_proposal = \<lparr>Propose_CommandId = 1, Propose_ClientId = 7,
     Propose_Command = \<lparr>Op = PUT, K = 0, V = [1]\<rparr>, Propose_Timestamp = 0, GPropose_Proxy = False\<rparr>"

definition write_command :: command where
  "write_command = \<lparr>Op = PUT, K = 0, V = [1]\<rparr>"

definition at_inst :: "int \<Rightarrow> (Instance \<Rightarrow> bool) \<Rightarrow> 'st PaxosReplica \<Rightarrow> bool" where
  "at_inst i P r = (case pr_instanceSpace r i of None \<Rightarrow> False | Some inst \<Rightarrow> P inst)"

lemma committed_at_inst: "committed i cmds r = at_inst i (\<lambda>inst. in_status inst = COMMITTED \<and> in_cmds inst = cmds) r"
  by (simp add: committed_def at_inst_def split: option.split)

text \<open>Whether a replica has no commands in an instance.\<close>

definition without_commands :: "int \<Rightarrow> 'st PaxosReplica \<Rightarrow> bool" where
  "without_commands i r \<longleftrightarrow> \<not> at_inst i (\<lambda>inst. in_cmds inst \<noteq> None) r"

section \<open>A commit without a quorum\<close>

text \<open>
  \<open>handlePrepareReply\<close> sends the accepts again for every reply beyond the quorum, and \<open>handleAcceptReply\<close> counts
  the answers, not the replicas that gave them.
\<close>

definition duplicate_run :: "paxos_action list" where
  "duplicate_run = [Queue 0 write_proposal, TakeProposal 0, Deliver 0 1 0, Deliver 0 2 1, Deliver 0 3 2,
     Deliver 1 0 0, Deliver 2 0 0, Deliver 3 0 0, Deliver 0 1 4, Deliver 0 1 8, Deliver 1 0 1, Deliver 1 0 2]"

lemma duplicate_run_eval:
  "case paxos_acts T duplicate_run (NewPaxosSystem 5 2 0 st) of None \<Rightarrow> False
   | Some S \<Rightarrow> at_inst 0 (\<lambda>inst. in_status inst = COMMITTED \<and> in_cmds inst = Some [write_command]) (of_run (S 0)) \<and>
       (\<forall>p \<in> set [2, 3, 4]. \<not> at_inst 0 (\<lambda>inst. in_cmds inst \<noteq> None) (of_run (S p)))"
  by code_simp

text \<open>
  C8: Of five replicas, tolerating two failures, the leader can commit a command that only one other replica has
  accepted, where a write quorum has three: that replica answered the accept twice.
\<close>

theorem paxos_commits_without_quorum:
  "\<exists>S. paxos_acts T duplicate_run (NewPaxosSystem 5 2 0 st) = Some S \<and>
     committed 0 (Some [write_command]) (of_run (S 0)) \<and>
     without_commands 0 (of_run (S 2)) \<and> without_commands 0 (of_run (S 3)) \<and> without_commands 0 (of_run (S 4)) \<and>
     WriteQuorumSize 2 = 3"
  using duplicate_run_eval [of T st]
  by (auto simp: committed_at_inst without_commands_def WriteQuorumSize_def split: option.splits)

section \<open>A recovery that loses a committed command\<close>

text \<open>The leader commits with replica 1; replica 2 has handled the prepare only.\<close>

definition commit_run :: "paxos_action list" where
  "commit_run = [Queue 0 write_proposal, TakeProposal 0, Deliver 0 1 0, Deliver 1 0 0, Deliver 0 1 2,
     Deliver 1 0 1, ExecuteCommands 0, Deliver 0 2 1]"

text \<open>Replica 2 recovers the instance with replica 1, which has not handled the commit yet.\<close>

definition recover_run :: "paxos_action list" where
  "recover_run = [ExecuteCommands 2, TakeRecovery 2, Deliver 2 1 2, Deliver 1 2 2, Deliver 2 1 4, Deliver 1 2 3,
     ExecuteCommands 2]"

definition blocked_at_0 :: "'st PaxosReplica \<Rightarrow> bool" where
  "blocked_at_0 r \<longleftrightarrow> pr_executedUpTo r = -1 \<and> pr_crtInstance r = 0 \<and> pr_problemInstance r = 0 \<and>
     at_inst 0 (\<lambda>inst. in_status inst \<noteq> COMMITTED) r"

lemma blocked_pass:
  assumes "blocked_at_0 r" "pr_timeout r + SLEEP_TIME_NS < COMMIT_GRACE_PERIOD"
  shows "executeCommands T r = Inr (r\<lparr>pr_timeout := pr_timeout r + SLEEP_TIME_NS\<rparr>)"
proof -
  have "nat (pr_crtInstance r - pr_executedUpTo r) = Suc 0" using assms(1) by (simp add: blocked_at_0_def)
  then show ?thesis using assms
    by (auto simp: executeCommands_def with_inst_def in_range_def INSTANCES_def exec_blocked_def Let_def blocked_at_0_def
        at_inst_def split: option.splits)
qed

lemma blocked_passes:
  assumes "S p = Inr r" "blocked_at_0 r" "pr_timeout r + int n * SLEEP_TIME_NS < COMMIT_GRACE_PERIOD"
  shows "paxos_acts T (replicate n (ExecuteCommands p)) S =
    Some (S(p := Inr (r\<lparr>pr_timeout := pr_timeout r + int n * SLEEP_TIME_NS\<rparr>)))"
  using assms
proof (induction n arbitrary: S r)
  case 0
  then show ?case by (simp add: fun_upd_idem)
next
  case (Suc n)
  let ?r = "r\<lparr>pr_timeout := pr_timeout r + SLEEP_TIME_NS\<rparr>"
  have "pr_timeout r + SLEEP_TIME_NS < COMMIT_GRACE_PERIOD"
    using Suc.prems(3) by (simp add: SLEEP_TIME_NS_def)
  then have "executeCommands T r = Inr ?r" using blocked_pass Suc.prems(2) by blast
  moreover have "blocked_at_0 ?r" using Suc.prems(2) by (simp add: blocked_at_0_def at_inst_def)
  moreover have t: "pr_timeout ?r + int n * SLEEP_TIME_NS = pr_timeout r + int (Suc n) * SLEEP_TIME_NS"
    by (simp add: algebra_simps)
  ultimately have "paxos_acts T (replicate n (ExecuteCommands p)) (S(p := Inr ?r)) =
      Some ((S(p := Inr ?r))(p := Inr (?r\<lparr>pr_timeout := pr_timeout ?r + int n * SLEEP_TIME_NS\<rparr>)))"
    using Suc.prems(3) by (intro Suc.IH) simp_all
  then have tail: "paxos_acts T (replicate n (ExecuteCommands p)) (S(p := Inr ?r)) =
      Some (S(p := Inr (r\<lparr>pr_timeout := pr_timeout r + int (Suc n) * SLEEP_TIME_NS\<rparr>)))"
    unfolding fun_upd_upd t by simp
  have "paxos_acts T (replicate (Suc n) (ExecuteCommands p)) S =
      paxos_acts T (replicate n (ExecuteCommands p)) (S(p := Inr ?r))"
    using Suc.prems(1) \<open>executeCommands T r = Inr ?r\<close> by (simp add: paxos_act_def)
  from trans [OF this tail] show ?case .
qed

lemma paxos_acts_append:
  "paxos_acts T (as @ bs) S = (case paxos_acts T as S of None \<Rightarrow> None | Some S \<Rightarrow> paxos_acts T bs S)"
  by (induction as arbitrary: S) (auto split: option.split)

lemma commit_run_eval:
  "case paxos_acts T commit_run (NewPaxosSystem 3 1 0 st) of None \<Rightarrow> False
   | Some S \<Rightarrow> (case S 2 of Inl r \<Rightarrow> False | Inr r \<Rightarrow> blocked_at_0 r \<and> pr_timeout r = 0)"
  by code_simp

lemma recover_run_eval:
  "case paxos_acts T commit_run (NewPaxosSystem 3 1 0 st) of None \<Rightarrow> False
   | Some S \<Rightarrow> (case S 2 of Inl r \<Rightarrow> False
      | Inr r \<Rightarrow>
         (case paxos_acts T recover_run (S(2 := Inr (r\<lparr>pr_timeout := 2999 * SLEEP_TIME_NS\<rparr>))) of None \<Rightarrow> False
          | Some S \<Rightarrow> (case S 0 of Inl r0 \<Rightarrow> False | Inr r0 \<Rightarrow> (case S 2 of Inl r2 \<Rightarrow> False | Inr r2 \<Rightarrow>
                 at_inst 0 (\<lambda>inst. in_status inst = COMMITTED \<and> in_cmds inst = Some [write_command]) r0 \<and>
                 at_inst 0 (\<lambda>inst. in_status inst = COMMITTED \<and> in_cmds inst = Some NOOP) r2 \<and>
                 pr_executedUpTo r0 = 0 \<and> pr_executedUpTo r2 = 0))))"
  by code_simp

lemma recover_run_state:
  "(case paxos_acts T commit_run (NewPaxosSystem 3 1 0 st) of None \<Rightarrow> False
   | Some S \<Rightarrow> (case S 2 of Inl r \<Rightarrow> False
      | Inr r \<Rightarrow> 
         (case paxos_acts T recover_run (S(2 := Inr (r\<lparr>pr_timeout := 2999 * SLEEP_TIME_NS\<rparr>))) of None \<Rightarrow> False
          | Some S \<Rightarrow> P (pr_State (of_run (S 0))) (pr_State (of_run (S 2)))))) =
   P (tm_Put T 0 [1] st) st"
  by code_simp


text \<open>
  C4: A recovery can commit no operation in an instance in which the leader has committed a client's command,
  and both replicas execute their own: the replica that recovers learns the accepted command from the reply
  to its prepare and does not use it.
\<close>

theorem paxos_recovery_loses_committed:
  "\<exists>S r r'. paxos_acts T (commit_run @ replicate 2999 (ExecuteCommands 2) @ recover_run) (NewPaxosSystem 3 1 0 st) = Some S \<and>
     S 0 = Inr r \<and> S 2 = Inr r' \<and> committed 0 (Some [write_command]) r \<and> committed 0 (Some NOOP) r' \<and>
     pr_executedUpTo r = 0 \<and> pr_executedUpTo r' = 0 \<and> pr_State r = tm_Put T 0 [1] st \<and> pr_State r' = st"
proof -
  let ?S0 = "NewPaxosSystem 3 1 0 st"
  obtain S1 r1 where S1: "paxos_acts T commit_run ?S0 = Some S1" "S1 2 = Inr r1" "blocked_at_0 r1" "pr_timeout r1 = 0"
    using commit_run_eval [of T st] by (auto split: option.splits sum.splits)
  let ?S2 = "S1(2 := Inr (r1\<lparr>pr_timeout := 2999 * SLEEP_TIME_NS\<rparr>))"
  obtain S r r' where S: "paxos_acts T recover_run ?S2 = Some S" "S 0 = Inr r" "S 2 = Inr r'"
      "at_inst 0 (\<lambda>inst. in_status inst = COMMITTED \<and> in_cmds inst = Some [write_command]) r"
      "at_inst 0 (\<lambda>inst. in_status inst = COMMITTED \<and> in_cmds inst = Some NOOP) r'"
      "pr_executedUpTo r = 0" "pr_executedUpTo r' = 0"
    using recover_run_eval [of T st] S1(1,2) by (auto split: option.splits sum.splits)
  have "pr_State r = tm_Put T 0 [1] st \<and> pr_State r' = st"
    using recover_run_state [where T = T and st = st and P = "\<lambda>a b. a = tm_Put T 0 [1] st \<and> b = st"] S1(1,2) S(1-3) by simp
  moreover have "paxos_acts T (replicate 2999 (ExecuteCommands 2)) S1 = Some ?S2"
    using blocked_passes [where S = S1 and p = 2 and n = 2999 and T = T, OF S1(2,3)] S1(4) by (simp add: SLEEP_TIME_NS_def COMMIT_GRACE_PERIOD_def)
  ultimately show ?thesis using S1(1) S by (auto simp: paxos_acts_append committed_at_inst)
qed

section \<open>A commit without a command\<close>

text \<open>Replica 2 handles the prepare, then the commit, and only then the accept.\<close>

definition early_commit_run :: "paxos_action list" where
  "early_commit_run = [Queue 0 write_proposal, TakeProposal 0, Deliver 0 1 0, Deliver 1 0 0, Deliver 0 1 2,
     Deliver 1 0 1, Deliver 0 2 1, Deliver 0 2 5, Deliver 0 2 3]"

lemma early_commit_eval:
  "case paxos_acts T early_commit_run (NewPaxosSystem 3 1 0 st) of None \<Rightarrow> False
   | Some S \<Rightarrow> (case S 2 of Inl r \<Rightarrow> False
      | Inr r \<Rightarrow> at_inst 0 (\<lambda>inst. in_status inst = COMMITTED \<and> in_cmds inst = None) r \<and>
          pr_executedUpTo r = -1)"
  by code_simp

fun answers_prepare :: "paxos_msg \<Rightarrow> bool" where
  "answers_prepare (PrepareReplyMsg p) = True"
| "answers_prepare m = False"

text \<open>
  A commit handled before the accept commits the instance without commands.  The replica refuses the
  accept that follows, keeps the instance as it is whatever it handles but replies to its own prepares, and its
  executor does not pass it.
\<close>

theorem paxos_commit_without_command:
  "\<exists>S r. paxos_acts T early_commit_run (NewPaxosSystem 3 1 0 st) = Some S \<and> S 2 = Inr r \<and>
     committed 0 None r \<and>
     (\<forall>m. answers_prepare m \<or> committed 0 None (of_run (handle_msg m r))) \<and>
     pr_executedUpTo (of_run (executeCommands T r)) = -1"
proof -
  obtain S r where S: "paxos_acts T early_commit_run (NewPaxosSystem 3 1 0 st) = Some S" "S 2 = Inr r"
      "committed 0 None r" "pr_executedUpTo r = -1"
    using early_commit_eval [of T st] by (auto simp: committed_at_inst split: option.splits sum.splits)
  have "pr_executedUpTo (of_run (executeCommands T r)) = -1"
    using S(3,4) exec_blocked_fields(1) [of 0 r]
    by (cases "nat (pr_crtInstance r - pr_executedUpTo r)")
      (auto simp: executeCommands_def with_inst_def committed_def core_def split: if_splits)
  moreover have "answers_prepare m \<or> committed 0 None (of_run (handle_msg m r))" for m
    using committed_msg_stays [OF S(3), of m] by (cases m) auto
  ultimately show ?thesis using S by blast
qed


section \<open>A run under a stable leader\<close>

fun stable_acts :: "'st treemap \<Rightarrow> paxos_action list \<Rightarrow> 'st paxos_system \<Rightarrow> bool" where
  "stable_acts T [] S = True"
| "stable_acts T (a # as) S =
     (stable S a \<and> (case paxos_act T a S of None \<Rightarrow> False | Some S \<Rightarrow> stable_acts T as S))"

lemma stable_acts_run:
  "stable_run T S0 S \<Longrightarrow> stable_acts T as S \<Longrightarrow> paxos_acts T as S = Some S' \<Longrightarrow> stable_run T S0 S'"
proof (induction as arbitrary: S)
  case Nil
  then show ?case by simp
next
  case (Cons a as)
  then show ?case using stable_run.act [OF Cons.prems(1)] by (auto split: option.splits)
qed

definition stable_example :: "paxos_action list" where
  "stable_example = [Queue 0 write_proposal, TakeProposal 0, Deliver 0 1 0, Deliver 1 0 0, Deliver 0 1 2,
     Deliver 1 0 1, ExecuteCommands 0, Deliver 0 1 4, ExecuteCommands 1]"

lemma stable_example_eval:
  "case paxos_acts T stable_example (NewPaxosSystem 3 1 0 st) of None \<Rightarrow> False
   | Some S \<Rightarrow> (case S 0 of Inl r \<Rightarrow> False | Inr r0 \<Rightarrow> (case S 1 of Inl r \<Rightarrow> False | Inr r1 \<Rightarrow>
       pr_executedUpTo r0 = 0 \<and> pr_executedUpTo r1 = 0))"
  by code_simp

lemma stable_example_stable: "stable_acts T stable_example (NewPaxosSystem 3 1 0 st)"
  by code_simp


end
