(* ===== verification/N2Paxos.thy ===== *)
theory N2Paxos
  imports N2PaxosMsg ClientMsg MsgSet
begin

text \<open>
  N2Paxos (\<open>n2paxos/n2paxos.go\<close>, \<open>n2paxos/batcher.go\<close>): Multi-Paxos under one leader that never changes, with a
  descriptor per slot.  A descriptor has a goroutine of its own that handles its messages, as long as there are
  fewer than \<open>MaxDescRoutines\<close> of them; the messages of later descriptors are handled by the main loop
  (\<open>seq\<close>).

  Handlers are atomic steps here.  A handler that panics, or a main loop that waits for ever, ends in \<open>Inl\<close> of
  the state it reached.  \<open>todo\<close> is what is left of the message the main loop is at, one entry per call of
  \<open>getCmdDesc\<close>.  Sends to the channels of the batcher never wait here, sends to the channel of a descriptor,
  of capacity eight, do.
\<close>

section \<open>State\<close>

datatype n2_status = NORMAL | RECOVERING

datatype n2_phase = START | COMMIT

text \<open>What a descriptor handles: a proposal, messages, \<open>"deliver"\<close>, and the slot it has delivered.\<close>

datatype n2_in = InPropose GPropose | In2A N2M2A | In2B N2M2B | InDeliver | InSlot int

text \<open>
  The functions that wait in \<open>afterPayload\<close> are all \<open>deliver\<close> of the descriptor itself; \<open>nd_afterPayload\<close>
  counts them.  \<open>nd_blocked\<close> says that the goroutine waits for ever, in a send to its own full channel.
\<close>

record n2_desc =
  nd_cmdId :: CommandId
  nd_cmd :: command
  nd_phase :: n2_phase
  nd_cmdSlot :: int
  nd_propose :: "GPropose option"
  nd_twoBs :: "N2M2B msgset option"
  nd_afterPayload :: nat
  nd_msgs :: "n2_in list"
  nd_active :: bool
  nd_seq :: bool
  nd_blocked :: bool

record n2_static =
  ns_cmdSlot :: int
  ns_phase :: n2_phase
  ns_cmd :: command

record 'st N2Replica =
  nr_Id :: int
  nr_N :: int
  nr_Exec :: bool
  nr_Dreply :: bool
  nr_ballot :: int
  nr_cballot :: int
  nr_status :: n2_status
  nr_isLeader :: bool
  nr_lastCmdSlot :: int
  nr_slots :: "CommandId \<Rightarrow> int option"
  nr_proposes :: "CommandId \<Rightarrow> GPropose option"
  nr_cmdDescs :: "int \<Rightarrow> n2_desc option"
  nr_delivered :: "int set"
  nr_history :: "int \<Rightarrow> n2_static"
  nr_AQ :: quorum
  nr_deliverChan :: "int list"
  nr_descPool :: "n2_desc list"
  nr_poolLevel :: int
  nr_routineCount :: int
  nr_twoAs :: "N2M2A list"
  nr_twoBs :: "N2M2B list"
  nr_todo :: "(int \<times> n2_in) list"
  nr_State :: 'st
  nr_sent :: "n2paxos_msg list"
  nr_replied :: "(GPropose \<times> ProposeReplyTS) list"

type_synonym 'st n2_run = "'st N2Replica + 'st N2Replica"
type_synonym 'st n2_handled = "'st N2Replica + n2_desc \<times> 'st N2Replica"

definition HISTORY_SIZE :: int where
  "HISTORY_SIZE = 10010001"

definition MaxDescRoutines :: int where
  "MaxDescRoutines = 100"

definition MSGS_SIZE :: nat where
  "MSGS_SIZE = 8"

text \<open>
  \<open>New\<close>, with the leader the quorum file names, if there is one.  \<open>Exec\<close> and the level of the pool are
  arguments of the program.
\<close>

definition NewN2Replica :: "int \<Rightarrow> int \<Rightarrow> bool \<Rightarrow> int \<Rightarrow> int option \<Rightarrow> 'st \<Rightarrow> 'st N2Replica" where
  "NewN2Replica rid n exec pl leader st =
     (let ballot = (case leader of Some l \<Rightarrow> l | None \<Rightarrow> 0)
      in \<lparr>nr_Id = rid, nr_N = n, nr_Exec = exec, nr_Dreply = True, nr_ballot = ballot, nr_cballot = ballot,
          nr_status = NORMAL, nr_isLeader = (ballot = rid), nr_lastCmdSlot = 0, nr_slots = Map.empty,
          nr_proposes = Map.empty, nr_cmdDescs = Map.empty, nr_delivered = {},
          nr_history = (\<lambda>_. \<lparr>ns_cmdSlot = 0, ns_phase = START, ns_cmd = zero_command\<rparr>),
          nr_AQ = NewMajorityOf n, nr_deliverChan = [], nr_descPool = [], nr_poolLevel = pl,
          nr_routineCount = 0, nr_twoAs = [], nr_twoBs = [], nr_todo = [], nr_State = st, nr_sent = [],
          nr_replied = []\<rparr>)"

section \<open>Descriptors\<close>

definition zero_desc :: n2_desc where
  "zero_desc = \<lparr>nd_cmdId = zero_CommandId, nd_cmd = zero_command, nd_phase = START, nd_cmdSlot = 0,
     nd_propose = None, nd_twoBs = None, nd_afterPayload = 0, nd_msgs = [], nd_active = False,
     nd_seq = False, nd_blocked = False\<rparr>"

text \<open>The pool hands out the descriptor that was freed last.\<close>

definition allocDesc :: "'st N2Replica \<Rightarrow> n2_desc \<times> 'st N2Replica" where
  "allocDesc r =
     (if nr_poolLevel r > 0 then
        (case nr_descPool r of [] \<Rightarrow> (zero_desc, r) | d # ds \<Rightarrow> (d, r\<lparr>nr_descPool := ds\<rparr>))
      else (zero_desc, r))"

definition freeDesc :: "n2_desc \<Rightarrow> 'st N2Replica \<Rightarrow> 'st N2Replica" where
  "freeDesc d r = (if nr_poolLevel r > 0 then r\<lparr>nr_descPool := d # nr_descPool r\<rparr> else r)"

definition newDesc :: "'st N2Replica \<Rightarrow> n2_desc \<times> 'st N2Replica" where
  "newDesc r =
     (let (d, r) = allocDesc r
      in (d\<lparr>nd_cmdSlot := -1, nd_active := True, nd_phase := START,
            nd_seq := nr_routineCount r \<ge> MaxDescRoutines, nd_propose := None,
            nd_cmdId := CommandId (ClientId (nd_cmdId d)) (-42), nd_afterPayload := 0,
            nd_twoBs := Some (ReinitMsgSet (nd_twoBs d) (nr_AQ r))\<rparr>, r))"

definition put_desc :: "int \<Rightarrow> n2_desc \<Rightarrow> 'st N2Replica \<Rightarrow> 'st N2Replica" where
  "put_desc slot d r = r\<lparr>nr_cmdDescs := (nr_cmdDescs r)(slot \<mapsto> d)\<rparr>"

section \<open>Handlers\<close>

text \<open>\<open>handleMsg\<close> of a slot that was delivered: the descriptor is done.\<close>

definition handleSlot :: "int \<Rightarrow> int \<Rightarrow> n2_desc \<times> 'st N2Replica \<Rightarrow> 'st n2_handled" where
  "handleSlot h slot = (\<lambda>(d, r).
     if h < 0 \<or> HISTORY_SIZE \<le> h then Inl r
     else Inr (d\<lparr>nd_active := False\<rparr>,
       r\<lparr>nr_history := (nr_history r)(h := \<lparr>ns_cmdSlot = slot, ns_phase = nd_phase d, ns_cmd = nd_cmd d\<rparr>)\<rparr>))"

definition ReplyProposeTS :: "GPropose \<Rightarrow> ProposeReplyTS \<Rightarrow> 'st N2Replica \<Rightarrow> 'st N2Replica" where
  "ReplyProposeTS p rep r = r\<lparr>nr_replied := nr_replied r @ [(p, rep)]\<rparr>"

text \<open>The wait of a descriptor without a goroutine for the slot it has put into its channel.\<close>

fun await_slot :: "n2_in list \<Rightarrow> int \<times> n2_in list" where
  "await_slot (InSlot h # ms) = (h, ms)"
| "await_slot (m # ms) = await_slot ms"
| "await_slot [] = (-1, [])"

text \<open>The function that \<open>deliver\<close> gives to \<open>afterPayload\<close>: its end, which executes the command, and its guards.\<close>

definition execute_now :: "'st treemap \<Rightarrow> int \<Rightarrow> GPropose \<Rightarrow> n2_desc \<times> 'st N2Replica \<Rightarrow> 'st n2_handled" where
  "execute_now T slot p = (\<lambda>(d, r).
     let r = r\<lparr>nr_delivered := insert slot (nr_delivered r)\<rparr>
     in case Execute T (nd_cmd d) (nr_State r) of
          None \<Rightarrow> Inl r
        | Some (v, st) \<Rightarrow>
            let r = r\<lparr>nr_State := st, nr_deliverChan := nr_deliverChan r @ [slot + 1]\<rparr>
            in if MSGS_SIZE \<le> length (nd_msgs d)
               then (if nd_seq d then Inl r else Inr (d\<lparr>nd_blocked := True\<rparr>, r))
               else
                 let d = d\<lparr>nd_msgs := nd_msgs d @ [InSlot slot]\<rparr>;
                     r = (if GPropose_Proxy p \<and> nr_Dreply r
                          then ReplyProposeTS p \<lparr>ProposeReplyTS_OK = 1,
                                 ProposeReplyTS_CommandId = Propose_CommandId p, ProposeReplyTS_Value = v,
                                 ProposeReplyTS_Timestamp = Propose_Timestamp p\<rparr> r
                          else r)
                 in if nd_seq d then
                      let (h, ms) = await_slot (nd_msgs d)
                      in handleSlot h slot (d\<lparr>nd_msgs := ms\<rparr>, r)
                    else Inr (d, r))"

definition deliver_now :: "'st treemap \<Rightarrow> int \<Rightarrow> n2_desc \<times> 'st N2Replica \<Rightarrow> 'st n2_handled" where
  "deliver_now T slot = (\<lambda>(d, r).
     if slot \<in> nr_delivered r \<or> \<not> nr_Exec r then Inr (d, r)
     else if nd_phase d \<noteq> COMMIT \<and> \<not> nr_isLeader r then Inr (d, r)
     else if slot > 0 \<and> slot - 1 \<notin> nr_delivered r then Inr (d, r)
     else
       let d = (case nr_proposes r (nd_cmdId d) of Some p \<Rightarrow> d\<lparr>nd_propose := Some p\<rparr> | None \<Rightarrow> d)
       in case nd_propose d of
            None \<Rightarrow> Inr (d, r)
          | Some p \<Rightarrow> execute_now T slot p (d, r))"

fun deliver_times :: "'st treemap \<Rightarrow> int \<Rightarrow> nat \<Rightarrow> n2_desc \<times> 'st N2Replica \<Rightarrow> 'st n2_handled" where
  "deliver_times T slot 0 x = Inr x"
| "deliver_times T slot (Suc n) x =
     (case deliver_now T slot x of Inl r \<Rightarrow> Inl r | Inr x \<Rightarrow> deliver_times T slot n x)"

text \<open>\<open>afterPayload\<close>: the condition, \<open>Call\<close> and \<open>Recall\<close> of a conditional call.\<close>

definition has_payload :: "n2_desc \<Rightarrow> bool" where
  "has_payload d \<longleftrightarrow> SeqNum (nd_cmdId d) \<noteq> -42"

definition run_waiting :: "'st treemap \<Rightarrow> int \<Rightarrow> nat \<Rightarrow> n2_desc \<times> 'st N2Replica \<Rightarrow> 'st n2_handled" where
  "run_waiting T slot n x =
     (case deliver_times T slot n x of Inl r \<Rightarrow> Inl r | Inr (d, r) \<Rightarrow> Inr (d\<lparr>nd_afterPayload := 0\<rparr>, r))"

definition deliver :: "'st treemap \<Rightarrow> int \<Rightarrow> n2_desc \<times> 'st N2Replica \<Rightarrow> 'st n2_handled" where
  "deliver T slot = (\<lambda>(d, r).
     if has_payload d then run_waiting T slot (nd_afterPayload d + 1) (d, r)
     else Inr (d\<lparr>nd_afterPayload := nd_afterPayload d + 1\<rparr>, r))"

definition recall_payload :: "'st treemap \<Rightarrow> int \<Rightarrow> n2_desc \<times> 'st N2Replica \<Rightarrow> 'st n2_handled" where
  "recall_payload T slot = (\<lambda>(d, r).
     if 0 < nd_afterPayload d \<and> has_payload d then run_waiting T slot (nd_afterPayload d) (d, r) else Inr (d, r))"

text \<open>
  \<open>handle2B\<close> with the handler of the set of the votes.
\<close>

definition handle2B :: "'st treemap \<Rightarrow> N2M2B \<Rightarrow> n2_desc \<times> 'st N2Replica \<Rightarrow> 'st n2_handled" where
  "handle2B T m = (\<lambda>(d, r).
     if nr_status r \<noteq> NORMAL \<or> nr_ballot r \<noteq> N2M2B_Ballot m then Inr (d, r)
     else case nd_twoBs d of
            None \<Rightarrow> Inl r
          | Some ms \<Rightarrow>
              let (res, ms) = Add (\<lambda>_ _. True) (N2M2B_Replica m) False m ms;
                  d = d\<lparr>nd_twoBs := Some ms\<rparr>
              in (case call res of
                    None \<Rightarrow> Inr (d, r)
                  | Some _ \<Rightarrow> let d = d\<lparr>nd_phase := COMMIT\<rparr> in deliver T (nd_cmdSlot d) (d, r)))"

definition handle2A :: "'st treemap \<Rightarrow> N2M2A \<Rightarrow> n2_desc \<times> 'st N2Replica \<Rightarrow> 'st n2_handled" where
  "handle2A T m = (\<lambda>(d, r).
     if nr_status r \<noteq> NORMAL \<or> nr_ballot r \<noteq> N2M2A_Ballot m then Inr (d, r)
     else
       let d = d\<lparr>nd_cmd := N2M2A_Cmd m, nd_cmdId := N2M2A_CmdId m, nd_cmdSlot := N2M2A_CmdSlot m\<rparr>;
           r = r\<lparr>nr_slots := (nr_slots r)(nd_cmdId d \<mapsto> nd_cmdSlot d)\<rparr>
       in if \<not> Contains (nr_AQ r) (nr_Id r) then recall_payload T (nd_cmdSlot d) (d, r)
          else
            let m2b = \<lparr>N2M2B_Replica = nr_Id r, N2M2B_Ballot = N2M2A_Ballot m, N2M2B_CmdSlot = N2M2A_CmdSlot m\<rparr>;
                r = r\<lparr>nr_twoBs := nr_twoBs r @ [m2b]\<rparr>
            in handle2B T m2b (d, r))"

definition handlePropose :: "'st treemap \<Rightarrow> GPropose \<Rightarrow> int \<Rightarrow> n2_desc \<times> 'st N2Replica \<Rightarrow> 'st n2_handled" where
  "handlePropose T p slot = (\<lambda>(d, r).
     if nr_status r \<noteq> NORMAL \<or> nd_propose d \<noteq> None then Inr (d, r)
     else
       let d = d\<lparr>nd_propose := Some p\<rparr>;
           m2a = \<lparr>N2M2A_Replica = nr_Id r, N2M2A_Ballot = nr_ballot r, N2M2A_Cmd = Propose_Command p,
                  N2M2A_CmdId = CommandId (Propose_ClientId p) (Propose_CommandId p), N2M2A_CmdSlot = slot\<rparr>;
           r = r\<lparr>nr_twoAs := nr_twoAs r @ [m2a]\<rparr>
       in handle2A T m2a (d, r))"

fun handleMsg :: "'st treemap \<Rightarrow> n2_in \<Rightarrow> int \<Rightarrow> n2_desc \<times> 'st N2Replica \<Rightarrow> 'st n2_handled" where
  "handleMsg T (InPropose p) slot x = handlePropose T p slot x"
| "handleMsg T (In2A m) slot x = (if N2M2A_CmdSlot m = slot then handle2A T m x else Inr x)"
| "handleMsg T (In2B m) slot x = (if N2M2B_CmdSlot m = slot then handle2B T m x else Inr x)"
| "handleMsg T InDeliver slot x = deliver T slot x"
| "handleMsg T (InSlot h) slot x = handleSlot h slot x"

text \<open>A descriptor that is done leaves the table and goes back to the pool.\<close>

definition finish :: "int \<Rightarrow> 'st n2_handled \<Rightarrow> 'st n2_run" where
  "finish slot x =
     (case x of
        Inl r \<Rightarrow> Inl r
      | Inr (d, r) \<Rightarrow>
          if nd_active d then Inr (put_desc slot d r)
          else let r = r\<lparr>nr_cmdDescs := (nr_cmdDescs r)(slot := None)\<rparr>
               in Inr (freeDesc d r))"

text \<open>One turn of the loop of \<open>handleDesc\<close>, if there is a message.\<close>

definition handleDesc :: "'st treemap \<Rightarrow> int \<Rightarrow> 'st N2Replica \<Rightarrow> 'st n2_run option" where
  "handleDesc T slot r =
     (case nr_cmdDescs r slot of
        None \<Rightarrow> None
      | Some d \<Rightarrow>
          if nd_seq d \<or> nd_blocked d then None
          else case nd_msgs d of
            [] \<Rightarrow> None
          | m # ms \<Rightarrow>
              Some (case finish slot (handleMsg T m slot (d\<lparr>nd_msgs := ms\<rparr>, r)) of
                      Inl r \<Rightarrow> Inl r
                    | Inr r \<Rightarrow> Inr (if nr_cmdDescs r slot = None
                                    then r\<lparr>nr_routineCount := nr_routineCount r - 1\<rparr> else r)))"

section \<open>The main loop\<close>

text \<open>
  \<open>getCmdDesc\<close>: whether the message was given to the descriptor, or has to wait for room in its channel.
\<close>

definition getCmdDesc :: "'st treemap \<Rightarrow> int \<Rightarrow> n2_in \<Rightarrow> 'st N2Replica \<Rightarrow> 'st N2Replica + bool \<times> 'st N2Replica" where
  "getCmdDesc T slot m r =
     (if slot \<in> nr_delivered r then Inr (True, r)
      else
        let (d, r) =
          (case nr_cmdDescs r slot of
             Some d \<Rightarrow> (d, r)
           | None \<Rightarrow>
               let (d, r) = newDesc r;
                   d = d\<lparr>nd_cmdSlot := slot\<rparr>;
                   r = (if \<not> nd_seq d then r\<lparr>nr_routineCount := nr_routineCount r + 1\<rparr> else r)
               in (d, put_desc slot d r))
        in if nd_seq d then
             (case finish slot (handleMsg T m slot (d, r)) of Inl r \<Rightarrow> Inl r | Inr r \<Rightarrow> Inr (True, r))
           else if length (nd_msgs d) < MSGS_SIZE
             then Inr (True, put_desc slot (d\<lparr>nd_msgs := nd_msgs d @ [m]\<rparr>) r)
             else Inr (False, r))"

text \<open>The cases of the loop: what they leave to do.\<close>

fun take_msg :: "n2paxos_msg \<Rightarrow> 'st N2Replica \<Rightarrow> 'st N2Replica" where
  "take_msg (N2M2AMsg m) r = r\<lparr>nr_todo := [(N2M2A_CmdSlot m, In2A m)]\<rparr>"
| "take_msg (N2M2BMsg m) r = r\<lparr>nr_todo := [(N2M2B_CmdSlot m, In2B m)]\<rparr>"
| "take_msg (N2M2sMsg m) r =
     r\<lparr>nr_todo := map (\<lambda>a. (N2M2A_CmdSlot a, In2A a)) (N2M2s_TwoAs m) @
                  map (\<lambda>b. (N2M2B_CmdSlot b, In2B b)) (N2M2s_TwoBs m)\<rparr>"
| "take_msg m r = r"

definition take_propose :: "GPropose \<Rightarrow> 'st N2Replica \<Rightarrow> 'st N2Replica" where
  "take_propose p r =
     (if nr_isLeader r then r\<lparr>nr_todo := [(nr_lastCmdSlot r, InPropose p)]\<rparr>
      else
        let cmdId = CommandId (Propose_ClientId p) (Propose_CommandId p);
            r = r\<lparr>nr_proposes := (nr_proposes r)(cmdId \<mapsto> p)\<rparr>
        in case nr_slots r cmdId of
             Some slot \<Rightarrow> r\<lparr>nr_todo := [(slot, InDeliver)]\<rparr>
           | None \<Rightarrow> r)"

definition take_deliver :: "nat \<Rightarrow> 'st N2Replica \<Rightarrow> 'st N2Replica option" where
  "take_deliver k r =
     (if k < length (nr_deliverChan r) then
        Some (r\<lparr>nr_todo := [(nr_deliverChan r ! k, InDeliver)],
                nr_deliverChan := take k (nr_deliverChan r) @ drop (Suc k) (nr_deliverChan r)\<rparr>)
      else None)"

text \<open>
  One entry of \<open>todo\<close>.  A proposal for a slot that was delivered ends the program.
\<close>

definition run_todo :: "'st treemap \<Rightarrow> 'st N2Replica \<Rightarrow> 'st n2_run option" where
  "run_todo T r =
     (case nr_todo r of
        [] \<Rightarrow> None
      | (slot, m) # todo \<Rightarrow>
          Some (case m of
            InPropose p \<Rightarrow>
              if slot \<in> nr_delivered r then Inl r
              else (case getCmdDesc T slot m r of
                      Inl r \<Rightarrow> Inl r
                    | Inr (True, r) \<Rightarrow> Inr (r\<lparr>nr_lastCmdSlot := nr_lastCmdSlot r + 1, nr_todo := todo\<rparr>)
                    | Inr (False, r) \<Rightarrow> Inr r)
          | _ \<Rightarrow>
              (case getCmdDesc T slot m r of
                 Inl r \<Rightarrow> Inl r
               | Inr (True, r) \<Rightarrow> Inr (r\<lparr>nr_todo := todo\<rparr>)
               | Inr (False, r) \<Rightarrow> Inr r)))"

section \<open>Batcher\<close>

text \<open>
  The loop of the batcher takes everything that waits, as soon as something does, into one message to all
  replicas.
\<close>

definition batch :: "'st N2Replica \<Rightarrow> 'st N2Replica option" where
  "batch r =
     (if nr_twoAs r = [] \<and> nr_twoBs r = [] then None
      else Some (r\<lparr>nr_sent := nr_sent r @ [N2M2sMsg \<lparr>N2M2s_TwoAs = nr_twoAs r, N2M2s_TwoBs = nr_twoBs r\<rparr>],
                   nr_twoAs := [], nr_twoBs := []\<rparr>))"

section \<open>The system\<close>

datatype n2_action =
    TakePropose int GPropose
  | TakeDeliver int nat
  | TakeMsg int int nat \<comment> \<open>from a replica, the position of the message among those it sent\<close>
  | RunTodo int
  | HandleDesc int int
  | Batch int

type_synonym 'st n2_system = "int \<Rightarrow> 'st n2_run"

definition of_run :: "'st n2_run \<Rightarrow> 'st N2Replica" where
  "of_run x = (case x of Inl r \<Rightarrow> r | Inr r \<Rightarrow> r)"

lemma n2_of_run_simps [simp]: "of_run (Inl r) = r" "of_run (Inr r) = r"
  by (simp_all add: of_run_def)

definition idle :: "'st N2Replica \<Rightarrow> bool" where
  "idle r \<longleftrightarrow> nr_todo r = []"

fun n2_step :: "'st treemap \<Rightarrow> 'st n2_system \<Rightarrow> n2_action \<Rightarrow> int \<times> ('st N2Replica \<Rightarrow> 'st n2_run option)" where
  "n2_step T S (TakePropose p prop) = (p, \<lambda>r. if idle r then Some (Inr (take_propose prop r)) else None)"
| "n2_step T S (TakeDeliver p k) = (p, \<lambda>r. if idle r then map_option Inr (take_deliver k r) else None)"
| "n2_step T S (TakeMsg p q k) = (p, \<lambda>r. if idle r \<and> p \<noteq> q \<and> k < length (nr_sent (of_run (S q)))
     then Some (Inr (take_msg (nr_sent (of_run (S q)) ! k) r)) else None)"
| "n2_step T S (RunTodo p) = (p, run_todo T)"
| "n2_step T S (HandleDesc p slot) = (p, handleDesc T slot)"
| "n2_step T S (Batch p) = (p, \<lambda>r. map_option Inr (batch r))"

definition n2_act :: "'st treemap \<Rightarrow> n2_action \<Rightarrow> 'st n2_system \<Rightarrow> 'st n2_system option" where
  "n2_act T a S =
     (let (p, f) = n2_step T S a
      in case S p of Inl r \<Rightarrow> None | Inr r \<Rightarrow> map_option (\<lambda>x. S(p := x)) (f r))"

fun n2_acts :: "'st treemap \<Rightarrow> n2_action list \<Rightarrow> 'st n2_system \<Rightarrow> 'st n2_system option" where
  "n2_acts T [] S = Some S"
| "n2_acts T (a # as) S = (case n2_act T a S of None \<Rightarrow> None | Some S \<Rightarrow> n2_acts T as S)"

definition NewN2System :: "int \<Rightarrow> bool \<Rightarrow> int \<Rightarrow> int option \<Rightarrow> 'st \<Rightarrow> 'st n2_system" where
  "NewN2System n exec pl leader st p = Inr (NewN2Replica p n exec pl leader st)"

end
