(* ===== verification/N2PaxosSystem.thy ===== *)
theory N2PaxosSystem
  imports N2Paxos
begin

text \<open>
  The system of N2Paxos replicas: what holds of every replica under every schedule of its goroutines and of the
  network, agreement, and a run in which the leader answers too early.
\<close>

section \<open>Reachable systems\<close>

inductive n2_reachable :: "'st treemap \<Rightarrow> 'st n2_system \<Rightarrow> 'st n2_system \<Rightarrow> bool" for T S0 where
  start: "n2_reachable T S0 S0"
| act: "n2_reachable T S0 S \<Longrightarrow> n2_act T a S = Some S' \<Longrightarrow> n2_reachable T S0 S'"

section \<open>Invariant\<close>

text \<open>The messages of the two kinds that a replica has given to its batcher so far.\<close>

fun msg_2As :: "n2paxos_msg \<Rightarrow> N2M2A set" where
  "msg_2As (N2M2AMsg m) = {m}"
| "msg_2As (N2M2sMsg m) = set (N2M2s_TwoAs m)"
| "msg_2As m = {}"

fun msg_2Bs :: "n2paxos_msg \<Rightarrow> N2M2B set" where
  "msg_2Bs (N2M2BMsg m) = {m}"
| "msg_2Bs (N2M2sMsg m) = set (N2M2s_TwoBs m)"
| "msg_2Bs m = {}"

definition given_2As :: "'st N2Replica \<Rightarrow> N2M2A set" where
  "given_2As r = set (nr_twoAs r) \<union> \<Union> (msg_2As ` set (nr_sent r))"

definition given_2Bs :: "'st N2Replica \<Rightarrow> N2M2B set" where
  "given_2Bs r = set (nr_twoBs r) \<union> \<Union> (msg_2Bs ` set (nr_sent r))"

text \<open>\<open>A\<close> and \<open>B\<close> are the messages that all replicas have given; a slot is chosen when a majority has voted for it.\<close>

definition chosen :: "int \<Rightarrow> N2M2B set \<Rightarrow> int \<Rightarrow> bool" where
  "chosen n B s \<longleftrightarrow> (\<exists>V. finite V \<and> Size (NewMajorityOf n) \<le> int (card V) \<and>
     (\<forall>q \<in> V. \<exists>m \<in> B. N2M2B_Replica m = q \<and> N2M2B_CmdSlot m = s))"

fun in_ok :: "bool \<Rightarrow> N2M2A set \<Rightarrow> N2M2B set \<Rightarrow> n2_in \<Rightarrow> bool" where
  "in_ok lead A B (InPropose p) = lead"
| "in_ok lead A B (In2A m) = (m \<in> A)"
| "in_ok lead A B (In2B m) = (m \<in> B)"
| "in_ok lead A B _ = True"

fun is_slot :: "n2_in \<Rightarrow> bool" where
  "is_slot (InSlot h) = True"
| "is_slot _ = False"

definition votes_ok :: "int \<Rightarrow> N2M2B set \<Rightarrow> int \<Rightarrow> N2M2B msgset \<Rightarrow> bool" where
  "votes_ok n B s ms \<longleftrightarrow> ms_q ms = NewMajorityOf n \<and> ms_leaderMsg ms = None \<and> distinct (map fst (ms_msgs ms)) \<and>
     (\<forall>(q, m) \<in> set (ms_msgs ms). N2M2B_Replica m = q \<and> N2M2B_CmdSlot m = s \<and> m \<in> B)"

definition desc_ok :: "int \<Rightarrow> bool \<Rightarrow> N2M2A set \<Rightarrow> N2M2B set \<Rightarrow> bool \<Rightarrow> int \<Rightarrow> n2_desc \<Rightarrow> bool" where
  "desc_ok n lead A B done s d \<longleftrightarrow>
     nd_cmdSlot d = s \<and>
     (has_payload d \<longrightarrow> (\<exists>m \<in> A. N2M2A_CmdSlot m = s \<and> N2M2A_Cmd m = nd_cmd d)) \<and>
     (lead \<and> (\<exists>m \<in> A. N2M2A_CmdSlot m = s) \<longrightarrow> nd_propose d \<noteq> None) \<and>
     (\<exists>ms. nd_twoBs d = Some ms \<and> votes_ok n B s ms) \<and>
     (nd_phase d = COMMIT \<longrightarrow> chosen n B s) \<and>
     (\<forall>m \<in> set (nd_msgs d). in_ok lead A B m) \<and>
     length (filter is_slot (nd_msgs d)) \<le> (if done \<and> \<not> nd_seq d then 1 else 0)"

definition executed_ok :: "'st treemap \<Rightarrow> 'st \<Rightarrow> N2M2A set \<Rightarrow> 'st N2Replica \<Rightarrow> bool" where
  "executed_ok T st A r \<longleftrightarrow> (\<exists>log. nr_delivered r = {0..<int (length log)} \<and> nr_State r = final T log st \<and>
     (\<forall>i < length log. \<exists>m \<in> A. N2M2A_CmdSlot m = int i \<and> N2M2A_Cmd m = log ! i))"

definition given_ok :: "int \<Rightarrow> 'st N2Replica \<Rightarrow> bool" where
  "given_ok p r \<longleftrightarrow> nr_Id r = p \<and> (\<forall>m \<in> given_2Bs r. N2M2B_Replica m = p)"

definition sets_ok :: "N2M2A set \<Rightarrow> N2M2B set \<Rightarrow> bool" where
  "sets_ok A B \<longleftrightarrow> inj_on N2M2A_CmdSlot A \<and> (\<forall>m \<in> A. 0 \<le> N2M2A_CmdSlot m) \<and> (\<forall>m \<in> B. 0 \<le> N2M2B_CmdSlot m)"

definition slots_ok :: "'st N2Replica \<Rightarrow> bool" where
  "slots_ok r \<longleftrightarrow> 0 \<le> nr_lastCmdSlot r \<and> (\<forall>c s. nr_slots r c = Some s \<longrightarrow> 0 \<le> s) \<and>
     (\<forall>s \<in> set (nr_deliverChan r). 0 \<le> s)"

definition queues_ok :: "bool \<Rightarrow> N2M2A set \<Rightarrow> N2M2B set \<Rightarrow> 'st N2Replica \<Rightarrow> bool" where
  "queues_ok lead A B r \<longleftrightarrow>
     (\<forall>(s, m) \<in> set (nr_todo r). 0 \<le> s \<and> in_ok lead A B m \<and> \<not> is_slot m) \<and>
     (\<forall>d \<in> set (nr_descPool r). \<forall>m \<in> set (nd_msgs d). in_ok lead A B m \<and> \<not> is_slot m)"

definition rep_ok :: "'st treemap \<Rightarrow> 'st \<Rightarrow> int \<Rightarrow> int \<Rightarrow> N2M2A set \<Rightarrow> N2M2B set \<Rightarrow> int \<Rightarrow> 'st N2Replica \<Rightarrow> bool" where
  "rep_ok T st n L A B p r \<longleftrightarrow>
     given_ok p r \<and> given_2As r \<subseteq> A \<and> given_2Bs r \<subseteq> B \<and> nr_isLeader r = (p = L) \<and> nr_AQ r = NewMajorityOf n \<and>
     executed_ok T st A r \<and> (p \<noteq> L \<longrightarrow> (\<forall>s \<in> nr_delivered r. chosen n B s)) \<and> slots_ok r \<and> queues_ok (p = L) A B r"

text \<open>A descriptor in the hands of a handler, with its replica.\<close>

definition held :: "'st treemap \<Rightarrow> 'st \<Rightarrow> int \<Rightarrow> int \<Rightarrow> N2M2A set \<Rightarrow> N2M2B set \<Rightarrow> int \<Rightarrow> int \<Rightarrow> n2_desc \<times> 'st N2Replica \<Rightarrow> bool" where
  "held T st n L A B p s = (\<lambda>(d, r). 0 \<le> s \<and> rep_ok T st n L A B p r \<and> desc_ok n (p = L) A B (s \<in> nr_delivered r) s d \<and>
     (\<not> nd_active d \<longrightarrow> s \<in> nr_delivered r \<and> filter is_slot (nd_msgs d) = []))"

definition frame :: "int \<Rightarrow> 'st N2Replica \<Rightarrow> 'st N2Replica \<Rightarrow> bool" where
  "frame s r r' \<longleftrightarrow> nr_cmdDescs r' = nr_cmdDescs r \<and> nr_delivered r \<subseteq> nr_delivered r' \<and>
     nr_delivered r' \<subseteq> insert s (nr_delivered r)"

text \<open>What a handler leaves.\<close>

definition handled_ok :: "'st treemap \<Rightarrow> 'st \<Rightarrow> int \<Rightarrow> int \<Rightarrow> N2M2A set \<Rightarrow> N2M2B set \<Rightarrow> int \<Rightarrow> int \<Rightarrow> 'st N2Replica \<Rightarrow> 'st n2_handled \<Rightarrow> bool" where
  "handled_ok T st n L A B p s r0 x \<longleftrightarrow>
     (case x of
        Inl r \<Rightarrow> given_ok p r \<and> given_2As r \<subseteq> A \<and> given_2Bs r \<subseteq> B
      | Inr (d, r) \<Rightarrow> held T st n L A B p s (d, r) \<and> frame s r0 r)"

lemmas held_defs = held_def rep_ok_def desc_ok_def executed_ok_def given_ok_def given_2As_def given_2Bs_def
  slots_ok_def queues_ok_def

lemma frame_refl [simp]: "frame s r r"
  by (auto simp: frame_def)

lemma frame_trans: "frame s r r' \<Longrightarrow> frame s r' r'' \<Longrightarrow> frame s r r''"
  by (auto simp: frame_def)

lemma await_slot_append:
  assumes "filter is_slot ms = []"
  shows "await_slot (ms @ [InSlot h]) = (h, [])"
  using assms by (induction ms rule: await_slot.induct) auto

lemma executed_ok_same: "nr_delivered r' = nr_delivered r \<Longrightarrow> nr_State r' = nr_State r \<Longrightarrow> executed_ok T st A r' = executed_ok T st A r"
  by (simp add: executed_ok_def)

lemma handleSlot_ok:
  assumes "held T st n L A B p s (d, r)" "s \<in> nr_delivered r" "filter is_slot (nd_msgs d) = []"
  shows "handled_ok T st n L A B p s r (handleSlot h s (d, r))"
  using assms by (auto simp: handleSlot_def handled_ok_def held_defs has_payload_def frame_def)

definition same_given :: "'st N2Replica \<Rightarrow> 'st N2Replica \<Rightarrow> bool" where
  "same_given r r' \<longleftrightarrow> nr_Id r' = nr_Id r \<and> nr_twoAs r' = nr_twoAs r \<and> nr_twoBs r' = nr_twoBs r \<and> nr_sent r' = nr_sent r"

lemma executed_ok_step:
  assumes "executed_ok T st A r" "s \<notin> nr_delivered r" "0 \<le> s" "s = 0 \<or> s - 1 \<in> nr_delivered r"
    "m \<in> A" "N2M2A_CmdSlot m = s" "Execute T (N2M2A_Cmd m) (nr_State r) = Some (v, st')"
    "nr_delivered r' = insert s (nr_delivered r)" "nr_State r' = st'"
  shows "executed_ok T st A r'"
proof -
  obtain log where log: "nr_delivered r = {0..<int (length log)}" "nr_State r = final T log st"
      "\<And>i. i < length log \<Longrightarrow> \<exists>m \<in> A. N2M2A_CmdSlot m = int i \<and> N2M2A_Cmd m = log ! i"
    using assms(1) unfolding executed_ok_def by blast
  have s: "s = int (length log)" using assms(2-4) log(1) by auto
  have st: "st' = final T (log @ [N2M2A_Cmd m]) st"
    using assms(7) log(2) by (simp add: Execute_eq final_append split: if_splits)
  have "\<exists>m' \<in> A. N2M2A_CmdSlot m' = int i \<and> N2M2A_Cmd m' = (log @ [N2M2A_Cmd m]) ! i"
    if "i < length (log @ [N2M2A_Cmd m])" for i
    using that log(3) [of i] assms(5,6) s by (cases "i = length log") (auto simp: nth_append)
  then show ?thesis
    unfolding executed_ok_def using st assms(8,9) log(1) s
    by (intro exI [of _ "log @ [N2M2A_Cmd m]"]) auto
qed

lemma execute_now_ok:
  assumes h: "held T st n L A B p s (d, r)" and pay: "has_payload d" and new: "s \<notin> nr_delivered r"
    and com: "nd_phase d = COMMIT \<or> nr_isLeader r" and next_slot: "s \<le> 0 \<or> s - 1 \<in> nr_delivered r"
    and pr: "nd_propose d \<noteq> None"
  shows "handled_ok T st n L A B p s r (execute_now T s prp (d, r))"
proof (cases "Execute T (nd_cmd d) (nr_State r)")
  case None
  then show ?thesis using h by (auto simp: execute_now_def handled_ok_def held_defs)
next
  case (Some vs)
  obtain v st' where vs: "Execute T (nd_cmd d) (nr_State r) = Some (v, st')" using Some by (cases vs) auto
  define r1 where "r1 = r\<lparr>nr_delivered := insert s (nr_delivered r), nr_State := st', nr_deliverChan := nr_deliverChan r @ [s + 1]\<rparr>"
  obtain m where m: "m \<in> A" "N2M2A_CmdSlot m = s" "N2M2A_Cmd m = nd_cmd d"
    using h pay by (auto simp: held_def desc_ok_def)
  have ex: "executed_ok T st A r1"
    by (rule executed_ok_step [of T st A r s m v st'])
      (use h m vs new next_slot in \<open>auto simp: held_def rep_ok_def r1_def\<close>)
  have ch: "p \<noteq> L \<Longrightarrow> chosen n B s" using com h by (auto simp: held_def desc_ok_def rep_ok_def)
  have no_slot: "filter is_slot (nd_msgs d) = []" using h new by (auto simp: held_def desc_ok_def)
  have act: "nd_active d" using h new by (auto simp: held_def)
  have r1: "rep_ok T st n L A B p r1" "frame s r r1" "s \<in> nr_delivered r1"
    using h ex ch by (auto simp: held_defs r1_def frame_def)
  define r2 where "r2 = (if GPropose_Proxy prp \<and> nr_Dreply r1
      then ReplyProposeTS prp \<lparr>ProposeReplyTS_OK = 1, ProposeReplyTS_CommandId = Propose_CommandId prp,
             ProposeReplyTS_Value = v, ProposeReplyTS_Timestamp = Propose_Timestamp prp\<rparr> r1
      else r1)"
  have r2: "rep_ok T st n L A B p r2" "frame s r r2" "s \<in> nr_delivered r2"
    using r1 by (auto simp: r2_def ReplyProposeTS_def held_defs frame_def)
  have eq: "execute_now T s prp (d, r) =
      (if MSGS_SIZE \<le> length (nd_msgs d) then (if nd_seq d then Inl r1 else Inr (d\<lparr>nd_blocked := True\<rparr>, r1))
       else if nd_seq d then handleSlot s s (d\<lparr>nd_msgs := []\<rparr>, r2)
       else Inr (d\<lparr>nd_msgs := nd_msgs d @ [InSlot s]\<rparr>, r2))"
    using vs by (simp add: execute_now_def Let_def r1_def r2_def await_slot_append [OF no_slot] del: filter.simps)
  have d: "desc_ok n (p = L) A B True s d" "0 \<le> s"
    using h no_slot by (auto simp: held_def desc_ok_def)
  have held1: "held T st n L A B p s (d\<lparr>nd_blocked := True\<rparr>, r1)"
    using d r1 act by (simp add: held_def desc_ok_def has_payload_def)
  have held2: "held T st n L A B p s (d\<lparr>nd_msgs := ms\<rparr>, r2)"
    if "ms = [] \<or> \<not> nd_seq d \<and> ms = nd_msgs d @ [InSlot s]" for ms
    using that d r2 act no_slot by (auto simp: held_def desc_ok_def has_payload_def)
  have "handled_ok T st n L A B p s r2 (handleSlot s s (d\<lparr>nd_msgs := []\<rparr>, r2))"
    by (rule handleSlot_ok) (use held2 r2(3) in auto)
  then have "handled_ok T st n L A B p s r (handleSlot s s (d\<lparr>nd_msgs := []\<rparr>, r2))"
    using r2(2) by (auto simp: handled_ok_def intro: frame_trans split: sum.splits)
  then show ?thesis
    using held1 held2 r1 r2 by (auto simp: eq handled_ok_def rep_ok_def)
qed

lemma deliver_now_ok:
  assumes h: "held T st n L A B p s (d, r)" and pay: "has_payload d"
  shows "handled_ok T st n L A B p s r (deliver_now T s (d, r))"
proof -
  let ?d = "case nr_proposes r (nd_cmdId d) of Some p \<Rightarrow> d\<lparr>nd_propose := Some p\<rparr> | None \<Rightarrow> d"
  have d: "held T st n L A B p s (?d, r)" "has_payload ?d" "nd_phase ?d = nd_phase d"
    using h pay by (auto simp: held_def desc_ok_def has_payload_def split: option.split)
  show ?thesis
    using h d execute_now_ok [OF d(1,2)]
    by (auto simp: deliver_now_def Let_def handled_ok_def not_less split: option.split)
qed

lemma handled_ok_frame:
  "frame s r r' \<Longrightarrow> handled_ok T st n L A B p s r' x \<Longrightarrow> handled_ok T st n L A B p s r x"
  by (auto simp: handled_ok_def intro: frame_trans split: sum.splits)

lemma deliver_now_payload:
  "deliver_now T s (d, r) = Inr (d', r') \<Longrightarrow> has_payload d' = has_payload d"
  by (auto simp: deliver_now_def execute_now_def handleSlot_def has_payload_def Let_def
      split: if_splits option.splits prod.splits)

lemma deliver_times_ok:
  assumes "held T st n L A B p s (d, r)" "has_payload d"
  shows "handled_ok T st n L A B p s r (deliver_times T s k (d, r))"
  using assms
proof (induction k arbitrary: d r)
  case 0
  then show ?case by (simp add: handled_ok_def)
next
  case (Suc k)
  have now: "handled_ok T st n L A B p s r (deliver_now T s (d, r))" by (rule deliver_now_ok) fact+
  show ?case
  proof (cases "deliver_now T s (d, r)")
    case (Inl r')
    then show ?thesis using now by (simp add: handled_ok_def)
  next
    case (Inr x)
    obtain d' r' where x: "x = (d', r')" by (cases x)
    have "held T st n L A B p s (d', r')" "frame s r r'" "has_payload d'"
      using now deliver_now_payload [of T s d r d' r'] Suc.prems Inr x by (auto simp: handled_ok_def)
    then show ?thesis using Suc.IH [of d' r'] handled_ok_frame Inr x by simp
  qed
qed

lemma held_afterPayload [simp]:
  "held T st n L A B p s (d\<lparr>nd_afterPayload := k\<rparr>, r) = held T st n L A B p s (d, r)"
  by (simp add: held_def desc_ok_def has_payload_def)

lemma run_waiting_ok:
  assumes "held T st n L A B p s (d, r)" "has_payload d"
  shows "handled_ok T st n L A B p s r (run_waiting T s k (d, r))"
  using deliver_times_ok [OF assms, of k]
  by (auto simp: run_waiting_def handled_ok_def split: sum.splits)

lemma deliver_ok:
  assumes "held T st n L A B p s (d, r)"
  shows "handled_ok T st n L A B p s r (deliver T s (d, r))"
proof (cases "has_payload d")
  case True
  then show ?thesis using run_waiting_ok [OF assms] by (simp add: deliver_def)
next
  case False
  then show ?thesis using assms by (simp add: deliver_def handled_ok_def)
qed

lemma recall_payload_ok:
  assumes "held T st n L A B p s (d, r)"
  shows "handled_ok T st n L A B p s r (recall_payload T s (d, r))"
  using run_waiting_ok [OF assms] assms by (auto simp: recall_payload_def handled_ok_def)

lemma chosen_mono: "chosen n B s \<Longrightarrow> B \<subseteq> B' \<Longrightarrow> chosen n B' s"
  unfolding chosen_def by (meson subsetD)

lemma votes_ok_mono: "votes_ok n B s ms \<Longrightarrow> B \<subseteq> B' \<Longrightarrow> votes_ok n B' s ms"
  unfolding votes_ok_def by blast

lemma in_ok_mono: "in_ok lead A B m \<Longrightarrow> A \<subseteq> A' \<Longrightarrow> B \<subseteq> B' \<Longrightarrow> in_ok lead A' B' m"
  by (cases m) auto

lemma executed_ok_mono: "executed_ok T st A r \<Longrightarrow> A \<subseteq> A' \<Longrightarrow> executed_ok T st A' r"
  unfolding executed_ok_def by blast

lemma queues_ok_mono: "queues_ok lead A B r \<Longrightarrow> A \<subseteq> A' \<Longrightarrow> B \<subseteq> B' \<Longrightarrow> queues_ok lead A' B' r"
  unfolding queues_ok_def using in_ok_mono [of lead A B _ A' B'] by fast

lemma rep_ok_mono:
  assumes "rep_ok T st n L A B p r" "A \<subseteq> A'" "B \<subseteq> B'"
  shows "rep_ok T st n L A' B' p r"
  using assms unfolding rep_ok_def
  by (meson executed_ok_mono queues_ok_mono chosen_mono subset_trans)

lemma desc_ok_mono:
  assumes "desc_ok n lead A B dn s d" "A \<subseteq> A'" "B \<subseteq> B'"
    "lead \<Longrightarrow> \<exists>m \<in> A' - A. N2M2A_CmdSlot m = s \<Longrightarrow> nd_propose d \<noteq> None"
  shows "desc_ok n lead A' B' dn s d"
proof -
  have "\<exists>m \<in> A'. N2M2A_CmdSlot m = s \<and> N2M2A_Cmd m = nd_cmd d" if "has_payload d"
    using assms(1,2) that unfolding desc_ok_def by blast
  moreover have "nd_propose d \<noteq> None" if "lead" "\<exists>m \<in> A'. N2M2A_CmdSlot m = s"
    using assms(1,4) that unfolding desc_ok_def by blast
  ultimately show ?thesis
    using assms(1-3) unfolding desc_ok_def
    by (auto intro: votes_ok_mono [of n B] chosen_mono [of n B] in_ok_mono [of lead A B])
qed

lemma chosen_of_call:
  assumes "votes_ok n B s ms" "call (fst (Add (\<lambda>_ _. True) q False m ms)) \<noteq> None"
    and v: "votes_ok n B s (snd (Add (\<lambda>_ _. True) q False m ms))"
  shows "chosen n B s"
proof -
  let ?ms = "snd (Add (\<lambda>_ _. True) q False m ms)"
  have "Size (NewMajorityOf n) \<le> int (length (ms_msgs ?ms))"
    using assms(1,2) by (auto simp: Add_def votes_ok_def NewMajorityOf_def Let_def split: if_splits)
  moreover have "card (set (map fst (ms_msgs ?ms))) = length (ms_msgs ?ms)"
    using v distinct_card by (fastforce simp: votes_ok_def)
  moreover have "\<exists>m \<in> B. N2M2B_Replica m = q \<and> N2M2B_CmdSlot m = s" if "q \<in> set (map fst (ms_msgs ?ms))" for q
    using v that unfolding votes_ok_def by fastforce
  ultimately show ?thesis unfolding chosen_def by (intro exI [of _ "set (map fst (ms_msgs ?ms))"]) simp
qed

subsection \<open>What the handlers send\<close>

definition rep_of :: "'st n2_handled \<Rightarrow> 'st N2Replica" where
  "rep_of x = (case x of Inl r \<Rightarrow> r | Inr (d, r) \<Rightarrow> r)"

definition out :: "'st N2Replica \<Rightarrow> int \<times> N2M2A list \<times> N2M2B list \<times> n2paxos_msg list" where
  "out r = (nr_Id r, nr_twoAs r, nr_twoBs r, nr_sent r)"

lemma rep_of_simps [simp]: "rep_of (Inl r) = r" "rep_of (Inr (d, r)) = r"
  by (simp_all add: rep_of_def)

lemma out_handleSlot: "out (rep_of (handleSlot h s (d, r))) = out r"
  by (simp add: handleSlot_def out_def)

lemma out_execute_now: "out (rep_of (execute_now T s p (d, r))) = out r"
proof (cases "Execute T (nd_cmd d) (nr_State r)")
  case None
  then show ?thesis by (simp add: execute_now_def out_def)
next
  case (Some x)
  obtain h ms where aw: "await_slot (nd_msgs d @ [InSlot s]) = (h, ms)" by (cases "await_slot (nd_msgs d @ [InSlot s])")
  from Some aw show ?thesis
    by (cases x) (auto simp: execute_now_def out_def ReplyProposeTS_def handleSlot_def Let_def)
qed

lemma out_deliver_now: "out (rep_of (deliver_now T s (d, r))) = out r"
  by (simp add: deliver_now_def out_execute_now Let_def split: option.split)

lemma out_deliver_times: "out (rep_of (deliver_times T s k x)) = out (snd x)"
proof (induction k arbitrary: x)
  case 0
  then show ?case by (cases x) simp
next
  case (Suc k)
  obtain d r where x: "x = (d, r)" by (cases x)
  show ?case
    using out_deliver_now [of T s d r] Suc.IH by (auto simp: x split: sum.split)
qed

lemma out_run_waiting: "out (rep_of (run_waiting T s k (d, r))) = out r"
  using out_deliver_times [of T s k "(d, r)"] by (auto simp: run_waiting_def split: sum.split)

lemma out_deliver: "out (rep_of (deliver T s (d, r))) = out r"
  by (simp add: deliver_def out_run_waiting)

lemma out_recall: "out (rep_of (recall_payload T s (d, r))) = out r"
  by (simp add: recall_payload_def out_run_waiting)

lemma out_handle2B: "out (rep_of (handle2B T m (d, r))) = out r"
  by (simp add: handle2B_def out_deliver split_beta Let_def split: option.split)

lemma given_out: "out r = out r' \<Longrightarrow> given_2As r = given_2As r'" "out r = out r' \<Longrightarrow> given_2Bs r = given_2Bs r'"
  by (simp_all add: out_def given_2As_def given_2Bs_def)

subsection \<open>Votes and proposals\<close>

lemma set_update: "set (AList.update k v al) \<subseteq> insert (k, v) (set al)"
  by (induction al) auto

lemma votes_ok_Add:
  assumes "votes_ok n B s ms" "m \<in> B" "N2M2B_CmdSlot m = s"
  shows "votes_ok n B s (snd (Add (\<lambda>_ _. True) (N2M2B_Replica m) False m ms))"
  using assms set_update [of "N2M2B_Replica m" m "ms_msgs ms"]
  by (auto simp: votes_ok_def Add_def NewMajorityOf_def Let_def distinct_update) 

lemma handle2B_ok:
  assumes h: "held T st n L A B p s (d, r)" and m: "m \<in> B" "N2M2B_CmdSlot m = s"
  shows "handled_ok T st n L A B p s r (handle2B T m (d, r))"
proof (cases "nr_status r \<noteq> NORMAL \<or> nr_ballot r \<noteq> N2M2B_Ballot m")
  case True
  then show ?thesis using h by (auto simp: handle2B_def handled_ok_def)
next
  case False
  obtain ms where ms: "nd_twoBs d = Some ms" "votes_ok n B s ms" using h by (auto simp: held_def desc_ok_def)
  let ?a = "Add (\<lambda>_ _. True) (N2M2B_Replica m) False m ms"
  have v: "votes_ok n B s (snd ?a)" by (rule votes_ok_Add) fact+
  have d: "held T st n L A B p s (d\<lparr>nd_twoBs := Some (snd ?a)\<rparr>, r)"
    using h v by (auto simp: held_def desc_ok_def has_payload_def)
  show ?thesis
  proof (cases "call (fst ?a)")
    case None
    then show ?thesis using False ms d by (simp add: handle2B_def split_beta Let_def handled_ok_def)
  next
    case (Some c)
    have "chosen n B s" using chosen_of_call [OF ms(2) _ v] Some by simp
    then have "held T st n L A B p s (d\<lparr>nd_twoBs := Some (snd ?a), nd_phase := COMMIT\<rparr>, r)"
      using d by (auto simp: held_def desc_ok_def has_payload_def)
    from deliver_ok [OF this] show ?thesis
      using False ms Some h by (simp add: handle2B_def split_beta Let_def held_def desc_ok_def)
  qed
qed

lemma held_mono:
  assumes "held T st n L A B p s (d, r)" "A \<subseteq> A'" "B \<subseteq> B'"
    "p = L \<Longrightarrow> \<exists>m \<in> A' - A. N2M2A_CmdSlot m = s \<Longrightarrow> nd_propose d \<noteq> None"
  shows "held T st n L A' B' p s (d, r)"
  using assms rep_ok_mono [of T st n L A B p r A' B'] desc_ok_mono [of n "p = L" A B _ s d A' B']
  by (simp add: held_def)

text \<open>A handler that sends extends the sets of messages.\<close>

definition sends_ok :: "'st treemap \<Rightarrow> 'st \<Rightarrow> int \<Rightarrow> int \<Rightarrow> N2M2A set \<Rightarrow> N2M2B set \<Rightarrow> int \<Rightarrow> int \<Rightarrow> 'st N2Replica \<Rightarrow> 'st n2_handled \<Rightarrow> bool" where
  "sends_ok T st n L A B p s r x \<longleftrightarrow>
     (let A' = A \<union> given_2As (rep_of x); B' = B \<union> given_2Bs (rep_of x)
      in handled_ok T st n L A' B' p s r x \<and> sets_ok A' B' \<and> (p \<noteq> L \<longrightarrow> A' = A) \<and>
         (\<forall>m \<in> A' - A. N2M2A_CmdSlot m = s))"

lemma sends_ok_same:
  assumes "handled_ok T st n L A B p s r x" "sets_ok A B"
  shows "sends_ok T st n L A B p s r x"
proof -
  have "given_2As (rep_of x) \<subseteq> A" "given_2Bs (rep_of x) \<subseteq> B"
    using assms(1) by (auto simp: handled_ok_def held_def rep_ok_def split: sum.splits)
  then have "A \<union> given_2As (rep_of x) = A" "B \<union> given_2Bs (rep_of x) = B" by auto
  then show ?thesis using assms by (simp add: sends_ok_def)
qed

lemma rep_ok_slots:
  assumes "rep_ok T st n L A B p r" "0 \<le> s"
  shows "rep_ok T st n L A B p (r\<lparr>nr_slots := (nr_slots r)(c \<mapsto> s)\<rparr>)"
  using assms by (auto simp: held_defs)

lemma given_2B [simp]:
  "given_2Bs (r\<lparr>nr_twoBs := nr_twoBs r @ [m]\<rparr>) = insert m (given_2Bs r)"
  "given_2As (r\<lparr>nr_twoBs := b\<rparr>) = given_2As r"
  "given_2As (r\<lparr>nr_twoAs := nr_twoAs r @ [a]\<rparr>) = insert a (given_2As r)"
  "given_2Bs (r\<lparr>nr_twoAs := as\<rparr>) = given_2Bs r"
  "given_2As (r\<lparr>nr_slots := sl\<rparr>) = given_2As r"
  "given_2Bs (r\<lparr>nr_slots := sl\<rparr>) = given_2Bs r"
  by (auto simp: given_2As_def given_2Bs_def)

lemma rep_ok_send_2B:
  assumes "rep_ok T st n L A B p r" "N2M2B_Replica m = p"
  shows "rep_ok T st n L A (insert m B) p (r\<lparr>nr_twoBs := nr_twoBs r @ [m]\<rparr>)"
proof -
  have "rep_ok T st n L A (insert m B) p r" by (rule rep_ok_mono [OF assms(1)]) auto
  then show ?thesis using assms(2)
    by (simp add: rep_ok_def given_ok_def executed_ok_def slots_ok_def queues_ok_def)
qed

lemma handle2A_ok:
  assumes h: "held T st n L A B p s (d, r)" and m: "m \<in> A" "N2M2A_CmdSlot m = s" and so: "sets_ok A B"
  shows "sends_ok T st n L A B p s r (handle2A T m (d, r))"
proof (cases "nr_status r \<noteq> NORMAL \<or> nr_ballot r \<noteq> N2M2A_Ballot m")
  case True
  then show ?thesis using h so by (intro sends_ok_same) (auto simp: handle2A_def handled_ok_def)
next
  case False
  let ?d = "d\<lparr>nd_cmd := N2M2A_Cmd m, nd_cmdId := N2M2A_CmdId m, nd_cmdSlot := s\<rparr>"
  let ?r = "r\<lparr>nr_slots := (nr_slots r)(N2M2A_CmdId m \<mapsto> s)\<rparr>"
  have s: "0 \<le> s" using h by (simp add: held_def)
  have d: "desc_ok n (p = L) A B dn s ?d" if "desc_ok n (p = L) A B dn s d" for dn
    using that m by (auto simp: desc_ok_def)
  have h1: "held T st n L A B p s (?d, ?r)"
    using h d s by (simp add: held_def rep_ok_slots)
  show ?thesis
  proof (cases "Contains (nr_AQ r) (nr_Id r)")
    case False': False
    have "frame s r ?r" by (simp add: frame_def subset_insertI)
    then show ?thesis
      using handled_ok_frame [OF _ recall_payload_ok [OF h1]] False False' m(2) so
      by (intro sends_ok_same) (simp_all add: handle2A_def Let_def)
  next
    case True
    define b where "b = \<lparr>N2M2B_Replica = nr_Id r, N2M2B_Ballot = N2M2A_Ballot m, N2M2B_CmdSlot = s\<rparr>"
    let ?r2 = "?r\<lparr>nr_twoBs := nr_twoBs ?r @ [b]\<rparr>"
    have id: "nr_Id r = p" using h by (simp add: held_def rep_ok_def given_ok_def)
    have "rep_ok T st n L A (insert b B) p ?r2"
      by (rule rep_ok_send_2B) (use h1 id in \<open>simp_all add: held_def b_def\<close>)
    moreover have "desc_ok n (p = L) A (insert b B) (s \<in> nr_delivered r) s ?d"
      by (rule desc_ok_mono [of n "p = L" A B]) (use h1 in \<open>auto simp: held_def\<close>)
    ultimately have h2: "held T st n L A (insert b B) p s (?d, ?r2)" using h1 by (simp add: held_def)
    have fr: "frame s r ?r2" by (simp add: frame_def subset_insertI)
    have eq: "handle2A T m (d, r) = handle2B T b (?d, ?r2)"
      using False True m(2) by (simp add: handle2A_def Let_def b_def)
    let ?x = "handle2B T b (?d, ?r2)"
    have ok: "handled_ok T st n L A (insert b B) p s r ?x"
      by (rule handled_ok_frame [OF fr handle2B_ok [OF h2]]) (simp_all add: b_def)
    have g: "given_2As (rep_of ?x) = given_2As r" "given_2Bs (rep_of ?x) = insert b (given_2Bs r)"
      using given_out [OF out_handle2B [of T b ?d ?r2]] by (auto simp: given_2As_def given_2Bs_def)
    have sub: "given_2As r \<subseteq> A" "given_2Bs r \<subseteq> B" using h by (simp_all add: held_def rep_ok_def)
    have AB: "A \<union> given_2As (rep_of ?x) = A" "B \<union> given_2Bs (rep_of ?x) = insert b B"
      using g sub by auto
    show ?thesis using ok so s unfolding eq sends_ok_def AB Let_def by (auto simp: sets_ok_def b_def)
  qed
qed

lemma given_2As_handle2A: "given_2As (rep_of (handle2A T m (d, r))) = given_2As r"
  by (simp add: handle2A_def Let_def given_out(1) [OF out_handle2B] given_out(1) [OF out_recall])

lemma handlePropose_ok:
  assumes h: "held T st n L A B p s (d, r)" and lead: "p = L" and so: "sets_ok A B"
  shows "sends_ok T st n L A B p s r (handlePropose T pr s (d, r))"
proof (cases "nr_status r \<noteq> NORMAL \<or> nd_propose d \<noteq> None")
  case True
  then show ?thesis using h so by (intro sends_ok_same) (auto simp: handlePropose_def handled_ok_def)
next
  case False
  define a where "a = \<lparr>N2M2A_Replica = nr_Id r, N2M2A_Ballot = nr_ballot r, N2M2A_Cmd = Propose_Command pr,
                  N2M2A_CmdId = CommandId (Propose_ClientId pr) (Propose_CommandId pr), N2M2A_CmdSlot = s\<rparr>"
  let ?d = "d\<lparr>nd_propose := Some pr\<rparr>" and ?r = "r\<lparr>nr_twoAs := nr_twoAs r @ [a]\<rparr>"
  have s: "0 \<le> s" using h by (simp add: held_def)
  have new: "\<forall>m \<in> A. N2M2A_CmdSlot m \<noteq> s"
    using h lead False by (auto simp: held_def desc_ok_def)
  have so': "sets_ok (insert a A) B"
    using so new s by (auto simp: sets_ok_def a_def)
  have "rep_ok T st n L (insert a A) B p r" by (rule rep_ok_mono [of T st n L A B]) (use h in \<open>auto simp: held_def\<close>)
  then have "rep_ok T st n L (insert a A) B p ?r"
    by (simp add: rep_ok_def given_ok_def executed_ok_def slots_ok_def queues_ok_def)
  moreover have "desc_ok n (p = L) A B (s \<in> nr_delivered r) s ?d"
    using h by (auto simp: held_def desc_ok_def has_payload_def)
  then have "desc_ok n (p = L) (insert a A) B (s \<in> nr_delivered r) s ?d"
    by (rule desc_ok_mono) auto
  ultimately have h1: "held T st n L (insert a A) B p s (?d, ?r)" using h by (simp add: held_def)
  have fr: "frame s r ?r" by (simp add: frame_def subset_insertI)
  let ?x = "handle2A T a (?d, ?r)"
  have eq: "handlePropose T pr s (d, r) = ?x"
    using False by (simp add: handlePropose_def Let_def a_def)
  have sx: "sends_ok T st n L (insert a A) B p s ?r ?x"
    by (rule handle2A_ok [OF h1 _ _ so']) (simp_all add: a_def)
  have "a \<in> given_2As (rep_of ?x)"
    by (simp add: given_2As_handle2A)
  then have AA: "insert a A \<union> given_2As (rep_of ?x) = A \<union> given_2As (rep_of ?x)" by auto
  show ?thesis
    using sx lead fr unfolding eq sends_ok_def AA Let_def by (auto simp: a_def intro: handled_ok_frame)
qed

lemma handleMsg_ok:
  assumes h: "held T st n L A B p s (d, r)" and so: "sets_ok A B" and m: "in_ok (p = L) A B m"
    and slot: "is_slot m \<Longrightarrow> s \<in> nr_delivered r \<and> filter is_slot (nd_msgs d) = []"
  shows "sends_ok T st n L A B p s r (handleMsg T m s (d, r))"
proof (cases m)
  case (InPropose pr)
  then show ?thesis using handlePropose_ok [OF h _ so] m by simp
next
  case (In2A a)
  show ?thesis
  proof (cases "N2M2A_CmdSlot a = s")
    case True
    then show ?thesis using handle2A_ok [OF h _ _ so] m In2A by simp
  next
    case False
    then show ?thesis using sends_ok_same [OF _ so, of T st n L p s r "Inr (d, r)"] h In2A by (simp add: handled_ok_def)
  qed
next
  case (In2B b)
  have "handled_ok T st n L A B p s r (handleMsg T m s (d, r))"
    using handle2B_ok [OF h] m h In2B by (auto simp: handled_ok_def)
  then show ?thesis by (rule sends_ok_same) fact
next
  case InDeliver
  then show ?thesis using sends_ok_same [OF deliver_ok [OF h] so] by simp
next
  case (InSlot k)
  then show ?thesis using sends_ok_same [OF handleSlot_ok [OF h] so] slot by simp
qed

section \<open>The invariant of a replica\<close>

definition descs_ok :: "int \<Rightarrow> bool \<Rightarrow> N2M2A set \<Rightarrow> N2M2B set \<Rightarrow> 'st N2Replica \<Rightarrow> bool" where
  "descs_ok n lead A B r \<longleftrightarrow>
     (\<forall>s d. nr_cmdDescs r s = Some d \<longrightarrow> 0 \<le> s \<and> nd_active d \<and> desc_ok n lead A B (s \<in> nr_delivered r) s d) \<and>
     (lead \<longrightarrow> (\<forall>m \<in> A. N2M2A_CmdSlot m \<in> nr_delivered r \<or> nr_cmdDescs r (N2M2A_CmdSlot m) \<noteq> None))"

definition n2_inv :: "'st treemap \<Rightarrow> 'st \<Rightarrow> int \<Rightarrow> int \<Rightarrow> N2M2A set \<Rightarrow> N2M2B set \<Rightarrow> int \<Rightarrow> 'st n2_run \<Rightarrow> bool" where
  "n2_inv T st n L A B p x \<longleftrightarrow>
     (case x of
        Inl r \<Rightarrow> given_ok p r \<and> given_2As r \<subseteq> A \<and> given_2Bs r \<subseteq> B
      | Inr r \<Rightarrow> rep_ok T st n L A B p r \<and> descs_ok n (p = L) A B r)"

definition step_ok :: "'st treemap \<Rightarrow> 'st \<Rightarrow> int \<Rightarrow> int \<Rightarrow> N2M2A set \<Rightarrow> N2M2B set \<Rightarrow> int \<Rightarrow> 'st n2_run \<Rightarrow> bool" where
  "step_ok T st n L A B p x \<longleftrightarrow>
     (let A' = A \<union> given_2As (of_run x); B' = B \<union> given_2Bs (of_run x)
      in n2_inv T st n L A' B' p x \<and> sets_ok A' B' \<and> (p \<noteq> L \<longrightarrow> A' = A))"

lemma finish_of: "of_run (finish s x) = rep_of x \<or>
    (\<exists>d r. x = Inr (d, r))"
  by (auto simp: finish_def split: sum.split)

lemma given_finish: "given_2As (of_run (finish s x)) = given_2As (rep_of x)"
    "given_2Bs (of_run (finish s x)) = given_2Bs (rep_of x)"
  by (auto simp: finish_def put_desc_def freeDesc_def given_2As_def given_2Bs_def Let_def split: sum.split)

lemma finish_ok:
  assumes sx: "sends_ok T st n L A B p s r x" and D: "descs_ok n (p = L) A B r"
    and d: "nr_cmdDescs r s \<noteq> None"
  shows "step_ok T st n L A B p (finish s x)"
proof -
  let ?A = "A \<union> given_2As (rep_of x)" and ?B = "B \<union> given_2Bs (rep_of x)"
  have h: "handled_ok T st n L ?A ?B p s r x" "sets_ok ?A ?B" "p \<noteq> L \<Longrightarrow> ?A = A"
      and slot: "\<And>m. m \<in> ?A - A \<Longrightarrow> N2M2A_CmdSlot m = s"
    using sx by (auto simp: sends_ok_def Let_def)
  have "n2_inv T st n L ?A ?B p (finish s x)"
  proof (cases x)
    case (Inl r')
    then show ?thesis using h(1) by (simp add: finish_def n2_inv_def handled_ok_def)
  next
    case (Inr dr)
    obtain d' r' where x: "x = Inr (d', r')" using Inr by (cases dr) auto
    have hd: "held T st n L ?A ?B p s (d', r')" "frame s r r'"
      using h(1) by (simp_all add: x handled_ok_def)
    have other: "desc_ok n (p = L) ?A ?B (s' \<in> nr_delivered r') s' e" "0 \<le> s'" "nd_active e"
      if "nr_cmdDescs r s' = Some e" "s' \<noteq> s" for s' e
    proof -
      have "desc_ok n (p = L) A B (s' \<in> nr_delivered r) s' e" "0 \<le> s'" "nd_active e"
        using D that by (auto simp: descs_ok_def)
      moreover have "s' \<in> nr_delivered r' \<longleftrightarrow> s' \<in> nr_delivered r" using hd(2) that(2) by (auto simp: frame_def)
      moreover have "desc_ok n (p = L) ?A ?B dn s' e" if "desc_ok n (p = L) A B dn s' e" for dn
        by (rule desc_ok_mono [OF that]) (use slot \<open>s' \<noteq> s\<close> in blast)+
      ultimately show "desc_ok n (p = L) ?A ?B (s' \<in> nr_delivered r') s' e" "0 \<le> s'" "nd_active e"
        by simp_all
    qed
    have cd: "nr_cmdDescs r' = nr_cmdDescs r" and del: "nr_delivered r \<subseteq> nr_delivered r'"
      using hd(2) by (auto simp: frame_def)
    show ?thesis
    proof (cases "nd_active d'")
      case True
      have "rep_ok T st n L ?A ?B p (put_desc s d' r')"
        using hd(1) by (simp add: held_defs put_desc_def)
      moreover have "descs_ok n (p = L) ?A ?B (put_desc s d' r')"
        using D hd(1) True other cd del slot
        by (auto simp: descs_ok_def put_desc_def held_def)
      ultimately show ?thesis using True by (simp add: x finish_def n2_inv_def)
    next
      case False
      let ?r = "freeDesc d' (r'\<lparr>nr_cmdDescs := (nr_cmdDescs r')(s := None)\<rparr>)"
      have ms: "s \<in> nr_delivered r'" "\<forall>m \<in> set (nd_msgs d'). in_ok (p = L) ?A ?B m \<and> \<not> is_slot m"
        using hd(1) False by (auto simp: held_def desc_ok_def filter_empty_conv)
      have "rep_ok T st n L ?A ?B p ?r"
        using hd(1) ms by (auto simp: held_defs freeDesc_def)
      moreover have "descs_ok n (p = L) ?A ?B ?r"
        using D hd(1) ms other cd del slot
        by (auto simp: descs_ok_def freeDesc_def)
      ultimately show ?thesis using False by (simp add: x finish_def n2_inv_def Let_def)
    qed
  qed
  then show ?thesis using h by (simp add: step_ok_def given_finish)
qed

lemma step_ok_same:
  assumes "n2_inv T st n L A B p x" "sets_ok A B"
  shows "step_ok T st n L A B p x"
proof -
  have "given_2As (of_run x) \<subseteq> A" "given_2Bs (of_run x) \<subseteq> B"
    using assms(1) by (auto simp: n2_inv_def rep_ok_def split: sum.splits)
  then have "A \<union> given_2As (of_run x) = A" "B \<union> given_2Bs (of_run x) = B" by auto
  then show ?thesis using assms by (simp add: step_ok_def)
qed

lemma step_ok_routine:
  "step_ok T st n L A B p (Inr r) \<Longrightarrow> step_ok T st n L A B p (Inr (r\<lparr>nr_routineCount := k\<rparr>))"
  by (simp add: step_ok_def n2_inv_def descs_ok_def held_defs Let_def)

lemma handleDesc_ok:
  assumes inv: "n2_inv T st n L A B p (Inr r)" and so: "sets_ok A B" and x: "handleDesc T s r = Some x"
  shows "step_ok T st n L A B p x"
proof -
  obtain d m ms where d: "nr_cmdDescs r s = Some d" "nd_msgs d = m # ms"
      "x = (case finish s (handleMsg T m s (d\<lparr>nd_msgs := ms\<rparr>, r)) of Inl r \<Rightarrow> Inl r
            | Inr r \<Rightarrow> Inr (if nr_cmdDescs r s = None then r\<lparr>nr_routineCount := nr_routineCount r - 1\<rparr> else r))"
    using x by (auto simp: handleDesc_def split: option.splits list.splits if_splits)
  have inv': "rep_ok T st n L A B p r" "descs_ok n (p = L) A B r" using inv by (simp_all add: n2_inv_def)
  then have dd: "0 \<le> s" "nd_active d" "desc_ok n (p = L) A B (s \<in> nr_delivered r) s d"
    using d(1) by (auto simp: descs_ok_def)
  have h: "held T st n L A B p s (d\<lparr>nd_msgs := ms\<rparr>, r)"
    using dd inv'(1) d(2) by (auto simp: held_def desc_ok_def has_payload_def split: if_splits)
  have m: "in_ok (p = L) A B m" "is_slot m \<Longrightarrow> s \<in> nr_delivered r \<and> filter is_slot ms = []"
    using dd(3) d(2) by (auto simp: desc_ok_def split: if_splits)
  have "step_ok T st n L A B p (finish s (handleMsg T m s (d\<lparr>nd_msgs := ms\<rparr>, r)))"
    by (rule finish_ok [OF handleMsg_ok [OF h so m(1)] inv'(2)]) (use m(2) d(1) in auto)
  then show ?thesis unfolding d(3) by (cases "finish s (handleMsg T m s (d\<lparr>nd_msgs := ms\<rparr>, r))") (simp_all add: step_ok_routine)
qed

text \<open>A new descriptor.\<close>

lemma rep_ok_routine [simp]: "rep_ok T st n L A B p (r\<lparr>nr_routineCount := k\<rparr>) = rep_ok T st n L A B p r"
  by (simp add: held_defs)

lemma rep_ok_pool:
  "rep_ok T st n L A B p r \<Longrightarrow> set ds \<subseteq> set (nr_descPool r) \<Longrightarrow> rep_ok T st n L A B p (r\<lparr>nr_descPool := ds\<rparr>)"
  unfolding held_defs by (auto 0 3 simp del: in_ok.simps)

lemma allocDesc_ok:
  assumes "rep_ok T st n L A B p r" "allocDesc r = (d, r')"
  shows "rep_ok T st n L A B p r'" "nr_cmdDescs r' = nr_cmdDescs r" "nr_delivered r' = nr_delivered r"
    "\<forall>m \<in> set (nd_msgs d). in_ok (p = L) A B m \<and> \<not> is_slot m"
proof -
  have "rep_ok T st n L A B p r' \<and> nr_cmdDescs r' = nr_cmdDescs r \<and> nr_delivered r' = nr_delivered r \<and>
    (\<forall>m \<in> set (nd_msgs d). in_ok (p = L) A B m \<and> \<not> is_slot m)"
  proof (cases "nr_poolLevel r > 0 \<and> nr_descPool r \<noteq> []")
    case False
    then have "d = zero_desc \<and> r' = r" using assms(2) by (auto simp: allocDesc_def split: if_splits)
    then show ?thesis using assms(1) by (simp add: zero_desc_def)
  next
    case True
    then obtain e ds where "nr_descPool r = e # ds" by (cases "nr_descPool r") auto
    then have r': "nr_descPool r = d # ds" "r' = r\<lparr>nr_descPool := ds\<rparr>"
      using assms(2) True by (simp_all add: allocDesc_def)
    then show ?thesis using assms(1) rep_ok_pool [OF assms(1), of ds] by (auto simp: rep_ok_def queues_ok_def)
  qed
  then show "rep_ok T st n L A B p r'" "nr_cmdDescs r' = nr_cmdDescs r" "nr_delivered r' = nr_delivered r"
    "\<forall>m \<in> set (nd_msgs d). in_ok (p = L) A B m \<and> \<not> is_slot m" by simp_all
qed

lemma newDesc_ok:
  assumes inv: "rep_ok T st n L A B p r" "descs_ok n (p = L) A B r" and s: "0 \<le> s" "s \<notin> nr_delivered r" "nr_cmdDescs r s = None"
    and nd: "newDesc r = (d, r')"
  shows "held T st n L A B p s (d\<lparr>nd_cmdSlot := s\<rparr>, r')" "descs_ok n (p = L) A B r'" "nd_active d" "frame s r r'"
proof -
  obtain d0 where d0: "allocDesc r = (d0, r')"
      "d = d0\<lparr>nd_cmdSlot := -1, nd_active := True, nd_phase := START,
            nd_seq := nr_routineCount r' \<ge> MaxDescRoutines, nd_propose := None,
            nd_cmdId := CommandId (ClientId (nd_cmdId d0)) (-42), nd_afterPayload := 0,
            nd_twoBs := Some (ReinitMsgSet (nd_twoBs d0) (nr_AQ r'))\<rparr>"
    using nd by (auto simp: newDesc_def Let_def split: prod.splits)
  note r' = allocDesc_ok(1-3) [OF inv(1) d0(1)] and ms = allocDesc_ok(4) [OF inv(1) d0(1)]
  have "filter is_slot (nd_msgs d0) = []" using ms by (simp add: filter_empty_conv)
  moreover have "votes_ok n B s (ReinitMsgSet (nd_twoBs d0) (nr_AQ r'))"
    using r'(1) by (auto simp: votes_ok_def ReinitMsgSet_def NewMsgSet_def rep_ok_def split: option.split)
  moreover have "p = L \<Longrightarrow> \<forall>m \<in> A. N2M2A_CmdSlot m \<noteq> s" using inv(2) s by (auto simp: descs_ok_def)
  ultimately show "held T st n L A B p s (d\<lparr>nd_cmdSlot := s\<rparr>, r')" "nd_active d"
    using r' ms s by (auto simp: d0(2) held_def desc_ok_def has_payload_def)
  show "descs_ok n (p = L) A B r'" "frame s r r'" using inv(2) r' by (auto simp: descs_ok_def frame_def)
qed

lemma put_desc_ok:
  assumes "held T st n L A B p s (d, r)" "descs_ok n (p = L) A B r" "nd_active d"
  shows "n2_inv T st n L A B p (Inr (put_desc s d r))"
  using assms by (auto simp: n2_inv_def held_defs descs_ok_def put_desc_def)

definition step2_ok :: "'st treemap \<Rightarrow> 'st \<Rightarrow> int \<Rightarrow> int \<Rightarrow> N2M2A set \<Rightarrow> N2M2B set \<Rightarrow> int \<Rightarrow> 'st N2Replica + bool \<times> 'st N2Replica \<Rightarrow> bool" where
  "step2_ok T st n L A B p x \<longleftrightarrow> step_ok T st n L A B p (case x of Inl r \<Rightarrow> Inl r | Inr (b, r) \<Rightarrow> Inr r)"

lemma getCmdDesc_present:
  assumes inv: "n2_inv T st n L A B p (Inr r)" and so: "sets_ok A B" and d: "nr_cmdDescs r s = Some d"
    and m: "in_ok (p = L) A B m" "\<not> is_slot m"
  shows "step2_ok T st n L A B p (getCmdDesc T s m r)"
proof -
  have inv': "rep_ok T st n L A B p r" "descs_ok n (p = L) A B r" using inv by (simp_all add: n2_inv_def)
  then have dd: "0 \<le> s" "nd_active d" "desc_ok n (p = L) A B (s \<in> nr_delivered r) s d"
    using d by (auto simp: descs_ok_def)
  have h: "held T st n L A B p s (d, r)" using inv' dd by (simp add: held_def)
  have "step_ok T st n L A B p (finish s (handleMsg T m s (d, r)))"
    by (rule finish_ok [OF handleMsg_ok [OF h so m(1)] inv'(2)]) (use m(2) d in auto)
  moreover have "held T st n L A B p s (d\<lparr>nd_msgs := nd_msgs d @ [m]\<rparr>, r)"
    using h m dd(2) by (auto simp: held_def desc_ok_def has_payload_def)
  then have "step_ok T st n L A B p (Inr (put_desc s (d\<lparr>nd_msgs := nd_msgs d @ [m]\<rparr>) r))"
    by (intro step_ok_same put_desc_ok so) (use inv' dd in auto)
  moreover have "step_ok T st n L A B p (Inr r)" by (rule step_ok_same [OF inv so])
  ultimately show ?thesis using d
    by (auto simp: getCmdDesc_def step2_ok_def split: sum.split)
qed

lemma getCmdDesc_ok:
  assumes inv: "n2_inv T st n L A B p (Inr r)" and so: "sets_ok A B" and s: "0 \<le> s"
    and m: "in_ok (p = L) A B m" "\<not> is_slot m"
  shows "step2_ok T st n L A B p (getCmdDesc T s m r)"
proof (cases "s \<in> nr_delivered r \<or> nr_cmdDescs r s \<noteq> None")
  case True
  then show ?thesis
    using getCmdDesc_present [OF inv so _ m, of s] step_ok_same [OF inv so]
    by (auto simp: getCmdDesc_def step2_ok_def)
next
  case False
  obtain d r1 where nd: "newDesc r = (d, r1)" by (cases "newDesc r")
  have inv': "rep_ok T st n L A B p r" "descs_ok n (p = L) A B r" using inv by (simp_all add: n2_inv_def)
  let ?d = "d\<lparr>nd_cmdSlot := s\<rparr>"
  let ?r = "if \<not> nd_seq d then r1\<lparr>nr_routineCount := nr_routineCount r1 + 1\<rparr> else r1"
  have n: "held T st n L A B p s (?d, r1)" "descs_ok n (p = L) A B r1" "nd_active d" "frame s r r1"
    using newDesc_ok [OF inv' s _ _ nd] False by auto
  then have "n2_inv T st n L A B p (Inr (put_desc s ?d ?r))"
    by (intro put_desc_ok) (auto simp: held_def descs_ok_def)
  moreover have "nr_cmdDescs (put_desc s ?d ?r) s = Some ?d" by (simp add: put_desc_def)
  ultimately have "step2_ok T st n L A B p (getCmdDesc T s m (put_desc s ?d ?r))"
    by (rule getCmdDesc_present [OF _ so _ m])
  moreover have "nr_delivered (put_desc s ?d ?r) = nr_delivered r"
    using nd by (auto simp: put_desc_def newDesc_def allocDesc_def Let_def split: if_splits prod.splits list.splits)
  then have "getCmdDesc T s m (put_desc s ?d ?r) = getCmdDesc T s m r"
    using False nd by (simp add: getCmdDesc_def Let_def put_desc_def)
  ultimately show ?thesis by simp
qed

lemma step_ok_fields:
  assumes "step_ok T st n L A B p (Inr r)" "0 \<le> k"
    "\<forall>(s, m) \<in> set todo. 0 \<le> s \<and> in_ok (p = L) A B m \<and> \<not> is_slot m"
  shows "step_ok T st n L A B p (Inr (r\<lparr>nr_lastCmdSlot := k, nr_todo := todo\<rparr>))"
    "step_ok T st n L A B p (Inr (r\<lparr>nr_todo := todo\<rparr>))"
proof -
  have "\<forall>(s, m) \<in> set todo. 0 \<le> s \<and> in_ok (p = L) (A \<union> A') (B \<union> B') m \<and> \<not> is_slot m" for A' B'
    using assms(3) in_ok_mono [of "p = L" A B _ "A \<union> A'" "B \<union> B'"] by auto
  then show "step_ok T st n L A B p (Inr (r\<lparr>nr_lastCmdSlot := k, nr_todo := todo\<rparr>))"
    "step_ok T st n L A B p (Inr (r\<lparr>nr_todo := todo\<rparr>))"
    using assms(1,2) by (simp_all add: step_ok_def n2_inv_def descs_ok_def held_defs Let_def)
qed

lemma step_ok_lastCmdSlot: "step_ok T st n L A B p (Inr r) \<Longrightarrow> 0 \<le> nr_lastCmdSlot r"
  by (simp add: step_ok_def n2_inv_def held_defs Let_def)

lemma run_todo_ok:
  assumes inv: "n2_inv T st n L A B p (Inr r)" and so: "sets_ok A B" and x: "run_todo T r = Some x"
  shows "step_ok T st n L A B p x"
proof -
  obtain s m todo where td: "nr_todo r = (s, m) # todo" using x by (auto simp: run_todo_def split: list.splits)
  then have m: "0 \<le> s" "in_ok (p = L) A B m" "\<not> is_slot m"
    and todo: "\<forall>(s, m) \<in> set todo. 0 \<le> s \<and> in_ok (p = L) A B m \<and> \<not> is_slot m"
    using inv by (auto simp: n2_inv_def rep_ok_def queues_ok_def)
  have g: "step2_ok T st n L A B p (getCmdDesc T s m r)" by (rule getCmdDesc_ok [OF inv so m])
  have stopped: "step_ok T st n L A B p (Inl r)"
    by (rule step_ok_same [OF _ so]) (use inv in \<open>auto simp: n2_inv_def rep_ok_def\<close>)
  show ?thesis
  proof (cases "getCmdDesc T s m r")
    case (Inl r')
    then have "x = Inl r \<or> x = Inl r'"
      using x by (simp add: run_todo_def td split: n2_in.splits if_splits)
    then show ?thesis using g stopped Inl by (auto simp: step2_ok_def)
  next
    case (Inr br)
    obtain b r' where br: "br = (b, r')" by (cases br)
    have ok: "step_ok T st n L A B p (Inr r')" using g Inr br by (simp add: step2_ok_def)
    have "x = Inl r \<or> x = Inr r' \<or> x = Inr (r'\<lparr>nr_lastCmdSlot := nr_lastCmdSlot r' + 1, nr_todo := todo\<rparr>) \<or>
        x = Inr (r'\<lparr>nr_todo := todo\<rparr>)"
      using x Inr by (cases b) (simp_all add: br run_todo_def td split: n2_in.splits if_splits)
    then show ?thesis
      using step_ok_fields [OF ok _ todo] step_ok_lastCmdSlot [OF ok] ok stopped by auto
  qed
qed

lemma todo_ok:
  assumes "n2_inv T st n L A B p (Inr r)" "sets_ok A B"
    "\<forall>(s, m) \<in> set todo. 0 \<le> s \<and> in_ok (p = L) A B m \<and> \<not> is_slot m"
  shows "step_ok T st n L A B p (Inr (r\<lparr>nr_todo := todo\<rparr>))"
  using step_ok_fields(2) [OF step_ok_same [OF assms(1,2)] _ assms(3), of 0] by simp

lemma take_msg_ok:
  assumes "n2_inv T st n L A B p (Inr r)" "sets_ok A B" "msg_2As m \<subseteq> A" "msg_2Bs m \<subseteq> B"
  shows "step_ok T st n L A B p (Inr (take_msg m r))"
  using assms(2-4) step_ok_same [OF assms(1,2)]
  by (cases m) (auto simp: sets_ok_def subset_iff intro!: todo_ok [OF assms(1,2)])

lemma take_propose_ok:
  assumes "n2_inv T st n L A B p (Inr r)" "sets_ok A B"
  shows "step_ok T st n L A B p (Inr (take_propose pr r))"
proof -
  have s: "0 \<le> nr_lastCmdSlot r" "nr_isLeader r = (p = L)" "\<And>c s. nr_slots r c = Some s \<Longrightarrow> 0 \<le> s"
    using assms(1) by (auto simp: n2_inv_def rep_ok_def slots_ok_def)
  let ?r = "r\<lparr>nr_proposes := (nr_proposes r)(CommandId (Propose_ClientId pr) (Propose_CommandId pr) \<mapsto> pr)\<rparr>"
  have r: "n2_inv T st n L A B p (Inr ?r)" using assms(1) by (simp add: n2_inv_def descs_ok_def held_defs)
  show ?thesis
    using todo_ok [OF assms] todo_ok [OF r assms(2)] step_ok_same [OF r assms(2)] s
    by (auto simp: take_propose_def Let_def split: option.split)
qed

lemma take_deliver_ok:
  assumes "n2_inv T st n L A B p (Inr r)" "sets_ok A B" "take_deliver k r = Some r'"
  shows "step_ok T st n L A B p (Inr r')"
proof -
  let ?r = "r\<lparr>nr_deliverChan := take k (nr_deliverChan r) @ drop (Suc k) (nr_deliverChan r)\<rparr>"
  have k: "k < length (nr_deliverChan r)" "r' = ?r\<lparr>nr_todo := [(nr_deliverChan r ! k, InDeliver)]\<rparr>"
    using assms(3) by (auto simp: take_deliver_def split: if_splits)
  have ge: "\<forall>s \<in> set (nr_deliverChan r). 0 \<le> s" using assms(1) by (simp add: n2_inv_def rep_ok_def slots_ok_def)
  have "set (take k (nr_deliverChan r) @ drop (Suc k) (nr_deliverChan r)) \<subseteq> set (nr_deliverChan r)"
    by (auto dest: in_set_takeD in_set_dropD)
  then have "\<forall>s \<in> set (take k (nr_deliverChan r) @ drop (Suc k) (nr_deliverChan r)). 0 \<le> s" using ge by blast
  then have "n2_inv T st n L A B p (Inr ?r)"
    using assms(1) by (simp add: n2_inv_def descs_ok_def held_defs)
  from todo_ok [OF this assms(2), of "[(nr_deliverChan r ! k, InDeliver)]"] k ge show ?thesis by simp
qed

lemma batch_ok:
  assumes "n2_inv T st n L A B p (Inr r)" "sets_ok A B" "batch r = Some r'"
  shows "step_ok T st n L A B p (Inr r')" "given_2Bs r' = given_2Bs r"
proof -
  have r': "r' = r\<lparr>nr_sent := nr_sent r @ [N2M2sMsg \<lparr>N2M2s_TwoAs = nr_twoAs r, N2M2s_TwoBs = nr_twoBs r\<rparr>],
                   nr_twoAs := [], nr_twoBs := []\<rparr>"
    using assms(3) by (simp add: batch_def split: if_splits)
  have g: "given_2As r' = given_2As r" "given_2Bs r' = given_2Bs r"
    unfolding r' by (auto simp: given_2As_def given_2Bs_def)
  have "n2_inv T st n L A B p (Inr r')"
    using assms(1) g by (simp add: n2_inv_def rep_ok_def given_ok_def r' descs_ok_def executed_ok_def slots_ok_def queues_ok_def)
  then show "step_ok T st n L A B p (Inr r')" by (rule step_ok_same) fact
  show "given_2Bs r' = given_2Bs r" by (rule g)
qed

section \<open>The invariant of the system\<close>

definition n2_system_inv :: "'st treemap \<Rightarrow> 'st \<Rightarrow> int \<Rightarrow> int \<Rightarrow> 'st n2_system \<Rightarrow> bool" where
  "n2_system_inv T st n L S \<longleftrightarrow>
     (\<exists>A B. sets_ok A B \<and> B \<subseteq> (\<Union>p. given_2Bs (of_run (S p))) \<and> (\<forall>p. n2_inv T st n L A B p (S p)))"

text \<open>What was given to the batcher stays given.\<close>

lemma given_2Bs_update [simp]:
  "given_2Bs (r\<lparr>nr_slots := sl, nr_twoBs := nr_twoBs r @ [m]\<rparr>) = insert m (given_2Bs r)"
  by (auto simp: given_2Bs_def)

lemma given_2Bs_handle2A: "given_2Bs r \<subseteq> given_2Bs (rep_of (handle2A T m (d, r)))"
  by (auto simp: handle2A_def Let_def given_out(2) [OF out_handle2B] given_out(2) [OF out_recall])

lemma given_2Bs_handlePropose: "given_2Bs r \<subseteq> given_2Bs (rep_of (handlePropose T pr s (d, r)))"
  using given_2Bs_handle2A [of "r\<lparr>nr_twoAs := nr_twoAs r @ [a]\<rparr>" T a "d\<lparr>nd_propose := Some pr\<rparr>" for a]
  by (simp add: handlePropose_def Let_def)

lemma given_2Bs_handleMsg: "given_2Bs r \<subseteq> given_2Bs (rep_of (handleMsg T m s (d, r)))"
  by (cases m)
    (simp_all add: given_2Bs_handle2A given_2Bs_handlePropose given_out(2) [OF out_handle2B]
      given_out(2) [OF out_deliver] given_out(2) [OF out_handleSlot])

lemma given_same:
  "nr_twoBs r = nr_twoBs r' \<Longrightarrow> nr_sent r = nr_sent r' \<Longrightarrow> given_2Bs r = given_2Bs r'"
  by (simp add: given_2Bs_def)

lemma given_fields [simp]:
  "given_2Bs (r\<lparr>nr_routineCount := k\<rparr>) = given_2Bs r" "given_2Bs (r\<lparr>nr_cmdDescs := ds\<rparr>) = given_2Bs r"
  "given_2Bs (r\<lparr>nr_todo := td\<rparr>) = given_2Bs r" "given_2Bs (r\<lparr>nr_lastCmdSlot := l\<rparr>) = given_2Bs r"
  "given_2Bs (r\<lparr>nr_lastCmdSlot := l, nr_todo := td\<rparr>) = given_2Bs r"
  by (simp_all add: given_2Bs_def)

lemma given_handleDesc: "handleDesc T s r = Some x \<Longrightarrow> given_2Bs r \<subseteq> given_2Bs (of_run x)"
proof -
  assume x: "handleDesc T s r = Some x"
  then obtain d m ms where d: "x = (case finish s (handleMsg T m s (d\<lparr>nd_msgs := ms\<rparr>, r)) of Inl r \<Rightarrow> Inl r
            | Inr r \<Rightarrow> Inr (if nr_cmdDescs r s = None then r\<lparr>nr_routineCount := nr_routineCount r - 1\<rparr> else r))"
    by (auto simp: handleDesc_def split: option.splits list.splits if_splits)
  let ?f = "finish s (handleMsg T m s (d\<lparr>nd_msgs := ms\<rparr>, r))"
  have "given_2Bs (of_run x) = given_2Bs (of_run ?f)" unfolding d by (cases ?f) (simp_all add: given_2Bs_def)
  then show ?thesis using given_2Bs_handleMsg [of r T m s "d\<lparr>nd_msgs := ms\<rparr>"] by (simp add: given_finish)
qed

lemma given_newDesc: "newDesc r = (d, r') \<Longrightarrow> given_2Bs r' = given_2Bs r"
  by (auto simp: newDesc_def allocDesc_def given_2Bs_def Let_def split: if_splits prod.splits list.splits)

lemma given_getCmdDesc:
  "given_2Bs r \<subseteq> given_2Bs (of_run (case getCmdDesc T s m r of Inl r \<Rightarrow> Inl r | Inr (b, r) \<Rightarrow> Inr r))"
proof (cases "s \<in> nr_delivered r")
  case True
  then show ?thesis by (simp add: getCmdDesc_def)
next
  case False
  define dr where "dr = (case nr_cmdDescs r s of
             Some d \<Rightarrow> (d, r)
           | None \<Rightarrow>
               let (d, r) = newDesc r;
                   d = d\<lparr>nd_cmdSlot := s\<rparr>;
                   r = (if \<not> nd_seq d then r\<lparr>nr_routineCount := nr_routineCount r + 1\<rparr> else r)
               in (d, put_desc s d r))"
  obtain d r' where dr: "dr = (d, r')" by (cases dr)
  have g: "given_2Bs r' = given_2Bs r"
  proof (cases "nr_cmdDescs r s")
    case None
    obtain d1 r1 where nd: "newDesc r = (d1, r1)" by (cases "newDesc r")
    have "put_desc s (d1\<lparr>nd_cmdSlot := s\<rparr>)
        (if \<not> nd_seq (d1\<lparr>nd_cmdSlot := s\<rparr>) then r1\<lparr>nr_routineCount := nr_routineCount r1 + 1\<rparr> else r1) = r'"
      using dr unfolding dr_def None nd option.case prod.case Let_def prod.inject by (rule conjunct2)
    from this [symmetric] show ?thesis using given_newDesc [OF nd] by (simp add: put_desc_def)
  next
    case (Some e)
    then show ?thesis using dr by (simp add: dr_def)
  qed
  have "getCmdDesc T s m r = (if nd_seq d then
             (case finish s (handleMsg T m s (d, r')) of Inl r \<Rightarrow> Inl r | Inr r \<Rightarrow> Inr (True, r))
           else if length (nd_msgs d) < MSGS_SIZE
             then Inr (True, put_desc s (d\<lparr>nd_msgs := nd_msgs d @ [m]\<rparr>) r')
             else Inr (False, r'))"
    using False dr by (simp add: getCmdDesc_def dr_def)
  moreover have "given_2Bs r' \<subseteq> given_2Bs (of_run (finish s (handleMsg T m s (d, r'))))"
    by (simp add: given_finish given_2Bs_handleMsg)
  moreover have "given_2Bs (put_desc s e r') = given_2Bs r'" for e by (simp add: put_desc_def given_2Bs_def)
  ultimately show ?thesis unfolding g [symmetric]
    by (cases "finish s (handleMsg T m s (d, r'))") simp_all
qed

lemma given_run_todo: "run_todo T r = Some x \<Longrightarrow> given_2Bs r \<subseteq> given_2Bs (of_run x)"
proof -
  assume x: "run_todo T r = Some x"
  obtain s m todo where td: "nr_todo r = (s, m) # todo" using x by (auto simp: run_todo_def split: list.splits)
  show ?thesis
  proof (cases "getCmdDesc T s m r")
    case (Inl r')
    then have "x = Inl r \<or> x = Inl r'" using x by (simp add: run_todo_def td split: n2_in.splits if_splits)
    then show ?thesis using given_getCmdDesc [of r T s m] Inl by auto
  next
    case (Inr br)
    obtain b r' where br: "br = (b, r')" by (cases br)
    have "x = Inl r \<or> given_2Bs (of_run x) = given_2Bs r'"
      using x Inr by (cases b) (auto simp: br run_todo_def td split: n2_in.splits if_splits)
    then show ?thesis using given_getCmdDesc [of r T s m] Inr br by auto
  qed
qed

lemma given_take:
  "given_2Bs (take_msg m r) = given_2Bs r" "given_2Bs (take_propose pr r) = given_2Bs r"
  "take_deliver k r = Some r' \<Longrightarrow> given_2Bs r' = given_2Bs r"
  by (cases m; auto simp: take_propose_def take_deliver_def given_2Bs_def Let_def split: option.splits if_splits)+

lemma n2_act_inv:
  assumes inv: "n2_system_inv T st n L S" and act: "n2_act T a S = Some S'"
  shows "n2_system_inv T st n L S'"
proof -
  obtain A B where so: "sets_ok A B" and B: "B \<subseteq> (\<Union>p. given_2Bs (of_run (S p)))"
      and each: "\<And>p. n2_inv T st n L A B p (S p)"
    using inv by (auto simp: n2_system_inv_def)
  obtain p f r x where f: "n2_step T S a = (p, f)" "S p = Inr r" "f r = Some x" "S' = S(p := x)"
    using act by (auto simp: n2_act_def split: prod.splits sum.splits)
  have r: "n2_inv T st n L A B p (Inr r)" using each [of p] f(2) by simp
  have sent: "msg_2As m \<subseteq> A \<and> msg_2Bs m \<subseteq> B" if "m \<in> set (nr_sent (of_run (S q)))" for m q
    using each [of q] that by (cases "S q") (auto simp: n2_inv_def rep_ok_def given_2As_def given_2Bs_def)
  have msg: "step_ok T st n L A B p (Inr (take_msg (nr_sent (of_run (S q)) ! k) r))" if "k < length (nr_sent (of_run (S q)))" for q k
    using sent [of "nr_sent (of_run (S q)) ! k" q] that by (intro take_msg_ok [OF r so]) auto
  have "step_ok T st n L A B p x \<and> given_2Bs r \<subseteq> given_2Bs (of_run x)"
    using f(1,3)
    by (cases a)
      (auto simp: given_take batch_ok(2) [OF r so] split: if_splits
        intro: take_propose_ok [OF r so] take_deliver_ok [OF r so] msg batch_ok(1) [OF r so]
          run_todo_ok [OF r so] handleDesc_ok [OF r so] dest: given_run_todo given_handleDesc nth_mem)
  then have x: "step_ok T st n L A B p x" and g: "given_2Bs r \<subseteq> given_2Bs (of_run x)" by auto
  define A' B' where "A' = A \<union> given_2As (of_run x)" and "B' = B \<union> given_2Bs (of_run x)"
  have x': "n2_inv T st n L A' B' p x" "sets_ok A' B'" "p \<noteq> L \<Longrightarrow> A' = A"
    using x by (simp_all add: step_ok_def A'_def B'_def Let_def)
  have "n2_inv T st n L A' B' q (S' q)" for q
  proof (cases "q = p")
    case True
    then show ?thesis using x'(1) f(4) by simp
  next
    case False
    have AA: "q = L \<Longrightarrow> A' = A" using x'(3) False by auto
    have sub: "A \<subseteq> A'" "B \<subseteq> B'" by (auto simp: A'_def B'_def)
    have d: "desc_ok n (q = L) A' B' dn s d" if "desc_ok n (q = L) A B dn s d" for dn s d
      by (rule desc_ok_mono [OF that sub]) (use AA in auto)
    have "n2_inv T st n L A' B' q (S q)"
    proof (cases "S q")
      case (Inl r)
      then show ?thesis using each [of q] sub by (simp add: n2_inv_def subset_iff)
    next
      case (Inr r)
      then have "rep_ok T st n L A B q r" "descs_ok n (q = L) A B r" using each [of q] by (simp_all add: n2_inv_def)
      then have "rep_ok T st n L A' B' q r" "descs_ok n (q = L) A' B' r"
        using rep_ok_mono [OF _ sub] d AA by (simp_all add: descs_ok_def)
      then show ?thesis using Inr by (simp add: n2_inv_def)
    qed
    then show ?thesis using False f(4) by simp
  qed
  moreover have "B' \<subseteq> (\<Union>p. given_2Bs (of_run (S' p)))"
  proof
    fix m assume "m \<in> B'"
    then consider q where "m \<in> given_2Bs (of_run (S q))" | "m \<in> given_2Bs (of_run x)" using B by (auto simp: B'_def)
    then show "m \<in> (\<Union>p. given_2Bs (of_run (S' p)))"
    proof cases
      case (1 q)
      then have "m \<in> given_2Bs (of_run (S' q))" using g f(2,4) by (cases "q = p") auto
      then show ?thesis by blast
    next
      case 2
      then have "m \<in> given_2Bs (of_run (S' p))" using f(4) by simp
      then show ?thesis by blast
    qed
  qed
  ultimately show ?thesis using x'(2) unfolding n2_system_inv_def by blast
qed

definition leader_of :: "int option \<Rightarrow> int" where
  "leader_of leader = (case leader of Some l \<Rightarrow> l | None \<Rightarrow> 0)"

lemma n2_init_inv: "n2_system_inv T st n (leader_of leader) (NewN2System n exec pl leader st)"
proof -
  have "executed_ok T st {} (NewN2Replica p n exec pl leader st)" for p
    by (simp add: executed_ok_def NewN2Replica_def Let_def)
  then have "n2_inv T st n (leader_of leader) {} {} p (NewN2System n exec pl leader st p)" for p
    by (simp add: n2_inv_def NewN2System_def rep_ok_def given_ok_def given_2As_def given_2Bs_def slots_ok_def
        queues_ok_def descs_ok_def NewN2Replica_def Let_def leader_of_def eq_commute [of p])
  then show ?thesis by (auto simp: n2_system_inv_def sets_ok_def intro!: exI [of _ "{}"])
qed

lemma n2_reachable_inv:
  assumes "n2_reachable T (NewN2System n exec pl leader st) S"
  shows "n2_system_inv T st n (leader_of leader) S"
  using assms by induction (auto intro: n2_init_inv n2_act_inv)

lemma final_logs:
  assumes so: "sets_ok A B" and ex: "executed_ok T st A r" "executed_ok T st A r'"
    and le: "card (nr_delivered r) \<le> card (nr_delivered r')"
  shows "\<exists>log more. nr_delivered r = {0..<int (length log)} \<and> nr_State r = final T log st \<and>
    nr_delivered r' = {0..<int (length (log @ more))} \<and> nr_State r' = final T (log @ more) st"
proof -
  obtain l l' where l: "nr_delivered r = {0..<int (length l)}" "nr_State r = final T l st"
      "\<And>i. i < length l \<Longrightarrow> \<exists>m \<in> A. N2M2A_CmdSlot m = int i \<and> N2M2A_Cmd m = l ! i"
    and l': "nr_delivered r' = {0..<int (length l')}" "nr_State r' = final T l' st"
      "\<And>i. i < length l' \<Longrightarrow> \<exists>m \<in> A. N2M2A_CmdSlot m = int i \<and> N2M2A_Cmd m = l' ! i"
    using ex unfolding executed_ok_def by blast
  have len: "length l \<le> length l'" using le l(1) l'(1) by simp
  have "l ! i = l' ! i" if "i < length l" for i
    using l(3) [of i] l'(3) [of i] that len so by (auto simp: sets_ok_def inj_on_def)
  then have "l = take (length l) l'" using len by (simp add: list_eq_iff_nth_eq)
  then have "l' = l @ drop (length l) l'" by (metis append_take_drop_id)
  then show ?thesis using l l' by metis
qed


definition voters :: "'st n2_system \<Rightarrow> int \<Rightarrow> int set" where
  "voters S s = {q. \<exists>m \<in> given_2Bs (of_run (S q)). N2M2B_CmdSlot m = s}"

text \<open>
  C12: a replica that is not the leader executes a slot only if a majority of the replicas has voted for it.
\<close>

theorem n2paxos_followers_execute_chosen:
  assumes "n2_reachable T (NewN2System n exec pl leader st) S" "S p = Inr r" "\<not> nr_isLeader r"
    "s \<in> nr_delivered r"
  shows "\<exists>V \<subseteq> voters S s. finite V \<and> Size (NewMajorityOf n) \<le> int (card V)"
proof -
  let ?L = "leader_of leader"
  obtain A B where AB: "B \<subseteq> (\<Union>p. given_2Bs (of_run (S p)))" "\<And>p. n2_inv T st n ?L A B p (S p)"
    using n2_reachable_inv [OF assms(1)] by (auto simp: n2_system_inv_def)
  have "chosen n B s" using AB(2) [of p] assms(2-4) by (auto simp: n2_inv_def rep_ok_def)
  then obtain V where V: "finite V" "Size (NewMajorityOf n) \<le> int (card V)"
      "\<And>q. q \<in> V \<Longrightarrow> \<exists>m \<in> B. N2M2B_Replica m = q \<and> N2M2B_CmdSlot m = s"
    by (auto simp: chosen_def)
  have given: "\<forall>m \<in> given_2Bs (of_run (S q)). N2M2B_Replica m = q" for q
    using AB(2) [of q] by (cases "S q") (auto simp: n2_inv_def rep_ok_def given_ok_def)
  have "q \<in> voters S s" if qV: "q \<in> V" for q
  proof -
    obtain m q' where m: "m \<in> B" "N2M2B_Replica m = q" "N2M2B_CmdSlot m = s" "m \<in> given_2Bs (of_run (S q'))"
      using V(3) [OF qV] AB(1) by blast
    then have "q' = q" using given [of q'] by auto
    then show ?thesis using m by (auto simp: voters_def)
  qed
  then show ?thesis using V(1,2) by blast
qed

section \<open>A run\<close>

definition n2_proposal :: "int \<Rightarrow> GPropose" where
  "n2_proposal i = \<lparr>Propose_CommandId = i, Propose_ClientId = 7, Propose_Command = \<lparr>Op = PUT, K = i, V = [1]\<rparr>,
     Propose_Timestamp = 0, GPropose_Proxy = True\<rparr>"

text \<open>
  Replica 0 leads.  It and replica 1 get slot 0 through; then the leader gets a second proposal.
\<close>

definition n2_run :: "n2_action list" where
  "n2_run =
    [TakePropose 0 (n2_proposal 0), RunTodo 0, HandleDesc 0 0, Batch 0,
     TakeMsg 1 0 0, RunTodo 1, RunTodo 1, HandleDesc 1 0, HandleDesc 1 0, Batch 1,
     TakePropose 1 (n2_proposal 0), RunTodo 1, HandleDesc 1 0,
     TakeMsg 0 1 0, RunTodo 0, HandleDesc 0 0, HandleDesc 0 0]"

definition n2_early :: "n2_action list" where
  "n2_early = [TakePropose 0 (n2_proposal 1), RunTodo 0, HandleDesc 0 1, TakeDeliver 0 0, RunTodo 0, HandleDesc 0 1]"

lemma n2_run_eval:
  "case n2_acts T n2_run (NewN2System 3 True 1 None st) of None \<Rightarrow> False
   | Some S \<Rightarrow> (case (S 0, S 1) of (Inr r, Inr r') \<Rightarrow> nr_delivered r = {0} \<and> nr_delivered r' = {0} \<and> \<not> nr_isLeader r' | _ \<Rightarrow> False)"
  by code_simp

text \<open>The slots of the messages that a replica's batcher has sent.\<close>

fun msg_slots :: "n2paxos_msg \<Rightarrow> int list" where
  "msg_slots (N2M2AMsg m) = [N2M2A_CmdSlot m]"
| "msg_slots (N2M2BMsg m) = [N2M2B_CmdSlot m]"
| "msg_slots (N2M2sMsg m) = map N2M2A_CmdSlot (N2M2s_TwoAs m) @ map N2M2B_CmdSlot (N2M2s_TwoBs m)"
| "msg_slots m = []"

lemma n2_early_eval:
  "case n2_acts T (n2_run @ n2_early) (NewN2System 3 True 1 None st) of None \<Rightarrow> False
   | Some S \<Rightarrow> (case S 0 of Inl r \<Rightarrow> False | Inr r \<Rightarrow>
       map fst (nr_replied r) = [n2_proposal 0, n2_proposal 1] \<and> map msg_slots (nr_sent r) = [[0, 0]])"
  by code_simp

text \<open>
  C11: the leader can execute a command and answer its client before any other replica has been told of it: a
  descriptor of the leader that gets \<open>"deliver"\<close> after the slot before it was executed does not wait for its
  own slot to be committed.
\<close>

theorem n2paxos_leader_answers_early:
  "\<exists>S r. n2_acts T (n2_run @ n2_early) (NewN2System 3 True 1 None st) = Some S \<and> S 0 = Inr r \<and>
     map fst (nr_replied r) = [n2_proposal 0, n2_proposal 1] \<and> map msg_slots (nr_sent r) = [[0, 0]]"
  using n2_early_eval [of T st] by (auto split: option.splits sum.splits)

lemma n2_acts_reachable:
  "n2_reachable T S0 S \<Longrightarrow> n2_acts T as S = Some S' \<Longrightarrow> n2_reachable T S0 S'"
proof (induction as arbitrary: S)
  case Nil
  then show ?case by simp
next
  case (Cons a as)
  then show ?case using n2_reachable.act [OF Cons.prems(1)] by (auto split: option.splits)
qed

lemma n2_run_reachable:
  "\<exists>S r r'. n2_reachable T (NewN2System 3 True 1 None st) S \<and> S 0 = Inr r \<and> S 1 = Inr r' \<and>
     nr_delivered r = {0} \<and> nr_delivered r' = {0} \<and> \<not> nr_isLeader r'"
proof (cases "n2_acts T n2_run (NewN2System 3 True 1 None st)")
  case None
  then show ?thesis using n2_run_eval [of T st] by simp
next
  case (Some S)
  have r: "n2_reachable T (NewN2System 3 True 1 None st) S"
    by (rule n2_acts_reachable [OF n2_reachable.start Some])
  show ?thesis
    using n2_run_eval [of T st] r unfolding Some by (cases "S 0"; cases "S 1") (simp, simp, simp, simp, blast)
qed


theorem n2paxos_followers_execute_chosen_witness:
  "\<exists>S r. n2_reachable rbt_treemap (NewN2System 3 True 1 None RBT.empty) S \<and> S 1 = Inr r \<and> nr_delivered r = {0} \<and>
     (\<exists>V \<subseteq> voters S 0. finite V \<and> 2 \<le> int (card V))"
proof -
  obtain S r where S: "n2_reachable rbt_treemap (NewN2System 3 True 1 None RBT.empty) S" "S 1 = Inr r" "\<not> nr_isLeader r"
      "nr_delivered r = {0}"
    using n2_run_reachable [of rbt_treemap RBT.empty] by (elim exE conjE)
  from n2paxos_followers_execute_chosen [OF S(1-3), of 0] S show ?thesis
    by (auto simp: NewMajorityOf_def go_div_def)
qed

end
