(* ===== verification/EPaxos.thy ===== *)
theory EPaxos
  imports EPaxosMsg ClientMsg Quorum "HOL-Library.Monad_Syntax"
begin

unbundle bit_operations_syntax

text \<open>
  The EPaxos replica (\<open>epaxos/epaxos.go\<close>): its state, the attributes of instances, the handlers of the fast path,
  the slow path and recovery.  The execution of committed instances is in \<open>EPaxosExec\<close>.

  A handler that panics, or does not return, gives \<open>None\<close>.  Slices of dependencies are shared in the code (an
  instance, its bookkeeping and replies can refer to the same one) and written in place, so they live in a store,
  \<open>er_slices\<close>, and are referred to by their position in it; \<open>None\<close> is the nil slice.  Statistics, logging and
  \<open>sync\<close> are not modelled.
\<close>

section \<open>State\<close>

definition ST_NONE :: int where "ST_NONE = 0"
definition PREACCEPTED :: int where "PREACCEPTED = 1"
definition PREACCEPTED_EQ :: int where "PREACCEPTED_EQ = 2"
definition ACCEPTED :: int where "ACCEPTED = 3"
definition COMMITTED :: int where "COMMITTED = 4"
definition EXECUTED :: int where "EXECUTED = 5"

lemmas status_defs = ST_NONE_def PREACCEPTED_def PREACCEPTED_EQ_def ACCEPTED_def COMMITTED_def EXECUTED_def

type_synonym slice = "nat option"

text \<open>A reply to a prepare as the bookkeeping keeps it: the commands and dependencies may be nil.\<close>

record prepared =
  pp_AcceptorId :: int
  pp_Replica :: int
  pp_VBallot :: int
  pp_Status :: int
  pp_Command :: "command list option"
  pp_Seq :: int
  pp_Deps :: slice

record ebook =
  eb_clientProposals :: "GPropose list option"
  eb_ballot :: int
  eb_allEqual :: bool
  eb_preAcceptOKs :: int
  eb_acceptOKs :: int
  eb_nacks :: int
  eb_originalDeps :: slice
  eb_committedDeps :: "int list"
  eb_prepareReplies :: "prepared list"
  eb_preparing :: bool
  eb_tryingToPreAccept :: bool
  eb_possibleQuorum :: "bool list"
  eb_tpaReps :: int
  eb_tpaAccepted :: bool
  eb_lastTriedBallot :: int
  eb_cmds :: "command list option"
  eb_status :: int
  eb_seq :: int
  eb_deps :: slice
  eb_leaderResponded :: bool

record einst =
  ei_Cmds :: "command list option"
  ei_bal :: int
  ei_vbal :: int
  ei_Status :: int
  ei_Seq :: int
  ei_Deps :: slice
  ei_lb :: "ebook option"
  ei_Index :: int
  ei_Lowlink :: int
  ei_proposeTime :: int
  ei_id :: "int \<times> int"

record InstPair =
  ip_last :: int
  ip_lastWrite :: int

text \<open>
  \<open>er_now\<close> is the clock, read when an instance is made.  \<open>er_executed\<close> is not a variable of the code: it records
  the components in the order in which they are executed.
\<close>

record 'st EReplica =
  er_Id :: int
  er_N :: int
  er_F :: int
  er_Alive :: "bool list"
  er_PreferredPeerOrder :: "int list"
  er_Thrifty :: bool
  er_LRead :: bool
  er_Dreply :: bool
  er_Durable :: bool
  er_transconf :: bool
  er_batchWait :: int
  er_ProposeChan :: "GPropose list"
  er_proposeOn :: bool
  er_IsLeader :: bool
  er_InstanceSpace :: "int \<Rightarrow> int \<Rightarrow> einst option"
  er_crtInstance :: "int list"
  er_CommittedUpTo :: "int list"
  er_ExecedUpTo :: "int list"
  er_conflicts :: "int \<Rightarrow> key \<Rightarrow> InstPair option"
  er_maxSeqPerKey :: "key \<Rightarrow> int option"
  er_maxSeq :: int
  er_maxRecvBallot :: int
  er_instancesToRecover :: "(int \<times> int) list"
  er_deferMap :: "int \<Rightarrow> int option"
  er_problemInstance :: "int list"
  er_timeout :: "int list"
  er_slices :: "int list list"
  er_now :: int
  er_State :: 'st
  er_StableStore :: bytes
  er_sent :: "(int \<times> epaxos_msg) list"
  er_replied :: "(GPropose \<times> ProposeReplyTS) list"
  er_executed :: "(int \<times> int) list list"

definition MAX_INSTANCE :: int where
  "MAX_INSTANCE = 10 * 1024 * 1024"

definition NewEReplica ::
  "int \<Rightarrow> int \<Rightarrow> int \<Rightarrow> bool list \<Rightarrow> int list \<Rightarrow> bool \<Rightarrow> int \<Rightarrow> bool \<Rightarrow> 'st \<Rightarrow> 'st EReplica" where
  "NewEReplica rid n f alive pref durable batchWait transconf st =
     \<lparr>er_Id = rid, er_N = n, er_F = f, er_Alive = alive, er_PreferredPeerOrder = pref, er_Thrifty = True,
      er_LRead = False, er_Dreply = True, er_Durable = durable, er_transconf = transconf,
      er_batchWait = batchWait, er_ProposeChan = [], er_proposeOn = True, er_IsLeader = False,
      er_InstanceSpace = (\<lambda>_ _. None), er_crtInstance = replicate (nat n) (-1),
      er_CommittedUpTo = replicate (nat n) (-1), er_ExecedUpTo = replicate (nat n) (-1),
      er_conflicts = (\<lambda>_ _. None), er_maxSeqPerKey = Map.empty, er_maxSeq = 0, er_maxRecvBallot = -1,
      er_instancesToRecover = [], er_deferMap = Map.empty, er_problemInstance = replicate (nat n) (-1),
      er_timeout = replicate (nat n) 0, er_slices = [], er_now = 0, er_State = st, er_StableStore = [],
      er_sent = [], er_replied = [], er_executed = []\<rparr>"

section \<open>Slices and arrays\<close>

definition at :: "'a list \<Rightarrow> int \<Rightarrow> 'a option" where
  "at xs i = (if 0 \<le> i \<and> i < int (length xs) then Some (xs ! nat i) else None)"

definition slice_of :: "'st EReplica \<Rightarrow> slice \<Rightarrow> int list" where
  "slice_of r a = (case a of None \<Rightarrow> [] | Some k \<Rightarrow> er_slices r ! k)"

definition set_slice :: "slice \<Rightarrow> int list \<Rightarrow> 'st EReplica \<Rightarrow> 'st EReplica" where
  "set_slice a ds r = (case a of None \<Rightarrow> r | Some k \<Rightarrow> r\<lparr>er_slices := (er_slices r)[k := ds]\<rparr>)"

definition new_slice :: "int list \<Rightarrow> 'st EReplica \<Rightarrow> slice \<times> 'st EReplica" where
  "new_slice ds r = (Some (length (er_slices r)), r\<lparr>er_slices := er_slices r @ [ds]\<rparr>)"

text \<open>\<open>r.InstanceSpace[q][i]\<close>: an index out of range panics, the outer \<open>None\<close>; the inner one is nil.\<close>

definition get_inst :: "'st EReplica \<Rightarrow> int \<Rightarrow> int \<Rightarrow> einst option option" where
  "get_inst r q i =
     (if 0 \<le> q \<and> q < er_N r \<and> 0 \<le> i \<and> i < MAX_INSTANCE then Some (er_InstanceSpace r q i) else None)"

definition put_inst :: "int \<Rightarrow> int \<Rightarrow> einst \<Rightarrow> 'st EReplica \<Rightarrow> 'st EReplica" where
  "put_inst q i inst r =
     r\<lparr>er_InstanceSpace := (er_InstanceSpace r)(q := (er_InstanceSpace r q)(i \<mapsto> inst))\<rparr>"

definition newInstance ::
  "'st EReplica \<Rightarrow> int \<Rightarrow> int \<Rightarrow> command list option \<Rightarrow> int \<Rightarrow> int \<Rightarrow> int \<Rightarrow> int \<Rightarrow> slice \<Rightarrow> einst" where
  "newInstance r replica instance_no cmds cballot lballot status seq deps =
     \<lparr>ei_Cmds = cmds, ei_bal = cballot, ei_vbal = lballot, ei_Status = status, ei_Seq = seq, ei_Deps = deps,
      ei_lb = None, ei_Index = 0, ei_Lowlink = 0, ei_proposeTime = er_now r, ei_id = (replica, instance_no)\<rparr>"

definition newInstanceDefault :: "'st EReplica \<Rightarrow> int \<Rightarrow> int \<Rightarrow> einst" where
  "newInstanceDefault r replica instance_no = newInstance r replica instance_no None (-1) (-1) ST_NONE (-1) None"

text \<open>The instance, made if it is nil.\<close>

definition ensure_inst :: "int \<Rightarrow> int \<Rightarrow> 'st EReplica \<Rightarrow> (einst \<times> 'st EReplica) option" where
  "ensure_inst q i r = do {
     x \<leftarrow> get_inst r q i;
     Some (case x of Some inst \<Rightarrow> (inst, r)
           | None \<Rightarrow> let inst = newInstanceDefault r q i in (inst, put_inst q i inst r)) }"

definition newNilDeps :: "'st EReplica \<Rightarrow> int list" where
  "newNilDeps r = replicate (nat (er_N r)) (-1)"

definition newLeaderBookkeeping ::
  "'st EReplica \<Rightarrow> GPropose list option \<Rightarrow> slice \<Rightarrow> int list \<Rightarrow> slice \<Rightarrow> int \<Rightarrow> command list option \<Rightarrow> int \<Rightarrow> int \<Rightarrow> ebook" where
  "newLeaderBookkeeping r p originalDeps committedDeps deps lastTriedBallot cmds status seq =
     \<lparr>eb_clientProposals = p, eb_ballot = -1, eb_allEqual = True, eb_preAcceptOKs = 0, eb_acceptOKs = 0,
      eb_nacks = 0, eb_originalDeps = originalDeps, eb_committedDeps = committedDeps, eb_prepareReplies = [],
      eb_preparing = True, eb_tryingToPreAccept = False,
      eb_possibleQuorum = replicate (nat (er_N r)) False, eb_tpaReps = 0, eb_tpaAccepted = False,
      eb_lastTriedBallot = lastTriedBallot, eb_cmds = cmds, eb_status = status, eb_seq = seq, eb_deps = deps,
      eb_leaderResponded = False\<rparr>"

definition newLeaderBookkeepingDefault :: "'st EReplica \<Rightarrow> ebook \<times> 'st EReplica" where
  "newLeaderBookkeepingDefault r =
     (let (a, r) = new_slice (newNilDeps r) r; (d, r) = new_slice (newNilDeps r) r
      in (newLeaderBookkeeping r None a (newNilDeps r) d 0 None ST_NONE (-1), r))"

definition BeTheLeader :: "'st EReplica \<Rightarrow> 'st EReplica" where
  "BeTheLeader r = r\<lparr>er_IsLeader := True\<rparr>"

definition note_ballot :: "int \<Rightarrow> 'st EReplica \<Rightarrow> 'st EReplica" where
  "note_ballot b r = (if b > er_maxRecvBallot r then r\<lparr>er_maxRecvBallot := b\<rparr> else r)"

definition note_instance :: "int \<Rightarrow> int \<Rightarrow> 'st EReplica \<Rightarrow> 'st EReplica option" where
  "note_instance q i r = do {
     c \<leftarrow> at (er_crtInstance r) q;
     Some (if i > c then r\<lparr>er_crtInstance := (er_crtInstance r)[nat q := i]\<rparr> else r) }"

section \<open>Stable storage\<close>

text \<open>
  The second \<open>PutUint32\<close> writes over the first, so that \<open>bal\<close> is not stored.
\<close>

definition recordInstanceMetadata :: "einst option \<Rightarrow> 'st EReplica \<Rightarrow> 'st EReplica option" where
  "recordInstanceMetadata x r =
     (if \<not> er_Durable r then Some r
      else do {
        inst \<leftarrow> x;
        let ds = slice_of r (ei_Deps inst);
        if int (length ds) > er_N r then None
        else Some (r\<lparr>er_StableStore := er_StableStore r @ put_le 4 (ei_vbal inst) @ put_le 1 (ei_Status inst) @
               put_le 4 (ei_Seq inst) @ concat (map (put_le 4) ds) @
               replicate (4 * (nat (er_N r) - length ds)) 0\<rparr>) })"

definition recordCommands :: "command list option \<Rightarrow> 'st EReplica \<Rightarrow> 'st EReplica" where
  "recordCommands cmds r =
     (if \<not> er_Durable r then r
      else case cmds of None \<Rightarrow> r
      | Some cs \<Rightarrow> r\<lparr>er_StableStore := er_StableStore r @ concat (map Marshal_Command cs)\<rparr>)"

section \<open>Sending\<close>

definition SendMsg :: "int \<Rightarrow> epaxos_msg \<Rightarrow> 'st EReplica \<Rightarrow> 'st EReplica option" where
  "SendMsg peerId m r =
     (if 0 \<le> peerId \<and> peerId < er_N r then
        (if peerId = er_Id r then Some r else Some (r\<lparr>er_sent := er_sent r @ [(peerId, m)]\<rparr>))
      else None)"

definition ReplyProposeTS :: "GPropose \<Rightarrow> ProposeReplyTS \<Rightarrow> 'st EReplica \<Rightarrow> 'st EReplica" where
  "ReplyProposeTS p res r = r\<lparr>er_replied := er_replied r @ [(p, res)]\<rparr>"

definition wire :: "command list option \<Rightarrow> command list" where
  "wire cmds = (case cmds of None \<Rightarrow> [] | Some cs \<Rightarrow> cs)"

definition send_all :: "int list \<Rightarrow> epaxos_msg \<Rightarrow> 'st EReplica \<Rightarrow> 'st EReplica" where
  "send_all qs m r = r\<lparr>er_sent := er_sent r @ map (\<lambda>q. (q, m)) (filter (\<lambda>q. q \<noteq> er_Id r \<and> er_Alive r ! nat q) qs)\<rparr>"

text \<open>The peers that follow in the ring, and those first in the preferred order.\<close>

definition ring :: "'st EReplica \<Rightarrow> int list" where
  "ring r = map (\<lambda>i. (er_Id r + i) mod er_N r) [1..er_N r - 1]"

definition preferred :: "int \<Rightarrow> 'st EReplica \<Rightarrow> int list" where
  "preferred n r =
     take (nat (max 1 n)) (filter (\<lambda>q. er_Alive r ! nat q) (take (nat (er_N r - 1)) (er_PreferredPeerOrder r)))"

text \<open>The broadcasts recover from a panic, so that nothing is sent for a missing instance or bookkeeping.\<close>

definition with_book ::
  "int \<Rightarrow> int \<Rightarrow> 'st EReplica \<Rightarrow> (einst \<Rightarrow> ebook \<Rightarrow> 'st EReplica) \<Rightarrow> 'st EReplica" where
  "with_book q i r f =
     (case get_inst r q i of
        Some (Some inst) \<Rightarrow> (case ei_lb inst of Some lb \<Rightarrow> f inst lb | None \<Rightarrow> r)
      | _ \<Rightarrow> r)"

definition bcastPrepare :: "int \<Rightarrow> int \<Rightarrow> 'st EReplica \<Rightarrow> 'st EReplica" where
  "bcastPrepare q i r = with_book q i r (\<lambda>inst lb. send_all (ring r)
     (EPrepareMsg \<lparr>EPrepare_LeaderId = er_Id r, EPrepare_Replica = q, EPrepare_Instance = i,
        EPrepare_Ballot = eb_lastTriedBallot lb\<rparr>) r)"

definition bcastPreAccept :: "int \<Rightarrow> int \<Rightarrow> 'st EReplica \<Rightarrow> 'st EReplica" where
  "bcastPreAccept q i r = with_book q i r (\<lambda>inst lb.
     send_all (preferred (if er_Thrifty r then FastQuorumSize (er_F r) - 1 else er_N r - 1) r)
       (EPreAcceptMsg \<lparr>EPreAccept_LeaderId = er_Id r, EPreAccept_Replica = q, EPreAccept_Instance = i,
          EPreAccept_Ballot = eb_lastTriedBallot lb, EPreAccept_Command = wire (eb_cmds lb),
          EPreAccept_Seq = eb_seq lb, EPreAccept_Deps = slice_of r (eb_deps lb)\<rparr>) r)"

definition bcastTryPreAccept :: "int \<Rightarrow> int \<Rightarrow> 'st EReplica \<Rightarrow> 'st EReplica" where
  "bcastTryPreAccept q i r = with_book q i r (\<lambda>inst lb. send_all [0..er_N r - 1]
     (ETryPreAcceptMsg \<lparr>ETryPreAccept_LeaderId = er_Id r, ETryPreAccept_Replica = q, ETryPreAccept_Instance = i,
        ETryPreAccept_Ballot = eb_lastTriedBallot lb, ETryPreAccept_Command = wire (eb_cmds lb),
        ETryPreAccept_Seq = eb_seq lb, ETryPreAccept_Deps = slice_of r (eb_deps lb)\<rparr>) r)"

definition bcastAccept :: "int \<Rightarrow> int \<Rightarrow> 'st EReplica \<Rightarrow> 'st EReplica" where
  "bcastAccept q i r = with_book q i r (\<lambda>inst lb.
     send_all (preferred (if er_Thrifty r then er_N r div 2 else er_N r - 1) r)
       (EAcceptMsg \<lparr>EAccept_LeaderId = er_Id r, EAccept_Replica = q, EAccept_Instance = i,
          EAccept_Ballot = eb_lastTriedBallot lb, EAccept_Seq = eb_seq lb,
          EAccept_Deps = slice_of r (eb_deps lb)\<rparr>) r)"

definition bcastCommit :: "int \<Rightarrow> int \<Rightarrow> 'st EReplica \<Rightarrow> 'st EReplica" where
  "bcastCommit q i r = with_book q i r (\<lambda>inst lb. send_all (preferred (er_N r - 1) r)
     (ECommitMsg \<lparr>ECommit_LeaderId = er_Id r, ECommit_Replica = q, ECommit_Instance = i,
        ECommit_Ballot = eb_ballot lb, ECommit_Command = wire (eb_cmds lb), ECommit_Seq = eb_seq lb,
        ECommit_Deps = slice_of r (eb_deps lb)\<rparr>) r)"

section \<open>Attributes\<close>

definition is_committed :: "einst option \<Rightarrow> bool" where
  "is_committed x = (case x of None \<Rightarrow> False | Some inst \<Rightarrow> ei_Status inst = COMMITTED \<or> ei_Status inst = EXECUTED)"

text \<open>The loop of \<open>updateCommitted\<close>: the last of the committed instances that follow \<open>c\<close>.\<close>

function committed_from :: "(int \<Rightarrow> einst option) \<Rightarrow> int \<Rightarrow> int option" where
  "committed_from row c =
     (if c + 1 < 0 \<or> MAX_INSTANCE \<le> c + 1 then None
      else if is_committed (row (c + 1)) then committed_from row (c + 1) else Some c)"
  by pat_completeness auto
termination by (relation "measure (\<lambda>(row, c). nat (MAX_INSTANCE - c))") auto

definition updateCommitted :: "int \<Rightarrow> 'st EReplica \<Rightarrow> 'st EReplica option" where
  "updateCommitted replica r = do {
     c \<leftarrow> at (er_CommittedUpTo r) replica;
     c \<leftarrow> committed_from (er_InstanceSpace r replica) c;
     Some (r\<lparr>er_CommittedUpTo := (er_CommittedUpTo r)[nat replica := c]\<rparr>) }"

definition update_pair :: "InstPair option \<Rightarrow> command \<Rightarrow> int \<Rightarrow> InstPair" where
  "update_pair x c i =
     (case x of
        Some ip \<Rightarrow>
          let ip1 = (if ip_last ip < i then ip\<lparr>ip_last := i\<rparr> else ip)
          in if ip_lastWrite ip1 < i \<and> Op c \<noteq> GET then ip1\<lparr>ip_lastWrite := i\<rparr> else ip1
      | None \<Rightarrow> \<lparr>ip_last = i, ip_lastWrite = (if Op c \<noteq> GET then i else -1)\<rparr>)"

definition update_conflict :: "int \<Rightarrow> int \<Rightarrow> int \<Rightarrow> command \<Rightarrow> 'st EReplica \<Rightarrow> 'st EReplica" where
  "update_conflict q i seq c r =
     r\<lparr>er_conflicts := (er_conflicts r)(q := (er_conflicts r q)(K c \<mapsto> update_pair (er_conflicts r q (K c)) c i)),
       er_maxSeqPerKey := (case er_maxSeqPerKey r (K c) of
          Some s \<Rightarrow> if s < seq then (er_maxSeqPerKey r)(K c \<mapsto> seq) else er_maxSeqPerKey r
        | None \<Rightarrow> (er_maxSeqPerKey r)(K c \<mapsto> seq))\<rparr>"

definition updateConflicts :: "command list \<Rightarrow> int \<Rightarrow> int \<Rightarrow> int \<Rightarrow> 'st EReplica \<Rightarrow> 'st EReplica" where
  "updateConflicts cmds q i seq r = fold (update_conflict q i seq) cmds r"

text \<open>
  The inner loop of \<open>updateAttributes\<close>, over the commands, which ends at the first command that changes the
  dependency on \<open>q\<close>; the outer loop, over the replicas; and the loop over the largest sequence numbers.
\<close>

definition last_conflict :: "command \<Rightarrow> InstPair \<Rightarrow> int" where
  "last_conflict c ip = (if Op c \<noteq> GET then ip_last ip else ip_lastWrite ip)"

fun attr_cmds :: "'st EReplica \<Rightarrow> int \<Rightarrow> command list \<Rightarrow> int \<times> int list \<times> bool \<Rightarrow> (int \<times> int list \<times> bool) option" where
  "attr_cmds r q [] acc = Some acc"
| "attr_cmds r q (c # cs) (seq, deps, changed) =
     (case er_conflicts r q (K c) of
        None \<Rightarrow> attr_cmds r q cs (seq, deps, changed)
      | Some ip \<Rightarrow> do {
          let d = last_conflict c ip;
          dq \<leftarrow> at deps q;
          if d > dq then do {
            x \<leftarrow> get_inst r q d;
            inst \<leftarrow> x;
            Some (if seq \<le> ei_Seq inst then wrap32 (ei_Seq inst + 1) else seq, deps[nat q := d], True) }
          else attr_cmds r q cs (seq, deps, changed) })"

fun attr_replicas :: "'st EReplica \<Rightarrow> int \<Rightarrow> command list \<Rightarrow> int list \<Rightarrow> int \<times> int list \<times> bool \<Rightarrow> (int \<times> int list \<times> bool) option" where
  "attr_replicas r replica cmds [] acc = Some acc"
| "attr_replicas r replica cmds (q # qs) acc =
     (if er_Id r \<noteq> replica \<and> q = replica then attr_replicas r replica cmds qs acc
      else do { acc \<leftarrow> attr_cmds r q cmds acc; attr_replicas r replica cmds qs acc })"

fun attr_seqs :: "'st EReplica \<Rightarrow> command list \<Rightarrow> int \<times> bool \<Rightarrow> int \<times> bool" where
  "attr_seqs r [] acc = acc"
| "attr_seqs r (c # cs) (seq, changed) =
     (case er_maxSeqPerKey r (K c) of
        Some s \<Rightarrow> if seq \<le> s then attr_seqs r cs (wrap32 (s + 1), True) else attr_seqs r cs (seq, changed)
      | None \<Rightarrow> attr_seqs r cs (seq, changed))"

definition updateAttributes ::
  "command list \<Rightarrow> int \<Rightarrow> slice \<Rightarrow> int \<Rightarrow> 'st EReplica \<Rightarrow> (int \<times> bool \<times> 'st EReplica) option" where
  "updateAttributes cmds seq deps replica r = do {
     (seq, ds, changed) \<leftarrow> attr_replicas r replica cmds [0..er_N r - 1] (seq, slice_of r deps, False);
     let (seq, changed) = attr_seqs r cmds (seq, changed);
     Some (seq, changed, set_slice deps ds r) }"

fun merge_deps :: "int \<Rightarrow> int list \<Rightarrow> int list \<Rightarrow> int list \<times> bool \<Rightarrow> (int list \<times> bool) option" where
  "merge_deps self [] ds2 acc = Some acc"
| "merge_deps self (q # qs) ds2 (ds1, eq) =
     (if q = self then merge_deps self qs ds2 (ds1, eq)
      else do {
        d1 \<leftarrow> at ds1 q; d2 \<leftarrow> at ds2 q;
        merge_deps self qs ds2 (if d2 > d1 then ds1[nat q := d2] else ds1, eq \<and> d1 = d2) })"

text \<open>\<open>mergeAttributes\<close>, which writes into its first slice.\<close>

definition mergeAttributes ::
  "int \<Rightarrow> slice \<Rightarrow> int \<Rightarrow> slice \<Rightarrow> 'st EReplica \<Rightarrow> (int \<times> bool \<times> 'st EReplica) option" where
  "mergeAttributes seq1 deps1 seq2 deps2 r = do {
     (ds, eq) \<leftarrow> merge_deps (er_Id r) [0..er_N r - 1] (slice_of r deps2) (slice_of r deps1, seq1 = seq2);
     Some (max seq1 seq2, eq, set_slice deps1 ds r) }"

fun equal_deps :: "int list \<Rightarrow> int list \<Rightarrow> bool option" where
  "equal_deps [] ds2 = Some True"
| "equal_deps (d # ds1) [] = None"
| "equal_deps (d # ds1) (e # ds2) = (if d \<noteq> e then Some False else equal_deps ds1 ds2)"

section \<open>Ballots\<close>

definition isInitialBallot :: "int \<Rightarrow> int \<Rightarrow> bool" where
  "isInitialBallot ballot replica \<longleftrightarrow> ballot = replica"

text \<open>\<open>None\<close> if the loop of \<open>makeBallot\<close> does not end.\<close>

partial_function (option) eballot_loop :: "int \<Rightarrow> int \<Rightarrow> int \<Rightarrow> int option" where
  "eballot_loop N m n = (if n < m then eballot_loop N m (wrap32 (n + wrap32 N)) else Some n)"

definition new_ballot :: "int \<Rightarrow> 'st EReplica \<Rightarrow> int option" where
  "new_ballot replica r =
     (let n = (if er_Id r \<noteq> replica then wrap32 (er_Id r + wrap32 (er_N r)) else er_Id r)
      in if er_IsLeader r then eballot_loop (er_N r) (er_maxRecvBallot r) n else Some n)"

definition makeBallot :: "int \<Rightarrow> int \<Rightarrow> 'st EReplica \<Rightarrow> 'st EReplica option" where
  "makeBallot q i r = do {
     x \<leftarrow> get_inst r q i;
     inst \<leftarrow> x;
     lb \<leftarrow> ei_lb inst;
     n \<leftarrow> new_ballot q r;
     Some (put_inst q i (inst\<lparr>ei_lb := Some (lb\<lparr>eb_lastTriedBallot := n\<rparr>)\<rparr>) r) }"

text \<open>What a leader does when enough replicas have refused its ballot.\<close>

definition retry :: "int \<Rightarrow> int \<Rightarrow> ebook \<Rightarrow> 'st EReplica \<Rightarrow> 'st EReplica option" where
  "retry q i lb r =
     (if eb_nacks lb + 1 > er_N r div 2 \<and> er_IsLeader r
      then do { r \<leftarrow> makeBallot q i r; Some (bcastPrepare q i r) } else Some r)"

section \<open>Phase 1\<close>

definition startPhase1 ::
  "command list option \<Rightarrow> int \<Rightarrow> int \<Rightarrow> int \<Rightarrow> GPropose list option \<Rightarrow> 'st EReplica \<Rightarrow> 'st EReplica option" where
  "startPhase1 cmds q i ballot proposals r = do {
     let (deps, r) = new_slice (newNilDeps r) r;
     (seq, _, r) \<leftarrow> updateAttributes (wire cmds) 0 deps q r;
     _ \<leftarrow> get_inst r q i;
     let lb = newLeaderBookkeeping r proposals deps (newNilDeps r) deps ballot cmds PREACCEPTED (-1);
     let inst = (newInstance r q i cmds ballot ballot PREACCEPTED seq deps)\<lparr>ei_lb := Some lb\<rparr>;
     let r = updateConflicts (wire cmds) q i seq (put_inst q i inst r);
     let r = (if seq \<ge> er_maxSeq r then r\<lparr>er_maxSeq := seq\<rparr> else r);
     x \<leftarrow> get_inst r (er_Id r) i;
     r \<leftarrow> recordInstanceMetadata x r;
     let r = recordCommands cmds r;
     Some (bcastPreAccept q i r) }"

definition handlePropose :: "GPropose \<Rightarrow> 'st EReplica \<Rightarrow> 'st EReplica option" where
  "handlePropose propose r = do {
     let proposals = propose # er_ProposeChan r;
     let r = r\<lparr>er_ProposeChan := []\<rparr>;
     c \<leftarrow> at (er_crtInstance r) (er_Id r);
     let c = wrap32 (c + 1);
     let r = r\<lparr>er_crtInstance := (er_crtInstance r)[nat (er_Id r) := c]\<rparr>;
     startPhase1 (Some (map Propose_Command proposals)) (er_Id r) c (er_Id r) (Some proposals) r }"

definition handlePreAccept :: "EPreAccept \<Rightarrow> 'st EReplica \<Rightarrow> 'st EReplica option" where
  "handlePreAccept m r = do {
     let q = EPreAccept_Replica m; let i = EPreAccept_Instance m; let cmds = EPreAccept_Command m;
     _ \<leftarrow> get_inst r q i;
     let r = (if EPreAccept_Seq m \<ge> er_maxSeq r then r\<lparr>er_maxSeq := wrap32 (EPreAccept_Seq m + 1)\<rparr> else r);
     let r = note_ballot (EPreAccept_Ballot m) r;
     r \<leftarrow> note_instance q i r;
     (inst, r) \<leftarrow> ensure_inst q i r;
     if EPreAccept_Ballot m < ei_bal inst then Some r
     else do {
       let inst = inst\<lparr>ei_bal := EPreAccept_Ballot m\<rparr>;
       let r = put_inst q i inst r;
       r \<leftarrow> (if ei_Status inst \<ge> ACCEPTED then
               (if ei_Cmds inst = None then do {
                  x \<leftarrow> get_inst r (EPreAccept_LeaderId m) i;
                  other \<leftarrow> x;
                  let r = put_inst (EPreAccept_LeaderId m) i (other\<lparr>ei_Cmds := Some cmds\<rparr>) r;
                  let r = updateConflicts cmds q i (EPreAccept_Seq m) r;
                  Some (recordCommands (Some cmds) r) }
                else Some r)
             else do {
               let (deps, r) = new_slice (EPreAccept_Deps m) r;
               (seq, changed, r) \<leftarrow> updateAttributes cmds (EPreAccept_Seq m) deps q r;
               let inst = inst\<lparr>ei_Cmds := Some cmds, ei_Seq := seq, ei_Deps := deps,
                               ei_vbal := EPreAccept_Ballot m,
                               ei_Status := (if changed then PREACCEPTED else PREACCEPTED_EQ)\<rparr>;
               let r = updateConflicts cmds q i (EPreAccept_Seq m) (put_inst q i inst r);
               r \<leftarrow> recordInstanceMetadata (Some inst) r;
               Some (recordCommands (Some cmds) r) });
       x \<leftarrow> get_inst r q i;
       inst \<leftarrow> x;
       SendMsg (EPreAccept_LeaderId m) (EPreAcceptReplyMsg
         \<lparr>EPreAcceptReply_Replica = q, EPreAcceptReply_Instance = i, EPreAcceptReply_Ballot = ei_bal inst,
          EPreAcceptReply_VBallot = ei_vbal inst, EPreAcceptReply_Seq = ei_Seq inst,
          EPreAcceptReply_Deps = slice_of r (ei_Deps inst),
          EPreAcceptReply_CommittedDeps = er_CommittedUpTo r, EPreAcceptReply_Status = ei_Status inst\<rparr>) r } }"

text \<open>The replies to the clients when their commands are committed, for replicas that do not answer later.\<close>

definition reply_proposals :: "ebook \<Rightarrow> 'st EReplica \<Rightarrow> 'st EReplica" where
  "reply_proposals lb r =
     (case eb_clientProposals lb of
        Some ps \<Rightarrow>
          if er_Dreply r then r
          else fold (\<lambda>p. ReplyProposeTS p \<lparr>ProposeReplyTS_OK = 1, ProposeReplyTS_CommandId = Propose_CommandId p,
                        ProposeReplyTS_Value = NIL, ProposeReplyTS_Timestamp = Propose_Timestamp p\<rparr>) ps r
      | None \<Rightarrow> r)"

text \<open>The loop over the dependencies that other replicas have committed, for more than seven replicas.\<close>

fun committed_deps :: "'st EReplica \<Rightarrow> int list \<Rightarrow> int list \<Rightarrow> int list \<Rightarrow> int list \<times> bool \<Rightarrow> (int list \<times> bool) option" where
  "committed_deps r replyDeps instDeps [] acc = Some acc"
| "committed_deps r replyDeps instDeps (q # qs) (cds, all) = do {
     c \<leftarrow> at cds q; d \<leftarrow> at replyDeps q;
     let c = max c d;
     u \<leftarrow> at (er_CommittedUpTo r) q;
     let c = max c u;
     e \<leftarrow> at instDeps q;
     committed_deps r replyDeps instDeps qs (cds[nat q := c], all \<and> \<not> c < e) }"

text \<open>The instance gets the attributes of its bookkeeping, with a new status.\<close>

definition conclude :: "int \<Rightarrow> int \<Rightarrow> int \<Rightarrow> einst \<Rightarrow> ebook \<Rightarrow> 'st EReplica \<Rightarrow> 'st EReplica option" where
  "conclude q i status inst lb r = do {
     let lb = lb\<lparr>eb_status := status\<rparr>;
     let inst = inst\<lparr>ei_lb := Some lb, ei_Status := status, ei_bal := eb_ballot lb, ei_Cmds := eb_cmds lb,
                     ei_Deps := eb_deps lb, ei_Seq := eb_seq lb\<rparr>;
     recordInstanceMetadata (Some inst) (put_inst q i inst r) }"

definition handlePreAcceptReply :: "EPreAcceptReply \<Rightarrow> 'st EReplica \<Rightarrow> 'st EReplica option" where
  "handlePreAcceptReply m r = do {
     let q = EPreAcceptReply_Replica m; let i = EPreAcceptReply_Instance m;
     x \<leftarrow> get_inst r q i;
     inst \<leftarrow> x;
     let r = note_ballot (EPreAcceptReply_Ballot m) r;
     lb \<leftarrow> ei_lb inst;
     if eb_lastTriedBallot lb > EPreAcceptReply_Ballot m then Some r
     else if eb_lastTriedBallot lb < EPreAcceptReply_Ballot m then do {
       let lb = lb\<lparr>eb_nacks := eb_nacks lb + 1\<rparr>;
       retry q i lb (put_inst q i (inst\<lparr>ei_lb := Some lb\<rparr>) r) }
     else if eb_status lb \<noteq> PREACCEPTED \<and> eb_status lb \<noteq> PREACCEPTED_EQ then Some r
     else do {
       let (deps, r) = new_slice (EPreAcceptReply_Deps m) r;
       let lb = lb\<lparr>eb_preAcceptOKs := eb_preAcceptOKs lb + 1\<rparr>;
       let lb = (if EPreAcceptReply_VBallot m > eb_ballot lb
                 then lb\<lparr>eb_ballot := EPreAcceptReply_VBallot m, eb_seq := EPreAcceptReply_Seq m,
                         eb_deps := deps, eb_status := EPreAcceptReply_Status m\<rparr>
                 else lb);
       (seq, allEqual, r) \<leftarrow> mergeAttributes (eb_seq lb) (eb_deps lb) (EPreAcceptReply_Seq m) deps r;
       let lb = (if er_N r \<le> 3 \<and> er_Thrifty r then lb else lb\<lparr>eb_allEqual := eb_allEqual lb \<and> allEqual\<rparr>);
       (cds, allCommitted) \<leftarrow>
         (if er_N r > 7
          then committed_deps r (EPreAcceptReply_CommittedDeps m) (slice_of r (ei_Deps inst)) [0..er_N r - 1]
                 (eb_committedDeps lb, True)
          else Some (eb_committedDeps lb, True));
       let lb = lb\<lparr>eb_committedDeps := cds\<rparr>;
       let lb = (if eb_status lb \<le> PREACCEPTED_EQ then lb\<lparr>eb_seq := seq\<rparr> else lb);
       let precondition = eb_allEqual lb \<and> allCommitted \<and> isInitialBallot (eb_lastTriedBallot lb) q;
       if eb_preAcceptOKs lb \<ge> FastQuorumSize (er_F r) - 1 then
         (if precondition then do {
            r \<leftarrow> conclude q i COMMITTED inst lb r;
            r \<leftarrow> updateCommitted q r;
            Some (bcastCommit q i (reply_proposals lb r)) }
          else do {
            r \<leftarrow> conclude q i ACCEPTED inst lb r;
            Some (bcastAccept q i r) })
       else Some (put_inst q i (inst\<lparr>ei_lb := Some lb\<rparr>) r) } }"

section \<open>Phase 2 and commit\<close>

definition handleAccept :: "EAccept \<Rightarrow> 'st EReplica \<Rightarrow> 'st EReplica option" where
  "handleAccept m r = do {
     let q = EAccept_Replica m; let i = EAccept_Instance m;
     _ \<leftarrow> get_inst r q i;
     let r = note_ballot (EAccept_Ballot m) r;
     r \<leftarrow> note_instance q i r;
     (inst, r) \<leftarrow> ensure_inst q i r;
     (inst, r) \<leftarrow>
       (if EAccept_Ballot m < ei_bal inst then Some (inst, r)
        else if ei_Status inst \<ge> COMMITTED then Some (inst, r)
        else do {
          let (deps, r) = new_slice (EAccept_Deps m) r;
          let inst = inst\<lparr>ei_Deps := deps, ei_Seq := EAccept_Seq m, ei_bal := EAccept_Ballot m,
                          ei_vbal := EAccept_Ballot m\<rparr>;
          r \<leftarrow> recordInstanceMetadata (Some inst) (put_inst q i inst r);
          Some (inst, r) });
     SendMsg (EAccept_LeaderId m)
       (EAcceptReplyMsg \<lparr>EAcceptReply_Replica = q, EAcceptReply_Instance = i, EAcceptReply_Ballot = ei_bal inst\<rparr>) r }"

definition handleAcceptReply :: "EAcceptReply \<Rightarrow> 'st EReplica \<Rightarrow> 'st EReplica option" where
  "handleAcceptReply m r = do {
     let q = EAcceptReply_Replica m; let i = EAcceptReply_Instance m;
     x \<leftarrow> get_inst r q i;
     inst \<leftarrow> x;
     let r = note_ballot (EAcceptReply_Ballot m) r;
     lb \<leftarrow> ei_lb inst;
     if eb_status lb \<noteq> ACCEPTED then Some r
     else if eb_lastTriedBallot lb \<noteq> EAcceptReply_Ballot m then Some r
     else if EAcceptReply_Ballot m > eb_lastTriedBallot lb then do {
       let lb = lb\<lparr>eb_nacks := eb_nacks lb + 1\<rparr>;
       retry q i lb (put_inst q i (inst\<lparr>ei_lb := Some lb\<rparr>) r) }
     else do {
       let lb = lb\<lparr>eb_acceptOKs := eb_acceptOKs lb + 1\<rparr>;
       if eb_acceptOKs lb + 1 > er_N r div 2 then do {
         let lb = lb\<lparr>eb_status := COMMITTED\<rparr>;
         let inst = inst\<lparr>ei_lb := Some lb, ei_Status := COMMITTED\<rparr>;
         r \<leftarrow> updateCommitted q (put_inst q i inst r);
         r \<leftarrow> recordInstanceMetadata (Some inst) r;
         Some (bcastCommit q i (reply_proposals lb r)) }
       else Some (put_inst q i (inst\<lparr>ei_lb := Some lb\<rparr>) r) } }"

text \<open>
  \<open>handleCommit\<close>.  A replica whose own instance was committed with no operation takes its clients' proposals
  back into its channel.
\<close>

definition take_back :: "ECommit \<Rightarrow> einst \<Rightarrow> 'st EReplica \<Rightarrow> (einst \<times> 'st EReplica) option" where
  "take_back m inst r =
     (case ECommit_Command m of
        [c] \<Rightarrow>
          if ECommit_Replica m = er_Id r \<and> Op c = NONE then do {
            lb \<leftarrow> ei_lb inst;
            Some (case eb_clientProposals lb of
                    None \<Rightarrow> (inst, r)
                  | Some ps \<Rightarrow> (inst\<lparr>ei_lb := Some (lb\<lparr>eb_clientProposals := None\<rparr>)\<rparr>,
                               r\<lparr>er_ProposeChan := er_ProposeChan r @ ps\<rparr>)) }
          else Some (inst, r)
      | _ \<Rightarrow> Some (inst, r))"

definition handleCommit :: "ECommit \<Rightarrow> 'st EReplica \<Rightarrow> 'st EReplica option" where
  "handleCommit m r = do {
     let q = ECommit_Replica m; let i = ECommit_Instance m;
     _ \<leftarrow> get_inst r q i;
     r \<leftarrow> note_instance q i r;
     let r = note_ballot (ECommit_Ballot m) r;
     (inst, r) \<leftarrow> ensure_inst q i r;
     if ei_Status inst \<ge> COMMITTED then Some r
     else if ECommit_Ballot m < ei_bal inst then Some r
     else do {
       (inst, r) \<leftarrow> take_back m inst r;
       let (deps, r) = new_slice (ECommit_Deps m) r;
       let inst = inst\<lparr>ei_bal := ECommit_Ballot m, ei_vbal := ECommit_Ballot m,
                       ei_Cmds := Some (ECommit_Command m), ei_Seq := ECommit_Seq m, ei_Deps := deps,
                       ei_Status := COMMITTED\<rparr>;
       let r = updateConflicts (ECommit_Command m) q i (ECommit_Seq m) (put_inst q i inst r);
       r \<leftarrow> updateCommitted q r;
       r \<leftarrow> recordInstanceMetadata (Some inst) r;
       Some (recordCommands (Some (ECommit_Command m)) r) } }"

section \<open>Recovery\<close>

definition startRecoveryForInstance :: "int \<Rightarrow> int \<Rightarrow> 'st EReplica \<Rightarrow> 'st EReplica option" where
  "startRecoveryForInstance q i r = do {
     x \<leftarrow> get_inst r q i;
     (inst, r) \<leftarrow> ensure_inst q i r;
     if x \<noteq> None \<and> ei_Status inst \<ge> COMMITTED \<and> ei_Cmds inst \<noteq> None then Some r
     else do {
       let proposals = (case ei_lb inst of None \<Rightarrow> None | Some lb \<Rightarrow> eb_clientProposals lb);
       let (lb, r) = newLeaderBookkeepingDefault r;
       let lb = lb\<lparr>eb_clientProposals := proposals, eb_ballot := ei_vbal inst, eb_seq := ei_Seq inst,
                   eb_cmds := ei_Cmds inst, eb_deps := ei_Deps inst, eb_status := ei_Status inst\<rparr>;
       n \<leftarrow> new_ballot q r;
       let lb = lb\<lparr>eb_lastTriedBallot := n\<rparr>;
       let inst = inst\<lparr>ei_bal := n, ei_vbal := n\<rparr>;
       let preply = \<lparr>pp_AcceptorId = er_Id r, pp_Replica = q, pp_VBallot = ei_vbal inst, pp_Status = ei_Status inst,
                     pp_Command = ei_Cmds inst, pp_Seq = ei_Seq inst, pp_Deps = ei_Deps inst\<rparr>;
       let lb = lb\<lparr>eb_prepareReplies := [preply], eb_leaderResponded := (er_Id r = q)\<rparr>;
       Some (bcastPrepare q i (put_inst q i (inst\<lparr>ei_lb := Some lb\<rparr>) r)) } }"

definition handlePrepare :: "EPrepare \<Rightarrow> 'st EReplica \<Rightarrow> 'st EReplica option" where
  "handlePrepare m r = do {
     let q = EPrepare_Replica m; let i = EPrepare_Instance m;
     _ \<leftarrow> get_inst r q i;
     let r = note_ballot (EPrepare_Ballot m) r;
     (inst, r) \<leftarrow> ensure_inst q i r;
     let inst = (if ei_bal inst < EPrepare_Ballot m then inst\<lparr>ei_bal := EPrepare_Ballot m\<rparr> else inst);
     SendMsg (EPrepare_LeaderId m) (EPrepareReplyMsg
       \<lparr>EPrepareReply_AcceptorId = er_Id r, EPrepareReply_Replica = q, EPrepareReply_Instance = i,
        EPrepareReply_Ballot = ei_bal inst, EPrepareReply_VBallot = ei_vbal inst,
        EPrepareReply_Status = ei_Status inst, EPrepareReply_Command = wire (ei_Cmds inst),
        EPrepareReply_Seq = ei_Seq inst, EPrepareReply_Deps = slice_of r (ei_Deps inst)\<rparr>)
       (put_inst q i inst r) }"

text \<open>The loops of \<open>handlePrepareReply\<close>: the attributes in the highest ballot, and whether they agree.\<close>

definition take_prepared :: "prepared \<Rightarrow> ebook \<times> int \<Rightarrow> ebook \<times> int" where
  "take_prepared e = (\<lambda>(lb, preAcceptCount).
     let lb = (if pp_VBallot e \<ge> eb_ballot lb
               then lb\<lparr>eb_ballot := pp_VBallot e, eb_cmds := pp_Command e, eb_seq := pp_Seq e,
                       eb_deps := pp_Deps e, eb_status := pp_Status e\<rparr>
               else lb);
         lb = (if pp_AcceptorId e = pp_Replica e then lb\<lparr>eb_leaderResponded := True\<rparr> else lb)
     in (lb, if pp_Status e = PREACCEPTED_EQ \<or> pp_Status e = PREACCEPTED then preAcceptCount + 1 else preAcceptCount))"

fun prepared_agree :: "ebook \<Rightarrow> prepared list \<Rightarrow> 'st EReplica \<Rightarrow> (bool \<times> 'st EReplica) option" where
  "prepared_agree lb [] r = Some (True, r)"
| "prepared_agree lb (e # es) r =
     (if pp_VBallot e = eb_ballot lb \<and> pp_Status e \<ge> PREACCEPTED then do {
        (_, eq, r) \<leftarrow> mergeAttributes (eb_seq lb) (eb_deps lb) (pp_Seq e) (pp_Deps e) r;
        if eq then prepared_agree lb es r else Some (False, r) }
      else prepared_agree lb es r)"

definition sub_case :: "ebook \<Rightarrow> int \<Rightarrow> 'st EReplica \<Rightarrow> (nat \<times> 'st EReplica) option" where
  "sub_case lb preAcceptCount r =
     (if eb_status lb \<ge> COMMITTED then Some (1, r)
      else if eb_status lb = ACCEPTED then Some (2, r)
      else if eb_status lb = PREACCEPTED \<or> eb_status lb = PREACCEPTED_EQ then do {
        (allEqual, r) \<leftarrow> prepared_agree lb (eb_prepareReplies lb) r;
        let enough = (preAcceptCount \<ge> SlowQuorumSize (er_N r) - 1);
        if enough \<and> \<not> eb_leaderResponded lb \<and> allEqual then Some (3, r)
        else if enough \<and> \<not> eb_leaderResponded lb \<and> allEqual then Some (4, r)
        else if preAcceptCount > 0 \<and> (eb_leaderResponded lb \<or> \<not> allEqual \<or> \<not> enough) then Some (5, r)
        else None }
      else if eb_status lb = ST_NONE then Some (6, r)
      else None)"

definition handlePrepareReply :: "EPrepareReply \<Rightarrow> 'st EReplica \<Rightarrow> 'st EReplica option" where
  "handlePrepareReply m r = do {
     let q = EPrepareReply_Replica m; let i = EPrepareReply_Instance m;
     x \<leftarrow> get_inst r q i;
     inst \<leftarrow> x;
     let r = note_ballot (EPrepareReply_Ballot m) r;
     case ei_lb inst of
       None \<Rightarrow> Some r
     | Some lb \<Rightarrow>
         if \<not> eb_preparing lb then Some r
         else if EPrepareReply_Ballot m \<noteq> eb_lastTriedBallot lb then
           Some (put_inst q i (inst\<lparr>ei_lb := Some (lb\<lparr>eb_nacks := eb_nacks lb + 1\<rparr>)\<rparr>) r)
         else do {
           let (deps, r) = new_slice (EPrepareReply_Deps m) r;
           let e = \<lparr>pp_AcceptorId = EPrepareReply_AcceptorId m, pp_Replica = q,
                    pp_VBallot = EPrepareReply_VBallot m, pp_Status = EPrepareReply_Status m,
                    pp_Command = Some (EPrepareReply_Command m), pp_Seq = EPrepareReply_Seq m, pp_Deps = deps\<rparr>;
           let lb = lb\<lparr>eb_prepareReplies := eb_prepareReplies lb @ [e]\<rparr>;
           if int (length (eb_prepareReplies lb)) < SlowQuorumSize (er_N r) then
             Some (put_inst q i (inst\<lparr>ei_lb := Some lb\<rparr>) r)
           else do {
             let lb = lb\<lparr>eb_preparing := False\<rparr>;
             let (lb, preAcceptCount) = fold take_prepared (eb_prepareReplies lb) (lb, 0);
             (subCase, r) \<leftarrow> sub_case lb preAcceptCount r;
             let inst = inst\<lparr>ei_Cmds := eb_cmds lb, ei_bal := eb_lastTriedBallot lb, ei_vbal := eb_lastTriedBallot lb,
                             ei_Seq := eb_seq lb, ei_Deps := eb_deps lb, ei_Status := eb_status lb\<rparr>;
             if subCase = 1 then Some (put_inst q i (inst\<lparr>ei_lb := Some lb\<rparr>) r)
             else if subCase = 2 \<or> subCase = 3 then
               (let lb = lb\<lparr>eb_status := ACCEPTED\<rparr>
                in Some (bcastAccept q i (put_inst q i (inst\<lparr>ei_lb := Some lb, ei_Status := ACCEPTED\<rparr>) r)))
             else if subCase = 4 then
               (let lb = lb\<lparr>eb_tryingToPreAccept := True\<rparr>
                in Some (bcastTryPreAccept q i (put_inst q i (inst\<lparr>ei_lb := Some lb\<rparr>) r)))
             else
               startPhase1 (Some (case eb_cmds lb of None \<Rightarrow> NOOP | Some cs \<Rightarrow> cs)) q i (eb_lastTriedBallot lb)
                 (eb_clientProposals lb) (put_inst q i (inst\<lparr>ei_lb := Some lb\<rparr>) r) } } }"

section \<open>Trying to pre-accept\<close>

text \<open>
  The loops of \<open>findPreAcceptConflicts\<close>: one instance (\<open>break\<close> ends the loop over a replica's instances, \<open>Found\<close>
  the search), one replica, all replicas.
\<close>

datatype scan = Break | Continue | Found int int

definition scan_inst ::
  "'st EReplica \<Rightarrow> command list \<Rightarrow> int \<Rightarrow> int \<Rightarrow> int \<Rightarrow> int list \<Rightarrow> int \<Rightarrow> int \<Rightarrow> scan option" where
  "scan_inst r cmds replica instance_no seq deps q i =
     (if i = -1 then Some Continue
      else if replica = q \<and> instance_no = i then Some Break
      else do {
        dq \<leftarrow> at deps q;
        if i = dq then Some Continue
        else do {
          x \<leftarrow> get_inst r q i;
          case x of None \<Rightarrow> Some Continue
          | Some inst \<Rightarrow>
              if wire (ei_Cmds inst) = [] then Some Continue
              else do {
                d \<leftarrow> at (slice_of r (ei_Deps inst)) replica;
                if d \<ge> instance_no then Some Continue
                else do {
                  c \<leftarrow> (if er_LRead r then Some True else ConflictBatch (wire (ei_Cmds inst)) cmds);
                  Some (if c \<and> (i > dq \<or> i < dq \<and> ei_Seq inst \<ge> seq \<and>
                                   (q \<noteq> replica \<or> ei_Status inst > PREACCEPTED_EQ))
                        then Found q i else Continue) } } } })"

fun scan_row :: "('i \<Rightarrow> scan option) \<Rightarrow> 'i list \<Rightarrow> (int \<times> int) option option" where
  "scan_row f [] = Some None"
| "scan_row f (i # is) = do {
     s \<leftarrow> f i;
     case s of Break \<Rightarrow> Some None | Continue \<Rightarrow> scan_row f is | Found q j \<Rightarrow> Some (Some (q, j)) }"

fun scan_rows :: "(int \<Rightarrow> (int \<times> int) option option) \<Rightarrow> int list \<Rightarrow> (int \<times> int) option option" where
  "scan_rows f [] = Some None"
| "scan_rows f (q # qs) = do {
     s \<leftarrow> f q;
     case s of Some c \<Rightarrow> Some (Some c) | None \<Rightarrow> scan_rows f qs }"

definition findPreAcceptConflicts ::
  "command list \<Rightarrow> int \<Rightarrow> int \<Rightarrow> int \<Rightarrow> int list \<Rightarrow> 'st EReplica \<Rightarrow> (int \<times> int) option option" where
  "findPreAcceptConflicts cmds replica instance_no seq deps r = do {
     x \<leftarrow> get_inst r replica instance_no;
     known \<leftarrow>
       (case x of
          Some inst \<Rightarrow>
            if wire (ei_Cmds inst) = [] then Some None
            else if ei_Status inst \<ge> ACCEPTED then Some (Some (Some (replica, instance_no)))
            else if ei_Seq inst = seq then do {
              e \<leftarrow> equal_deps (slice_of r (ei_Deps inst)) deps;
              Some (if e then Some None else None) }
            else Some None
        | None \<Rightarrow> Some None);
     case known of
       Some result \<Rightarrow> Some result
     | None \<Rightarrow>
         scan_rows (\<lambda>q. do {
             from \<leftarrow> at (er_ExecedUpTo r) q;
             upto \<leftarrow> at (er_crtInstance r) q;
             scan_row (scan_inst r cmds replica instance_no seq deps q) [from..upto] })
           [0..er_N r - 1] }"

definition handleTryPreAccept :: "ETryPreAccept \<Rightarrow> 'st EReplica \<Rightarrow> 'st EReplica option" where
  "handleTryPreAccept m r = do {
     let q = ETryPreAccept_Replica m; let i = ETryPreAccept_Instance m;
     (inst, r) \<leftarrow> ensure_inst q i r;
     if ei_bal inst > ETryPreAccept_Ballot m then Some r
     else do {
       let inst = inst\<lparr>ei_bal := ETryPreAccept_Ballot m\<rparr>;
       let r = put_inst q i inst r;
       (conf, inst, r) \<leftarrow>
         (if ei_Status inst = ST_NONE then do {
            c \<leftarrow> findPreAcceptConflicts (ETryPreAccept_Command m) q i (ETryPreAccept_Seq m) (ETryPreAccept_Deps m) r;
            case c of
              Some conf \<Rightarrow> Some (conf, inst, r)
            | None \<Rightarrow> do {
                r \<leftarrow> note_instance q i r;
                let (deps, r) = new_slice (ETryPreAccept_Deps m) r;
                let inst = inst\<lparr>ei_Cmds := Some (ETryPreAccept_Command m), ei_Seq := ETryPreAccept_Seq m,
                                ei_Deps := deps, ei_Status := PREACCEPTED\<rparr>;
                Some ((0, 0), inst, put_inst q i inst r) } }
          else Some ((0, 0), inst, r));
       SendMsg (ETryPreAccept_LeaderId m) (ETryPreAcceptReplyMsg
         \<lparr>ETryPreAcceptReply_AcceptorId = er_Id r, ETryPreAcceptReply_Replica = q,
          ETryPreAcceptReply_Instance = i, ETryPreAcceptReply_Ballot = ei_bal inst,
          ETryPreAcceptReply_VBallot = ei_vbal inst, ETryPreAcceptReply_ConflictReplica = fst conf,
          ETryPreAcceptReply_ConflictInstance = snd conf, ETryPreAcceptReply_ConflictStatus = ST_NONE\<rparr>) r } }"

text \<open>The map against cycles of deferred instances; its keys and values are two 32-bit numbers in one of 64 bits.\<close>

definition pack :: "int \<Rightarrow> int \<Rightarrow> int" where
  "pack q i = (take_bit 64 (push_bit 32 (take_bit 64 q))) OR (take_bit 64 i)"

definition updateDeferred :: "int \<Rightarrow> int \<Rightarrow> int \<Rightarrow> int \<Rightarrow> 'st EReplica \<Rightarrow> 'st EReplica" where
  "updateDeferred dr di q i r = r\<lparr>er_deferMap := (er_deferMap r)(pack q i \<mapsto> pack dr di)\<rparr>"

definition deferredByInstance :: "int \<Rightarrow> int \<Rightarrow> 'st EReplica \<Rightarrow> (int \<times> int) option" where
  "deferredByInstance q i r = map_option (\<lambda>d. (wrap32 (drop_bit 32 d), wrap32 d)) (er_deferMap r (pack q i))"

text \<open>The count of the code is of the acceptor of the reply, once per replica.\<close>

definition handleTryPreAcceptReply :: "ETryPreAcceptReply \<Rightarrow> 'st EReplica \<Rightarrow> 'st EReplica option" where
  "handleTryPreAcceptReply m r = do {
     let q = ETryPreAcceptReply_Replica m; let i = ETryPreAcceptReply_Instance m;
     _ \<leftarrow> get_inst r q i;
     let r = note_ballot (ETryPreAcceptReply_Ballot m) r;
     (inst, r) \<leftarrow> ensure_inst q i r;
     case ei_lb inst of
       None \<Rightarrow> Some r
     | Some lb \<Rightarrow>
         if \<not> eb_tryingToPreAccept lb then Some r
         else if ETryPreAcceptReply_Ballot m \<noteq> eb_lastTriedBallot lb then Some r
         else do {
           let lb = lb\<lparr>eb_tpaReps := eb_tpaReps lb + 1\<rparr>;
           let ok = (ETryPreAcceptReply_VBallot m = eb_lastTriedBallot lb);
           let lb = (if ok then lb\<lparr>eb_preAcceptOKs := eb_preAcceptOKs lb + 1\<rparr> else lb);
           if ok \<and> eb_preAcceptOKs lb \<ge> er_N r div 2 then
             (let lb = lb\<lparr>eb_status := ACCEPTED, eb_tryingToPreAccept := False, eb_acceptOKs := 0\<rparr>;
                  inst = inst\<lparr>ei_lb := Some lb, ei_Cmds := eb_cmds lb, ei_Seq := eb_seq lb, ei_Deps := eb_deps lb,
                              ei_Status := eb_status lb, ei_vbal := eb_lastTriedBallot lb,
                              ei_bal := eb_lastTriedBallot lb\<rparr>
              in Some (bcastAccept q i (put_inst q i inst r)))
           else do {
             lb \<leftarrow>
               (if ok then Some lb
                else do {
                  _ \<leftarrow> at (eb_possibleQuorum lb) (ETryPreAcceptReply_AcceptorId m);
                  _ \<leftarrow> at (eb_possibleQuorum lb) (ETryPreAcceptReply_ConflictReplica m);
                  Some (lb\<lparr>eb_nacks := eb_nacks lb + 1,
                          eb_possibleQuorum := (eb_possibleQuorum lb)
                            [nat (ETryPreAcceptReply_AcceptorId m) := False,
                             nat (ETryPreAcceptReply_ConflictReplica m) := False]\<rparr>) });
             let lb = lb\<lparr>eb_tpaAccepted := eb_tpaAccepted lb \<or> ETryPreAcceptReply_ConflictStatus m \<ge> ACCEPTED\<rparr>;
             let restart = (\<lambda>lb r. startPhase1 (eb_cmds lb) q i (eb_lastTriedBallot lb) (eb_clientProposals lb) r);
             if eb_tpaReps lb \<ge> SlowQuorumSize (er_N r) - 1 \<and> eb_tpaAccepted lb then
               (let lb = lb\<lparr>eb_tryingToPreAccept := False\<rparr>
                in restart lb (put_inst q i (inst\<lparr>ei_lb := Some lb\<rparr>) r))
             else do {
               possible \<leftarrow> (if er_N r > 0 then at (eb_possibleQuorum lb) (ETryPreAcceptReply_AcceptorId m) else Some True);
               let notInQuorum = (if possible then 0 else er_N r);
               let deferred = (if notInQuorum = er_N r div 2 then deferredByInstance q i r else None);
               contradiction \<leftarrow> (case deferred of None \<Rightarrow> Some False | Some (dq, _) \<Rightarrow> at (eb_possibleQuorum lb) dq);
               if contradiction then do {
                 n \<leftarrow> new_ballot q r;
                 let lb = lb\<lparr>eb_tryingToPreAccept := False, eb_lastTriedBallot := n\<rparr>;
                 restart lb (put_inst q i (inst\<lparr>ei_lb := Some lb\<rparr>) r) }
               else if eb_tpaReps lb \<ge> er_N r div 2 then
                 Some (put_inst q i (inst\<lparr>ei_lb := Some (lb\<lparr>eb_tryingToPreAccept := False\<rparr>)\<rparr>)
                   (updateDeferred q i (ETryPreAcceptReply_ConflictReplica m) (ETryPreAcceptReply_ConflictInstance m) r))
               else Some (put_inst q i (inst\<lparr>ei_lb := Some lb\<rparr>) r) } } } }"

section \<open>Messages\<close>

fun handle_msg :: "epaxos_msg \<Rightarrow> 'st EReplica \<Rightarrow> 'st EReplica option" where
  "handle_msg (EPrepareMsg m) r = handlePrepare m r"
| "handle_msg (EPrepareReplyMsg m) r = handlePrepareReply m r"
| "handle_msg (EPreAcceptMsg m) r = handlePreAccept m r"
| "handle_msg (EPreAcceptReplyMsg m) r = handlePreAcceptReply m r"
| "handle_msg (EAcceptMsg m) r = handleAccept m r"
| "handle_msg (EAcceptReplyMsg m) r = handleAcceptReply m r"
| "handle_msg (ECommitMsg m) r = handleCommit m r"
| "handle_msg (ETryPreAcceptMsg m) r = handleTryPreAccept m r"
| "handle_msg (ETryPreAcceptReplyMsg m) r = handleTryPreAcceptReply m r"

end
