(* ===== verification/EPaxosExec.thy ===== *)
theory EPaxosExec
  imports EPaxos "HOL-Library.Product_Lexorder"
begin

text \<open>
  The executor of EPaxos (\<open>epaxos/exec.go\<close> and \<open>executeCommands\<close>): Tarjan's algorithm finds the strongly connected
  components of the committed instances under their dependencies, and executes each as it is found.

  The stack holds the positions of instances.  The executor runs in a goroutine of its own; here a pass over all
  replicas is a step, between two handlers.
\<close>

section \<open>Finding components\<close>

type_synonym iid = "int \<times> int"

record 'st exec_state =
  xs_r :: "'st EReplica"
  xs_stack :: "iid list"
  xs_index :: int

definition the_inst :: "'st EReplica \<Rightarrow> iid \<Rightarrow> einst option" where
  "the_inst r v = er_InstanceSpace r (fst v) (snd v)"

definition upd_inst :: "iid \<Rightarrow> (einst \<Rightarrow> einst) \<Rightarrow> 'st EReplica \<Rightarrow> 'st EReplica" where
  "upd_inst v f r =
     (case the_inst r v of None \<Rightarrow> r | Some inst \<Rightarrow> put_inst (fst v) (snd v) (f inst) r)"

text \<open>The start of \<open>strongconnect\<close>: the instance gets its index and goes on the stack.\<close>

definition enter :: "iid \<Rightarrow> 'st exec_state \<Rightarrow> 'st exec_state" where
  "enter v s = s\<lparr>xs_r := upd_inst v (\<lambda>inst. inst\<lparr>ei_Index := xs_index s, ei_Lowlink := xs_index s\<rparr>) (xs_r s),
                 xs_stack := xs_stack s @ [v], xs_index := xs_index s + 1\<rparr>"

text \<open>
  The order of the instances in a component, \<open>nodeArray.Less\<close>.  \<open>sort.Sort\<close> leaves open what becomes of instances
  that are equal in it, those of one replica with one sequence number and one time; here they keep their order.
\<close>

definition node_key :: "'st EReplica \<Rightarrow> iid \<Rightarrow> int \<times> int \<times> int" where
  "node_key r v =
     (case the_inst r v of None \<Rightarrow> (0, 0, 0) | Some inst \<Rightarrow> (ei_Seq inst, fst (ei_id inst), ei_proposeTime inst))"

text \<open>The loop over the commands of an instance; fewer proposals than commands panic.\<close>

fun exec_cmds :: "'st treemap \<Rightarrow> GPropose list option \<Rightarrow> nat \<Rightarrow> command list \<Rightarrow> 'st EReplica \<Rightarrow> 'st EReplica option" where
  "exec_cmds T ps idx [] r = Some r"
| "exec_cmds T ps idx (c # cs) r = do {
     r \<leftarrow> (if Op c = NONE then Some r
          else case ps of
            Some ps \<Rightarrow> do {
              (v, st) \<leftarrow> Execute T c (er_State r);
              if idx < length ps
              then Some (ReplyProposeTS (ps ! idx) \<lparr>ProposeReplyTS_OK = 1,
                          ProposeReplyTS_CommandId = Propose_CommandId (ps ! idx), ProposeReplyTS_Value = v,
                          ProposeReplyTS_Timestamp = Propose_Timestamp (ps ! idx)\<rparr> (r\<lparr>er_State := st\<rparr>))
              else None }
          | None \<Rightarrow>
              if Op c = PUT then do { (_, st) \<leftarrow> Execute T c (er_State r); Some (r\<lparr>er_State := st\<rparr>) } else Some r);
     exec_cmds T ps (Suc idx) cs r }"

definition respond :: "'st EReplica \<Rightarrow> einst \<Rightarrow> GPropose list option" where
  "respond r inst =
     (if er_Dreply r then (case ei_lb inst of None \<Rightarrow> None | Some lb \<Rightarrow> eb_clientProposals lb) else None)"

fun exec_nodes :: "'st treemap \<Rightarrow> iid list \<Rightarrow> 'st EReplica \<Rightarrow> 'st EReplica option" where
  "exec_nodes T [] r = Some r"
| "exec_nodes T (v # vs) r = do {
     inst \<leftarrow> the_inst r v;
     r \<leftarrow> exec_cmds T (respond r inst) 0 (wire (ei_Cmds inst)) r;
     exec_nodes T vs (upd_inst v (\<lambda>inst. inst\<lparr>ei_Status := EXECUTED\<rparr>) r) }"

text \<open>The end of \<open>strongconnect\<close>: a component is executed in order and leaves the stack.\<close>

definition component :: "'st treemap \<Rightarrow> iid \<Rightarrow> nat \<Rightarrow> 'st exec_state \<Rightarrow> 'st exec_state option" where
  "component T v l s = do {
     inst \<leftarrow> the_inst (xs_r s) v;
     if ei_Lowlink inst = ei_Index inst then do {
       let nodes = sort_key (node_key (xs_r s)) (drop l (xs_stack s));
       r \<leftarrow> exec_nodes T nodes (xs_r s);
       Some (s\<lparr>xs_r := r\<lparr>er_executed := er_executed r @ [nodes]\<rparr>, xs_stack := take l (xs_stack s)\<rparr>) }
     else Some s }"

datatype 'st exec_result = Panic | Done bool "'st exec_state"

definition low :: "int \<Rightarrow> iid \<Rightarrow> 'st exec_state \<Rightarrow> 'st exec_state" where
  "low k v s = s\<lparr>xs_r := upd_inst v (\<lambda>inst. if k < ei_Lowlink inst then inst\<lparr>ei_Lowlink := k\<rparr> else inst) (xs_r s)\<rparr>"

text \<open>
  \<open>strongconnect\<close> of \<open>v\<close>, whose place in the stack is \<open>l\<close>, from its loops at the dependency \<open>(q, i)\<close> on.  \<open>None\<close>
  is a recursion that does not end.
\<close>

partial_function (option) strongconnect ::
  "'st treemap \<Rightarrow> iid \<Rightarrow> nat \<Rightarrow> int \<Rightarrow> int \<Rightarrow> 'st exec_state \<Rightarrow> 'st exec_result option" where
  "strongconnect T v l q i s =
     (case the_inst (xs_r s) v of
        None \<Rightarrow> Some Panic
      | Some vi \<Rightarrow>
          if q \<ge> er_N (xs_r s) then
            Some (case component T v l s of None \<Rightarrow> Panic | Some s \<Rightarrow> Done True s)
          else
            case at (slice_of (xs_r s) (ei_Deps vi)) q of
              None \<Rightarrow> Some Panic
            | Some d \<Rightarrow>
                if i > d then strongconnect T v l (q + 1) (er_ExecedUpTo (xs_r s) ! nat (q + 1) + 1) s
                else
                  case get_inst (xs_r s) q i of
                    None \<Rightarrow> Some Panic
                  | Some x \<Rightarrow>
                      case x of
                        None \<Rightarrow> Some (Done False s)
                      | Some wi \<Rightarrow>
                          if ei_Cmds wi = None then Some (Done False s)
                          else if ei_Status wi = EXECUTED then strongconnect T v l q (i + 1) s
                          else if ei_Status wi \<noteq> COMMITTED then Some (Done False s)
                          else if ei_Index wi = 0 then
                            do {
                              res \<leftarrow> strongconnect T (q, i) (length (xs_stack s)) 0 (er_ExecedUpTo (xs_r s) ! 0 + 1)
                                      (enter (q, i) s);
                              case res of
                                Panic \<Rightarrow> Some Panic
                              | Done ok s \<Rightarrow>
                                  if \<not> ok then Some (Done False s)
                                  else case the_inst (xs_r s) (q, i) of
                                         None \<Rightarrow> Some Panic
                                       | Some wi \<Rightarrow> strongconnect T v l q (i + 1) (low (ei_Lowlink wi) v s) }
                          else if (q, i) \<in> set (xs_stack s) then
                            strongconnect T v l q (i + 1) (low (ei_Index wi) v s)
                          else strongconnect T v l q (i + 1) s)"

text \<open>The end of \<open>findSCC\<close>: the indices of what is left on the stack are reset.\<close>

definition reset_index :: "iid list \<Rightarrow> 'st EReplica \<Rightarrow> 'st EReplica" where
  "reset_index vs r = fold (\<lambda>v. upd_inst v (\<lambda>inst. inst\<lparr>ei_Index := 0\<rparr>)) vs r"

definition findSCC :: "'st treemap \<Rightarrow> iid \<Rightarrow> 'st EReplica \<Rightarrow> (bool \<times> 'st EReplica) option option" where
  "findSCC T v r =
     (let s = enter v \<lparr>xs_r = r, xs_stack = [], xs_index = 1\<rparr>
      in case the_inst r v of
           None \<Rightarrow> Some None
         | Some inst \<Rightarrow>
             if ei_Cmds inst = None then Some (Some (False, reset_index (xs_stack s) (xs_r s)))
             else case strongconnect T v 0 0 (er_ExecedUpTo r ! 0 + 1) s of
                    None \<Rightarrow> None
                  | Some Panic \<Rightarrow> Some None
                  | Some (Done ok s) \<Rightarrow> Some (Some (ok, reset_index (xs_stack s) (xs_r s))))"

text \<open>From here on, \<open>None\<close> is an executor that does not return, \<open>Some None\<close> one that panics.\<close>

definition executeCommand :: "'st treemap \<Rightarrow> int \<Rightarrow> int \<Rightarrow> 'st EReplica \<Rightarrow> (bool \<times> 'st EReplica) option option" where
  "executeCommand T q i r =
     (case get_inst r q i of
        None \<Rightarrow> Some None
      | Some None \<Rightarrow> Some (Some (False, r))
      | Some (Some inst) \<Rightarrow>
          if ei_Status inst = EXECUTED then Some (Some (True, r))
          else if ei_Status inst \<noteq> COMMITTED then Some (Some (False, r))
          else findSCC T (q, i) r)"

section \<open>The loop of the executor\<close>

definition SLEEP_TIME_NS :: int where
  "SLEEP_TIME_NS = 10 ^ 6"

definition COMMIT_GRACE_PERIOD :: int where
  "COMMIT_GRACE_PERIOD = 10 * 10 ^ 9"

definition advance :: "int \<Rightarrow> int \<Rightarrow> 'st EReplica \<Rightarrow> 'st EReplica" where
  "advance q i r =
     (if i = er_ExecedUpTo r ! nat q + 1 then r\<lparr>er_ExecedUpTo := (er_ExecedUpTo r)[nat q := i]\<rparr> else r)"

text \<open>An instance that cannot be executed: after a while it and those after it are to be recovered.\<close>

definition problem :: "int \<Rightarrow> int \<Rightarrow> 'st EReplica \<Rightarrow> 'st EReplica" where
  "problem q i r =
     (if i = er_problemInstance r ! nat q then
        let t = er_timeout r ! nat q + SLEEP_TIME_NS
        in if t \<ge> COMMIT_GRACE_PERIOD then
             r\<lparr>er_instancesToRecover := er_instancesToRecover r @ map (\<lambda>k. (q, k)) [i..er_crtInstance r ! nat q],
               er_timeout := (er_timeout r)[nat q := 0]\<rparr>
           else r\<lparr>er_timeout := (er_timeout r)[nat q := t]\<rparr>
      else r\<lparr>er_problemInstance := (er_problemInstance r)[nat q := i], er_timeout := (er_timeout r)[nat q := 0]\<rparr>)"

definition not_ready :: "einst option \<Rightarrow> bool" where
  "not_ready x = (case x of None \<Rightarrow> True | Some inst \<Rightarrow> ei_Status inst < COMMITTED \<or> ei_Cmds inst = None)"

fun exec_row :: "'st treemap \<Rightarrow> int \<Rightarrow> int list \<Rightarrow> 'st EReplica \<Rightarrow> 'st EReplica option option" where
  "exec_row T q [] r = Some (Some r)"
| "exec_row T q (i # is) r =
     (case get_inst r q i of
        None \<Rightarrow> Some None
      | Some x \<Rightarrow>
          if (case x of Some inst \<Rightarrow> ei_Status inst = EXECUTED | None \<Rightarrow> False) then exec_row T q is (advance q i r)
          else if not_ready x then Some (Some (problem q i r))
          else case executeCommand T q i r of
                 None \<Rightarrow> None
               | Some None \<Rightarrow> Some None
               | Some (Some (ok, r)) \<Rightarrow> exec_row T q is (if ok then advance q i r else r))"

fun exec_rows :: "'st treemap \<Rightarrow> int list \<Rightarrow> 'st EReplica \<Rightarrow> 'st EReplica option option" where
  "exec_rows T [] r = Some (Some r)"
| "exec_rows T (q # qs) r =
     (case exec_row T q [er_ExecedUpTo r ! nat q + 1..er_crtInstance r ! nat q] r of
        None \<Rightarrow> None
      | Some None \<Rightarrow> Some None
      | Some (Some r) \<Rightarrow> exec_rows T qs r)"

definition executeCommands :: "'st treemap \<Rightarrow> 'st EReplica \<Rightarrow> 'st EReplica option option" where
  "executeCommands T r = exec_rows T [0..er_N r - 1] r"

end
