(* ===== verification/EPaxosSearch.thy ===== *)
theory EPaxosSearch
  imports EPaxosExec
begin

text \<open>
  The search for components of the EPaxos executor (\<open>strongconnect\<close> of \<open>epaxos/exec.go\<close>): what it promises, that it
  keeps its promise (\<open>strongconnect_post\<close>), and that it returns (\<open>strongconnect_returns\<close>).

  The invariant is that of Tarjan's algorithm.  All instances on the stack reach the one that is searched; those above
  it are reached by it; the low link is the index of an instance on the stack that it reaches; and what has been
  looked at is executed, or on the stack at or above the low link.
\<close>

declare split_paired_All [simp del] split_paired_Ex [simp del]

section \<open>What the executor leaves alone\<close>

definition essence :: "einst \<Rightarrow> einst" where
  "essence inst = inst\<lparr>ei_Status := 0, ei_Index := 0, ei_Lowlink := 0\<rparr>"

definition static :: "'st EReplica \<Rightarrow> 'st EReplica \<Rightarrow> bool" where
  "static r r' \<longleftrightarrow> er_N r' = er_N r \<and> er_ExecedUpTo r' = er_ExecedUpTo r \<and> er_slices r' = er_slices r \<and>
     er_crtInstance r' = er_crtInstance r \<and>
     (\<forall>v. map_option essence (the_inst r' v) = map_option essence (the_inst r v))"

text \<open>Status, index and low link of an instance; 0 if there is none.\<close>

definition status :: "'st EReplica \<Rightarrow> iid \<Rightarrow> int" where
  "status r v = (case the_inst r v of None \<Rightarrow> 0 | Some inst \<Rightarrow> ei_Status inst)"

definition idx :: "'st EReplica \<Rightarrow> iid \<Rightarrow> int" where
  "idx r v = (case the_inst r v of None \<Rightarrow> 0 | Some inst \<Rightarrow> ei_Index inst)"

definition lowlink :: "'st EReplica \<Rightarrow> iid \<Rightarrow> int" where
  "lowlink r v = (case the_inst r v of None \<Rightarrow> 0 | Some inst \<Rightarrow> ei_Lowlink inst)"

lemmas views = status_def idx_def lowlink_def

definition executed :: "'st EReplica \<Rightarrow> iid \<Rightarrow> bool" where
  "executed r v \<longleftrightarrow> status r v = EXECUTED"

text \<open>An instance that need not be waited for.\<close>

definition ready :: "'st EReplica \<Rightarrow> iid \<Rightarrow> bool" where
  "ready r v \<longleftrightarrow> (\<exists>inst. the_inst r v = Some inst \<and> ei_Cmds inst \<noteq> None \<and> ei_Status inst \<in> {COMMITTED, EXECUTED})"

text \<open>\<open>dep r v w\<close>: instance \<open>v\<close> has \<open>w\<close> as a dependency, directly.\<close>

definition dep :: "'st EReplica \<Rightarrow> iid \<Rightarrow> iid \<Rightarrow> bool" where
  "dep r v w \<longleftrightarrow> (\<exists>inst d. the_inst r v = Some inst \<and> 0 \<le> fst w \<and> fst w < er_N r \<and>
     at (slice_of r (ei_Deps inst)) (fst w) = Some d \<and> 0 \<le> snd w \<and> snd w \<le> d)"

lemma the_inst_put: "the_inst (put_inst q i x r) v = (if v = (q, i) then Some x else the_inst r v)"
  by (cases v) (auto simp: the_inst_def put_inst_def)

lemma the_inst_upd: "the_inst (upd_inst w f r) v = (if v = w then map_option f (the_inst r v) else the_inst r v)"
  by (cases w) (auto simp: upd_inst_def the_inst_put split: option.split)

lemma upd_inst_fields [simp]:
  "er_N (upd_inst w f r) = er_N r" "er_ExecedUpTo (upd_inst w f r) = er_ExecedUpTo r"
  "er_slices (upd_inst w f r) = er_slices r" "er_crtInstance (upd_inst w f r) = er_crtInstance r"
  "er_executed (upd_inst w f r) = er_executed r"
  by (simp_all add: upd_inst_def put_inst_def split: option.split)

lemma static_refl [simp]: "static r r"
  by (simp add: static_def)

lemma static_trans: "static r r' \<Longrightarrow> static r' r'' \<Longrightarrow> static r r''"
  by (simp add: static_def)

lemma static_upd: "(\<And>inst. essence (f inst) = essence inst) \<Longrightarrow> static r (upd_inst w f r)"
  by (simp add: static_def the_inst_upd option.map_comp comp_def)

lemma static_inst:
  assumes "static r r'" "the_inst r v = Some inst"
  shows "\<exists>inst'. the_inst r' v = Some inst' \<and> essence inst' = essence inst"
proof -
  have "map_option essence (the_inst r' v) = map_option essence (the_inst r v)" using assms(1) unfolding static_def by blast
  with assms(2) show ?thesis by auto
qed

lemma static_none: "static r r' \<Longrightarrow> the_inst r v = None \<Longrightarrow> the_inst r' v = None"
  unfolding static_def by (metis option.map_disc_iff)

lemma essence_fields:
  assumes "essence a = essence b"
  shows "ei_Cmds a = ei_Cmds b" "ei_Deps a = ei_Deps b" "ei_Seq a = ei_Seq b" "ei_id a = ei_id b"
    "ei_proposeTime a = ei_proposeTime b" "ei_lb a = ei_lb b"
  using assms by (cases a; cases b; simp add: essence_def)+

lemma static_sym: "static r r' \<Longrightarrow> static r' r"
  by (simp add: static_def)

lemma static_fields:
  assumes "static r r'"
  shows "er_N r' = er_N r" "er_ExecedUpTo r' = er_ExecedUpTo r" "slice_of r' = slice_of r"
    "er_crtInstance r' = er_crtInstance r"
  using assms by (auto simp: static_def slice_of_def fun_eq_iff split: option.split)

lemma dep_static: "static r r' \<Longrightarrow> dep r' = dep r"
proof -
  have "dep r' v w" if st: "static r r'" and dp: "dep r v w" for r r' :: "'a EReplica" and v w
  proof -
    from dp obtain inst d where i: "the_inst r v = Some inst" "0 \<le> fst w \<and> fst w < er_N r"
        "at (slice_of r (ei_Deps inst)) (fst w) = Some d" "0 \<le> snd w \<and> snd w \<le> d" by (auto simp: dep_def)
    obtain inst' where "the_inst r' v = Some inst'" "essence inst' = essence inst"
      using static_inst [OF st i(1)] by blast
    then show ?thesis using i essence_fields(2) [of inst' inst] by (simp add: dep_def static_fields [OF st])
  qed
  then show "static r r' \<Longrightarrow> dep r' = dep r" by (auto simp: fun_eq_iff dest: static_sym)
qed

lemma node_key_static: "static r r' \<Longrightarrow> node_key r' = node_key r"
proof
  fix v assume s: "static r r'"
  show "node_key r' v = node_key r v"
  proof (cases "the_inst r v")
    case None
    then show ?thesis using static_none [OF s None] by (simp add: node_key_def)
  next
    case (Some inst)
    obtain inst' where "the_inst r' v = Some inst'" "essence inst' = essence inst"
      using static_inst [OF s Some] by blast
    then show ?thesis using Some essence_fields [of inst' inst] by (simp add: node_key_def)
  qed
qed

lemma ready_static:
  assumes "static r r'" "\<And>v. status r' v = status r v \<or> status r' v = EXECUTED" "ready r v"
  shows "ready r' v"
proof -
  obtain inst where i: "the_inst r v = Some inst" "ei_Cmds inst \<noteq> None" "ei_Status inst \<in> {COMMITTED, EXECUTED}"
    using assms(3) by (auto simp: ready_def)
  obtain inst' where j: "the_inst r' v = Some inst'" "essence inst' = essence inst"
    using static_inst [OF assms(1) i(1)] by blast
  have "ei_Status inst' \<in> {COMMITTED, EXECUTED}" using assms(2) [of v] i(1,3) j(1) by (auto simp: status_def)
  then show ?thesis using i(2) j essence_fields(1) [OF j(2)] by (simp add: ready_def)
qed

section \<open>Valid orders of execution\<close>

text \<open>
  A component \<open>C\<close> may follow the instances \<open>E\<close>: it is sorted, what its members depend on is in \<open>E\<close> or in \<open>C\<close>,
  and its members depend on each other.
\<close>

definition component_ok :: "(iid \<Rightarrow> iid \<Rightarrow> bool) \<Rightarrow> (iid \<Rightarrow> int \<times> int \<times> int) \<Rightarrow> iid set \<Rightarrow> iid list \<Rightarrow> bool" where
  "component_ok D key E C \<longleftrightarrow>
     distinct C \<and> set C \<inter> E = {} \<and> sorted (map key C) \<and>
     (\<forall>v \<in> set C. \<forall>w. D v w \<longrightarrow> w \<in> E \<union> set C) \<and> (\<forall>v \<in> set C. \<forall>w \<in> set C. D\<^sup>*\<^sup>* v w)"

fun order_ok :: "(iid \<Rightarrow> iid \<Rightarrow> bool) \<Rightarrow> (iid \<Rightarrow> int \<times> int \<times> int) \<Rightarrow> iid set \<Rightarrow> iid list list \<Rightarrow> bool" where
  "order_ok D key E [] = True"
| "order_ok D key E (C # Cs) = (component_ok D key E C \<and> order_ok D key (E \<union> set C) Cs)"

lemma order_ok_append:
  "order_ok D key E (Cs @ Ds) \<longleftrightarrow> order_ok D key E Cs \<and> order_ok D key (E \<union> set (concat Cs)) Ds"
  by (induction Cs arbitrary: E) (auto simp: Un_assoc)

section \<open>Invariant of the search\<close>

text \<open>Between searches: what is executed is what is recorded, in a valid order, and no index is set.\<close>

definition exec_inv :: "'st EReplica \<Rightarrow> bool" where
  "exec_inv r \<longleftrightarrow>
     (\<forall>v. executed r v \<longleftrightarrow> v \<in> set (concat (er_executed r))) \<and>
     order_ok (dep r) (node_key r) {} (er_executed r) \<and>
     (\<forall>q i. 0 \<le> q \<and> q < er_N r \<and> 0 \<le> i \<and> i \<le> er_ExecedUpTo r ! nat q \<longrightarrow> executed r (q, i)) \<and>
     (\<forall>q. 0 \<le> q \<and> q < er_N r \<longrightarrow> -1 \<le> er_ExecedUpTo r ! nat q)"

definition on_stack :: "'st exec_state \<Rightarrow> bool" where
  "on_stack s \<longleftrightarrow>
     (\<forall>v \<in> set (xs_stack s). status (xs_r s) v = COMMITTED \<and> 0 < idx (xs_r s) v \<and> idx (xs_r s) v < xs_index s) \<and>
     sorted_wrt (\<lambda>u v. idx (xs_r s) u < idx (xs_r s) v) (xs_stack s) \<and>
     (\<forall>v. idx (xs_r s) v \<noteq> 0 \<and> \<not> executed (xs_r s) v \<longrightarrow> v \<in> set (xs_stack s)) \<and> 0 < xs_index s"

definition search_inv :: "'st exec_state \<Rightarrow> bool" where
  "search_inv s \<longleftrightarrow> exec_inv (xs_r s) \<and> on_stack s"

text \<open>An instance that is on the stack at or above a low link, or executed.\<close>

definition settled :: "'st exec_state \<Rightarrow> int \<Rightarrow> iid \<Rightarrow> bool" where
  "settled s k w \<longleftrightarrow> executed (xs_r s) w \<or> w \<in> set (xs_stack s) \<and> k \<le> idx (xs_r s) w"

text \<open>Before the loops of \<open>v\<close>, at place \<open>l\<close> of the stack, go on at \<open>(q, i)\<close>.\<close>

definition pre :: "iid \<Rightarrow> nat \<Rightarrow> int \<Rightarrow> int \<Rightarrow> 'st exec_state \<Rightarrow> bool" where
  "pre v l q i s \<longleftrightarrow>
     (let D = dep (xs_r s); k = lowlink (xs_r s) v in
      search_inv s \<and> l < length (xs_stack s) \<and> xs_stack s ! l = v \<and> 0 \<le> q \<and> 
      (q < er_N (xs_r s) \<longrightarrow> er_ExecedUpTo (xs_r s) ! nat q < i) \<and>
      (\<forall>x \<in> set (xs_stack s). D\<^sup>*\<^sup>* x v) \<and> (\<forall>x \<in> set (drop l (xs_stack s)). D\<^sup>*\<^sup>* v x) \<and>
      k \<le> idx (xs_r s) v \<and> (\<exists>y \<in> set (xs_stack s). idx (xs_r s) y = k \<and> D\<^sup>*\<^sup>* v y) \<and>
      (\<forall>w. D v w \<and> (fst w < q \<or> fst w = q \<and> snd w < i) \<longrightarrow> settled s k w) \<and>
      (\<forall>x \<in> set (drop (Suc l) (xs_stack s)). \<forall>w. D x w \<longrightarrow> settled s k w))"

text \<open>What a search leaves alone below place \<open>l\<close> of the stack.\<close>

definition keeps :: "nat \<Rightarrow> 'st exec_state \<Rightarrow> 'st exec_state \<Rightarrow> bool" where
  "keeps l s s' \<longleftrightarrow> static (xs_r s) (xs_r s') \<and> take l (xs_stack s') = take l (xs_stack s) \<and> l \<le> length (xs_stack s') \<and>
     xs_index s \<le> xs_index s' \<and> (\<forall>v. executed (xs_r s) v \<longrightarrow> executed (xs_r s') v) \<and>
     (\<forall>v. ready (xs_r s) v \<longrightarrow> ready (xs_r s') v) \<and>
     (\<forall>v. idx (xs_r s) v \<noteq> 0 \<longrightarrow> idx (xs_r s') v = idx (xs_r s) v) \<and>
     (\<forall>v \<in> set (take l (xs_stack s)). lowlink (xs_r s') v = lowlink (xs_r s) v)"

text \<open>What any search leaves alone.\<close>

definition grows :: "'st EReplica \<Rightarrow> 'st EReplica \<Rightarrow> bool" where
  "grows r r' \<longleftrightarrow> static r r' \<and> (\<forall>v. executed r v \<longrightarrow> executed r' v) \<and> (\<forall>v. ready r v \<longrightarrow> ready r' v)"

definition popped :: "iid \<Rightarrow> nat \<Rightarrow> 'st exec_state \<Rightarrow> 'st exec_state \<Rightarrow> bool" where
  "popped v l s s' \<longleftrightarrow> length (xs_stack s') = l \<and> executed (xs_r s') v \<and> lowlink (xs_r s') v = idx (xs_r s') v"

definition kept :: "iid \<Rightarrow> nat \<Rightarrow> 'st exec_state \<Rightarrow> bool" where
  "kept v l s \<longleftrightarrow>
     (let D = dep (xs_r s); k = lowlink (xs_r s) v in
      l < length (xs_stack s) \<and> xs_stack s ! l = v \<and>
      (\<forall>x \<in> set (drop l (xs_stack s)). D\<^sup>*\<^sup>* x v \<and> D\<^sup>*\<^sup>* v x \<and> (\<forall>w. D x w \<longrightarrow> settled s k w)) \<and>
      (\<exists>y \<in> set (take l (xs_stack s)). idx (xs_r s) y = k \<and> D\<^sup>*\<^sup>* v y))"

definition post :: "iid \<Rightarrow> nat \<Rightarrow> 'st exec_state \<Rightarrow> 'st exec_result \<Rightarrow> bool" where
  "post v l s res \<longleftrightarrow>
     (case res of Panic \<Rightarrow> True
      | Done ok s' \<Rightarrow> search_inv s' \<and> grows (xs_r s) (xs_r s') \<and>
          (if ok then keeps l s s' \<and> (popped v l s s' \<or> kept v l s')
           else \<exists>w. (dep (xs_r s))\<^sup>*\<^sup>* v w \<and> \<not> ready (xs_r s) w))"


section \<open>Views of an updated state\<close>

lemma upd_status: "status (upd_inst w f r) v =
    (if v = w then (case the_inst r v of None \<Rightarrow> 0 | Some inst \<Rightarrow> ei_Status (f inst)) else status r v)"
  and upd_idx: "idx (upd_inst w f r) v =
    (if v = w then (case the_inst r v of None \<Rightarrow> 0 | Some inst \<Rightarrow> ei_Index (f inst)) else idx r v)"
  and upd_lowlink: "lowlink (upd_inst w f r) v =
    (if v = w then (case the_inst r v of None \<Rightarrow> 0 | Some inst \<Rightarrow> ei_Lowlink (f inst)) else lowlink r v)"
  by (auto simp: views the_inst_upd split: option.split)

lemma status_some: "status r v \<noteq> 0 \<Longrightarrow> \<exists>inst. the_inst r v = Some inst"
  by (simp add: status_def split: option.splits)

text \<open>The low link of \<open>v\<close> is lowered.\<close>

lemma upd_same [simp]:
  "(\<And>inst. ei_Status (f inst) = ei_Status inst) \<Longrightarrow> status (upd_inst v f r) = status r"
  "(\<And>inst. ei_Index (f inst) = ei_Index inst) \<Longrightarrow> idx (upd_inst v f r) = idx r"
  "(\<And>inst. ei_Lowlink (f inst) = ei_Lowlink inst) \<Longrightarrow> lowlink (upd_inst v f r) = lowlink r"
  by (rule ext, simp add: views the_inst_upd split: option.split)+

lemma low_simps [simp]:
  "xs_stack (low k v s) = xs_stack s" "xs_index (low k v s) = xs_index s"
  "status (xs_r (low k v s)) = status (xs_r s)"
  "idx (xs_r (low k v s)) = idx (xs_r s)" "er_executed (xs_r (low k v s)) = er_executed (xs_r s)"
  by (simp_all add: low_def)

lemma low_static [simp]: "static (xs_r s) (xs_r (low k v s))"
  unfolding low_def by (simp, rule static_upd, simp add: essence_def)

lemmas low_fields [simp] = static_fields [OF low_static]

lemma low_lowlink:
  "lowlink (xs_r (low k v s)) w =
     (if w = v \<and> the_inst (xs_r s) v \<noteq> None then min k (lowlink (xs_r s) v) else lowlink (xs_r s) w)"
proof -
  have "lowlink (xs_r s) v = (case the_inst (xs_r s) v of None \<Rightarrow> 0 | Some inst \<Rightarrow> ei_Lowlink inst)"
    by (rule lowlink_def)
  then show ?thesis by (simp add: low_def upd_lowlink split: option.split)
qed

lemma executed_low [simp]: "executed (xs_r (low k v s)) = executed (xs_r s)"
  by (simp add: executed_def fun_eq_iff)

lemma exec_inv_static:
  assumes "static r r'" "status r' = status r" "er_executed r' = er_executed r" "exec_inv r"
  shows "exec_inv r'"
  using assms by (simp add: exec_inv_def executed_def dep_static node_key_static static_fields)

lemma ready_low [simp]: "ready (xs_r s) w \<Longrightarrow> ready (xs_r (low k v s)) w"
  by (rule ready_static [OF low_static]) simp_all

lemma search_inv_low [simp]: "search_inv (low k v s) \<longleftrightarrow> search_inv s"
proof -
  have "exec_inv (xs_r (low k v s)) \<longleftrightarrow> exec_inv (xs_r s)"
    using exec_inv_static [OF low_static] exec_inv_static [OF static_sym [OF low_static]]
    by (metis low_simps(3,5))
  then show ?thesis by (simp add: search_inv_def on_stack_def)
qed

lemma dep_low [simp]: "dep (xs_r (low k v s)) = dep (xs_r s)"
  by (rule dep_static) simp

lemma settled_low [simp]: "settled (low k' v s) k w \<longleftrightarrow> settled s k w"
  by (simp add: settled_def)

lemma keeps_grows: "keeps l s s' \<Longrightarrow> grows (xs_r s) (xs_r s')"
  by (simp add: keeps_def grows_def)

lemma grows_refl [simp]: "grows r r"
  by (simp add: grows_def)

lemma grows_trans: "grows r r' \<Longrightarrow> grows r' r'' \<Longrightarrow> grows r r''"
  unfolding grows_def using static_trans by blast

lemma settled_mono: "settled s k w \<Longrightarrow> k' \<le> k \<Longrightarrow> settled s k' w"
  by (auto simp: settled_def)

section \<open>Steps of the search\<close>

lemma dep_at:
  assumes "the_inst r v = Some vi" "0 \<le> q" "q < er_N r" "at (slice_of r (ei_Deps vi)) q = Some d"
  shows "dep r v (q, i) \<longleftrightarrow> 0 \<le> i \<and> i \<le> d"
  using assms by (simp add: dep_def)

lemma exec_inv_below:
  "exec_inv r \<Longrightarrow> 0 \<le> q \<Longrightarrow> q < er_N r \<Longrightarrow> 0 \<le> i \<Longrightarrow> i \<le> er_ExecedUpTo r ! nat q \<Longrightarrow> executed r (q, i)"
  unfolding exec_inv_def by blast

lemma exec_inv_bound: "exec_inv r \<Longrightarrow> 0 \<le> q \<Longrightarrow> q < er_N r \<Longrightarrow> er_ExecedUpTo r ! nat q < i \<Longrightarrow> 0 \<le> i"
  unfolding exec_inv_def by (smt (verit))

lemma pre_search: "pre v l q i s \<Longrightarrow> search_inv s \<and> exec_inv (xs_r s) \<and> on_stack s"
  unfolding pre_def Let_def search_inv_def by blast

lemma pre_next_row:
  assumes p: "pre v l q i s" and vi: "the_inst (xs_r s) v = Some vi" and q: "q < er_N (xs_r s)"
    and d: "at (slice_of (xs_r s) (ei_Deps vi)) q = Some d" "d < i"
  shows "pre v l (q + 1) (er_ExecedUpTo (xs_r s) ! nat (q + 1) + 1) s"
proof -
  let ?D = "dep (xs_r s)" and ?k = "lowlink (xs_r s) v"
  have q0: "0 \<le> q" and old: "\<And>w. ?D v w \<Longrightarrow> fst w < q \<or> fst w = q \<and> snd w < i \<Longrightarrow> settled s ?k w"
    using p unfolding pre_def Let_def by blast+
  have "settled s ?k w" if w: "?D v w" "fst w < q + 1 \<or> fst w = q + 1 \<and> snd w < er_ExecedUpTo (xs_r s) ! nat (q + 1) + 1" for w
  proof -
    consider "fst w < q" | "fst w = q" | "fst w = q + 1" "snd w \<le> er_ExecedUpTo (xs_r s) ! nat (q + 1)"
      using w(2) by linarith
    then show ?thesis
    proof cases
      case 2
      then have "snd w < i" using w(1) dep_at [OF vi q0 q d(1), of "snd w"] d(2) by (cases w) auto
      then show ?thesis using old w(1) 2 by blast
    next
      case 3
      then have "executed (xs_r s) (fst w, snd w)"
        using exec_inv_below [of "xs_r s" "fst w" "snd w"] pre_search [OF p] w(1) q0 by (auto simp: dep_def)
      then show ?thesis by (simp add: settled_def)
    qed (use old w(1) in blast)
  qed
  then show ?thesis using p q0 unfolding pre_def Let_def by auto
qed

lemma pre_next:
  assumes "pre v l q i s" "settled s (lowlink (xs_r s) v) (q, i)"
  shows "pre v l q (i + 1) s"
proof -
  have "fst w < q \<or> fst w = q \<and> snd w < i \<or> w = (q, i)" if "fst w < q \<or> fst w = q \<and> snd w < i + 1" for w :: iid
    using that by (cases w) auto
  then show ?thesis using assms unfolding pre_def Let_def by (smt (verit))
qed

lemma keeps_refl [simp]: "l \<le> length (xs_stack s) \<Longrightarrow> keeps l s s"
  by (simp add: keeps_def)

lemma keeps_trans: "keeps l s s' \<Longrightarrow> keeps l s' s'' \<Longrightarrow> keeps l s s''"
  unfolding keeps_def using static_trans by auto

lemma keeps_settled:
  assumes "keeps l s s'" "l = length (xs_stack s)" "search_inv s" "settled s k w"
  shows "settled s' k w"
proof -
  have "set (xs_stack s) \<subseteq> set (xs_stack s')" using assms(1,2) unfolding keeps_def by (metis order_refl set_take_subset take_all)
  moreover have "idx (xs_r s') w = idx (xs_r s) w" if "w \<in> set (xs_stack s)"
    using assms(1,3) that unfolding keeps_def search_inv_def on_stack_def by (metis less_irrefl)
  ultimately show ?thesis using assms(1,4) unfolding settled_def keeps_def by auto
qed

lemma stack_distinct: "on_stack s \<Longrightarrow> distinct (xs_stack s)"
  unfolding on_stack_def by (metis distinct_map less_irrefl sorted_wrt_map strict_sorted_iff)

lemma stack_below:
  assumes "on_stack s" "l < length (xs_stack s)" "y \<in> set (xs_stack s)"
  shows "idx (xs_r s) y < idx (xs_r s) (xs_stack s ! l) \<longleftrightarrow> y \<in> set (take l (xs_stack s))"
proof -
  have s: "\<And>i j. i < j \<Longrightarrow> j < length (xs_stack s) \<Longrightarrow> idx (xs_r s) (xs_stack s ! i) < idx (xs_r s) (xs_stack s ! j)"
    using assms(1) unfolding on_stack_def by (metis sorted_wrt_nth_less)
  obtain j where j: "j < length (xs_stack s)" "y = xs_stack s ! j" using assms(3) by (metis in_set_conv_nth)
  have "y \<in> set (take l (xs_stack s)) \<longleftrightarrow> j < l"
    using j assms(2) stack_distinct [OF assms(1)] by (auto simp: in_set_conv_nth nth_eq_iff_index_eq)
  then show ?thesis using s [of j l] s [of l j] j assms(2) by (metis less_asym less_irrefl nat_neq_iff)
qed

lemma keeps_low:
  assumes "on_stack s" "l < length (xs_stack s)" "xs_stack s ! l = v"
  shows "keeps l s (low k v s)"
proof -
  have "v \<notin> set (take l (xs_stack s))"
    using stack_below [OF assms(1,2), of v] assms by (metis less_irrefl nth_mem)
  then show ?thesis using assms by (auto simp: keeps_def low_lowlink)
qed

lemma pre_keeps_low: "pre v l q i s \<Longrightarrow> keeps l s (low k v s)"
  by (rule keeps_low) (auto simp: pre_def Let_def search_inv_def)

text \<open>Lowering the low link of \<open>v\<close> to that of an instance that \<open>v\<close> reaches.\<close>

lemma pre_low:
  assumes p: "pre v l q i s" and y: "y \<in> set (xs_stack s)" "idx (xs_r s) y = k" "(dep (xs_r s))\<^sup>*\<^sup>* v y"
  shows "pre v l q i (low k v s)"
proof -
  let ?k = "lowlink (xs_r (low k v s)) v"
  have v: "v \<in> set (xs_stack s)" using p unfolding pre_def Let_def by (metis nth_mem)
  then have "the_inst (xs_r s) v \<noteq> None"
    using pre_search [OF p] unfolding on_stack_def status_def COMMITTED_def by (auto split: option.splits)
  then have k: "?k = min k (lowlink (xs_r s) v)" by (simp add: low_lowlink)
  have le: "?k \<le> lowlink (xs_r s) v" by (simp add: k)
  have s: "settled s (lowlink (xs_r s) v) w \<Longrightarrow> settled s ?k w" for w using settled_mono [OF _ le] .
  have "\<exists>y \<in> set (xs_stack s). idx (xs_r s) y = ?k \<and> (dep (xs_r s))\<^sup>*\<^sup>* v y"
    using p y unfolding pre_def Let_def k by (metis min_def)
  then show ?thesis using p s le unfolding pre_def Let_def by auto
qed

subsection \<open>A new instance\<close>

lemma enter_simps [simp]:
  "xs_stack (enter v s) = xs_stack s @ [v]" "xs_index (enter v s) = xs_index s + 1"
  "status (xs_r (enter v s)) = status (xs_r s)" "er_executed (xs_r (enter v s)) = er_executed (xs_r s)"
  by (simp_all add: enter_def)

lemma enter_static [simp]: "static (xs_r s) (xs_r (enter v s))"
  unfolding enter_def by (simp, rule static_upd, simp add: essence_def)

lemmas enter_fields [simp] = static_fields [OF enter_static] dep_static [OF enter_static] node_key_static [OF enter_static]

lemma enter_executed [simp]: "executed (xs_r (enter v s)) = executed (xs_r s)"
  by (simp add: executed_def fun_eq_iff)

lemma ready_enter [simp]: "ready (xs_r s) w \<Longrightarrow> ready (xs_r (enter v s)) w"
  by (rule ready_static [OF enter_static]) simp_all

lemma enter_grows [simp]: "grows (xs_r s) (xs_r (enter v s))"
  by (simp add: grows_def)

lemma enter_idx:
  assumes "status (xs_r s) v = COMMITTED"
  shows "idx (xs_r (enter v s)) w = (if w = v then xs_index s else idx (xs_r s) w)"
    "lowlink (xs_r (enter v s)) w = (if w = v then xs_index s else lowlink (xs_r s) w)"
proof -
  obtain vi where "the_inst (xs_r s) v = Some vi"
    using assms status_some [of "xs_r s" v] by (auto simp: COMMITTED_def)
  then show "idx (xs_r (enter v s)) w = (if w = v then xs_index s else idx (xs_r s) w)"
    "lowlink (xs_r (enter v s)) w = (if w = v then xs_index s else lowlink (xs_r s) w)"
    by (simp_all add: enter_def upd_idx upd_lowlink)
qed

lemma enter_search:
  assumes s: "search_inv s" and v: "status (xs_r s) v = COMMITTED" "idx (xs_r s) v = 0"
  shows "search_inv (enter v s)"
proof -
  have e: "exec_inv (xs_r (enter v s))" using exec_inv_static [OF enter_static [of s v]] s by (simp add: search_inv_def)
  have o: "on_stack s" using s by (simp add: search_inv_def)
  have new: "v \<notin> set (xs_stack s)" using o v(2) unfolding on_stack_def by (metis less_irrefl)
  have i: "idx (xs_r (enter v s)) w = idx (xs_r s) w" if "w \<in> set (xs_stack s)" for w
    using that new enter_idx(1) [OF v(1)] by auto
  have sorted: "sorted_wrt (\<lambda>u w. idx (xs_r (enter v s)) u < idx (xs_r (enter v s)) w) (xs_stack s)"
    using o i unfolding on_stack_def by (metis (no_types, lifting) sorted_wrt_mono_rel)
  have "on_stack (enter v s)"
    using o v sorted unfolding on_stack_def enter_simps enter_executed enter_idx(1) [OF v(1)]
    by (auto simp: sorted_wrt_append)
  then show ?thesis using e by (simp add: search_inv_def)
qed

lemma enter_keeps:
  assumes s: "search_inv s" and v: "status (xs_r s) v = COMMITTED" "idx (xs_r s) v = 0"
  shows "keeps (length (xs_stack s)) s (enter v s)"
proof -
  have new: "v \<notin> set (xs_stack s)" using s v(2) unfolding search_inv_def on_stack_def by (metis less_irrefl)
  show ?thesis using v new by (auto simp: keeps_def enter_idx [OF v(1)])
qed

lemma enter_pre:
  assumes s: "search_inv s" and v: "status (xs_r s) v = COMMITTED" "idx (xs_r s) v = 0"
    and D: "\<And>x. x \<in> set (xs_stack s) \<Longrightarrow> (dep (xs_r s))\<^sup>*\<^sup>* x v"
  shows "pre v (length (xs_stack s)) 0 (er_ExecedUpTo (xs_r s) ! 0 + 1) (enter v s)"
proof -
  have "settled (enter v s) k w" if w: "dep (xs_r s) v w" "fst w < 0 \<or> fst w = 0 \<and> snd w < er_ExecedUpTo (xs_r s) ! 0 + 1" for k w
  proof -
    have "fst w = 0" "0 < er_N (xs_r s)" "0 \<le> snd w" using w by (auto simp: dep_def)
    then have "executed (xs_r s) (fst w, snd w)"
      using w(2) s exec_inv_below [of "xs_r s" 0 "snd w"] by (simp add: search_inv_def)
    then show ?thesis by (simp add: settled_def)
  qed
  then show ?thesis
    using enter_search [OF s v] D unfolding pre_def Let_def by (auto simp: enter_idx [OF v(1)])
qed

subsection \<open>A component\<close>

lemma exec_cmds_fields:
  assumes "exec_cmds T ps n cs r = Some r'"
  shows "er_InstanceSpace r' = er_InstanceSpace r \<and> er_N r' = er_N r \<and> er_ExecedUpTo r' = er_ExecedUpTo r \<and>
    er_slices r' = er_slices r \<and> er_crtInstance r' = er_crtInstance r \<and> er_executed r' = er_executed r"
  using assms
proof (induction T ps n cs r rule: exec_cmds.induct)
  case (2 T ps idx c cs r)
  then show ?case
    by (auto simp: ReplyProposeTS_def split: if_splits option.splits Option.bind_splits)
qed auto

lemma exec_cmds_static:
  assumes "exec_cmds T ps n cs r = Some r'"
  shows "static r r'" "the_inst r' = the_inst r" "er_executed r' = er_executed r"
  using exec_cmds_fields [OF assms] by (simp_all add: static_def the_inst_def fun_eq_iff)

lemma exec_nodes_static:
  assumes "exec_nodes T vs r = Some r'"
  shows "static r r'" "er_executed r' = er_executed r" "idx r' = idx r" "lowlink r' = lowlink r"
    "status r' v = (if v \<in> set vs then EXECUTED else status r v)"
proof -
  have "static r r' \<and> er_executed r' = er_executed r \<and> idx r' = idx r \<and> lowlink r' = lowlink r \<and>
      (\<forall>v. status r' v = (if v \<in> set vs then EXECUTED else status r v))"
    using assms
  proof (induction T vs r rule: exec_nodes.induct)
    case (2 T u vs r)
    then obtain inst r1 where i: "the_inst r u = Some inst" and e: "exec_cmds T (respond r inst) 0 (wire (ei_Cmds inst)) r = Some r1"
      and n: "exec_nodes T vs (upd_inst u (\<lambda>inst. inst\<lparr>ei_Status := EXECUTED\<rparr>) r1) = Some r'"
      by (auto split: Option.bind_splits)
    let ?r = "upd_inst u (\<lambda>inst. inst\<lparr>ei_Status := EXECUTED\<rparr>) r1"
    note c = exec_cmds_static [OF e]
    have "static r1 ?r" by (rule static_upd) (simp add: essence_def)
    then have "static r ?r" by (rule static_trans [OF c(1)])
    moreover have "idx ?r = idx r" "lowlink ?r = lowlink r" "er_executed ?r = er_executed r"
      using c by (simp_all add: idx_def lowlink_def fun_eq_iff the_inst_upd)
    moreover have "status ?r w = (if w = u then EXECUTED else status r w)" for w
      using c i by (simp add: upd_status) (simp add: status_def)
    ultimately show ?case using 2(1) [OF i e n] by (auto intro: static_trans)
  qed simp
  then show "static r r'" "er_executed r' = er_executed r" "idx r' = idx r" "lowlink r' = lowlink r"
    "status r' v = (if v \<in> set vs then EXECUTED else status r v)" by blast+
qed

lemma status_distinct [simp]: "COMMITTED \<noteq> EXECUTED" "EXECUTED \<noteq> COMMITTED" "COMMITTED \<noteq> 0" "EXECUTED \<noteq> 0"
  by (simp_all add: status_defs)

lemma stack_not_executed: "on_stack s \<Longrightarrow> v \<in> set (xs_stack s) \<Longrightarrow> \<not> executed (xs_r s) v"
  unfolding on_stack_def executed_def by (simp add: status_defs)

lemma stack_above:
  assumes "on_stack s" "l < length (xs_stack s)" "y \<in> set (xs_stack s)" "idx (xs_r s) (xs_stack s ! l) \<le> idx (xs_r s) y"
  shows "y \<in> set (drop l (xs_stack s))"
  using stack_below [OF assms(1-3)] assms(3,4)
  by (metis append_take_drop_id Un_iff linorder_not_le set_append)

text \<open>At the end of the loops the instances above \<open>v\<close> depend on each other, and on no others that are not executed.\<close>

lemma pre_above:
  assumes p: "pre v l q i s" and q: "er_N (xs_r s) \<le> q" and x: "x \<in> set (drop l (xs_stack s))"
  shows "(dep (xs_r s))\<^sup>*\<^sup>* x v" "(dep (xs_r s))\<^sup>*\<^sup>* v x" "dep (xs_r s) x w \<Longrightarrow> settled s (lowlink (xs_r s) v) w"
proof -
  show "(dep (xs_r s))\<^sup>*\<^sup>* x v" "(dep (xs_r s))\<^sup>*\<^sup>* v x"
    using p x unfolding pre_def Let_def by (blast dest: in_set_dropD)+
  have "x = v \<or> x \<in> set (drop (Suc l) (xs_stack s))"
    using p x unfolding pre_def Let_def by (metis Cons_nth_drop_Suc set_ConsD)
  then show "dep (xs_r s) x w \<Longrightarrow> settled s (lowlink (xs_r s) v) w"
  proof
    assume "dep (xs_r s) x w" "x = v"
    then show ?thesis using p q unfolding pre_def Let_def dep_def by (smt (verit))
  qed (use p in \<open>unfold pre_def Let_def, blast\<close>)
qed

lemma component_sorted:
  assumes p: "pre v l q i s" and q: "er_N (xs_r s) \<le> q" and low: "lowlink (xs_r s) v = idx (xs_r s) v"
  shows "component_ok (dep (xs_r s)) (node_key (xs_r s)) (set (concat (er_executed (xs_r s))))
           (sort_key (node_key (xs_r s)) (drop l (xs_stack s)))"
proof -
  have o: "on_stack s" and e: "exec_inv (xs_r s)" using pre_search [OF p] by auto
  have l: "l < length (xs_stack s)" "xs_stack s ! l = v" using p unfolding pre_def Let_def by blast+
  have ex: "executed (xs_r s) w \<longleftrightarrow> w \<in> set (concat (er_executed (xs_r s)))" for w using e unfolding exec_inv_def by blast
  have "w \<in> set (concat (er_executed (xs_r s))) \<union> set (drop l (xs_stack s))"
    if "x \<in> set (drop l (xs_stack s))" "dep (xs_r s) x w" for x w
    using pre_above(3) [OF p q that] stack_above [OF o l(1), of w] l(2) low ex [of w] by (auto simp: settled_def)
  moreover have "(dep (xs_r s))\<^sup>*\<^sup>* x y" if "x \<in> set (drop l (xs_stack s))" "y \<in> set (drop l (xs_stack s))" for x y
    using pre_above(1) [OF p q that(1)] pre_above(2) [OF p q that(2)] by (rule rtranclp_trans)
  moreover have "set (drop l (xs_stack s)) \<inter> set (concat (er_executed (xs_r s))) = {}"
    using stack_not_executed [OF o] ex by (meson disjoint_iff in_set_dropD)
  ultimately show ?thesis using stack_distinct [OF o] by (simp add: component_ok_def)
qed

lemma component_popped:
  assumes p: "pre v l q i s" and q: "er_N (xs_r s) \<le> q" and low: "lowlink (xs_r s) v = idx (xs_r s) v"
    and n: "nodes = sort_key (node_key (xs_r s)) (drop l (xs_stack s))" and r: "exec_nodes T nodes (xs_r s) = Some r"
    and s': "s' = s\<lparr>xs_r := r\<lparr>er_executed := er_executed r @ [nodes]\<rparr>, xs_stack := take l (xs_stack s)\<rparr>"
  shows "search_inv s' \<and> keeps l s s' \<and> popped v l s s'"
proof -
  have o: "on_stack s" and e: "exec_inv (xs_r s)" using pre_search [OF p] by auto
  have l: "l < length (xs_stack s)" "xs_stack s ! l = v" using p unfolding pre_def Let_def by blast+
  have set: "set nodes = set (drop l (xs_stack s))" by (simp add: n)
  have v: "v \<in> set nodes" using l unfolding set by (metis Cons_nth_drop_Suc list.set_intros(1))
  note x = exec_nodes_static [OF r]
  have f: "xs_stack s' = take l (xs_stack s)" "xs_index s' = xs_index s" "er_executed (xs_r s') = er_executed (xs_r s) @ [nodes]"
      "idx (xs_r s') = idx (xs_r s)" "lowlink (xs_r s') = lowlink (xs_r s)"
      "status (xs_r s') u = (if u \<in> set nodes then EXECUTED else status (xs_r s) u)" for u
    using x by (simp_all add: s' views the_inst_def fun_eq_iff)
  have st: "static (xs_r s) (xs_r s')" using x(1) by (simp add: s' static_def the_inst_def)
  have ex: "executed (xs_r s') u \<longleftrightarrow> u \<in> set nodes \<or> executed (xs_r s) u" for u by (simp add: executed_def f(6))
  have "exec_inv (xs_r s')"
    using e component_sorted [OF p q low, folded n] unfolding exec_inv_def
    by (simp add: ex f(3) static_fields [OF st] dep_static [OF st] node_key_static [OF st] order_ok_append) blast
  moreover have "on_stack s'"
  proof -
    have "u \<notin> set nodes" if "u \<in> set (take l (xs_stack s))" for u
      using set_take_disj_set_drop_if_distinct [OF stack_distinct [OF o] order_refl, of l] that unfolding set by blast
    moreover have "u \<in> set (take l (xs_stack s))" if "u \<in> set (xs_stack s)" "u \<notin> set nodes" for u
      using that unfolding set by (metis Un_iff append_take_drop_id set_append)
    ultimately show ?thesis
      using o unfolding on_stack_def by (simp add: f ex sorted_wrt_take) (meson in_set_takeD)
  qed
  ultimately have "search_inv s'" by (simp add: search_inv_def)
  moreover have "ready (xs_r s') u" if "ready (xs_r s) u" for u
    by (rule ready_static [OF st _ that]) (simp add: f)
  then have "keeps l s s'" using st l(1) by (simp add: keeps_def f ex)
  moreover have "popped v l s s'" using l(1) v low by (simp add: popped_def f ex)
  ultimately show ?thesis by blast
qed

lemma component_kept:
  assumes p: "pre v l q i s" and q: "er_N (xs_r s) \<le> q" and low: "lowlink (xs_r s) v \<noteq> idx (xs_r s) v"
  shows "kept v l s"
proof -
  have o: "on_stack s" using pre_search [OF p] by auto
  have l: "l < length (xs_stack s)" "xs_stack s ! l = v" using p unfolding pre_def Let_def by blast+
  obtain y where "y \<in> set (xs_stack s)" "idx (xs_r s) y = lowlink (xs_r s) v" "(dep (xs_r s))\<^sup>*\<^sup>* v y"
    "lowlink (xs_r s) v < idx (xs_r s) v" using p low unfolding pre_def Let_def by (metis order_le_less)
  then have "\<exists>y \<in> set (take l (xs_stack s)). idx (xs_r s) y = lowlink (xs_r s) v \<and> (dep (xs_r s))\<^sup>*\<^sup>* v y"
    using stack_below [OF o l(1), of y] l(2) by auto
  then show ?thesis using pre_above [OF p q] l unfolding kept_def Let_def by blast
qed

lemma pre_inst: "pre v l q i s \<Longrightarrow> \<exists>vi. the_inst (xs_r s) v = Some vi"
proof -
  assume p: "pre v l q i s"
  then have "v \<in> set (xs_stack s)" unfolding pre_def Let_def by (metis nth_mem)
  then have "status (xs_r s) v = COMMITTED" using pre_search [OF p] unfolding on_stack_def by blast
  then show ?thesis using status_some [of "xs_r s" v] by (simp add: COMMITTED_def)
qed

lemma component_post:
  assumes p: "pre v l q i s" and q: "er_N (xs_r s) \<le> q" and c: "component T v l s = Some s'"
  shows "post v l s (Done True s')"
proof -
  obtain vi where vi: "the_inst (xs_r s) v = Some vi" using pre_inst [OF p] by blast
  show ?thesis
  proof (cases "lowlink (xs_r s) v = idx (xs_r s) v")
    case True
    then obtain r where "exec_nodes T (sort_key (node_key (xs_r s)) (drop l (xs_stack s))) (xs_r s) = Some r"
      "s' = s\<lparr>xs_r := r\<lparr>er_executed := er_executed r @ [sort_key (node_key (xs_r s)) (drop l (xs_stack s))]\<rparr>, xs_stack := take l (xs_stack s)\<rparr>"
      using c vi by (auto simp: component_def views Let_def split: Option.bind_splits)
    then have "search_inv s' \<and> keeps l s s' \<and> popped v l s s'" using component_popped [OF p q True refl] by blast
    then show ?thesis using keeps_grows [of l s s'] by (simp add: post_def)
  next
    case False
    then have "s' = s" using c vi by (simp add: component_def views)
    then show ?thesis using component_kept [OF p q False] pre_search [OF p] p
      by (simp add: post_def) (simp add: pre_def Let_def)
  qed
qed

subsection \<open>A dependency\<close>

text \<open>\<open>v\<close> goes on after the search of a dependency \<open>w\<close> that has left the instances above \<open>v\<close> on the stack.\<close>

lemma pre_merge:
  assumes p: "pre v l q i s" and kp: "keeps (length (xs_stack s)) s s'" and s': "search_inv s'"
    and new: "\<And>x. x \<in> set (drop (length (xs_stack s)) (xs_stack s')) \<Longrightarrow>
       (dep (xs_r s))\<^sup>*\<^sup>* x v \<and> (dep (xs_r s))\<^sup>*\<^sup>* v x \<and> (\<forall>w. dep (xs_r s) x w \<longrightarrow> settled s' k w)"
    and y: "\<exists>y \<in> set (xs_stack s'). idx (xs_r s') y = min k (lowlink (xs_r s) v) \<and> (dep (xs_r s))\<^sup>*\<^sup>* v y"
  shows "pre v l q i (low k v s')"
proof -
  let ?D = "dep (xs_r s)" and ?L = "length (xs_stack s)" and ?k = "min k (lowlink (xs_r s) v)"
  have o: "search_inv s" and o': "on_stack s'" using pre_search [OF p] s' by (auto simp: search_inv_def)
  have l: "l < ?L" "xs_stack s ! l = v" using p unfolding pre_def Let_def by blast+
  have st: "static (xs_r s) (xs_r s')" using kp unfolding keeps_def by blast
  have stack: "xs_stack s' = xs_stack s @ drop ?L (xs_stack s')"
    using kp unfolding keeps_def by (metis append_take_drop_id take_all order_refl)
  have v: "v \<in> set (xs_stack s)" using l by auto
  then have v': "idx (xs_r s') v = idx (xs_r s) v" "lowlink (xs_r s') v = lowlink (xs_r s) v"
    using kp o unfolding keeps_def search_inv_def on_stack_def by (simp, metis less_irrefl, simp)
  have "v \<in> set (xs_stack s')" using v stack by (metis Un_iff set_append)
  then have "the_inst (xs_r s') v \<noteq> None"
    using o' unfolding on_stack_def status_def COMMITTED_def by (auto split: option.splits)
  then have low: "lowlink (xs_r (low k v s')) v = ?k" by (simp add: low_lowlink v')
  have old: "settled s' ?k w" if "settled s (lowlink (xs_r s) v) w" for w
    by (rule settled_mono [OF keeps_settled [OF kp refl o that]]) simp
  have "?D\<^sup>*\<^sup>* x v" if "x \<in> set (xs_stack s')" for x
  proof -
    from that have "x \<in> set (xs_stack s) \<or> x \<in> set (drop ?L (xs_stack s'))" using arg_cong [OF stack, of set] by simp
    then show ?thesis using new p unfolding pre_def Let_def by blast
  qed
  moreover have split: "x \<in> set (drop n (xs_stack s)) \<or> x \<in> set (drop ?L (xs_stack s'))"
    if "x \<in> set (drop n (xs_stack s'))" "n \<le> ?L" for x n
  proof -
    have "drop n (xs_stack s') = drop n (xs_stack s) @ drop ?L (xs_stack s')"
      using that(2) arg_cong [OF stack, of "drop n"] by simp
    then show ?thesis using that(1) by auto
  qed
  then have "?D\<^sup>*\<^sup>* v x" if "x \<in> set (drop l (xs_stack s'))" for x
    using that new p l(1) unfolding pre_def Let_def by (meson less_imp_le_nat)
  moreover have "settled s' ?k w" if x: "x \<in> set (drop (Suc l) (xs_stack s'))" and w: "?D x w" for x w
  proof -
    consider "x \<in> set (drop (Suc l) (xs_stack s))" | "x \<in> set (drop ?L (xs_stack s'))"
      using split [OF x] l(1) by auto
    then show ?thesis
    proof cases
      case 1
      then show ?thesis using p old w unfolding pre_def Let_def by blast
    next
      case 2
      then show ?thesis using new w settled_mono [of s' k w ?k] by auto
    qed
  qed
  moreover have "xs_stack s' ! l = v" "l < length (xs_stack s')" using l stack by (metis nth_append, metis length_append trans_less_add1)
  ultimately show ?thesis
    using p y s' old unfolding pre_def Let_def low
    by (simp add: v' static_fields [OF st] dep_static [OF st] min_le_iff_disj)
qed

lemma keeps_shorter: "keeps m s s' \<Longrightarrow> l \<le> m \<Longrightarrow> keeps l s s'"
  unfolding keeps_def by (auto simp: min_def) (metis min_absorb1 take_take, metis in_set_takeD min_absorb1 take_take)

lemma pre_child:
  assumes p: "pre v l q i s" and w: "dep (xs_r s) v w" "status (xs_r s) w = COMMITTED" "idx (xs_r s) w = 0"
  shows "pre w (length (xs_stack s)) 0 (er_ExecedUpTo (xs_r s) ! 0 + 1) (enter w s)"
proof (rule enter_pre [OF _ w(2,3)])
  show "search_inv s" using pre_search [OF p] by blast
  show "(dep (xs_r s))\<^sup>*\<^sup>* x w" if "x \<in> set (xs_stack s)" for x
    using p that w(1) unfolding pre_def Let_def by (metis rtranclp.rtrancl_into_rtrancl)
qed

text \<open>After the search of a new instance \<open>w\<close> the low link of \<open>v\<close> becomes that of \<open>w\<close>, if it is lower.\<close>

lemma pre_return:
  assumes p: "pre v l q i s" and w: "w = (q, i)" "dep (xs_r s) v w" "status (xs_r s) w = COMMITTED" "idx (xs_r s) w = 0"
    and c: "post w (length (xs_stack s)) (enter w s) (Done True s')" and s'': "s'' = low (lowlink (xs_r s') w) v s'"
  shows "pre v l q (i + 1) s'' \<and> keeps l s s''"
proof -
  let ?D = "dep (xs_r s)" and ?L = "length (xs_stack s)" and ?k = "lowlink (xs_r s') w"
  have o: "search_inv s" using pre_search [OF p] by blast
  have l: "l < ?L" "xs_stack s ! l = v" and vk: "lowlink (xs_r s) v \<le> idx (xs_r s) v"
    using p unfolding pre_def Let_def by blast+
  have s': "search_inv s'" and ek: "keeps ?L (enter w s) s'" and fin: "popped w ?L (enter w s) s' \<or> kept w ?L s'"
    using c by (auto simp: post_def)
  have kp: "keeps ?L s s'" by (rule keeps_trans [OF enter_keeps [OF o w(3,4)] ek])
  have st: "static (xs_r s) (xs_r s')" using kp unfolding keeps_def by blast
  have wpos: "0 < xs_index s" using o unfolding search_inv_def on_stack_def by blast
  then have iw: "idx (xs_r s') w = xs_index s"
    using ek unfolding keeps_def by (metis enter_idx(1) [OF w(3)] less_irrefl)
  have vidx: "idx (xs_r s) v < xs_index s" using o l unfolding search_inv_def on_stack_def by (metis nth_mem)
  obtain y0 where y0: "y0 \<in> set (xs_stack s)" "idx (xs_r s) y0 = lowlink (xs_r s) v" "?D\<^sup>*\<^sup>* v y0"
    using p unfolding pre_def Let_def by blast
  have old: "x \<in> set (xs_stack s')" "idx (xs_r s') x = idx (xs_r s) x" if "x \<in> set (xs_stack s)" for x
  proof -
    show "x \<in> set (xs_stack s')" using that kp unfolding keeps_def by (metis in_set_takeD order_refl take_all)
    show "idx (xs_r s') x = idx (xs_r s) x"
      using that kp o unfolding keeps_def search_inv_def on_stack_def by (metis less_irrefl)
  qed
  have m: "pre v l q i s'' \<and> settled s'' (lowlink (xs_r s'') v) w"
    using fin
  proof
    assume pop: "popped w ?L (enter w s) s'"
    then have "?k = xs_index s" "drop ?L (xs_stack s') = []" "executed (xs_r s') w" by (auto simp: popped_def iw)
    moreover have "min ?k (lowlink (xs_r s) v) = lowlink (xs_r s) v" using calculation(1) vk vidx by simp
    ultimately show ?thesis
      using pre_merge [OF p kp s', of ?k] y0 old [OF y0(1)] by (auto simp: s'' settled_def)
  next
    assume kt: "kept w ?L s'"
    then obtain y where y: "y \<in> set (take ?L (xs_stack s'))" "idx (xs_r s') y = ?k" "?D\<^sup>*\<^sup>* w y"
      and D: "\<And>x. x \<in> set (drop ?L (xs_stack s')) \<Longrightarrow> ?D\<^sup>*\<^sup>* x w \<and> ?D\<^sup>*\<^sup>* w x \<and> (\<forall>u. ?D x u \<longrightarrow> settled s' ?k u)"
      unfolding kept_def Let_def dep_static [OF st] by blast
    have ys: "y \<in> set (xs_stack s)" using y(1) kp unfolding keeps_def by (metis order_refl take_all)
    have yv: "?D\<^sup>*\<^sup>* y v" using p ys unfolding pre_def Let_def by blast
    have vw: "?D\<^sup>*\<^sup>* v w" using w(2) by blast
    have "pre v l q i s''" unfolding s''
    proof (rule pre_merge [OF p kp s'])
      show "?D\<^sup>*\<^sup>* x v \<and> ?D\<^sup>*\<^sup>* v x \<and> (\<forall>u. ?D x u \<longrightarrow> settled s' ?k u)" if "x \<in> set (drop ?L (xs_stack s'))" for x
        using D [OF that] y(3) yv vw by (meson rtranclp_trans)
      show "\<exists>y \<in> set (xs_stack s'). idx (xs_r s') y = min ?k (lowlink (xs_r s) v) \<and> ?D\<^sup>*\<^sup>* v y"
        using y0 old [OF y0(1)] y(2,3) old(1) [OF ys] vw by (metis min_def rtranclp_trans)
    qed
    moreover have "settled s'' (lowlink (xs_r s'') v) w"
    proof -
      have "w \<in> set (xs_stack s')" using kt unfolding kept_def Let_def by (metis nth_mem)
      moreover have "lowlink (xs_r s'') v \<le> idx (xs_r s'') v" using \<open>pre v l q i s''\<close> unfolding pre_def Let_def by blast
      ultimately show ?thesis using old(2) [of v] l vidx iw by (auto simp: s'' settled_def)
    qed
    ultimately show ?thesis by blast
  qed
  have "keeps l s s''"
  proof (rule keeps_trans)
    show "keeps l s s'" using keeps_shorter [OF kp] l(1) by simp
    have "l < length (xs_stack s')" "xs_stack s' ! l = v"
      using kp l unfolding keeps_def by (simp, metis nth_take order_refl take_all)
    then show "keeps l s' s''" using keeps_low [of s' l v] s' by (simp add: s'' search_inv_def)
  qed
  then show ?thesis using pre_next [of v l q i s''] m w(1) by blast
qed

section \<open>The search\<close>

lemma post_keeps:
  assumes "keeps l s s1" "post v l s1 res"
  shows "post v l s res"
proof (cases res)
  case (Done ok s')
  have st: "static (xs_r s) (xs_r s1)" and r: "\<And>v. ready (xs_r s) v \<Longrightarrow> ready (xs_r s1) v"
    using assms(1) unfolding keeps_def by blast+
  moreover have "popped v l s s' = popped v l s1 s'" by (simp add: popped_def)
  ultimately show ?thesis
    using assms(2) keeps_trans [OF assms(1), of s'] grows_trans [OF keeps_grows [OF assms(1)], of "xs_r s'"] Done dep_static [OF st]
    by (auto simp: post_def split: if_splits)
qed (simp add: post_def)

lemma pre_fails: "pre v l q i s \<Longrightarrow> dep (xs_r s) v w \<Longrightarrow> \<not> ready (xs_r s) w \<Longrightarrow> post v l s (Done False s)"
  using pre_search [of v l q i s] by (auto simp: post_def)

lemma strongconnect_post:
  assumes "strongconnect T v l q i s = Some res" "pre v l q i s"
  shows "post v l s res"
  using assms
proof (induction T v l q i s res rule: strongconnect.raw_induct [rotated, consumes 1, case_names step])
  case (step rec T v l q i s res)
  note IH = step(1) and body = step(2) and p = step(3)
  let ?r = "xs_r s"
  obtain vi where vi: "the_inst ?r v = Some vi" using pre_inst [OF p] by blast
  show ?case
  proof (cases "er_N ?r \<le> q")
    case True
    then show ?thesis
      using body vi component_post [OF p True, of T]
      by (cases "component T v l s") (auto simp: post_def)
  next
    case q: False
    show ?thesis
    proof (cases "at (slice_of ?r (ei_Deps vi)) q")
      case None
      then have "res = Panic" using body vi q by simp
      then show ?thesis by (simp add: post_def)
    next
      case d: (Some d)
      show ?thesis
      proof (cases "d < i")
        case True
        then have "rec T v l (q + 1) (er_ExecedUpTo ?r ! nat (q + 1) + 1) s = Some res" using body vi q d by simp
        then show ?thesis using IH pre_next_row [OF p vi _ d True] q by simp
      next
        case i: False
        have q0: "0 \<le> q" and i0: "0 \<le> i"
          using p q exec_inv_bound [of ?r q i] pre_search [OF p] unfolding pre_def Let_def by auto
        have D: "dep ?r v (q, i)" using dep_at [OF vi q0 _ d, of i] q i i0 by simp
        show ?thesis
        proof (cases "get_inst ?r q i")
          case None
          then have "res = Panic" using body vi q d i by simp
          then show ?thesis by (simp add: post_def)
        next
          case g: (Some x)
          show ?thesis
          proof (cases x)
            case None
            then have "res = Done False s" "\<not> ready ?r (q, i)"
              using body vi q d i g by (auto simp: ready_def get_inst_def the_inst_def split: if_splits)
            then show ?thesis using pre_fails [OF p D] by simp
          next
            case (Some wi)
            then have wi: "get_inst ?r q i = Some (Some wi)" and w: "the_inst ?r (q, i) = Some wi"
              using g by (auto simp: get_inst_def the_inst_def split: if_splits)
            note body = body [unfolded vi, simplified q d i wi if_False option.case]
            show ?thesis
            proof (cases "ei_Cmds wi = None \<or> ei_Status wi \<noteq> EXECUTED \<and> ei_Status wi \<noteq> COMMITTED")
              case True
              then have "res = Done False s" "\<not> ready ?r (q, i)" using body w by (auto simp: ready_def split: if_splits)
              then show ?thesis using pre_fails [OF p D] by simp
            next
              case cc: False
              then obtain cs where c: "ei_Cmds wi = Some cs" by auto
              show ?thesis
              proof (cases "ei_Status wi = EXECUTED")
                case True
                then have "rec T v l q (i + 1) s = Some res" using body c by simp
                moreover have "settled s (lowlink ?r v) (q, i)" using True w by (simp add: settled_def executed_def views)
                ultimately show ?thesis using IH pre_next [OF p] by blast
              next
                case nex: False
                then have ne: "ei_Status wi = COMMITTED" using cc by blast
                then have com: "status ?r (q, i) = COMMITTED" using w by (simp add: views)
                show ?thesis
                proof (cases "ei_Index wi = 0")
                  case new: True
                  then have w0: "idx ?r (q, i) = 0" using w by (simp add: views)
                  obtain cr where cr: "rec T (q, i) (length (xs_stack s)) 0 (er_ExecedUpTo ?r ! 0 + 1) (enter (q, i) s) = Some cr"
                    using body c ne new by (auto split: Option.bind_splits)
                  note pc = IH [OF cr pre_child [OF p D com w0]]
                  show ?thesis
                  proof (cases cr)
                    case Panic
                    then have "res = Panic" using body c ne new cr by simp
                    then show ?thesis by (simp add: post_def)
                  next
                    case dn: (Done ok s')
                    show ?thesis
                    proof (cases ok)
                      case False
                      then have "res = Done False s'" using body c ne new cr dn by simp
                      moreover obtain w where "(dep ?r)\<^sup>*\<^sup>* (q, i) w" "\<not> ready (xs_r (enter (q, i) s)) w" "search_inv s'"
                        "grows (xs_r (enter (q, i) s)) (xs_r s')"
                        using pc dn False by (simp add: post_def) blast
                      moreover from this have "(dep ?r)\<^sup>*\<^sup>* v w" "\<not> ready ?r w" "grows ?r (xs_r s')"
                        using converse_rtranclp_into_rtranclp [of "dep ?r", OF D] ready_enter grows_trans [OF enter_grows]
                        by blast+
                      ultimately show ?thesis by (auto simp: post_def)
                    next
                      case True
                      show ?thesis
                      proof (cases "the_inst (xs_r s') (q, i)")
                        case None
                        then have "res = Panic" using body c ne new cr dn True by simp
                        then show ?thesis by (simp add: post_def)
                      next
                        case (Some wj)
                        then have "rec T v l q (i + 1) (low (lowlink (xs_r s') (q, i)) v s') = Some res"
                          using body c ne new cr dn True by (simp add: views)
                        moreover have "post (q, i) (length (xs_stack s)) (enter (q, i) s) (Done True s')"
                          using pc dn True by simp
                        ultimately show ?thesis
                          using IH post_keeps pre_return [OF p refl D com w0 _ refl] by blast
                      qed
                    qed
                  qed
                next
                  case old: False
                  then have st: "(q, i) \<in> set (xs_stack s)"
                    using pre_search [OF p] w ne unfolding on_stack_def by (auto simp: views executed_def)
                  then have "rec T v l q (i + 1) (low (idx ?r (q, i)) v s) = Some res"
                    using body c ne old w by (simp add: views)
                  moreover have "pre v l q i (low (idx ?r (q, i)) v s)" using pre_low [OF p st refl] D by blast
                  moreover have "settled (low (idx ?r (q, i)) v s) (lowlink (xs_r (low (idx ?r (q, i)) v s)) v) (q, i)"
                    using st vi by (simp add: settled_def low_lowlink)
                  ultimately show ?thesis using IH pre_next post_keeps [OF pre_keeps_low [OF p]] by blast
                qed
              qed
            qed
          qed
        qed
      qed
    qed
  qed
qed

section \<open>The search returns\<close>

text \<open>The instances without an index, and what is left of the loop over the dependencies on row \<open>q\<close>.\<close>

definition unseen :: "'st EReplica \<Rightarrow> iid set" where
  "unseen r = {w \<in> {0..<er_N r} \<times> {0..<MAX_INSTANCE}. idx r w = 0}"

definition remaining :: "iid \<Rightarrow> int \<Rightarrow> int \<Rightarrow> 'st EReplica \<Rightarrow> nat" where
  "remaining v q i r =
     (case the_inst r v of None \<Rightarrow> 0
      | Some vi \<Rightarrow> (case at (slice_of r (ei_Deps vi)) q of None \<Rightarrow> 0 | Some d \<Rightarrow> nat (d + 1 - i)))"

lemma finite_unseen [simp]: "finite (unseen r)"
  by (rule finite_subset [of _ "{0..<er_N r} \<times> {0..<MAX_INSTANCE}"]) (auto simp: unseen_def)

lemma remaining_static: "static r r' \<Longrightarrow> remaining v q i r' = remaining v q i r"
proof -
  assume s: "static r r'"
  show ?thesis
  proof (cases "the_inst r v")
    case None
    then show ?thesis using static_none [OF s None] by (simp add: remaining_def)
  next
    case (Some vi)
    obtain vi' where "the_inst r' v = Some vi'" "essence vi' = essence vi" using static_inst [OF s Some] by blast
    then show ?thesis using Some essence_fields(2) [of vi' vi] by (simp add: remaining_def static_fields [OF s])
  qed
qed

lemma unseen_mono: "keeps l s s' \<Longrightarrow> unseen (xs_r s') \<subseteq> unseen (xs_r s)"
  unfolding keeps_def unseen_def by (auto simp: static_fields)

definition measures_of :: "iid \<times> int \<times> int \<times> 'st EReplica \<Rightarrow> nat \<times> nat \<times> nat" where
  "measures_of p = (case p of (v, q, i, r) \<Rightarrow> (card (unseen r), nat (er_N r - q), remaining v q i r))"

definition goes_down :: "((iid \<times> int \<times> int \<times> 'st EReplica) \<times> (iid \<times> int \<times> int \<times> 'st EReplica)) set" where
  "goes_down = inv_image (less_than <*lex*> less_than <*lex*> less_than) measures_of"

lemma wf_goes_down: "wf goes_down"
  by (simp add: goes_down_def wf_inv_image wf_lex_prod)

lemma goes_down_next:
  assumes "keeps l s s'" "the_inst (xs_r s) v = Some vi" "at (slice_of (xs_r s) (ei_Deps vi)) q = Some d" "i \<le> d"
  shows "((v, q, i + 1, xs_r s'), (v, q, i, xs_r s)) \<in> goes_down"
proof -
  have st: "static (xs_r s) (xs_r s')" using assms(1) by (simp add: keeps_def)
  have "card (unseen (xs_r s')) \<le> card (unseen (xs_r s))" by (rule card_mono [OF finite_unseen unseen_mono [OF assms(1)]])
  moreover have "remaining v q (i + 1) (xs_r s') < remaining v q i (xs_r s)"
    using assms(2-4) by (simp add: remaining_static [OF st]) (simp add: remaining_def)
  ultimately show ?thesis by (auto simp: goes_down_def measures_of_def static_fields [OF st])
qed

lemma goes_down_enter:
  assumes s: "search_inv s" and w: "status (xs_r s) w = COMMITTED" "idx (xs_r s) w = 0" "w \<in> {0..<er_N (xs_r s)} \<times> {0..<MAX_INSTANCE}"
  shows "((w, 0, i', xs_r (enter w s)), (v, q, i, xs_r s)) \<in> goes_down"
proof -
  have "w \<in> unseen (xs_r s)" using w by (simp add: unseen_def)
  moreover have "w \<notin> unseen (xs_r (enter w s))"
    using s by (simp add: unseen_def enter_idx [OF w(1)] search_inv_def on_stack_def)
  moreover have "unseen (xs_r (enter w s)) \<subseteq> unseen (xs_r s)" by (rule unseen_mono [OF enter_keeps [OF s w(1,2)]])
  ultimately have "card (unseen (xs_r (enter w s))) < card (unseen (xs_r s))" by (metis finite_unseen psubset_card_mono psubsetI)
  then show ?thesis by (simp add: goes_down_def measures_of_def)
qed

lemma strongconnect_returns: "pre v l q i s \<Longrightarrow> \<exists>res. strongconnect T v l q i s = Some res"
proof (induction "(v, q, i, xs_r s)" arbitrary: v l q i s rule: wf_induct_rule [OF wf_goes_down])
  case (1 v q i s l)
  note IH = 1(1) and p = 1(2)
  let ?r = "xs_r s"
  obtain vi where vi: "the_inst ?r v = Some vi" using pre_inst [OF p] by blast
  note eq = strongconnect.simps [of T v l q i s, unfolded vi option.case]
  show ?case
  proof (rule ccontr)
    assume no: "\<nexists>res. strongconnect T v l q i s = Some res"
    then have q: "q < er_N ?r" using eq by (simp split: if_splits)
    then obtain d where d: "at (slice_of ?r (ei_Deps vi)) q = Some d" using no eq by (cases "at (slice_of ?r (ei_Deps vi)) q") auto
    have "i \<le> d"
    proof (rule ccontr)
      assume i: "\<not> i \<le> d"
      have "((v, q + 1, er_ExecedUpTo ?r ! nat (q + 1) + 1, ?r), (v, q, i, ?r)) \<in> goes_down"
        using q by (simp add: goes_down_def measures_of_def)
      then have "\<exists>res. strongconnect T v l (q + 1) (er_ExecedUpTo ?r ! nat (q + 1) + 1) s = Some res"
        using IH pre_next_row [OF p vi q d] i by simp
      then show False using no eq q d i by simp
    qed
    have q0: "0 \<le> q" and i0: "0 \<le> i"
      using p q exec_inv_bound [of ?r q i] pre_search [OF p] unfolding pre_def Let_def by auto
    have D: "dep ?r v (q, i)" using dep_at [OF vi q0 q d, of i] \<open>i \<le> d\<close> i0 by simp
    obtain wi where g: "get_inst ?r q i = Some (Some wi)" and c: "ei_Cmds wi \<noteq> None" "ei_Status wi = EXECUTED \<or> ei_Status wi = COMMITTED"
      using no eq q d \<open>i \<le> d\<close> by (simp split: option.splits if_splits)
    have w: "the_inst ?r (q, i) = Some wi" and rng: "(q, i) \<in> {0..<er_N ?r} \<times> {0..<MAX_INSTANCE}"
      using g by (auto simp: get_inst_def the_inst_def split: if_splits)
    note eq = eq [unfolded d option.case] and kr = keeps_refl [of l s]
    have ll: "l \<le> length (xs_stack s)" using p unfolding pre_def Let_def by simp
    show False
    proof (cases "ei_Status wi = EXECUTED")
      case True
      then have "settled s (lowlink ?r v) (q, i)" using w by (simp add: settled_def executed_def views)
      then have "\<exists>res. strongconnect T v l q (i + 1) s = Some res"
        using IH goes_down_next [OF kr [OF ll] vi d \<open>i \<le> d\<close>] pre_next [OF p] by blast
      then show False using no eq q \<open>i \<le> d\<close> g c True by auto
    next
      case False
      then have com: "ei_Status wi = COMMITTED" "status ?r (q, i) = COMMITTED" using c w by (simp_all add: views)
      show False
      proof (cases "ei_Index wi = 0")
        case True
        then have w0: "idx ?r (q, i) = 0" using w by (simp add: views)
        have si: "search_inv s" using pre_search [OF p] by blast
        note pc = pre_child [OF p D com(2) w0]
        obtain cr where cr: "strongconnect T (q, i) (length (xs_stack s)) 0 (er_ExecedUpTo ?r ! 0 + 1) (enter (q, i) s) = Some cr"
          using IH [OF goes_down_enter [OF si com(2) w0 rng] pc] by blast
        note post = strongconnect_post [OF cr pc]
        have "\<exists>s' wj. cr = Done True s' \<and> the_inst (xs_r s') (q, i) = Some wj \<and>
            strongconnect T v l q (i + 1) (low (ei_Lowlink wj) v s') = None"
          using no eq q \<open>i \<le> d\<close> g c com True cr
          by (cases cr) (auto split: if_splits option.splits)
        then obtain s' wj where s': "cr = Done True s'" "the_inst (xs_r s') (q, i) = Some wj"
          "strongconnect T v l q (i + 1) (low (ei_Lowlink wj) v s') = None" by blast
        have lw: "ei_Lowlink wj = lowlink (xs_r s') (q, i)" using s'(2) by (simp add: views)
        have "pre v l q (i + 1) (low (ei_Lowlink wj) v s') \<and> keeps l s (low (ei_Lowlink wj) v s')"
          using pre_return [OF p refl D com(2) w0 _ refl, of s'] post s'(1) by (simp add: lw)
        then show False using IH [OF goes_down_next [OF _ vi d \<open>i \<le> d\<close>]] s'(3) by fastforce
      next
        case old: False
        then have st: "(q, i) \<in> set (xs_stack s)"
          using pre_search [OF p] w com unfolding on_stack_def by (auto simp: views executed_def)
        let ?s = "low (idx ?r (q, i)) v s"
        have "pre v l q i ?s" using pre_low [OF p st refl] D by blast
        moreover have "settled ?s (lowlink (xs_r ?s) v) (q, i)" using st vi by (simp add: settled_def low_lowlink)
        ultimately have "\<exists>res. strongconnect T v l q (i + 1) ?s = Some res"
          using IH goes_down_next [OF pre_keeps_low [OF p] vi d \<open>i \<le> d\<close>] pre_next by blast
        then show False using no eq q \<open>i \<le> d\<close> g c com old st w by (auto simp: views)
      qed
    qed
  qed
qed

end
