(* ===== verification/EPaxosOrder.thy ===== *)
theory EPaxosOrder
  imports EPaxosSearch
begin

text \<open>
  The order in which the EPaxos executor executes the committed instances: a pass over all rows keeps the invariant,
  returns, executes what is not blocked, and two replicas that agree on the attributes execute an instance and one it
  depends on in the same order.
\<close>

section \<open>A pass of the executor\<close>

definition idle :: "'st EReplica \<Rightarrow> bool" where
  "idle r \<longleftrightarrow> exec_inv r \<and> (\<forall>v. executed r v \<or> idx r v = 0)"

lemma reset_index_simps:
  "static r (reset_index vs r) \<and> status (reset_index vs r) = status r \<and> er_executed (reset_index vs r) = er_executed r \<and>
   (\<forall>w. idx (reset_index vs r) w = (if w \<in> set vs then 0 else idx r w))"
proof (induction vs arbitrary: r)
  case (Cons v vs)
  let ?r = "upd_inst v (\<lambda>inst. inst\<lparr>ei_Index := 0\<rparr>) r"
  have "static r ?r" by (rule static_upd) (simp add: essence_def)
  moreover have "reset_index (v # vs) r = reset_index vs ?r" by (simp add: reset_index_def)
  moreover have "idx ?r w = (if w = v then 0 else idx r w)" for w by (simp add: upd_idx split: option.split)
  ultimately show ?case using Cons [of ?r] static_trans by auto
qed (simp add: reset_index_def)

lemma search_end:
  assumes "search_inv s"
  shows "idle (reset_index (xs_stack s) (xs_r s))" "grows (xs_r s) (reset_index (xs_stack s) (xs_r s))"
    "executed (reset_index (xs_stack s) (xs_r s)) = executed (xs_r s)"
proof -
  let ?r = "reset_index (xs_stack s) (xs_r s)"
  have r: "static (xs_r s) ?r" "status ?r = status (xs_r s)" "er_executed ?r = er_executed (xs_r s)"
    "\<And>w. idx ?r w = (if w \<in> set (xs_stack s) then 0 else idx (xs_r s) w)"
    using reset_index_simps by blast+
  show ex: "executed ?r = executed (xs_r s)" by (simp add: executed_def fun_eq_iff r(2))
  show "grows (xs_r s) ?r" using r(1) ready_static [OF r(1)] by (simp add: grows_def ex r(2))
  have "exec_inv ?r" using exec_inv_static [OF r(1-3)] assms by (simp add: search_inv_def)
  then show "idle ?r" using assms unfolding idle_def ex r(4) search_inv_def on_stack_def by auto
qed

lemma search_begin: "idle r \<Longrightarrow> search_inv \<lparr>xs_r = r, xs_stack = [], xs_index = 1\<rparr>"
  by (auto simp: search_inv_def on_stack_def idle_def)

lemma findSCC_outcome:
  assumes id: "idle r" and v: "status r v = COMMITTED"
  shows "\<exists>res. findSCC T v r = Some res"
    "findSCC T v r = Some (Some (ok, r')) \<Longrightarrow>
       idle r' \<and> grows r r' \<and> (if ok then executed r' v else \<exists>w. (dep r)\<^sup>*\<^sup>* v w \<and> \<not> ready r w)"
proof -
  define s where "s = \<lparr>xs_r = r, xs_stack = [], xs_index = 1\<rparr>"
  have s: "search_inv s" "xs_r s = r" "xs_stack s = []" using search_begin [OF id] by (simp_all add: s_def)
  have v0: "idx r v = 0" using id v unfolding idle_def executed_def by (metis status_distinct(1))
  have p: "pre v 0 0 (er_ExecedUpTo r ! 0 + 1) (enter v s)" using enter_pre [OF s(1), of v] v v0 s by simp
  have si: "search_inv (enter v s)" using pre_search [OF p] by blast
  obtain vi where vi: "the_inst r v = Some vi" using v status_some [of r v] by (auto simp: COMMITTED_def)
  have g: "grows r (xs_r (enter v s))" using enter_grows [of s v] s(2) by simp
  note e = findSCC_def [of T v r, folded s_def, unfolded Let_def vi option.case]
  obtain res where res: "strongconnect T v 0 0 (er_ExecedUpTo r ! 0 + 1) (enter v s) = Some res"
    using strongconnect_returns [OF p] by blast
  note post = strongconnect_post [OF res p]
  show "\<exists>res. findSCC T v r = Some res" using e res by (cases res) auto
  assume f: "findSCC T v r = Some (Some (ok, r'))"
  show "idle r' \<and> grows r r' \<and> (if ok then executed r' v else \<exists>w. (dep r)\<^sup>*\<^sup>* v w \<and> \<not> ready r w)"
  proof (cases "ei_Cmds vi = None")
    case True
    then have "ok = False" "r' = reset_index (xs_stack (enter v s)) (xs_r (enter v s))" using e f by auto
    moreover have "\<not> ready r v" using True vi by (simp add: ready_def)
    ultimately show ?thesis using search_end [OF si] grows_trans [OF g] by auto
  next
    case False
    then obtain s' where s': "res = Done ok s'" "r' = reset_index (xs_stack s') (xs_r s')"
      using e f res by (cases res) auto
    then have q: "search_inv s'" "grows r (xs_r s')" using post grows_trans [OF g] by (auto simp: post_def)
    have "executed (xs_r s') v" if ok using post s'(1) that by (auto simp: post_def popped_def kept_def Let_def)
    moreover have "\<exists>w. (dep r)\<^sup>*\<^sup>* v w \<and> \<not> ready r w" if "\<not> ok"
      using post s'(1) that ready_enter [of s _ v] s(2) by (auto simp: post_def)
    ultimately show ?thesis using search_end [OF q(1)] grows_trans [OF q(2)] s'(2) by auto
  qed
qed

lemma executeCommand_outcome:
  assumes id: "idle r"
  shows "\<exists>res. executeCommand T q i r = Some res"
    "executeCommand T q i r = Some (Some (ok, r')) \<Longrightarrow>
       idle r' \<and> grows r r' \<and> (if ok then executed r' (q, i) else \<exists>w. (dep r)\<^sup>*\<^sup>* (q, i) w \<and> \<not> ready r w)"
proof -
  have g: "the_inst r (q, i) = x" if "get_inst r q i = Some x" for x
    using that by (auto simp: get_inst_def the_inst_def split: if_splits)
  show "\<exists>res. executeCommand T q i r = Some res"
    using findSCC_outcome(1) [OF id, of "(q, i)"]
    by (auto simp: executeCommand_def views dest!: g split: option.splits)
  assume e: "executeCommand T q i r = Some (Some (ok, r'))"
  then obtain x where x: "get_inst r q i = Some x" by (auto simp: executeCommand_def split: option.splits)
  show "idle r' \<and> grows r r' \<and> (if ok then executed r' (q, i) else \<exists>w. (dep r)\<^sup>*\<^sup>* (q, i) w \<and> \<not> ready r w)"
  proof (cases "status r (q, i) = COMMITTED")
    case True
    then have "findSCC T (q, i) r = Some (Some (ok, r'))"
      using e x g [OF x] by (auto simp: executeCommand_def views split: option.splits if_splits)
    then show ?thesis using findSCC_outcome(2) [OF id True] by blast
  next
    case False
    then have "r' = r" "if ok then executed r (q, i) else \<not> ready r (q, i)"
      using e x g [OF x]
      by (auto simp: executeCommand_def views executed_def ready_def split: option.splits if_splits)
    then show ?thesis using id by (auto split: if_splits)
  qed
qed

section \<open>The whole pass\<close>

definition moves :: "'st EReplica \<Rightarrow> 'st EReplica \<Rightarrow> bool" where
  "moves r r' \<longleftrightarrow> idle r' \<and> er_N r' = er_N r \<and> er_crtInstance r' = er_crtInstance r \<and> dep r' = dep r \<and>
     node_key r' = node_key r \<and> (\<forall>v. executed r v \<longrightarrow> executed r' v) \<and> (\<forall>v. ready r v \<longrightarrow> ready r' v)"

lemma moves_refl: "idle r \<Longrightarrow> moves r r"
  by (simp add: moves_def)

lemma moves_trans: "moves r r' \<Longrightarrow> moves r' r'' \<Longrightarrow> moves r r''"
  unfolding moves_def by simp

lemma grows_moves: "idle r' \<Longrightarrow> grows r r' \<Longrightarrow> moves r r'"
  by (simp add: moves_def grows_def static_fields dep_static node_key_static)

lemma views_cong:
  assumes "er_InstanceSpace r' = er_InstanceSpace r" "er_N r' = er_N r" "er_slices r' = er_slices r"
  shows "the_inst r' = the_inst r" "status r' = status r" "idx r' = idx r" "executed r' = executed r" "ready r' = ready r"
    "dep r' = dep r" "node_key r' = node_key r"
proof -
  show i: "the_inst r' = the_inst r" using assms by (simp add: the_inst_def fun_eq_iff)
  have s: "slice_of r' = slice_of r" using assms by (simp add: slice_of_def fun_eq_iff split: option.split)
  show "status r' = status r" "idx r' = idx r" "executed r' = executed r" "ready r' = ready r"
    "dep r' = dep r" "node_key r' = node_key r"
    using assms by (simp_all add: views executed_def ready_def dep_def node_key_def fun_eq_iff i s)
qed

lemma nth_update: "xs[k := x] ! j = (if j = k \<and> k < length xs then x else xs ! j)"
  by (cases "k < length xs") (auto simp: list_update_beyond)

lemma advance_moves:
  assumes id: "idle r" and q: "0 \<le> q" "q < er_N r" and e: "executed r (q, i)"
  shows "moves r (advance q i r)"
proof -
  let ?r = "advance q i r" and ?E = "er_ExecedUpTo r"
  have f: "er_InstanceSpace ?r = er_InstanceSpace r" "er_N ?r = er_N r" "er_slices ?r = er_slices r" "er_executed ?r = er_executed r"
    "er_crtInstance ?r = er_crtInstance r" by (simp_all add: advance_def)
  have below: "executed r (q', j)" if "0 \<le> q'" "q' < er_N r" "0 \<le> j" "j \<le> er_ExecedUpTo ?r ! nat q'" for q' j
  proof (cases "j \<le> ?E ! nat q'")
    case True
    then show ?thesis using that exec_inv_below id unfolding idle_def by blast
  next
    case False
    then have "q' = q \<and> j = i" using that q by (auto simp: advance_def nth_update split: if_splits)
    then show ?thesis using e by simp
  qed
  have "-1 \<le> er_ExecedUpTo ?r ! nat q'" if "0 \<le> q'" "q' < er_N r" for q'
  proof -
    have "-1 \<le> ?E ! nat q'" using that id unfolding idle_def exec_inv_def by blast
    then show ?thesis using that q by (auto simp: advance_def nth_update)
  qed
  then have "exec_inv ?r"
    using id below unfolding idle_def exec_inv_def by (simp add: views_cong [OF f(1-3)] f)
  then show ?thesis using id by (simp add: moves_def idle_def views_cong [OF f(1-3)] f)
qed

lemma problem_moves: "idle r \<Longrightarrow> moves r (problem q i r)"
proof -
  assume id: "idle r"
  let ?r = "problem q i r"
  have f: "er_InstanceSpace ?r = er_InstanceSpace r" "er_N ?r = er_N r" "er_slices ?r = er_slices r" "er_executed ?r = er_executed r"
    "er_ExecedUpTo ?r = er_ExecedUpTo r" "er_crtInstance ?r = er_crtInstance r" by (simp_all add: problem_def Let_def)
  have "exec_inv ?r = exec_inv r" by (simp only: exec_inv_def views_cong [OF f(1-3)] f)
  then show ?thesis using id by (simp add: moves_def idle_def views_cong [OF f(1-3)] f)
qed

lemma exec_row_returns:
  assumes "idle r" "0 \<le> q" "q < er_N r"
  shows "\<exists>res. exec_row T q is r = Some res" and "exec_row T q is r = Some (Some r') \<Longrightarrow> moves r r'"
proof -
  have "(\<exists>res. exec_row T q is r = Some res) \<and> (\<forall>r'. exec_row T q is r = Some (Some r') \<longrightarrow> moves r r')"
    using assms
  proof (induction T q "is" r rule: exec_row.induct)
    case (2 T q i "is" r)
    note id = 2(3) and q = 2(4,5)
    show ?case
    proof (cases "get_inst r q i")
      case (Some x)
      have x: "the_inst r (q, i) = x" using Some by (auto simp: get_inst_def the_inst_def split: if_splits)
      have step: "(\<exists>res. exec_row T q is r1 = Some res) \<and> (\<forall>r'. exec_row T q is r1 = Some (Some r') \<longrightarrow> moves r r')"
        if IH: "idle r1 \<Longrightarrow> 0 \<le> q \<Longrightarrow> q < er_N r1 \<Longrightarrow>
           (\<exists>res. exec_row T q is r1 = Some res) \<and> (\<forall>r'. exec_row T q is r1 = Some (Some r') \<longrightarrow> moves r1 r')"
          and m: "moves r r1" for r1
        using IH m q moves_trans [OF m] unfolding moves_def [of r r1] by auto
      show ?thesis
      proof (cases "case x of Some inst \<Rightarrow> ei_Status inst = EXECUTED | None \<Rightarrow> False")
        case True
        then have "executed r (q, i)" using x by (auto simp: executed_def views split: option.splits)
        then show ?thesis using step [OF 2(1) [OF Some True]] advance_moves [OF id q] Some True by simp
      next
        case ne: False
        show ?thesis
        proof (cases "not_ready x")
          case True
          then show ?thesis using problem_moves [OF id] Some ne by simp
        next
          case rd: False
          obtain res where res: "executeCommand T q i r = Some res" using executeCommand_outcome(1) [OF id] by blast
          show ?thesis
          proof (cases res)
            case None
            then show ?thesis using Some ne rd res by simp
          next
            case y: (Some okr)
            obtain ok r1 where okr: "okr = (ok, r1)" by (cases okr)
            note c = executeCommand_outcome(2) [OF id res [unfolded y okr]]
            let ?r = "if ok then advance q i r1 else r1"
            have m: "moves r r1" using c grows_moves by blast
            then have "0 \<le> q" "q < er_N r1" "idle r1" using q by (simp_all add: moves_def)
            then have "moves r1 ?r" using advance_moves c moves_refl by (auto split: if_splits)
            then have "moves r ?r" by (rule moves_trans [OF m])
            then show ?thesis using step [OF 2(2) [OF Some ne rd res y okr [symmetric]]] Some ne rd res y okr by simp
          qed
        qed
      qed
    qed simp
  qed (simp add: moves_refl)
  then show "\<exists>res. exec_row T q is r = Some res" and "exec_row T q is r = Some (Some r') \<Longrightarrow> moves r r'" by blast+
qed

lemma exec_rows_returns:
  assumes "idle r" "set qs \<subseteq> {0..<er_N r}"
  shows "\<exists>res. exec_rows T qs r = Some res" and "exec_rows T qs r = Some (Some r') \<Longrightarrow> moves r r'"
proof -
  have "(\<exists>res. exec_rows T qs r = Some res) \<and> (\<forall>r'. exec_rows T qs r = Some (Some r') \<longrightarrow> moves r r')"
    using assms
  proof (induction T qs r rule: exec_rows.induct)
    case (2 T q qs r)
    note id = 2(2)
    have q: "0 \<le> q" "q < er_N r" using 2(3) by auto
    let ?is = "[er_ExecedUpTo r ! nat q + 1..er_crtInstance r ! nat q]"
    obtain res where res: "exec_row T q ?is r = Some res" using exec_row_returns(1) [OF id q] by blast
    show ?case
    proof (cases res)
      case (Some r1)
      have m: "moves r r1" using exec_row_returns(2) [OF id q] res Some by blast
      then show ?thesis
        using 2(1) [OF res Some] 2(3) moves_trans [OF m] res Some unfolding moves_def [of r r1] by auto
    qed (use res in simp)
  qed (simp add: moves_refl)
  then show "\<exists>res. exec_rows T qs r = Some res" and "exec_rows T qs r = Some (Some r') \<Longrightarrow> moves r r'" by blast+
qed

lemma rows_range: "set [0..n - 1] \<subseteq> {0..<n}"
  by auto

lemma executeCommands_moves: "idle r \<Longrightarrow> executeCommands T r = Some (Some r') \<Longrightarrow> moves r r'"
  unfolding executeCommands_def by (rule exec_rows_returns(2) [OF _ rows_range])

text \<open>An instance that depends on no instance to be waited for is executed when the executor comes to it.\<close>

definition unblocked :: "'st EReplica \<Rightarrow> iid \<Rightarrow> bool" where
  "unblocked r v \<longleftrightarrow> (\<forall>w. (dep r)\<^sup>*\<^sup>* v w \<longrightarrow> ready r w)"

lemma unblocked_moves: "moves r r' \<Longrightarrow> unblocked r v \<Longrightarrow> unblocked r' v"
  by (simp add: unblocked_def moves_def)

lemma exec_row_executes:
  assumes "idle r" "0 \<le> q" "q < er_N r" "exec_row T q (js @ ks) r = Some (Some r')"
    "\<forall>j \<in> set js. unblocked r (q, j)" "j \<in> set js"
  shows "executed r' (q, j)"
  using assms
proof (induction js arbitrary: r)
  case (Cons i js)
  note id = Cons(2) and q = Cons(3,4)
  have ub: "unblocked r (q, i)" using Cons by simp
  then have rd: "ready r (q, i)" by (simp add: unblocked_def)
  obtain x where x: "get_inst r q i = Some x" using Cons(5) by (auto split: option.splits)
  have xi: "the_inst r (q, i) = x" using x by (auto simp: get_inst_def the_inst_def split: if_splits)
  have "\<exists>r1. moves r r1 \<and> executed r1 (q, i) \<and> exec_row T q (js @ ks) r1 = Some (Some r')"
  proof (cases "case x of Some inst \<Rightarrow> ei_Status inst = EXECUTED | None \<Rightarrow> False")
    case True
    then have e: "executed r (q, i)" using xi by (auto simp: executed_def views split: option.splits)
    then show ?thesis
      using advance_moves [OF id q e] Cons(5) x True unfolding moves_def by auto
  next
    case ne: False
    have nr: "\<not> not_ready x" using rd xi by (auto simp: ready_def not_ready_def status_defs)
    obtain ok r1 where c: "executeCommand T q i r = Some (Some (ok, r1))"
      using Cons(5) x ne nr by (auto split: option.splits)
    have o: "idle r1" "grows r r1" "executed r1 (q, i)" "ok"
      using executeCommand_outcome(2) [OF id c] ub unfolding unblocked_def by (auto split: if_splits)
    have m: "moves r r1" using o grows_moves by blast
    have "moves r1 (advance q i r1)" using advance_moves [OF o(1) q(1) _ o(3)] q(2) m by (simp add: moves_def)
    moreover have "exec_row T q (js @ ks) (advance q i r1) = Some (Some r')" using Cons(5) x ne nr c o(4) by simp
    ultimately show ?thesis using moves_trans [OF m] o(3) unfolding moves_def by blast
  qed
  then obtain r1 where r1: "moves r r1" "executed r1 (q, i)" "exec_row T q (js @ ks) r1 = Some (Some r')" by blast
  have h: "idle r1" "q < er_N r1" using r1(1) q by (simp_all add: moves_def)
  show ?case
  proof (cases "j = i")
    case True
    then show ?thesis using exec_row_returns(2) [OF h(1) q(1) h(2) r1(3)] r1(2) by (simp add: moves_def)
  next
    case False
    then show ?thesis using Cons(1) [OF h(1) q(1) h(2) r1(3)] Cons(6,7) unblocked_moves [OF r1(1)] by simp
  qed
qed simp

lemma exec_rows_executes:
  assumes "idle r" "set qs \<subseteq> {0..<er_N r}" "exec_rows T qs r = Some (Some r')" "q \<in> set qs"
    "0 \<le> i" "i \<le> er_crtInstance r ! nat q" "\<forall>j \<in> {0..i}. unblocked r (q, j)"
  shows "executed r' (q, i)"
  using assms
proof (induction qs arbitrary: r)
  case (Cons p qs)
  note id = Cons(2)
  have p: "0 \<le> p" "p < er_N r" using Cons(3) by auto
  let ?E = "er_ExecedUpTo r ! nat p" and ?C = "er_crtInstance r ! nat p"
  obtain r1 where r1: "exec_row T p [?E + 1..?C] r = Some (Some r1)" "exec_rows T qs r1 = Some (Some r')"
    using Cons(4) by (auto split: option.splits)
  have m: "moves r r1" by (rule exec_row_returns(2) [OF id p r1(1)])
  have h: "idle r1" "set qs \<subseteq> {0..<er_N r1}" using m Cons(3) by (auto simp: moves_def)
  show ?case
  proof (cases "q = p")
    case True
    have "executed r1 (q, i)"
    proof (cases "i \<le> ?E")
      case True
      then show ?thesis using exec_inv_below [of r p i] id m p Cons(6) \<open>q = p\<close> unfolding moves_def idle_def by blast
    next
      case False
      have "-1 \<le> ?E" using id p unfolding idle_def exec_inv_def by blast
      moreover have "[?E + 1..?C] = [?E + 1..i] @ [i + 1..?C]" using False Cons(7) True upto_split2 [of "?E + 1" i ?C] by simp
      ultimately show ?thesis
        using exec_row_executes [OF id p, of T "[?E + 1..i]" "[i + 1..?C]" r1 i] r1(1) Cons(8) True False by auto
    qed
    then show ?thesis using exec_rows_returns(2) [OF h r1(2)] by (simp add: moves_def)
  next
    case False
    then show ?thesis
      using Cons(1) [OF h r1(2)] Cons(5-8) m unblocked_moves [OF m] by (auto simp: moves_def)
  qed
qed simp

section \<open>Two replicas\<close>

text \<open>\<open>before xs x y\<close>: \<open>x\<close> and \<open>y\<close> are in \<open>xs\<close>, \<open>x\<close> first.\<close>

fun before :: "iid list \<Rightarrow> iid \<Rightarrow> iid \<Rightarrow> bool" where
  "before [] x y = False"
| "before (z # zs) x y = (if z = x then y \<in> set zs else z \<noteq> y \<and> before zs x y)"

lemma before_in: "before xs x y \<Longrightarrow> x \<in> set xs \<and> y \<in> set xs"
  by (induction xs) (auto split: if_splits)

lemma before_append:
  assumes "set xs \<inter> set ys = {}"
  shows "before (xs @ ys) x y \<longleftrightarrow> before xs x y \<or> before ys x y \<or> x \<in> set xs \<and> y \<in> set ys"
  using assms by (induction xs) (auto dest: before_in)

text \<open>The order inside a component is that of the keys.\<close>

lemma before_sorted:
  assumes "distinct xs" "sorted (map f xs)" "x \<in> set xs" "y \<in> set xs" "f x \<noteq> f y"
  shows "before xs x y \<longleftrightarrow> f x < (f y :: 'a :: linorder)"
  using assms by (induction xs) (auto simp: order_less_le)

text \<open>An instance that \<open>x\<close> reaches is executed no later than the component of \<open>x\<close>.\<close>

lemma order_closed:
  assumes "order_ok D key E Cs" "D\<^sup>*\<^sup>* x y" "x \<in> E \<union> set (concat Cs)" "\<And>u w. u \<in> E \<Longrightarrow> D u w \<Longrightarrow> w \<in> E"
  shows "y \<in> E \<union> set (concat Cs)"
proof -
  have "w \<in> E \<union> set (concat Cs)" if "u \<in> E \<union> set (concat Cs)" "D u w" for u w
    using assms(1,4) that
  proof (induction Cs arbitrary: E)
    case (Cons C Cs)
    have "\<And>u w. u \<in> E \<union> set C \<Longrightarrow> D u w \<Longrightarrow> w \<in> E \<union> set C"
      using Cons(2,3) by (auto simp: component_ok_def)
    then show ?case using Cons(1) [of "E \<union> set C"] Cons(2,4,5) by auto
  qed auto
  with assms(2,3) show ?thesis by (induction rule: rtranclp_induct) auto
qed

text \<open>
  In a valid order, if \<open>x\<close> depends on \<open>y\<close>, then \<open>x\<close> goes first exactly if \<open>y\<close> reaches \<open>x\<close>, so that they are in one
  component, and its key is the lower one.
\<close>

lemma order_of_dependent:
  assumes "order_ok D key E Cs" "\<And>u w. u \<in> E \<Longrightarrow> D u w \<Longrightarrow> w \<in> E"
    and x: "x \<in> set (concat Cs)" and y: "y \<in> set (concat Cs)" and D: "D x y" and k: "key x \<noteq> key y"
  shows "before (concat Cs) x y \<longleftrightarrow> D\<^sup>*\<^sup>* y x \<and> key x < key y"
    and "before (concat Cs) y x \<longleftrightarrow> \<not> before (concat Cs) x y"
proof -
  have "(before (concat Cs) x y \<longleftrightarrow> D\<^sup>*\<^sup>* y x \<and> key x < key y) \<and> (before (concat Cs) y x \<longleftrightarrow> \<not> before (concat Cs) x y)"
    using assms(1,2) x y
  proof (induction Cs arbitrary: E)
    case (Cons C Cs)
    have ok: "component_ok D key E C" and rest: "order_ok D key (E \<union> set C) Cs" using Cons(2) by auto
    have cl: "\<And>u w. u \<in> E \<union> set C \<Longrightarrow> D u w \<Longrightarrow> w \<in> E \<union> set C" using ok Cons(3) by (auto simp: component_ok_def)
    have cl': "w \<in> E \<union> set C" if "D\<^sup>*\<^sup>* u w" "u \<in> E \<union> set C" for u w
      using that by (induction rule: rtranclp_induct) (use cl in auto)
    have dis: "(E \<union> set C) \<inter> set (concat Cs) = {}"
      using rest
    proof (induction Cs arbitrary: C)
      case (Cons B Cs)
      then have "(E \<union> set C) \<inter> set B = {}" "order_ok D key (E \<union> set (C @ B)) Cs" by (auto simp: component_ok_def Un_assoc)
      then show ?case using Cons(1) [of "C @ B"] by auto
    qed simp
    have disC: "set C \<inter> set (concat Cs) = {}" using dis by blast
    note app = before_append [OF disC]
    have in_C: "\<And>u w. before C u w \<Longrightarrow> u \<in> set C \<and> w \<in> set C" and in_Cs: "\<And>u w. before (concat Cs) u w \<Longrightarrow> u \<in> set (concat Cs) \<and> w \<in> set (concat Cs)"
      by (rule before_in, assumption)+
    have nE: "x \<notin> E \<and> y \<notin> E" using Cons(4,5) dis ok by (auto simp: component_ok_def)
    consider "x \<in> set C" "y \<in> set C" | "x \<in> set (concat Cs)" "y \<in> set C" "x \<notin> set C"
      | "x \<in> set (concat Cs)" "y \<in> set (concat Cs)" "x \<notin> set C" "y \<notin> set C"
      using Cons(4,5) cl [of x y] D nE disC by auto
    then show ?case
    proof cases
      case 1
      then have "D\<^sup>*\<^sup>* y x" "distinct C" "sorted (map key C)" using ok by (auto simp: component_ok_def)
      then have "before C x y \<longleftrightarrow> key x < key y" "before C y x \<longleftrightarrow> key y < key x" using before_sorted [of C key] 1 k by auto
      moreover have "x \<notin> set (concat Cs)" "y \<notin> set (concat Cs)" using 1 disC by blast+
      ultimately show ?thesis using app in_Cs k \<open>D\<^sup>*\<^sup>* y x\<close> by (simp only: concat.simps) (metis linorder_neq_iff order_less_asym)
    next
      case 2
      then have "\<not> D\<^sup>*\<^sup>* y x" using cl' [of y x] dis by auto
      moreover have "y \<notin> set (concat Cs)" using 2 disC by blast
      ultimately show ?thesis using 2 app in_C in_Cs by (simp only: concat.simps) blast
    next
      case 3
      then show ?thesis using Cons(1) [OF rest cl 3(1,2)] app in_C by (simp only: concat.simps) blast
    qed
  qed simp
  then show "before (concat Cs) x y \<longleftrightarrow> D\<^sup>*\<^sup>* y x \<and> key x < key y"
    and "before (concat Cs) y x \<longleftrightarrow> \<not> before (concat Cs) x y" by blast+
qed

text \<open>Sequence number and replica of an instance.\<close>

definition seq_key :: "'st EReplica \<Rightarrow> iid \<Rightarrow> int \<times> int" where
  "seq_key r v = (case the_inst r v of None \<Rightarrow> (0, 0) | Some inst \<Rightarrow> (ei_Seq inst, fst (ei_id inst)))"

lemma seq_key_node: "seq_key r v = (fst (node_key r v), fst (snd (node_key r v)))"
  by (simp add: seq_key_def node_key_def split: option.split)

text \<open>Two replicas agree on what they have both executed.\<close>

definition same_attributes :: "'st EReplica \<Rightarrow> 'st EReplica \<Rightarrow> bool" where
  "same_attributes a b \<longleftrightarrow>
     (\<forall>v. executed a v \<and> executed b v \<longrightarrow> dep a v = dep b v \<and> seq_key a v = seq_key b v)"

lemma idle_order: "idle r \<Longrightarrow> order_ok (dep r) (node_key r) {} (er_executed r)"
  by (simp add: idle_def exec_inv_def)

lemma idle_executed: "idle r \<Longrightarrow> executed r v \<longleftrightarrow> v \<in> set (concat (er_executed r))"
  unfolding idle_def exec_inv_def by blast

lemma executed_reaches:
  assumes "idle r" "(dep r)\<^sup>*\<^sup>* x y" "executed r x"
  shows "executed r y"
  using order_closed [OF idle_order [OF assms(1)] assms(2)] assms(3) by (simp add: idle_executed [OF assms(1)])

lemma same_reach:
  assumes id: "idle a" "idle b" and s: "same_attributes a b" and x: "executed a x" "executed b x" and r: "(dep a)\<^sup>*\<^sup>* x y"
  shows "(dep b)\<^sup>*\<^sup>* x y"
  using r
proof (induction rule: rtranclp_induct)
  case (step y z)
  then have "executed a y" "executed b y" using executed_reaches id x by blast+
  then have "dep b y z" using s step(2) by (simp add: same_attributes_def)
  then show ?case using step by auto
qed simp

lemma same_attributes_sym: "same_attributes a b \<Longrightarrow> same_attributes b a"
  by (simp add: same_attributes_def)

lemma seq_key_less: "seq_key r x \<noteq> seq_key r y \<Longrightarrow> node_key r x < node_key r y \<longleftrightarrow> seq_key r x < seq_key r y"
  by (cases "node_key r x"; cases "node_key r y") (auto simp: seq_key_node less_prod_def)

lemma order_agrees:
  assumes id: "idle a" "idle b" and s: "same_attributes a b"
    and e: "executed a x" "executed a y" "executed b x" "executed b y" and D: "dep a x y" and k: "seq_key a x \<noteq> seq_key a y"
  shows "before (concat (er_executed a)) x y \<longleftrightarrow> before (concat (er_executed b)) x y"
proof -
  have k': "seq_key b x \<noteq> seq_key b y" "seq_key b x < seq_key b y \<longleftrightarrow> seq_key a x < seq_key a y"
    using s e k by (simp_all add: same_attributes_def)
  have "node_key a x \<noteq> node_key a y" "node_key b x \<noteq> node_key b y" using k k' by (auto simp: seq_key_node)
  moreover have "dep b x y" using D s e by (simp add: same_attributes_def)
  moreover have "(dep a)\<^sup>*\<^sup>* y x \<longleftrightarrow> (dep b)\<^sup>*\<^sup>* y x"
    using same_reach [OF id s e(2,4)] same_reach [OF id(2,1) same_attributes_sym [OF s] e(4,2)] by blast
  moreover have "x \<in> set (concat (er_executed a))" "y \<in> set (concat (er_executed a))"
    "x \<in> set (concat (er_executed b))" "y \<in> set (concat (er_executed b))"
    using e idle_executed [OF id(1)] idle_executed [OF id(2)] by blast+
  ultimately show ?thesis
    using order_of_dependent(1) [OF idle_order [OF id(1)], of x y] order_of_dependent(1) [OF idle_order [OF id(2)], of x y]
      D k k' by (simp add: seq_key_less del: set_concat)
qed

lemma executeCommands_idle: "idle r \<Longrightarrow> executeCommands T r = Some (Some r') \<Longrightarrow> idle r'"
  by (drule (1) executeCommands_moves) (simp add: moves_def)

section \<open>Two instances that depend on each other\<close>

text \<open>The instances \<open>(0, 0)\<close> and \<open>(1, 0)\<close> have each other as a dependency; the second has the lower sequence number.\<close>

definition in_cycle :: "bool \<Rightarrow> 'st \<Rightarrow> 'st EReplica" where
  "in_cycle swapped st =
     (let r = NewEReplica 0 3 1 [True, True, True] [1, 2] False 0 False st;
          put = (\<lambda>v. Some [\<lparr>Op = PUT, K = 7, V = v\<rparr>]);
          a = newInstance r 0 0 (put [1]) 0 0 COMMITTED 2 (Some (if swapped then 1 else 0));
          b = newInstance r 1 0 (put [2]) 0 0 COMMITTED 1 (Some (if swapped then 0 else 1))
      in put_inst 1 0 b (put_inst 0 0 a
           (r\<lparr>er_slices := (if swapped then [[0, -1, -1], [-1, 0, -1]] else [[-1, 0, -1], [0, -1, -1]]),
              er_crtInstance := [0, 0, -1]\<rparr>)))"

lemma in_cycle_inst:
  "the_inst (in_cycle s st) v \<noteq> None \<longleftrightarrow> v = (0, 0) \<or> v = (1, 0)"
  "status (in_cycle s st) v = (if v = (0, 0) \<or> v = (1, 0) then COMMITTED else 0)"
  "idx (in_cycle s st) v = 0"
  by (cases v; auto simp: in_cycle_def Let_def the_inst_put views newInstance_def the_inst_def NewEReplica_def put_inst_def)+

lemma in_cycle_idle: "idle (in_cycle s st)"
proof -
  have "\<not> executed (in_cycle s st) v" for v by (simp add: executed_def in_cycle_inst)
  moreover have "er_executed (in_cycle s st) = []" "er_ExecedUpTo (in_cycle s st) = [-1, -1, -1]" "er_N (in_cycle s st) = 3"
    by (simp_all add: in_cycle_def Let_def put_inst_def NewEReplica_def numeral_3_eq_3)
  moreover have "[-1, -1, -1] ! nat q = (-1 :: int)" if "0 \<le> q" "q < 3" for q
    using that by (auto simp: nth_Cons' nat_less_iff)
  ultimately show ?thesis unfolding idle_def exec_inv_def by (simp add: in_cycle_inst)
qed

lemma in_cycle_dep: "dep (in_cycle s st) v w \<longleftrightarrow> (v, w) \<in> {((0, 0), (1, 0)), ((1, 0), (0, 0))}"
proof -
  have *: "0 \<le> q \<and> q < 3 \<longleftrightarrow> q = 0 \<or> q = 1 \<or> q = (2::int)" for q by auto
  show ?thesis
    unfolding dep_def
    by (cases v; cases w)
      (auto simp: in_cycle_def Let_def the_inst_put newInstance_def the_inst_def NewEReplica_def put_inst_def slice_of_def
          at_def * split: if_splits)
qed

section \<open>Properties\<close>

text \<open>
  C9: a pass of the executor keeps the invariant: exactly the instances that are executed are recorded, the components
  are closed under the dependencies that are not executed before them, their instances depend on each other and are
  sorted, and no index is left set.
\<close>

theorem epaxos_executor_order:
  assumes "idle r" "executeCommands T r = Some (Some r')"
  shows "idle r' \<and> order_ok (dep r) (node_key r) {} (er_executed r') \<and>
    (\<forall>v. executed r' v \<longleftrightarrow> v \<in> set (concat (er_executed r')))"
proof -
  have m: "moves r r'" by (rule executeCommands_moves [OF assms])
  then have "idle r'" by (simp add: moves_def)
  then show ?thesis using idle_order [of r'] idle_executed [of r'] m by (simp add: moves_def)
qed

text \<open>C13: a pass of the executor returns, or panics: the search for components ends on every graph of instances.\<close>

theorem epaxos_executor_returns:
  assumes "idle r"
  shows "\<exists>res. executeCommands T r = Some res"
  unfolding executeCommands_def by (rule exec_rows_returns(1) [OF assms rows_range])


text \<open>
  C16: a pass of the executor that does not panic executes every known instance whose predecessors in its row, and
  all that they depend on, are committed.
\<close>

theorem epaxos_unblocked_executed:
  assumes "idle r" "executeCommands T r = Some (Some r')" "0 \<le> q" "q < er_N r" "0 \<le> i" "i \<le> er_crtInstance r ! nat q"
    and "\<forall>j \<in> {0..i}. unblocked r (q, j)"
  shows "executed r' (q, i)"
proof (rule exec_rows_executes [OF assms(1) rows_range])
  show "exec_rows T [0..er_N r - 1] r = Some (Some r')" using assms(2) by (simp add: executeCommands_def)
qed (use assms in auto)

declare strongconnect.simps [code]

abbreviation cycle :: "bool \<Rightarrow> (key, value) RBT.rbt EReplica" where
  "cycle s \<equiv> in_cycle s RBT.empty"

lemma in_cycle_runs:
  "map_option (map_option er_executed) (executeCommands rbt_treemap (cycle False)) = Some (Some [[(1, 0), (0, 0)]])"
  "map_option (map_option er_executed) (executeCommands rbt_treemap (cycle True)) = Some (Some [[(1, 0), (0, 0)]])"
  by code_simp+

lemma in_cycle_end:
  obtains r where "executeCommands rbt_treemap (cycle s) = Some (Some r)"
    "er_executed r = [[(1, 0), (0, 0)]]" "moves (cycle s) r"
proof -
  obtain r where "executeCommands rbt_treemap (cycle s) = Some (Some r)" "er_executed r = [[(1, 0), (0, 0)]]"
    using in_cycle_runs by (cases s) auto
  then show ?thesis using executeCommands_moves [OF in_cycle_idle] by (intro that) auto
qed

lemma in_cycle_unblocked: "unblocked (in_cycle s st) (0, 0)"
proof -
  have "ready (in_cycle s st) w" if "w = (0, 0) \<or> w = (1, 0)" for w
    using that by (auto simp: ready_def in_cycle_def Let_def the_inst_put newInstance_def)
  moreover have "w = (0, 0) \<or> w = (1, 0)" if "(dep (in_cycle s st))\<^sup>*\<^sup>* (0, 0) w" for w
    using that by (induction rule: rtranclp_induct) (auto simp: in_cycle_dep)
  ultimately show ?thesis by (simp add: unblocked_def)
qed

lemma epaxos_executor_order_witness:
  "\<exists>r. executeCommands rbt_treemap (cycle False) = Some (Some r) \<and> idle r \<and>
     order_ok (dep (cycle False)) (node_key (cycle False)) {} (er_executed r) \<and>
     er_executed r = [[(1, 0), (0, 0)]]"
proof -
  obtain r where r: "executeCommands rbt_treemap (cycle False) = Some (Some r)"
    "er_executed r = [[(1, 0), (0, 0)]]" by (rule in_cycle_end [of False])
  then show ?thesis using epaxos_executor_order [OF in_cycle_idle r(1)] by auto
qed

lemma epaxos_executor_returns_witness: "\<exists>res. executeCommands rbt_treemap (cycle True) = Some res"
  by (rule epaxos_executor_returns [OF in_cycle_idle])


lemma epaxos_unblocked_executed_witness:
  "\<exists>r. executeCommands rbt_treemap (cycle True) = Some (Some r) \<and> executed r (0, 0)"
proof -
  obtain r where r: "executeCommands rbt_treemap (cycle True) = Some (Some r)" by (rule in_cycle_end [of True])
  have "er_N (cycle True) = 3" "er_crtInstance (cycle True) = [0, 0, -1]"
    by (simp_all add: in_cycle_def Let_def put_inst_def NewEReplica_def)
  then have "executed r (0, 0)"
    using epaxos_unblocked_executed [OF in_cycle_idle r, of 0 0] by (simp add: in_cycle_unblocked)
  then show ?thesis using r by blast
qed

end
