(* ===== verification/EPaxosRuns.thy ===== *)
theory EPaxosRuns
  imports EPaxosOrder
begin

text \<open>
  The EPaxos replicas together: the actions of the main loop and of the executor, and a run in which a recovery
  replaces a committed command.
\<close>

section \<open>Actions\<close>

text \<open>
  A message travels through \<open>Marshal\<close> and \<open>Unmarshal\<close>, which leave \<open>VBallot\<close> out of a \<open>PrepareReply\<close>.
\<close>

fun transmit :: "epaxos_msg \<Rightarrow> epaxos_msg" where
  "transmit (EPrepareReplyMsg m) = EPrepareReplyMsg (m\<lparr>EPrepareReply_VBallot := 0\<rparr>)"
| "transmit m = m"

lemma transmit_as_marshalled:
  "EPrepareReply_ok m \<Longrightarrow>
   \<exists>m'. Unmarshal_EPrepareReply zero_EPrepareReply (Marshal_EPrepareReply m) = Some (True, m', []) \<and>
     transmit (EPrepareReplyMsg m) = EPrepareReplyMsg m'"
  using Unmarshal_EPrepareReply_keeps_VBallot [of m zero_EPrepareReply "[]"] by (simp add: zero_EPrepareReply_def)

text \<open>
  The cases of the loop of \<open>run\<close>: a proposal, the end of a batch, a message, an instance to recover; \<open>BeTheLeader\<close> and
  the executor come from other goroutines, a client's proposal and the time from outside.  The messages a replica has
  sent stay in \<open>er_sent\<close>: each kind has a channel of its own and the loop takes from any of them, so messages of
  different kinds overtake each other.  A case that cannot occur, or panics, is \<open>None\<close>.
\<close>

type_synonym 'st e_system = "int \<Rightarrow> 'st EReplica"

datatype e_action = EClient int GPropose | EPropose int | EFastClock int | EDeliver int nat | ERecover int
  | ELead int | EExecute int | EClock int int

definition take_proposal :: "'st EReplica \<Rightarrow> 'st EReplica option" where
  "take_proposal r =
     (case er_ProposeChan r of
        [] \<Rightarrow> None
      | p # ps \<Rightarrow>
          if er_proposeOn r then do {
            r \<leftarrow> handlePropose p (r\<lparr>er_ProposeChan := ps\<rparr>);
            Some (if er_batchWait r > 0 then r\<lparr>er_proposeOn := False\<rparr> else r) }
          else None)"

definition take_recovery :: "'st EReplica \<Rightarrow> 'st EReplica option" where
  "take_recovery r =
     (case er_instancesToRecover r of
        [] \<Rightarrow> None
      | (q, i) # is \<Rightarrow> startRecoveryForInstance q i (r\<lparr>er_instancesToRecover := is\<rparr>))"

definition at_replica :: "int \<Rightarrow> ('st EReplica \<Rightarrow> 'st EReplica option) \<Rightarrow> 'st e_system \<Rightarrow> 'st e_system option" where
  "at_replica p f S = do { r \<leftarrow> f (S p); Some (S(p := r)) }"

fun e_act :: "'st treemap \<Rightarrow> e_action \<Rightarrow> 'st e_system \<Rightarrow> 'st e_system option" where
  "e_act T (EClient p g) S = at_replica p (\<lambda>r. Some (r\<lparr>er_ProposeChan := er_ProposeChan r @ [g]\<rparr>)) S"
| "e_act T (EPropose p) S = at_replica p take_proposal S"
| "e_act T (EFastClock p) S = at_replica p (\<lambda>r. Some (r\<lparr>er_proposeOn := True\<rparr>)) S"
| "e_act T (EDeliver q k) S =
     (if k < length (er_sent (S q)) then
        (case er_sent (S q) ! k of (p, m) \<Rightarrow> at_replica p (handle_msg (transmit m)) S)
      else None)"
| "e_act T (ERecover p) S = at_replica p take_recovery S"
| "e_act T (ELead p) S = at_replica p (\<lambda>r. Some (BeTheLeader r)) S"
| "e_act T (EExecute p) S = at_replica p (\<lambda>r. Option.bind (executeCommands T r) id) S"
| "e_act T (EClock p t) S = at_replica p (\<lambda>r. Some (r\<lparr>er_now := t\<rparr>)) S"

fun e_acts :: "'st treemap \<Rightarrow> e_action list \<Rightarrow> 'st e_system \<Rightarrow> 'st e_system option" where
  "e_acts T [] S = Some S"
| "e_acts T (a # as) S = do { S \<leftarrow> e_act T a S; e_acts T as S }"

lemma e_acts_append: "e_acts T (as @ bs) S = do { S \<leftarrow> e_acts T as S; e_acts T bs S }"
  by (induction as arbitrary: S) (auto split: Option.bind_split)

text \<open>\<open>n\<close> replicas that wait for \<open>f\<close> failures, all connected; each prefers the peers that follow it.\<close>

definition NewESystem :: "int \<Rightarrow> int \<Rightarrow> int \<Rightarrow> 'st \<Rightarrow> 'st e_system" where
  "NewESystem n f batchWait st =
     (\<lambda>p. NewEReplica p n f (replicate (nat n) True) (map (\<lambda>i. (p + 1 + i) mod n) [0..n - 1]) False batchWait False st)"

declare eballot_loop.simps [code]

section \<open>A stuck executor\<close>

text \<open>
  A replica that waits for the instance \<open>(0, 0)\<close> and knows no other: a pass of its executor does nothing but count.
\<close>

definition waits :: "'st EReplica \<Rightarrow> bool" where
  "waits r \<longleftrightarrow> er_N r = 3 \<and> er_ExecedUpTo r = [-1, -1, -1] \<and> er_crtInstance r = [0, -1, -1] \<and>
     (case the_inst r (0, 0) of None \<Rightarrow> True | Some inst \<Rightarrow> ei_Status inst < COMMITTED) \<and>
     er_problemInstance r = [0, -1, -1]"

lemma waits_pass:
  assumes "waits r" "er_timeout r = [t, 0, 0]" "t + SLEEP_TIME_NS < COMMIT_GRACE_PERIOD"
  shows "executeCommands T r = Some (Some (r\<lparr>er_timeout := [t + SLEEP_TIME_NS, 0, 0]\<rparr>))"
proof -
  have g: "get_inst r 0 0 = Some (the_inst r (0, 0))"
    using assms(1) by (simp add: waits_def get_inst_def MAX_INSTANCE_def the_inst_def)
  have rows: "[0..er_N r - 1] = [0, 1, 2]" "[0..0] = [0::int]" using assms(1) by (simp_all add: waits_def upto_rec1)
  have n: "\<not> (case the_inst r (0, 0) of Some inst \<Rightarrow> ei_Status inst = EXECUTED | None \<Rightarrow> False)" "not_ready (the_inst r (0, 0))"
    using assms(1) by (auto simp: waits_def not_ready_def status_defs split: option.splits)
  have p: "problem 0 0 r = r\<lparr>er_timeout := [t + SLEEP_TIME_NS, 0, 0]\<rparr>"
    using assms by (simp add: waits_def problem_def Let_def)
  have row: "exec_row T 0 [er_ExecedUpTo r ! nat 0 + 1..er_crtInstance r ! nat 0] r = Some (Some (problem 0 0 r))"
    using assms(1) g n by (simp add: waits_def rows)
  show ?thesis
    unfolding executeCommands_def rows(1) exec_rows.simps row p using assms(1) by (simp add: waits_def)
qed

lemma waits_passes:
  "waits (S p) \<Longrightarrow> er_timeout (S p) = [0, 0, 0] \<Longrightarrow> int n * SLEEP_TIME_NS < COMMIT_GRACE_PERIOD \<Longrightarrow>
   e_acts T (replicate n (EExecute p)) S = Some (S(p := (S p)\<lparr>er_timeout := [int n * SLEEP_TIME_NS, 0, 0]\<rparr>))"
proof (induction n)
  case (Suc n)
  let ?r = "(S p)\<lparr>er_timeout := [int n * SLEEP_TIME_NS, 0, 0]\<rparr>"
  have "int n * SLEEP_TIME_NS < COMMIT_GRACE_PERIOD" using Suc(4) by (simp add: SLEEP_TIME_NS_def)
  then have IH: "e_acts T (replicate n (EExecute p)) S = Some (S(p := ?r))" using Suc by blast
  have "waits ?r" using Suc(2) by (simp add: waits_def the_inst_def)
  then have "executeCommands T ?r = Some (Some (?r\<lparr>er_timeout := [int n * SLEEP_TIME_NS + SLEEP_TIME_NS, 0, 0]\<rparr>))"
    by (rule waits_pass) (use Suc(4) in \<open>simp_all add: algebra_simps\<close>)
  moreover have "replicate (Suc n) (EExecute p) = replicate n (EExecute p) @ [EExecute p]" by (metis replicate_append_same replicate_Suc)
  ultimately show ?case using IH by (simp add: e_acts_append at_replica_def algebra_simps fun_eq_iff)
next
  case 0
  then have "(S p)\<lparr>er_timeout := [0, 0, 0]\<rparr> = S p" by (cases "S p") simp
  then show ?case by simp
qed

section \<open>A recovery that replaces a committed command\<close>

definition e_put :: GPropose where
  "e_put = \<lparr>Propose_CommandId = 1, Propose_ClientId = 1, Propose_Command = \<lparr>Op = PUT, K = 7, V = [1]\<rparr>,
            Propose_Timestamp = 0, GPropose_Proxy = False\<rparr>"

text \<open>
  Replica 0 commits and executes its instance with replica 1, and answers the client.  No commit arrives: replica 1
  recovers the instance with replica 2, which takes part in the second phase and so knows that it exists, and
  executes it.  Then replica 2 recovers it.  It takes for its own reply the ballot it has just made up, which is
  higher than those of all others, so that of the replies to its prepare it takes none, and starts again with no
  operation.
\<close>

definition e_first :: "e_action list" where
  "e_first = [EClient 0 e_put, EPropose 0, EDeliver 0 0, EDeliver 1 0, EExecute 0, EExecute 1]"

definition e_second :: "e_action list" where
  "e_second = [EExecute 1, ERecover 1, EDeliver 1 1, EDeliver 2 0, EDeliver 1 3, EDeliver 2 1, EExecute 1, EExecute 2]"

definition e_third :: "e_action list" where
  "e_third = [EExecute 2, ERecover 2, EDeliver 2 3, EDeliver 1 6, EDeliver 2 4, EDeliver 0 3, EDeliver 2 5, EDeliver 0 4,
     EExecute 2]"

definition after_wait :: "int \<Rightarrow> 'st e_system \<Rightarrow> 'st e_system" where
  "after_wait p S = S(p := (S p)\<lparr>er_timeout := [9999 * SLEEP_TIME_NS, 0, 0]\<rparr>)"

definition cmds_at :: "'st EReplica \<Rightarrow> iid \<Rightarrow> command list" where
  "cmds_at r v = (case the_inst r v of None \<Rightarrow> [] | Some inst \<Rightarrow> wire (ei_Cmds inst))"

abbreviation "e_start \<equiv> NewESystem 3 1 0"

lemma e_first_eval:
  "case e_acts T e_first (e_start st) of None \<Rightarrow> False | Some S \<Rightarrow> waits (S 1) \<and> er_timeout (S 1) = [0, 0, 0]"
  by code_simp

lemma e_second_eval:
  "case Option.bind (e_acts T e_first (e_start st)) (\<lambda>S. e_acts T e_second (after_wait 1 S)) of None \<Rightarrow> False
   | Some S \<Rightarrow> waits (S 2) \<and> er_timeout (S 2) = [0, 0, 0]"
  by code_simp

lemma e_third_eval:
  "case Option.bind (e_acts T e_first (e_start st)) (\<lambda>S. Option.bind (e_acts T e_second (after_wait 1 S))
     (\<lambda>S. e_acts T e_third (after_wait 2 S))) of None \<Rightarrow> False
   | Some S \<Rightarrow> executed (S 0) (0, 0) \<and> cmds_at (S 0) (0, 0) = [Propose_Command e_put] \<and> map fst (er_replied (S 0)) = [e_put] \<and>
       executed (S 1) (0, 0) \<and> cmds_at (S 1) (0, 0) = [Propose_Command e_put] \<and>
       executed (S 2) (0, 0) \<and> cmds_at (S 2) (0, 0) = NOOP"
  by code_simp

lemma wait_acts:
  "waits (S p) \<Longrightarrow> er_timeout (S p) = [0, 0, 0] \<Longrightarrow> e_acts T (replicate 9999 (EExecute p)) S = Some (after_wait p S)"
  using waits_passes [of S p 9999 T] by (simp add: after_wait_def SLEEP_TIME_NS_def COMMIT_GRACE_PERIOD_def)

text \<open>
  C6: a run in which two replicas have executed a command, one of them has answered its client, and the third
  recovers the instance, commits no operation in its place and executes that.
\<close>

theorem epaxos_recovery_loses_committed:
  "\<exists>as S. e_acts T as (NewESystem 3 1 0 st) = Some S \<and>
     executed (S 0) (0, 0) \<and> cmds_at (S 0) (0, 0) = [Propose_Command e_put] \<and> map fst (er_replied (S 0)) = [e_put] \<and>
     executed (S 1) (0, 0) \<and> cmds_at (S 1) (0, 0) = [Propose_Command e_put] \<and>
     executed (S 2) (0, 0) \<and> cmds_at (S 2) (0, 0) = NOOP"
proof -
  obtain S1 where S1: "e_acts T e_first (e_start st) = Some S1" "waits (S1 1)" "er_timeout (S1 1) = [0, 0, 0]"
    using e_first_eval [of T st] by (auto split: option.splits)
  obtain S2 where S2: "e_acts T e_second (after_wait 1 S1) = Some S2" "waits (S2 2)" "er_timeout (S2 2) = [0, 0, 0]"
    using e_second_eval [of T st] S1(1) by (auto split: option.splits)
  obtain S where S: "e_acts T e_third (after_wait 2 S2) = Some S"
    "executed (S 0) (0, 0) \<and> cmds_at (S 0) (0, 0) = [Propose_Command e_put] \<and> map fst (er_replied (S 0)) = [e_put] \<and>
     executed (S 1) (0, 0) \<and> cmds_at (S 1) (0, 0) = [Propose_Command e_put] \<and>
     executed (S 2) (0, 0) \<and> cmds_at (S 2) (0, 0) = NOOP"
    using e_third_eval [of T st] S1(1) S2(1) by (auto simp del: map_eq_Cons_conv split: option.splits)
  have "e_acts T (e_first @ replicate 9999 (EExecute 1) @ e_second @ replicate 9999 (EExecute 2) @ e_third) (e_start st) = Some S"
    using S1 S2 S(1) by (simp add: e_acts_append wait_acts)
  from conjI [OF this S(2)] show ?thesis by (intro exI)
qed

section \<open>Dependencies\<close>

lemma update_pair_covers:
  "i \<le> ip_last (update_pair x c i)" "Op c \<noteq> GET \<Longrightarrow> i \<le> ip_lastWrite (update_pair x c i)"
  by (auto simp: update_pair_def Let_def split: option.split)

lemma update_pair_mono:
  "ip_last ip \<le> ip_last (update_pair (Some ip) c i)" "ip_lastWrite ip \<le> ip_lastWrite (update_pair (Some ip) c i)"
  by (auto simp: update_pair_def Let_def)

text \<open>The conflicts of row \<open>q\<close> know of an instance \<open>i\<close> with command \<open>c\<close>.\<close>

definition knows :: "'st EReplica \<Rightarrow> int \<Rightarrow> command \<Rightarrow> int \<Rightarrow> bool" where
  "knows r q c i \<longleftrightarrow> (\<exists>ip. er_conflicts r q (K c) = Some ip \<and> i \<le> ip_last ip \<and> (Op c \<noteq> GET \<longrightarrow> i \<le> ip_lastWrite ip))"

lemma knows_update: "knows r q c i \<Longrightarrow> knows (update_conflict p j s d r) q c i"
  using update_pair_mono [of _ d j] by (auto simp: knows_def update_conflict_def intro: order_trans)

lemma knows_new: "knows (update_conflict q i s c r) q c i"
  using update_pair_covers by (simp add: knows_def update_conflict_def)

lemma knows_updateConflicts: "c \<in> set cs \<Longrightarrow> knows (updateConflicts cs q i s r) q c i"
proof -
  have mono: "knows r q c i \<Longrightarrow> knows (fold (update_conflict q i s) cs r) q c i" for r cs
    by (induction cs arbitrary: r) (simp_all add: knows_update)
  show "c \<in> set cs \<Longrightarrow> knows (updateConflicts cs q i s r) q c i"
    unfolding updateConflicts_def by (induction cs arbitrary: r) (auto intro: mono knows_new)
qed

lemma attr_cmds_mono:
  assumes "attr_cmds r q cs (seq, ds, ch) = Some (seq', ds', ch')"
  shows "length ds' = length ds \<and> (\<forall>p < length ds. ds ! p \<le> ds' ! p)"
  using assms
proof (induction cs arbitrary: seq ds ch)
  case (Cons c cs)
  then show ?case
    by (auto simp: Let_def at_def nth_update split: option.splits Option.bind_splits if_splits)
qed simp

lemma attr_cmds_covers:
  assumes "attr_cmds r q [c] (seq, ds, ch) = Some (seq', ds', ch')" "er_conflicts r q (K c) = Some ip"
  shows "0 \<le> q \<and> nat q < length ds \<and> last_conflict c ip \<le> ds' ! nat q"
  using assms by (auto simp: Let_def at_def split: Option.bind_splits if_splits)

lemma attr_replicas_mono:
  assumes "attr_replicas r p cs qs (seq, ds, ch) = Some (seq', ds', ch')"
  shows "length ds' = length ds \<and> (\<forall>k < length ds. ds ! k \<le> ds' ! k)"
  using assms
proof (induction qs arbitrary: seq ds ch)
  case (Cons q qs)
  show ?case
  proof (cases "er_Id r \<noteq> p \<and> q = p")
    case False
    then obtain s1 d1 c1 where 1: "attr_cmds r q cs (seq, ds, ch) = Some (s1, d1, c1)"
      "attr_replicas r p cs qs (s1, d1, c1) = Some (seq', ds', ch')"
      using Cons(2) by (auto split: Option.bind_splits)
    then show ?thesis using attr_cmds_mono [OF 1(1)] Cons(1) [OF 1(2)] by (auto intro: order_trans)
  qed (use Cons in simp)
qed simp

lemma attr_replicas_covers:
  assumes "attr_replicas r p [c] qs (seq, ds, ch) = Some (seq', ds', ch')" "q \<in> set qs" "er_Id r = p \<or> q \<noteq> p"
    "er_conflicts r q (K c) = Some ip"
  shows "last_conflict c ip \<le> ds' ! nat q"
  using assms
proof (induction qs arbitrary: seq ds ch)
  case (Cons q' qs)
  show ?case
  proof (cases "er_Id r \<noteq> p \<and> q' = p")
    case False
    then obtain s1 d1 c1 where 1: "attr_cmds r q' [c] (seq, ds, ch) = Some (s1, d1, c1)"
      "attr_replicas r p [c] qs (s1, d1, c1) = Some (seq', ds', ch')"
      using Cons(2) by (auto simp del: attr_cmds.simps split: Option.bind_splits)
    show ?thesis
    proof (cases "q \<in> set qs")
      case False
      then have "q' = q" using Cons(3) by simp
      then have "nat q < length ds" "last_conflict c ip \<le> d1 ! nat q" using attr_cmds_covers [OF 1(1)] Cons(5) by auto
      moreover from this have "d1 ! nat q \<le> ds' ! nat q" using attr_cmds_mono [OF 1(1)] attr_replicas_mono [OF 1(2)] by simp
      ultimately show ?thesis by linarith
    qed (use Cons(1) [OF 1(2)] Cons(4,5) in blast)
  qed (use Cons in auto)
qed simp


definition put_on :: "int \<Rightarrow> GPropose" where
  "put_on k = \<lparr>Propose_CommandId = 1, Propose_ClientId = 1, Propose_Command = \<lparr>Op = PUT, K = k, V = [1]\<rparr>,
              Propose_Timestamp = 0, GPropose_Proxy = False\<rparr>"

definition e_one :: "'st \<Rightarrow> 'st EReplica" where
  "e_one st = (let r = e_start st 1 in
     put_inst 1 5 (newInstanceDefault r 1 5) (r\<lparr>er_slices := [[-1, -1, -1]]\<rparr>))"

lemma e_one_eval:
  "updateAttributes [Propose_Command (put_on 7)] 0 (Some 0) 0
     (updateConflicts [Propose_Command (put_on 8), Propose_Command (put_on 7)] 1 5 1
       (e_one st)) \<noteq> None \<and>
   er_N (e_one st) = 3 \<and> er_Id (e_one st) = 1 \<and> er_slices (e_one st) = [[-1, -1, -1]]"
  by code_simp


text \<open>Two puts on the keys 7 and 8, then one batch with a put on each.\<close>

definition e_batch :: "e_action list" where
  "e_batch = [EClient 0 (put_on 7), EPropose 0, EClient 0 (put_on 8), EPropose 0, EClient 0 (put_on 7), EClient 0 (put_on 8), EPropose 0]"

lemma e_batch_eval:
  "case e_acts T e_batch (e_start st) of None \<Rightarrow> False
   | Some S \<Rightarrow> cmds_at (S 0) (0, 1) = [Propose_Command (put_on 8)] \<and>
       cmds_at (S 0) (0, 2) = [Propose_Command (put_on 7), Propose_Command (put_on 8)] \<and>
       map_option (\<lambda>inst. slice_of (S 0) (ei_Deps inst)) (the_inst (S 0) (0, 2)) = Some [0, -1, -1] \<and>
       ConflictBatch (cmds_at (S 0) (0, 1)) (cmds_at (S 0) (0, 2)) = Some True"
  by code_simp

text \<open>
  With a batch, a dependency is lost: the search for conflicts stops at the first command of the batch that has
  one, so that the batch does not depend on a later instance that conflicts with its second command.
\<close>

theorem epaxos_batch_misses_dependency:
  "\<exists>as S. e_acts T as (NewESystem 3 1 0 st) = Some S \<and>
     ConflictBatch (cmds_at (S 0) (0, 1)) (cmds_at (S 0) (0, 2)) = Some True \<and> \<not> dep (S 0) (0, 2) (0, 1)"
proof -
  obtain S where S: "e_acts T e_batch (e_start st) = Some S" "ConflictBatch (cmds_at (S 0) (0, 1)) (cmds_at (S 0) (0, 2)) = Some True"
    "map_option (\<lambda>inst. slice_of (S 0) (ei_Deps inst)) (the_inst (S 0) (0, 2)) = Some [0, -1, -1]"
    using e_batch_eval [of T st] by (auto split: option.splits)
  have "\<not> dep (S 0) (0, 2) (0, 1)" using S(3) by (auto simp: dep_def at_def)
  then show ?thesis using S(1,2) by blast
qed

end
