(* ===== verification/Curp.thy ===== *)
theory Curp
  imports CurpMsg ClientMsg MsgSet "HOL-Library.Monad_Syntax"
begin

text \<open>
  CURP (\<open>curp/curp.go\<close>, \<open>curp/batcher.go\<close>): the leader executes the commands in the order of its slots as soon as they
  arrive, and tells the client whether the last command on the same key was committed; the other replicas tell the
  clients whether they know of commands on the same key that they have not executed.

  As in N2Paxos, a descriptor handles the messages of a slot, in a goroutine of its own or, above \<open>MaxDescRoutines\<close> and
  for the proposals of the leader, in the main loop (\<open>seq\<close>).  Handlers are atomic steps.  A handler that panics, or a
  main loop that waits for ever, ends in \<open>Inl\<close> of the state it reached.
\<close>

section \<open>State\<close>

datatype curp_status = NORMAL | RECOVERING

datatype curp_phase = START | ACCEPT | COMMIT

definition TRUE :: byte where "TRUE = 1"
definition FALSE :: byte where "FALSE = 0"
definition ORDERED :: byte where "ORDERED = 2"

datatype curp_in = InPropose GPropose | InAccept CurpMAccept | InAcceptAck CurpMAcceptAck | InCommit CurpMCommit
  | InDeliver | InSlot int

text \<open>The functions that wait in \<open>afterPayload\<close>: those of \<open>handleAccept\<close>, \<open>handleCommit\<close> and \<open>deliver\<close>.\<close>

datatype curp_fun = FAccept CurpMAccept | FCommit CurpMCommit | FDeliver int

text \<open>A function in \<open>pendingCall\<close> sends a \<open>MRecordAck\<close> to a client.\<close>

record curp_desc =
  cd_cmdId :: CommandId
  cd_cmd :: command
  cd_phase :: curp_phase
  cd_cmdSlot :: int
  cd_propose :: "GPropose option"
  cd_val :: "value option"
  cd_dep :: int
  cd_successor :: int
  cd_acks :: "CurpMAcceptAck msgset option"
  cd_afterPayload :: "curp_fun list"
  cd_msgs :: "curp_in list"
  cd_active :: bool
  cd_seq :: bool
  cd_accepted :: bool
  cd_pendingCall :: "(int \<times> CurpMRecordAck) option"
  cd_routineDep :: int
  cd_blocked :: bool

record curp_static =
  cs_cmdSlot :: int
  cs_phase :: curp_phase
  cs_cmd :: command

datatype curp_dest = ToAll | ToReplica int | ToClient int

text \<open>What is left of the message the main loop is at: a call of \<open>getCmdDesc\<close>, or a \<open>MAccept\<close> to look at.\<close>

datatype curp_todo = Give int curp_in | Look CurpMAccept | Lead GPropose

record 'st CurpReplica =
  cr_Id :: int
  cr_N :: int
  cr_Exec :: bool
  cr_ballot :: int
  cr_cballot :: int
  cr_status :: curp_status
  cr_optimized :: bool
  cr_contactClients :: bool
  cr_Q :: quorum
  cr_isLeader :: bool
  cr_lastCmdSlot :: int
  cr_slots :: "CommandId \<Rightarrow> int option"
  cr_synced :: "CommandId set"
  cr_values :: "CommandId \<Rightarrow> value option option"
  cr_proposes :: "CommandId \<Rightarrow> GPropose option"
  cr_cmdDescs :: "int \<Rightarrow> curp_desc option"
  cr_unsynced :: "key \<Rightarrow> int option"
  cr_executed :: "int set"
  cr_committed :: "int set"
  cr_delivered :: "int set"
  cr_history :: "int \<Rightarrow> curp_static"
  cr_deliverChan :: "int list"
  cr_descPool :: "curp_desc list"
  cr_poolLevel :: int
  cr_routineCount :: int
  cr_accs :: "CurpMAccept list"
  cr_acks :: "CurpMAcceptAck list"
  cr_todo :: "curp_todo list"
  cr_State :: 'st
  cr_sent :: "(curp_dest \<times> curp_msg) list"

type_synonym 'st curp_run = "'st CurpReplica + 'st CurpReplica"
type_synonym 'st curp_handled = "'st CurpReplica + curp_desc \<times> 'st CurpReplica"

definition HISTORY_SIZE :: int where
  "HISTORY_SIZE = 10010001"

definition MaxDescRoutines :: int where
  "MaxDescRoutines = 100"

definition MSGS_SIZE :: nat where
  "MSGS_SIZE = 8"

definition NewCurpReplica :: "int \<Rightarrow> int \<Rightarrow> bool \<Rightarrow> int \<Rightarrow> bool \<Rightarrow> int option \<Rightarrow> 'st \<Rightarrow> 'st CurpReplica" where
  "NewCurpReplica rid n exec pl opt leader st =
     (let ballot = (case leader of Some l \<Rightarrow> l | None \<Rightarrow> 0)
      in \<lparr>cr_Id = rid, cr_N = n, cr_Exec = exec, cr_ballot = ballot, cr_cballot = ballot, cr_status = NORMAL,
          cr_optimized = opt, cr_contactClients = False, cr_Q = NewMajorityOf n, cr_isLeader = (ballot = rid),
          cr_lastCmdSlot = 0, cr_slots = Map.empty, cr_synced = {}, cr_values = Map.empty,
          cr_proposes = Map.empty, cr_cmdDescs = Map.empty, cr_unsynced = Map.empty, cr_executed = {},
          cr_committed = {}, cr_delivered = {},
          cr_history = (\<lambda>_. \<lparr>cs_cmdSlot = 0, cs_phase = START, cs_cmd = zero_command\<rparr>),
          cr_deliverChan = [], cr_descPool = [], cr_poolLevel = pl, cr_routineCount = 0, cr_accs = [],
          cr_acks = [], cr_todo = [], cr_State = st, cr_sent = []\<rparr>)"

definition send :: "curp_dest \<Rightarrow> curp_msg \<Rightarrow> 'st CurpReplica \<Rightarrow> 'st CurpReplica" where
  "send to m r = r\<lparr>cr_sent := cr_sent r @ [(to, m)]\<rparr>"

section \<open>Unsynced commands\<close>

text \<open>
  For a replica that is not the leader, \<open>unsynced\<close> counts the commands on a key that it knows but has not executed; for
  the leader it is the slot of the last command on the key.
\<close>

definition sync :: "CommandId \<Rightarrow> command \<Rightarrow> 'st CurpReplica \<Rightarrow> 'st CurpReplica" where
  "sync cmdId cmd r =
     (if cr_isLeader r then r
      else case cr_unsynced r (K cmd) of
        Some n \<Rightarrow>
          if cmdId \<in> cr_synced r then r
          else r\<lparr>cr_synced := insert cmdId (cr_synced r), cr_unsynced := (cr_unsynced r)(K cmd \<mapsto> max 0 (n - 1))\<rparr>
      | None \<Rightarrow> r\<lparr>cr_synced := insert cmdId (cr_synced r), cr_unsynced := (cr_unsynced r)(K cmd \<mapsto> 0)\<rparr>)"

definition unsync :: "command \<Rightarrow> 'st CurpReplica \<Rightarrow> 'st CurpReplica" where
  "unsync cmd r =
     r\<lparr>cr_unsynced := (cr_unsynced r)(K cmd \<mapsto> (case cr_unsynced r (K cmd) of Some n \<Rightarrow> n + 1 | None \<Rightarrow> 1))\<rparr>"

text \<open>\<open>Fatal\<close>, which ends the program, is \<open>None\<close>.\<close>

definition leaderUnsync :: "command \<Rightarrow> int \<Rightarrow> 'st CurpReplica \<Rightarrow> (int \<times> 'st CurpReplica) option" where
  "leaderUnsync cmd slot r =
     (let r' = r\<lparr>cr_unsynced := (cr_unsynced r)(K cmd \<mapsto> slot)\<rparr>
      in case cr_unsynced r (K cmd) of
           Some s \<Rightarrow> if s > slot then None else Some (s, r')
         | None \<Rightarrow> Some (-1, r'))"

definition ok :: "command \<Rightarrow> 'st CurpReplica \<Rightarrow> byte" where
  "ok cmd r = (case cr_unsynced r (K cmd) of Some n \<Rightarrow> if n > 0 then FALSE else TRUE | None \<Rightarrow> TRUE)"

section \<open>Descriptors\<close>

definition zero_desc :: curp_desc where
  "zero_desc = \<lparr>cd_cmdId = zero_CommandId, cd_cmd = zero_command, cd_phase = START, cd_cmdSlot = 0,
     cd_propose = None, cd_val = None, cd_dep = 0, cd_successor = 0, cd_acks = None, cd_afterPayload = [],
     cd_msgs = [], cd_active = False, cd_seq = False, cd_accepted = False, cd_pendingCall = None,
     cd_routineDep = 0, cd_blocked = False\<rparr>"

definition allocDesc :: "'st CurpReplica \<Rightarrow> curp_desc \<times> 'st CurpReplica" where
  "allocDesc r =
     (if cr_poolLevel r > 0 then
        (case cr_descPool r of
           [] \<Rightarrow> (zero_desc, r)
         | d # ds \<Rightarrow>
             (if cd_cmdSlot d \<in> cr_delivered r \<and> cr_values r (cd_cmdId d) \<noteq> None then d else zero_desc,
              r\<lparr>cr_descPool := ds\<rparr>))
      else (zero_desc, r))"

definition freeDesc :: "curp_desc \<Rightarrow> 'st CurpReplica \<Rightarrow> 'st CurpReplica" where
  "freeDesc d r = (if cr_poolLevel r > 0 then r\<lparr>cr_descPool := d # cr_descPool r\<rparr> else r)"

definition newDesc :: "'st CurpReplica \<Rightarrow> curp_desc \<times> 'st CurpReplica" where
  "newDesc r =
     (let (d, r) = allocDesc r
      in (d\<lparr>cd_cmdSlot := -1, cd_active := True, cd_phase := START,
            cd_seq := cr_routineCount r \<ge> MaxDescRoutines, cd_propose := None, cd_val := None,
            cd_cmdId := CommandId (ClientId (cd_cmdId d)) (-42), cd_dep := -1, cd_successor := -1,
            cd_accepted := False, cd_afterPayload := [], cd_acks := Some (ReinitMsgSet (cd_acks d) (cr_Q r))\<rparr>, r))"

definition put_desc :: "int \<Rightarrow> curp_desc \<Rightarrow> 'st CurpReplica \<Rightarrow> 'st CurpReplica" where
  "put_desc slot d r = r\<lparr>cr_cmdDescs := (cr_cmdDescs r)(slot \<mapsto> d)\<rparr>"

text \<open>
  The part of \<open>getCmdDescSeq\<close> that finds or makes the descriptor; \<open>None\<close> for a slot that was delivered.  A goroutine
  keeps the dependency it was started with (\<open>cd_routineDep\<close>).
\<close>

definition find_desc :: "int \<Rightarrow> int \<Rightarrow> bool \<Rightarrow> 'st CurpReplica \<Rightarrow> (curp_desc \<times> 'st CurpReplica) option" where
  "find_desc slot dep seq r =
     (if slot \<in> cr_delivered r then None
      else case cr_cmdDescs r slot of
        Some d \<Rightarrow> Some (d, r)
      | None \<Rightarrow>
          let (d, r) = newDesc r;
              d = d\<lparr>cd_seq := seq \<or> cd_seq d, cd_cmdSlot := slot\<rparr>
          in if cd_seq d then Some (d, put_desc slot d r)
             else let d = d\<lparr>cd_routineDep := dep, cd_blocked := False\<rparr>
                  in Some (d, put_desc slot d (r\<lparr>cr_routineCount := cr_routineCount r + 1\<rparr>)))"

text \<open>\<open>desc.Call\<close>.\<close>

definition call_pending :: "curp_desc \<times> 'st CurpReplica \<Rightarrow> curp_desc \<times> 'st CurpReplica" where
  "call_pending = (\<lambda>(d, r).
     case cd_pendingCall d of
       None \<Rightarrow> (d, r)
     | Some (c, a) \<Rightarrow> (d\<lparr>cd_pendingCall := None\<rparr>, send (ToClient c) (CurpMRecordAckMsg a) r))"

definition IfPreviousAreReady :: "int \<times> CurpMRecordAck \<Rightarrow> curp_desc \<times> 'st CurpReplica \<Rightarrow> curp_desc \<times> 'st CurpReplica" where
  "IfPreviousAreReady f = (\<lambda>(d, r).
     let now = (d, send (ToClient (fst f)) (CurpMRecordAckMsg (snd f)) r)
     in if cd_cmdSlot d - 1 < 0 then now
        else case find_desc (cd_cmdSlot d - 1) (-1) False r of
          None \<Rightarrow> now
        | Some (pd, r) \<Rightarrow>
            if cd_phase pd \<noteq> START then (d, send (ToClient (fst f)) (CurpMRecordAckMsg (snd f)) r)
            else (d, put_desc (cd_cmdSlot d - 1) (pd\<lparr>cd_pendingCall := Some f\<rparr>) r))"

section \<open>Handlers\<close>

text \<open>\<open>handleMsg\<close> of a slot that was delivered: the descriptor is done.\<close>

definition handleSlot :: "int \<Rightarrow> int \<Rightarrow> curp_desc \<times> 'st CurpReplica \<Rightarrow> 'st curp_handled" where
  "handleSlot h slot x =
     (let (d, r) = call_pending x
      in if h < 0 \<or> HISTORY_SIZE \<le> h then Inl r
         else Inr (d\<lparr>cd_active := False\<rparr>,
           r\<lparr>cr_history := (cr_history r)(h := \<lparr>cs_cmdSlot = slot, cs_phase = cd_phase d, cs_cmd = cd_cmd d\<rparr>),
             cr_values := (cr_values r)(cd_cmdId d \<mapsto> cd_val d)\<rparr>))"

fun await_slot :: "curp_in list \<Rightarrow> int \<times> curp_in list" where
  "await_slot (InSlot h # ms) = (h, ms)"
| "await_slot (m # ms) = await_slot ms"
| "await_slot [] = (-1, [])"

text \<open>The function of \<open>deliver\<close>: execution, the reply of the leader, and the end of a committed slot.\<close>

definition execute_desc :: "'st treemap \<Rightarrow> int \<Rightarrow> curp_desc \<times> 'st CurpReplica \<Rightarrow> 'st curp_handled" where
  "execute_desc T slot = (\<lambda>(d, r).
     if cd_val d \<noteq> None then Inr (d, r)
     else case Execute T (cd_cmd d) (cr_State r) of
       None \<Rightarrow> Inl r
     | Some (v, st) \<Rightarrow>
         Inr (d\<lparr>cd_val := Some v\<rparr>,
              r\<lparr>cr_State := st, cr_executed := insert slot (cr_executed r), cr_deliverChan := cr_deliverChan r @ [slot + 1]\<rparr>))"

definition wire_value :: "value option \<Rightarrow> value" where
  "wire_value v = (case v of None \<Rightarrow> [] | Some v \<Rightarrow> v)"

definition leader_reply :: "GPropose \<Rightarrow> curp_desc \<Rightarrow> 'st CurpReplica \<Rightarrow> 'st CurpReplica" where
  "leader_reply p d r =
     (if cr_isLeader r \<and> cd_phase d \<noteq> COMMIT then
        let ok = (if cd_dep d \<noteq> -1 \<and> cd_dep d \<notin> cr_committed r then FALSE else TRUE)
        in if ok = TRUE \<or> cr_contactClients r then
             send (ToClient (Propose_ClientId p)) (CurpMReplyMsg \<lparr>CurpMReply_Replica = cr_Id r,
               CurpMReply_Ballot = cr_ballot r, CurpMReply_CmdId = cd_cmdId d, CurpMReply_Rep = wire_value (cd_val d),
               CurpMReply_Ok = ok\<rparr>) r
           else r
      else r)"

definition sync_reply :: "GPropose \<Rightarrow> curp_desc \<Rightarrow> 'st CurpReplica \<Rightarrow> 'st CurpReplica" where
  "sync_reply p d r =
     (if \<not> cr_contactClients r \<and> (cr_optimized r \<and> GPropose_Proxy p \<or> \<not> cr_optimized r \<and> cr_isLeader r) then
        send (ToClient (Propose_ClientId p)) (CurpMSyncReplyMsg \<lparr>CurpMSyncReply_Replica = cr_Id r,
          CurpMSyncReply_Ballot = cr_ballot r, CurpMSyncReply_CmdId = cd_cmdId d,
          CurpMSyncReply_Rep = wire_value (cd_val d)\<rparr>) r
      else r)"

definition end_slot :: "int \<Rightarrow> curp_desc \<times> 'st CurpReplica \<Rightarrow> 'st curp_handled" where
  "end_slot slot = (\<lambda>(d, r).
     if MSGS_SIZE \<le> length (cd_msgs d)
     then (if cd_seq d then Inl r else Inr (d\<lparr>cd_blocked := True\<rparr>, r))
     else
       let d = d\<lparr>cd_msgs := cd_msgs d @ [InSlot slot]\<rparr>;
           r = r\<lparr>cr_delivered := insert slot (cr_delivered r)\<rparr>
       in if cd_seq d then
            let (h, ms) = await_slot (cd_msgs d) in handleSlot h slot (d\<lparr>cd_msgs := ms\<rparr>, r)
          else Inr (d, r))"

definition deliver_now :: "'st treemap \<Rightarrow> int \<Rightarrow> curp_desc \<times> 'st CurpReplica \<Rightarrow> 'st curp_handled" where
  "deliver_now T slot = (\<lambda>(d, r).
     if slot \<in> cr_delivered r \<or> \<not> cr_Exec r then Inr (d, r)
     else if cd_phase d \<noteq> COMMIT \<and> \<not> cr_isLeader r then Inr (d, r)
     else if slot > 0 \<and> slot - 1 \<notin> cr_executed r then Inr (d, r)
     else
       let d = (case cr_proposes r (cd_cmdId d) of Some p \<Rightarrow> d\<lparr>cd_propose := Some p\<rparr> | None \<Rightarrow> d)
       in case cd_propose d of
            None \<Rightarrow> Inr (d, r)
          | Some p \<Rightarrow>
              let (d, r) = (if \<not> cr_isLeader r
                            then (d\<lparr>cd_cmd := Propose_Command p\<rparr>, sync (cd_cmdId d) (Propose_Command p) r) else (d, r))
              in case execute_desc T slot (d, r) of
                   Inl r \<Rightarrow> Inl r
                 | Inr (d, r) \<Rightarrow>
                     let r = leader_reply p d r
                     in if cd_phase d = COMMIT then end_slot slot (d, sync_reply p d r) else Inr (d, r))"

definition has_payload :: "curp_desc \<times> 'st CurpReplica \<Rightarrow> bool" where
  "has_payload = (\<lambda>(d, r). cd_propose d \<noteq> None \<or> cr_proposes r (cd_cmdId d) \<noteq> None)"

text \<open>
  \<open>Call\<close> of \<open>afterPayload\<close> runs the functions that wait and then its own; these can call it again, which runs those
  that wait again and leaves none.  \<open>JLoop i\<close> is the loop over the functions that wait, \<open>JFun\<close> one of the three
  functions, \<open>JAck\<close> and \<open>JCommit\<close> are \<open>handleAcceptAck\<close>, with the handler of the set of acknowledgements, and
  \<open>handleCommit\<close>.  \<open>None\<close> is a call that does not return.
\<close>

datatype curp_job = JCall curp_fun | JLoop nat | JFun curp_fun | JAck CurpMAcceptAck | JCommit CurpMCommit

definition accept_now :: "CurpMAccept \<Rightarrow> curp_desc \<times> 'st CurpReplica \<Rightarrow> curp_desc \<times> 'st CurpReplica" where
  "accept_now m = (\<lambda>(d, r).
     let (d, r) = (let d = d\<lparr>cd_accepted := True\<rparr>
                   in if cd_phase d = START then call_pending (d\<lparr>cd_phase := ACCEPT\<rparr>, r) else (d, r))
     in if cr_contactClients r \<and> \<not> cr_isLeader r then
          (case cr_proposes r (cd_cmdId d) of
             None \<Rightarrow> (d, r)
           | Some p \<Rightarrow> IfPreviousAreReady (Propose_ClientId p,
               \<lparr>CurpMRecordAck_Replica = cr_Id r, CurpMRecordAck_Ballot = cr_ballot r,
                CurpMRecordAck_CmdId = cd_cmdId d, CurpMRecordAck_Ok = ORDERED\<rparr>) (d, r))
        else (d, r))"

definition add_ack :: "CurpMAcceptAck \<Rightarrow> curp_desc \<Rightarrow> (bool \<times> curp_desc) option" where
  "add_ack m d = map_option (\<lambda>ms.
     let (res, ms) = Add (\<lambda>_ _. True) (CurpMAcceptAck_Replica m) False m ms
     in (call res \<noteq> None, d\<lparr>cd_acks := Some ms\<rparr>)) (cd_acks d)"

partial_function (option) run_job ::
  "'st treemap \<Rightarrow> curp_job \<Rightarrow> curp_desc \<times> 'st CurpReplica \<Rightarrow> 'st curp_handled option" where
  "run_job T j x =
     (case j of
        JCall f \<Rightarrow>
          if \<not> has_payload x then
            Some (Inr ((fst x)\<lparr>cd_afterPayload := cd_afterPayload (fst x) @ [f]\<rparr>, snd x))
          else do {
            y \<leftarrow> run_job T (JLoop 0) x;
            case y of Inl r \<Rightarrow> Some (Inl r)
            | Inr x \<Rightarrow> do {
                y \<leftarrow> run_job T (JFun f) x;
                case y of Inl r \<Rightarrow> Some (Inl r)
                | Inr x \<Rightarrow> Some (Inr ((fst x)\<lparr>cd_afterPayload := []\<rparr>, snd x)) } }
      | JLoop i \<Rightarrow>
          if length (cd_afterPayload (fst x)) \<le> i then Some (Inr x)
          else do {
            y \<leftarrow> run_job T (JFun (cd_afterPayload (fst x) ! i)) x;
            case y of Inl r \<Rightarrow> Some (Inl r) | Inr x \<Rightarrow> run_job T (JLoop (Suc i)) x }
      | JFun f \<Rightarrow>
          (case f of
             FDeliver slot \<Rightarrow> Some (deliver_now T slot x)
           | FCommit m \<Rightarrow>
               if cr_status (snd x) \<noteq> NORMAL \<or> cr_ballot (snd x) \<noteq> CurpMCommit_Ballot m \<or> cd_phase (fst x) = COMMIT
               then Some (Inr x)
               else do {
                 y \<leftarrow> run_job T (JCall (FDeliver (cd_cmdSlot (fst x))))
                   ((fst x)\<lparr>cd_phase := COMMIT\<rparr>,
                    if cr_isLeader (snd x) then (snd x)\<lparr>cr_committed := insert (cd_cmdSlot (fst x)) (cr_committed (snd x))\<rparr>
                    else snd x);
                 case y of Inl r \<Rightarrow> Some (Inl r)
                 | Inr x \<Rightarrow>
                     Some (Inr (fst x,
                       if cd_successor (fst x) \<noteq> -1
                       then (snd x)\<lparr>cr_deliverChan := cr_deliverChan (snd x) @ [cd_successor (fst x)]\<rparr> else snd x)) }
           | FAccept m \<Rightarrow>
               if cd_accepted (fst x) then Some (Inr x)
               else
                 let x = accept_now m x;
                     ack = \<lparr>CurpMAcceptAck_Replica = cr_Id (snd x), CurpMAcceptAck_Ballot = CurpMAccept_Ballot m,
                            CurpMAcceptAck_CmdSlot = CurpMAccept_CmdSlot m\<rparr>
                 in if cr_optimized (snd x)
                    then run_job T (JAck ack) (fst x, (snd x)\<lparr>cr_acks := cr_acks (snd x) @ [ack]\<rparr>)
                    else if cr_isLeader (snd x) then run_job T (JAck ack) x
                    else Some (Inr (fst x, send (ToReplica (CurpMAccept_Replica m)) (CurpMAcceptAckMsg ack) (snd x))))
      | JAck m \<Rightarrow>
          if cr_status (snd x) \<noteq> NORMAL \<or> cr_ballot (snd x) \<noteq> CurpMAcceptAck_Ballot m then Some (Inr x)
          else
            (case add_ack m (fst x) of
               None \<Rightarrow> Some (Inl (snd x))
             | Some cd \<Rightarrow>
                 let called = fst cd; d = snd cd; r = snd x;
                     commit = \<lparr>CurpMCommit_Replica = cr_Id r, CurpMCommit_Ballot = cr_ballot r,
                               CurpMCommit_CmdSlot = cd_cmdSlot d\<rparr>
                 in if \<not> called then Some (Inr (d, r))
                    else if cr_optimized r then run_job T (JCommit commit) (d, r)
                    else if cr_isLeader r then run_job T (JCommit commit) (d, send ToAll (CurpMCommitMsg commit) r)
                    else Some (Inr (d, r)))
      | JCommit m \<Rightarrow>
          if CurpMCommit_CmdSlot m \<in> cr_delivered (snd x) then Some (Inr x)
          else run_job T (JCall (FCommit m)) x)"

definition handleAccept :: "'st treemap \<Rightarrow> CurpMAccept \<Rightarrow> curp_desc \<times> 'st CurpReplica \<Rightarrow> 'st curp_handled option" where
  "handleAccept T m = (\<lambda>(d, r).
     if cr_status r \<noteq> NORMAL \<or> cr_ballot r \<noteq> CurpMAccept_Ballot m then Some (Inr (d, r))
     else if CurpMAccept_CmdSlot m \<in> cr_delivered r then Some (Inr (d, r))
     else run_job T (JCall (FAccept m))
       (d\<lparr>cd_cmdId := CurpMAccept_CmdId m, cd_cmdSlot := CurpMAccept_CmdSlot m\<rparr>, r))"

definition note_successor :: "int \<Rightarrow> int \<Rightarrow> 'st CurpReplica \<Rightarrow> 'st CurpReplica" where
  "note_successor dep slot r =
     (if dep = -1 then r
      else case find_desc dep (-1) False r of
        None \<Rightarrow> r
      | Some (pd, r) \<Rightarrow> put_desc dep (pd\<lparr>cd_successor := slot\<rparr>) r)"

definition handlePropose :: "'st treemap \<Rightarrow> GPropose \<Rightarrow> int \<Rightarrow> int \<Rightarrow> curp_desc \<times> 'st CurpReplica \<Rightarrow> 'st curp_handled option" where
  "handlePropose T p slot dep = (\<lambda>(d, r).
     if cr_status r \<noteq> NORMAL \<or> cd_propose d \<noteq> None then Some (Inr (d, r))
     else
       let d = d\<lparr>cd_propose := Some p, cd_cmd := Propose_Command p,
                 cd_cmdId := CommandId (Propose_ClientId p) (Propose_CommandId p), cd_cmdSlot := slot, cd_dep := dep\<rparr>;
           r = note_successor dep slot r;
           acc = \<lparr>CurpMAccept_Replica = cr_Id r, CurpMAccept_Ballot = cr_ballot r, CurpMAccept_Cmd = zero_command,
                  CurpMAccept_CmdId = cd_cmdId d, CurpMAccept_CmdSlot = slot\<rparr>
       in do {
         y \<leftarrow> run_job T (JCall (FDeliver slot)) (d, r);
         case y of Inl r \<Rightarrow> Some (Inl r)
         | Inr x \<Rightarrow> handleAccept T acc (fst x, (snd x)\<lparr>cr_accs := cr_accs (snd x) @ [acc]\<rparr>) })"

fun handleMsg :: "'st treemap \<Rightarrow> curp_in \<Rightarrow> int \<Rightarrow> int \<Rightarrow> curp_desc \<times> 'st CurpReplica \<Rightarrow> 'st curp_handled option" where
  "handleMsg T (InPropose p) slot dep x = handlePropose T p slot dep x"
| "handleMsg T (InAccept m) slot dep x = (if CurpMAccept_CmdSlot m = slot then handleAccept T m x else Some (Inr x))"
| "handleMsg T (InAcceptAck m) slot dep x = (if CurpMAcceptAck_CmdSlot m = slot then run_job T (JAck m) x else Some (Inr x))"
| "handleMsg T (InCommit m) slot dep x = (if CurpMCommit_CmdSlot m = slot then run_job T (JCommit m) x else Some (Inr x))"
| "handleMsg T InDeliver slot dep x = run_job T (JCall (FDeliver slot)) x"
| "handleMsg T (InSlot h) slot dep x = Some (handleSlot h slot x)"

text \<open>A descriptor that is done leaves the table and goes back to the pool.\<close>

definition finish :: "int \<Rightarrow> 'st curp_handled \<Rightarrow> 'st curp_run" where
  "finish slot x =
     (case x of
        Inl r \<Rightarrow> Inl r
      | Inr (d, r) \<Rightarrow>
          if cd_active d then Inr (put_desc slot d r)
          else Inr (freeDesc d (r\<lparr>cr_cmdDescs := (cr_cmdDescs r)(slot := None)\<rparr>)))"

text \<open>One turn of the loop of \<open>handleDesc\<close>; \<open>None\<close> if there is no message, or the turn does not end.\<close>

definition handleDesc :: "'st treemap \<Rightarrow> int \<Rightarrow> 'st CurpReplica \<Rightarrow> 'st curp_run option" where
  "handleDesc T slot r = do {
     d \<leftarrow> cr_cmdDescs r slot;
     if cd_seq d \<or> cd_blocked d then None
     else case cd_msgs d of
       [] \<Rightarrow> None
     | m # ms \<Rightarrow> do {
         y \<leftarrow> handleMsg T m slot (cd_routineDep d) (d\<lparr>cd_msgs := ms\<rparr>, r);
         Some (case finish slot y of
                 Inl r \<Rightarrow> Inl r
               | Inr r \<Rightarrow> Inr (if cr_cmdDescs r slot = None
                               then r\<lparr>cr_routineCount := cr_routineCount r - 1\<rparr> else r)) } }"

section \<open>The main loop\<close>

text \<open>\<open>getCmdDescSeq\<close> with a message: whether it was given to the descriptor, or waits for room in its channel.\<close>

definition getCmdDescSeq ::
  "'st treemap \<Rightarrow> int \<Rightarrow> curp_in \<Rightarrow> int \<Rightarrow> bool \<Rightarrow> 'st CurpReplica \<Rightarrow> ('st CurpReplica + bool \<times> 'st CurpReplica) option" where
  "getCmdDescSeq T slot m dep seq r =
     (case find_desc slot dep seq r of
        None \<Rightarrow> Some (Inr (True, r))
      | Some (d, r) \<Rightarrow>
          if cd_seq d then do {
            y \<leftarrow> handleMsg T m slot dep (d, r);
            Some (case finish slot y of Inl r \<Rightarrow> Inl r | Inr r \<Rightarrow> Inr (True, r)) }
          else if length (cd_msgs d) < MSGS_SIZE
            then Some (Inr (True, put_desc slot (d\<lparr>cd_msgs := cd_msgs d @ [m]\<rparr>) r))
            else Some (Inr (False, r)))"

definition take_propose :: "GPropose \<Rightarrow> 'st CurpReplica \<Rightarrow> 'st CurpReplica" where
  "take_propose p r =
     (if cr_isLeader r then r\<lparr>cr_todo := [Lead p]\<rparr>
      else
        let cmdId = CommandId (Propose_ClientId p) (Propose_CommandId p)
        in if cr_values r cmdId \<noteq> None then r
           else
             let r = r\<lparr>cr_proposes := (cr_proposes r)(cmdId \<mapsto> p)\<rparr>;
                 r = send (ToClient (Propose_ClientId p)) (CurpMRecordAckMsg
                       \<lparr>CurpMRecordAck_Replica = cr_Id r, CurpMRecordAck_Ballot = cr_ballot r,
                        CurpMRecordAck_CmdId = cmdId, CurpMRecordAck_Ok = ok (Propose_Command p) r\<rparr>) r;
                 r = unsync (Propose_Command p) r
             in case cr_slots r cmdId of Some slot \<Rightarrow> r\<lparr>cr_todo := [Give slot InDeliver]\<rparr> | None \<Rightarrow> r)"

fun take_msg :: "curp_msg \<Rightarrow> 'st CurpReplica \<Rightarrow> 'st CurpReplica" where
  "take_msg (CurpMAcceptMsg m) r = r\<lparr>cr_todo := [Look m]\<rparr>"
| "take_msg (CurpMAcceptAckMsg m) r = r\<lparr>cr_todo := [Give (CurpMAcceptAck_CmdSlot m) (InAcceptAck m)]\<rparr>"
| "take_msg (CurpMAAcksMsg m) r =
     r\<lparr>cr_todo := map Look (CurpMAAcks_Accepts m) @
                  map (\<lambda>b. Give (CurpMAcceptAck_CmdSlot b) (InAcceptAck b)) (CurpMAAcks_Acks m)\<rparr>"
| "take_msg (CurpMCommitMsg m) r = r\<lparr>cr_todo := [Give (CurpMCommit_CmdSlot m) (InCommit m)]\<rparr>"
| "take_msg (CurpMSyncMsg m) r =
     (case cr_values r (CurpMSync_CmdId m) of
        None \<Rightarrow> r
      | Some v \<Rightarrow> send (ToClient (ClientId (CurpMSync_CmdId m))) (CurpMSyncReplyMsg
          \<lparr>CurpMSyncReply_Replica = cr_Id r, CurpMSyncReply_Ballot = cr_ballot r,
           CurpMSyncReply_CmdId = CurpMSync_CmdId m, CurpMSyncReply_Rep = wire_value v\<rparr>) r)"
| "take_msg m r = r"

definition take_deliver :: "nat \<Rightarrow> 'st CurpReplica \<Rightarrow> 'st CurpReplica option" where
  "take_deliver k r =
     (if k < length (cr_deliverChan r) then
        Some (r\<lparr>cr_todo := [Give (cr_deliverChan r ! k) InDeliver],
                cr_deliverChan := take k (cr_deliverChan r) @ drop (Suc k) (cr_deliverChan r)\<rparr>)
      else None)"

text \<open>A call of \<open>getCmdDesc\<close> by the main loop; what it was about stays in \<open>todo\<close> as long as the channel is full.\<close>

definition give :: "'st treemap \<Rightarrow> int \<Rightarrow> curp_in \<Rightarrow> int \<Rightarrow> bool \<Rightarrow> curp_todo list \<Rightarrow> 'st CurpReplica \<Rightarrow> 'st curp_run option" where
  "give T slot m dep seq todo r = do {
     y \<leftarrow> getCmdDescSeq T slot m dep seq r;
     Some (case y of
             Inl r \<Rightarrow> Inl r
           | Inr (given, r) \<Rightarrow> Inr (r\<lparr>cr_todo := if given then todo else Give slot m # todo\<rparr>)) }"

definition run_todo :: "'st treemap \<Rightarrow> 'st CurpReplica \<Rightarrow> 'st curp_run option" where
  "run_todo T r =
     (case cr_todo r of
        [] \<Rightarrow> None
      | t # todo \<Rightarrow>
          (case t of
             Give slot m \<Rightarrow> give T slot m (-1) False todo r
           | Look acc \<Rightarrow>
               if cr_values r (CurpMAccept_CmdId acc) \<noteq> None then Some (Inr (r\<lparr>cr_todo := todo\<rparr>))
               else give T (CurpMAccept_CmdSlot acc) (InAccept acc) (-1) False todo
                      (r\<lparr>cr_slots := (cr_slots r)(CurpMAccept_CmdId acc \<mapsto> CurpMAccept_CmdSlot acc)\<rparr>)
           | Lead p \<Rightarrow>
               (case leaderUnsync (Propose_Command p) (cr_lastCmdSlot r) r of
                  None \<Rightarrow> Some (Inl r)
                | Some (dep, r) \<Rightarrow>
                    if cr_lastCmdSlot r \<in> cr_delivered r then Some (Inl r)
                    else
                      give T (cr_lastCmdSlot r) (InPropose p) dep True todo (r\<lparr>cr_lastCmdSlot := cr_lastCmdSlot r + 1\<rparr>))))"

end
