(* ===== verification/CurpClient.thy ===== *)
theory CurpClient
  imports Curp
begin

text \<open>
  The client of CURP (\<open>curp/client.go\<close>): it registers the reply of the leader when three quarters of the replicas, the
  leader among them, did not know of a conflict, or a majority has ordered the command; or any reply of a command that is
  committed.

  \<open>nil\<close>, the first \<open>val\<close>, is the empty value.  The timer of the client sends nothing: its case ends in \<open>break\<close>.
\<close>

record CurpClient =
  cc_acks :: "CommandId \<Rightarrow> CurpMRecordAck msgset option"
  cc_macks :: "CommandId \<Rightarrow> CurpMRecordAck msgset option"
  cc_Q :: quorum
  cc_M :: quorum
  cc_val :: "value"
  cc_leader :: int
  cc_ballot :: int
  cc_delivered :: "int set"
  cc_replies :: "(int \<times> value) list" \<comment> \<open>what \<open>RegisterReply\<close> was called with\<close>

definition NewCurpClient :: "int \<Rightarrow> CurpClient" where
  "NewCurpClient n =
     \<lparr>cc_acks = Map.empty, cc_macks = Map.empty, cc_Q = NewThreeQuartersOf n, cc_M = NewMajorityOf n, cc_val = [],
      cc_leader = -1, cc_ballot = -1, cc_delivered = {}, cc_replies = []\<rparr>"

definition RegisterReply :: "value \<Rightarrow> int \<Rightarrow> CurpClient \<Rightarrow> CurpClient" where
  "RegisterReply v seqnum c = c\<lparr>cc_replies := cc_replies c @ [(seqnum, v)]\<rparr>"

definition handleAcks :: "CurpMRecordAck option \<times> CurpMRecordAck list \<Rightarrow> CurpClient \<Rightarrow> CurpClient" where
  "handleAcks x c =
     (case fst x of
        None \<Rightarrow> c
      | Some m \<Rightarrow>
          let s = SeqNum (CurpMRecordAck_CmdId m)
          in if s \<in> cc_delivered c then c
             else RegisterReply (cc_val c) s (c\<lparr>cc_delivered := insert s (cc_delivered c)\<rparr>))"

definition initMsgSets :: "CommandId \<Rightarrow> CurpClient \<Rightarrow> CurpClient" where
  "initMsgSets cmdId c =
     (let c = (if cc_acks c cmdId = None
               then c\<lparr>cc_acks := (cc_acks c)(cmdId \<mapsto> ReinitMsgSet (cc_acks c cmdId) (cc_Q c))\<rparr> else c)
      in if cc_macks c cmdId = None
         then c\<lparr>cc_macks := (cc_macks c)(cmdId \<mapsto> ReinitMsgSet (cc_macks c cmdId) (cc_M c))\<rparr> else c)"

text \<open>\<open>Add\<close> to one of the two sets of a command, with the call of \<open>handleAcks\<close> it makes.\<close>

definition called :: "CurpMRecordAck add_result \<Rightarrow> CurpClient \<Rightarrow> CurpClient" where
  "called res c = (case call res of None \<Rightarrow> c | Some x \<Rightarrow> handleAcks x c)"

definition add_mack :: "CurpMRecordAck \<Rightarrow> bool \<Rightarrow> CurpClient \<Rightarrow> CurpClient" where
  "add_mack r fromLeader c =
     (case cc_macks c (CurpMRecordAck_CmdId r) of
        None \<Rightarrow> c
      | Some ms \<Rightarrow>
          let (res, ms) = Add (\<lambda>_ _. True) (CurpMRecordAck_Replica r) fromLeader r ms
          in called res (c\<lparr>cc_macks := (cc_macks c)(CurpMRecordAck_CmdId r \<mapsto> ms)\<rparr>))"

definition add_ack :: "CurpMRecordAck \<Rightarrow> bool \<Rightarrow> CurpClient \<Rightarrow> CurpClient" where
  "add_ack r fromLeader c =
     (case cc_acks c (CurpMRecordAck_CmdId r) of
        None \<Rightarrow> c
      | Some ms \<Rightarrow>
          let (res, ms) = Add (\<lambda>_ _. True) (CurpMRecordAck_Replica r) fromLeader r ms
          in called res (c\<lparr>cc_acks := (cc_acks c)(CurpMRecordAck_CmdId r \<mapsto> ms)\<rparr>))"

text \<open>The test of the ballot; \<open>None\<close> for a message that is dropped.\<close>

definition see_ballot :: "int \<Rightarrow> CurpClient \<Rightarrow> CurpClient option" where
  "see_ballot b c =
     (if cc_ballot c = -1 then Some (c\<lparr>cc_ballot := b\<rparr>)
      else if cc_ballot c < b then Some (c\<lparr>cc_ballot := b\<rparr>)
      else if cc_ballot c > b then None
      else Some c)"

definition handleRecordAck :: "CurpMRecordAck \<Rightarrow> bool \<Rightarrow> CurpClient \<Rightarrow> CurpClient" where
  "handleRecordAck r fromLeader c =
     (if SeqNum (CurpMRecordAck_CmdId r) \<in> cc_delivered c then c
      else case see_ballot (CurpMRecordAck_Ballot r) c of
        None \<Rightarrow> c
      | Some c \<Rightarrow>
          let c = (if fromLeader then c\<lparr>cc_leader := CurpMRecordAck_Replica r\<rparr> else c);
              c = (if fromLeader \<or> CurpMRecordAck_Ok r = ORDERED
                   then add_mack r fromLeader (initMsgSets (CurpMRecordAck_CmdId r) c) else c)
          in if CurpMRecordAck_Ok r = TRUE
             then add_ack r fromLeader (initMsgSets (CurpMRecordAck_CmdId r) c) else c)"

definition ack_of :: "CurpMReply \<Rightarrow> CurpMRecordAck" where
  "ack_of r = \<lparr>CurpMRecordAck_Replica = CurpMReply_Replica r, CurpMRecordAck_Ballot = CurpMReply_Ballot r,
     CurpMRecordAck_CmdId = CurpMReply_CmdId r, CurpMRecordAck_Ok = CurpMReply_Ok r\<rparr>"

definition handleReply :: "CurpMReply \<Rightarrow> CurpClient \<Rightarrow> CurpClient" where
  "handleReply r c =
     (if SeqNum (CurpMReply_CmdId r) \<in> cc_delivered c then c
      else handleRecordAck (ack_of r) True (c\<lparr>cc_val := CurpMReply_Rep r\<rparr>))"

definition handleSyncReply :: "CurpMSyncReply \<Rightarrow> CurpClient \<Rightarrow> CurpClient" where
  "handleSyncReply r c =
     (let s = SeqNum (CurpMSyncReply_CmdId r)
      in if s \<in> cc_delivered c then c
         else case see_ballot (CurpMSyncReply_Ballot r) c of
           None \<Rightarrow> c
         | Some c \<Rightarrow>
             let c = c\<lparr>cc_val := CurpMSyncReply_Rep r, cc_delivered := insert s (cc_delivered c)\<rparr>
             in RegisterReply (cc_val c) s c)"

fun handleMsgs :: "curp_msg \<Rightarrow> CurpClient \<Rightarrow> CurpClient" where
  "handleMsgs (CurpMReplyMsg r) c = handleReply r c"
| "handleMsgs (CurpMRecordAckMsg r) c = handleRecordAck r False c"
| "handleMsgs (CurpMSyncReplyMsg r) c = handleSyncReply r c"
| "handleMsgs _ c = c"

definition client_run :: "int \<Rightarrow> curp_msg list \<Rightarrow> CurpClient" where
  "client_run n ms = fold handleMsgs ms (NewCurpClient n)"

section \<open>Invariant\<close>

text \<open>
  The acknowledgements of a command among the messages \<open>ms\<close> that may enter the set of three quarters (\<open>acks_of\<close>) or the
  set of a majority (\<open>macks_of\<close>), with the replica each came from.
\<close>

definition acks_of :: "curp_msg set \<Rightarrow> CommandId \<Rightarrow> (int \<times> CurpMRecordAck) set" where
  "acks_of ms cmdId = {(CurpMRecordAck_Replica a, a) | a. CurpMRecordAck_CmdId a = cmdId \<and> CurpMRecordAck_Ok a = TRUE \<and>
     (CurpMRecordAckMsg a \<in> ms \<or> (\<exists>r. CurpMReplyMsg r \<in> ms \<and> a = ack_of r))}"

definition macks_of :: "curp_msg set \<Rightarrow> CommandId \<Rightarrow> (int \<times> CurpMRecordAck) set" where
  "macks_of ms cmdId = {(CurpMRecordAck_Replica a, a) | a. CurpMRecordAck_CmdId a = cmdId \<and>
     (CurpMRecordAckMsg a \<in> ms \<and> CurpMRecordAck_Ok a = ORDERED \<or> (\<exists>r. CurpMReplyMsg r \<in> ms \<and> a = ack_of r))}"

text \<open>Only replica \<open>l\<close> sends \<open>MReply\<close>, and it sends no \<open>MRecordAck\<close>.\<close>

definition one_leader :: "int \<Rightarrow> curp_msg set \<Rightarrow> bool" where
  "one_leader l ms \<longleftrightarrow> (\<forall>r. CurpMReplyMsg r \<in> ms \<longrightarrow> CurpMReply_Replica r = l) \<and>
     (\<forall>a. CurpMRecordAckMsg a \<in> ms \<longrightarrow> CurpMRecordAck_Replica a \<noteq> l)"

abbreviation all :: "'m \<Rightarrow> 'm option \<Rightarrow> bool" where
  "all \<equiv> \<lambda>_ _. True"

text \<open>Why command \<open>s\<close> may be answered: its reply is committed, or the leader and a quorum acknowledge it.\<close>

definition quorum_of :: "quorum \<Rightarrow> int \<Rightarrow> (int \<times> CurpMRecordAck) set \<Rightarrow> bool" where
  "quorum_of Q l acks \<longleftrightarrow> (\<exists>S. finite S \<and> l \<in> S \<and> Size Q \<le> int (card S) \<and> S \<subseteq> fst ` acks)"

definition answered :: "int \<Rightarrow> int \<Rightarrow> curp_msg set \<Rightarrow> int \<Rightarrow> bool" where
  "answered n l ms s \<longleftrightarrow>
     (\<exists>r. CurpMSyncReplyMsg r \<in> ms \<and> SeqNum (CurpMSyncReply_CmdId r) = s) \<or>
     (\<exists>cmdId. SeqNum cmdId = s \<and>
        (quorum_of (NewThreeQuartersOf n) l (acks_of ms cmdId) \<or> quorum_of (NewMajorityOf n) l (macks_of ms cmdId)))"

definition client_inv :: "int \<Rightarrow> int \<Rightarrow> curp_msg set \<Rightarrow> CurpClient \<Rightarrow> bool" where
  "client_inv n l ms c \<longleftrightarrow>
     cc_Q c = NewThreeQuartersOf n \<and> cc_M c = NewMajorityOf n \<and>
     (\<forall>cmdId s. cc_acks c cmdId = Some s \<longrightarrow> msgset_inv all l (acks_of ms cmdId) s \<and> ms_q s = NewThreeQuartersOf n) \<and>
     (\<forall>cmdId s. cc_macks c cmdId = Some s \<longrightarrow> msgset_inv all l (macks_of ms cmdId) s \<and> ms_q s = NewMajorityOf n) \<and>
     distinct (map fst (cc_replies c)) \<and> fst ` set (cc_replies c) = cc_delivered c \<and>
     (\<forall>s \<in> cc_delivered c. answered n l ms s)"

text \<open>A call of the handler with a message of the leader comes with a quorum that the leader is in.\<close>

lemma Add_quorum:
  assumes "msgset_inv all l hist s" "isL \<longleftrightarrow> r = l" "(r, m) \<in> hist"
    and "call (fst (Add all r isL m s)) = Some (Some lm, ms)"
  shows "(l, lm) \<in> hist \<and> quorum_of (ms_q s) l hist"
proof -
  from Add_leader_quorum [OF assms] obtain S where l: "(l, lm) \<in> hist"
    and S: "finite S" "l \<in> S" "Size (ms_q s) \<le> int (card S)" "\<forall>p \<in> S - {l}. \<exists>m'. (p, m') \<in> hist" by blast
  from S(4) l have "S \<subseteq> fst ` hist" by (metis Diff_iff fst_conv imageI singletonD subsetI)
  with l S(1-3) show ?thesis unfolding quorum_of_def by blast
qed

lemma handleAcks_inv:
  assumes "client_inv n l ms c" "\<And>m. fst x = Some m \<Longrightarrow> answered n l ms (SeqNum (CurpMRecordAck_CmdId m))"
  shows "client_inv n l ms (handleAcks x c)"
  using assms
  by (auto simp: client_inv_def handleAcks_def RegisterReply_def Let_def image_iff split: option.split)

lemma ms_q_New [simp]: "ms_q (NewMsgSet Q) = Q"
  by (simp add: NewMsgSet_def)

lemma Reinit_None: "ReinitMsgSet None Q = NewMsgSet Q"
  by (simp add: ReinitMsgSet_def)

lemma client_inv_new_acks:
  assumes "client_inv n l ms c"
  shows "client_inv n l ms (c\<lparr>cc_acks := (cc_acks c)(cmdId \<mapsto> NewMsgSet (cc_Q c))\<rparr>)"
  using assms msgset_inv_New [of all l "acks_of ms cmdId" "cc_Q c"] unfolding client_inv_def by simp

lemma client_inv_new_macks:
  assumes "client_inv n l ms c"
  shows "client_inv n l ms (c\<lparr>cc_macks := (cc_macks c)(cmdId \<mapsto> NewMsgSet (cc_M c))\<rparr>)"
  using assms msgset_inv_New [of all l "macks_of ms cmdId" "cc_M c"] unfolding client_inv_def by simp

lemma initMsgSets_inv:
  assumes "client_inv n l ms c"
  shows "client_inv n l ms (initMsgSets cmdId c)"
  using assms client_inv_new_acks [OF assms, of cmdId]
    client_inv_new_macks [OF assms, of cmdId] client_inv_new_macks [OF client_inv_new_acks [OF assms, of cmdId], of cmdId]
  by (cases "cc_acks c cmdId"; cases "cc_macks c cmdId") (simp_all add: initMsgSets_def Reinit_None)

lemma add_mack_inv:
  assumes inv: "client_inv n l ms c" and isL: "isL \<longleftrightarrow> CurpMRecordAck_Replica r = l"
    and r: "(CurpMRecordAck_Replica r, r) \<in> macks_of ms (CurpMRecordAck_CmdId r)"
  shows "client_inv n l ms (add_mack r isL c)"
proof (cases "cc_macks c (CurpMRecordAck_CmdId r)")
  case None
  then show ?thesis using inv by (simp add: add_mack_def)
next
  case (Some s)
  let ?A = "Add all (CurpMRecordAck_Replica r) isL r s" and ?id = "CurpMRecordAck_CmdId r"
  have s: "msgset_inv all l (macks_of ms ?id) s" "ms_q s = NewMajorityOf n"
    using inv Some by (simp_all add: client_inv_def)
  have hist: "insert (CurpMRecordAck_Replica r, r) (macks_of ms ?id) = macks_of ms ?id" using r by blast
  have "msgset_inv all l (macks_of ms ?id) (snd ?A)" using Add_inv [OF s(1) isL, of r] by (simp only: hist)
  then have inv: "client_inv n l ms (c\<lparr>cc_macks := (cc_macks c)(?id \<mapsto> snd ?A)\<rparr>)"
    using inv s(2) by (simp add: client_inv_def)
  have "answered n l ms (SeqNum (CurpMRecordAck_CmdId m))" if "call (fst ?A) = Some x" "fst x = Some m" for x m
  proof -
    have "call (fst ?A) = Some (Some m, snd x)" using that by (cases x) simp
    from Add_quorum [OF s(1) isL r this] s(2)
    have "(l, m) \<in> macks_of ms ?id" "quorum_of (NewMajorityOf n) l (macks_of ms ?id)" by simp_all
    then show ?thesis unfolding answered_def by (auto simp: macks_of_def)
  qed
  with inv show ?thesis
    by (auto simp: add_mack_def Some split_beta called_def Let_def intro!: handleAcks_inv split: option.split)
qed

lemma add_ack_inv:
  assumes inv: "client_inv n l ms c" and isL: "isL \<longleftrightarrow> CurpMRecordAck_Replica r = l"
    and r: "(CurpMRecordAck_Replica r, r) \<in> acks_of ms (CurpMRecordAck_CmdId r)"
  shows "client_inv n l ms (add_ack r isL c)"
proof (cases "cc_acks c (CurpMRecordAck_CmdId r)")
  case None
  then show ?thesis using inv by (simp add: add_ack_def)
next
  case (Some s)
  let ?A = "Add all (CurpMRecordAck_Replica r) isL r s" and ?id = "CurpMRecordAck_CmdId r"
  have s: "msgset_inv all l (acks_of ms ?id) s" "ms_q s = NewThreeQuartersOf n"
    using inv Some by (simp_all add: client_inv_def)
  have hist: "insert (CurpMRecordAck_Replica r, r) (acks_of ms ?id) = acks_of ms ?id" using r by blast
  have "msgset_inv all l (acks_of ms ?id) (snd ?A)" using Add_inv [OF s(1) isL, of r] by (simp only: hist)
  then have inv: "client_inv n l ms (c\<lparr>cc_acks := (cc_acks c)(?id \<mapsto> snd ?A)\<rparr>)"
    using inv s(2) by (simp add: client_inv_def)
  have "answered n l ms (SeqNum (CurpMRecordAck_CmdId m))" if "call (fst ?A) = Some x" "fst x = Some m" for x m
  proof -
    have "call (fst ?A) = Some (Some m, snd x)" using that by (cases x) simp
    from Add_quorum [OF s(1) isL r this] s(2)
    have "(l, m) \<in> acks_of ms ?id" "quorum_of (NewThreeQuartersOf n) l (acks_of ms ?id)" by simp_all
    then show ?thesis unfolding answered_def by (auto simp: acks_of_def)
  qed
  with inv show ?thesis
    by (auto simp: add_ack_def Some split_beta called_def Let_def intro!: handleAcks_inv split: option.split)
qed

lemma client_inv_fields [simp]:
  "client_inv n l ms (c\<lparr>cc_leader := x\<rparr>) = client_inv n l ms c"
  "client_inv n l ms (c\<lparr>cc_ballot := b\<rparr>) = client_inv n l ms c"
  "client_inv n l ms (c\<lparr>cc_val := v\<rparr>) = client_inv n l ms c"
  by (simp_all add: client_inv_def)

lemma see_ballot_inv: "see_ballot b c = Some c' \<Longrightarrow> client_inv n l ms c' = client_inv n l ms c"
  by (auto simp: see_ballot_def split: if_splits)

lemma see_ballot_delivered: "see_ballot b c = Some c' \<Longrightarrow> cc_delivered c' = cc_delivered c \<and> cc_replies c' = cc_replies c"
  by (auto simp: see_ballot_def split: if_splits)

lemma handleRecordAck_inv:
  assumes "client_inv n l ms c" "isL \<longleftrightarrow> CurpMRecordAck_Replica r = l"
    and "isL \<or> CurpMRecordAck_Ok r = ORDERED \<Longrightarrow> (CurpMRecordAck_Replica r, r) \<in> macks_of ms (CurpMRecordAck_CmdId r)"
    and "CurpMRecordAck_Ok r = TRUE \<Longrightarrow> (CurpMRecordAck_Replica r, r) \<in> acks_of ms (CurpMRecordAck_CmdId r)"
  shows "client_inv n l ms (handleRecordAck r isL c)"
  using assms
  by (auto simp: handleRecordAck_def Let_def see_ballot_inv split: option.split
      intro!: add_ack_inv add_mack_inv initMsgSets_inv)

lemma handleMsgs_inv:
  assumes "client_inv n l ms c" "m \<in> ms" "one_leader l ms"
  shows "client_inv n l ms (handleMsgs m c)"
proof (cases m)
  case (CurpMReplyMsg r)
  then have "CurpMReply_Replica r = l" using assms(2,3) by (simp add: one_leader_def)
  then show ?thesis
    using assms(1,2) CurpMReplyMsg
    by (auto simp: handleReply_def intro!: handleRecordAck_inv)
      (auto simp: ack_of_def acks_of_def macks_of_def)
next
  case (CurpMRecordAckMsg r)
  then have "CurpMRecordAck_Replica r \<noteq> l" using assms(2,3) by (simp add: one_leader_def)
  then show ?thesis
    using assms(1,2) CurpMRecordAckMsg by (auto intro!: handleRecordAck_inv simp: acks_of_def macks_of_def)
next
  case (CurpMSyncReplyMsg r)
  have "answered n l ms (SeqNum (CurpMSyncReply_CmdId r))"
    using assms(2) CurpMSyncReplyMsg by (auto simp: answered_def)
  moreover have "client_inv n l ms (handleSyncReply r c)"
  proof (cases "SeqNum (CurpMSyncReply_CmdId r) \<in> cc_delivered c \<or> see_ballot (CurpMSyncReply_Ballot r) c = None")
    case True
    then show ?thesis using assms(1) by (auto simp: handleSyncReply_def Let_def)
  next
    case False
    then obtain c' where c': "see_ballot (CurpMSyncReply_Ballot r) c = Some c'" by blast
    from assms(1) c' have "client_inv n l ms c'" by (simp add: see_ballot_inv)
    then show ?thesis
      using False c' see_ballot_delivered [OF c'] \<open>answered n l ms _\<close>
      by (auto simp: handleSyncReply_def Let_def RegisterReply_def client_inv_def image_iff)
  qed
  ultimately show ?thesis using CurpMSyncReplyMsg by simp
qed (use assms(1) in simp_all)

lemma client_run_inv:
  assumes "one_leader l (set ms)"
  shows "client_inv n l (set ms) (client_run n ms)"
proof -
  have "client_inv n l (set ms) (fold handleMsgs xs c)" if "client_inv n l (set ms) c" "set xs \<subseteq> set ms" for xs c
    using that by (induction xs arbitrary: c) (simp_all add: assms handleMsgs_inv)
  moreover have "client_inv n l (set ms) (NewCurpClient n)" by (simp add: client_inv_def NewCurpClient_def)
  ultimately show ?thesis by (simp add: client_run_def)
qed

section \<open>Properties\<close>

text \<open>
  C17: the client registers one reply per command, and only if a replica told it that the command is committed, or the
  leader and a quorum of distinct replicas, the leader among them, acknowledged it: three quarters of the replicas that know of no
  conflict, or a majority that has ordered it.
\<close>

theorem curp_client_answers_backed:
  assumes "one_leader l (set ms)"
  shows "distinct (map fst (cc_replies (client_run n ms))) \<and>
    fst ` set (cc_replies (client_run n ms)) \<subseteq> {s. answered n l (set ms) s}"
  using client_run_inv [OF assms, of n] by (auto simp: client_inv_def)

abbreviation curp_acks :: "curp_msg list" where
  "curp_acks \<equiv>
     map CurpMRecordAckMsg
       [\<lparr>CurpMRecordAck_Replica = 1, CurpMRecordAck_Ballot = 0, CurpMRecordAck_CmdId = CommandId 1 0, CurpMRecordAck_Ok = 1\<rparr>,
        \<lparr>CurpMRecordAck_Replica = 2, CurpMRecordAck_Ballot = 0, CurpMRecordAck_CmdId = CommandId 1 0, CurpMRecordAck_Ok = 1\<rparr>]"

abbreviation curp_reply :: "int \<Rightarrow> int \<Rightarrow> curp_msg" where
  "curp_reply b s \<equiv> CurpMReplyMsg \<lparr>CurpMReply_Replica = 0, CurpMReply_Ballot = b, CurpMReply_CmdId = CommandId 1 s,
     CurpMReply_Rep = [word_of_int s], CurpMReply_Ok = 1\<rparr>"

lemmas client_simps = client_run_def NewCurpClient_def handleReply_def handleRecordAck_def ack_of_def see_ballot_def
  initMsgSets_def add_mack_def add_ack_def called_def handleAcks_def RegisterReply_def Reinit_New NewMsgSet_def Add_def
  NewThreeQuartersOf_def NewMajorityOf_def go_div_def TRUE_def ORDERED_def

theorem curp_client_answers_backed_witness:
  "answered 3 0 (set (curp_reply 0 0 # curp_acks)) 0 \<and>
   cc_replies (client_run 3 (curp_reply 0 0 # curp_acks)) = [(0, [0])]"
proof
  show r: "cc_replies (client_run 3 (curp_reply 0 0 # curp_acks)) = [(0, [0])]"
    by (simp add: client_simps)
  show "answered 3 0 (set (curp_reply 0 0 # curp_acks)) 0"
    using curp_client_answers_backed [of 0 "curp_reply 0 0 # curp_acks" 3] unfolding r by (simp add: one_leader_def)
qed

text \<open>
  A run in which the client registers, for its command 0, the value the leader sent for command 1.
\<close>

theorem curp_client_wrong_value:
  "\<exists>ms. cc_replies (client_run 3 ms) = [(0, [1])] \<and>
     filter (\<lambda>m. case m of CurpMReplyMsg r \<Rightarrow> SeqNum (CurpMReply_CmdId r) = 0 | CurpMSyncReplyMsg r \<Rightarrow> True | _ \<Rightarrow> False) ms
     = [curp_reply 0 0]"
  by (rule exI [of _ "[curp_reply 0 0, curp_reply 0 1] @ curp_acks"]) (simp add: client_simps)

text \<open>Acknowledgements of an old ballot count for the reply of a new leader.\<close>

lemma curp_client_mixes_ballots: "cc_replies (client_run 3 (curp_acks @ [curp_reply 1 0])) = [(0, [0])]"
  by (simp add: client_simps)

end
