(* ===== verification/CurpRuns.thy ===== *)
theory CurpRuns
  imports CurpClient State
begin

text \<open>
  The CURP replicas together, and a run in which the leader forgets a dependency.
\<close>

section \<open>Batcher\<close>

definition batch :: "'st CurpReplica \<Rightarrow> 'st CurpReplica option" where
  "batch r =
     (if cr_accs r = [] \<and> cr_acks r = [] then None
      else Some (send ToAll (CurpMAAcksMsg \<lparr>CurpMAAcks_Acks = cr_acks r, CurpMAAcks_Accepts = cr_accs r\<rparr>)
                   (r\<lparr>cr_accs := [], cr_acks := []\<rparr>)))"

section \<open>The system\<close>

datatype curp_action =
    TakePropose int GPropose
  | TakeDeliver int nat
  | TakeMsg int int nat \<comment> \<open>from a replica, the position of the message among those it sent\<close>
  | RunTodo int
  | HandleDesc int int
  | Batch int

type_synonym 'st curp_system = "int \<Rightarrow> 'st curp_run"

definition of_run :: "'st curp_run \<Rightarrow> 'st CurpReplica" where
  "of_run x = (case x of Inl r \<Rightarrow> r | Inr r \<Rightarrow> r)"

definition addressed :: "int \<Rightarrow> int \<Rightarrow> curp_dest \<Rightarrow> bool" where
  "addressed q p d = (case d of ToAll \<Rightarrow> p \<noteq> q | ToReplica k \<Rightarrow> p = k | ToClient c \<Rightarrow> False)"

fun curp_step :: "'st treemap \<Rightarrow> 'st curp_system \<Rightarrow> curp_action \<Rightarrow> int \<times> ('st CurpReplica \<Rightarrow> 'st curp_run option)" where
  "curp_step T S (TakePropose p g) = (p, \<lambda>r. if cr_todo r = [] then Some (Inr (take_propose g r)) else None)"
| "curp_step T S (TakeDeliver p k) = (p, \<lambda>r. if cr_todo r = [] then map_option Inr (take_deliver k r) else None)"
| "curp_step T S (TakeMsg p q k) = (p, \<lambda>r.
     if cr_todo r = [] \<and> k < length (cr_sent (of_run (S q)))
     then (case cr_sent (of_run (S q)) ! k of (d, m) \<Rightarrow> if addressed q p d then Some (Inr (take_msg m r)) else None)
     else None)"
| "curp_step T S (RunTodo p) = (p, run_todo T)"
| "curp_step T S (HandleDesc p slot) = (p, handleDesc T slot)"
| "curp_step T S (Batch p) = (p, \<lambda>r. map_option Inr (batch r))"

definition curp_act :: "'st treemap \<Rightarrow> curp_action \<Rightarrow> 'st curp_system \<Rightarrow> 'st curp_system option" where
  "curp_act T a S =
     (let (p, f) = curp_step T S a
      in case S p of Inl r \<Rightarrow> None | Inr r \<Rightarrow> map_option (\<lambda>x. S(p := x)) (f r))"

fun curp_acts :: "'st treemap \<Rightarrow> curp_action list \<Rightarrow> 'st curp_system \<Rightarrow> 'st curp_system option" where
  "curp_acts T [] S = Some S"
| "curp_acts T (a # as) S = (case curp_act T a S of None \<Rightarrow> None | Some S \<Rightarrow> curp_acts T as S)"

definition NewCurpSystem :: "int \<Rightarrow> bool \<Rightarrow> int \<Rightarrow> bool \<Rightarrow> int option \<Rightarrow> 'st \<Rightarrow> 'st curp_system" where
  "NewCurpSystem n exec pl opt leader st p = Inr (NewCurpReplica p n exec pl opt leader st)"

declare run_job.simps [code]

section \<open>A dependency that is forgotten\<close>

definition curp_put :: "int \<Rightarrow> GPropose" where
  "curp_put n = \<lparr>Propose_CommandId = n, Propose_ClientId = 1, Propose_Command = \<lparr>Op = PUT, K = 7, V = [1]\<rparr>,
                 Propose_Timestamp = 0, GPropose_Proxy = True\<rparr>"

definition curp_forgets :: "curp_action list" where
  "curp_forgets = [TakePropose 0 (curp_put 0), RunTodo 0, TakeDeliver 0 0, RunTodo 0, HandleDesc 0 1,
     TakePropose 0 (curp_put 1), RunTodo 0, HandleDesc 0 1]"

definition replies_of :: "'st CurpReplica \<Rightarrow> (CommandId \<times> byte) list" where
  "replies_of r = concat (map (\<lambda>(d, m). case m of CurpMReplyMsg m \<Rightarrow> [(CurpMReply_CmdId m, CurpMReply_Ok m)] | _ \<Rightarrow> []) (cr_sent r))"

lemma curp_forgets_eval:
  "case curp_acts T curp_forgets (NewCurpSystem 3 True 1 False None st) of None \<Rightarrow> False
   | Some S \<Rightarrow> (case S 0 of Inl r \<Rightarrow> False
     | Inr r \<Rightarrow> replies_of r = [(CommandId 1 0, TRUE), (CommandId 1 1, TRUE), (CommandId 1 1, TRUE)] \<and> cr_committed r = {})"
  by code_simp


end
