(* ===== verification/SwiftDep.thy ===== *)
theory SwiftDep
  imports SwiftMsg
begin

text \<open>
  Dependencies of Swift (\<open>swift/defs.go\<close>): lists of command identifiers and their comparison, and the fast
  acknowledgements of a replica, whose dependency is \<open>nil\<close> (\<open>None\<close>) for a light slow acknowledgement.
\<close>

type_synonym dep = "CommandId list"

definition dep_list :: "dep option \<Rightarrow> dep" where
  "dep_list d = (case d of None \<Rightarrow> [] | Some d \<Rightarrow> d)"

definition dep_Contains :: "dep \<Rightarrow> CommandId \<Rightarrow> bool" where
  "dep_Contains d cmdId = list_ex (\<lambda>c. c = cmdId) d"

definition NilDepOfCmdId :: "CommandId \<Rightarrow> dep" where
  "NilDepOfCmdId cmdId = [cmdId]"

definition IsNilDepOfCmdId :: "CommandId \<Rightarrow> dep \<Rightarrow> bool" where
  "IsNilDepOfCmdId cmdId dep \<longleftrightarrow> length dep = 1 \<and> dep ! 0 = cmdId"

text \<open>
  The loop of \<open>Equals\<close> keeps the identifiers it has seen in one list and not in the other.
\<close>

fun diff_step :: "CommandId \<times> CommandId \<Rightarrow> CommandId set \<times> CommandId set \<Rightarrow> CommandId set \<times> CommandId set" where
  "diff_step (a, b) (seen1, seen2) =
     (if a = b then (seen1, seen2)
      else
        let (seen1, seen2) = (if a \<in> seen2 then (seen1, seen2 - {a}) else (insert a seen1, seen2))
        in if b \<in> seen1 then (seen1 - {b}, seen2) else (seen1, insert b seen2))"

definition dep_Equals :: "dep \<Rightarrow> dep \<Rightarrow> bool" where
  "dep_Equals dep1 dep2 =
     (if length dep1 \<noteq> length dep2 then False
      else let (seen1, seen2) = fold diff_step (zip dep1 dep2) ({}, {})
           in card seen1 = card seen2 \<and> card seen1 = 0)"

fun diff_left :: "CommandId option \<Rightarrow> CommandId set \<times> CommandId set \<Rightarrow> CommandId set \<times> CommandId set" where
  "diff_left None s = s"
| "diff_left (Some a) (seen1, seen2) = (if a \<in> seen2 then (seen1, seen2 - {a}) else (insert a seen1, seen2))"

fun diff_right :: "CommandId option \<Rightarrow> CommandId set \<times> CommandId set \<Rightarrow> CommandId set \<times> CommandId set" where
  "diff_right None s = s"
| "diff_right (Some b) (seen1, seen2) = (if b \<in> seen1 then (seen1 - {b}, seen2) else (seen1, insert b seen2))"

definition at :: "'a list \<Rightarrow> nat \<Rightarrow> 'a option" where
  "at xs i = (if i < length xs then Some (xs ! i) else None)"

definition EqualsAndDiff :: "dep \<Rightarrow> dep \<Rightarrow> bool \<times> CommandId set" where
  "EqualsAndDiff dep1 dep2 =
     (let (seen1, seen2) = fold (\<lambda>i s.
            if i < length dep1 \<and> i < length dep2 \<and> dep1 ! i = dep2 ! i then s
            else diff_right (at dep2 i) (diff_left (at dep1 i) s))
          [0..<max (length dep1) (length dep2)] ({}, {})
      in (length dep1 = length dep2 \<and> card seen1 = card seen2 \<and> card seen1 = 0, seen1))"

section \<open>Properties\<close>

text \<open>
  While the loop runs, what is seen on one side only accounts for the difference of the sets: \<open>xs\<close> and \<open>ys\<close> are the
  parts of the lists that the loop has passed.
\<close>

lemma diff_fold_sound:
  assumes "length xs = length ys"
  shows "finite (fst (fold diff_step (zip xs ys) ({}, {}))) \<and> finite (snd (fold diff_step (zip xs ys) ({}, {}))) \<and>
    set xs - set ys \<subseteq> fst (fold diff_step (zip xs ys) ({}, {})) \<and> fst (fold diff_step (zip xs ys) ({}, {})) \<subseteq> set xs \<and>
    set ys - set xs \<subseteq> snd (fold diff_step (zip xs ys) ({}, {})) \<and> snd (fold diff_step (zip xs ys) ({}, {})) \<subseteq> set ys"
  using assms
proof (induction xs ys rule: rev_induct2)
  case (4 a xs b ys)
  then have "length xs = length ys" by simp
  moreover obtain s1 s2 where s: "fold diff_step (zip xs ys) ({}, {}) = (s1, s2)" by fastforce
  ultimately show ?case using 4 by (auto simp: Let_def)
qed simp_all

text \<open>For lists without repetitions the two sets are the differences.\<close>

lemma diff_fold_exact:
  assumes "length xs = length ys" "distinct xs" "distinct ys"
  shows "fold diff_step (zip xs ys) ({}, {}) = (set xs - set ys, set ys - set xs)"
  using assms
proof (induction xs ys rule: rev_induct2)
  case (4 a xs b ys)
  then have "fold diff_step (zip xs ys) ({}, {}) = (set xs - set ys, set ys - set xs)" by simp
  with 4 show ?case by (auto simp: Let_def)
qed simp_all

text \<open>
  \<open>Equals\<close> only accepts lists with the same elements, and accepts all of them if no list repeats an element: two
  replicas that compare their dependencies compare the sets.
\<close>

theorem dep_Equals_sets:
  assumes "distinct d1" "distinct d2"
  shows "dep_Equals d1 d2 \<longleftrightarrow> set d1 = set d2"
proof (cases "length d1 = length d2")
  case True
  have "card (set d1) = card (set d2)" using True assms by (simp add: distinct_card)
  then have "set d1 \<subseteq> set d2 \<longleftrightarrow> set d1 = set d2" using card_subset_eq [of "set d2" "set d1"] by auto
  moreover have "card (set d1 - set d2) = card (set d2 - set d1) \<and> card (set d1 - set d2) = 0 \<longleftrightarrow> set d1 = set d2"
    using calculation by auto
  ultimately show ?thesis using True by (simp add: dep_Equals_def diff_fold_exact [OF True assms])
next
  case False
  with assms show ?thesis by (metis dep_Equals_def distinct_card)
qed

lemma dep_Equals_same_elements: "dep_Equals d1 d2 \<Longrightarrow> set d1 = set d2"
  using diff_fold_sound [of d1 d2] by (fastforce simp: dep_Equals_def split_beta split: if_splits)

theorem dep_Equals_sets_witness:
  "dep_Equals [CommandId 1 2, CommandId 3 4] [CommandId 3 4, CommandId 1 2] \<longleftrightarrow>
     set [CommandId 1 2, CommandId 3 4] = set [CommandId 3 4, CommandId 1 2]"
  by (rule dep_Equals_sets) simp_all

end
