(* ===== verification/Swift.thy ===== *)
theory Swift
  imports SwiftDep ClientMsg MsgSet KeyInfo HashLog QuorumSystem
begin

text \<open>
  Swift (\<open>swift/swift.go\<close>, \<open>swift/recovery.go\<close>, \<open>swift/replychan.go\<close>): every replica proposes the dependencies of a
  command, the conflicting commands it knows; the command is committed with the dependencies of the leader when a fast
  quorum has proposed the same ones or a majority has accepted those of the leader, and executed after the commands it
  depends on.

  A descriptor handles the messages of a command, in a goroutine of its own or, above \<open>MaxDescRoutines\<close> and at the
  leader, in the main loop (\<open>seq\<close>).  The goroutine of the reply channel answers the clients and gives every delivered
  command its place in the history.  Handlers are atomic steps.  A panic, or a wait that never ends, is \<open>halt\<close> of the
  state it was reached in; \<open>wait\<close> is a step that cannot be taken now.

  The pool of fast acknowledgements is not modelled (the messages are values), nor are the durations that are only
  printed, nor \<open>defered\<close>, which is only set to the empty function.  \<open>sha\<close> is the hash function of \<open>crypto/sha256\<close>, \<open>T\<close> the
  tree map of the store.
\<close>

section \<open>State\<close>

datatype swift_status = NORMAL | RECOVERING

definition START :: int where "START = 0"
definition PRE_ACCEPT :: int where "PRE_ACCEPT = 1"
definition ACCEPT :: int where "ACCEPT = 2"
definition COMMIT :: int where "COMMIT = 3"

definition HISTORY_SIZE :: int where
  "HISTORY_SIZE = 10010001"

definition MaxDescRoutines :: int where
  "MaxDescRoutines = 100"

definition MSGS_SIZE :: nat where
  "MSGS_SIZE = 8"

record SwiftGPropose = GPropose +
  GPropose_Addr :: string

record sw_ack =
  fa_Replica :: int
  fa_Ballot :: int
  fa_CmdId :: CommandId
  fa_Dep :: "dep option"
  fa_Checksum :: "SHash list"
  fa_Seqnum :: int

datatype swift_in = InPropose SwiftGPropose | InFastAck sw_ack | InLightSlowAck SwiftMLightSlowAck | InDeliver | InSlot int

text \<open>A function in \<open>afterPropagate\<close> handles a fast acknowledgement of the leader.\<close>

record swift_desc =
  sd_phase :: int
  sd_cmd :: command
  sd_dep :: "dep option"
  sd_hs :: "SHash list"
  sd_propose :: "SwiftGPropose option"
  sd_proposeDep :: "dep option"
  sd_slowPathH :: "sw_ack msgset option"
  sd_fastPathH :: "sw_ack msgset option"
  sd_afterPropagate :: "sw_ack list"
  sd_msgs :: "swift_in list"
  sd_active :: bool
  sd_slowPath :: bool
  sd_seq :: bool
  sd_successors :: "CommandId list"

record swift_static =
  ss_cmdId :: CommandId
  ss_phase :: int
  ss_cmd :: command
  ss_dep :: "dep option"
  ss_slowPath :: bool

record reply_args =
  ra_dep :: dep
  ra_hs :: "SHash list"
  ra_val :: "value"
  ra_cmdId :: CommandId
  ra_propose :: SwiftGPropose

text \<open>
  What \<open>fillNewLeaderAckN\<close> collects, and \<open>MSync\<close>, which is sent with \<open>encoding/gob\<close>.
\<close>

record swift_ackN =
  an_Replica :: int
  an_Ballot :: int
  an_Cballot :: int
  an_CmdIds :: "CommandId list"
  an_Phases :: "int list"
  an_Cmds :: "command list"
  an_Deps :: "dep option list"

record swift_sync =
  sy_Replica :: int
  sy_Ballot :: int
  sy_Phases :: "(CommandId \<times> int) list"
  sy_Cmds :: "(CommandId \<times> command) list"
  sy_Deps :: "(CommandId \<times> dep option) list"

datatype swift_dest = ToAll | ToReplica int | ToClient int

text \<open>
  What is left of the message the main loop is at: a message for a descriptor, a fast acknowledgement, a proposal.
\<close>

datatype swift_todo = Give CommandId swift_in | GiveAck sw_ack | Proposal SwiftGPropose

text \<open>
  \<open>cmdDescs\<close> and \<open>proposes\<close>, over which the code iterates, are association lists; Go fixes no order.  \<open>deliverChan\<close> holds the
  goroutines that are about to send to it, each with the values it may read from its variable.  \<open>reproposed\<close> are the
  proposals that goroutines send to \<open>ProposeChan\<close> again.
\<close>

record 'st SwiftReplica =
  sr_Id :: int
  sr_N :: int
  sr_Exec :: bool
  sr_Dreply :: bool
  sr_ballot :: int
  sr_cballot :: int
  sr_status :: swift_status
  sr_cmdDescs :: "(CommandId \<times> swift_desc) list"
  sr_delivered :: "CommandId set"
  sr_fastAcks :: "(sw_ack \<times> bool) list"
  sr_lightSlowAcks :: "(SwiftMLightSlowAck \<times> bool) list"
  sr_repRunning :: bool
  sr_repArgs :: "reply_args list"
  sr_keys :: "key \<Rightarrow> lightKeyInfo option"
  sr_hlog :: "key \<Rightarrow> HashLog option"
  sr_seqnum :: int
  sr_pendingHashUpds :: "CommandId \<Rightarrow> UpdateEntry option"
  sr_history :: "int \<Rightarrow> swift_static"
  sr_historySize :: int
  sr_qs :: quorum_system
  sr_SQ :: quorum
  sr_FQ :: quorum
  sr_fixedMajority :: bool
  sr_optExec :: bool
  sr_fastRead :: bool
  sr_deliverChan :: "CommandId list list"
  sr_descPool :: "swift_desc list"
  sr_poolLevel :: int
  sr_routineCount :: int
  sr_recover :: "int list"
  sr_newLeaderAckNs :: "swift_ackN msgset option"
  sr_proposes :: "(CommandId \<times> SwiftGPropose) list"
  sr_reproposed :: "SwiftGPropose list"
  sr_slowAddrs :: "string set"
  sr_Alive :: "int set"
  sr_todo :: "swift_todo list"
  sr_State :: 'st
  sr_sent :: "(swift_dest \<times> swift_sync swift_msg) list"

type_synonym ('st, 'a) swift_res = "'st SwiftReplica option + 'a"
type_synonym 'st swift_handled = "('st, swift_desc \<times> 'st SwiftReplica) swift_res"

definition halt :: "'st SwiftReplica \<Rightarrow> ('st, 'a) swift_res" where
  "halt r = Inl (Some r)"

definition wait :: "('st, 'a) swift_res" where
  "wait = Inl None"

definition and_then :: "'e + 'a \<Rightarrow> ('a \<Rightarrow> 'e + 'b) \<Rightarrow> 'e + 'b" where
  "and_then x f = (case x of Inl e \<Rightarrow> Inl e | Inr y \<Rightarrow> f y)"

definition send :: "swift_dest \<Rightarrow> swift_sync swift_msg \<Rightarrow> 'st SwiftReplica \<Rightarrow> 'st SwiftReplica" where
  "send to m r = r\<lparr>sr_sent := sr_sent r @ [(to, m)]\<rparr>"

definition leader :: "'st SwiftReplica \<Rightarrow> int" where
  "leader r = Leader (sr_ballot r) (sr_N r)"

definition isLeader :: "'st SwiftReplica \<Rightarrow> bool" where
  "isLeader r \<longleftrightarrow> leader r = sr_Id r"

definition zero_static :: swift_static where
  "zero_static = \<lparr>ss_cmdId = zero_CommandId, ss_phase = 0, ss_cmd = zero_command, ss_dep = None, ss_slowPath = False\<rparr>"

text \<open>
  \<open>New\<close>, with the quorum system that was read and whether the file asked for three quarters; \<open>None\<close> is a panic of \<open>AQ\<close>.
\<close>

definition NewSwiftReplica ::
  "int \<Rightarrow> int \<Rightarrow> bool \<Rightarrow> bool \<Rightarrow> bool \<Rightarrow> int \<Rightarrow> quorum_system \<Rightarrow> bool \<Rightarrow> string set \<Rightarrow> 'st \<Rightarrow> 'st SwiftReplica option" where
  "NewSwiftReplica rid n exec fastRead optExec pl qs three_quarters slowAddrs st =
     (let ballot = (if BallotAt qs 0 = -1 then 0 else BallotAt qs 0);
          FQ = (if three_quarters then Some (NewThreeQuartersOf n) else map_option Quorum (AQ (sys_qs qs) ballot))
      in map_option (\<lambda>FQ.
       \<lparr>sr_Id = rid, sr_N = n, sr_Exec = exec, sr_Dreply = True, sr_ballot = ballot, sr_cballot = ballot,
        sr_status = NORMAL, sr_cmdDescs = [], sr_delivered = {}, sr_fastAcks = [], sr_lightSlowAcks = [],
        sr_repRunning = True, sr_repArgs = [], sr_keys = Map.empty, sr_hlog = Map.empty, sr_seqnum = 0,
        sr_pendingHashUpds = Map.empty, sr_history = (\<lambda>_. zero_static), sr_historySize = 0, sr_qs = qs,
        sr_SQ = NewMajorityOf n, sr_FQ = FQ, sr_fixedMajority = (\<not> three_quarters), sr_optExec = optExec,
        sr_fastRead = fastRead, sr_deliverChan = [], sr_descPool = [], sr_poolLevel = pl, sr_routineCount = 0,
        sr_recover = [], sr_newLeaderAckNs = None, sr_proposes = [], sr_reproposed = [], sr_slowAddrs = slowAddrs,
        sr_Alive = {0..<n} - {rid}, sr_todo = [], sr_State = st, sr_sent = []\<rparr>) FQ)"

section \<open>Messages\<close>

definition ack_of_wire :: "SwiftMFastAck \<Rightarrow> sw_ack" where
  "ack_of_wire m = \<lparr>fa_Replica = SwiftMFastAck_Replica m, fa_Ballot = SwiftMFastAck_Ballot m,
     fa_CmdId = SwiftMFastAck_CmdId m, fa_Dep = Some (SwiftMFastAck_Dep m),
     fa_Checksum = SwiftMFastAck_Checksum m, fa_Seqnum = SwiftMFastAck_Seqnum m\<rparr>"

definition ack_of_opt :: "SwiftMOptAcks \<Rightarrow> SwiftAck \<Rightarrow> sw_ack" where
  "ack_of_opt m a = \<lparr>fa_Replica = SwiftMOptAcks_Replica m, fa_Ballot = SwiftMOptAcks_Ballot m,
     fa_CmdId = SwiftAck_CmdId a,
     fa_Dep = (if \<not> IsNilDepOfCmdId (SwiftAck_CmdId a) (SwiftAck_Dep a) then Some (SwiftAck_Dep a) else None),
     fa_Checksum = SwiftAck_Checksum a, fa_Seqnum = SwiftAck_Seqnum a\<rparr>"

definition wire_ackN :: "swift_ackN \<Rightarrow> SwiftMNewLeaderAckN" where
  "wire_ackN m = \<lparr>SwiftMNewLeaderAckN_Replica = an_Replica m, SwiftMNewLeaderAckN_Ballot = an_Ballot m,
     SwiftMNewLeaderAckN_Cballot = an_Cballot m, SwiftMNewLeaderAckN_CmdIds = an_CmdIds m,
     SwiftMNewLeaderAckN_Phases = an_Phases m, SwiftMNewLeaderAckN_Cmds = an_Cmds m,
     SwiftMNewLeaderAckN_Deps = map (\<lambda>d. \<lparr>SwiftSDep_Dep = dep_list d\<rparr>) (an_Deps m)\<rparr>"

definition ackN_of_wire :: "SwiftMNewLeaderAckN \<Rightarrow> swift_ackN" where
  "ackN_of_wire m = \<lparr>an_Replica = SwiftMNewLeaderAckN_Replica m, an_Ballot = SwiftMNewLeaderAckN_Ballot m,
     an_Cballot = SwiftMNewLeaderAckN_Cballot m, an_CmdIds = SwiftMNewLeaderAckN_CmdIds m,
     an_Phases = SwiftMNewLeaderAckN_Phases m, an_Cmds = SwiftMNewLeaderAckN_Cmds m,
     an_Deps = map (\<lambda>d. Some (SwiftSDep_Dep d)) (SwiftMNewLeaderAckN_Deps m)\<rparr>"

text \<open>\<open>encoding/gob\<close> decodes an empty slice as \<open>nil\<close>.\<close>

definition gob_sync :: "swift_sync \<Rightarrow> swift_sync" where
  "gob_sync m = m\<lparr>sy_Deps := map (\<lambda>(c, d). (c, if d = Some [] then None else d)) (sy_Deps m)\<rparr>"

section \<open>Dependencies and hashes\<close>

text \<open>\<open>None\<close> is a panic of \<open>keysOf\<close> or of the hash log.\<close>

definition getDepAndHashes ::
  "(bytes \<Rightarrow> bytes) \<Rightarrow> command \<Rightarrow> CommandId \<Rightarrow> 'st SwiftReplica \<Rightarrow> ((dep \<times> SHash list) \<times> 'st SwiftReplica) option" where
  "getDepAndHashes sha cmd cmdId r =
     (case keysOf cmd of
        None \<Rightarrow> None
      | Some keysOfCmd \<Rightarrow>
          fold (\<lambda>key acc. case acc of
              None \<Rightarrow> None
            | Some ((dep, hashes), r) \<Rightarrow>
                let (dep, info) = (case sr_keys r key of
                      Some info \<Rightarrow> (dep @ light_getConflictCmds cmd info, info)
                    | None \<Rightarrow> (dep, newLightKeyInfo));
                    r = r\<lparr>sr_keys := (sr_keys r)(key \<mapsto> light_add cmd cmdId info)\<rparr>;
                    l = (case sr_hlog r key of Some l \<Rightarrow> l | None \<Rightarrow> NewHashLog)
                in (case Append sha cmdId l of
                      None \<Rightarrow> None
                    | Some (h, l) \<Rightarrow> Some ((dep, hashes @ [h]), r\<lparr>sr_hlog := (sr_hlog r)(key \<mapsto> l)\<rparr>)))
            keysOfCmd (Some (([], []), r)))"

definition updateLogs ::
  "(bytes \<Rightarrow> bytes) \<Rightarrow> command \<Rightarrow> CommandId \<Rightarrow> int \<Rightarrow> SHash list \<Rightarrow> 'st SwiftReplica \<Rightarrow> 'st SwiftReplica option" where
  "updateLogs sha cmd cmdId s hs r =
     (case keysOf cmd of
        None \<Rightarrow> None
      | Some keys \<Rightarrow>
          if length keys \<noteq> length hs then None
          else fold (\<lambda>(key, h) acc. case acc of
              None \<Rightarrow> None
            | Some r \<Rightarrow>
                map_option (\<lambda>l. r\<lparr>sr_hlog := (sr_hlog r)(key \<mapsto> l)\<rparr>)
                  (Update sha cmdId s h (case sr_hlog r key of Some l \<Rightarrow> l | None \<Rightarrow> NewHashLog)))
            (zip keys hs) (Some r))"

definition recordLeaderHash ::
  "(bytes \<Rightarrow> bytes) \<Rightarrow> CommandId \<Rightarrow> int \<Rightarrow> SHash list \<Rightarrow> 'st SwiftReplica \<Rightarrow> 'st SwiftReplica option" where
  "recordLeaderHash sha cmdId s hs r =
     (case map_of (sr_proposes r) cmdId of
        None \<Rightarrow> Some (r\<lparr>sr_pendingHashUpds := (sr_pendingHashUpds r)(cmdId \<mapsto> \<lparr>upd_hash = hs, upd_seqnum = s\<rparr>)\<rparr>)
      | Some p \<Rightarrow> updateLogs sha (Propose_Command p) cmdId s hs r)"

section \<open>Descriptors\<close>

definition zero_desc :: swift_desc where
  "zero_desc = \<lparr>sd_phase = 0, sd_cmd = zero_command, sd_dep = None, sd_hs = [], sd_propose = None,
     sd_proposeDep = None, sd_slowPathH = None, sd_fastPathH = None, sd_afterPropagate = [], sd_msgs = [],
     sd_active = False, sd_slowPath = False, sd_seq = False, sd_successors = []\<rparr>"

definition allocDesc :: "'st SwiftReplica \<Rightarrow> swift_desc \<times> 'st SwiftReplica" where
  "allocDesc r =
     (if sr_poolLevel r > 0 then
        (case sr_descPool r of [] \<Rightarrow> (zero_desc, r) | d # ds \<Rightarrow> (d, r\<lparr>sr_descPool := ds\<rparr>))
      else (zero_desc, r))"

definition freeDesc :: "swift_desc \<Rightarrow> 'st SwiftReplica \<Rightarrow> 'st SwiftReplica" where
  "freeDesc d r = (if sr_poolLevel r > 0 then r\<lparr>sr_descPool := d # sr_descPool r\<rparr> else r)"

definition newDesc :: "'st SwiftReplica \<Rightarrow> swift_desc \<times> 'st SwiftReplica" where
  "newDesc r =
     (let (d, r) = allocDesc r
      in (d\<lparr>sd_dep := None, sd_hs := [], sd_msgs := [], sd_active := True, sd_phase := START, sd_successors := [],
            sd_slowPath := False, sd_seq := sr_routineCount r \<ge> MaxDescRoutines, sd_propose := None,
            sd_proposeDep := None, sd_afterPropagate := [],
            sd_slowPathH := Some (ReinitMsgSet (sd_slowPathH d) (sr_SQ r)),
            sd_fastPathH := Some (ReinitMsgSet (sd_fastPathH d) (sr_FQ r))\<rparr>, r))"

text \<open>The function that decides which acknowledgements may be counted with that of the leader.\<close>

definition acceptFastAndSlowAck :: "sw_ack \<Rightarrow> sw_ack option \<Rightarrow> bool" where
  "acceptFastAndSlowAck msg leaderMsg =
     (case leaderMsg of None \<Rightarrow> True
      | Some l \<Rightarrow> fa_Dep msg = None \<or> dep_Equals (dep_list (fa_Dep l)) (dep_list (fa_Dep msg)))"

definition put_desc :: "CommandId \<Rightarrow> swift_desc \<Rightarrow> 'st SwiftReplica \<Rightarrow> 'st SwiftReplica" where
  "put_desc cmdId d r = r\<lparr>sr_cmdDescs := AList.update cmdId d (sr_cmdDescs r)\<rparr>"

definition set_proposeDep :: "dep option \<Rightarrow> SHash list option \<Rightarrow> swift_desc \<Rightarrow> swift_desc" where
  "set_proposeDep dep hs d =
     (if dep \<noteq> None \<and> sd_proposeDep d = None
      then d\<lparr>sd_proposeDep := dep, sd_hs := (case hs of None \<Rightarrow> sd_hs d | Some hs \<Rightarrow> hs)\<rparr> else d)"

text \<open>The part of \<open>getCmdDescSeq\<close> that finds or makes the descriptor; \<open>None\<close> for a command that was delivered.\<close>

definition find_desc ::
  "CommandId \<Rightarrow> dep option \<Rightarrow> SHash list option \<Rightarrow> bool \<Rightarrow> 'st SwiftReplica \<Rightarrow> (swift_desc \<times> 'st SwiftReplica) option" where
  "find_desc cmdId dep hs seq r =
     (if cmdId \<in> sr_delivered r then None
      else case map_of (sr_cmdDescs r) cmdId of
        Some d \<Rightarrow> let d = set_proposeDep dep hs d in Some (d, put_desc cmdId d r)
      | None \<Rightarrow>
          let (d, r) = newDesc r;
              d = d\<lparr>sd_seq := seq \<or> sd_seq d\<rparr>;
              r = (if \<not> sd_seq d then r\<lparr>sr_routineCount := sr_routineCount r + 1\<rparr> else r);
              d = set_proposeDep dep hs d
          in Some (d, put_desc cmdId d r))"

definition add_successor :: "CommandId \<Rightarrow> CommandId \<Rightarrow> 'st SwiftReplica \<Rightarrow> 'st SwiftReplica" where
  "add_successor cmdId depCmdId r =
     (case find_desc depCmdId None None False r of
        None \<Rightarrow> r
      | Some (d, r) \<Rightarrow> put_desc depCmdId (d\<lparr>sd_successors := sd_successors d @ [cmdId]\<rparr>) r)"

section \<open>Replies\<close>

text \<open>The goroutine of the reply channel: the reply for a command, and its place in the history.\<close>

definition reply_send :: "reply_args \<Rightarrow> 'st SwiftReplica \<Rightarrow> int \<times> 'st SwiftReplica" where
  "reply_send a r =
     (let r = (if GPropose_Proxy (ra_propose a) \<and> \<not> sr_optExec r then
                 send (ToClient (Propose_ClientId (ra_propose a))) (SwiftMAcceptMsg
                   \<lparr>SwiftMAccept_Replica = sr_Id r, SwiftMAccept_Ballot = sr_ballot r,
                    SwiftMAccept_CmdId = ra_cmdId a, SwiftMAccept_Rep = ra_val a\<rparr>) r
               else if sr_optExec r \<and> isLeader r then
                 send (ToClient (Propose_ClientId (ra_propose a))) (SwiftMReplyMsg
                   \<lparr>SwiftMReply_Replica = sr_Id r, SwiftMReply_Ballot = sr_ballot r,
                    SwiftMReply_CmdId = ra_cmdId a, SwiftMReply_Checksum = ra_hs a, SwiftMReply_Rep = ra_val a\<rparr>) r
               else r);
          size = sr_historySize r mod HISTORY_SIZE + 1
      in (size - 1, r\<lparr>sr_historySize := size\<rparr>))"

text \<open>\<open>None\<close> as long as the channel of the descriptor is full.\<close>

definition reply_one :: "reply_args \<Rightarrow> 'st SwiftReplica \<Rightarrow> 'st SwiftReplica option" where
  "reply_one a r =
     (let (slot, r) = reply_send a r
      in case map_of (sr_cmdDescs r) (ra_cmdId a) of
           None \<Rightarrow> Some r
         | Some d \<Rightarrow>
             if length (sd_msgs d) < MSGS_SIZE
             then Some (put_desc (ra_cmdId a) (d\<lparr>sd_msgs := sd_msgs d @ [InSlot slot]\<rparr>) r) else None)"

definition run_reply :: "'st SwiftReplica \<Rightarrow> 'st SwiftReplica option" where
  "run_reply r =
     (if \<not> sr_repRunning r then None
      else case sr_repArgs r of [] \<Rightarrow> None | a # as \<Rightarrow> reply_one a (r\<lparr>sr_repArgs := as\<rparr>))"

fun reply_all :: "reply_args list \<Rightarrow> 'st SwiftReplica \<Rightarrow> 'st SwiftReplica option" where
  "reply_all [] r = Some r"
| "reply_all (a # as) r = (case reply_one a r of None \<Rightarrow> None | Some r \<Rightarrow> reply_all as r)"

text \<open>\<open>handleMsg\<close> of a place in the history: the descriptor is done.\<close>

definition handleSlot :: "int \<Rightarrow> CommandId \<Rightarrow> swift_desc \<times> 'st SwiftReplica \<Rightarrow> swift_desc \<times> 'st SwiftReplica" where
  "handleSlot h cmdId = (\<lambda>(d, r).
     (d\<lparr>sd_active := False\<rparr>,
      r\<lparr>sr_history := (sr_history r)(h := \<lparr>ss_cmdId = cmdId, ss_phase = sd_phase d, ss_cmd = sd_cmd d, ss_dep = sd_dep d,
          ss_slowPath = sd_slowPath d\<rparr>)\<rparr>))"

text \<open>
  \<open>replyChan.reply\<close> and, in the main loop, the wait for the place: the replies before it are sent first.
\<close>

definition reply :: "CommandId \<Rightarrow> value \<Rightarrow> SwiftGPropose \<Rightarrow> swift_desc \<times> 'st SwiftReplica \<Rightarrow> 'st swift_handled" where
  "reply cmdId v p = (\<lambda>(d, r).
     let a = \<lparr>ra_dep = dep_list (sd_dep d), ra_hs = sd_hs d, ra_val = v, ra_cmdId = cmdId, ra_propose = p\<rparr>
     in if \<not> sd_seq d then Inr (d, r\<lparr>sr_repArgs := sr_repArgs r @ [a]\<rparr>)
        else if \<not> sr_repRunning r then halt r
        else case reply_all (sr_repArgs r) (r\<lparr>sr_repArgs := []\<rparr>) of
          None \<Rightarrow> wait
        | Some r \<Rightarrow> let (slot, r) = reply_send a r in Inr (handleSlot slot cmdId (d, r)))"

section \<open>Handlers\<close>

definition deliver :: "'st treemap \<Rightarrow> CommandId \<Rightarrow> swift_desc \<times> 'st SwiftReplica \<Rightarrow> 'st swift_handled" where
  "deliver T cmdId = (\<lambda>(d, r).
     case sd_propose d of None \<Rightarrow> Inr (d, r)
     | Some p \<Rightarrow>
         if cmdId \<in> sr_delivered r \<or> \<not> sr_Exec r then Inr (d, r)
         else if sd_phase d \<noteq> COMMIT \<and> (\<not> sr_optExec r \<or> \<not> isLeader r) then Inr (d, r)
         else if list_ex (\<lambda>c. c \<notin> sr_delivered r) (dep_list (sd_dep d)) then Inr (d, r)
         else
           case Execute T (sd_cmd d) (sr_State r) of
             None \<Rightarrow> halt (r\<lparr>sr_delivered := insert cmdId (sr_delivered r)\<rparr>)
           | Some (v, st) \<Rightarrow>
               let r = r\<lparr>sr_delivered := insert cmdId (sr_delivered r), sr_State := st,
                         sr_deliverChan := sr_deliverChan r @ map (\<lambda>c. [c]) (sd_successors d)\<rparr>
               in if \<not> sr_Dreply r then Inr (d, r) else reply cmdId v p (d, r))"

text \<open>The handler of the two message sets.\<close>

definition getFastAndSlowAcksHandler ::
  "'st treemap \<Rightarrow> CommandId \<Rightarrow> sw_ack option \<times> sw_ack list \<Rightarrow> swift_desc \<times> 'st SwiftReplica \<Rightarrow> 'st swift_handled" where
  "getFastAndSlowAcksHandler T cmdId acks x =
     (case fst acks of
        None \<Rightarrow> Inr x
      | Some l \<Rightarrow>
          let x = fold (\<lambda>depCmdId (d, r).
                if depCmdId = cmdId
                then (if cmdId \<in> sr_delivered r then (d, r)
                      else (d\<lparr>sd_successors := sd_successors d @ [fa_CmdId l]\<rparr>, r))
                else (d, add_successor (fa_CmdId l) depCmdId r))
              (dep_list (sd_dep (fst x))) ((fst x)\<lparr>sd_phase := COMMIT\<rparr>, snd x)
          in deliver T (fa_CmdId l) x)"

text \<open>\<open>Add\<close> to one of the sets of the descriptor, with the call of the handler it makes.\<close>

definition add_slow :: "'st treemap \<Rightarrow> CommandId \<Rightarrow> bool \<Rightarrow> sw_ack \<Rightarrow> swift_desc \<times> 'st SwiftReplica \<Rightarrow> 'st swift_handled" where
  "add_slow T cmdId isL m = (\<lambda>(d, r).
     case sd_slowPathH d of None \<Rightarrow> halt r
     | Some ms \<Rightarrow>
         let (res, ms) = Add acceptFastAndSlowAck (fa_Replica m) isL m ms; d = d\<lparr>sd_slowPathH := Some ms\<rparr>
         in case call res of None \<Rightarrow> Inr (d, r) | Some c \<Rightarrow> getFastAndSlowAcksHandler T cmdId c (d, r))"

definition add_fast :: "'st treemap \<Rightarrow> CommandId \<Rightarrow> bool \<Rightarrow> sw_ack \<Rightarrow> swift_desc \<times> 'st SwiftReplica \<Rightarrow> 'st swift_handled" where
  "add_fast T cmdId isL m = (\<lambda>(d, r).
     case sd_fastPathH d of None \<Rightarrow> halt r
     | Some ms \<Rightarrow>
         let (res, ms) = Add acceptFastAndSlowAck (fa_Replica m) isL m ms; d = d\<lparr>sd_fastPathH := Some ms\<rparr>
         in case call res of None \<Rightarrow> Inr (d, r) | Some c \<Rightarrow> getFastAndSlowAcksHandler T cmdId c (d, r))"

definition commonCaseFastAck ::
  "'st treemap \<Rightarrow> CommandId \<Rightarrow> sw_ack \<Rightarrow> swift_desc \<times> 'st SwiftReplica \<Rightarrow> 'st swift_handled" where
  "commonCaseFastAck T cmdId m x =
     (if sr_status (snd x) \<noteq> NORMAL \<or> sr_ballot (snd x) \<noteq> fa_Ballot m then Inr x
      else if fa_Dep m = None then
        and_then (add_slow T cmdId (fa_Replica m = leader (snd x)) m x) (\<lambda>x.
          if fa_CmdId m \<in> sr_delivered (snd x) then Inr x
          else add_fast T cmdId (fa_Replica m = leader (snd x)) m x)
      else add_fast T cmdId (fa_Replica m = leader (snd x)) m x)"

definition handleLightSlowAck ::
  "'st treemap \<Rightarrow> CommandId \<Rightarrow> SwiftMLightSlowAck \<Rightarrow> swift_desc \<times> 'st SwiftReplica \<Rightarrow> 'st swift_handled" where
  "handleLightSlowAck T cmdId m x =
     commonCaseFastAck T cmdId
       \<lparr>fa_Replica = SwiftMLightSlowAck_Replica m, fa_Ballot = SwiftMLightSlowAck_Ballot m,
        fa_CmdId = SwiftMLightSlowAck_CmdId m, fa_Dep = None, fa_Checksum = [], fa_Seqnum = 0\<rparr> x"

definition SendFastAck :: "bool \<Rightarrow> sw_ack \<Rightarrow> 'st SwiftReplica \<Rightarrow> 'st SwiftReplica" where
  "SendFastAck toClient m r = r\<lparr>sr_fastAcks := sr_fastAcks r @ [(m, toClient)]\<rparr>"

definition SendLightSlowAck :: "bool \<Rightarrow> SwiftMLightSlowAck \<Rightarrow> 'st SwiftReplica \<Rightarrow> 'st SwiftReplica" where
  "SendLightSlowAck toClient m r = r\<lparr>sr_lightSlowAcks := sr_lightSlowAcks r @ [(m, toClient)]\<rparr>"

definition lightSlowAck :: "CommandId \<Rightarrow> 'st SwiftReplica \<Rightarrow> SwiftMLightSlowAck" where
  "lightSlowAck cmdId r =
     \<lparr>SwiftMLightSlowAck_Replica = sr_Id r, SwiftMLightSlowAck_Ballot = sr_ballot r, SwiftMLightSlowAck_CmdId = cmdId\<rparr>"

text \<open>The function that waits in \<open>afterPropagate\<close>, with the function it defers.\<close>

definition accept_leader_ack :: "'st treemap \<Rightarrow> CommandId \<Rightarrow> sw_ack \<Rightarrow> swift_desc \<times> 'st SwiftReplica \<Rightarrow> 'st swift_handled" where
  "accept_leader_ack T cmdId m x =
     (if sr_status (snd x) \<noteq> NORMAL \<or> sr_ballot (snd x) \<noteq> fa_Ballot m then Inr x
      else
        let d = (fst x)\<lparr>sd_phase := ACCEPT\<rparr>; r = snd x; dep = fa_Dep m; hs = sd_hs d;
            neq = (\<not> dep_Equals (dep_list (sd_dep d)) (dep_list dep));
            fast = Contains (sr_FQ r) (sr_Id r); slow = Contains (sr_SQ r) (sr_Id r);
            sendSlowAck = (\<not> isLeader r \<and> (slow \<or> fast \<and> neq))
        in and_then (add_slow T cmdId True m (d, r)) (\<lambda>x.
           and_then (if fa_CmdId m \<in> sr_delivered (snd x) then Inr x else add_fast T cmdId True m x) (\<lambda>x.
             let delivered = (fa_CmdId m \<in> sr_delivered (snd x))
             in and_then
                  (if sendSlowAck then
                     let d = (if neq \<and> \<not> delivered then (fst x)\<lparr>sd_dep := dep\<rparr> else fst x)\<lparr>sd_slowPath := True\<rparr>;
                         ls = lightSlowAck (fa_CmdId m) (snd x);
                         r = SendLightSlowAck (sr_optExec (snd x)) ls (snd x)
                     in if \<not> delivered then handleLightSlowAck T cmdId ls (d, r) else Inr (d, r)
                   else Inr x)
                  (\<lambda>x. if isLeader (snd x) \<or> fa_CmdId m \<in> sr_delivered (snd x) then Inr x
                       else if \<not> sendSlowAck \<and> sr_optExec (snd x) \<and> \<not> SHashesEq hs (fa_Checksum m)
                       then Inr (fst x, send (ToClient (ClientId (fa_CmdId m)))
                              (SwiftMLightSlowAckMsg (lightSlowAck (fa_CmdId m) (snd x))) (snd x))
                       else Inr x))))"

text \<open>\<open>Call\<close> and \<open>Recall\<close> of \<open>afterPropagate\<close>, which waits for the proposal; the functions never call it again.\<close>

fun run_waiting :: "'st treemap \<Rightarrow> CommandId \<Rightarrow> sw_ack list \<Rightarrow> swift_desc \<times> 'st SwiftReplica \<Rightarrow> 'st swift_handled" where
  "run_waiting T cmdId [] x = Inr x"
| "run_waiting T cmdId (m # ms) x = and_then (accept_leader_ack T cmdId m x) (run_waiting T cmdId ms)"

definition fastAckFromLeader ::
  "'st treemap \<Rightarrow> CommandId \<Rightarrow> sw_ack \<Rightarrow> swift_desc \<times> 'st SwiftReplica \<Rightarrow> 'st swift_handled" where
  "fastAckFromLeader T cmdId m x =
     (if sd_propose (fst x) \<noteq> None
      then and_then (run_waiting T cmdId (sd_afterPropagate (fst x) @ [m]) x)
             (\<lambda>x. Inr ((fst x)\<lparr>sd_afterPropagate := []\<rparr>, snd x))
      else Inr ((fst x)\<lparr>sd_afterPropagate := sd_afterPropagate (fst x) @ [m]\<rparr>, snd x))"

definition Recall_propagate ::
  "'st treemap \<Rightarrow> CommandId \<Rightarrow> swift_desc \<times> 'st SwiftReplica \<Rightarrow> ('st, bool \<times> swift_desc \<times> 'st SwiftReplica) swift_res" where
  "Recall_propagate T cmdId x =
     (if sd_afterPropagate (fst x) \<noteq> [] \<and> sd_propose (fst x) \<noteq> None
      then and_then (run_waiting T cmdId (sd_afterPropagate (fst x)) x)
             (\<lambda>x. Inr (True, (fst x)\<lparr>sd_afterPropagate := []\<rparr>, snd x))
      else Inr (False, x))"

definition handleFastAck :: "'st treemap \<Rightarrow> CommandId \<Rightarrow> sw_ack \<Rightarrow> swift_desc \<times> 'st SwiftReplica \<Rightarrow> 'st swift_handled" where
  "handleFastAck T cmdId m x =
     (if fa_Replica m = leader (snd x) then fastAckFromLeader T cmdId m x else commonCaseFastAck T cmdId m x)"

text \<open>The end of \<open>handlePropose\<close>: the fast acknowledgement of this replica.\<close>

definition send_own_ack :: "'st treemap \<Rightarrow> SwiftGPropose \<Rightarrow> CommandId \<Rightarrow> swift_desc \<times> 'st SwiftReplica \<Rightarrow> 'st swift_handled" where
  "send_own_ack T p cmdId x =
     (let d = fst x; r = snd x;
          ack = \<lparr>fa_Replica = sr_Id r, fa_Ballot = sr_ballot r, fa_CmdId = cmdId, fa_Dep = sd_dep d, fa_Checksum = sd_hs d,
                 fa_Seqnum = (if isLeader r then sr_seqnum r else 0)\<rparr>;
          r = (if isLeader r then r\<lparr>sr_seqnum := sr_seqnum r + 1\<rparr> else r);
          isRead = (sr_fastRead r \<and> Op (Propose_Command p) \<noteq> PUT)
      in and_then
           (if \<not> sr_optExec r then Inr (d, SendFastAck False ack r)
            else if isLeader r \<and> \<not> isRead \<or> isRead \<and> (case sd_propose d of None \<Rightarrow> False | Some p \<Rightarrow> GPropose_Proxy p)
            then deliver T cmdId (d, SendFastAck False ack r)
            else Inr (d, SendFastAck True ack r))
           (handleFastAck T cmdId ack))"

definition handlePropose :: "'st treemap \<Rightarrow> SwiftGPropose \<Rightarrow> CommandId \<Rightarrow> swift_desc \<times> 'st SwiftReplica \<Rightarrow> 'st swift_handled" where
  "handlePropose T p cmdId x =
     (if sr_status (snd x) \<noteq> NORMAL \<or> sd_propose (fst x) \<noteq> None then Inr x
      else
        let d = (fst x)\<lparr>sd_propose := Some p, sd_cmd := Propose_Command p\<rparr>; r = snd x
        in if \<not> Contains (sr_FQ r) (sr_Id r)
           then and_then (Recall_propagate T cmdId (d, r)) (\<lambda>y. Inr (snd y))
           else
             and_then (Recall_propagate T cmdId (d\<lparr>sd_dep := sd_proposeDep d, sd_phase := PRE_ACCEPT\<rparr>, r)) (\<lambda>(recalled, x).
               if recalled \<and> sd_slowPath (fst x) \<or> cmdId \<in> sr_delivered (snd x) then Inr x
               else if GPropose_Addr p \<in> sr_slowAddrs (snd x) \<and> \<not> isLeader (snd x) then Inr x
               else send_own_ack T p cmdId x))"

fun handleMsg :: "'st treemap \<Rightarrow> swift_in \<Rightarrow> CommandId \<Rightarrow> swift_desc \<times> 'st SwiftReplica \<Rightarrow> 'st swift_handled" where
  "handleMsg T (InPropose p) cmdId x = handlePropose T p cmdId x"
| "handleMsg T (InFastAck m) cmdId x = (if fa_CmdId m = cmdId then handleFastAck T cmdId m x else Inr x)"
| "handleMsg T (InLightSlowAck m) cmdId x =
     (if SwiftMLightSlowAck_CmdId m = cmdId then handleLightSlowAck T cmdId m x else Inr x)"
| "handleMsg T InDeliver cmdId x = deliver T cmdId x"
| "handleMsg T (InSlot h) cmdId x = Inr (handleSlot h cmdId x)"

text \<open>A descriptor that is done leaves the table and goes back to the pool.\<close>

definition finish :: "CommandId \<Rightarrow> swift_desc \<times> 'st SwiftReplica \<Rightarrow> 'st SwiftReplica" where
  "finish cmdId = (\<lambda>(d, r).
     if sd_active d then put_desc cmdId d r
     else freeDesc d (r\<lparr>sr_cmdDescs := AList.delete cmdId (sr_cmdDescs r)\<rparr>))"

text \<open>One turn of the loop of \<open>handleDesc\<close>.\<close>

definition handleDesc :: "'st treemap \<Rightarrow> CommandId \<Rightarrow> 'st SwiftReplica \<Rightarrow> ('st, 'st SwiftReplica) swift_res" where
  "handleDesc T cmdId r =
     (case map_of (sr_cmdDescs r) cmdId of
        None \<Rightarrow> wait
      | Some d \<Rightarrow>
          if sd_seq d \<or> \<not> sd_active d then wait
          else case sd_msgs d of
            [] \<Rightarrow> wait
          | m # ms \<Rightarrow>
              and_then (handleMsg T m cmdId (d\<lparr>sd_msgs := ms\<rparr>, r)) (\<lambda>x.
                Inr (let r = finish cmdId x
                     in if sd_active (fst x) then r else r\<lparr>sr_routineCount := sr_routineCount r - 1\<rparr>)))"

end
