(* ===== verification/SwiftRecovery.thy ===== *)
theory SwiftRecovery
  imports Swift
begin

text \<open>
  The recovery of Swift (\<open>swift/recovery.go\<close>) and its main loop (\<open>run\<close> of \<open>swift/swift.go\<close>).

  A replica that recovers stops its descriptors and its reply channel, and only takes messages about the recovery until it
  gets \<open>MSync\<close>.  \<open>handleSync\<close> sorts the keys of a map with \<open>sort.Slice\<close> and a function that is no order: the result can be
  any permutation, and is an argument here, \<open>ord\<close>.
\<close>

section \<open>Stopping\<close>

text \<open>\<open>repchan.stop\<close> waits for a goroutine to confirm: for ever, if it was stopped before.\<close>

definition stop_replies :: "'st SwiftReplica \<Rightarrow> ('st, 'st SwiftReplica) swift_res" where
  "stop_replies r = (if sr_repRunning r then Inr (r\<lparr>sr_repRunning := False, sr_repArgs := []\<rparr>) else halt r)"

definition stopDescs :: "'st SwiftReplica \<Rightarrow> 'st SwiftReplica" where
  "stopDescs r =
     r\<lparr>sr_cmdDescs := map (\<lambda>(c, d). (c, if sd_active d \<and> \<not> sd_seq d then d\<lparr>sd_active := False\<rparr> else d)) (sr_cmdDescs r)\<rparr>"

section \<open>The new leader\<close>

definition proposed_id :: "SwiftGPropose \<Rightarrow> CommandId" where
  "proposed_id p = CommandId (Propose_ClientId p) (Propose_CommandId p)"

definition report :: "CommandId \<Rightarrow> int \<Rightarrow> command \<Rightarrow> dep option \<Rightarrow> swift_ackN \<Rightarrow> swift_ackN" where
  "report cmdId phase cmd dep m =
     (if cmdId \<in> set (an_CmdIds m) then m
      else m\<lparr>an_CmdIds := an_CmdIds m @ [cmdId], an_Phases := an_Phases m @ [phase], an_Cmds := an_Cmds m @ [cmd],
             an_Deps := an_Deps m @ [dep]\<rparr>)"

text \<open>
  The commands with a descriptor and their phases, and, as if they were accepted with no effect, the other commands that
  were proposed and not delivered.
\<close>

definition fillNewLeaderAckN :: "'st SwiftReplica \<Rightarrow> swift_ackN \<Rightarrow> swift_ackN" where
  "fillNewLeaderAckN r m =
     (let m = m\<lparr>an_CmdIds := [], an_Phases := [], an_Cmds := [], an_Deps := []\<rparr>;
          m = fold (\<lambda>(_, d) m. case sd_propose d of None \<Rightarrow> m
                | Some p \<Rightarrow> report (proposed_id p) (sd_phase d) (sd_cmd d) (sd_dep d) m) (sr_cmdDescs r) m
      in fold (\<lambda>(cmdId, _) m. if cmdId \<in> sr_delivered r then m else report cmdId ACCEPT (hd NOOP) (Some []) m)
           (sr_proposes r) m)"

definition new_acks :: "swift_ackN list \<Rightarrow> swift_ackN list" where
  "new_acks msgs = (let maxCbal = fold (\<lambda>m b. max b (an_Cballot m)) msgs (-1)
                    in filter (\<lambda>m. an_Cballot m = maxCbal) msgs)"

text \<open>The three maps that are built from the acknowledgements; \<open>None\<close> is an index out of range.\<close>

definition add_report :: "swift_ackN \<Rightarrow> nat \<Rightarrow> swift_sync \<Rightarrow> swift_sync option" where
  "add_report m i s =
     (let phase = an_Phases m ! i
      in if phase = COMMIT \<or> phase = ACCEPT then
           if i < length (an_CmdIds m) \<and> i < length (an_Cmds m) \<and> i < length (an_Deps m) then
             let cmdId = an_CmdIds m ! i
             in Some (s\<lparr>sy_Phases := AList.update cmdId phase (sy_Phases s),
                        sy_Cmds := AList.update cmdId (an_Cmds m ! i) (sy_Cmds s),
                        sy_Deps := AList.update cmdId (an_Deps m ! i) (sy_Deps s)\<rparr>)
           else None
         else Some s)"

definition sync_of :: "swift_ackN list \<Rightarrow> 'st SwiftReplica \<Rightarrow> swift_sync option" where
  "sync_of msgs r =
     fold (\<lambda>m acc. fold (\<lambda>i acc. case acc of None \<Rightarrow> None | Some s \<Rightarrow> add_report m i s) [0..<length (an_Phases m)] acc)
       (new_acks msgs)
       (Some \<lparr>sy_Replica = sr_Id r, sy_Ballot = sr_ballot r, sy_Phases = [], sy_Cmds = [], sy_Deps = []\<rparr>)"

section \<open>Synchronisation\<close>

text \<open>
  The goroutines started in the loops over \<open>dep\<close> and \<open>ord\<close> send the value that the variable of the loop has when they run.
\<close>

fun send_later :: "CommandId list \<Rightarrow> CommandId list list" where
  "send_later [] = []"
| "send_later (c # cs) = (c # cs) # send_later cs"

datatype deferred = DeferFastAck sw_ack | DeferLightSlowAck SwiftMLightSlowAck

definition sync_desc :: "swift_sync \<Rightarrow> CommandId \<Rightarrow> CommandId list \<Rightarrow> 'st SwiftReplica \<Rightarrow> bool \<times> 'st SwiftReplica" where
  "sync_desc msg cmdId rest r =
     (case find_desc cmdId None None False r of
        None \<Rightarrow> (False, r)
      | Some (d, r) \<Rightarrow>
          let phase = (case map_of (sy_Phases msg) cmdId of None \<Rightarrow> 0 | Some p \<Rightarrow> p);
              cmd = (case map_of (sy_Cmds msg) cmdId of None \<Rightarrow> zero_command | Some c \<Rightarrow> c);
              dep = (case map_of (sy_Deps msg) cmdId of None \<Rightarrow> None | Some d \<Rightarrow> d);
              r = put_desc cmdId (d\<lparr>sd_phase := if phase \<noteq> COMMIT \<and> phase \<noteq> ACCEPT then ACCEPT else phase, sd_cmd := cmd,
                    sd_dep := dep, sd_proposeDep := dep\<rparr>) r;
              r = fold (add_successor cmdId) (dep_list dep) r
          in (True, r\<lparr>sr_deliverChan := sr_deliverChan r @ send_later (dep_list dep) @ [cmdId # rest]\<rparr>))"

definition sync_propose ::
  "swift_sync \<Rightarrow> CommandId \<Rightarrow> bool \<Rightarrow> SwiftGPropose \<Rightarrow> 'st SwiftReplica \<Rightarrow> (CommandId \<times> deferred) list \<times> 'st SwiftReplica" where
  "sync_propose msg cmdId has_desc p r =
     (let r = (case map_of (sr_cmdDescs r) cmdId of
                 Some d \<Rightarrow> if has_desc then put_desc cmdId (d\<lparr>sd_propose := Some p\<rparr>) r else r | None \<Rightarrow> r)
      in if \<not> Contains (sr_SQ r) (sr_Id r) then ([], r)
         else if isLeader r then
           let dep = (case map_of (sy_Deps msg) cmdId of None \<Rightarrow> None | Some d \<Rightarrow> d);
               ack = \<lparr>fa_Replica = sr_Id r, fa_Ballot = sr_ballot r, fa_CmdId = cmdId,
                      fa_Dep = Some (case dep of None \<Rightarrow> NilDepOfCmdId cmdId | Some d \<Rightarrow> d),
                      fa_Checksum = [], fa_Seqnum = 0\<rparr>;
               r = send (ToClient (Propose_ClientId p)) (SwiftMReplyMsg
                     \<lparr>SwiftMReply_Replica = sr_Id r, SwiftMReply_Ballot = sr_ballot r, SwiftMReply_CmdId = cmdId,
                      SwiftMReply_Checksum = [], SwiftMReply_Rep = []\<rparr>) (SendFastAck False ack r)
           in (if has_desc then [(cmdId, DeferFastAck ack)] else [], r)
         else
           let ls = lightSlowAck cmdId r
           in (if has_desc then [(cmdId, DeferLightSlowAck ls)] else [], SendLightSlowAck True ls r))"

fun sync_loop :: "swift_sync \<Rightarrow> CommandId list \<Rightarrow> 'st SwiftReplica \<Rightarrow> (CommandId \<times> deferred) list \<times> 'st SwiftReplica" where
  "sync_loop msg [] r = ([], r)"
| "sync_loop msg (cmdId # rest) r =
     (let (has_desc, r) = sync_desc msg cmdId rest r;
          (ds, r) = (case map_of (sr_proposes r) cmdId of None \<Rightarrow> ([], r) | Some p \<Rightarrow> sync_propose msg cmdId has_desc p r);
          (ds', r) = sync_loop msg rest r
      in (ds @ ds', r))"

definition run_deferred ::
  "'st treemap \<Rightarrow> CommandId \<times> deferred \<Rightarrow> 'st SwiftReplica \<Rightarrow> ('st, 'st SwiftReplica) swift_res" where
  "run_deferred T df r =
     (case map_of (sr_cmdDescs r) (fst df) of
        None \<Rightarrow> Inr r
      | Some d \<Rightarrow>
          and_then (case snd df of DeferFastAck m \<Rightarrow> handleFastAck T (fst df) m (d, r)
                    | DeferLightSlowAck m \<Rightarrow> handleLightSlowAck T (fst df) m (d, r))
            (\<lambda>x. Inr (finish (fst df) x)))"

text \<open>Deferred calls run last to first.\<close>

definition run_all_deferred ::
  "'st treemap \<Rightarrow> (CommandId \<times> deferred) list \<Rightarrow> 'st SwiftReplica \<Rightarrow> ('st, 'st SwiftReplica) swift_res" where
  "run_all_deferred T ds r = fold (\<lambda>df res. and_then res (run_deferred T df)) (rev ds) (Inr r)"

definition clear_descs :: "swift_sync \<Rightarrow> 'st SwiftReplica \<Rightarrow> 'st SwiftReplica" where
  "clear_descs msg r =
     (let r' = fold (\<lambda>(_, d) r. freeDesc (d\<lparr>sd_msgs := []\<rparr>)
                (case sd_propose d of None \<Rightarrow> r
                 | Some p \<Rightarrow> if map_of (sy_Phases msg) (proposed_id p) = None
                            then r\<lparr>sr_reproposed := sr_reproposed r @ [p]\<rparr> else r)) (sr_cmdDescs r) r
      in r'\<lparr>sr_cmdDescs := []\<rparr>)"

definition handleSync :: "'st treemap \<Rightarrow> CommandId list \<Rightarrow> swift_sync \<Rightarrow> 'st SwiftReplica \<Rightarrow> ('st, 'st SwiftReplica) swift_res" where
  "handleSync T ord msg r =
     (if sr_ballot r > sy_Ballot msg \<or> sr_ballot r = sy_Ballot msg \<and> sr_status r = NORMAL then Inr r
      else if \<not> (distinct ord \<and> set ord = fst ` set (sy_Phases msg)) then wait
      else
        and_then (if sr_status r = NORMAL then and_then (stop_replies r) (\<lambda>r. Inr (stopDescs r)) else Inr r) (\<lambda>r.
          let r = (clear_descs msg r)\<lparr>sr_keys := Map.empty, sr_routineCount := 0, sr_status := NORMAL,
                    sr_ballot := sy_Ballot msg, sr_cballot := sy_Ballot msg\<rparr>
          in and_then (if \<not> sr_fixedMajority r then Inr r
                       else case AQ (sys_qs (sr_qs r)) (sr_ballot r) of
                         None \<Rightarrow> halt r | Some q \<Rightarrow> Inr (r\<lparr>sr_FQ := Quorum q\<rparr>)) (\<lambda>r.
            let r = r\<lparr>sr_repRunning := True, sr_repArgs := [], sr_historySize := 0\<rparr>;
                (ds, r) = sync_loop msg ord r;
                r = fold (\<lambda>(cmdId, p) r.
                      if map_of (sy_Phases msg) cmdId \<noteq> None then r
                      else send (ToClient (Propose_ClientId p)) (SwiftMAcceptMsg
                             \<lparr>SwiftMAccept_Replica = sr_Id r, SwiftMAccept_Ballot = sr_ballot r,
                              SwiftMAccept_CmdId = cmdId, SwiftMAccept_Rep = []\<rparr>) r) (sr_proposes r) r
            in run_all_deferred T ds r)))"

definition handleNewLeaderAckNs ::
  "'st treemap \<Rightarrow> CommandId list \<Rightarrow> swift_ackN list \<Rightarrow> 'st SwiftReplica \<Rightarrow> ('st, 'st SwiftReplica) swift_res" where
  "handleNewLeaderAckNs T ord msgs r =
     (case sync_of msgs r of
        None \<Rightarrow> halt r
      | Some sync \<Rightarrow> handleSync T ord sync (send ToAll (Swift_MSync sync) r))"

definition handleNewLeaderAckN ::
  "'st treemap \<Rightarrow> CommandId list \<Rightarrow> swift_ackN \<Rightarrow> 'st SwiftReplica \<Rightarrow> ('st, 'st SwiftReplica) swift_res" where
  "handleNewLeaderAckN T ord msg r =
     (if sr_status r \<noteq> RECOVERING \<or> sr_ballot r \<noteq> an_Ballot msg then Inr r
      else case sr_newLeaderAckNs r of None \<Rightarrow> halt r
      | Some ms \<Rightarrow>
          let (res, ms) = Add (\<lambda>_ _. True) (an_Replica msg) False msg ms; r = r\<lparr>sr_newLeaderAckNs := Some ms\<rparr>
          in case call res of None \<Rightarrow> Inr r | Some (_, msgs) \<Rightarrow> handleNewLeaderAckNs T ord msgs r)"

definition handleNewLeader ::
  "'st treemap \<Rightarrow> CommandId list \<Rightarrow> SwiftMNewLeader \<Rightarrow> 'st SwiftReplica \<Rightarrow> ('st, 'st SwiftReplica) swift_res" where
  "handleNewLeader T ord msg r =
     (if sr_ballot r \<ge> SwiftMNewLeader_Ballot msg then Inr r
      else
        and_then (stop_replies (r\<lparr>sr_status := RECOVERING, sr_ballot := SwiftMNewLeader_Ballot msg\<rparr>)) (\<lambda>r.
          let r = stopDescs r;
              ack = fillNewLeaderAckN r \<lparr>an_Replica = sr_Id r, an_Ballot = sr_ballot r, an_Cballot = sr_cballot r,
                      an_CmdIds = [], an_Phases = [], an_Cmds = [], an_Deps = []\<rparr>
          in if SwiftMNewLeader_Replica msg \<noteq> sr_Id r
             then Inr (send (ToReplica (SwiftMNewLeader_Replica msg)) (SwiftMNewLeaderAckNMsg (wire_ackN ack)) r)
             else handleNewLeaderAckN T ord ack r))"

definition reinitNewLeaderAckNs :: "'st SwiftReplica \<Rightarrow> 'st SwiftReplica" where
  "reinitNewLeaderAckNs r =
     r\<lparr>sr_newLeaderAckNs := Some (ReinitMsgSet (sr_newLeaderAckNs r) (NewMajorityOf (sr_N r)))\<rparr>"

section \<open>The main loop\<close>

text \<open>The loop that looks for a ballot with a quorum that is alive; \<open>None\<close> is a panic of \<open>AQ\<close> or a loop without end.\<close>

partial_function (option) alive_ballot :: "'st SwiftReplica \<Rightarrow> int \<Rightarrow> int option" where
  "alive_ballot r b =
     (case AQ (sys_qs (sr_qs r)) b of
        None \<Rightarrow> None
      | Some q \<Rightarrow> if q - {sr_Id r} \<subseteq> sr_Alive r then Some b else alive_ballot r (NextBallotOf (sr_Id r) b (sr_N r)))"

definition take_recover :: "'st treemap \<Rightarrow> CommandId list \<Rightarrow> 'st SwiftReplica \<Rightarrow> ('st, 'st SwiftReplica) swift_res" where
  "take_recover T ord r =
     (case sr_recover r of
        [] \<Rightarrow> wait
      | newBallot # bs \<Rightarrow>
          let r = r\<lparr>sr_recover := bs\<rparr>;
              b = (if newBallot \<noteq> -1 then
                     if newBallot > sr_ballot r then Some newBallot else SameHigher (sys_qs (sr_qs r)) newBallot (sr_ballot r)
                   else Some (NextBallotOf (sr_Id r) (sr_ballot r) (sr_N r)))
          in case (case b of None \<Rightarrow> None | Some b \<Rightarrow> if sr_fixedMajority r then alive_ballot r b else Some b) of
               None \<Rightarrow> halt r
             | Some b \<Rightarrow>
                 let m = \<lparr>SwiftMNewLeader_Replica = sr_Id r, SwiftMNewLeader_Ballot = b\<rparr>
                 in handleNewLeader T ord m (reinitNewLeaderAckNs (send ToAll (SwiftMNewLeaderMsg m) r)))"

text \<open>\<open>BeTheLeader\<close>, called by the master.\<close>

definition BeTheLeader :: "'st SwiftReplica \<Rightarrow> (int \<times> int) \<times> 'st SwiftReplica" where
  "BeTheLeader r =
     (let (l, r) = (if sr_delivered r \<noteq> {} then (sr_Id r, r\<lparr>sr_recover := sr_recover r @ [BallotAt (sr_qs r) 1]\<rparr>)
                    else (leader r, r));
          next = Leader (BallotAt (sr_qs r) 1) (sr_N r)
      in ((if l = 0 then -2 else l, if next = 0 then -2 else next), r))"

definition take_deliver :: "nat \<Rightarrow> nat \<Rightarrow> 'st SwiftReplica \<Rightarrow> ('st, 'st SwiftReplica) swift_res" where
  "take_deliver k j r =
     (if k < length (sr_deliverChan r) \<and> j < length (sr_deliverChan r ! k) then
        Inr (r\<lparr>sr_todo := [Give (sr_deliverChan r ! k ! j) InDeliver],
               sr_deliverChan := take k (sr_deliverChan r) @ drop (Suc k) (sr_deliverChan r)\<rparr>)
      else wait)"

definition take_repropose :: "nat \<Rightarrow> 'st SwiftReplica \<Rightarrow> ('st, 'st SwiftReplica) swift_res" where
  "take_repropose k r =
     (if k < length (sr_reproposed r) then
        Inr (r\<lparr>sr_todo := [Proposal (sr_reproposed r ! k)],
               sr_reproposed := take k (sr_reproposed r) @ drop (Suc k) (sr_reproposed r)\<rparr>)
      else wait)"

fun take_msg ::
  "'st treemap \<Rightarrow> CommandId list \<Rightarrow> swift_sync swift_msg \<Rightarrow> 'st SwiftReplica \<Rightarrow> ('st, 'st SwiftReplica) swift_res" where
  "take_msg T ord (SwiftMNewLeaderMsg m) r = handleNewLeader T ord m r"
| "take_msg T ord (Swift_MSync m) r = handleSync T ord (gob_sync m) r"
| "take_msg T ord (SwiftMNewLeaderAckNMsg m) r =
     (if sr_status r = RECOVERING then handleNewLeaderAckN T ord (ackN_of_wire m) r else wait)"
| "take_msg T ord (SwiftMFastAckMsg m) r =
     (if sr_status r = NORMAL then Inr (r\<lparr>sr_todo := [GiveAck (ack_of_wire m)]\<rparr>) else wait)"
| "take_msg T ord (SwiftMLightSlowAckMsg m) r =
     (if sr_status r = NORMAL then Inr (r\<lparr>sr_todo := [Give (SwiftMLightSlowAck_CmdId m) (InLightSlowAck m)]\<rparr>) else wait)"
| "take_msg T ord (SwiftMAcksMsg m) r =
     (if sr_status r = NORMAL
      then Inr (r\<lparr>sr_todo := map (\<lambda>f. GiveAck (ack_of_wire f)) (SwiftMAcks_FastAcks m) @
                  map (\<lambda>s. Give (SwiftMLightSlowAck_CmdId s) (InLightSlowAck s)) (SwiftMAcks_LightSlowAcks m)\<rparr>)
      else wait)"
| "take_msg T ord (SwiftMOptAcksMsg m) r =
     (if sr_status r = NORMAL
      then Inr (r\<lparr>sr_todo := map (\<lambda>a. GiveAck (ack_of_opt m a)) (SwiftMOptAcks_Acks m)\<rparr>) else wait)"
| "take_msg T ord m r = wait"

text \<open>
  \<open>getCmdDescSeq\<close> with a message; what waits for room in the channel of the descriptor stays in \<open>todo\<close>.
\<close>

definition getCmdDescSeq ::
  "'st treemap \<Rightarrow> CommandId \<Rightarrow> swift_in \<Rightarrow> dep option \<Rightarrow> SHash list option \<Rightarrow> bool \<Rightarrow> 'st SwiftReplica \<Rightarrow>
     ('st, bool \<times> 'st SwiftReplica) swift_res" where
  "getCmdDescSeq T cmdId m dep hs seq r =
     (case find_desc cmdId dep hs seq r of
        None \<Rightarrow> Inr (False, r)
      | Some (d, r) \<Rightarrow>
          if sd_seq d then and_then (handleMsg T m cmdId (d, r)) (\<lambda>x. Inr (True, finish cmdId x))
          else if length (sd_msgs d) < MSGS_SIZE
            then Inr (True, put_desc cmdId (d\<lparr>sd_msgs := sd_msgs d @ [m]\<rparr>) r)
            else Inr (True, r\<lparr>sr_todo := Give cmdId m # sr_todo r\<rparr>))"

definition note_leader_hash :: "(bytes \<Rightarrow> bytes) \<Rightarrow> sw_ack \<Rightarrow> 'st SwiftReplica \<Rightarrow> ('st, 'st SwiftReplica) swift_res" where
  "note_leader_hash sha f r =
     (if fa_Replica f = leader r \<and> \<not> isLeader r then
        case recordLeaderHash sha (fa_CmdId f) (fa_Seqnum f) (fa_Checksum f) r of None \<Rightarrow> halt r | Some r \<Rightarrow> Inr r
      else Inr r)"

definition take_proposal ::
  "(bytes \<Rightarrow> bytes) \<Rightarrow> 'st treemap \<Rightarrow> SwiftGPropose \<Rightarrow> 'st SwiftReplica \<Rightarrow> ('st, 'st SwiftReplica) swift_res" where
  "take_proposal sha T p r =
     (let cmdId = proposed_id p; r = r\<lparr>sr_proposes := AList.update cmdId p (sr_proposes r)\<rparr>
      in case getDepAndHashes sha (Propose_Command p) cmdId r of
           None \<Rightarrow> halt r
         | Some ((dep, hs), r) \<Rightarrow>
             and_then (case sr_pendingHashUpds r cmdId of
                         None \<Rightarrow> Inr r
                       | Some upd \<Rightarrow>
                           if isLeader r then Inr r
                           else let r = r\<lparr>sr_pendingHashUpds := (sr_pendingHashUpds r)(cmdId := None)\<rparr>
                                in case recordLeaderHash sha cmdId (upd_seqnum upd) (upd_hash upd) r of
                                     None \<Rightarrow> halt r | Some r \<Rightarrow> Inr r) (\<lambda>r.
             and_then (getCmdDescSeq T cmdId (InPropose p) (Some dep) (Some hs) (isLeader r) r) (\<lambda>(found, r).
               if found then Inr r else halt r)))"

definition run_todo :: "(bytes \<Rightarrow> bytes) \<Rightarrow> 'st treemap \<Rightarrow> 'st SwiftReplica \<Rightarrow> ('st, 'st SwiftReplica) swift_res" where
  "run_todo sha T r =
     (case sr_todo r of
        [] \<Rightarrow> wait
      | t # todo \<Rightarrow>
          let r = r\<lparr>sr_todo := todo\<rparr>
          in case t of
               Proposal p \<Rightarrow> take_proposal sha T p r
             | Give cmdId m \<Rightarrow> and_then (getCmdDescSeq T cmdId m None None False r) (\<lambda>(_, r). Inr r)
             | GiveAck f \<Rightarrow>
                 and_then (note_leader_hash sha f r) (\<lambda>r.
                 and_then (getCmdDescSeq T (fa_CmdId f) (InFastAck f) None None (isLeader r) r) (\<lambda>(_, r). Inr r)))"

end
