(* ===== verification/SwiftBatch.thy ===== *)
theory SwiftBatch
  imports Swift
begin

text \<open>
  The batcher of Swift (\<open>swift/batcher.go\<close>): it sends all the acknowledgements that wait at once.  Acknowledgements of one
  ballot go into \<open>MOptAcks\<close>, where a light slow acknowledgement is an \<open>Ack\<close> that depends on its own command and takes the
  place of a fast one; those of several ballots go into \<open>MAcks\<close>.

  The clients' messages, which Go sends in no fixed order, are in the order of the acknowledgements here.
\<close>

section \<open>Batches\<close>

record batch_state =
  bt_ballot :: int
  bt_acks :: "SwiftAck list"
  bt_is :: "CommandId \<Rightarrow> nat option"
  bt_fastAckClientMsgs :: "(CommandId \<times> SwiftMFastAckClient) list"
  bt_slowAckClientMsgs :: "(CommandId \<times> SwiftMLightSlowAck) list"

definition wire_ack :: "sw_ack \<Rightarrow> SwiftMFastAck" where
  "wire_ack f = \<lparr>SwiftMFastAck_Replica = fa_Replica f, SwiftMFastAck_Ballot = fa_Ballot f,
     SwiftMFastAck_CmdId = fa_CmdId f, SwiftMFastAck_Dep = dep_list (fa_Dep f),
     SwiftMFastAck_Checksum = fa_Checksum f, SwiftMFastAck_Seqnum = fa_Seqnum f\<rparr>"

definition client_ack :: "sw_ack \<Rightarrow> SwiftMFastAckClient" where
  "client_ack f = \<lparr>SwiftMFastAckClient_Replica = fa_Replica f, SwiftMFastAckClient_Ballot = fa_Ballot f,
     SwiftMFastAckClient_CmdId = fa_CmdId f, SwiftMFastAckClient_Checksum = fa_Checksum f\<rparr>"

definition fast_Ack :: "sw_ack \<Rightarrow> SwiftAck" where
  "fast_Ack f = \<lparr>SwiftAck_CmdId = fa_CmdId f, SwiftAck_Dep = dep_list (fa_Dep f), SwiftAck_Checksum = fa_Checksum f,
     SwiftAck_Seqnum = fa_Seqnum f\<rparr>"

definition slow_Ack :: "SwiftMLightSlowAck \<Rightarrow> SwiftAck" where
  "slow_Ack s = \<lparr>SwiftAck_CmdId = SwiftMLightSlowAck_CmdId s, SwiftAck_Dep = NilDepOfCmdId (SwiftMLightSlowAck_CmdId s),
     SwiftAck_Checksum = [], SwiftAck_Seqnum = 0\<rparr>"

text \<open>The loops of the first case, which a fast acknowledgement starts.\<close>

definition append_Ack :: "SwiftAck \<Rightarrow> batch_state \<Rightarrow> batch_state" where
  "append_Ack a b = b\<lparr>bt_is := (bt_is b)(SwiftAck_CmdId a \<mapsto> length (bt_acks b)), bt_acks := bt_acks b @ [a]\<rparr>"

definition fast_first :: "sw_ack \<times> bool \<Rightarrow> batch_state \<Rightarrow> batch_state" where
  "fast_first op b =
     (let f = fst op;
          b = (if bt_ballot b = fa_Ballot f then append_Ack (fast_Ack f) b else b\<lparr>bt_ballot := -1\<rparr>)
      in if snd op then b\<lparr>bt_fastAckClientMsgs := AList.update (fa_CmdId f) (client_ack f) (bt_fastAckClientMsgs b)\<rparr> else b)"

definition slow_after :: "SwiftMLightSlowAck \<times> bool \<Rightarrow> batch_state \<Rightarrow> batch_state" where
  "slow_after op b =
     (let s = fst op; cmdId = SwiftMLightSlowAck_CmdId s;
          b = (if bt_ballot b = SwiftMLightSlowAck_Ballot s then
                 (case bt_is b cmdId of
                    Some i \<Rightarrow> b\<lparr>bt_acks := (bt_acks b)[i := (bt_acks b ! i)\<lparr>SwiftAck_Dep := NilDepOfCmdId cmdId,
                                 SwiftAck_Checksum := []\<rparr>]\<rparr>
                  | None \<Rightarrow> append_Ack (slow_Ack s) b)
               else b\<lparr>bt_ballot := -1\<rparr>)
      in if snd op
         then b\<lparr>bt_fastAckClientMsgs := AList.delete cmdId (bt_fastAckClientMsgs b),
                bt_slowAckClientMsgs := AList.update cmdId s (bt_slowAckClientMsgs b)\<rparr> else b)"

text \<open>The loops of the second case.\<close>

definition slow_first :: "SwiftMLightSlowAck \<times> bool \<Rightarrow> batch_state \<Rightarrow> batch_state" where
  "slow_first op b =
     (let s = fst op;
          b = (if bt_ballot b = SwiftMLightSlowAck_Ballot s then append_Ack (slow_Ack s) b else b\<lparr>bt_ballot := -1\<rparr>)
      in if snd op
         then b\<lparr>bt_slowAckClientMsgs := AList.update (SwiftMLightSlowAck_CmdId s) s (bt_slowAckClientMsgs b)\<rparr> else b)"

definition fast_after :: "sw_ack \<times> bool \<Rightarrow> batch_state \<Rightarrow> batch_state" where
  "fast_after op b =
     (let f = fst op;
          b = (if bt_ballot b = fa_Ballot f then
                 (if bt_is b (fa_CmdId f) = None then append_Ack (fast_Ack f) b else b)
               else b\<lparr>bt_ballot := -1\<rparr>)
      in if snd op \<and> map_of (bt_slowAckClientMsgs b) (fa_CmdId f) = None
         then b\<lparr>bt_fastAckClientMsgs := AList.update (fa_CmdId f) (client_ack f) (bt_fastAckClientMsgs b)\<rparr> else b)"

definition empty_batch :: "int \<Rightarrow> batch_state" where
  "empty_batch ballot =
     \<lparr>bt_ballot = ballot, bt_acks = [], bt_is = Map.empty, bt_fastAckClientMsgs = [], bt_slowAckClientMsgs = []\<rparr>"

text \<open>The first acknowledgement sets the ballot, and is treated as the ones of its kind.\<close>

definition collect :: "bool \<Rightarrow> (sw_ack \<times> bool) list \<Rightarrow> (SwiftMLightSlowAck \<times> bool) list \<Rightarrow> int \<times> batch_state" where
  "collect fast fs ss =
     (if fast then let b = fa_Ballot (fst (hd fs)) in (b, fold slow_after ss (fold fast_first fs (empty_batch b)))
      else let b = SwiftMLightSlowAck_Ballot (fst (hd ss)) in (b, fold fast_after fs (fold slow_first ss (empty_batch b))))"

definition batch_msgs ::
  "int \<Rightarrow> bool \<Rightarrow> (sw_ack \<times> bool) list \<Rightarrow> (SwiftMLightSlowAck \<times> bool) list \<Rightarrow> (swift_dest \<times> swift_sync swift_msg) list" where
  "batch_msgs rid fast fs ss =
     (let (ballot, b) = collect fast fs ss
      in map (\<lambda>(c, m). (ToClient (ClientId c), SwiftMFastAckClientMsg m)) (bt_fastAckClientMsgs b) @
         map (\<lambda>(c, m). (ToClient (ClientId c), SwiftMLightSlowAckMsg m)) (bt_slowAckClientMsgs b) @
         [(ToAll,
           if bt_ballot b \<noteq> -1
           then SwiftMOptAcksMsg \<lparr>SwiftMOptAcks_Replica = rid, SwiftMOptAcks_Ballot = ballot, SwiftMOptAcks_Acks = bt_acks b\<rparr>
           else SwiftMAcksMsg \<lparr>SwiftMAcks_FastAcks = map (wire_ack \<circ> fst) fs, SwiftMAcks_LightSlowAcks = map fst ss\<rparr>)])"

text \<open>One turn of the loop of the batcher; \<open>fast\<close> says which of the two channels \<open>select\<close> chose.\<close>

definition run_batch :: "bool \<Rightarrow> 'st SwiftReplica \<Rightarrow> 'st SwiftReplica option" where
  "run_batch fast r =
     (if (if fast then sr_fastAcks r = [] else sr_lightSlowAcks r = []) then None
      else Some (r\<lparr>sr_fastAcks := [], sr_lightSlowAcks := [],
                   sr_sent := sr_sent r @ batch_msgs (sr_Id r) fast (sr_fastAcks r) (sr_lightSlowAcks r)\<rparr>))"

section \<open>What the receivers see\<close>

text \<open>What a replica reads from an \<open>Ack\<close>: the command, its dependency or \<open>None\<close> for a light slow acknowledgement, and the hashes.\<close>

definition seen :: "SwiftAck \<Rightarrow> CommandId \<times> dep option \<times> SHash list" where
  "seen a = (let f = ack_of_opt \<lparr>SwiftMOptAcks_Replica = 0, SwiftMOptAcks_Ballot = 0, SwiftMOptAcks_Acks = []\<rparr> a
             in (fa_CmdId f, fa_Dep f, fa_Checksum f))"

definition seen_fast :: "sw_ack \<Rightarrow> CommandId \<times> dep option \<times> SHash list" where
  "seen_fast f = (fa_CmdId f, Some (dep_list (fa_Dep f)), fa_Checksum f)"

definition seen_slow :: "CommandId \<Rightarrow> CommandId \<times> dep option \<times> SHash list" where
  "seen_slow c = (c, None, [])"

text \<open>The light slow acknowledgements, and the fast ones of the other commands.\<close>

definition expected :: "sw_ack set \<Rightarrow> CommandId set \<Rightarrow> (CommandId \<times> dep option \<times> SHash list) set" where
  "expected F S = seen_slow ` S \<union> seen_fast ` {f \<in> F. fa_CmdId f \<notin> S}"

text \<open>Fast acknowledgements of one ballot, one for each command, none of which depends on itself alone.\<close>

definition proper_acks :: "int \<Rightarrow> (sw_ack \<times> bool) list \<Rightarrow> bool" where
  "proper_acks ballot fs \<longleftrightarrow> distinct (map (fa_CmdId \<circ> fst) fs) \<and>
     list_all (\<lambda>(f, _). fa_Ballot f = ballot \<and> dep_list (fa_Dep f) \<noteq> [fa_CmdId f]) fs"

definition batch_inv :: "int \<Rightarrow> sw_ack set \<Rightarrow> CommandId set \<Rightarrow> batch_state \<Rightarrow> bool" where
  "batch_inv ballot F S b \<longleftrightarrow> bt_ballot b = ballot \<and> distinct (map SwiftAck_CmdId (bt_acks b)) \<and>
     (\<forall>c i. bt_is b c = Some i \<longleftrightarrow> i < length (bt_acks b) \<and> SwiftAck_CmdId (bt_acks b ! i) = c) \<and>
     seen ` set (bt_acks b) = expected F S"

lemma seen_fast_Ack: "dep_list (fa_Dep f) \<noteq> [fa_CmdId f] \<Longrightarrow> seen (fast_Ack f) = seen_fast f"
  by (cases "dep_list (fa_Dep f)") (auto simp: seen_def seen_fast_def fast_Ack_def ack_of_opt_def IsNilDepOfCmdId_def Let_def)

lemma seen_Nil: "SwiftAck_Dep a = NilDepOfCmdId (SwiftAck_CmdId a) \<Longrightarrow> SwiftAck_Checksum a = [] \<Longrightarrow>
    seen a = seen_slow (SwiftAck_CmdId a)"
  by (simp add: seen_def seen_slow_def ack_of_opt_def IsNilDepOfCmdId_def NilDepOfCmdId_def Let_def)

lemma fst_seen [simp]: "fst (seen a) = SwiftAck_CmdId a"
  by (simp add: seen_def ack_of_opt_def Let_def)

lemma fst_expected: "fst ` expected F S = S \<union> fa_CmdId ` F"
  unfolding expected_def image_Un image_image seen_fast_def seen_slow_def by auto

lemma batch_inv_ids: "batch_inv ballot F S b \<Longrightarrow> SwiftAck_CmdId ` set (bt_acks b) = S \<union> fa_CmdId ` F"
proof -
  assume "batch_inv ballot F S b"
  then have "fst ` seen ` set (bt_acks b) = S \<union> fa_CmdId ` F" by (simp add: batch_inv_def fst_expected)
  then show ?thesis by (simp add: image_image)
qed

lemma batch_inv_is: "batch_inv ballot F S b \<Longrightarrow> bt_is b c = None \<longleftrightarrow> c \<notin> S \<union> fa_CmdId ` F"
proof -
  assume b: "batch_inv ballot F S b"
  have "bt_is b c = None \<longleftrightarrow> c \<notin> SwiftAck_CmdId ` set (bt_acks b)"
    using b unfolding batch_inv_def by (metis (no_types, lifting) image_iff in_set_conv_nth not_None_eq)
  then show ?thesis using batch_inv_ids [OF b] by simp
qed

lemma batch_inv_append:
  assumes "batch_inv ballot F S b" "SwiftAck_CmdId a \<notin> S \<union> fa_CmdId ` F" "insert (seen a) (expected F S) = expected F' S'"
  shows "batch_inv ballot F' S' (append_Ack a b)"
proof -
  have "SwiftAck_CmdId a \<notin> SwiftAck_CmdId ` set (bt_acks b)" using assms(2) batch_inv_ids [OF assms(1)] by simp
  moreover from this have "SwiftAck_CmdId (bt_acks b ! i) \<noteq> SwiftAck_CmdId a" if "i < length (bt_acks b)" for i
    using that by (metis image_eqI nth_mem)
  ultimately show ?thesis
    using assms(1,3) unfolding batch_inv_def append_Ack_def
    by (auto simp: nth_append less_Suc_eq)
qed

lemma batch_inv_clients [simp]:
  "batch_inv ballot F S (b\<lparr>bt_fastAckClientMsgs := x\<rparr>) = batch_inv ballot F S b"
  "batch_inv ballot F S (b\<lparr>bt_slowAckClientMsgs := y\<rparr>) = batch_inv ballot F S b"
  by (simp_all add: batch_inv_def)

lemma expected_fast: "fa_CmdId f \<notin> S \<Longrightarrow> expected (insert f F) S = insert (seen_fast f) (expected F S)"
  by (auto simp: expected_def)

lemma expected_slow:
  "c \<notin> fa_CmdId ` F \<Longrightarrow> expected F (insert c S) = insert (seen_slow c) (expected F S)"
  by (auto simp: expected_def)

lemma expected_fast_again: "fa_CmdId f \<in> S \<Longrightarrow> expected (insert f F) S = expected F S"
  by (auto simp: expected_def)

lemma fast_first_inv:
  assumes "batch_inv ballot F {} b" "fa_Ballot (fst op) = ballot" "dep_list (fa_Dep (fst op)) \<noteq> [fa_CmdId (fst op)]"
    and "fa_CmdId (fst op) \<notin> fa_CmdId ` F"
  shows "batch_inv ballot (insert (fst op) F) {} (fast_first op b)"
proof -
  have "batch_inv ballot (insert (fst op) F) {} (append_Ack (fast_Ack (fst op)) b)"
    by (rule batch_inv_append [OF assms(1)])
      (use assms(3,4) in \<open>simp_all add: seen_fast_Ack expected_fast\<close>, simp add: fast_Ack_def)
  moreover have "bt_ballot b = ballot" using assms(1) by (simp add: batch_inv_def)
  ultimately show ?thesis using assms(2) by (simp add: fast_first_def Let_def)
qed

lemma slow_after_inv:
  assumes b: "batch_inv ballot F S b" and "SwiftMLightSlowAck_Ballot (fst op) = ballot"
  shows "batch_inv ballot F (insert (SwiftMLightSlowAck_CmdId (fst op)) S) (slow_after op b)"
proof -
  let ?c = "SwiftMLightSlowAck_CmdId (fst op)"
  have ballot: "bt_ballot b = ballot" using b by (simp add: batch_inv_def)
  show ?thesis
  proof (cases "bt_is b ?c")
    case None
    then have new: "?c \<notin> S \<union> fa_CmdId ` F" using batch_inv_is [OF b] by simp
    have "batch_inv ballot F (insert ?c S) (append_Ack (slow_Ack (fst op)) b)"
      by (rule batch_inv_append [OF b])
        (use new in \<open>simp_all add: slow_Ack_def seen_Nil expected_slow\<close>)
    with None assms(2) ballot show ?thesis by (simp add: slow_after_def Let_def)
  next
    case (Some i)
    let ?a = "(bt_acks b ! i)\<lparr>SwiftAck_Dep := NilDepOfCmdId ?c, SwiftAck_Checksum := []\<rparr>"
    have i: "i < length (bt_acks b)" "SwiftAck_CmdId (bt_acks b ! i) = ?c"
      and d: "distinct (map SwiftAck_CmdId (bt_acks b))" using b Some by (simp_all add: batch_inv_def)
    have ids: "map SwiftAck_CmdId ((bt_acks b)[i := ?a]) = map SwiftAck_CmdId (bt_acks b)"
      using i by (simp add: map_update list_update_same_conv)
    have "seen ?a = seen_slow ?c" using i(2) by (simp add: seen_Nil)
    moreover have "set ((bt_acks b)[i := ?a]) = insert ?a (set (bt_acks b) - {bt_acks b ! i})"
      using d i(1) by (simp add: set_update_distinct distinct_map)
    moreover have "inj_on seen (set (bt_acks b))"
      using d by (metis (mono_tags, lifting) distinct_map fst_seen inj_on_def)
    then have "seen ` (set (bt_acks b) - {bt_acks b ! i}) = expected F S - {seen (bt_acks b ! i)}"
      using b i(1) by (simp add: batch_inv_def inj_on_image_set_diff)
    moreover have "insert (seen_slow ?c) (expected F S - {seen (bt_acks b ! i)}) = expected F (insert ?c S)"
    proof -
      have same: "x = seen (bt_acks b ! i)" if "x \<in> expected F S" "fst x = ?c" for x
      proof -
        have "x \<in> seen ` set (bt_acks b)" using b that(1) by (simp add: batch_inv_def)
        then obtain a where a: "a \<in> set (bt_acks b)" "x = seen a" by blast
        with that(2) have "SwiftAck_CmdId a = SwiftAck_CmdId (bt_acks b ! i)" using i(2) by simp
        with d a(1) i(1) have "a = bt_acks b ! i" by (metis distinct_map inj_on_eq_iff nth_mem)
        with a show ?thesis by simp
      qed
      moreover have "fst (seen (bt_acks b ! i)) = ?c" using i(2) by simp
      moreover have "expected F (insert ?c S) = insert (seen_slow ?c) {x \<in> expected F S. fst x \<noteq> ?c}"
        by (auto simp: expected_def seen_slow_def seen_fast_def)
      ultimately show ?thesis by auto
    qed
    ultimately have "seen ` set ((bt_acks b)[i := ?a]) = expected F (insert ?c S)" by simp
    moreover have "SwiftAck_CmdId ((bt_acks b)[i := ?a] ! j) = SwiftAck_CmdId (bt_acks b ! j)" if "j < length (bt_acks b)" for j
      using that i by (cases "j = i") simp_all
    ultimately have "batch_inv ballot F (insert ?c S) (b\<lparr>bt_acks := (bt_acks b)[i := ?a]\<rparr>)"
      using b ids by (auto simp: batch_inv_def)
    with Some assms(2) ballot show ?thesis by (simp add: slow_after_def Let_def)
  qed
qed

lemma slow_first_inv:
  assumes b: "batch_inv ballot {} S b" "SwiftMLightSlowAck_Ballot (fst op) = ballot" "SwiftMLightSlowAck_CmdId (fst op) \<notin> S"
  shows "batch_inv ballot {} (insert (SwiftMLightSlowAck_CmdId (fst op)) S) (slow_first op b)"
proof -
  have "batch_inv ballot {} (insert (SwiftMLightSlowAck_CmdId (fst op)) S) (append_Ack (slow_Ack (fst op)) b)"
    by (rule batch_inv_append [OF b(1)]) (use b(3) in \<open>simp_all add: slow_Ack_def seen_Nil expected_slow\<close>)
  moreover have "bt_ballot b = ballot" using b(1) by (simp add: batch_inv_def)
  ultimately show ?thesis using b(2) by (simp add: slow_first_def Let_def)
qed

lemma fast_after_inv:
  assumes b: "batch_inv ballot F S b" "fa_Ballot (fst op) = ballot" "dep_list (fa_Dep (fst op)) \<noteq> [fa_CmdId (fst op)]"
    and "fa_CmdId (fst op) \<notin> fa_CmdId ` F"
  shows "batch_inv ballot (insert (fst op) F) S (fast_after op b)"
proof -
  have ballot: "bt_ballot b = ballot" using b(1) by (simp add: batch_inv_def)
  show ?thesis
  proof (cases "fa_CmdId (fst op) \<in> S")
    case True
    then have "bt_is b (fa_CmdId (fst op)) \<noteq> None" using batch_inv_is [OF b(1)] by simp
    moreover have "batch_inv ballot (insert (fst op) F) S b"
      using b(1) True by (simp add: batch_inv_def expected_fast_again)
    ultimately show ?thesis using b(2) ballot by (auto simp: fast_after_def Let_def)
  next
    case False
    with assms(4) have "bt_is b (fa_CmdId (fst op)) = None" using batch_inv_is [OF b(1)] by simp
    moreover have "batch_inv ballot (insert (fst op) F) S (append_Ack (fast_Ack (fst op)) b)"
      by (rule batch_inv_append [OF b(1)])
        (use assms(3,4) False in \<open>simp_all add: seen_fast_Ack expected_fast\<close>, simp add: fast_Ack_def)
    ultimately show ?thesis using b(2) ballot by (simp add: fast_after_def Let_def)
  qed
qed

lemma empty_batch_inv: "batch_inv ballot {} {} (empty_batch ballot)"
  by (simp add: batch_inv_def empty_batch_def expected_def)

lemma fold_fast_first:
  assumes "batch_inv ballot F {} b" "proper_acks ballot fs" "fa_CmdId ` F \<inter> (fa_CmdId \<circ> fst) ` set fs = {}"
  shows "batch_inv ballot (F \<union> fst ` set fs) {} (fold fast_first fs b)"
  using assms
proof (induction fs arbitrary: F b)
  case (Cons op fs)
  have "batch_inv ballot (insert (fst op) F) {} (fast_first op b)"
    by (rule fast_first_inv) (use Cons.prems in \<open>auto simp: proper_acks_def\<close>)
  from Cons.IH [OF this] Cons.prems show ?case by (force simp: proper_acks_def)
qed simp

lemma fold_slow_after:
  assumes "batch_inv ballot F S b" "list_all (\<lambda>(s, _). SwiftMLightSlowAck_Ballot s = ballot) ss"
  shows "batch_inv ballot F (S \<union> (SwiftMLightSlowAck_CmdId \<circ> fst) ` set ss) (fold slow_after ss b)"
  using assms
proof (induction ss arbitrary: S b)
  case (Cons op ss)
  have "batch_inv ballot F (insert (SwiftMLightSlowAck_CmdId (fst op)) S) (slow_after op b)"
    by (rule slow_after_inv) (use Cons.prems in auto)
  from Cons.IH [OF this] Cons.prems show ?case by simp
qed simp

lemma fold_slow_first:
  assumes "batch_inv ballot {} S b" "list_all (\<lambda>(s, _). SwiftMLightSlowAck_Ballot s = ballot) ss"
    and "distinct (map (SwiftMLightSlowAck_CmdId \<circ> fst) ss)" "S \<inter> (SwiftMLightSlowAck_CmdId \<circ> fst) ` set ss = {}"
  shows "batch_inv ballot {} (S \<union> (SwiftMLightSlowAck_CmdId \<circ> fst) ` set ss) (fold slow_first ss b)"
  using assms
proof (induction ss arbitrary: S b)
  case (Cons op ss)
  have "batch_inv ballot {} (insert (SwiftMLightSlowAck_CmdId (fst op)) S) (slow_first op b)"
    by (rule slow_first_inv) (use Cons.prems in auto)
  from Cons.IH [OF this] Cons.prems show ?case by (force simp: image_iff)
qed simp

lemma fold_fast_after:
  assumes "batch_inv ballot F S b" "proper_acks ballot fs" "fa_CmdId ` F \<inter> (fa_CmdId \<circ> fst) ` set fs = {}"
  shows "batch_inv ballot (F \<union> fst ` set fs) S (fold fast_after fs b)"
  using assms
proof (induction fs arbitrary: F b)
  case (Cons op fs)
  have "batch_inv ballot (insert (fst op) F) S (fast_after op b)"
    by (rule fast_after_inv) (use Cons.prems in \<open>auto simp: proper_acks_def\<close>)
  from Cons.IH [OF this] Cons.prems show ?case by (force simp: proper_acks_def)
qed simp

text \<open>
  C26: a batch of acknowledgements of one ballot, whichever kind comes first, is one \<open>MOptAcks\<close> to all replicas, from which they
  read every light slow acknowledgement of the batch, the fast acknowledgements of the other commands, and nothing else.
\<close>

theorem batch_keeps_acks:
  assumes "proper_acks ballot fs" "ballot \<noteq> -1" "if fast then fs \<noteq> [] else ss \<noteq> []"
    and "list_all (\<lambda>(s, _). SwiftMLightSlowAck_Ballot s = ballot) ss" "distinct (map (SwiftMLightSlowAck_CmdId \<circ> fst) ss)"
  shows "\<exists>acks. last (batch_msgs rid fast fs ss) = (ToAll, SwiftMOptAcksMsg
       \<lparr>SwiftMOptAcks_Replica = rid, SwiftMOptAcks_Ballot = ballot, SwiftMOptAcks_Acks = acks\<rparr>) \<and>
     seen ` set acks = expected (fst ` set fs) ((SwiftMLightSlowAck_CmdId \<circ> fst) ` set ss)"
proof -
  obtain b where b: "collect fast fs ss = (ballot, b)"
    and inv: "batch_inv ballot (fst ` set fs) ((SwiftMLightSlowAck_CmdId \<circ> fst) ` set ss) b"
  proof (cases fast)
    case True
    then have "fa_Ballot (fst (hd fs)) = ballot" using assms(1,3) by (cases fs) (auto simp: proper_acks_def)
    with True show ?thesis
      using fold_slow_after [OF fold_fast_first [OF empty_batch_inv assms(1)] assms(4)]
      by (intro that) (simp_all add: collect_def)
  next
    case False
    then have "SwiftMLightSlowAck_Ballot (fst (hd ss)) = ballot" using assms(3,4) by (cases ss) auto
    with False show ?thesis
      using fold_fast_after [OF fold_slow_first [OF empty_batch_inv assms(4,5)] assms(1)]
      by (intro that) (simp_all add: collect_def)
  qed
  then show ?thesis using assms(2) by (auto simp: batch_msgs_def batch_inv_def)
qed

abbreviation sample_fast :: "(sw_ack \<times> bool) list" where
  "sample_fast \<equiv> [(\<lparr>fa_Replica = 1, fa_Ballot = 0, fa_CmdId = CommandId 1 0, fa_Dep = Some [], fa_Checksum = [], fa_Seqnum = 0\<rparr>, True),
     (\<lparr>fa_Replica = 1, fa_Ballot = 0, fa_CmdId = CommandId 1 1, fa_Dep = Some [CommandId 1 0], fa_Checksum = [], fa_Seqnum = 0\<rparr>, True)]"

abbreviation sample_slow :: "(SwiftMLightSlowAck \<times> bool) list" where
  "sample_slow \<equiv> [(\<lparr>SwiftMLightSlowAck_Replica = 1, SwiftMLightSlowAck_Ballot = 0, SwiftMLightSlowAck_CmdId = CommandId 1 1\<rparr>, True)]"

theorem batch_keeps_acks_witness:
  "\<exists>acks. last (batch_msgs 1 True sample_fast sample_slow) = (ToAll, SwiftMOptAcksMsg
       \<lparr>SwiftMOptAcks_Replica = 1, SwiftMOptAcks_Ballot = 0, SwiftMOptAcks_Acks = acks\<rparr>) \<and>
     seen ` set acks = expected (fst ` set sample_fast) ((SwiftMLightSlowAck_CmdId \<circ> fst) ` set sample_slow)"
  by (rule batch_keeps_acks) (simp_all add: proper_acks_def dep_list_def)

end
