(* ===== verification/SwiftRuns.thy ===== *)
theory SwiftRuns
  imports SwiftRecovery SwiftBatch
begin

text \<open>
  The Swift replicas together: steps of their goroutines and main loops, and runs in which they fail.
\<close>

section \<open>The system\<close>

datatype swift_action =
    TakePropose int SwiftGPropose
  | TakeDeliver int nat nat
  | TakeRepropose int nat
  | TakeMsg int int nat "CommandId list" \<comment> \<open>from a replica, the position of the message among those it sent\<close>
  | TakeRecover int "CommandId list"
  | BecomeLeader int
  | RunTodo int
  | HandleDesc int CommandId
  | RunReply int
  | Batch int bool

type_synonym 'st swift_run = "'st SwiftReplica + 'st SwiftReplica"
type_synonym 'st swift_system = "'st swift_run list"

definition of_run :: "'st swift_run \<Rightarrow> 'st SwiftReplica" where
  "of_run x = (case x of Inl r \<Rightarrow> r | Inr r \<Rightarrow> r)"

definition addressed :: "int \<Rightarrow> int \<Rightarrow> swift_dest \<Rightarrow> bool" where
  "addressed q p d = (case d of ToAll \<Rightarrow> p \<noteq> q | ToReplica k \<Rightarrow> p = k | ToClient c \<Rightarrow> False)"

definition idle :: "'st SwiftReplica \<Rightarrow> bool" where
  "idle r \<longleftrightarrow> sr_todo r = [] \<and> sr_status r = NORMAL"

definition ready :: "'st SwiftReplica option \<Rightarrow> ('st, 'st SwiftReplica) swift_res" where
  "ready x = (case x of None \<Rightarrow> wait | Some r \<Rightarrow> Inr r)"

text \<open>
  A replica that recovers is in the inner loop of \<open>handleNewLeader\<close>: it only takes messages (\<open>take_msg\<close> says which).
\<close>

fun swift_step ::
  "(bytes \<Rightarrow> bytes) \<Rightarrow> 'st treemap \<Rightarrow> 'st swift_system \<Rightarrow> swift_action \<Rightarrow>
     int \<times> ('st SwiftReplica \<Rightarrow> ('st, 'st SwiftReplica) swift_res)" where
  "swift_step sha T S (TakePropose p g) = (p, \<lambda>r. if idle r then Inr (r\<lparr>sr_todo := [Proposal g]\<rparr>) else wait)"
| "swift_step sha T S (TakeDeliver p k j) = (p, \<lambda>r. if idle r then take_deliver k j r else wait)"
| "swift_step sha T S (TakeRepropose p k) = (p, \<lambda>r. if idle r then take_repropose k r else wait)"
| "swift_step sha T S (TakeMsg p q k ord) = (p, \<lambda>r.
     if sr_todo r = [] \<and> 0 \<le> q \<and> nat q < length S \<and> k < length (sr_sent (of_run (S ! nat q)))
     then (case sr_sent (of_run (S ! nat q)) ! k of (d, m) \<Rightarrow> if addressed q p d then take_msg T ord m r else wait)
     else wait)"
| "swift_step sha T S (TakeRecover p ord) = (p, \<lambda>r. if idle r then take_recover T ord r else wait)"
| "swift_step sha T S (BecomeLeader p) = (p, \<lambda>r. Inr (snd (BeTheLeader r)))"
| "swift_step sha T S (RunTodo p) = (p, run_todo sha T)"
| "swift_step sha T S (HandleDesc p cmdId) = (p, handleDesc T cmdId)"
| "swift_step sha T S (RunReply p) = (p, \<lambda>r. ready (run_reply r))"
| "swift_step sha T S (Batch p fast) = (p, \<lambda>r. ready (run_batch fast r))"

definition swift_act :: "(bytes \<Rightarrow> bytes) \<Rightarrow> 'st treemap \<Rightarrow> swift_action \<Rightarrow> 'st swift_system \<Rightarrow> 'st swift_system option" where
  "swift_act sha T a S =
     (let (p, f) = swift_step sha T S a
      in if p < 0 \<or> length S \<le> nat p then None
         else case S ! nat p of
           Inl r \<Rightarrow> None
         | Inr r \<Rightarrow>
             (case f r of Inr r \<Rightarrow> Some (S[nat p := Inr r]) | Inl (Some r) \<Rightarrow> Some (S[nat p := Inl r]) | Inl None \<Rightarrow> None))"

fun swift_acts :: "(bytes \<Rightarrow> bytes) \<Rightarrow> 'st treemap \<Rightarrow> swift_action list \<Rightarrow> 'st swift_system \<Rightarrow> 'st swift_system option" where
  "swift_acts sha T [] S = Some S"
| "swift_acts sha T (a # as) S = (case swift_act sha T a S of None \<Rightarrow> None | Some S \<Rightarrow> swift_acts sha T as S)"

text \<open>The system without a quorum file: the fast quorum of ballot 0 is a majority with replica 0.\<close>

definition default_qs :: "int \<Rightarrow> quorum_system" where
  "default_qs n = \<lparr>sys_qs = NewQuorumSet (n div 2 + 1) n, ballots = []\<rparr>"

definition NewSwiftSystem :: "int \<Rightarrow> bool \<Rightarrow> 'st \<Rightarrow> 'st swift_system" where
  "NewSwiftSystem n optExec st =
     List.map_filter (\<lambda>p. map_option Inr (NewSwiftReplica p n True False optExec 1 (default_qs n) False {} st)) [0..n - 1]"

declare alive_ballot.simps [code] hash_from.simps [code]

definition swift_put :: "int \<Rightarrow> int \<Rightarrow> SwiftGPropose" where
  "swift_put k n = \<lparr>Propose_CommandId = n, Propose_ClientId = 1, Propose_Command = \<lparr>Op = PUT, K = k, V = [word_of_int n]\<rparr>,
                   Propose_Timestamp = 0, GPropose_Proxy = True, GPropose_Addr = []\<rparr>"

abbreviation cmdA :: CommandId where "cmdA \<equiv> CommandId 1 1"
abbreviation cmdB :: CommandId where "cmdB \<equiv> CommandId 1 2"
abbreviation cmdC :: CommandId where "cmdC \<equiv> CommandId 1 3"

text \<open>A proposal that the main loop hands over, with the turn of the goroutine of the command.\<close>

definition propose_seq :: "int \<Rightarrow> SwiftGPropose \<Rightarrow> swift_action list" where
  "propose_seq p g = [TakePropose p g, RunTodo p]"

definition propose :: "int \<Rightarrow> SwiftGPropose \<Rightarrow> swift_action list" where
  "propose p g = [TakePropose p g, RunTodo p, HandleDesc p (proposed_id g)]"

definition receive :: "int \<Rightarrow> int \<Rightarrow> nat \<Rightarrow> CommandId \<Rightarrow> swift_action list" where
  "receive p q k cmdId = [TakeMsg p q k [], RunTodo p, HandleDesc p cmdId]"

definition swift_reorders :: "swift_action list" where
  "swift_reorders = propose_seq 0 (swift_put 7 1) @ [Batch 0 True] @ propose_seq 0 (swift_put 7 2) @ [Batch 0 True] @
     propose 1 (swift_put 7 1) @ propose 1 (swift_put 7 2) @ [Batch 1 True] @
     receive 1 0 0 cmdA @ [Batch 1 False] @ receive 1 0 1 cmdB @ [Batch 1 False] @
     [TakeMsg 0 1 0 [], RunTodo 0, RunTodo 0] @
     propose 2 (swift_put 7 1) @ propose 2 (swift_put 7 2) @
     receive 2 1 2 cmdB @ receive 2 0 1 cmdB @ receive 2 1 1 cmdA @ receive 2 0 0 cmdA"

definition swift_recovers1 :: "swift_action list" where
  "swift_recovers1 = propose_seq 0 (swift_put 7 1) @ [Batch 0 True] @ propose_seq 0 (swift_put 7 2) @ [Batch 0 True] @
     propose_seq 0 (swift_put 8 3) @ [Batch 0 True] @
     propose 1 (swift_put 7 1) @ propose 1 (swift_put 7 2) @
     receive 1 0 0 cmdA @ receive 1 0 1 cmdB @ [RunReply 1, RunReply 1, HandleDesc 1 cmdA, HandleDesc 1 cmdB] @
     propose 2 (swift_put 8 3) @ receive 2 0 2 cmdC @ [RunReply 2, HandleDesc 2 cmdC] @
     [Batch 2 False] @
     propose 2 (swift_put 7 2) @ propose 2 (swift_put 7 1)"

definition swift_recovers2 :: "swift_action list" where
  "swift_recovers2 = [BecomeLeader 2, TakeRecover 2 [], TakeMsg 1 2 2 [], TakeMsg 2 1 2 [], TakeMsg 0 2 3 []]"

definition swift_recovers3 :: "swift_action list" where
  "swift_recovers3 = [TakeRepropose 2 0, RunTodo 2, Batch 2 True, TakeRepropose 2 0, RunTodo 2, Batch 2 True,
     TakeRepropose 0 0, RunTodo 0, HandleDesc 0 cmdA, TakeRepropose 0 0, RunTodo 0, HandleDesc 0 cmdB] @
     receive 0 2 7 cmdB @ receive 0 2 8 cmdA @ [Batch 0 False, TakeMsg 2 0 6 [], RunTodo 2, RunTodo 2]"

section \<open>Commands in different orders\<close>

definition no_recovery :: "swift_action \<Rightarrow> bool" where
  "no_recovery a = (case a of TakeRecover p ord \<Rightarrow> False | BecomeLeader p \<Rightarrow> False | _ \<Rightarrow> True)"

definition states :: "'st swift_system \<Rightarrow> (int \<times> CommandId set \<times> 'st) option list" where
  "states S = map (\<lambda>x. case x of Inl r \<Rightarrow> None | Inr r \<Rightarrow> Some (sr_ballot r, sr_delivered r, sr_State r)) S"

lemma states_nth:
  "states S = xs \<Longrightarrow> i < length xs \<Longrightarrow> xs ! i = Some (b, D, st) \<Longrightarrow>
     \<exists>r. S ! i = Inr r \<and> sr_ballot r = b \<and> sr_delivered r = D \<and> sr_State r = st"
  by (auto simp: states_def split: sum.splits)

lemma run_states:
  assumes "\<And>P. (case x of None \<Rightarrow> False | Some S \<Rightarrow> P (states S)) = P xs"
  shows "\<exists>S. x = Some S \<and> states S = xs"
  using assms [of "\<lambda>y. y = xs"] by (auto split: option.splits)

lemma swift_reorders_states:
  "(case swift_acts sha T swift_reorders (NewSwiftSystem 3 False st) of None \<Rightarrow> False | Some S \<Rightarrow> P (states S)) =
   P [Some (0, {cmdB, cmdA}, tm_Put T 7 [2] (tm_Put T 7 [1] st)), Some (0, {cmdB, cmdA}, tm_Put T 7 [2] (tm_Put T 7 [1] st)),
      Some (0, {cmdA, cmdB}, tm_Put T 7 [1] (tm_Put T 7 [2] st))]"
  by code_simp

text \<open>
  C7: a run without failures, message loss or a change of the leader in which two replicas execute two writes of one
  key in different orders: one of them gets the acknowledgement of another replica before that of the leader, and commits the
  command with its own dependencies.
\<close>

theorem swift_executes_out_of_order:
  "\<exists>as S r0 r2. swift_acts sha T as (NewSwiftSystem 3 False st) = Some S \<and> list_all no_recovery as \<and>
     S ! 0 = Inr r0 \<and> S ! 2 = Inr r2 \<and>
     sr_State r0 = tm_Put T 7 [2] (tm_Put T 7 [1] st) \<and> sr_State r2 = tm_Put T 7 [1] (tm_Put T 7 [2] st)"
proof -
  obtain S where S: "swift_acts sha T swift_reorders (NewSwiftSystem 3 False st) = Some S"
    and "states S = [Some (0, {cmdB, cmdA}, tm_Put T 7 [2] (tm_Put T 7 [1] st)),
      Some (0, {cmdB, cmdA}, tm_Put T 7 [2] (tm_Put T 7 [1] st)), Some (0, {cmdA, cmdB}, tm_Put T 7 [1] (tm_Put T 7 [2] st))]"
    using run_states [OF swift_reorders_states [where sha = sha and T = T and st = st]] by blast
  from states_nth [OF this(2), of 0] states_nth [OF this(2), of 2]
  obtain r0 r2 where "S ! 0 = Inr r0" "S ! 2 = Inr r2"
    "sr_State r0 = tm_Put T 7 [2] (tm_Put T 7 [1] st)" "sr_State r2 = tm_Put T 7 [1] (tm_Put T 7 [2] st)" by auto
  moreover have "list_all no_recovery swift_reorders" by code_simp
  ultimately show ?thesis using S by blast
qed

section \<open>A recovery that loses committed commands\<close>

lemma swift_recovers_states:
  "(case swift_acts sha T (swift_recovers1 @ swift_recovers2 @ swift_recovers3) (NewSwiftSystem 3 False st) of
      None \<Rightarrow> False | Some S \<Rightarrow> P (states S)) =
   P [Some (5, {cmdA, cmdB}, tm_Put T 7 [1] (tm_Put T 7 [2] st)), Some (5, {cmdB, cmdA}, tm_Put T 7 [2] (tm_Put T 7 [1] st)),
      Some (5, {cmdA, cmdB, cmdC}, tm_Put T 7 [1] (tm_Put T 7 [2] (tm_Put T 8 [3] st)))]"
  by code_simp


definition answers :: "'st SwiftReplica \<Rightarrow> CommandId list" where
  "answers r = concat (map (\<lambda>(d, m). case m of SwiftMAcceptMsg a \<Rightarrow> [SwiftMAccept_CmdId a] | _ \<Rightarrow> []) (sr_sent r))"

lemma swift_answers_eval:
  "(case swift_acts sha T (swift_recovers1 @ swift_recovers2) (NewSwiftSystem 3 False st) of None \<Rightarrow> None
    | Some S \<Rightarrow> (case S ! 0 of Inl r \<Rightarrow> None | Inr r \<Rightarrow> Some (answers r, sr_delivered r))) = Some ([cmdA, cmdB, cmdC], {})"
  by code_simp

text \<open>
  A run in which a replica that has executed nothing tells the client, after a recovery, that its commands are done.
\<close>

theorem swift_answers_unexecuted:
  "\<exists>as S r. swift_acts sha T as (NewSwiftSystem 3 False st) = Some S \<and> S ! 0 = Inr r \<and>
     answers r = [cmdA, cmdB, cmdC] \<and> sr_delivered r = {}"
  using swift_answers_eval [of sha T st] by (auto split: option.splits sum.splits)

section \<open>A second recovery\<close>

text \<open>
  C25: a replica that recovers and hears of a still newer leader waits for its reply channel, which it has stopped, for ever.
\<close>

theorem swift_second_recovery_hangs:
  assumes "handleNewLeader T ord m r = Inr r'" "SwiftMNewLeader_Replica m \<noteq> sr_Id r"
    and "sr_ballot r < SwiftMNewLeader_Ballot m" "SwiftMNewLeader_Ballot m < SwiftMNewLeader_Ballot m'"
  shows "\<exists>r''. handleNewLeader T ord' m' r' = Inl (Some r'')"
  using assms
  by (auto simp: handleNewLeader_def stop_replies_def and_then_def halt_def stopDescs_def send_def Let_def split: if_splits)

abbreviation sample_replica :: "unit SwiftReplica" where
  "sample_replica \<equiv> the (NewSwiftReplica 0 3 True False False 1 \<lparr>sys_qs = [], ballots = []\<rparr> True {} ())"

theorem swift_second_recovery_hangs_witness:
  "\<exists>r' r''. handleNewLeader undefined [] \<lparr>SwiftMNewLeader_Replica = 1, SwiftMNewLeader_Ballot = 4\<rparr> sample_replica = Inr r' \<and>
     handleNewLeader undefined [] \<lparr>SwiftMNewLeader_Replica = 2, SwiftMNewLeader_Ballot = 5\<rparr> r' = Inl (Some r'')"
proof -
  have "\<exists>r'. handleNewLeader undefined [] \<lparr>SwiftMNewLeader_Replica = 1, SwiftMNewLeader_Ballot = 4\<rparr> sample_replica = Inr r'"
    by (simp add: handleNewLeader_def stop_replies_def stopDescs_def and_then_def NewSwiftReplica_def BallotAt_def Let_def)
  moreover have "sr_Id sample_replica = 0" "sr_ballot sample_replica = 0"
    by (simp_all add: NewSwiftReplica_def BallotAt_def Let_def)
  ultimately show ?thesis
    using swift_second_recovery_hangs [where ord = "[]" and ord' = "[]" and r = sample_replica
      and m = "\<lparr>SwiftMNewLeader_Replica = 1, SwiftMNewLeader_Ballot = 4\<rparr>"
      and m' = "\<lparr>SwiftMNewLeader_Replica = 2, SwiftMNewLeader_Ballot = 5\<rparr>"] by fastforce
qed

end
