(* ===== verification/SwiftClient.thy ===== *)
theory SwiftClient
  imports Swift
begin

text \<open>
  The client of Swift (\<open>swift/client.go\<close>): it registers the reply of the leader when a fast quorum has executed the
  commands of the keys in the same order, told by equal hashes, or a majority has accepted the order of the leader; and
  what an \<open>MAccept\<close> says of a command.

  \<open>nil\<close>, the first \<open>val\<close>, is the empty value.  The counts of slow paths, which are only printed, are not modelled.
\<close>

record SwiftClient =
  sc_val :: "value"
  sc_ballot :: int
  sc_delivered :: "CommandId set"
  sc_SQ :: quorum
  sc_FQ :: quorum
  sc_slowPathH :: "CommandId \<Rightarrow> sw_ack msgset option"
  sc_fastPathH :: "CommandId \<Rightarrow> sw_ack msgset option"
  sc_replies :: "(CommandId \<times> value) list" \<comment> \<open>what \<open>RegisterReply\<close> was called with, for which command\<close>

definition NewSwiftClient :: "int \<Rightarrow> SwiftClient" where
  "NewSwiftClient n = \<lparr>sc_val = [], sc_ballot = -1, sc_delivered = {}, sc_SQ = NewMajorityOf n, sc_FQ = NewMajorityOf n,
     sc_slowPathH = Map.empty, sc_fastPathH = Map.empty, sc_replies = []\<rparr>"

text \<open>The function \<open>accept\<close> of \<open>initMsgSets\<close>.\<close>

definition accept :: "sw_ack \<Rightarrow> sw_ack option \<Rightarrow> bool" where
  "accept msg leaderMsg = (case leaderMsg of None \<Rightarrow> True | Some l \<Rightarrow> SHashesEq (fa_Checksum l) (fa_Checksum msg))"

definition initMsgSets :: "CommandId \<Rightarrow> SwiftClient \<Rightarrow> SwiftClient" where
  "initMsgSets cmdId c =
     (let c = (if sc_slowPathH c cmdId = None
               then c\<lparr>sc_slowPathH := (sc_slowPathH c)(cmdId \<mapsto> ReinitMsgSet None (sc_SQ c))\<rparr> else c)
      in if sc_fastPathH c cmdId = None
         then c\<lparr>sc_fastPathH := (sc_fastPathH c)(cmdId \<mapsto> ReinitMsgSet None (sc_FQ c))\<rparr> else c)"

definition deliver_reply :: "CommandId \<Rightarrow> SwiftClient \<Rightarrow> SwiftClient" where
  "deliver_reply cmdId c =
     (if cmdId \<in> sc_delivered c then c
      else c\<lparr>sc_delivered := insert cmdId (sc_delivered c), sc_replies := sc_replies c @ [(cmdId, sc_val c)]\<rparr>)"

definition handleFastAndSlowAcks :: "sw_ack option \<times> sw_ack list \<Rightarrow> SwiftClient \<Rightarrow> SwiftClient" where
  "handleFastAndSlowAcks x c = (case fst x of None \<Rightarrow> c | Some l \<Rightarrow> deliver_reply (fa_CmdId l) c)"

text \<open>\<open>Add\<close> to one of the two sets of a command, with the call of the handler it makes.\<close>

definition called :: "sw_ack add_result \<Rightarrow> SwiftClient \<Rightarrow> SwiftClient" where
  "called res c = (case call res of None \<Rightarrow> c | Some x \<Rightarrow> handleFastAndSlowAcks x c)"

definition add_slow :: "sw_ack \<Rightarrow> bool \<Rightarrow> SwiftClient \<Rightarrow> SwiftClient" where
  "add_slow f isL c =
     (case sc_slowPathH c (fa_CmdId f) of
        None \<Rightarrow> c
      | Some ms \<Rightarrow>
          let (res, ms) = Add accept (fa_Replica f) isL f ms
          in called res (c\<lparr>sc_slowPathH := (sc_slowPathH c)(fa_CmdId f \<mapsto> ms)\<rparr>))"

definition add_fast :: "sw_ack \<Rightarrow> bool \<Rightarrow> SwiftClient \<Rightarrow> SwiftClient" where
  "add_fast f isL c =
     (case sc_fastPathH c (fa_CmdId f) of
        None \<Rightarrow> c
      | Some ms \<Rightarrow>
          let (res, ms) = Add accept (fa_Replica f) isL f ms
          in called res (c\<lparr>sc_fastPathH := (sc_fastPathH c)(fa_CmdId f \<mapsto> ms)\<rparr>))"

definition handleFastAck :: "sw_ack \<Rightarrow> bool \<Rightarrow> SwiftClient \<Rightarrow> SwiftClient" where
  "handleFastAck f fromLeader c =
     (let go = (\<lambda>c. if fa_CmdId f \<in> sc_delivered c then c else add_fast f fromLeader (initMsgSets (fa_CmdId f) c))
      in if sc_ballot c = -1 then go (c\<lparr>sc_ballot := fa_Ballot f\<rparr>)
         else if sc_ballot c < fa_Ballot f then go (c\<lparr>sc_ballot := fa_Ballot f\<rparr>)
         else if sc_ballot c > fa_Ballot f then c
         else go c)"

definition slow_if_undelivered :: "sw_ack \<Rightarrow> bool \<Rightarrow> SwiftClient \<Rightarrow> SwiftClient" where
  "slow_if_undelivered f fromLeader c =
     (if fa_CmdId f \<in> sc_delivered c then c
      else add_slow (f\<lparr>fa_Checksum := []\<rparr>) fromLeader (initMsgSets (fa_CmdId f) c))"

definition handleLightSlowAck :: "SwiftMLightSlowAck \<Rightarrow> SwiftClient \<Rightarrow> SwiftClient" where
  "handleLightSlowAck ls c =
     (if SwiftMLightSlowAck_CmdId ls \<in> sc_delivered c then c
      else let f = \<lparr>fa_Replica = SwiftMLightSlowAck_Replica ls, fa_Ballot = SwiftMLightSlowAck_Ballot ls,
                    fa_CmdId = SwiftMLightSlowAck_CmdId ls, fa_Dep = None, fa_Checksum = [], fa_Seqnum = 0\<rparr>
           in slow_if_undelivered f False (handleFastAck f False c))"

definition reply_ack :: "SwiftMReply \<Rightarrow> sw_ack" where
  "reply_ack r = \<lparr>fa_Replica = SwiftMReply_Replica r, fa_Ballot = SwiftMReply_Ballot r, fa_CmdId = SwiftMReply_CmdId r,
     fa_Dep = None, fa_Checksum = SwiftMReply_Checksum r, fa_Seqnum = 0\<rparr>"

definition handleReply :: "SwiftMReply \<Rightarrow> SwiftClient \<Rightarrow> SwiftClient" where
  "handleReply r c =
     (if SwiftMReply_CmdId r \<in> sc_delivered c then c
      else slow_if_undelivered (reply_ack r) True (handleFastAck (reply_ack r) True (c\<lparr>sc_val := SwiftMReply_Rep r\<rparr>)))"

definition handleAccept :: "SwiftMAccept \<Rightarrow> SwiftClient \<Rightarrow> SwiftClient" where
  "handleAccept a c =
     (if SwiftMAccept_CmdId a \<in> sc_delivered c then c
      else deliver_reply (SwiftMAccept_CmdId a) (c\<lparr>sc_val := SwiftMAccept_Rep a\<rparr>))"

definition client_fast :: "SwiftMFastAckClient \<Rightarrow> sw_ack" where
  "client_fast m = \<lparr>fa_Replica = SwiftMFastAckClient_Replica m, fa_Ballot = SwiftMFastAckClient_Ballot m,
     fa_CmdId = SwiftMFastAckClient_CmdId m, fa_Dep = None, fa_Checksum = SwiftMFastAckClient_Checksum m, fa_Seqnum = 0\<rparr>"

text \<open>What the client makes of an acknowledgement of \<open>MOptAcks\<close>: a light slow acknowledgement has no hashes.\<close>

definition opt_ack :: "SwiftMOptAcks \<Rightarrow> SwiftAck \<Rightarrow> sw_ack" where
  "opt_ack m a = \<lparr>fa_Replica = SwiftMOptAcks_Replica m, fa_Ballot = SwiftMOptAcks_Ballot m, fa_CmdId = SwiftAck_CmdId a,
     fa_Dep = None,
     fa_Checksum = (if \<not> IsNilDepOfCmdId (SwiftAck_CmdId a) (SwiftAck_Dep a) then SwiftAck_Checksum a else []),
     fa_Seqnum = 0\<rparr>"

text \<open>
  \<open>fastAck.Checksum == nil\<close>: a light slow acknowledgement, or hashes that are \<open>nil\<close>; those read from a message never are.
\<close>

definition handleOptAck :: "SwiftMOptAcks \<Rightarrow> SwiftAck \<Rightarrow> SwiftClient \<Rightarrow> SwiftClient" where
  "handleOptAck m a c =
     (if SwiftAck_CmdId a \<in> sc_delivered c then c
      else let c = handleFastAck (opt_ack m a) False c
           in if IsNilDepOfCmdId (SwiftAck_CmdId a) (SwiftAck_Dep a) then slow_if_undelivered (opt_ack m a) False c else c)"

fun handleMsgs :: "swift_sync swift_msg \<Rightarrow> SwiftClient \<Rightarrow> SwiftClient" where
  "handleMsgs (SwiftMReplyMsg r) c = handleReply r c"
| "handleMsgs (SwiftMAcceptMsg a) c = handleAccept a c"
| "handleMsgs (SwiftMFastAckMsg f) c = handleFastAck (ack_of_wire f) False c"
| "handleMsgs (SwiftMFastAckClientMsg f) c = handleFastAck (client_fast f) False c"
| "handleMsgs (SwiftMLightSlowAckMsg s) c = handleLightSlowAck s c"
| "handleMsgs (SwiftMAcksMsg m) c =
     fold handleLightSlowAck (SwiftMAcks_LightSlowAcks m)
       (fold (\<lambda>f. handleFastAck (ack_of_wire f) False) (SwiftMAcks_FastAcks m) c)"
| "handleMsgs (SwiftMOptAcksMsg m) c = fold (handleOptAck m) (SwiftMOptAcks_Acks m) c"
| "handleMsgs _ c = c"

definition client_run :: "int \<Rightarrow> swift_sync swift_msg list \<Rightarrow> SwiftClient" where
  "client_run n ms = fold handleMsgs ms (NewSwiftClient n)"

section \<open>What the client has heard\<close>

text \<open>
  An event is a message of the leader or an acknowledgement, as they are added to the sets: the fast ones with their hashes,
  the slow ones without.
\<close>

datatype event = FromLeader SwiftMReply | Fast sw_ack | Slow CommandId int | Accepted SwiftMAccept

fun events :: "swift_sync swift_msg \<Rightarrow> event list" where
  "events (SwiftMReplyMsg r) = [FromLeader r]"
| "events (SwiftMAcceptMsg a) = [Accepted a]"
| "events (SwiftMFastAckMsg f) = [Fast (ack_of_wire f)]"
| "events (SwiftMFastAckClientMsg f) = [Fast (client_fast f)]"
| "events (SwiftMLightSlowAckMsg s) = [Slow (SwiftMLightSlowAck_CmdId s) (SwiftMLightSlowAck_Replica s)]"
| "events (SwiftMAcksMsg m) = map (\<lambda>f. Fast (ack_of_wire f)) (SwiftMAcks_FastAcks m) @
     map (\<lambda>s. Slow (SwiftMLightSlowAck_CmdId s) (SwiftMLightSlowAck_Replica s)) (SwiftMAcks_LightSlowAcks m)"
| "events (SwiftMOptAcksMsg m) = map (\<lambda>a.
     if IsNilDepOfCmdId (SwiftAck_CmdId a) (SwiftAck_Dep a) then Slow (SwiftAck_CmdId a) (SwiftMOptAcks_Replica m)
     else Fast (opt_ack m a)) (SwiftMOptAcks_Acks m)"
| "events _ = []"

definition heard :: "swift_sync swift_msg list \<Rightarrow> event set" where
  "heard ms = set (concat (map events ms))"

text \<open>Only replica \<open>l\<close> sends \<open>MReply\<close>, and it sends no acknowledgement.\<close>

definition one_leader :: "int \<Rightarrow> event set \<Rightarrow> bool" where
  "one_leader l E \<longleftrightarrow> (\<forall>r. FromLeader r \<in> E \<longrightarrow> SwiftMReply_Replica r = l) \<and>
     (\<forall>f. Fast f \<in> E \<longrightarrow> fa_Replica f \<noteq> l) \<and> (\<forall>c p. Slow c p \<in> E \<longrightarrow> p \<noteq> l)"

text \<open>
  The leader has answered command \<open>c\<close>, and it and a majority agree: each of the others acknowledges the command with the
  hashes of the leader, or all of them accept the order of the leader.
\<close>

definition fast_quorum :: "int \<Rightarrow> int \<Rightarrow> event set \<Rightarrow> CommandId \<Rightarrow> bool" where
  "fast_quorum n l E c \<longleftrightarrow>
     (\<exists>r S. FromLeader r \<in> E \<and> SwiftMReply_CmdId r = c \<and> finite S \<and> l \<in> S \<and> n < 2 * int (card S) \<and>
        (\<forall>p \<in> S - {l}. (\<exists>f. Fast f \<in> E \<and> fa_Replica f = p \<and> fa_CmdId f = c \<and>
                          SHashesEq (SwiftMReply_Checksum r) (fa_Checksum f)) \<or>
                       Slow c p \<in> E \<and> SHashesEq (SwiftMReply_Checksum r) []))"

definition slow_quorum :: "int \<Rightarrow> int \<Rightarrow> event set \<Rightarrow> CommandId \<Rightarrow> bool" where
  "slow_quorum n l E c \<longleftrightarrow>
     (\<exists>r S. FromLeader r \<in> E \<and> SwiftMReply_CmdId r = c \<and> finite S \<and> l \<in> S \<and> n < 2 * int (card S) \<and>
        (\<forall>p \<in> S - {l}. Slow c p \<in> E))"

definition answered :: "int \<Rightarrow> int \<Rightarrow> event set \<Rightarrow> CommandId \<Rightarrow> bool" where
  "answered n l E c \<longleftrightarrow> (\<exists>a. Accepted a \<in> E \<and> SwiftMAccept_CmdId a = c) \<or> fast_quorum n l E c \<or> slow_quorum n l E c"

section \<open>Invariant\<close>

definition slow_hist :: "int \<Rightarrow> event set \<Rightarrow> CommandId \<Rightarrow> (int \<times> sw_ack) set" where
  "slow_hist l E c = {(fa_Replica f, f) | f. Slow c (fa_Replica f) \<in> E \<and> fa_CmdId f = c \<and> fa_Checksum f = []} \<union>
     {(l, (reply_ack r)\<lparr>fa_Checksum := []\<rparr>) | r. FromLeader r \<in> E \<and> SwiftMReply_CmdId r = c}"

definition fast_hist :: "int \<Rightarrow> event set \<Rightarrow> CommandId \<Rightarrow> (int \<times> sw_ack) set" where
  "fast_hist l E c = {(fa_Replica f, f) | f. Fast f \<in> E \<and> fa_CmdId f = c} \<union>
     {(fa_Replica f, f) | f. Slow c (fa_Replica f) \<in> E \<and> fa_CmdId f = c \<and> fa_Checksum f = []} \<union>
     {(l, reply_ack r) | r. FromLeader r \<in> E \<and> SwiftMReply_CmdId r = c}"

lemma hist_cmd: "(p, f) \<in> slow_hist l E c \<Longrightarrow> fa_CmdId f = c" "(p, f) \<in> fast_hist l E c \<Longrightarrow> fa_CmdId f = c"
  by (auto simp: slow_hist_def fast_hist_def reply_ack_def)

definition client_inv :: "int \<Rightarrow> int \<Rightarrow> event set \<Rightarrow> SwiftClient \<Rightarrow> bool" where
  "client_inv n l E c \<longleftrightarrow> sc_SQ c = NewMajorityOf n \<and> sc_FQ c = NewMajorityOf n \<and>
     (\<forall>cmdId s. sc_slowPathH c cmdId = Some s \<longrightarrow> msgset_inv accept l (slow_hist l E cmdId) s \<and> ms_q s = NewMajorityOf n) \<and>
     (\<forall>cmdId s. sc_fastPathH c cmdId = Some s \<longrightarrow> msgset_inv accept l (fast_hist l E cmdId) s \<and> ms_q s = NewMajorityOf n) \<and>
     distinct (map fst (sc_replies c)) \<and> fst ` set (sc_replies c) = sc_delivered c \<and>
     (\<forall>cmdId \<in> sc_delivered c. answered n l E cmdId)"

lemma swift_client_inv_fields [simp]:
  "client_inv n l E (c\<lparr>sc_ballot := b\<rparr>) = client_inv n l E c"
  "client_inv n l E (c\<lparr>sc_val := v\<rparr>) = client_inv n l E c"
  by (simp_all add: client_inv_def)

lemma majority_size: "Size (NewMajorityOf n) \<le> int k \<Longrightarrow> n < 2 * int k"
  by (cases "n < 0") (simp_all add: NewMajorityOf_def go_div_nonneg)

lemma new_slow_inv:
  assumes "client_inv n l E c"
  shows "client_inv n l E (c\<lparr>sc_slowPathH := (sc_slowPathH c)(cmdId \<mapsto> NewMsgSet (sc_SQ c))\<rparr>)"
  using assms msgset_inv_New [of accept l "slow_hist l E cmdId" "sc_SQ c"] unfolding client_inv_def
  by (simp add: NewMsgSet_def)

lemma new_fast_inv:
  assumes "client_inv n l E c"
  shows "client_inv n l E (c\<lparr>sc_fastPathH := (sc_fastPathH c)(cmdId \<mapsto> NewMsgSet (sc_FQ c))\<rparr>)"
  using assms msgset_inv_New [of accept l "fast_hist l E cmdId" "sc_FQ c"] unfolding client_inv_def
  by (simp add: NewMsgSet_def)

lemma swift_initMsgSets_inv:
  assumes "client_inv n l E c"
  shows "client_inv n l E (initMsgSets cmdId c)"
  using assms new_slow_inv [OF assms, of cmdId] new_fast_inv [OF assms, of cmdId]
    new_fast_inv [OF new_slow_inv [OF assms, of cmdId], of cmdId]
  by (cases "sc_slowPathH c cmdId"; cases "sc_fastPathH c cmdId") (simp_all add: initMsgSets_def ReinitMsgSet_def)

lemma deliver_reply_inv:
  assumes "client_inv n l E c" "answered n l E cmdId"
  shows "client_inv n l E (deliver_reply cmdId c)"
  using assms by (auto simp: client_inv_def deliver_reply_def image_iff)

lemma called_inv:
  assumes "client_inv n l E c" "\<And>lm ms. call res = Some (Some lm, ms) \<Longrightarrow> answered n l E (fa_CmdId lm)"
  shows "client_inv n l E (called res c)"
  using assms by (auto simp: called_def handleFastAndSlowAcks_def intro!: deliver_reply_inv split: option.split)

lemma one_leader_slow:
  assumes "one_leader l E" "(p, f) \<in> slow_hist l E c"
  shows "if p = l then \<exists>r. FromLeader r \<in> E \<and> SwiftMReply_CmdId r = c \<and> f = (reply_ack r)\<lparr>fa_Checksum := []\<rparr>
         else Slow c p \<in> E"
  using assms by (auto simp: one_leader_def slow_hist_def)

lemma one_leader_fast:
  assumes "one_leader l E" "(p, f) \<in> fast_hist l E c"
  shows "if p = l then \<exists>r. FromLeader r \<in> E \<and> SwiftMReply_CmdId r = c \<and> f = reply_ack r
         else Fast f \<in> E \<and> fa_Replica f = p \<and> fa_CmdId f = c \<or> Slow c p \<in> E \<and> fa_Checksum f = []"
  using assms by (auto simp: one_leader_def fast_hist_def)

lemma add_slow_inv:
  assumes inv: "client_inv n l E c" and E: "one_leader l E" and isL: "isL \<longleftrightarrow> fa_Replica f = l"
    and f: "(fa_Replica f, f) \<in> slow_hist l E (fa_CmdId f)"
  shows "client_inv n l E (add_slow f isL c)"
proof (cases "sc_slowPathH c (fa_CmdId f)")
  case None
  then show ?thesis using inv by (simp add: add_slow_def)
next
  case (Some s)
  let ?A = "Add accept (fa_Replica f) isL f s" and ?id = "fa_CmdId f"
  have s: "msgset_inv accept l (slow_hist l E ?id) s" "ms_q s = NewMajorityOf n"
    using inv Some by (simp_all add: client_inv_def)
  have hist: "insert (fa_Replica f, f) (slow_hist l E ?id) = slow_hist l E ?id" using f by blast
  have "msgset_inv accept l (slow_hist l E ?id) (snd ?A)" using Add_inv [OF s(1) isL, of f] by (simp only: hist)
  then have inv': "client_inv n l E (c\<lparr>sc_slowPathH := (sc_slowPathH c)(?id \<mapsto> snd ?A)\<rparr>)"
    using inv s(2) by (simp add: client_inv_def)
  have "answered n l E (fa_CmdId lm)" if "call (fst ?A) = Some (Some lm, ms)" for lm ms
  proof -
    from Add_leader_quorum [OF s(1) isL f that] s(2) obtain S where lm: "(l, lm) \<in> slow_hist l E ?id"
      and S: "finite S" "l \<in> S" "Size (NewMajorityOf n) \<le> int (card S)"
        "\<forall>p \<in> S - {l}. \<exists>m. (p, m) \<in> slow_hist l E ?id" by fastforce
    have "\<forall>p \<in> S - {l}. Slow ?id p \<in> E"
    proof
      fix p assume p: "p \<in> S - {l}"
      with S(4) obtain m where "(p, m) \<in> slow_hist l E ?id" by blast
      from one_leader_slow [OF E this] p show "Slow ?id p \<in> E" by simp
    qed
    moreover obtain r where "FromLeader r \<in> E" "SwiftMReply_CmdId r = ?id" using one_leader_slow [OF E lm] by auto
    ultimately have "slow_quorum n l E ?id"
      unfolding slow_quorum_def using S(1,2) majority_size [OF S(3)] by blast
    then show ?thesis using hist_cmd(1) [OF lm] by (simp add: answered_def)
  qed
  from called_inv [OF inv' this] show ?thesis by (simp add: add_slow_def Some split_beta Let_def)
qed

lemma add_fast_inv:
  assumes inv: "client_inv n l E c" and E: "one_leader l E" and isL: "isL \<longleftrightarrow> fa_Replica f = l"
    and f: "(fa_Replica f, f) \<in> fast_hist l E (fa_CmdId f)"
  shows "client_inv n l E (add_fast f isL c)"
proof (cases "sc_fastPathH c (fa_CmdId f)")
  case None
  then show ?thesis using inv by (simp add: add_fast_def)
next
  case (Some s)
  let ?A = "Add accept (fa_Replica f) isL f s" and ?id = "fa_CmdId f"
  have s: "msgset_inv accept l (fast_hist l E ?id) s" "ms_q s = NewMajorityOf n"
    using inv Some by (simp_all add: client_inv_def)
  have hist: "insert (fa_Replica f, f) (fast_hist l E ?id) = fast_hist l E ?id" using f by blast
  have "msgset_inv accept l (fast_hist l E ?id) (snd ?A)" using Add_inv [OF s(1) isL, of f] by (simp only: hist)
  then have inv': "client_inv n l E (c\<lparr>sc_fastPathH := (sc_fastPathH c)(?id \<mapsto> snd ?A)\<rparr>)"
    using inv s(2) by (simp add: client_inv_def)
  have "answered n l E (fa_CmdId lm)" if "call (fst ?A) = Some (Some lm, ms)" for lm ms
  proof -
    from Add_leader_quorum [OF s(1) isL f that] s(2) obtain S where lm: "(l, lm) \<in> fast_hist l E ?id"
      and S: "finite S" "l \<in> S" "Size (NewMajorityOf n) \<le> int (card S)"
        "\<forall>p \<in> S - {l}. \<exists>m. (p, m) \<in> fast_hist l E ?id \<and> accept m (Some lm)" by auto
    obtain r where r: "FromLeader r \<in> E" "SwiftMReply_CmdId r = ?id" "lm = reply_ack r"
      using one_leader_fast [OF E lm] by auto
    have "(\<exists>f. Fast f \<in> E \<and> fa_Replica f = p \<and> fa_CmdId f = ?id \<and> SHashesEq (SwiftMReply_Checksum r) (fa_Checksum f)) \<or>
        Slow ?id p \<in> E \<and> SHashesEq (SwiftMReply_Checksum r) []" if p: "p \<in> S - {l}" for p
    proof -
      from S(4) p obtain m where m: "(p, m) \<in> fast_hist l E ?id" "accept m (Some lm)" by blast
      from m(2) r(3) have "SHashesEq (SwiftMReply_Checksum r) (fa_Checksum m)" by (simp add: accept_def reply_ack_def)
      with one_leader_fast [OF E m(1)] p show ?thesis by auto
    qed
    then have "fast_quorum n l E ?id"
      unfolding fast_quorum_def using r(1,2) S(1,2) majority_size [OF S(3)] by blast
    then show ?thesis using hist_cmd(2) [OF lm] by (simp add: answered_def)
  qed
  from called_inv [OF inv' this] show ?thesis by (simp add: add_fast_def Some split_beta Let_def)
qed

lemma handleFastAck_inv:
  assumes "client_inv n l E c" "one_leader l E" "isL \<longleftrightarrow> fa_Replica f = l"
    and "(fa_Replica f, f) \<in> fast_hist l E (fa_CmdId f)"
  shows "client_inv n l E (handleFastAck f isL c)"
  using assms by (auto simp: handleFastAck_def Let_def intro!: add_fast_inv swift_initMsgSets_inv)

lemma slow_if_undelivered_inv:
  assumes "client_inv n l E c" "one_leader l E" "isL \<longleftrightarrow> fa_Replica f = l"
    and "(fa_Replica f, f\<lparr>fa_Checksum := []\<rparr>) \<in> slow_hist l E (fa_CmdId f)"
  shows "client_inv n l E (slow_if_undelivered f isL c)"
  using assms by (auto simp: slow_if_undelivered_def intro!: add_slow_inv swift_initMsgSets_inv)

lemma handleLightSlowAck_inv:
  assumes "client_inv n l E c" "one_leader l E" "Slow (SwiftMLightSlowAck_CmdId s) (SwiftMLightSlowAck_Replica s) \<in> E"
  shows "client_inv n l E (handleLightSlowAck s c)"
proof -
  have "SwiftMLightSlowAck_Replica s \<noteq> l" using assms(2,3) by (auto simp: one_leader_def)
  then show ?thesis
    using assms
    by (auto simp: handleLightSlowAck_def Let_def fast_hist_def slow_hist_def
        intro!: handleFastAck_inv slow_if_undelivered_inv)
qed

lemma fast_event_inv:
  assumes "client_inv n l E c" "one_leader l E" "Fast f \<in> E"
  shows "client_inv n l E (handleFastAck f False c)"
  using assms by (intro handleFastAck_inv) (auto simp: one_leader_def fast_hist_def)

lemma handleOptAck_inv:
  assumes inv: "client_inv n l E c" and E: "one_leader l E"
    and a: "if IsNilDepOfCmdId (SwiftAck_CmdId a) (SwiftAck_Dep a) then Slow (SwiftAck_CmdId a) (SwiftMOptAcks_Replica m) \<in> E
       else Fast (opt_ack m a) \<in> E"
  shows "client_inv n l E (handleOptAck m a c)"
proof (cases "IsNilDepOfCmdId (SwiftAck_CmdId a) (SwiftAck_Dep a)")
  case True
  with a E have "SwiftMOptAcks_Replica m \<noteq> l" "Slow (SwiftAck_CmdId a) (SwiftMOptAcks_Replica m) \<in> E"
    by (auto simp: one_leader_def)
  with True inv E show ?thesis
    by (auto simp: handleOptAck_def Let_def opt_ack_def fast_hist_def slow_hist_def
        intro!: handleFastAck_inv slow_if_undelivered_inv)
next
  case False
  with a inv E show ?thesis by (simp add: handleOptAck_def Let_def fast_event_inv)
qed

lemma handleReply_inv:
  assumes "client_inv n l E c" "one_leader l E" "FromLeader r \<in> E"
  shows "client_inv n l E (handleReply r c)"
proof -
  have l: "SwiftMReply_Replica r = l" using assms(2,3) by (auto simp: one_leader_def)
  have "(fa_Replica (reply_ack r), reply_ack r) \<in> fast_hist l E (fa_CmdId (reply_ack r))"
    "(fa_Replica (reply_ack r), (reply_ack r)\<lparr>fa_Checksum := []\<rparr>) \<in> slow_hist l E (fa_CmdId (reply_ack r))"
    using assms(3) l by (auto simp: fast_hist_def slow_hist_def reply_ack_def)
  moreover have "fa_Replica (reply_ack r) = l" using l by (simp add: reply_ack_def)
  ultimately show ?thesis
    using assms(1,2) by (auto simp: handleReply_def intro!: handleFastAck_inv slow_if_undelivered_inv)
qed

lemma fold_inv:
  assumes "P c" "\<And>x c. x \<in> set xs \<Longrightarrow> P c \<Longrightarrow> P (f x c)"
  shows "P (fold f xs c)"
  using assms by (induction xs arbitrary: c) auto

lemma swift_handleMsgs_inv:
  assumes inv: "client_inv n l E c" and E: "one_leader l E" "set (events m) \<subseteq> E"
  shows "client_inv n l E (handleMsgs m c)"
proof (cases m)
  case (SwiftMAcceptMsg a)
  have "answered n l E (SwiftMAccept_CmdId a)" using E(2) SwiftMAcceptMsg by (auto simp: answered_def)
  with inv SwiftMAcceptMsg show ?thesis by (simp add: handleAccept_def deliver_reply_inv)
next
  case (SwiftMAcksMsg a)
  have "client_inv n l E (fold (\<lambda>f. handleFastAck (ack_of_wire f) False) (SwiftMAcks_FastAcks a) c)"
    by (rule fold_inv [where P = "client_inv n l E", OF inv]) (use E SwiftMAcksMsg in \<open>auto intro!: fast_event_inv\<close>)
  then have "client_inv n l E (fold handleLightSlowAck (SwiftMAcks_LightSlowAcks a)
      (fold (\<lambda>f. handleFastAck (ack_of_wire f) False) (SwiftMAcks_FastAcks a) c))"
    by (rule fold_inv [where P = "client_inv n l E"]) (use E SwiftMAcksMsg in \<open>auto intro!: handleLightSlowAck_inv\<close>)
  with SwiftMAcksMsg show ?thesis by simp
next
  case (SwiftMOptAcksMsg a)
  have "client_inv n l E (fold (handleOptAck a) (SwiftMOptAcks_Acks a) c)"
    by (rule fold_inv [where P = "client_inv n l E", OF inv])
      (rule handleOptAck_inv; use E SwiftMOptAcksMsg in \<open>auto split: if_splits\<close>)
  with SwiftMOptAcksMsg show ?thesis by simp
qed (use assms in \<open>simp_all add: handleReply_inv fast_event_inv handleLightSlowAck_inv\<close>)

lemma swift_client_run_inv:
  assumes "one_leader l (heard ms)"
  shows "client_inv n l (heard ms) (client_run n ms)"
  unfolding client_run_def
proof (rule fold_inv [where P = "client_inv n l (heard ms)"])
  show "client_inv n l (heard ms) (NewSwiftClient n)" by (simp add: client_inv_def NewSwiftClient_def)
next
  fix m c assume "m \<in> set ms" "client_inv n l (heard ms) c"
  then show "client_inv n l (heard ms) (handleMsgs m c)"
    using assms by (intro swift_handleMsgs_inv) (auto simp: heard_def)
qed

section \<open>Properties\<close>


abbreviation swift_reply :: "int \<Rightarrow> int \<Rightarrow> swift_sync swift_msg" where
  "swift_reply b s \<equiv> SwiftMReplyMsg \<lparr>SwiftMReply_Replica = 0, SwiftMReply_Ballot = b, SwiftMReply_CmdId = CommandId 1 s,
     SwiftMReply_Checksum = [zero_SHash], SwiftMReply_Rep = [word_of_int s]\<rparr>"

abbreviation swift_ack :: "swift_sync swift_msg" where
  "swift_ack \<equiv> SwiftMFastAckClientMsg \<lparr>SwiftMFastAckClient_Replica = 1, SwiftMFastAckClient_Ballot = 0,
     SwiftMFastAckClient_CmdId = CommandId 1 0, SwiftMFastAckClient_Checksum = [zero_SHash]\<rparr>"

lemmas client_simps = client_run_def NewSwiftClient_def handleReply_def handleFastAck_def reply_ack_def
  slow_if_undelivered_def initMsgSets_def add_slow_def add_fast_def called_def handleFastAndSlowAcks_def deliver_reply_def
  client_fast_def ReinitMsgSet_def NewMsgSet_def Add_def NewMajorityOf_def go_div_def accept_def SHashesEq_def


text \<open>
  A run in which the client registers, for its command 0, the value the leader sent for command 1.
\<close>

theorem swift_client_wrong_value:
  "\<exists>ms. sc_replies (client_run 3 ms) = [(CommandId 1 0, [1])] \<and>
     filter (\<lambda>m. case m of SwiftMReplyMsg r \<Rightarrow> SwiftMReply_CmdId r = CommandId 1 0 | SwiftMAcceptMsg a \<Rightarrow> True | _ \<Rightarrow> False) ms
     = [swift_reply 0 0]"
  by (rule exI [of _ "[swift_reply 0 0, swift_reply 0 1, swift_ack]"]) (simp add: client_simps)

end
