(* ===== verification/SwiftDelay.thy ===== *)
theory SwiftDelay
  imports Prelude
begin

text \<open>
  The log of delays of Swift (\<open>swift/delay.go\<close>): it counts how often a replica was late, and proposes to swap a replica of
  the fast quorum that is often late for one outside of it.  No other file uses it.

  Times are nanoseconds; \<open>time.Now()\<close> is an argument.  A \<open>nil\<close> log is \<open>None\<close>.
\<close>

definition BAD_CONT :: int where "BAD_CONT = 3"
definition THRESHOLD :: int where "THRESHOLD = 210 * 1000000"
definition PING_DELAY :: int where "PING_DELAY = 10 * 1000000"

record DelayEntry =
  de_now :: int
  de_badCount :: int

record SwapValue =
  sv_oldFast :: int
  sv_newFast :: int

text \<open>\<open>swap\<close> is a channel of capacity 2.\<close>

record DelayLog =
  dl_id :: int
  dl_log :: "DelayEntry list"
  dl_swap :: "SwapValue list"
  dl_ballot :: int
  dl_lastValue :: SwapValue
  dl_fastestSlowD :: int
  dl_fastestSlowId :: int

definition NewDelayLog :: "int \<Rightarrow> int \<Rightarrow> int \<Rightarrow> DelayLog" where
  "NewDelayLog rid n ballot =
     \<lparr>dl_id = rid, dl_log = replicate (nat n) \<lparr>de_now = 0, de_badCount = -1\<rparr>, dl_swap = [], dl_ballot = ballot,
      dl_lastValue = \<lparr>sv_oldFast = -1, sv_newFast = -1\<rparr>, dl_fastestSlowD = 0, dl_fastestSlowId = -1\<rparr>"

definition Reinit :: "int \<Rightarrow> DelayLog option \<Rightarrow> DelayLog option" where
  "Reinit ballot dl = map_option (\<lambda>dl. dl\<lparr>dl_swap := [], dl_ballot := ballot, dl_fastestSlowId := -1\<rparr>) dl"

definition in_log :: "DelayLog \<Rightarrow> int \<Rightarrow> bool" where
  "in_log dl i \<longleftrightarrow> 0 \<le> i \<and> nat i < length (dl_log dl)"

text \<open>The count after a message that came \<open>d\<close> after the one before.\<close>

definition next_count :: "int \<Rightarrow> int \<Rightarrow> int" where
  "next_count d c = (if d > THRESHOLD + PING_DELAY then c + 1 else if c > 0 then c - 1 else c)"

text \<open>\<open>None\<close> is an index out of range.\<close>

definition Tick :: "int \<Rightarrow> int \<Rightarrow> bool \<Rightarrow> DelayLog \<Rightarrow> (int \<times> DelayLog) option" where
  "Tick now rid fast dl =
     (if \<not> in_log dl rid then None
      else
        let e = dl_log dl ! nat rid
        in if de_badCount e = -1 then Some (rid, dl\<lparr>dl_log := (dl_log dl)[nat rid := \<lparr>de_now = now, de_badCount = 0\<rparr>]\<rparr>)
           else
             let d = now - de_now e;
                 count = next_count d (de_badCount e);
                 dl = dl\<lparr>dl_log := (dl_log dl)[nat rid := \<lparr>de_now = now, de_badCount = count\<rparr>]\<rparr>;
                 slow = (\<lambda>dl. if \<not> fast \<and> (d < dl_fastestSlowD dl \<or> dl_fastestSlowId dl = -1)
                              then dl\<lparr>dl_fastestSlowId := rid\<rparr> else dl)
             in if fast \<and> count = BAD_CONT \<and> dl_fastestSlowId dl \<noteq> -1 then Some (dl_fastestSlowId dl, dl)
                else if fast \<and> sv_newFast (dl_lastValue dl) = rid then
                  (let old = sv_oldFast (dl_lastValue dl)
                   in if \<not> in_log dl old then None
                      else if de_badCount (dl_log dl ! nat old) = 0 then Some (old, dl)
                      else Some (rid, slow dl))
                else Some (rid, slow dl))"

text \<open>
  \<open>BTick\<close>; \<open>None\<close> is a panic, and \<open>Some None\<close> a call that waits for room in \<open>swap\<close>.
\<close>

definition BTick :: "int \<Rightarrow> int \<Rightarrow> int \<Rightarrow> bool \<Rightarrow> DelayLog option \<Rightarrow> DelayLog option option option" where
  "BTick now ballot rid fast dl =
     (case dl of
        None \<Rightarrow> Some (Some None)
      | Some dl \<Rightarrow>
          if dl_id dl = rid \<or> dl_ballot dl \<noteq> ballot then Some (Some (Some dl))
          else case Tick now rid fast dl of
            None \<Rightarrow> None
          | Some (nid, dl) \<Rightarrow>
              if nid = rid then Some (Some (Some dl))
              else let dl = dl\<lparr>dl_lastValue := \<lparr>sv_oldFast = rid, sv_newFast = nid\<rparr>\<rparr>
                   in if length (dl_swap dl) < 2 then Some (Some (Some (dl\<lparr>dl_swap := dl_swap dl @ [dl_lastValue dl]\<rparr>)))
                      else Some None)"

section \<open>The slow replica that is kept\<close>

text \<open>Ticks one after the other, at the given times.\<close>

fun Ticks :: "(int \<times> int \<times> bool) list \<Rightarrow> DelayLog \<Rightarrow> DelayLog option" where
  "Ticks [] dl = Some dl"
| "Ticks ((now, rid, fast) # ts) dl = (case Tick now rid fast dl of None \<Rightarrow> None | Some (_, dl) \<Rightarrow> Ticks ts dl)"

definition delay_inv :: "int \<Rightarrow> DelayLog \<Rightarrow> bool" where
  "delay_inv t dl \<longleftrightarrow> dl_fastestSlowD dl = 0 \<and> list_all (\<lambda>e. -1 \<le> de_badCount e \<and> (de_badCount e = -1 \<or> de_now e \<le> t)) (dl_log dl)"

lemma Tick_inv:
  assumes "Tick now rid fast dl = Some (r, dl')" "delay_inv t dl" "t \<le> now"
  shows "delay_inv now dl' \<and> (dl_fastestSlowId dl \<noteq> -1 \<longrightarrow> dl_fastestSlowId dl' = dl_fastestSlowId dl)"
proof -
  have "in_log dl rid" using assms(1) by (simp add: Tick_def split: if_splits)
  then have e: "dl_log dl ! nat rid \<in> set (dl_log dl)" by (simp add: in_log_def)
  have old: "list_all (\<lambda>e. -1 \<le> de_badCount e \<and> (de_badCount e = -1 \<or> de_now e \<le> now)) (dl_log dl)"
    using assms(2,3) by (auto simp: delay_inv_def list_all_iff)
  have upd: "list_all P (xs[i := x])" if "list_all P xs" "P x" for P and xs :: "DelayEntry list" and i x
    using that set_update_subset_insert [of xs i x] by (auto simp: list_all_iff)
  have "0 \<le> now - de_now (dl_log dl ! nat rid)" if "de_badCount (dl_log dl ! nat rid) \<noteq> -1"
    using that e assms(2,3) by (auto simp: delay_inv_def list_all_iff)
  moreover have "-1 \<le> next_count d (de_badCount (dl_log dl ! nat rid))" for d
    using e old by (auto simp: next_count_def list_all_iff)
  ultimately show ?thesis
    using assms(1) assms(2) old
    by (auto simp: Tick_def Let_def delay_inv_def BAD_CONT_def intro!: upd split: if_splits)
qed

text \<open>
  As long as time does not go back, the log keeps the first replica outside the fast quorum it sees twice for ever: the
  delay of the fastest one is never stored.
\<close>

theorem fastest_slow_is_first:
  assumes "Ticks ts dl = Some dl'" "delay_inv t dl" "sorted (t # map fst ts)" "dl_fastestSlowId dl \<noteq> -1"
  shows "dl_fastestSlowId dl' = dl_fastestSlowId dl"
  using assms
proof (induction ts arbitrary: dl t)
  case (Cons x ts)
  obtain now rid fast where x: "x = (now, rid, fast)" by (cases x) auto
  with Cons.prems obtain r dl1 where "Tick now rid fast dl = Some (r, dl1)" "Ticks ts dl1 = Some dl'"
    by (auto split: option.splits)
  moreover from Tick_inv [OF this(1) Cons.prems(2)] Cons.prems(3,4) x
  have "delay_inv now dl1" "dl_fastestSlowId dl1 = dl_fastestSlowId dl" by auto
  ultimately show ?case using Cons.IH [of dl1 now] Cons.prems(3,4) x by simp
qed simp

end
