(* ===== verification/Latency.thy ===== *)
theory Latency
  imports GoString
begin

text \<open>
  The latency table (\<open>replica/defs/latency.go\<close>): the delays that simulate a wide-area network.  A line of the file names
  two endpoints and the round trip between them; the table of a machine has half of it for each endpoint that a line
  joins to its own.

  A duration is its number of nanoseconds.  \<open>dur\<close> is \<open>time.ParseDuration\<close>.  The file is the list of its lines, or \<open>None\<close>
  when no file is named or it cannot be opened; a nil table is \<open>None\<close>.
\<close>

section \<open>The table\<close>

record LatencyTable =
  lt_ti :: "int \<Rightarrow> int option"
  lt_tn :: "string \<Rightarrow> int option"
  lt_d :: int

fun set_id :: "string \<Rightarrow> int \<Rightarrow> int \<Rightarrow> string list \<Rightarrow> (int \<Rightarrow> int option) \<Rightarrow> int \<Rightarrow> int option" where
  "set_id e d rid [] ti = ti"
| "set_id e d rid (a # as) ti = set_id e d (rid + 1) as (if sameEndpoint e a then ti(rid \<mapsto> d) else ti)"

definition set_delay :: "string list \<Rightarrow> string \<Rightarrow> int \<Rightarrow> LatencyTable \<Rightarrow> LatencyTable" where
  "set_delay addrs e d dt =
     dt\<lparr>lt_tn := (lt_tn dt)(e \<mapsto> d), lt_ti := set_id e d 0 addrs (lt_ti dt)\<rparr>"

text \<open>One pass of the loop over the two sides of a line.\<close>

definition join_step ::
  "string \<Rightarrow> string list \<Rightarrow> string list \<Rightarrow> int \<Rightarrow> string \<times> string \<times> LatencyTable \<Rightarrow> string \<times> string \<times> LatencyTable"
where
  "join_step my addrs data d acc =
     (let (addr1, addr2, dt) = acc in
      if \<not> sameEndpoint my addr1 then (data ! 1, data ! 0, dt)
      else (addr1, addr2, set_delay addrs addr2 d dt))"

definition join_line :: "string \<Rightarrow> string list \<Rightarrow> string list \<Rightarrow> int \<Rightarrow> LatencyTable \<Rightarrow> LatencyTable" where
  "join_line my addrs data d dt =
     snd (snd (join_step my addrs data d (join_step my addrs data d (data ! 0, data ! 1, dt))))"

fun read_table ::
  "(string \<Rightarrow> int option) \<Rightarrow> string \<Rightarrow> string list \<Rightarrow> string list \<Rightarrow> LatencyTable \<Rightarrow> LatencyTable option"
where
  "read_table dur my addrs [] dt = Some dt"
| "read_table dur my addrs (l # ls) dt =
     (let data = split_at CHR '' '' l in
      if length data = 2 \<and> data ! 0 = ''uniform'' then
        (case dur (data ! 1) of
           Some d \<Rightarrow> Some \<lparr>lt_ti = Map.empty, lt_tn = Map.empty, lt_d = go_div d 2\<rparr>
         | None \<Rightarrow> None)
      else if length data = 3 then
        (case dur (data ! 2) of
           None \<Rightarrow> read_table dur my addrs ls dt
         | Some d \<Rightarrow> read_table dur my addrs ls (join_line my addrs data (go_div d 2) dt))
      else read_table dur my addrs ls dt)"

definition NewLatencyTable ::
  "(string \<Rightarrow> int option) \<Rightarrow> string list option \<Rightarrow> string \<Rightarrow> string list \<Rightarrow> LatencyTable option"
where
  "NewLatencyTable dur conf myAddr addrs =
     (case conf of None \<Rightarrow> None
      | Some ls \<Rightarrow> read_table dur myAddr addrs ls \<lparr>lt_ti = Map.empty, lt_tn = Map.empty, lt_d = 0\<rparr>)"

text \<open>\<open>order\<close> lists the keys of \<open>tn\<close> as Go's iteration over the map meets them.\<close>

definition WaitDuration :: "string list \<Rightarrow> LatencyTable option \<Rightarrow> string \<Rightarrow> int" where
  "WaitDuration order dt addr =
     (case dt of None \<Rightarrow> 0
      | Some t \<Rightarrow> (case lt_tn t addr of Some d \<Rightarrow> d
          | None \<Rightarrow> (case List.find (\<lambda>e. sameEndpoint e addr) order of
              Some e \<Rightarrow> the (lt_tn t e) | None \<Rightarrow> lt_d t)))"

definition WaitDurationID :: "LatencyTable option \<Rightarrow> int \<Rightarrow> int" where
  "WaitDurationID dt i = (case dt of None \<Rightarrow> 0
     | Some t \<Rightarrow> (case lt_ti t i of Some d \<Rightarrow> d | None \<Rightarrow> lt_d t))"

section \<open>Symmetry\<close>

lemma set_id_at:
  "0 \<le> i \<Longrightarrow> i < int (length as) \<Longrightarrow>
   set_id e d rid as ti (rid + i) = (if sameEndpoint e (as ! nat i) then Some d else ti (rid + i))"
proof (induction as arbitrary: rid ti i)
  case (Cons a as)
  have other: "k < rid' \<Longrightarrow> set_id e d rid' bs ti' k = ti' k" for k rid' bs ti'
    by (induction bs arbitrary: rid' ti') auto
  show ?case
  proof (cases "i = 0")
    case True
    then show ?thesis by (simp add: other)
  next
    case False
    then have i: "0 \<le> i - 1" "i - 1 < int (length as)" and nth: "(a # as) ! nat i = as ! nat (i - 1)"
      using Cons.prems by (auto simp: nth_Cons nat_diff_distrib split: nat.split)
    show ?thesis
      using Cons.IH [OF i, of "rid + 1" "if sameEndpoint e a then ti(rid \<mapsto> d) else ti"] False nth by simp
  qed
qed simp

definition joins :: "string list \<Rightarrow> string \<Rightarrow> string \<Rightarrow> bool" where
  "joins data a b \<longleftrightarrow> sameEndpoint a (data ! 0) \<and> sameEndpoint (data ! 1) b \<or>
     \<not> sameEndpoint a (data ! 0) \<and> sameEndpoint a (data ! 1) \<and> sameEndpoint (data ! 0) b"

lemma join_line_at:
  assumes "0 \<le> j" "j < int (length addrs)"
  shows "lt_ti (join_line my addrs data d dt) j =
    (if joins data my (addrs ! nat j) then Some d else lt_ti dt j)"
  using set_id_at [OF assms, of _ _ 0]
  by (auto simp: join_line_def join_step_def set_delay_def joins_def)

lemma join_line_d [simp]: "lt_d (join_line my addrs data d dt) = lt_d dt"
  by (simp add: join_line_def join_step_def set_delay_def)

text \<open>No endpoint of the file stands for both replicas.\<close>

definition told_apart :: "string list \<Rightarrow> string \<Rightarrow> string \<Rightarrow> bool" where
  "told_apart ls a b \<longleftrightarrow> list_all (\<lambda>l. list_all (\<lambda>e. \<not> (sameEndpoint a e \<and> sameEndpoint b e)) (split_at CHR '' '' l)) ls"

lemma joins_sym:
  assumes "length data = 3" "list_all (\<lambda>e. \<not> (sameEndpoint a e \<and> sameEndpoint b e)) data"
  shows "joins data a b = joins data b a"
proof -
  have "data ! 0 \<in> set data" "data ! 1 \<in> set data"
    using assms(1) by simp_all
  then show ?thesis
    using assms(2) sameEndpoint_sym [of "data ! 0"] sameEndpoint_sym [of "data ! 1"]
    by (auto simp: joins_def list_all_iff)
qed

lemma read_table_sym:
  assumes ij: "0 \<le> i" "i < int (length addrs)" "0 \<le> j" "j < int (length addrs)"
    and "told_apart ls (addrs ! nat i) (addrs ! nat j)" "lt_ti ta j = lt_ti tb i" "lt_d ta = lt_d tb"
  shows "WaitDurationID (read_table dur (addrs ! nat i) addrs ls ta) j =
    WaitDurationID (read_table dur (addrs ! nat j) addrs ls tb) i"
  using assms(5-)
proof (induction ls arbitrary: ta tb)
  case (Cons l ls)
  let ?data = "split_at CHR '' '' l"
  have apart: "told_apart ls (addrs ! nat i) (addrs ! nat j)"
    using Cons.prems(1) by (simp add: told_apart_def)
  note IH = Cons.IH [OF apart]
  show ?case
  proof (cases "length ?data = 3")
    case True
    have "list_all (\<lambda>e. \<not> (sameEndpoint (addrs ! nat i) e \<and> sameEndpoint (addrs ! nat j) e)) ?data"
      using Cons.prems(1) by (simp add: told_apart_def)
    note sym = joins_sym [OF True this]
    show ?thesis
    proof (cases "dur (?data ! 2)")
      case None
      then show ?thesis using True IH [OF Cons.prems(2,3)] by simp
    next
      case (Some d)
      have "WaitDurationID (read_table dur (addrs ! nat i) addrs ls (join_line (addrs ! nat i) addrs ?data (go_div d 2) ta)) j =
          WaitDurationID (read_table dur (addrs ! nat j) addrs ls (join_line (addrs ! nat j) addrs ?data (go_div d 2) tb)) i"
        by (rule IH) (simp_all add: join_line_at ij sym Cons.prems(2,3))
      then show ?thesis using True Some by simp
    qed
  next
    case False
    then show ?thesis
      using IH [OF Cons.prems(2,3)] by (simp add: Let_def WaitDurationID_def split: option.split)
  qed
qed (auto simp: WaitDurationID_def split: option.split)

text \<open>
  The delays that two replicas take from one file are symmetric: replica \<open>I\<close> delays the messages of replica \<open>j\<close> as
  long as \<open>j\<close> delays those of \<open>i\<close>, if no endpoint of the file stands for both.
\<close>

theorem latency_table_symmetric:
  assumes "0 \<le> i" "i < int (length addrs)" "0 \<le> j" "j < int (length addrs)"
    "told_apart ls (addrs ! nat i) (addrs ! nat j)"
  shows "WaitDurationID (NewLatencyTable dur (Some ls) (addrs ! nat i) addrs) j =
    WaitDurationID (NewLatencyTable dur (Some ls) (addrs ! nat j) addrs) i"
  using read_table_sym [OF assms] by (simp add: NewLatencyTable_def)

definition ms_ex :: "string \<Rightarrow> int option" where
  "ms_ex s = (if s = ''80ms'' then Some 80000000 else if s = ''20ms'' then Some 20000000 else None)"

theorem latency_table_symmetric_witness:
  "WaitDurationID (NewLatencyTable ms_ex (Some [''10.0.0.1 10.0.0.2 80ms'']) ''10.0.0.1:7070''
       [''10.0.0.1:7070'', ''10.0.0.2:7070'']) 1 = 40000000 \<and>
   WaitDurationID (NewLatencyTable ms_ex (Some [''10.0.0.1 10.0.0.2 80ms'']) ''10.0.0.2:7070''
       [''10.0.0.1:7070'', ''10.0.0.2:7070'']) 0 = 40000000"
proof -
  let ?as = "[''10.0.0.1:7070'', ''10.0.0.2:7070'']"
  have "told_apart [''10.0.0.1 10.0.0.2 80ms''] (?as ! nat 0) (?as ! nat 1)"
    by code_simp
  from latency_table_symmetric [of 0 ?as 1, OF _ _ _ _ this, of ms_ex]
  have "WaitDurationID (NewLatencyTable ms_ex (Some [''10.0.0.1 10.0.0.2 80ms'']) ''10.0.0.1:7070'' ?as) 1 =
      WaitDurationID (NewLatencyTable ms_ex (Some [''10.0.0.1 10.0.0.2 80ms'']) ''10.0.0.2:7070'' ?as) 0"
    by simp
  moreover have "WaitDurationID (NewLatencyTable ms_ex (Some [''10.0.0.1 10.0.0.2 80ms'']) ''10.0.0.1:7070'' ?as) 1 = 40000000"
    by code_simp
  ultimately show ?thesis by simp
qed

text \<open>
  An endpoint without a port takes the delay of any endpoint on its host, whichever Go's map yields first.
\<close>

lemma WaitDuration_order:
  "let t = NewLatencyTable ms_ex (Some [''h:1 a 80ms'', ''h:2 a 20ms'']) ''a'' [] in
   WaitDuration [''h:1'', ''h:2''] t ''h'' = 40000000 \<and> WaitDuration [''h:2'', ''h:1''] t ''h'' = 10000000"
  by code_simp

end
