(* ===== verification/Sender.thy ===== *)
theory Sender
  imports Connections Quorum
begin

text \<open>
  The sender of a replica (\<open>replica/sender.go\<close>): a goroutine that takes the messages the protocol gives it and writes them
  to connections, in order.

  \<open>links\<close> is what it uses of the replica: which peers are alive, and what has been written to each connection (\<open>None\<close> is a
  nil writer).  \<open>None\<close> as a result is the panic of an index out of range.  Which peers are alive does not change while one
  message is sent.
\<close>

section \<open>Model\<close>

datatype SendType = SEND_ALL | SEND_QUORUM | SEND_EXCEPT | SEND_SINGLE | SEND_CLIENT | SEND_ALL_EXCEPT

record 'm SendArg =
  sa_msg :: 'm
  sa_rpc :: byte
  sa_quorum :: "int set"
  sa_sendType :: SendType
  sa_id :: int
  sa_free :: bool

record links =
  lk_N :: nat
  lk_Alive :: "bool list"
  lk_PeerWriters :: "bytes option list"
  lk_ClientWriters :: "int \<Rightarrow> bytes option"

definition write_peer :: "nat \<Rightarrow> byte \<Rightarrow> bytes \<Rightarrow> links \<Rightarrow> links" where
  "write_peer p code msg L = L\<lparr>lk_PeerWriters := (lk_PeerWriters L)[p := SendMsg code msg (lk_PeerWriters L ! p)]\<rparr>"

definition SendClientMsg :: "int \<Rightarrow> byte \<Rightarrow> bytes \<Rightarrow> links \<Rightarrow> links" where
  "SendClientMsg i code msg L = L\<lparr>lk_ClientWriters := (lk_ClientWriters L)(i := SendMsg code msg (lk_ClientWriters L i))\<rparr>"

definition if_alive :: "nat \<Rightarrow> byte \<Rightarrow> bytes \<Rightarrow> links \<Rightarrow> links" where
  "if_alive p code msg L = (if lk_Alive L ! p then write_peer p code msg L else L)"

definition sendToAll :: "byte \<Rightarrow> bytes \<Rightarrow> links \<Rightarrow> links" where
  "sendToAll code msg L = foldl (\<lambda>L p. if_alive p code msg L) L [0..<lk_N L]"

definition sendToAllExcept :: "int \<Rightarrow> byte \<Rightarrow> bytes \<Rightarrow> links \<Rightarrow> links" where
  "sendToAllExcept except code msg L =
     foldl (\<lambda>L p. if int p = except then L else if_alive p code msg L) L [0..<lk_N L]"

definition sendToQuorum :: "int set \<Rightarrow> byte \<Rightarrow> bytes \<Rightarrow> links \<Rightarrow> links" where
  "sendToQuorum q code msg L =
     foldl (\<lambda>L p. if \<not> Contains (Quorum q) (int p) then L else if_alive p code msg L) L [0..<lk_N L]"

definition sendExcept :: "int set \<Rightarrow> byte \<Rightarrow> bytes \<Rightarrow> links \<Rightarrow> links" where
  "sendExcept q code msg L =
     foldl (\<lambda>L p. if Contains (Quorum q) (int p) then L else if_alive p code msg L) L [0..<lk_N L]"

text \<open>One iteration of the goroutine; the second result says whether \<open>free\<close> was called.\<close>

definition send_arg :: "('m \<Rightarrow> bytes) \<Rightarrow> 'm SendArg \<Rightarrow> links \<Rightarrow> (links \<times> bool) option" where
  "send_arg marshal a L =
     (let code = sa_rpc a; msg = marshal (sa_msg a) in
      case (case sa_sendType a of
          SEND_ALL \<Rightarrow> Some (sendToAll code msg L)
        | SEND_QUORUM \<Rightarrow> Some (sendToQuorum (sa_quorum a) code msg L)
        | SEND_EXCEPT \<Rightarrow> Some (sendExcept (sa_quorum a) code msg L)
        | SEND_CLIENT \<Rightarrow> Some (SendClientMsg (sa_id a) code msg L)
        | SEND_SINGLE \<Rightarrow> if 0 \<le> sa_id a \<and> sa_id a < int (length (lk_PeerWriters L))
             then Some (write_peer (nat (sa_id a)) code msg L) else None
        | SEND_ALL_EXCEPT \<Rightarrow> Some (sendToAllExcept (sa_id a) code msg L))
      of None \<Rightarrow> None | Some L \<Rightarrow> Some (L, sa_free a))"

text \<open>The arguments in the order of the channel; the second result lists the messages that were freed.\<close>

fun NewSender :: "('m \<Rightarrow> bytes) \<Rightarrow> 'm SendArg list \<Rightarrow> links \<Rightarrow> (links \<times> 'm list) option" where
  "NewSender marshal [] L = Some (L, [])"
| "NewSender marshal (a # as) L =
     (case send_arg marshal a L of
        None \<Rightarrow> None
      | Some (L, freed) \<Rightarrow>
          map_option (\<lambda>(L, fs). (L, if freed then sa_msg a # fs else fs)) (NewSender marshal as L))"

text \<open>The operations that put an argument on the channel.\<close>

definition no_quorum :: "int set" where
  "no_quorum = {}"

definition SendToAllAndFree :: "'m \<Rightarrow> byte \<Rightarrow> bool \<Rightarrow> 'm SendArg list \<Rightarrow> 'm SendArg list" where
  "SendToAllAndFree m code fr s = s @ [\<lparr>sa_msg = m, sa_rpc = code, sa_quorum = no_quorum, sa_sendType = SEND_ALL,
     sa_id = 0, sa_free = fr\<rparr>]"

definition SendToAllExecptAndFree :: "int \<Rightarrow> 'm \<Rightarrow> byte \<Rightarrow> bool \<Rightarrow> 'm SendArg list \<Rightarrow> 'm SendArg list" where
  "SendToAllExecptAndFree except m code fr s = s @ [\<lparr>sa_msg = m, sa_rpc = code, sa_quorum = no_quorum,
     sa_sendType = SEND_ALL_EXCEPT, sa_id = except, sa_free = fr\<rparr>]"

definition SendToQuorumAndFree :: "int set \<Rightarrow> 'm \<Rightarrow> byte \<Rightarrow> bool \<Rightarrow> 'm SendArg list \<Rightarrow> 'm SendArg list" where
  "SendToQuorumAndFree q m code fr s = s @ [\<lparr>sa_msg = m, sa_rpc = code, sa_quorum = q, sa_sendType = SEND_QUORUM,
     sa_id = 0, sa_free = fr\<rparr>]"

definition SendExceptAndFree :: "int set \<Rightarrow> 'm \<Rightarrow> byte \<Rightarrow> bool \<Rightarrow> 'm SendArg list \<Rightarrow> 'm SendArg list" where
  "SendExceptAndFree q m code fr s = s @ [\<lparr>sa_msg = m, sa_rpc = code, sa_quorum = q, sa_sendType = SEND_EXCEPT,
     sa_id = 0, sa_free = fr\<rparr>]"

definition SendToClientAndFree :: "int \<Rightarrow> 'm \<Rightarrow> byte \<Rightarrow> bool \<Rightarrow> 'm SendArg list \<Rightarrow> 'm SendArg list" where
  "SendToClientAndFree c m code fr s = s @ [\<lparr>sa_msg = m, sa_rpc = code, sa_quorum = no_quorum,
     sa_sendType = SEND_CLIENT, sa_id = c, sa_free = fr\<rparr>]"

definition SendToAndFree :: "int \<Rightarrow> 'm \<Rightarrow> byte \<Rightarrow> bool \<Rightarrow> 'm SendArg list \<Rightarrow> 'm SendArg list" where
  "SendToAndFree i m code fr s = s @ [\<lparr>sa_msg = m, sa_rpc = code, sa_quorum = no_quorum, sa_sendType = SEND_SINGLE,
     sa_id = i, sa_free = fr\<rparr>]"

definition SendToAll :: "'m \<Rightarrow> byte \<Rightarrow> 'm SendArg list \<Rightarrow> 'm SendArg list" where
  "SendToAll m code s = SendToAllAndFree m code False s"

definition SendToAllExecpt :: "int \<Rightarrow> 'm \<Rightarrow> byte \<Rightarrow> 'm SendArg list \<Rightarrow> 'm SendArg list" where
  "SendToAllExecpt except m code s = SendToAllExecptAndFree except m code False s"

definition SendToQuorum :: "int set \<Rightarrow> 'm \<Rightarrow> byte \<Rightarrow> 'm SendArg list \<Rightarrow> 'm SendArg list" where
  "SendToQuorum q m code s = SendToQuorumAndFree q m code False s"

definition SendExcept :: "int set \<Rightarrow> 'm \<Rightarrow> byte \<Rightarrow> 'm SendArg list \<Rightarrow> 'm SendArg list" where
  "SendExcept q m code s = SendExceptAndFree q m code False s"

definition SendToClient :: "int \<Rightarrow> 'm \<Rightarrow> byte \<Rightarrow> 'm SendArg list \<Rightarrow> 'm SendArg list" where
  "SendToClient c m code s = SendToClientAndFree c m code False s"

definition SendTo :: "int \<Rightarrow> 'm \<Rightarrow> byte \<Rightarrow> 'm SendArg list \<Rightarrow> 'm SendArg list" where
  "SendTo i m code s = SendToAndFree i m code False s"

section \<open>What a connection carries\<close>

definition links_ok :: "links \<Rightarrow> bool" where
  "links_ok L \<longleftrightarrow> length (lk_Alive L) = lk_N L \<and> length (lk_PeerWriters L) = lk_N L"

text \<open>The peers that a message is meant for; one sent to a single peer is written even when it is not alive.\<close>

definition reaches :: "bool list \<Rightarrow> nat \<Rightarrow> 'm SendArg \<Rightarrow> bool" where
  "reaches alive p a =
     (case sa_sendType a of
        SEND_ALL \<Rightarrow> alive ! p
      | SEND_QUORUM \<Rightarrow> alive ! p \<and> Contains (Quorum (sa_quorum a)) (int p)
      | SEND_EXCEPT \<Rightarrow> alive ! p \<and> \<not> Contains (Quorum (sa_quorum a)) (int p)
      | SEND_SINGLE \<Rightarrow> sa_id a = int p
      | SEND_CLIENT \<Rightarrow> False
      | SEND_ALL_EXCEPT \<Rightarrow> alive ! p \<and> int p \<noteq> sa_id a)"

definition send_where :: "(nat \<Rightarrow> bool) \<Rightarrow> byte \<Rightarrow> bytes \<Rightarrow> nat \<Rightarrow> links \<Rightarrow> links" where
  "send_where keep code msg k L = foldl (\<lambda>L p. if keep p then if_alive p code msg L else L) L [0..<k]"

lemma send_loops:
  "sendToAll code msg L = send_where (\<lambda>_. True) code msg (lk_N L) L"
  "sendToAllExcept e code msg L = send_where (\<lambda>p. int p \<noteq> e) code msg (lk_N L) L"
  "sendToQuorum q code msg L = send_where (\<lambda>p. Contains (Quorum q) (int p)) code msg (lk_N L) L"
  "sendExcept q code msg L = send_where (\<lambda>p. \<not> Contains (Quorum q) (int p)) code msg (lk_N L) L"
  unfolding send_where_def sendToAll_def sendToAllExcept_def sendToQuorum_def sendExcept_def
  by (rule foldl_cong [OF refl refl], simp del: Contains.simps)+

lemma send_where_fields:
  "lk_N (send_where keep code msg k L) = lk_N L \<and> lk_Alive (send_where keep code msg k L) = lk_Alive L \<and>
   length (lk_PeerWriters (send_where keep code msg k L)) = length (lk_PeerWriters L)"
  by (induction k) (simp_all add: send_where_def if_alive_def write_peer_def)

lemma send_where_at:
  assumes "p < length (lk_PeerWriters L)"
  shows "lk_PeerWriters (send_where keep code msg k L) ! p =
    (if p < k \<and> keep p \<and> lk_Alive L ! p then SendMsg code msg (lk_PeerWriters L ! p) else lk_PeerWriters L ! p)"
proof (induction k)
  case 0
  then show ?case by (simp add: send_where_def)
next
  case (Suc k)
  have step: "send_where keep code msg (Suc k) L =
      (if keep k then if_alive k code msg (send_where keep code msg k L) else send_where keep code msg k L)"
    by (simp add: send_where_def)
  show ?case
  proof (cases "p = k")
    case True
    then show ?thesis
      using Suc assms send_where_fields [of keep code msg k L]
      by (simp add: step if_alive_def write_peer_def)
  next
    case False
    then show ?thesis
      using Suc send_where_fields [of keep code msg k L]
      by (simp add: step if_alive_def write_peer_def less_Suc_eq)
  qed
qed

lemma send_arg_links:
  assumes "send_arg marshal a L = Some (L', f)" "links_ok L"
  shows "links_ok L' \<and> lk_N L' = lk_N L \<and> lk_Alive L' = lk_Alive L \<and>
    (\<forall>p < lk_N L. lk_PeerWriters L' ! p =
       (if reaches (lk_Alive L) p a then SendMsg (sa_rpc a) (marshal (sa_msg a)) (lk_PeerWriters L ! p)
        else lk_PeerWriters L ! p))"
proof -
  have peer: "p < lk_N L \<Longrightarrow> p < length (lk_PeerWriters L)" for p using assms(2) by (simp add: links_ok_def)
  note facts = send_where_fields send_where_at [OF peer]
  show ?thesis
    using assms
    by (cases "sa_sendType a")
       (auto simp: send_arg_def Let_def send_loops facts links_ok_def reaches_def SendClientMsg_def write_peer_def
         nth_list_update split: if_splits)
qed

lemma sender_fold:
  assumes "NewSender marshal as L = Some (L', fs)" "links_ok L" "p < lk_N L"
  shows "lk_PeerWriters L' ! p =
    fold (\<lambda>a. SendMsg (sa_rpc a) (marshal (sa_msg a))) (filter (reaches (lk_Alive L) p) as) (lk_PeerWriters L ! p)"
  using assms
proof (induction as arbitrary: L fs)
  case (Cons a as)
  then obtain L1 f gs where one: "send_arg marshal a L = Some (L1, f)" and rest: "NewSender marshal as L1 = Some (L', gs)"
    by (auto split: option.splits prod.splits)
  note step = send_arg_links [OF one Cons.prems(2)]
  have "lk_PeerWriters L' ! p = fold (\<lambda>a. SendMsg (sa_rpc a) (marshal (sa_msg a)))
      (filter (reaches (lk_Alive L1) p) as) (lk_PeerWriters L1 ! p)"
    by (rule Cons.IH [OF rest]) (use step Cons.prems(3) in simp_all)
  then show ?case using step Cons.prems(3) by simp
qed simp

context endpoint
begin

text \<open>The reader at the other end of a connection gets the messages that the sender was given for it, in their order.\<close>

lemma sender_connection:
  assumes "NewSender enc as L = Some (L', fs)" "links_ok L" "p < lk_N L" "lk_PeerWriters L ! p = Some []"
    "\<forall>a \<in> set as. sa_rpc a = code (sa_msg a) \<and> ok (sa_msg a)"
  shows "\<exists>wire. lk_PeerWriters L' ! p = Some wire \<and>
    replicaListener (Suc (length (filter (reaches (lk_Alive L) p) as))) table gb gbr wire =
      (map (\<lambda>a. Enqueue (chan (sa_msg a)) (recv (sa_msg a))) (filter (reaches (lk_Alive L) p) as), Eof)"
proof -
  let ?as = "filter (reaches (lk_Alive L) p) as"
  let ?xs = "map (\<lambda>a. Msg (sa_msg a)) ?as"
  have ok: "\<forall>a \<in> set ?as. sa_rpc a = code (sa_msg a) \<and> ok (sa_msg a)" using assms(5) by simp
  have "fold (\<lambda>a. SendMsg (sa_rpc a) (enc (sa_msg a))) bs w = fold (send code enc) (map (\<lambda>a. Msg (sa_msg a)) bs) w"
    if "\<forall>a \<in> set bs. sa_rpc a = code (sa_msg a) \<and> ok (sa_msg a)" for bs and w
    using that by (induction bs arbitrary: w) simp_all
  from this [OF ok] have fold: "lk_PeerWriters L' ! p = fold (send code enc) ?xs (Some [])"
    using sender_fold [OF assms(1-3)] assms(4) by simp
  obtain wire where wire: "fold (send code enc) ?xs (Some []) = Some wire"
    using sends_append [of ?xs "[]"] by blast
  have "list_all (sent_ok ok) ?xs" using ok by (simp add: list_all_iff)
  from connection [OF this wire] have "replicaListener (Suc (length ?xs)) table gb gbr wire
      = (map (received chan recv) ?xs, Eof)" .
  then show ?thesis using fold wire by (auto simp: comp_def)
qed

end


text \<open>Replica 0 of three, with replica 2 down, sends a message to all, one to replica 2, and one to all but replica 2.\<close>

definition links_ex :: links where
  "links_ex = \<lparr>lk_N = 3, lk_Alive = [False, True, False], lk_PeerWriters = [None, Some [], Some []],
     lk_ClientWriters = Map.empty\<rparr>"

definition args_ex :: "unit swift_msg SendArg list" where
  "args_ex =
     (let acks = SwiftMAcksMsg zero_SwiftMAcks; sync = Swift_MSync () in
      SendToAllExecpt 2 sync (swift_code sync)
        (SendToAndFree 2 acks (swift_code acks) True (SendToAllAndFree acks (swift_code acks) True [])))"


end
