(* ===== verification/PeerOrder.thy ===== *)
theory PeerOrder
  imports Latency
begin

text \<open>
  The order in which a replica prefers its peers (\<open>UpdatePreferredPeerOrder\<close> and \<open>ComputeClosestPeers\<close> of
  \<open>replica/replica.go\<close>): Paxos and EPaxos send to the first replicas of this list.

  \<open>None\<close> is the panic of an index out of range.  \<open>sort_slice\<close> is \<open>sort.Slice\<close>, which is only used with a latency table.
\<close>

section \<open>Model\<close>

definition initial_order :: "int \<Rightarrow> nat \<Rightarrow> int list" where
  "initial_order rid N = map (\<lambda>i. (rid + 1 + int i) mod int N) [0..<N]"

text \<open>\<open>aux[i] = p; i++\<close>, with the part of \<open>aux\<close> that is filled.\<close>

definition put_peer :: "nat \<Rightarrow> int \<Rightarrow> int list \<Rightarrow> int list option" where
  "put_peer N p aux = (if length aux < N then Some (aux @ [p]) else None)"

fun put_quorum :: "int \<Rightarrow> nat \<Rightarrow> int list \<Rightarrow> int list \<Rightarrow> int list option" where
  "put_quorum rid N [] aux = Some aux"
| "put_quorum rid N (p # ps) aux =
     (if p = rid then put_quorum rid N ps aux
      else case put_peer N p aux of None \<Rightarrow> None | Some aux \<Rightarrow> put_quorum rid N ps aux)"

fun put_others :: "nat \<Rightarrow> int list \<Rightarrow> int list \<Rightarrow> int list option" where
  "put_others N [] aux = Some aux"
| "put_others N (p # ps) aux =
     (if p \<in> set aux then put_others N ps aux
      else case put_peer N p aux of None \<Rightarrow> None | Some aux \<Rightarrow> put_others N ps aux)"

definition UpdatePreferredPeerOrder :: "int \<Rightarrow> nat \<Rightarrow> int list \<Rightarrow> int list \<Rightarrow> int list option" where
  "UpdatePreferredPeerOrder rid N order quorum =
     (case put_quorum rid N quorum [] of
        None \<Rightarrow> None
      | Some aux \<Rightarrow> map_option (\<lambda>aux. aux @ replicate (N - length aux) 0) (put_others N order aux))"

text \<open>The place of replica \<open>i\<close> among all, by its latency and number.\<close>

definition place :: "int list \<Rightarrow> nat \<Rightarrow> nat" where
  "place lat i = foldl (\<lambda>pos j. if lat ! j < lat ! i \<or> lat ! j = lat ! i \<and> j < i then Suc pos else pos)
     0 [0..<length lat]"

definition closest_first :: "int list \<Rightarrow> int list" where
  "closest_first lat = foldl (\<lambda>quorum i. quorum[place lat i := int i]) (replicate (length lat) 0) [0..<length lat]"

definition slice_less :: "LatencyTable option \<Rightarrow> int \<Rightarrow> int \<Rightarrow> bool" where
  "slice_less dt p q = (let di = WaitDurationID dt p; dj = WaitDurationID dt q in dj = 0 \<or> di < dj)"

definition ComputeClosestPeers ::
  "((int \<Rightarrow> int \<Rightarrow> bool) \<Rightarrow> int list \<Rightarrow> int list) \<Rightarrow> LatencyTable option \<Rightarrow> int \<Rightarrow> int list \<Rightarrow> int list \<Rightarrow> int list option"
where
  "ComputeClosestPeers sort_slice dt rid latencies order =
     (case dt of
        None \<Rightarrow> UpdatePreferredPeerOrder rid (length latencies) order (closest_first latencies)
      | Some _ \<Rightarrow> Some (sort_slice (slice_less dt) order))"

section \<open>The order that results\<close>

lemma put_quorum_all:
  "length aux + length (filter (\<lambda>p. p \<noteq> rid) ps) \<le> N \<Longrightarrow>
   put_quorum rid N ps aux = Some (aux @ filter (\<lambda>p. p \<noteq> rid) ps)"
  by (induction ps arbitrary: aux) (auto simp: put_peer_def split: if_splits)

lemma put_others_all:
  "distinct ps \<Longrightarrow> length aux + length (filter (\<lambda>p. p \<notin> set aux) ps) \<le> N \<Longrightarrow>
   put_others N ps aux = Some (aux @ filter (\<lambda>p. p \<notin> set aux) ps)"
proof (induction ps arbitrary: aux)
  case (Cons p ps)
  show ?case
  proof (cases "p \<in> set aux")
    case False
    have "filter (\<lambda>q. q \<notin> set (aux @ [p])) ps = filter (\<lambda>q. q \<notin> set aux) ps"
      using Cons.prems(1) by (intro filter_cong) auto
    then show ?thesis
      using Cons.IH [of "aux @ [p]"] Cons.prems False by (simp add: put_peer_def)
  qed (use Cons in simp)
qed simp

definition before :: "int list \<Rightarrow> nat \<Rightarrow> nat \<Rightarrow> bool" where
  "before lat j i \<longleftrightarrow> lat ! j < lat ! i \<or> lat ! j = lat ! i \<and> j < i"

lemma place_card: "place lat i = card {j. j < length lat \<and> before lat j i}"
proof -
  have count: "foldl (\<lambda>pos j. if P j then Suc pos else pos) a [0..<k] = a + card {j. j < k \<and> P j}" for P a k
  proof (induction k)
    case (Suc k)
    have "{j. j < Suc k \<and> P j} = (if P k then insert k {j. j < k \<and> P j} else {j. j < k \<and> P j})"
      by (auto simp: less_Suc_eq)
    then show ?case using Suc by simp
  qed simp
  show ?thesis using count [of "\<lambda>j. before lat j i" 0 "length lat"] by (simp add: place_def before_def)
qed

lemma place_less:
  assumes "before lat i k" "i < length lat" "k < length lat"
  shows "place lat i < place lat k"
  unfolding place_card
  by (rule psubset_card_mono) (use assms in \<open>auto simp: before_def psubset_eq\<close>)

lemma place_bound:
  assumes "i < length lat"
  shows "place lat i < length lat"
proof -
  have "{j. j < length lat \<and> before lat j i} \<subseteq> {0..<length lat} - {i}"
    by (auto simp: before_def)
  then have "place lat i \<le> card ({0..<length lat} - {i})"
    unfolding place_card by (rule card_mono [rotated]) simp
  then show ?thesis using assms by simp
qed

lemma before_total: "i \<noteq> k \<Longrightarrow> before lat i k \<or> before lat k i"
  by (auto simp: before_def)

lemma place_inj: "inj_on (place lat) {0..<length lat}"
proof (rule inj_onI)
  fix i k assume "i \<in> {0..<length lat}" "k \<in> {0..<length lat}" "place lat i = place lat k"
  then show "i = k"
    using before_total [of i k lat] place_less [of lat i k] place_less [of lat k i] by fastforce
qed

lemma place_onto: "place lat ` {0..<length lat} = {0..<length lat}"
proof (rule card_subset_eq)
  show "place lat ` {0..<length lat} \<subseteq> {0..<length lat}" using place_bound by auto
  show "card (place lat ` {0..<length lat}) = card {0..<length lat}"
    using place_inj by (rule card_image)
qed simp

lemma closest_first_at:
  assumes "i < length lat"
  shows "closest_first lat ! place lat i = int i"
proof -
  have "length (foldl (\<lambda>quorum i. quorum[place lat i := int i]) xs [0..<k]) = length xs" for xs :: "int list" and k
    by (induction k) simp_all
  then have len: "length (foldl (\<lambda>quorum i. quorum[place lat i := int i]) (replicate (length lat) 0) [0..<k]) = length lat" for k
    by simp
  have "k \<le> length lat \<Longrightarrow> i < k \<Longrightarrow>
      foldl (\<lambda>quorum i. quorum[place lat i := int i]) (replicate (length lat) 0) [0..<k] ! place lat i = int i" for k
  proof (induction k)
    case (Suc k)
    have "place lat k = place lat i \<longleftrightarrow> k = i"
      using inj_on_eq_iff [OF place_inj, of k lat i] Suc.prems assms by simp
    then show ?case using Suc place_bound [of k lat] by (auto simp: nth_list_update len less_Suc_eq)
  qed simp
  then show ?thesis using assms by (simp add: closest_first_def)
qed

lemma length_closest_first [simp]: "length (closest_first lat) = length lat"
proof -
  have "length (foldl (\<lambda>quorum i. quorum[place lat i := int i]) xs [0..<k]) = length xs" for xs :: "int list" and k
    by (induction k) simp_all
  then show ?thesis by (simp add: closest_first_def)
qed

definition closer :: "int list \<Rightarrow> int \<Rightarrow> int \<Rightarrow> bool" where
  "closer lat p q \<longleftrightarrow> lat ! nat p < lat ! nat q \<or> lat ! nat p = lat ! nat q \<and> p < q"

lemma closest_first_sorted: "sorted_wrt (closer lat) (closest_first lat)"
proof -
  have "closer lat (closest_first lat ! a) (closest_first lat ! b)" if ab: "a < b" "b < length lat" for a b
  proof -
    have "a \<in> place lat ` {0..<length lat}" "b \<in> place lat ` {0..<length lat}"
      using ab by (simp_all add: place_onto)
    then obtain i k where ik: "a = place lat i" "b = place lat k" "i < length lat" "k < length lat"
      by auto
    have "before lat i k"
      using before_total [of i k lat] place_less [of lat k i] ik ab by fastforce
    then show ?thesis using ik by (simp add: closest_first_at closer_def before_def)
  qed
  then show ?thesis by (simp add: sorted_wrt_iff_nth_less)
qed

lemma set_closest_first: "set (closest_first lat) = {0..<int (length lat)}"
proof -
  have "set (closest_first lat) = (\<lambda>a. closest_first lat ! a) ` (place lat ` {0..<length lat})"
    by (auto simp: place_onto set_conv_nth)
  also have "\<dots> = int ` {0..<length lat}"
    unfolding image_image by (rule image_cong) (simp_all add: closest_first_at)
  also have "\<dots> = {0..<int (length lat)}"
    using image_int_atLeastLessThan [of 0 "length lat"] by simp
  finally show ?thesis .
qed

text \<open>
  Without a latency table, the replica prefers the other replicas in the order of their latencies and numbers, and
  itself last: the new order has every replica once.
\<close>

theorem closest_peers_first:
  assumes "0 \<le> rid" "rid < int (length lat)" "distinct order" "set order = {0..<int (length lat)}"
  shows "\<exists>others. ComputeClosestPeers sort_slice None rid lat order = Some (others @ [rid]) \<and>
    sorted_wrt (closer lat) others \<and> distinct others \<and> set others = {0..<int (length lat)} - {rid}"
proof -
  let ?N = "length lat"
  let ?others = "filter (\<lambda>p. p \<noteq> rid) (closest_first lat)"
  have irrefl: "\<not> closer lat p p" for p by (simp add: closer_def)
  have sorted: "sorted_wrt (closer lat) ?others" using closest_first_sorted by (rule sorted_wrt_filter)
  have "distinct (closest_first lat)"
    using closest_first_sorted [of lat] irrefl by (auto simp: distinct_conv_nth sorted_wrt_iff_nth_less) (metis linorder_neqE_nat)
  then have d: "distinct ?others" by simp
  have set_o: "set ?others = {0..<int ?N} - {rid}" using set_closest_first by auto
  have "length ?others = card ({0..<int ?N} - {rid})" using distinct_card [OF d] set_o by simp
  also have "\<dots> = ?N - 1" using assms(1,2) by simp
  finally have len: "length ?others = ?N - 1" .
  have pq: "put_quorum rid ?N (closest_first lat) [] = Some ?others"
    using put_quorum_all [of "[]" rid "closest_first lat" ?N] len by simp
  have "filter (\<lambda>p. p \<notin> set ?others) order = filter (\<lambda>p. p = rid) order"
    using assms(4) set_o by (intro filter_cong) auto
  also have "\<dots> = [rid]"
  proof -
    have "rid \<in> set order" using assms(1,2,4) by simp
    then show ?thesis using assms(3) by (induction order) (auto simp: filter_empty_conv)
  qed
  finally have rest: "filter (\<lambda>p. p \<notin> set ?others) order = [rid]" .
  have N: "1 \<le> ?N" using assms(1,2) by linarith
  have "put_others ?N order ?others = Some (?others @ [rid])"
    using put_others_all [OF assms(3), of ?others ?N] rest len N by simp
  then have "ComputeClosestPeers sort_slice None rid lat order = Some (?others @ [rid])"
    using pq len N by (simp add: ComputeClosestPeers_def UpdatePreferredPeerOrder_def)
  then show ?thesis using sorted d set_o by blast
qed

theorem closest_peers_first_witness:
  "\<exists>others. ComputeClosestPeers (\<lambda>_ xs. xs) None 1 [30, 0, 10, 30] (initial_order 1 4) = Some (others @ [1]) \<and>
    sorted_wrt (closer [30, 0, 10, 30]) others \<and> others = [2, 0, 3]"
proof -
  let ?lat = "[30, 0, 10, 30] :: int list"
  have ord: "initial_order 1 4 = [2, 3, 0, 1]" by code_simp
  have "set (initial_order 1 4) = {0..<int (length ?lat)}"
    by (auto simp: ord)
  with closest_peers_first [of 1 ?lat "initial_order 1 4" "\<lambda>_ xs. xs"] ord
  obtain others where o: "ComputeClosestPeers (\<lambda>_ xs. xs) None 1 ?lat (initial_order 1 4) = Some (others @ [1])"
      "sorted_wrt (closer ?lat) others"
    by auto
  moreover have "ComputeClosestPeers (\<lambda>_ xs. xs) None 1 ?lat (initial_order 1 4) = Some [2, 0, 3, 1]"
    by code_simp
  ultimately show ?thesis by auto
qed

end
