(* ===== verification/Master.thy ===== *)
theory Master
  imports GoString ClientMsg
begin

text \<open>
  The master (\<open>master/master.go\<close>): it numbers the replicas that register, picks a leader, watches the replicas, and makes
  another one the leader when the leader does not answer.

  The latencies are \<open>float64\<close>; the code only compares them, so that their type is a parameter, with the comparison, zero
  and \<open>math.MaxFloat64\<close> in \<open>floats\<close>.  \<open>ping\<close> is the latency that the program \<open>ping\<close> prints for an address, \<open>None\<close> if it
  fails.  The answers of the replicas to remote calls are arguments of the steps that make the calls; \<open>None\<close> is an error.
\<close>

section \<open>State\<close>

record 'f floats =
  fl_less :: "'f \<Rightarrow> 'f \<Rightarrow> bool"
  fl_zero :: 'f
  fl_MaxFloat64 :: 'f

datatype master_exit = SliceBounds | PingFailed | IndexRange | NotToday

record RegisterArgs =
  ra_Addr :: string
  ra_Port :: int

record RegisterReply =
  rr_ReplicaId :: int
  rr_NodeList :: "string list"
  rr_Ready :: bool
  rr_IsLeader :: bool

record GetReplicaListReply =
  gr_ReplicaList :: "string list"
  gr_AliveList :: "bool list"
  gr_Ready :: bool

record 'f Master =
  ms_N :: nat
  ms_nodeList :: "string list"
  ms_addrList :: "string list"
  ms_portList :: "int list"
  ms_leader :: "bool list"
  ms_alive :: "bool list"
  ms_latencies :: "'f list"
  ms_finishInit :: bool
  ms_nextLeader :: int
  ms_configLeader :: "string option"

definition NewMaster :: "'f floats \<Rightarrow> nat \<Rightarrow> string option \<Rightarrow> 'f Master" where
  "NewMaster F N conf = \<lparr>ms_N = N, ms_nodeList = [], ms_addrList = [], ms_portList = [],
     ms_leader = replicate N False, ms_alive = replicate N False, ms_latencies = replicate N (fl_zero F),
     ms_finishInit = False, ms_nextLeader = -1, ms_configLeader = conf\<rparr>"

section \<open>Registration\<close>

definition addrPort :: "RegisterArgs \<Rightarrow> string" where
  "addrPort args = ra_Addr args @ CHR '':'' # show_int (ra_Port args)"

definition index_of :: "string \<Rightarrow> string list \<Rightarrow> nat" where
  "index_of ap xs = length (takeWhile (\<lambda>x. x \<noteq> ap) xs)"

text \<open>A new node takes the next place; the lists have capacity \<open>N\<close>.\<close>

definition add_node ::
  "(string \<Rightarrow> 'f option) \<Rightarrow> RegisterArgs \<Rightarrow> 'f Master \<Rightarrow> master_exit + 'f Master" where
  "add_node ping args s =
     (let nlen = length (ms_nodeList s) in
      if ms_N s \<le> nlen then Inl SliceBounds
      else case ping (if ra_Addr args = [] then ''127.0.0.1'' else ra_Addr args) of
          None \<Rightarrow> Inl PingFailed
        | Some lat \<Rightarrow> Inr (s\<lparr>ms_nodeList := ms_nodeList s @ [addrPort args],
             ms_addrList := ms_addrList s @ [ra_Addr args], ms_portList := ms_portList s @ [ra_Port args],
             ms_leader := (ms_leader s)[nlen := False], ms_latencies := (ms_latencies s)[nlen := lat]\<rparr>))"

fun closest :: "'f floats \<Rightarrow> 'f list \<Rightarrow> int \<Rightarrow> 'f \<times> int \<Rightarrow> int" where
  "closest F [] i (minLatency, leader) = leader"
| "closest F (x # xs) i (minLatency, leader) =
     closest F xs (i + 1) (if fl_less F x minLatency then (x, i) else (minLatency, leader))"

definition leader_index :: "'f floats \<Rightarrow> string \<Rightarrow> nat \<Rightarrow> 'f Master \<Rightarrow> int" where
  "leader_index F ap index s =
     (case ms_configLeader s of
        Some a \<Rightarrow> if ap = a then int index else -1
      | None \<Rightarrow> closest F (ms_latencies s) 0 (fl_MaxFloat64 F, -1))"

definition answer :: "'f floats \<Rightarrow> string \<Rightarrow> nat \<Rightarrow> 'f Master \<Rightarrow> RegisterReply \<times> 'f Master" where
  "answer F ap index s =
     (if length (ms_nodeList s) = ms_N s then
        if leader_index F ap index s = int index then
          (\<lparr>rr_ReplicaId = int index, rr_NodeList = ms_nodeList s, rr_Ready = True, rr_IsLeader = True\<rparr>,
           s\<lparr>ms_leader := (ms_leader s)[index := True]\<rparr>)
        else (\<lparr>rr_ReplicaId = int index, rr_NodeList = ms_nodeList s, rr_Ready = True, rr_IsLeader = False\<rparr>, s)
      else (\<lparr>rr_ReplicaId = 0, rr_NodeList = [], rr_Ready = False, rr_IsLeader = False\<rparr>, s))"

definition Register_node ::
  "'f floats \<Rightarrow> (string \<Rightarrow> 'f option) \<Rightarrow> RegisterArgs \<Rightarrow> 'f Master \<Rightarrow> master_exit + RegisterReply \<times> 'f Master"
where
  "Register_node F ping args s =
     (let index = index_of (addrPort args) (ms_nodeList s) in
      if index = length (ms_nodeList s) then
        (case add_node ping args s of Inl e \<Rightarrow> Inl e | Inr s \<Rightarrow> Inr (answer F (addrPort args) index s))
      else Inr (answer F (addrPort args) index s))"

section \<open>Questions of the clients\<close>

text \<open>Without a leader the reply keeps its zero value.\<close>

definition GetLeader :: "'f Master \<Rightarrow> int" where
  "GetLeader s = (let l = takeWhile Not (ms_leader s) in
     if length l = length (ms_leader s) then 0 else int (length l))"

text \<open>\<open>None\<close>: the call waits for the end of the initialization.\<close>

definition GetReplicaList :: "'f Master \<Rightarrow> GetReplicaListReply option" where
  "GetReplicaList s =
     (if \<not> ms_finishInit s then None
      else Some \<lparr>gr_ReplicaList = ms_nodeList s, gr_AliveList = take (length (ms_nodeList s)) (ms_alive s),
             gr_Ready = (length (ms_nodeList s) = ms_N s)\<rparr>)"

section \<open>Leaders\<close>

definition NewBeTheLeaderReply :: BeTheLeaderReply where
  "NewBeTheLeaderReply = \<lparr>BeTheLeaderReply_Leader = -1, BeTheLeaderReply_NextLeader = -1\<rparr>"

definition UpdateBeTheLeaderReply :: "BeTheLeaderReply \<Rightarrow> BeTheLeaderReply" where
  "UpdateBeTheLeaderReply r = \<lparr>
     BeTheLeaderReply_Leader = (if BeTheLeaderReply_Leader r = -2 then 0 else BeTheLeaderReply_Leader r),
     BeTheLeaderReply_NextLeader = (if BeTheLeaderReply_NextLeader r = -2 then 0 else BeTheLeaderReply_NextLeader r)\<rparr>"

definition IsDefault :: "BeTheLeaderReply \<Rightarrow> bool" where
  "IsDefault r \<longleftrightarrow> BeTheLeaderReply_Leader r = -1 \<and> BeTheLeaderReply_NextLeader r = -1"

text \<open>
  \<open>net/rpc\<close> encodes a reply with \<open>gob\<close>, which does not send fields that are zero: those keep the value that the caller
  had given them.
\<close>

definition gob_reply :: "BeTheLeaderReply \<Rightarrow> BeTheLeaderReply \<Rightarrow> BeTheLeaderReply" where
  "gob_reply sent mine = \<lparr>
     BeTheLeaderReply_Leader = (if BeTheLeaderReply_Leader sent = 0 then BeTheLeaderReply_Leader mine
       else BeTheLeaderReply_Leader sent),
     BeTheLeaderReply_NextLeader = (if BeTheLeaderReply_NextLeader sent = 0 then BeTheLeaderReply_NextLeader mine
       else BeTheLeaderReply_NextLeader sent)\<rparr>"

definition btl_reply :: "BeTheLeaderReply \<Rightarrow> BeTheLeaderReply" where
  "btl_reply sent = UpdateBeTheLeaderReply (gob_reply sent NewBeTheLeaderReply)"

definition in_range :: "int \<Rightarrow> 'a list \<Rightarrow> bool" where
  "in_range i xs \<longleftrightarrow> 0 \<le> i \<and> i < int (length xs)"

text \<open>
  One iteration of the loop that connects to the replicas, with the answer of replica \<open>i\<close> to \<open>BeTheLeader\<close>.  A connection
  that fails is tried again and changes nothing.
\<close>

definition init_node :: "BeTheLeaderReply option \<Rightarrow> int \<times> 'f Master \<Rightarrow> master_exit + int \<times> 'f Master" where
  "init_node resp acc =
     (let (i, s) = acc in
      if ms_leader s ! nat i then
        (case resp of
           None \<Rightarrow> Inl NotToday
         | Some sent \<Rightarrow>
             let r = btl_reply sent; l = BeTheLeaderReply_Leader r; leaderI = (if l = -1 then i else l) in
             if \<not> in_range leaderI (ms_leader s) then Inl IndexRange
             else
               let s = (if l = -1 then s
                        else s\<lparr>ms_leader := (ms_leader s)[nat i := False, nat leaderI := True]\<rparr>);
                   s = s\<lparr>ms_nextLeader := BeTheLeaderReply_NextLeader r\<rparr>
               in Inr (if leaderI < i then leaderI else i + 1, s))
      else Inr (i + 1, s))"

fun init_nodes ::
  "BeTheLeaderReply option list \<Rightarrow> int \<times> 'f Master \<Rightarrow> master_exit + int \<times> 'f Master" where
  "init_nodes [] acc = Inr acc"
| "init_nodes (r # rs) acc =
     (if int (ms_N (snd acc)) \<le> fst acc then Inr acc
      else case init_node r acc of Inl e \<Rightarrow> Inl e | Inr acc \<Rightarrow> init_nodes rs acc)"

text \<open>\<open>err\<close>: the call of \<open>Ping\<close> fails.\<close>

definition pingNode :: "nat \<Rightarrow> bool \<Rightarrow> 'f Master \<times> bool \<Rightarrow> 'f Master \<times> bool" where
  "pingNode i err acc =
     (let (s, new_leader) = acc in
      if err then
        let s = s\<lparr>ms_alive := (ms_alive s)[i := False]\<rparr> in
        if ms_leader s ! i then (s\<lparr>ms_leader := (ms_leader s)[i := False]\<rparr>, True) else (s, new_leader)
      else (s\<lparr>ms_alive := (ms_alive s)[i := True]\<rparr>, new_leader))"

fun ping_nodes :: "nat \<Rightarrow> bool list \<Rightarrow> 'f Master \<times> bool \<Rightarrow> 'f Master \<times> bool" where
  "ping_nodes i [] acc = acc"
| "ping_nodes i (e # es) acc = ping_nodes (Suc i) es (pingNode i e acc)"

definition finish_init :: "bool list \<Rightarrow> 'f Master \<Rightarrow> 'f Master" where
  "finish_init errs s = (fst (ping_nodes 0 errs (s, False)))\<lparr>ms_finishInit := True\<rparr>"

text \<open>The result says whether the call returned no error.\<close>

definition beTheLeader :: "int \<Rightarrow> BeTheLeaderReply option \<Rightarrow> 'f Master \<Rightarrow> master_exit + bool \<times> 'f Master" where
  "beTheLeader i resp s =
     (if \<not> in_range i (ms_alive s) then Inl IndexRange
      else if ms_alive s ! nat i then
        (case resp of
           None \<Rightarrow> Inr (False, s)
         | Some sent \<Rightarrow>
             let r = btl_reply sent; l = BeTheLeaderReply_Leader r; leaderI = (if l = -1 then i else l) in
             if \<not> in_range leaderI (ms_leader s) then Inl IndexRange
             else Inr (True, s\<lparr>ms_leader := (ms_leader s)[nat leaderI := True],
                    ms_nextLeader := BeTheLeaderReply_NextLeader r\<rparr>))
      else Inr (False, s))"

fun try_nodes :: "int list \<Rightarrow> (int \<Rightarrow> BeTheLeaderReply option) \<Rightarrow> 'f Master \<Rightarrow> master_exit + 'f Master" where
  "try_nodes [] resp s = Inr s"
| "try_nodes (i # is) resp s =
     (case beTheLeader i (resp i) s of
        Inl e \<Rightarrow> Inl e
      | Inr (ok, s) \<Rightarrow> if ok then Inr s else try_nodes is resp s)"

text \<open>
  One round: which calls of \<open>Ping\<close> fail, the answer of the next leader, and the answers of the replicas that are asked
  after it.
\<close>

type_synonym round = "bool list \<times> BeTheLeaderReply option \<times> (int \<Rightarrow> BeTheLeaderReply option)"

definition watch :: "round \<Rightarrow> 'f Master \<Rightarrow> master_exit + 'f Master" where
  "watch r s =
     (let (errs, next, resp) = r; (s, new_leader) = ping_nodes 0 errs (s, False) in
      if \<not> new_leader then Inr s
      else if ms_nextLeader s \<noteq> -1 then
        (case beTheLeader (ms_nextLeader s) next s of
           Inl e \<Rightarrow> Inl e
         | Inr (ok, s) \<Rightarrow> if ok then Inr s else try_nodes [0..int (ms_N s) - 1] resp s)
      else try_nodes [0..int (ms_N s) - 1] resp s)"

fun watches :: "round list \<Rightarrow> 'f Master \<Rightarrow> master_exit + 'f Master" where
  "watches [] s = Inr s"
| "watches (r # rs) s = (case watch r s of Inl e \<Rightarrow> Inl e | Inr s \<Rightarrow> watches rs s)"

text \<open>A sequence of registrations, with the replies.\<close>

fun registers ::
  "'f floats \<Rightarrow> (string \<Rightarrow> 'f option) \<Rightarrow> RegisterArgs list \<Rightarrow> 'f Master \<Rightarrow>
   master_exit + (RegisterArgs \<times> RegisterReply) list \<times> 'f Master"
where
  "registers F ping [] s = Inr ([], s)"
| "registers F ping (a # as) s =
     (case Register_node F ping a s of
        Inl e \<Rightarrow> Inl e
      | Inr (r, s) \<Rightarrow> (case registers F ping as s of Inl e \<Rightarrow> Inl e | Inr (rs, s) \<Rightarrow> Inr ((a, r) # rs, s)))"

section \<open>Registration agrees\<close>

definition full :: "'f Master \<Rightarrow> bool" where
  "full s \<longleftrightarrow> length (ms_nodeList s) = ms_N s"

definition chosen_leader :: "'f floats \<Rightarrow> nat \<Rightarrow> 'f Master \<Rightarrow> bool" where
  "chosen_leader F i s \<longleftrightarrow> leader_index F (ms_nodeList s ! i) i s = int i"

definition register_inv :: "'f floats \<Rightarrow> 'f Master \<Rightarrow> bool" where
  "register_inv F s \<longleftrightarrow> length (ms_nodeList s) \<le> ms_N s \<and> length (ms_leader s) = ms_N s \<and>
     length (ms_latencies s) = ms_N s \<and> distinct (ms_nodeList s) \<and>
     (\<forall>i < ms_N s. ms_leader s ! i \<longrightarrow> full s \<and> chosen_leader F i s)"

definition same_nodes :: "'f Master \<Rightarrow> 'f Master \<Rightarrow> bool" where
  "same_nodes s s' \<longleftrightarrow> ms_nodeList s' = ms_nodeList s \<and> ms_latencies s' = ms_latencies s \<and>
     ms_configLeader s' = ms_configLeader s \<and> ms_N s' = ms_N s"

definition good_reply :: "'f floats \<Rightarrow> RegisterArgs \<Rightarrow> RegisterReply \<Rightarrow> 'f Master \<Rightarrow> bool" where
  "good_reply F a r s \<longleftrightarrow> full s \<and> rr_NodeList r = ms_nodeList s \<and>
     0 \<le> rr_ReplicaId r \<and> rr_ReplicaId r < int (ms_N s) \<and> ms_nodeList s ! nat (rr_ReplicaId r) = addrPort a \<and>
     (rr_IsLeader r \<longrightarrow> chosen_leader F (nat (rr_ReplicaId r)) s)"

lemma index_of_found:
  "index_of ap xs < length xs \<Longrightarrow> xs ! index_of ap xs = ap"
  using nth_length_takeWhile [of "\<lambda>x. x \<noteq> ap" xs] by (auto simp: index_of_def)

lemma index_of_le: "index_of ap xs \<le> length xs"
  by (simp add: index_of_def length_takeWhile_le)

lemma index_of_new: "index_of ap xs = length xs \<Longrightarrow> ap \<notin> set xs"
  using takeWhile_eq_all_conv [of "\<lambda>x. x \<noteq> ap" xs]
  by (metis index_of_def le_refl take_all takeWhile_eq_take)

lemma same_nodes_chosen:
  "same_nodes s s' \<Longrightarrow> chosen_leader F i s' = chosen_leader F i s"
  by (simp add: same_nodes_def chosen_leader_def leader_index_def split: option.split)

lemma same_nodes_full: "same_nodes s s' \<Longrightarrow> full s' = full s"
  by (simp add: same_nodes_def full_def)

lemma same_nodes_trans: "same_nodes s s' \<Longrightarrow> same_nodes s' s'' \<Longrightarrow> same_nodes s s''"
  by (simp add: same_nodes_def)

lemma good_reply_same: "same_nodes s s' \<Longrightarrow> good_reply F a r s \<Longrightarrow> good_reply F a r s'"
  by (simp add: good_reply_def same_nodes_full same_nodes_chosen) (simp add: same_nodes_def)

lemma register_inv_new: "register_inv F (NewMaster F N conf)"
  by (simp add: register_inv_def NewMaster_def)

lemma add_node_inv:
  assumes "register_inv F s" "add_node ping a s = Inr s'" "addrPort a \<notin> set (ms_nodeList s)"
  shows "register_inv F s' \<and> \<not> full s \<and> ms_nodeList s' = ms_nodeList s @ [addrPort a] \<and> ms_N s' = ms_N s"
proof -
  have n: "length (ms_nodeList s) < ms_N s"
    using assms(2) by (auto simp: add_node_def Let_def split: if_splits option.splits)
  have "\<not> ms_leader s ! i" if "i < ms_N s" for i
    using assms(1) n that by (auto simp: register_inv_def full_def)
  then show ?thesis
    using assms n
    by (auto simp: add_node_def Let_def register_inv_def full_def nth_list_update split: if_splits option.splits)
qed

lemma answer_good:
  assumes "register_inv F s" "index < length (ms_nodeList s)" "ms_nodeList s ! index = addrPort a"
    "answer F (addrPort a) index s = (r, s')"
  shows "register_inv F s' \<and> same_nodes s s' \<and> (rr_Ready r \<longrightarrow> good_reply F a r s') \<and> (rr_IsLeader r \<longrightarrow> rr_Ready r)"
proof (cases "full s \<and> chosen_leader F index s")
  case True
  then have r: "rr_NodeList r = ms_nodeList s" "rr_ReplicaId r = int index" "rr_Ready r"
      and s': "s' = s\<lparr>ms_leader := (ms_leader s)[index := True]\<rparr>"
    using assms(3,4) by (auto simp: answer_def full_def chosen_leader_def)
  have same: "same_nodes s s'" by (simp add: s' same_nodes_def)
  have "register_inv F s'"
    using assms(1) True
    by (auto simp: register_inv_def same_nodes_full [OF same] same_nodes_chosen [OF same])
       (use assms(1,2) in \<open>auto simp: s' nth_list_update register_inv_def split: if_splits\<close>)
  moreover have "good_reply F a r s'"
    using assms(2,3) True r
    by (simp add: good_reply_def same_nodes_full [OF same] same_nodes_chosen [OF same])
       (simp add: s' full_def)
  ultimately show ?thesis using same r by simp
next
  case False
  then have "s' = s" "\<not> rr_IsLeader r" "rr_Ready r \<longrightarrow> full s \<and> rr_NodeList r = ms_nodeList s \<and> rr_ReplicaId r = int index"
    using assms(3,4) by (auto simp: answer_def full_def chosen_leader_def split: if_splits)
  then show ?thesis
    using assms(1-3) by (auto simp: good_reply_def same_nodes_def register_inv_def)
qed

lemma Register_node_good:
  assumes "register_inv F s" "Register_node F ping a s = Inr (r, s')"
  shows "register_inv F s' \<and> (full s \<longrightarrow> same_nodes s s') \<and> (rr_Ready r \<longrightarrow> good_reply F a r s') \<and>
    (rr_IsLeader r \<longrightarrow> rr_Ready r)"
proof (cases "index_of (addrPort a) (ms_nodeList s) = length (ms_nodeList s)")
  case True
  then obtain s1 where s1: "add_node ping a s = Inr s1"
      and ans: "answer F (addrPort a) (length (ms_nodeList s)) s1 = (r, s')"
    using assms(2) by (auto simp: Register_node_def Let_def split: sum.splits)
  note inv = add_node_inv [OF assms(1) s1 index_of_new [OF True]]
  from answer_good [OF _ _ _ ans] inv show ?thesis by (auto simp: nth_append)
next
  case False
  then have i: "index_of (addrPort a) (ms_nodeList s) < length (ms_nodeList s)"
    using index_of_le le_neq_implies_less by blast
  have "answer F (addrPort a) (index_of (addrPort a) (ms_nodeList s)) s = (r, s')"
    using assms(2) False by (simp add: Register_node_def Let_def)
  from answer_good [OF assms(1) i index_of_found [OF i] this] show ?thesis by simp
qed

lemma registers_good:
  assumes "registers F ping as s = Inr (rs, s')" "register_inv F s"
  shows "register_inv F s' \<and> (full s \<longrightarrow> same_nodes s s') \<and>
    (\<forall>(a, r) \<in> set rs. (rr_Ready r \<longrightarrow> good_reply F a r s') \<and> (rr_IsLeader r \<longrightarrow> rr_Ready r))"
  using assms
proof (induction as arbitrary: s rs)
  case Nil
  then show ?case by (simp add: same_nodes_def)
next
  case (Cons a as)
  from Cons.prems(1) obtain r s1 rs1 where reg: "Register_node F ping a s = Inr (r, s1)"
      and rest: "registers F ping as s1 = Inr (rs1, s')" and rs: "rs = (a, r) # rs1"
    by (auto split: sum.splits)
  note one = Register_node_good [OF Cons.prems(2) reg]
  have inv1: "register_inv F s1" using one by blast
  note IH = Cons.IH [OF rest inv1]
  have "same_nodes s s'" if "full s"
    using that one IH same_nodes_full same_nodes_trans by blast
  moreover have "good_reply F a r s'" if "rr_Ready r"
  proof -
    have "good_reply F a r s1" using that one by blast
    moreover from this have "full s1" by (simp add: good_reply_def)
    ultimately show ?thesis using IH good_reply_same by blast
  qed
  ultimately show ?case using one IH by (simp add: rs)
qed

lemma one_choice:
  assumes "good_reply F a r s" "good_reply F b q s" "rr_IsLeader r" "rr_IsLeader q"
  shows "addrPort a = addrPort b"
proof (cases "ms_configLeader s")
  case None
  then have "rr_ReplicaId r = rr_ReplicaId q"
    using assms by (auto simp: good_reply_def chosen_leader_def leader_index_def)
  then show ?thesis using assms(1,2) by (simp add: good_reply_def)
next
  case (Some c)
  then show ?thesis using assms
    by (auto simp: good_reply_def chosen_leader_def leader_index_def split: if_splits)
qed

text \<open>
  C27: When the replicas have registered, in any order and as often as they like, every reply that says \<open>Ready\<close> has the
  same list of nodes, without repetitions, the number of a replica is the place of its endpoint in this list, and all
  replicas that are told that they lead have the same endpoint.
\<close>

theorem registration_agrees:
  assumes "registers F ping as (NewMaster F N conf) = Inr (rs, s)"
  shows "distinct (ms_nodeList s) \<and>
    (\<forall>(a, r) \<in> set rs. rr_Ready r \<longrightarrow> rr_NodeList r = ms_nodeList s \<and> length (rr_NodeList r) = N \<and>
       0 \<le> rr_ReplicaId r \<and> rr_ReplicaId r < int N \<and> rr_NodeList r ! nat (rr_ReplicaId r) = addrPort a) \<and>
    (\<forall>(a, r) \<in> set rs. \<forall>(b, q) \<in> set rs. rr_IsLeader r \<and> rr_IsLeader q \<longrightarrow> addrPort a = addrPort b)"
proof -
  have N: "ms_N s' = ms_N s0" if "registers F ping bs s0 = Inr (qs, s')" for bs qs s0 and s' :: "'a Master"
    using that
    by (induction bs arbitrary: s0 qs)
       (auto simp: Register_node_def add_node_def answer_def Let_def split: sum.splits if_splits option.splits)
  have n: "ms_N s = N" using N [OF assms] by (simp add: NewMaster_def)
  note good = registers_good [OF assms register_inv_new]
  have ready: "good_reply F a r s" if "(a, r) \<in> set rs" "rr_Ready r" for a r
    using good that by blast
  have lead: "addrPort a = addrPort b" if "(a, r) \<in> set rs" "(b, q) \<in> set rs" "rr_IsLeader r" "rr_IsLeader q" for a r b q
    using one_choice [of F a r s b q] good that by blast
  have "distinct (ms_nodeList s)" using good by (simp add: register_inv_def)
  moreover have "\<forall>(a, r) \<in> set rs. rr_Ready r \<longrightarrow> rr_NodeList r = ms_nodeList s \<and> length (rr_NodeList r) = N \<and>
       0 \<le> rr_ReplicaId r \<and> rr_ReplicaId r < int N \<and> rr_NodeList r ! nat (rr_ReplicaId r) = addrPort a"
  proof (clarify, intro conjI)
    fix a r assume "(a, r) \<in> set rs" "rr_Ready r"
    from ready [OF this] n show "rr_NodeList r = ms_nodeList s" "length (rr_NodeList r) = N" "0 \<le> rr_ReplicaId r"
        "rr_ReplicaId r < int N" "rr_NodeList r ! nat (rr_ReplicaId r) = addrPort a"
      by (simp_all add: good_reply_def full_def)
  qed
  moreover have "\<forall>(a, r) \<in> set rs. \<forall>(b, q) \<in> set rs. rr_IsLeader r \<and> rr_IsLeader q \<longrightarrow> addrPort a = addrPort b"
    using lead by blast
  ultimately show ?thesis by blast
qed

text \<open>Three replicas register; the second is the closest to the master.\<close>

definition int_floats :: "int floats" where
  "int_floats = \<lparr>fl_less = (<), fl_zero = 0, fl_MaxFloat64 = 1000000\<rparr>"

definition ping_ex :: "string \<Rightarrow> int option" where
  "ping_ex a = (if a = ''b'' then Some 10 else Some 20)"

definition Some_20 :: "string \<Rightarrow> int option" where
  "Some_20 a = Some 20"

definition arg_ex :: "string \<Rightarrow> RegisterArgs" where
  "arg_ex a = \<lparr>ra_Addr = a, ra_Port = 7070\<rparr>"

definition args_ex :: "RegisterArgs list" where
  "args_ex = map arg_ex [''a'', ''b'', ''c'', ''b'', ''a'']"

theorem registration_agrees_witness:
  "\<exists>rs s. registers int_floats ping_ex args_ex (NewMaster int_floats 3 None) = Inr (rs, s) \<and>
     distinct (ms_nodeList s) \<and> map (\<lambda>(a, r). (rr_Ready r, rr_ReplicaId r, rr_IsLeader r)) rs =
       [(False, 0, False), (False, 0, False), (True, 2, False), (True, 1, True), (True, 0, False)]"
proof -
  have ev: "(case registers int_floats ping_ex args_ex (NewMaster int_floats 3 None) of Inl e \<Rightarrow> []
      | Inr x \<Rightarrow> map (\<lambda>(a, r). (rr_Ready r, rr_ReplicaId r, rr_IsLeader r)) (fst x)) =
    [(False, 0, False), (False, 0, False), (True, 2, False), (True, 1, True), (True, 0, False)]"
    by code_simp
  then obtain rs s where run: "registers int_floats ping_ex args_ex (NewMaster int_floats 3 None) = Inr (rs, s)"
    by (cases "registers int_floats ping_ex args_ex (NewMaster int_floats 3 None)") auto
  with ev have "map (\<lambda>(a, r). (rr_Ready r, rr_ReplicaId r, rr_IsLeader r)) rs =
       [(False, 0, False), (False, 0, False), (True, 2, False), (True, 1, True), (True, 0, False)]"
    by simp
  with registration_agrees [OF run, THEN conjunct1] run show ?thesis by (intro exI conjI)
qed

section \<open>Rounds of the watch\<close>

definition flags :: "'f Master \<Rightarrow> nat set" where
  "flags s = {i. i < length (ms_leader s) \<and> ms_leader s ! i}"

lemma GetLeader_none: "flags s = {} \<Longrightarrow> GetLeader s = 0"
proof -
  assume "flags s = {}"
  then have all: "takeWhile Not (ms_leader s) = ms_leader s"
    by (simp add: flags_def takeWhile_eq_all_conv all_set_conv_all_nth)
  show ?thesis by (simp only: GetLeader_def all Let_def) simp
qed

lemma GetLeader_one:
  assumes "flags s = {i}"
  shows "GetLeader s = int i"
proof -
  have mem: "(j < length (ms_leader s) \<and> ms_leader s ! j) = (j = i)" for j
    using assms by (simp add: flags_def set_eq_iff)
  have i: "i < length (ms_leader s)" "ms_leader s ! i" using mem [of i] by simp_all
  have other: "\<not> ms_leader s ! j" if "j < i" for j using mem [of j] that i(1) by simp
  have "takeWhile Not (ms_leader s) = take i (ms_leader s)"
    by (rule takeWhile_eq_take_P_nth) (use i other in simp_all)
  then show ?thesis using i(1) by (simp add: GetLeader_def)
qed

lemma pingNode_facts:
  assumes "pingNode i err (s, new) = (s', new')" "i < length (ms_leader s)" "length (ms_alive s) = length (ms_leader s)"
  shows "flags s' = (if err then flags s - {i} else flags s)" "new' = (new \<or> flags s' \<noteq> flags s)"
    "ms_nextLeader s' = ms_nextLeader s" "ms_N s' = ms_N s" "length (ms_leader s') = length (ms_leader s)"
    "ms_alive s' = (ms_alive s)[i := \<not> err]"
proof -
  have fl: "flags s' = (if err then flags s - {i} else flags s)"
    using assms(1,2)
    by (cases err) (auto simp: pingNode_def Let_def flags_def nth_list_update split: if_splits)
  show "flags s' = (if err then flags s - {i} else flags s)" by (rule fl)
  show "new' = (new \<or> flags s' \<noteq> flags s)"
  proof (cases "err \<and> ms_leader s ! i")
    case True
    then have "i \<in> flags s" using assms(2) by (simp add: flags_def)
    with True assms(1) fl show ?thesis by (auto simp: pingNode_def Let_def)
  next
    case False
    then have "flags s' = flags s" using fl by (auto simp: flags_def)
    with False assms(1) show ?thesis by (auto simp: pingNode_def Let_def split: if_splits)
  qed
qed (use assms(1) in \<open>auto simp: pingNode_def Let_def split: if_splits\<close>)

lemma ping_nodes_facts:
  assumes "ping_nodes k errs (s, new) = (s', new')" "k + length errs = length (ms_leader s)"
    "length (ms_alive s) = length (ms_leader s)"
  shows "flags s' \<subseteq> flags s \<and> (new' \<longleftrightarrow> new \<or> flags s' \<noteq> flags s) \<and> ms_nextLeader s' = ms_nextLeader s \<and>
    ms_N s' = ms_N s \<and> length (ms_leader s') = length (ms_leader s) \<and> length (ms_alive s') = length (ms_leader s) \<and>
    (\<forall>i < k. ms_alive s' ! i = ms_alive s ! i) \<and> (\<forall>i \<in> flags s'. k \<le> i \<longrightarrow> ms_alive s' ! i)"
  using assms
proof (induction errs arbitrary: k s new)
  case Nil
  then show ?case by (auto simp: flags_def)
next
  case (Cons e errs)
  obtain s1 new1 where one: "pingNode k e (s, new) = (s1, new1)" by (cases "pingNode k e (s, new)")
  have k: "k < length (ms_leader s)" using Cons.prems(2) by simp
  note facts = pingNode_facts [OF one k Cons.prems(3)]
  have rest: "ping_nodes (Suc k) errs (s1, new1) = (s', new')" using Cons.prems(1) one by simp
  have al: "length (ms_alive s1) = length (ms_leader s1)" using facts Cons.prems(3) by simp
  have IH: "flags s' \<subseteq> flags s1 \<and> (new' \<longleftrightarrow> new1 \<or> flags s' \<noteq> flags s1) \<and> ms_nextLeader s' = ms_nextLeader s1 \<and>
    ms_N s' = ms_N s1 \<and> length (ms_leader s') = length (ms_leader s1) \<and> length (ms_alive s') = length (ms_leader s1) \<and>
    (\<forall>i < Suc k. ms_alive s' ! i = ms_alive s1 ! i) \<and> (\<forall>i \<in> flags s'. Suc k \<le> i \<longrightarrow> ms_alive s' ! i)"
    by (rule Cons.IH [OF rest _ al]) (use Cons.prems(2) facts in simp)
  have sub: "flags s' \<subseteq> flags s1" "flags s1 \<subseteq> flags s" using IH facts(1) by auto
  have alive_k: "ms_alive s' ! k = (\<not> e)" using IH facts(6) k Cons.prems(3) by simp
  have "ms_alive s' ! i" if "i \<in> flags s'" "k \<le> i" for i
  proof (cases "i = k")
    case True
    then have "\<not> e" using that sub facts(1) by (auto split: if_splits)
    then show ?thesis using True alive_k by simp
  qed (use that IH in auto)
  moreover have "new' \<longleftrightarrow> new \<or> flags s' \<noteq> flags s" using IH facts(2) sub by blast
  moreover have "\<forall>i < k. ms_alive s' ! i = ms_alive s ! i" using IH facts(6) by simp
  ultimately show ?case using IH facts sub by auto
qed

definition round_ok :: "'f Master \<Rightarrow> round \<Rightarrow> bool" where
  "round_ok s r \<longleftrightarrow> length (fst r) = length (ms_leader s)"

text \<open>A round without a leader calls \<open>BeTheLeader\<close> of nobody.\<close>

lemma watch_leaderless:
  assumes "flags s = {}" "round_ok s r" "length (ms_alive s) = length (ms_leader s)" "watch r s = Inr s'"
  shows "flags s' = {} \<and> length (ms_leader s') = length (ms_leader s) \<and> length (ms_alive s') = length (ms_leader s)"
proof -
  obtain errs nxt resp where r: "r = (errs, nxt, resp)" by (cases r)
  obtain s1 new where ping: "ping_nodes 0 errs (s, False) = (s1, new)" by (cases "ping_nodes 0 errs (s, False)")
  have "0 + length errs = length (ms_leader s)" using assms(2) by (simp add: round_ok_def r)
  note facts = ping_nodes_facts [OF ping this assms(3)]
  have none: "flags s1 = {}" using facts assms(1) by simp
  then have "\<not> new" using facts assms(1) by simp
  then have "s' = s1" using assms(4) by (simp add: watch_def r ping Let_def)
  with facts none show ?thesis by simp
qed


definition default_reply :: BeTheLeaderReply where
  "default_reply = \<lparr>BeTheLeaderReply_Leader = 0, BeTheLeaderReply_NextLeader = 0\<rparr>"

definition started :: "int Master option" where
  "started = (case registers int_floats ping_ex args_ex (NewMaster int_floats 3 None) of
     Inl e \<Rightarrow> None
   | Inr (rs, s) \<Rightarrow> (case init_nodes (replicate 3 (Some default_reply)) (0, s) of
        Inl e \<Rightarrow> None
      | Inr (i, s) \<Rightarrow> Some (finish_init [False, False, False] s)))"


section \<open>One leader at a time\<close>

text \<open>A replica that does not name another leader, as in every protocol but Swift.\<close>

definition keeps_leader :: "BeTheLeaderReply option \<Rightarrow> bool" where
  "keeps_leader resp \<longleftrightarrow> (case resp of None \<Rightarrow> True | Some r \<Rightarrow> BeTheLeaderReply_Leader r \<in> {0, -1})"

definition led_alive :: "'f Master \<Rightarrow> bool" where
  "led_alive s \<longleftrightarrow> (\<exists>i. flags s \<subseteq> {i}) \<and> (\<forall>i \<in> flags s. ms_alive s ! i) \<and> length (ms_alive s) = length (ms_leader s)"

lemma keeps_leader_self:
  "keeps_leader (Some r) \<Longrightarrow> BeTheLeaderReply_Leader (btl_reply r) = -1"
  by (auto simp: keeps_leader_def btl_reply_def UpdateBeTheLeaderReply_def gob_reply_def NewBeTheLeaderReply_def)

lemma register_inv_flags:
  assumes "register_inv F s"
  shows "\<exists>i. flags s \<subseteq> {i}"
proof -
  have "i = j" if "i \<in> flags s" "j \<in> flags s" for i j
  proof -
    have full: "full s" "chosen_leader F i s" "chosen_leader F j s" "i < ms_N s" "j < ms_N s"
      using that assms by (auto simp: flags_def register_inv_def)
    show ?thesis
    proof (cases "ms_configLeader s")
      case None
      then show ?thesis using full by (simp add: chosen_leader_def leader_index_def)
    next
      case (Some c)
      then have "ms_nodeList s ! i = ms_nodeList s ! j"
        using full by (auto simp: chosen_leader_def leader_index_def split: if_splits)
      then show ?thesis
        using full assms by (simp add: register_inv_def full_def nth_eq_iff_index_eq)
    qed
  qed
  then show ?thesis by blast
qed

lemma init_nodes_flags:
  assumes "init_nodes rs (i, s) = Inr (i', s')" "\<forall>r \<in> set rs. keeps_leader r"
  shows "flags s' = flags s \<and> length (ms_leader s') = length (ms_leader s) \<and> ms_alive s' = ms_alive s"
  using assms
proof (induction rs arbitrary: i s)
  case (Cons r rs)
  show ?case
  proof (cases "int (ms_N s) \<le> i")
    case False
    then obtain i1 s1 where one: "init_node r (i, s) = Inr (i1, s1)" and rest: "init_nodes rs (i1, s1) = Inr (i', s')"
      using Cons.prems(1) by (auto split: sum.splits)
    have "flags s1 = flags s \<and> length (ms_leader s1) = length (ms_leader s) \<and> ms_alive s1 = ms_alive s"
      using one Cons.prems(2) keeps_leader_self
      by (auto simp: init_node_def Let_def flags_def split: if_splits option.splits)
    then show ?thesis using Cons.IH [OF rest] Cons.prems(2) by simp
  qed (use Cons.prems in simp)
qed simp

lemma beTheLeader_led:
  assumes "beTheLeader i resp s = Inr (ok, s')" "keeps_leader resp" "flags s = {}" "led_alive s"
  shows "length (ms_leader s') = length (ms_leader s) \<and> led_alive s' \<and> (\<not> ok \<longrightarrow> s' = s)"
proof (cases "in_range i (ms_alive s) \<and> ms_alive s ! nat i \<and> resp \<noteq> None")
  case True
  then obtain r where r: "resp = Some r" by blast
  then have l: "BeTheLeaderReply_Leader (btl_reply r) = -1" using assms(2) keeps_leader_self by blast
  have "flags s' \<subseteq> {nat i} \<and> ms_alive s' = ms_alive s \<and> ok \<and> length (ms_leader s') = length (ms_leader s)"
    using assms(1,3) True r l
    by (auto simp: beTheLeader_def Let_def flags_def in_range_def nth_list_update split: if_splits)
  then show ?thesis using True assms(4) by (auto simp: led_alive_def)
next
  case False
  then show ?thesis using assms by (auto simp: beTheLeader_def split: if_splits option.splits)
qed

lemma try_nodes_led:
  assumes "try_nodes is resp s = Inr s'" "\<forall>i. keeps_leader (resp i)" "flags s = {}" "led_alive s"
  shows "length (ms_leader s') = length (ms_leader s) \<and> led_alive s'"
  using assms
proof (induction "is" arbitrary: s)
  case (Cons i "is")
  then obtain ok s1 where one: "beTheLeader i (resp i) s = Inr (ok, s1)"
      and rest: "(if ok then Inr s1 else try_nodes is resp s1) = Inr s'"
    by (auto split: sum.splits)
  have "keeps_leader (resp i)" using Cons.prems(2) by simp
  note led = beTheLeader_led [OF one this Cons.prems(3,4)]
  show ?case
  proof (cases ok)
    case True
    then show ?thesis using rest led by simp
  next
    case False
    then show ?thesis using rest led Cons.IH [OF _ Cons.prems(2-4)] by simp
  qed
qed simp

lemma watch_led:
  assumes "watch (errs, nxt, resp) s = Inr s'" "length errs = length (ms_leader s)" "led_alive s"
    "keeps_leader nxt" "\<forall>i. keeps_leader (resp i)"
  shows "length (ms_leader s') = length (ms_leader s) \<and> led_alive s'"
proof -
  obtain s1 new where ping: "ping_nodes 0 errs (s, False) = (s1, new)" by (cases "ping_nodes 0 errs (s, False)")
  have "0 + length errs = length (ms_leader s)" "length (ms_alive s) = length (ms_leader s)"
    using assms(2,3) by (simp_all add: led_alive_def)
  note facts = ping_nodes_facts [OF ping this]
  have len: "length (ms_leader s1) = length (ms_leader s)" using facts by simp
  obtain i where i: "flags s \<subseteq> {i}" using assms(3) by (auto simp: led_alive_def)
  then have "flags s1 \<subseteq> {i}" using conjunct1 [OF facts] by (rule subset_trans [rotated])
  then have led: "led_alive s1" using facts unfolding led_alive_def by (intro conjI exI [of _ i]) simp_all
  show ?thesis
  proof (cases new)
    case False
    then show ?thesis using assms(1) ping led len by (simp add: watch_def)
  next
    case True
    then have none: "flags s1 = {}" using facts i by auto
    show ?thesis
    proof (cases "ms_nextLeader s1 = -1")
      case True
      then have "try_nodes [0..int (ms_N s1) - 1] resp s1 = Inr s'"
        using assms(1) ping \<open>new\<close> by (simp add: watch_def)
      then show ?thesis using try_nodes_led [OF _ assms(5) none led] len by simp
    next
      case False
      then obtain ok s2 where one: "beTheLeader (ms_nextLeader s1) nxt s1 = Inr (ok, s2)"
          and rest: "(if ok then Inr s2 else try_nodes [0..int (ms_N s2) - 1] resp s2) = Inr s'"
        using assms(1) ping \<open>new\<close> by (auto simp: watch_def split: sum.splits)
      note b = beTheLeader_led [OF one assms(4) none led]
      show ?thesis
      proof (cases ok)
        case False
        then show ?thesis using b rest len try_nodes_led [OF _ assms(5) none led] by simp
      qed (use b rest len in simp)
    qed
  qed
qed

lemma watches_led:
  assumes "watches rs s = Inr s'" "led_alive s"
    "\<forall>(errs, nxt, resp) \<in> set rs. length errs = length (ms_leader s) \<and> keeps_leader nxt \<and> (\<forall>i. keeps_leader (resp i))"
  shows "led_alive s'"
  using assms
proof (induction rs arbitrary: s)
  case (Cons r rs)
  obtain errs nxt resp where r: "r = (errs, nxt, resp)" by (cases r)
  obtain s1 where one: "watch (errs, nxt, resp) s = Inr s1" and rest: "watches rs s1 = Inr s'"
    using Cons.prems(1) by (auto simp: r split: sum.splits)
  have w: "length (ms_leader s1) = length (ms_leader s) \<and> led_alive s1"
    by (rule watch_led [OF one]) (use Cons.prems r in auto)
  show ?case by (rule Cons.IH [OF rest]) (use w Cons.prems(3) in auto)
qed simp

lemma led_GetLeader:
  assumes "led_alive s" "flags s \<noteq> {}"
  shows "flags s = {nat (GetLeader s)} \<and> ms_alive s ! nat (GetLeader s)"
proof -
  obtain i where "flags s = {i}" using assms by (auto simp: led_alive_def)
  with GetLeader_one [OF this] assms(1) show ?thesis by (simp add: led_alive_def)
qed

text \<open>
  C22: If the replicas register before the master starts to watch them, and no replica names another one as the leader,
  then after any rounds at most one replica is marked as the leader, it has answered the last ping, and this is the
  replica that the clients are told.
\<close>

theorem master_one_leader:
  assumes "registers F ping as (NewMaster F N conf) = Inr (qs, s1)"
    "init_nodes inits (0, s1) = Inr (i, s2)" "watches rs (finish_init errs s2) = Inr s" "length errs = N"
    "\<forall>r \<in> set inits. keeps_leader r"
    "\<forall>(errs, nxt, resp) \<in> set rs. length errs = N \<and> keeps_leader nxt \<and> (\<forall>i. keeps_leader (resp i))"
  shows "flags s = {} \<or> flags s = {nat (GetLeader s)} \<and> ms_alive s ! nat (GetLeader s)"
proof -
  have inv: "register_inv F s1" using registers_good [OF assms(1) register_inv_new] by blast
  have N: "ms_N s' = ms_N s0 \<and> length (ms_alive s') = length (ms_alive s0)"
    if "registers F ping bs s0 = Inr (qs, s')" for bs qs s0 and s' :: "'a Master"
    using that
    by (induction bs arbitrary: s0 qs)
       (auto simp: Register_node_def add_node_def answer_def Let_def split: sum.splits if_splits option.splits)
  have n: "ms_N s1 = N" "length (ms_alive s1) = N" using N [OF assms(1)] by (simp_all add: NewMaster_def)
  have l1: "length (ms_leader s1) = N" using inv n by (simp add: register_inv_def)
  note s2 = init_nodes_flags [OF assms(2,5)]
  have l2: "length (ms_leader s2) = N" "length (ms_alive s2) = length (ms_leader s2)" using s2 n l1 by simp_all
  obtain s3 new where ping: "ping_nodes 0 errs (s2, False) = (s3, new)" by (cases "ping_nodes 0 errs (s2, False)")
  have "0 + length errs = length (ms_leader s2)" using assms(4) l2 by simp
  note facts = ping_nodes_facts [OF ping this l2(2)]
  obtain j where "flags s1 \<subseteq> {j}" using register_inv_flags [OF inv] by blast
  then have "flags s3 \<subseteq> {j}" using conjunct1 [OF facts] s2 by simp
  then have "led_alive s3" using facts unfolding led_alive_def by (intro conjI exI [of _ j]) simp_all
  then have led: "led_alive (finish_init errs s2)" and len: "length (ms_leader (finish_init errs s2)) = N"
    using ping facts l2 by (simp_all add: finish_init_def led_alive_def flags_def)
  have "led_alive s" using watches_led [OF assms(3) led] assms(6) len by simp
  then show ?thesis using led_GetLeader by blast
qed

text \<open>The leader 1 dies, and replica 0 takes over.\<close>

definition died_ex :: round where
  "died_ex = ([False, True, False], None, \<lambda>_. Some default_reply)"

theorem master_one_leader_witness:
  "\<exists>s0 s. started = Some s0 \<and> GetLeader s0 = 1 \<and> watches [died_ex] s0 = Inr s \<and> GetLeader s = 0 \<and>
     flags s = {nat (GetLeader s)} \<and> ms_alive s ! nat (GetLeader s)"
proof -
  have ev: "(case registers int_floats ping_ex args_ex (NewMaster int_floats 3 None) of Inl e \<Rightarrow> None
      | Inr x \<Rightarrow> (case init_nodes (replicate 3 (Some default_reply)) (0, snd x) of Inl e \<Rightarrow> None
        | Inr y \<Rightarrow> (case watch died_ex (finish_init [False, False, False] (snd y)) of Inl e \<Rightarrow> None
          | Inr s \<Rightarrow> Some (GetLeader (finish_init [False, False, False] (snd y)), GetLeader s, ms_leader s)))) =
      Some (1, 0, [True, False, False])"
    by code_simp
  then obtain x y s where run: "registers int_floats ping_ex args_ex (NewMaster int_floats 3 None) = Inr x"
      "init_nodes (replicate 3 (Some default_reply)) (0, snd x) = Inr y"
      "watch died_ex (finish_init [False, False, False] (snd y)) = Inr s"
    by (auto split: option.splits sum.splits)
  let ?s0 = "finish_init [False, False, False] (snd y)"
  from ev have g: "GetLeader ?s0 = 1" "GetLeader s = 0" "ms_leader s = [True, False, False]"
    by (simp_all add: run)
  have w: "watches [died_ex] ?s0 = Inr s" using run(3) by simp
  have "0 \<in> flags s" by (simp add: flags_def g)
  moreover have "flags s = {} \<or> flags s = {nat (GetLeader s)} \<and> ms_alive s ! nat (GetLeader s)"
    by (rule master_one_leader [of int_floats ping_ex args_ex 3 None "fst x" "snd x"
          "replicate 3 (Some default_reply)" "fst y" "snd y" "[died_ex]" "[False, False, False]"])
       (use run w in \<open>simp_all add: keeps_leader_def default_reply_def died_ex_def\<close>)
  moreover have "started = Some ?s0"
    using run by (simp add: started_def split_beta)
  ultimately show ?thesis using g w by blast
qed

text \<open>
  A run in which replica 0 leads and dies, replica 1 takes over, and replica 0 is started again and registers: it is
  told that it leads, both are marked as leaders, and clients are told to use replica 0.
\<close>

theorem master_two_leaders:
  "\<exists>qs s1 i s2 s3 r s4.
     registers int_floats Some_20 args_ex (NewMaster int_floats 3 None) = Inr (qs, s1) \<and>
     init_nodes (replicate 3 (Some default_reply)) (0, s1) = Inr (i, s2) \<and>
     ms_leader (finish_init [False, False, False] s2) = [True, False, False] \<and>
     watch ([True, False, False], None, \<lambda>_. Some default_reply) (finish_init [False, False, False] s2) = Inr s3 \<and>
     ms_leader s3 = [False, True, False] \<and>
     Register_node int_floats Some_20 (arg_ex ''a'') s3 = Inr (r, s4) \<and>
     rr_Ready r \<and> rr_ReplicaId r = 0 \<and> rr_IsLeader r \<and> ms_leader s4 = [True, True, False] \<and> GetLeader s4 = 0"
proof -
  let ?died = "([True, False, False], None, \<lambda>_. Some default_reply) :: round"
  have ev: "(case registers int_floats Some_20 args_ex (NewMaster int_floats 3 None) of Inl e \<Rightarrow> None
      | Inr x \<Rightarrow> (case init_nodes (replicate 3 (Some default_reply)) (0, snd x) of Inl e \<Rightarrow> None
        | Inr y \<Rightarrow> (case watch ?died (finish_init [False, False, False] (snd y)) of Inl e \<Rightarrow> None
          | Inr s \<Rightarrow> (case Register_node int_floats Some_20 (arg_ex ''a'') s of Inl e \<Rightarrow> None
            | Inr z \<Rightarrow> Some (ms_leader (finish_init [False, False, False] (snd y)), ms_leader s,
                 (rr_Ready (fst z), rr_ReplicaId (fst z), rr_IsLeader (fst z)), ms_leader (snd z), GetLeader (snd z)))))) =
      Some ([True, False, False], [False, True, False], (True, 0, True), [True, True, False], 0)"
    by code_simp
  then obtain x y s z where run: "registers int_floats Some_20 args_ex (NewMaster int_floats 3 None) = Inr x"
      "init_nodes (replicate 3 (Some default_reply)) (0, snd x) = Inr y"
      "watch ?died (finish_init [False, False, False] (snd y)) = Inr s"
      "Register_node int_floats Some_20 (arg_ex ''a'') s = Inr z"
    by (auto split: option.splits sum.splits)
  from ev have "ms_leader (finish_init [False, False, False] (snd y)) = [True, False, False]"
      "ms_leader s = [False, True, False]" "rr_Ready (fst z)" "rr_ReplicaId (fst z) = 0" "rr_IsLeader (fst z)"
      "ms_leader (snd z) = [True, True, False]" "GetLeader (snd z) = 0"
    by (simp_all add: run)
  then show ?thesis
    using run
    by (intro exI [of _ "fst x"] exI [of _ "snd x"] exI [of _ "fst y"] exI [of _ "snd y"] exI [of _ s]
        exI [of _ "fst z"] exI [of _ "snd z"]) simp
qed

text \<open>
  The answers of Swift: \<open>-2\<close> stands for replica 0, which \<open>gob\<close> would not send.  The master reads the number that the
  replica meant, or the default \<open>-1\<close>.
\<close>

definition wire_replica :: "int \<Rightarrow> int" where
  "wire_replica l = (if l = 0 then -2 else l)"

lemma btl_reply_swift:
  assumes "-1 \<le> l" "-1 \<le> n"
  shows "btl_reply \<lparr>BeTheLeaderReply_Leader = wire_replica l, BeTheLeaderReply_NextLeader = wire_replica n\<rparr> =
    \<lparr>BeTheLeaderReply_Leader = l, BeTheLeaderReply_NextLeader = n\<rparr>"
  using assms
  by (auto simp: btl_reply_def UpdateBeTheLeaderReply_def gob_reply_def wire_replica_def)

lemma btl_reply_default: "IsDefault (btl_reply default_reply)"
  by (simp add: IsDefault_def btl_reply_def UpdateBeTheLeaderReply_def gob_reply_def NewBeTheLeaderReply_def default_reply_def)

text \<open>A further replica makes the master index its list of nodes out of range, and it exits.\<close>

lemma register_too_many:
  assumes "full s" "addrPort a \<notin> set (ms_nodeList s)"
  shows "Register_node F ping a s = Inl SliceBounds"
proof -
  have "takeWhile (\<lambda>x. x \<noteq> addrPort a) (ms_nodeList s) = ms_nodeList s"
    using assms(2) by (auto simp: takeWhile_eq_all_conv)
  then have "index_of (addrPort a) (ms_nodeList s) = length (ms_nodeList s)"
    by (simp only: index_of_def)
  then show ?thesis using assms(1) by (simp add: Register_node_def add_node_def full_def)
qed

end
