(* ===== verification/Client.thy ===== *)
theory Client
  imports Master Rpc
begin

text \<open>
  The client (\<open>client/client.go\<close>): it asks the master for the replicas and the leader, connects to the replicas that are
  alive, and writes proposals to the leader, to the closest replica, or to all of them.

  What the client gets from elsewhere are arguments: the replies of the master, \<open>None\<close> if the call fails; the latency
  that the program \<open>ping\<close> prints for an address, \<open>None\<close> if it fails; which connections can be opened; and the bytes that
  arrive.  A panic, or an error that ends the operation, is a value of \<open>client_stop\<close>.
\<close>

section \<open>State\<close>

datatype client_stop = CPanic | CError

record 'f Client =
  cl_ClientId :: int
  cl_LeaderId :: int
  cl_ClosestId :: int
  cl_Ping :: "'f list"
  cl_Fast :: bool
  cl_Leaderless :: bool
  cl_writers :: "bytes option list"
  cl_seqnum :: int
  cl_server :: string
  cl_replicas :: "string list"

text \<open>\<open>uuid\<close> is the identifier that the library \<open>google/uuid\<close> makes up.\<close>

definition NewClientLog :: "int \<Rightarrow> string \<Rightarrow> bool \<Rightarrow> bool \<Rightarrow> 'f Client" where
  "NewClientLog uuid server fast leaderless = \<lparr>cl_ClientId = wrap32 uuid, cl_LeaderId = -1, cl_ClosestId = -1,
     cl_Ping = [], cl_Fast = fast, cl_Leaderless = leaderless, cl_writers = [], cl_seqnum = -1, cl_server = server,
     cl_replicas = []\<rparr>"

section \<open>Connecting\<close>

definition host_of :: "string \<Rightarrow> string" where
  "host_of r = (let addr = hd (split_at CHR '':'' r) in if addr = [] then ''127.0.0.1'' else addr)"

fun ping_replicas ::
  "(string \<Rightarrow> 'f option) \<Rightarrow> int \<Rightarrow> string list \<Rightarrow> bool list \<Rightarrow> 'f Client \<Rightarrow> client_stop + 'f Client"
where
  "ping_replicas ping i [] alive c = Inr c"
| "ping_replicas ping i (r # rs) [] c = Inl CPanic"
| "ping_replicas ping i (r # rs) (a # alive) c =
     (if \<not> a then ping_replicas ping (i + 1) rs alive c
      else
        let addr = host_of r;
            c = (if r = cl_server c \<or> \<not> hasPort (cl_server c) \<and> addr = cl_server c then c\<lparr>cl_ClosestId := i\<rparr> else c)
        in case ping addr of
             None \<Rightarrow> Inl CError
           | Some latency \<Rightarrow> ping_replicas ping (i + 1) rs alive (c\<lparr>cl_Ping := cl_Ping c @ [latency]\<rparr>))"

definition findClosest :: "'f floats \<Rightarrow> (string \<Rightarrow> 'f option) \<Rightarrow> bool list \<Rightarrow> 'f Client \<Rightarrow> client_stop + 'f Client" where
  "findClosest F ping alive c =
     (case ping_replicas ping 0 (cl_replicas c) alive c of
        Inl e \<Rightarrow> Inl e
      | Inr c \<Rightarrow> Inr (if cl_ClosestId c = -1
          then c\<lparr>cl_ClosestId := closest F (cl_Ping c) 0 (fl_MaxFloat64 F, -1)\<rparr> else c))"

text \<open>The connections: all to replicas that are alive.\<close>

fun connect_alive ::
  "(string \<Rightarrow> bool) \<Rightarrow> string list \<Rightarrow> bool list \<Rightarrow> client_stop + bytes option list"
where
  "connect_alive dial [] alive = Inr []"
| "connect_alive dial (r # rs) [] = Inl CPanic"
| "connect_alive dial (r # rs) (a # alive) =
     (if a \<and> \<not> dial r then Inl CError
      else case connect_alive dial rs alive of
          Inl e \<Rightarrow> Inl e
        | Inr ws \<Rightarrow> Inr ((if a then Some [] else None) # ws))"

definition get_leader :: "int option \<Rightarrow> 'f Client \<Rightarrow> client_stop + 'f Client" where
  "get_leader gl c =
     (if cl_Leaderless c then Inr c
      else case gl of None \<Rightarrow> Inl CError | Some l \<Rightarrow> Inr (c\<lparr>cl_LeaderId := l\<rparr>))"

definition Connect ::
  "'f floats \<Rightarrow> (string \<Rightarrow> 'f option) \<Rightarrow> (string \<Rightarrow> bool) \<Rightarrow> GetReplicaListReply option \<Rightarrow> int option \<Rightarrow> 'f Client \<Rightarrow>
   client_stop + 'f Client"
where
  "Connect F ping dial rl gl c =
     (case rl of
        None \<Rightarrow> Inl CError
      | Some masterReply \<Rightarrow>
          (case findClosest F ping (gr_AliveList masterReply) (c\<lparr>cl_replicas := gr_ReplicaList masterReply\<rparr>) of
             Inl e \<Rightarrow> Inl e
           | Inr c \<Rightarrow>
               (case get_leader gl c of
                  Inl e \<Rightarrow> Inl e
                | Inr c \<Rightarrow>
                    (case connect_alive dial (cl_replicas c) (gr_AliveList masterReply) of
                       Inl e \<Rightarrow> Inl e
                     | Inr ws \<Rightarrow> Inr (c\<lparr>cl_writers := ws\<rparr>)))))"

text \<open>\<open>Reconnect\<close> asks for the leader again.\<close>

definition Reconnect :: "bool \<Rightarrow> int option \<Rightarrow> 'f Client \<Rightarrow> client_stop + 'f Client" where
  "Reconnect dialed gl c = (if \<not> dialed then Inl CError else get_leader gl c)"

text \<open>\<open>call\<close> and \<open>callMaster\<close>: up to a hundred calls; a list of replicas has to be ready.\<close>

fun call_replica_list :: "GetReplicaListReply option list \<Rightarrow> GetReplicaListReply option" where
  "call_replica_list [] = None"
| "call_replica_list (r # rs) =
     (case r of Some rl \<Rightarrow> if gr_Ready rl then Some rl else call_replica_list rs | None \<Rightarrow> call_replica_list rs)"

fun call_leader :: "int option list \<Rightarrow> int option" where
  "call_leader [] = None"
| "call_leader (r # rs) = (case r of Some l \<Rightarrow> Some l | None \<Rightarrow> call_leader rs)"

definition callMaster_replicas :: "GetReplicaListReply option list \<Rightarrow> GetReplicaListReply option" where
  "callMaster_replicas rs = call_replica_list (take 100 rs)"

definition callMaster_leader :: "int option list \<Rightarrow> int option" where
  "callMaster_leader rs = call_leader (take 100 rs)"

section \<open>Proposals\<close>

definition write_to :: "nat \<Rightarrow> byte \<Rightarrow> bytes \<Rightarrow> 'f Client \<Rightarrow> 'f Client" where
  "write_to i code msg c = c\<lparr>cl_writers := (cl_writers c)[i := map_option (\<lambda>w. w @ code # msg) (cl_writers c ! i)]\<rparr>"

text \<open>Writing to a nil writer dereferences it.\<close>

definition SendProposal :: "Propose \<Rightarrow> 'f Client \<Rightarrow> client_stop + 'f Client" where
  "SendProposal cmd c =
     (let d = (if cl_Leaderless c then cl_ClosestId c else cl_LeaderId c) in
      if \<not> cl_Fast c then
        if 0 \<le> d \<and> d < int (length (cl_writers c)) \<and> cl_writers c ! nat d \<noteq> None
        then Inr (write_to (nat d) PROPOSE (Marshal_Propose cmd) c) else Inl CPanic
      else Inr (c\<lparr>cl_writers := map (map_option (\<lambda>w. w @ PROPOSE # Marshal_Propose cmd)) (cl_writers c)\<rparr>))"

definition client_propose :: "command \<Rightarrow> 'f Client \<Rightarrow> client_stop + int \<times> 'f Client" where
  "client_propose cmd c =
     (let c = c\<lparr>cl_seqnum := wrap32 (cl_seqnum c + 1)\<rparr> in
      case SendProposal \<lparr>Propose_CommandId = cl_seqnum c, Propose_ClientId = cl_ClientId c,
          Propose_Command = cmd, Propose_Timestamp = 0\<rparr> c of
        Inl e \<Rightarrow> Inl e
      | Inr c \<Rightarrow> Inr (cl_seqnum c, c))"

lemma SendProposal_seqnum: "SendProposal pr c = Inr c' \<Longrightarrow> cl_seqnum c' = cl_seqnum c"
  by (auto simp: SendProposal_def Let_def write_to_def split: if_splits)

lemma client_propose_seqnum: "client_propose cmd c = Inr x \<Longrightarrow> cl_seqnum (snd x) = wrap32 (cl_seqnum c + 1)"
  by (auto simp: client_propose_def Let_def dest: SendProposal_seqnum split: sum.splits)

definition SendWrite :: "int \<Rightarrow> bytes \<Rightarrow> 'f Client \<Rightarrow> client_stop + int \<times> 'f Client" where
  "SendWrite key v c = client_propose \<lparr>Op = PUT, K = key, V = v\<rparr> c"

definition SendRead :: "int \<Rightarrow> 'f Client \<Rightarrow> client_stop + int \<times> 'f Client" where
  "SendRead key c = client_propose \<lparr>Op = GET, K = key, V = NIL\<rparr> c"

definition SendScan :: "int \<Rightarrow> int \<Rightarrow> 'f Client \<Rightarrow> client_stop + int \<times> 'f Client" where
  "SendScan key count c = client_propose \<lparr>Op = SCAN, K = key, V = put_le 8 count\<rparr> c"

text \<open>Messages of the clients of CURP and Swift; without a connection nothing is sent.\<close>

definition client_SendMsg :: "int \<Rightarrow> byte \<Rightarrow> bytes \<Rightarrow> 'f Client \<Rightarrow> client_stop + 'f Client" where
  "client_SendMsg rid code msg c =
     (if 0 \<le> rid \<and> rid < int (length (cl_writers c)) then Inr (write_to (nat rid) code msg c) else Inl CPanic)"

section \<open>Replies\<close>

text \<open>\<open>None\<close> is a panic; the flag says that there was no error.\<close>

definition GetReplyFrom :: "bytes \<Rightarrow> (bool \<times> ProposeReplyTS \<times> bytes) option" where
  "GetReplyFrom reader = Unmarshal_ProposeReplyTS zero_ProposeReplyTS reader"

text \<open>
  \<open>RegisterRPCTable\<close>: the loop that reads one connection.  A message of an unknown type is reported, and the loop goes on
  with the next byte.  At most \<open>n\<close> iterations.
\<close>

fun RegisterRPCTable :: "nat \<Rightarrow> 'm Table \<Rightarrow> bytes \<Rightarrow> (nat \<times> 'm) list \<times> stop" where
  "RegisterRPCTable 0 t reader = ([], Running)"
| "RegisterRPCTable (Suc n) t [] = ([], Eof)"
| "RegisterRPCTable (Suc n) t (msgType # reader) =
     (case Get t msgType of
        None \<Rightarrow> RegisterRPCTable n t reader
      | Some p \<Rightarrow>
          (case Obj p reader of
             None \<Rightarrow> ([], Panic)
           | Some (noerr, obj, reader) \<Rightarrow>
               if \<not> noerr then ([], Decode_error)
               else let (ms, s) = RegisterRPCTable n t reader in ((Chan p, obj) # ms, s)))"

section \<open>Requests reach the replicas\<close>

datatype request = RWrite int bytes | RRead int | RScan int int

fun send_request :: "request \<Rightarrow> 'f Client \<Rightarrow> client_stop + int \<times> 'f Client" where
  "send_request (RWrite key v) c = SendWrite key v c"
| "send_request (RRead key) c = SendRead key c"
| "send_request (RScan key count) c = SendScan key count c"

fun send_requests :: "request list \<Rightarrow> 'f Client \<Rightarrow> client_stop + int list \<times> 'f Client" where
  "send_requests [] c = Inr ([], c)"
| "send_requests (r # rs) c =
     (case send_request r c of
        Inl e \<Rightarrow> Inl e
      | Inr (n, c) \<Rightarrow> (case send_requests rs c of Inl e \<Rightarrow> Inl e | Inr (ns, c) \<Rightarrow> Inr (n # ns, c)))"

fun request_command :: "request \<Rightarrow> command" where
  "request_command (RWrite key v) = \<lparr>Op = PUT, K = key, V = v\<rparr>"
| "request_command (RRead key) = \<lparr>Op = GET, K = key, V = NIL\<rparr>"
| "request_command (RScan key count) = \<lparr>Op = SCAN, K = key, V = put_le 8 count\<rparr>"

fun proposals_of :: "int \<Rightarrow> int \<Rightarrow> request list \<Rightarrow> Propose list" where
  "proposals_of cid n [] = []"
| "proposals_of cid n (r # rs) =
     \<lparr>Propose_CommandId = wrap32 (n + 1), Propose_ClientId = cid, Propose_Command = request_command r,
      Propose_Timestamp = 0\<rparr> # proposals_of cid (wrap32 (n + 1)) rs"

text \<open>The replica that the proposals go to, if not to all.\<close>

definition target :: "'f Client \<Rightarrow> nat \<Rightarrow> bool" where
  "target c p \<longleftrightarrow> cl_Fast c \<or> int p = (if cl_Leaderless c then cl_ClosestId c else cl_LeaderId c)"

lemma SendProposal_writers:
  assumes "SendProposal pr c = Inr c'" "p < length (cl_writers c)"
  shows "cl_writers c' ! p = (if target c p then map_option (\<lambda>w. w @ PROPOSE # Marshal_Propose pr) (cl_writers c ! p)
      else cl_writers c ! p)"
    "length (cl_writers c') = length (cl_writers c)" "target c' = target c" "cl_ClientId c' = cl_ClientId c"
    "cl_seqnum c' = cl_seqnum c"
  using assms
  by (auto simp: SendProposal_def Let_def target_def write_to_def nth_list_update fun_eq_iff split: if_splits)

lemma send_request_propose: "send_request r c = client_propose (request_command r) c"
  by (cases r) (simp_all add: SendWrite_def SendRead_def SendScan_def)

lemma send_requests_writers:
  assumes "send_requests rs c = Inr (ns, c')" "p < length (cl_writers c)" "target c p" "cl_writers c ! p = Some w"
  shows "cl_writers c' ! p = Some (w @ concat (map (\<lambda>pr. PROPOSE # Marshal_Propose pr)
      (proposals_of (cl_ClientId c) (cl_seqnum c) rs))) \<and>
    ns = map Propose_CommandId (proposals_of (cl_ClientId c) (cl_seqnum c) rs)"
  using assms
proof (induction rs arbitrary: c ns w)
  case (Cons r rs)
  let ?c = "c\<lparr>cl_seqnum := wrap32 (cl_seqnum c + 1)\<rparr>"
  let ?pr = "\<lparr>Propose_CommandId = cl_seqnum ?c, Propose_ClientId = cl_ClientId ?c,
      Propose_Command = request_command r, Propose_Timestamp = 0\<rparr>"
  obtain c1 ms where one: "SendProposal ?pr ?c = Inr c1" and rest: "send_requests rs c1 = Inr (ms, c')"
      and ns: "ns = cl_seqnum c1 # ms"
    using Cons.prems(1)
    by (auto simp: send_request_propose client_propose_def Let_def split: sum.splits)
  have "p < length (cl_writers ?c)" using Cons.prems(2) by simp
  note step = SendProposal_writers [OF one this]
  have t: "target ?c p" using Cons.prems(3) by (auto simp: target_def split: if_splits)
  have "p < length (cl_writers c1)" "target c1 p" "cl_writers c1 ! p = Some (w @ PROPOSE # Marshal_Propose ?pr)"
    using step t Cons.prems(2,4) by simp_all
  from Cons.IH [OF rest this] show ?case using step ns by simp
qed simp

lemma clientListener_proposals:
  assumes "list_all Propose_ok prs"
  shows "clientListener (Suc (length prs)) table T st False (concat (map (\<lambda>pr. PROPOSE # Marshal_Propose pr) prs)) =
    (concat (map (\<lambda>pr. [Bind (Propose_ClientId pr), Delay pr]) prs), Eof)"
  using assms
proof (induction prs)
  case (Cons pr prs)
  then have "Unmarshal_Propose zero_Propose (Marshal_Propose pr @ rest) = Some (True, pr, rest)" for rest
    by (intro Propose_msg.roundtrip) simp
  with Cons show ?case by simp
qed simp

fun request_ok :: "request \<Rightarrow> bool" where
  "request_ok (RWrite key v) = (i64 key \<and> length v < 2 ^ 16)"
| "request_ok (RRead key) = i64 key"
| "request_ok (RScan key count) = i64 key"

lemma proposals_ok:
  "i32 cid \<Longrightarrow> list_all request_ok rs \<Longrightarrow> list_all Propose_ok (proposals_of cid n rs)"
proof (induction rs arbitrary: n)
  case (Cons r rs)
  have "command_ok (request_command r)"
    using Cons.prems by (cases r) (simp_all add: command_ok_def NIL_def del: put_le.simps)
  then show ?case using Cons by (simp add: Propose_ok_def i64_def)
qed simp


definition alive_ex :: "bool list \<Rightarrow> GetReplicaListReply" where
  "alive_ex alive = \<lparr>gr_ReplicaList = [''a:7070'', ''b:7070'', ''c:7070''], gr_AliveList = alive, gr_Ready = True\<rparr>"

definition connect_ex :: "bool \<Rightarrow> bool list \<Rightarrow> client_stop + int Client" where
  "connect_ex fast alive = Connect int_floats ping_ex (\<lambda>_. True) (Some (alive_ex alive)) None
     (NewClientLog 7 [] fast True)"


text \<open>
  C30: A run in which replica 0 is down and a client without a leader looks for the closest replica: it takes the place in
  its list of latencies, which only has the replicas that are alive, for the number of the replica, and the first
  proposal writes to a connection that does not exist.
\<close>

theorem client_closest_not_alive:
  "\<exists>c. connect_ex False [False, True, True] = Inr c \<and> cl_Ping c = [10, 20] \<and> cl_ClosestId c = 0 \<and>
     cl_writers c = [None, Some [], Some []] \<and> SendRead key c = Inl CPanic"
proof -
  have ev: "(case connect_ex False [False, True, True] of Inl e \<Rightarrow> None
      | Inr c \<Rightarrow> Some (cl_Ping c, cl_ClosestId c, cl_writers c, cl_Fast c, cl_Leaderless c)) =
      Some ([10, 20], 0, [None, Some [], Some []], False, True)"
    by code_simp
  then obtain c where c: "connect_ex False [False, True, True] = Inr c" by (auto split: sum.splits)
  with ev show ?thesis
    by (auto simp: SendRead_def client_propose_def SendProposal_def Let_def)
qed

end
