(* ===== verification/Workload.thy ===== *)
theory Workload
  imports Client Complex_Main
begin

unbundle bit_operations_syntax

text \<open>
  The workload of a client (\<open>client/buffer.go\<close>): seeds, the values that updates write, keys with a Zipfian distribution,
  and the loop that sends requests and waits for the replies.

  Random numbers are arguments.  The operations of \<open>float64\<close> are those of \<open>zipf_floats\<close>; the cache of distributions, which
  only saves work, the clock and the printing are not modelled.
\<close>

section \<open>Seeds\<close>

text \<open>\<open>hash/fnv\<close>: the 64-bit FNV-1a hash.\<close>

definition fnv1a :: "bytes \<Rightarrow> 64 word" where
  "fnv1a bs = foldl (\<lambda>h b. (h XOR ucast b) * 1099511628211) 14695981039346656037 bs"

definition alias_bytes :: "string \<Rightarrow> bytes" where
  "alias_bytes s = map (\<lambda>c. word_of_int (of_char c)) s"

definition DeriveWorkloadSeed :: "int \<Rightarrow> string \<Rightarrow> int \<Rightarrow> int" where
  "DeriveWorkloadSeed baseSeed name clone =
     sint (fnv1a ((put_le 8 baseSeed @ put_le 8 clone) @ alias_bytes name) AND (push_bit 63 1 - 1))"

definition mixWorkloadSeed :: "int \<Rightarrow> int" where
  "mixWorkloadSeed seed =
     (let v = word_of_int seed + 11400714819323198485 :: 64 word;
          v = (v XOR drop_bit 30 v) * 13787848793156543929;
          v = (v XOR drop_bit 27 v) * 10723151780598845931
      in sint (v XOR drop_bit 31 v))"

lemma DeriveWorkloadSeed_range: "0 \<le> DeriveWorkloadSeed base name clone \<and> DeriveWorkloadSeed base name clone < 2 ^ 63"
proof -
  have mask: "(push_bit 63 1 - 1 :: 64 word) = mask 63" by (simp add: mask_eq_exp_minus_1 push_bit_eq_mult)
  have "sint (w AND mask 63) = uint (w AND mask 63) \<and> uint (w AND mask 63) < 2 ^ 63" for w :: "64 word"
  proof -
    have "uint (w AND mask 63) = take_bit 63 (uint w)"
      by (simp add: take_bit_eq_mask [symmetric] unsigned_take_bit_eq)
    then have u: "uint (w AND mask 63) < 2 ^ 63" using take_bit_int_less_exp [of 63 "uint w"] by simp
    then have "\<not> bit (w AND mask 63) 63" by (simp add: bit_and_iff bit_mask_iff)
    then have "sint (w AND mask 63) = uint (w AND mask 63)"
      using u by (simp add: sint_uint signed_take_bit_eq_take_bit_shift take_bit_int_eq_self)
    then show ?thesis using u by simp
  qed
  then show ?thesis
    unfolding DeriveWorkloadSeed_def mask by (metis uint_lt_0 linorder_not_le)
qed

text \<open>Every step of the mixing can be undone.\<close>

lemma xor_shift_inj:
  fixes v w :: "64 word"
  assumes "0 < k" "v XOR drop_bit k v = w XOR drop_bit k w"
  shows "v = w"
proof -
  let ?d = "v XOR w"
  have "(v XOR drop_bit k v) XOR (w XOR drop_bit k w) = ?d XOR drop_bit k ?d"
    by (rule bit_eqI) (auto simp: bit_xor_iff bit_drop_bit_eq)
  moreover have "(v XOR drop_bit k v) XOR (w XOR drop_bit k w) = 0"
    by (simp only: assms(2) xor_self_eq)
  ultimately have zero: "?d XOR drop_bit k ?d = 0" by simp
  have "bit (drop_bit k ?d) n = bit ?d n" for n
    using arg_cong [OF zero, of "\<lambda>x. bit x n"] by (simp only: bit_xor_iff bit_0_eq) auto
  then have d: "drop_bit k ?d = ?d" by (rule bit_eqI)
  have "uint (drop_bit k x) = uint x div 2 ^ k" for x :: "64 word"
  proof -
    have "uint (drop_bit k x) = drop_bit k (uint x)"
      by (rule bit_eqI) (auto simp: bit_unsigned_iff bit_drop_bit_eq possible_bit_def dest: bit_imp_le_length)
    then show ?thesis by (simp only: drop_bit_eq_div)
  qed
  from this [of ?d] have "uint ?d = uint ?d div 2 ^ k" by (simp only: d)
  have "uint ?d = 0"
  proof (rule ccontr)
    assume "uint ?d \<noteq> 0"
    then have "0 < uint ?d" using uint_ge_0 [of ?d] by linarith
    moreover have "(1 :: int) < 2 ^ k" using assms(1) by simp
    ultimately have "uint ?d div 2 ^ k < uint ?d" by (rule int_div_less_self)
    with \<open>uint ?d = uint ?d div 2 ^ k\<close> show False by simp
  qed
  then have "?d = 0" by (simp add: uint_0_iff)
  then have z: "v XOR w = 0" .
  have "bit v n = bit w n" for n
    using arg_cong [OF z, of "\<lambda>x. bit x n"] by (simp only: bit_xor_iff bit_0_eq) auto
  then show ?thesis by (rule bit_eqI)
qed

lemma mult_inj:
  fixes v w c c' :: "64 word"
  assumes "c * c' = 1" "v * c = w * c"
  shows "v = w"
  using arg_cong [OF assms(2), of "\<lambda>x. x * c'"] assms(1) by (simp add: mult.assoc)

text \<open>
  C0: Different seeds of a client are mixed to different seeds for the values it writes.
\<close>

theorem mixWorkloadSeed_inj:
  assumes "i64 s" "i64 t" "mixWorkloadSeed s = mixWorkloadSeed t"
  shows "s = t"
proof -
  define f where "f v = (v XOR drop_bit 30 v) * 13787848793156543929" for v :: "64 word"
  define g where "g v = (v XOR drop_bit 27 v) * 10723151780598845931" for v :: "64 word"
  define h where "h v = v XOR drop_bit 31 v" for v :: "64 word"
  let ?s = "word_of_int s + 11400714819323198485 :: 64 word" and ?t = "word_of_int t + 11400714819323198485 :: 64 word"
  have "sint (h (g (f ?s))) = sint (h (g (f ?t)))"
    using assms(3) by (simp add: mixWorkloadSeed_def Let_def f_def g_def h_def)
  then have "h (g (f ?s)) = h (g (f ?t))" by (rule signed_word_eqI)
  then have "g (f ?s) = g (f ?t)" unfolding h_def by (rule xor_shift_inj [rotated]) simp
  then have "f ?s XOR drop_bit 27 (f ?s) = f ?t XOR drop_bit 27 (f ?t)"
    unfolding g_def by (rule mult_inj [rotated, where c' = 3573116690164977347]) simp
  then have "f ?s = f ?t" by (rule xor_shift_inj [rotated]) simp
  then have "?s XOR drop_bit 30 ?s = ?t XOR drop_bit 30 ?t"
    unfolding f_def by (rule mult_inj [rotated, where c' = 10871156337175269513]) simp
  then have "?s = ?t" by (rule xor_shift_inj [rotated]) simp
  then have "(word_of_int s :: 64 word) = word_of_int t" by simp
  then show ?thesis using assms(1,2) by (metis wrap64_id wrap64_signed)
qed

theorem mixWorkloadSeed_inj_witness: "mixWorkloadSeed 1 \<noteq> mixWorkloadSeed 2"
proof
  assume "mixWorkloadSeed 1 = mixWorkloadSeed 2"
  then have "(1 :: int) = 2" by (rule mixWorkloadSeed_inj [rotated 2]) (simp_all add: i64_def)
  then show False by simp
qed

section \<open>Values\<close>

text \<open>\<open>rnd\<close> is what \<open>valueRand.Read\<close> fills the value with.\<close>

definition nextUpdateValue :: "nat \<Rightarrow> int \<Rightarrow> bytes \<Rightarrow> 64 word \<Rightarrow> int \<Rightarrow> 64 word \<times> bytes" where
  "nextUpdateValue psize workloadSeed rnd updateVersion key =
     (let updateVersion = updateVersion + 1; val = take psize rnd;
          metadata = put_le 8 (uint updateVersion) @ put_le 8 workloadSeed @ put_le 8 key
      in (updateVersion, take psize metadata @ drop 24 val))"

lemma nextUpdateValue_length:
  "length rnd = psize \<Longrightarrow> length (snd (nextUpdateValue psize ws rnd v key)) = psize"
  by (simp add: nextUpdateValue_def Let_def del: put_le.simps)

lemma put_le_inj: "i64 x \<Longrightarrow> i64 y \<Longrightarrow> put_le 8 x = put_le 8 y \<Longrightarrow> x = y"
proof -
  assume x: "i64 x" "i64 y" and "put_le 8 x = put_le 8 y"
  then have "take_bit 64 x = take_bit 64 y"
    using get_put_le [of 8 x] get_put_le [of 8 y] by simp
  then have "(word_of_int x :: 64 word) = word_of_int y" by (simp add: word_of_int_eq_iff)
  then show "x = y" using x by (metis wrap64_id wrap64_signed)
qed

lemma put_le_inj_uint: "put_le 8 (uint v) = put_le 8 (uint w) \<Longrightarrow> v = w" for v w :: "64 word"
proof -
  assume "put_le 8 (uint v) = put_le 8 (uint w)"
  then have "take_bit 64 (uint v) = take_bit 64 (uint w)"
    using get_put_le [of 8 "uint v"] get_put_le [of 8 "uint w"] by simp
  then have "(word_of_int (uint v) :: 64 word) = word_of_int (uint w)" by (simp only: word_of_int_eq_iff) simp
  then show "v = w" by simp
qed

text \<open>
  C0: The values that updates write differ whenever the number of the update, the seed of the client or the key differ, if
  values have at least 24 bytes.
\<close>

theorem update_values_distinct:
  assumes "24 \<le> psize" "i64 ws" "i64 ws'" "i64 key" "i64 key'"
    "snd (nextUpdateValue psize ws rnd v key) = snd (nextUpdateValue psize ws' rnd' v' key')"
  shows "v = v' \<and> ws = ws' \<and> key = key'"
proof -
  have "take 24 (snd (nextUpdateValue psize ws rnd v key)) = put_le 8 (uint (v + 1)) @ put_le 8 ws @ put_le 8 key"
    for ws rnd v key
    using assms(1) by (simp add: nextUpdateValue_def Let_def del: put_le.simps)
  from this [of ws rnd v key] this [of ws' rnd' v' key'] assms(6)
  have "put_le 8 (uint (v + 1)) @ put_le 8 ws @ put_le 8 key = put_le 8 (uint (v' + 1)) @ put_le 8 ws' @ put_le 8 key'"
    by simp
  then have "put_le 8 (uint (v + 1)) = put_le 8 (uint (v' + 1))" "put_le 8 ws = put_le 8 ws'" "put_le 8 key = put_le 8 key'"
    by (simp_all del: put_le.simps)
  with assms(2-5) show ?thesis using put_le_inj put_le_inj_uint [of "v + 1" "v' + 1"] by auto
qed

theorem update_values_distinct_witness:
  "snd (nextUpdateValue 24 3 (replicate 24 0) 0 5) \<noteq> snd (nextUpdateValue 24 3 (replicate 24 0) 1 5)"
proof
  assume "snd (nextUpdateValue 24 3 (replicate 24 0) 0 5) = snd (nextUpdateValue 24 3 (replicate 24 0) 1 5)"
  then have "(0 :: 64 word) = 1 \<and> (3 :: int) = 3 \<and> (5 :: int) = 5"
    by (rule update_values_distinct [rotated 5]) (simp_all add: i64_def)
  then show False by simp
qed

section \<open>Keys\<close>

record 'f zipf_floats =
  zf_less :: "'f \<Rightarrow> 'f \<Rightarrow> bool"
  zf_add :: "'f \<Rightarrow> 'f \<Rightarrow> 'f"
  zf_div :: "'f \<Rightarrow> 'f \<Rightarrow> 'f"
  zf_zero :: 'f
  zf_one :: 'f
  zf_pow_neg :: "int \<Rightarrow> 'f \<Rightarrow> 'f" \<comment> \<open>\<open>math.Pow(float64(key), -skew)\<close>\<close>

fun zipf_sums :: "'f zipf_floats \<Rightarrow> 'f \<Rightarrow> int \<Rightarrow> nat \<Rightarrow> 'f \<Rightarrow> 'f list \<times> 'f" where
  "zipf_sums Z skew key 0 tot = ([], tot)"
| "zipf_sums Z skew key (Suc n) tot =
     (let tot = zf_add Z tot (zf_pow_neg Z key skew); (cdf, last_tot) = zipf_sums Z skew (key + 1) n tot
      in (tot # cdf, last_tot))"

text \<open>\<open>None\<close>: the index of the last element of an empty slice.\<close>

definition sharedZipfCDF :: "'f zipf_floats \<Rightarrow> nat \<Rightarrow> 'f \<Rightarrow> 'f list option" where
  "sharedZipfCDF Z keyCount skew =
     (let (cdf, tot) = zipf_sums Z skew 1 keyCount (zf_zero Z); cdf = map (\<lambda>x. zf_div Z x tot) cdf in
      if cdf = [] then None else Some (cdf[length cdf - 1 := zf_one Z]))"

text \<open>\<open>sort.Search\<close>: the binary search of the library.\<close>

function search_from :: "(nat \<Rightarrow> bool) \<Rightarrow> nat \<Rightarrow> nat \<Rightarrow> nat" where
  "search_from f i j =
     (if i < j then let h = (i + j) div 2 in if \<not> f h then search_from f (h + 1) j else search_from f i h else i)"
  by auto
termination by (relation "measure (\<lambda>(f, i, j). j - i)") (auto simp: Let_def)

declare search_from.simps [simp del]

definition SearchFloat64s :: "'f zipf_floats \<Rightarrow> 'f list \<Rightarrow> 'f \<Rightarrow> nat" where
  "SearchFloat64s Z a x = search_from (\<lambda>i. \<not> zf_less Z (a ! i) x) 0 (length a)"

definition getKey :: "'f zipf_floats \<Rightarrow> 'f list \<Rightarrow> 'f \<Rightarrow> int" where
  "getKey Z cdf r = int (SearchFloat64s Z cdf r)"

lemma search_from_bounds:
  assumes "i \<le> j" "j < n \<longrightarrow> f j" "j \<le> n" "0 < n" "f (n - 1)"
  shows "search_from f i j < n \<or> i = n"
  using assms
proof (induction f i j rule: search_from.induct)
  case (1 f i j)
  show ?case
  proof (cases "i < j")
    case True
    let ?h = "(i + j) div 2"
    have h: "i \<le> ?h" "?h < j" using True by auto
    show ?thesis
    proof (cases "f ?h")
      case True
      have "search_from f i ?h < n \<or> i = n"
        by (rule "1.IH"(2)) (use True h \<open>i < j\<close> "1.prems" in auto)
      then show ?thesis using True h \<open>i < j\<close> "1.prems" by (subst search_from.simps) simp
    next
      case False
      have "search_from f (?h + 1) j < n \<or> ?h + 1 = n"
        by (rule "1.IH"(1)) (use False h \<open>i < j\<close> "1.prems" in auto)
      moreover have "?h + 1 \<noteq> n" using False "1.prems"(5) by auto
      ultimately show ?thesis using False \<open>i < j\<close> by (subst search_from.simps) simp
    qed
  next
    case False
    then show ?thesis using "1.prems" by (subst search_from.simps) auto
  qed
qed

text \<open>
  C39: A key that the workload picks is one of the \<open>keyCount\<close> keys from 0 on, for every random number below one and
  whatever the rounding of the distribution.
\<close>

theorem getKey_in_range:
  assumes "sharedZipfCDF Z keyCount skew = Some cdf" "\<not> zf_less Z (zf_one Z) r"
  shows "0 \<le> getKey Z cdf r \<and> getKey Z cdf r < int keyCount"
proof -
  have len: "length (fst (zipf_sums Z skew key n t)) = n" for key n t
    by (induction n arbitrary: key t) (simp_all add: Let_def split_beta)
  have "0 < keyCount"
    using assms(1) by (cases keyCount) (simp_all add: sharedZipfCDF_def)
  then have n: "length cdf = keyCount" "0 < keyCount" "cdf ! (keyCount - 1) = zf_one Z"
    using assms(1) len [of 1 keyCount "zf_zero Z"]
    by (auto simp: sharedZipfCDF_def Let_def split_beta nth_list_update split: if_splits)
  have "search_from (\<lambda>i. \<not> zf_less Z (cdf ! i) r) 0 keyCount < keyCount \<or> 0 = keyCount"
    by (rule search_from_bounds) (use n assms(2) in auto)
  then show ?thesis using n by (simp add: getKey_def SearchFloat64s_def)
qed

definition rat_floats :: "rat zipf_floats" where
  "rat_floats = \<lparr>zf_less = (<), zf_add = (+), zf_div = (/), zf_zero = 0, zf_one = 1, zf_pow_neg = (\<lambda>k s. 1 / of_int k)\<rparr>"

theorem getKey_in_range_witness:
  "\<exists>cdf. sharedZipfCDF rat_floats 3 1 = Some cdf \<and> 0 \<le> getKey rat_floats cdf (9 / 10) \<and> getKey rat_floats cdf (9 / 10) < 3"
proof -
  obtain cdf where cdf: "sharedZipfCDF rat_floats 3 1 = Some cdf"
    by (simp add: sharedZipfCDF_def rat_floats_def eval_nat_numeral Let_def)
  have "\<not> zf_less rat_floats (zf_one rat_floats) (9 / 10)" by (simp add: rat_floats_def)
  from getKey_in_range [OF cdf this] cdf show ?thesis by simp
qed

text \<open>\<open>r\<close> is \<open>Intn(100)\<close>.\<close>

definition randomTrue :: "int \<Rightarrow> int \<Rightarrow> bool" where
  "randomTrue prob r = (if prob \<ge> 100 then True else if prob > 0 then r < prob else False)"

section \<open>Sending requests and waiting for replies\<close>

record scheduledRequest =
  rq_key :: int
  rq_write :: bool
  rq_measured :: bool

record requestTiming =
  rt_measured :: bool
  rt_write :: bool

text \<open>The connected client with what it has to remember: the next update and its seed.\<close>

record 'f BufferClient =
  bc_client :: "'f Client"
  bc_psize :: nat
  bc_workloadSeed :: int
  bc_updateVersion :: "64 word"

definition sendScheduledRequest ::
  "bytes \<Rightarrow> scheduledRequest \<Rightarrow> 'f BufferClient \<Rightarrow> client_stop + 'f BufferClient" where
  "sendScheduledRequest rnd rq b =
     (if rq_write rq then
        let (v, val) = nextUpdateValue (bc_psize b) (bc_workloadSeed b) rnd (bc_updateVersion b) (rq_key rq) in
        case SendWrite (rq_key rq) val (bc_client b) of
          Inl e \<Rightarrow> Inl e | Inr (_, c) \<Rightarrow> Inr (b\<lparr>bc_client := c, bc_updateVersion := v\<rparr>)
      else case SendRead (rq_key rq) (bc_client b) of Inl e \<Rightarrow> Inl e | Inr (_, c) \<Rightarrow> Inr (b\<lparr>bc_client := c\<rparr>))"

text \<open>
  The state that the goroutines of \<open>loopOpen\<close> share: the times of the requests that wait for a reply, the counter of the
  wait group \<open>replies\<close>, and the operations whose latency was printed.
\<close>

record 'f load =
  ld_client :: "'f BufferClient"
  ld_timings :: "int \<Rightarrow> requestTiming option"
  ld_replies :: int
  ld_printed :: "bool list"

definition send_one :: "bytes \<Rightarrow> scheduledRequest \<Rightarrow> 'f load \<Rightarrow> client_stop + 'f load" where
  "send_one rnd rq s =
     (let sequence = wrap32 (cl_seqnum (bc_client (ld_client s)) + 1) in
      case sendScheduledRequest rnd rq (ld_client s) of
        Inl e \<Rightarrow> Inl e
      | Inr b \<Rightarrow> Inr (s\<lparr>ld_timings := (ld_timings s)(sequence \<mapsto> \<lparr>rt_measured = rq_measured rq, rt_write = rq_write rq\<rparr>),
           ld_replies := ld_replies s + 1, ld_client := b\<rparr>))"

definition take_reply :: "int \<Rightarrow> 'f load \<Rightarrow> 'f load" where
  "take_reply seqnum s =
     (case ld_timings s seqnum of
        None \<Rightarrow> s
      | Some timing \<Rightarrow> s\<lparr>ld_timings := (ld_timings s)(seqnum := None), ld_replies := ld_replies s - 1,
           ld_printed := (if rt_measured timing then ld_printed s @ [rt_write timing] else ld_printed s)\<rparr>)"

text \<open>The two goroutines take turns in any order.\<close>

datatype load_act = ASend bytes scheduledRequest | AReply int

fun load_run :: "load_act list \<Rightarrow> 'f load \<Rightarrow> client_stop + 'f load" where
  "load_run [] s = Inr s"
| "load_run (ASend rnd rq # as) s = (case send_one rnd rq s of Inl e \<Rightarrow> Inl e | Inr s \<Rightarrow> load_run as s)"
| "load_run (AReply n # as) s = load_run as (take_reply n s)"

fun is_send :: "load_act \<Rightarrow> bool" where
  "is_send (ASend rnd rq) = True"
| "is_send (AReply n) = False"

fun is_measured :: "load_act \<Rightarrow> bool" where
  "is_measured (ASend rnd rq) = rq_measured rq"
| "is_measured (AReply n) = False"

definition load_ok :: "int \<Rightarrow> 'f load \<Rightarrow> bool" where
  "load_ok n s \<longleftrightarrow> cl_seqnum (bc_client (ld_client s)) = n \<and> dom (ld_timings s) \<subseteq> {..n} \<and> finite (dom (ld_timings s)) \<and>
     ld_replies s = int (card (dom (ld_timings s)))"

definition measured_waiting :: "'f load \<Rightarrow> int set" where
  "measured_waiting s = {n. \<exists>t. ld_timings s n = Some t \<and> rt_measured t}"

lemma sendScheduledRequest_seqnum:
  "sendScheduledRequest rnd rq b = Inr b' \<Longrightarrow> cl_seqnum (bc_client b') = wrap32 (cl_seqnum (bc_client b) + 1)"
  by (auto simp: sendScheduledRequest_def SendWrite_def SendRead_def Let_def split_beta dest!: client_propose_seqnum
      split: if_splits sum.splits)

lemma take_reply_ok:
  assumes "load_ok n s"
  shows "load_ok n (take_reply k s) \<and>
    length (ld_printed (take_reply k s)) + card (measured_waiting (take_reply k s)) = length (ld_printed s) + card (measured_waiting s)"
proof (cases "ld_timings s k")
  case (Some t)
  have fin: "finite (dom (ld_timings s))" using assms by (simp add: load_ok_def)
  have k: "k \<in> dom (ld_timings s)" using Some by blast
  then have pos: "0 < card (dom (ld_timings s))" using fin card_gt_0_iff by blast
  have waiting: "measured_waiting (take_reply k s) = measured_waiting s - {k}"
    using Some by (auto simp: measured_waiting_def take_reply_def)
  have sub: "measured_waiting s \<subseteq> dom (ld_timings s)" by (auto simp: measured_waiting_def)
  have finm: "finite (measured_waiting s)" using sub fin by (rule finite_subset)
  have "card (measured_waiting s - {k}) + (if rt_measured t then 1 else 0) = card (measured_waiting s)"
  proof (cases "rt_measured t")
    case True
    then have "k \<in> measured_waiting s" using Some by (simp add: measured_waiting_def)
    then show ?thesis using True card_Suc_Diff1 [OF finm, of k] by simp
  next
    case False
    then have "k \<notin> measured_waiting s" using Some by (simp add: measured_waiting_def)
    then show ?thesis using False by simp
  qed
  moreover have "load_ok n (take_reply k s)"
  proof -
    have dom: "dom (ld_timings (take_reply k s)) = dom (ld_timings s) - {k}"
      using Some by (simp add: take_reply_def)
    have count: "ld_replies (take_reply k s) = ld_replies s - 1" "ld_client (take_reply k s) = ld_client s"
      using Some by (simp_all add: take_reply_def)
    have "int (card (dom (ld_timings s) - {k})) = int (card (dom (ld_timings s))) - 1"
      using card_Diff_singleton [OF k] pos by simp
    then show ?thesis
      using assms unfolding load_ok_def dom count by (auto simp del: dom_eq_empty_conv)
  qed
  moreover have "length (ld_printed (take_reply k s)) = length (ld_printed s) + (if rt_measured t then 1 else 0)"
    using Some by (simp add: take_reply_def)
  ultimately show ?thesis unfolding waiting by linarith
qed (use assms in \<open>simp add: take_reply_def\<close>)

lemma send_one_ok:
  assumes "load_ok n s" "send_one rnd rq s = Inr s'" "0 \<le> n" "n < 2 ^ 31 - 1"
  shows "load_ok (n + 1) s' \<and> length (ld_printed s') + card (measured_waiting s') =
    length (ld_printed s) + card (measured_waiting s) + (if rq_measured rq then 1 else 0)"
proof -
  have "i32 (n + 1)" using assms(3,4) by (simp add: i32_def)
  then have w: "wrap32 (n + 1) = n + 1" by simp
  have n: "cl_seqnum (bc_client (ld_client s)) = n" using assms(1) by (simp add: load_ok_def)
  obtain b where b: "sendScheduledRequest rnd rq (ld_client s) = Inr b" and
      s': "s' = s\<lparr>ld_timings := (ld_timings s)(n + 1 \<mapsto> \<lparr>rt_measured = rq_measured rq, rt_write = rq_write rq\<rparr>),
           ld_replies := ld_replies s + 1, ld_client := b\<rparr>"
    using assms(2) by (auto simp: send_one_def Let_def n w split: sum.splits)
  have fresh: "n + 1 \<notin> dom (ld_timings s)" using assms(1) by (force simp: load_ok_def)
  have fin: "finite (dom (ld_timings s))" using assms(1) by (simp add: load_ok_def)
  have "finite (measured_waiting s)"
    by (rule finite_subset [OF _ fin]) (auto simp: measured_waiting_def)
  moreover have "measured_waiting s' = (if rq_measured rq then insert (n + 1) (measured_waiting s) else measured_waiting s)"
    using fresh by (auto simp: measured_waiting_def s' split: if_splits)
  moreover have "n + 1 \<notin> measured_waiting s" using fresh by (auto simp: measured_waiting_def)
  moreover have "load_ok (n + 1) s'"
    using assms(1) fresh fin sendScheduledRequest_seqnum [OF b] n w by (auto simp: load_ok_def s')
  ultimately show ?thesis by (simp add: s')
qed

text \<open>
  C37: While requests are sent and replies arrive in any order, repeated or unknown ones included, the wait group counts
  the requests that have no reply yet, so that the client ends when each has one; and each measured request is printed
  once, or still waits.
\<close>

theorem replies_are_awaited:
  assumes "load_run as s = Inr s'" "load_ok n s" "0 \<le> n" "n + int (length (filter is_send as)) < 2 ^ 31"
  shows "ld_replies s' = int (card (dom (ld_timings s'))) \<and>
    length (ld_printed s') + card (measured_waiting s') =
      length (ld_printed s) + card (measured_waiting s) + length (filter is_measured as)"
  using assms
proof (induction as arbitrary: s n)
  case Nil
  then show ?case by (simp add: load_ok_def)
next
  case (Cons a as)
  show ?case
  proof (cases a)
    case (ASend rnd rq)
    then obtain s1 where one: "send_one rnd rq s = Inr s1" and rest: "load_run as s1 = Inr s'"
      using Cons.prems(1) by (auto split: sum.splits)
    have "n < 2 ^ 31 - 1" using Cons.prems(4) ASend by simp
    note step = send_one_ok [OF Cons.prems(2) one Cons.prems(3) this]
    have "0 \<le> n + 1" "n + 1 + int (length (filter is_send as)) < 2 ^ 31" using Cons.prems(3,4) ASend by simp_all
    from Cons.IH [OF rest conjunct1 [OF step] this] step show ?thesis using ASend by simp
  next
    case (AReply k)
    then have rest: "load_run as (take_reply k s) = Inr s'" and len: "n + int (length (filter is_send as)) < 2 ^ 31"
      using Cons.prems(1,4) by simp_all
    note step = take_reply_ok [OF Cons.prems(2), of k]
    from Cons.IH [OF rest conjunct1 [OF step] Cons.prems(3) len] step AReply show ?thesis by simp
  qed
qed

definition rq_ex :: scheduledRequest where
  "rq_ex = \<lparr>rq_key = 5, rq_write = False, rq_measured = True\<rparr>"

definition load_ex :: "int load" where
  "load_ex = \<lparr>ld_client = \<lparr>bc_client = (NewClientLog 7 [] True True)\<lparr>cl_writers := [Some []], cl_seqnum := 0\<rparr>,
       bc_psize = 24, bc_workloadSeed = 1, bc_updateVersion = 0\<rparr>,
     ld_timings = Map.empty, ld_replies = 0, ld_printed = []\<rparr>"

text \<open>Two requests are sent; the reply to the first arrives twice, and one that nobody waits for.\<close>

theorem replies_are_awaited_witness:
  "\<exists>s. load_run [ASend [] rq_ex, AReply 7, AReply 1, ASend [] rq_ex, AReply 1] load_ex = Inr s \<and>
     ld_replies s = int (card (dom (ld_timings s))) \<and> ld_replies s = 1 \<and> length (ld_printed s) + card (measured_waiting s) = 2"
proof -
  let ?as = "[ASend [] rq_ex, AReply 7, AReply 1, ASend [] rq_ex, AReply 1]"
  have ok: "load_ok 0 load_ex" by (simp add: load_ok_def load_ex_def)
  have w: "wrap32 1 = 1" "wrap32 2 = 2" by (simp_all add: i32_def)
  obtain s where run: "load_run ?as load_ex = Inr s" and r: "ld_replies s = 1"
    by (simp add: load_ex_def rq_ex_def send_one_def sendScheduledRequest_def SendRead_def client_propose_def
        SendProposal_def NewClientLog_def take_reply_def Let_def w)
  have start: "ld_printed load_ex = []" "measured_waiting load_ex = {}" by (simp_all add: load_ex_def measured_waiting_def)
  from replies_are_awaited [OF run ok] run r show ?thesis by (simp add: start rq_ex_def)
qed

section \<open>Reading replies\<close>

text \<open>
  \<open>WaitReplies\<close>: every reply that says \<open>TRUE\<close> is registered, with its value and number; an error, or another reply, ends
  the loop.  At most \<open>n\<close> iterations.
\<close>

fun WaitReplies :: "nat \<Rightarrow> bytes \<Rightarrow> (value \<times> int) list" where
  "WaitReplies 0 reader = []"
| "WaitReplies (Suc n) reader =
     (case GetReplyFrom reader of
        Some (True, r, reader) \<Rightarrow>
          if ProposeReplyTS_OK r \<noteq> 1 then []
          else (ProposeReplyTS_Value r, ProposeReplyTS_CommandId r) # WaitReplies n reader
      | _ \<Rightarrow> [])"

lemma WaitReplies_all:
  assumes "list_all (\<lambda>r. ProposeReplyTS_ok r \<and> ProposeReplyTS_OK r = 1) rs"
  shows "WaitReplies (length rs) (concat (map Marshal_ProposeReplyTS rs)) =
    map (\<lambda>r. (ProposeReplyTS_Value r, ProposeReplyTS_CommandId r)) rs"
  using assms
  by (induction rs) (simp_all add: GetReplyFrom_def ProposeReplyTS_msg.roundtrip)

section \<open>When requests are made\<close>

text \<open>
  The loop that makes the requests: \<open>xs\<close> gives the interval, the key and the kind of each, \<open>t\<close> is the time of the last one,
  and the result is \<open>None\<close> if \<open>xs\<close> ends before the measured window.  Times are nanoseconds.
\<close>

fun arrivals :: "int \<Rightarrow> int \<Rightarrow> (int \<times> int \<times> bool) list \<Rightarrow> int \<Rightarrow> scheduledRequest list option" where
  "arrivals warmupEnd measurementEnd [] t = None"
| "arrivals warmupEnd measurementEnd ((d, k, w) # xs) t =
     (let nextArrival = t + d in
      if measurementEnd \<le> nextArrival then Some []
      else map_option (\<lambda>rs. \<lparr>rq_key = k, rq_write = w, rq_measured = (warmupEnd \<le> nextArrival)\<rparr> # rs)
        (arrivals warmupEnd measurementEnd xs nextArrival))"

text \<open>The first request is made before the clock starts, and is not measured.\<close>

definition loop_requests :: "int \<Rightarrow> bool \<Rightarrow> int \<Rightarrow> int \<Rightarrow> (int \<times> int \<times> bool) list \<Rightarrow> scheduledRequest list option" where
  "loop_requests k w warmup duration xs =
     map_option (\<lambda>rs. \<lparr>rq_key = k, rq_write = w, rq_measured = False\<rparr> # rs) (arrivals warmup (warmup + duration) xs 0)"

lemma arrivals_return:
  "m \<le> t + sum_list (map fst xs) \<Longrightarrow> t < m \<Longrightarrow> \<exists>rs. arrivals w m xs t = Some rs"
  by (induction w m xs t rule: arrivals.induct) (auto simp: Let_def not_le add.assoc)

text \<open>What is measured comes after the warm-up: no request that is not measured follows one that is.\<close>

lemma measured_is_suffix:
  assumes "arrivals w m xs t = Some rs" "\<forall>d \<in> fst ` set xs. 0 \<le> d"
  shows "\<exists>a b. map rq_measured rs = replicate a False @ replicate b True \<and> (w \<le> t \<longrightarrow> a = 0)"
  using assms
proof (induction w m xs t arbitrary: rs rule: arrivals.induct)
  case (2 w m d k wr xs t)
  show ?case
  proof (cases "m \<le> t + d")
    case True
    then show ?thesis using "2.prems" by (auto intro: exI [of _ "0 :: nat"])
  next
    case False
    then obtain rs' where rs': "arrivals w m xs (t + d) = Some rs'"
      and rs: "rs = \<lparr>rq_key = k, rq_write = wr, rq_measured = (w \<le> t + d)\<rparr> # rs'"
      using "2.prems"(1) by (auto simp: Let_def)
    obtain a b where ab: "map rq_measured rs' = replicate a False @ replicate b True" "w \<le> t + d \<longrightarrow> a = 0"
      using "2.IH" [OF refl False rs'] "2.prems"(2) by auto
    show ?thesis
    proof (cases "w \<le> t + d")
      case True
      then have "map rq_measured rs = replicate 0 False @ replicate (Suc b) True" using ab rs by simp
      then show ?thesis by blast
    next
      case False
      then have "map rq_measured rs = replicate (Suc a) False @ replicate b True" using ab rs by simp
      moreover have "\<not> w \<le> t" using False "2.prems"(2) by simp
      ultimately show ?thesis by blast
    qed
  qed
qed simp

end
