(* ===== verification/Proxy.thy ===== *)
theory Proxy
  imports GoString
begin

text \<open>
  The proxies of a deployment (\<open>config/proxy.go\<close>): which clients are local to a replica, and which use it as their proxy.

  A map of sets is a list of its keys with their sets, in the order in which Go's iteration meets them; every order is
  possible, and the lists that the code makes of keys have that order.  \<open>None\<close> is a panic.  A section is read from the
  lines that are left in the file; the rest is returned.
\<close>

section \<open>Model\<close>

record ProxyInfo =
  px_locals :: "string \<Rightarrow> string set option"
  px_proxies :: "string \<Rightarrow> string set option"
  px_servers :: "string \<Rightarrow> string option"

definition REMOTE :: string where
  "REMOTE = ''none''"

text \<open>\<open>m[alias][addr] = struct{}{}\<close>: assigning to an entry of a nil map panics.\<close>

definition add_addr :: "string \<Rightarrow> string \<Rightarrow> (string \<Rightarrow> string set option) \<Rightarrow> (string \<Rightarrow> string set option) option" where
  "add_addr al addr m = (case m al of None \<Rightarrow> None | Some s \<Rightarrow> Some (m(al \<mapsto> insert addr s)))"

text \<open>A Go map from strings to strings gives the empty string for a key that is missing.\<close>

definition lookup_string :: "(string \<Rightarrow> string option) \<Rightarrow> string \<Rightarrow> string" where
  "lookup_string m k = (case m k of Some v \<Rightarrow> v | None \<Rightarrow> [])"

text \<open>One line, as its words: the alias that the next lines are about, the proxies, and whether the section ends.\<close>

definition proxy_line ::
  "(string \<Rightarrow> string option) \<Rightarrow> string \<Rightarrow> string list \<Rightarrow> string \<Rightarrow> ProxyInfo \<Rightarrow> (string \<times> ProxyInfo \<times> bool) option"
where
  "proxy_line clients fin fs al p =
     (if length fs < 1 then Some (al, p, False)
      else if length fs > 1 then
        if fs ! 0 = ''server_alias'' then
          Some (fs ! 1, p\<lparr>px_locals := (px_locals p)(fs ! 1 \<mapsto> {}), px_proxies := (px_proxies p)(fs ! 1 \<mapsto> {})\<rparr>, False)
        else if HasSubstring (fs ! 1) ''local'' then
          let addr = lookup_string clients (fs ! 0) in
          (case add_addr al addr (px_locals p) of
             None \<Rightarrow> None
           | Some ml \<Rightarrow>
               (case add_addr al addr (px_proxies p) of
                  None \<Rightarrow> None
                | Some mp \<Rightarrow> Some (al, \<lparr>px_locals = ml, px_proxies = mp, px_servers = (px_servers p)(addr \<mapsto> al)\<rparr>, False)))
        else Some (al, p, False)
      else if fs ! 0 = fin then Some (al, p, True)
      else map_option (\<lambda>mp. (al, p\<lparr>px_proxies := mp\<rparr>, False))
        (add_addr al (lookup_string clients (fs ! 0)) (px_proxies p)))"

fun read_proxies ::
  "(string \<Rightarrow> string option) \<Rightarrow> string \<Rightarrow> string \<Rightarrow> string list \<Rightarrow> ProxyInfo \<Rightarrow> (ProxyInfo \<times> string list) option"
where
  "read_proxies clients fin al [] p = Some (p, [])"
| "read_proxies clients fin al (l # ls) p =
     (case proxy_line clients fin (Fields l) al p of
        None \<Rightarrow> None
      | Some (al, p, ended) \<Rightarrow> if ended then Some (p, ls) else read_proxies clients fin al ls p)"

definition ReadProxyInfo ::
  "(string \<Rightarrow> string option) \<Rightarrow> string list \<Rightarrow> string \<Rightarrow> (ProxyInfo \<times> string list) option" where
  "ReadProxyInfo clients ls fin =
     read_proxies clients fin [] ls \<lparr>px_locals = Map.empty, px_proxies = Map.empty, px_servers = Map.empty\<rparr>"

text \<open>A nil \<open>ProxyInfo\<close> is \<open>None\<close>; its fields cannot be read.\<close>

definition IsProxy :: "ProxyInfo option \<Rightarrow> string \<Rightarrow> string \<Rightarrow> bool option" where
  "IsProxy p serverAlias clientAddr = (case p of None \<Rightarrow> None
     | Some p \<Rightarrow> Some (case px_proxies p serverAlias of None \<Rightarrow> False | Some s \<Rightarrow> clientAddr \<in> s))"

definition IsLocal :: "ProxyInfo option \<Rightarrow> string \<Rightarrow> string \<Rightarrow> bool option" where
  "IsLocal p serverAlias clientAddr = (case p of None \<Rightarrow> None
     | Some p \<Rightarrow> Some (case px_locals p serverAlias of None \<Rightarrow> False | Some s \<Rightarrow> clientAddr \<in> s))"

text \<open>\<open>order\<close> lists the keys of \<open>proxies\<close> as the iteration meets them.\<close>

definition ProxyOf :: "string list \<Rightarrow> ProxyInfo option \<Rightarrow> string \<Rightarrow> string option" where
  "ProxyOf order p clientAddr = (case p of None \<Rightarrow> None
     | Some p \<Rightarrow> Some (case List.find (\<lambda>server. case px_proxies p server of None \<Rightarrow> False | Some s \<Rightarrow> clientAddr \<in> s) order of
         Some server \<Rightarrow> server | None \<Rightarrow> ''none''))"

definition LocalWith :: "ProxyInfo option \<Rightarrow> string \<Rightarrow> string option" where
  "LocalWith p clientAddr = (case p of None \<Rightarrow> None
     | Some p \<Rightarrow> Some (case px_servers p clientAddr of None \<Rightarrow> REMOTE | Some al \<Rightarrow> al))"

text \<open>The lists of keys, as sets.\<close>

definition Servers :: "ProxyInfo option \<Rightarrow> string set" where
  "Servers p = (case p of None \<Rightarrow> {} | Some p \<Rightarrow> dom (px_proxies p))"

definition ServerClients :: "ProxyInfo option \<Rightarrow> string \<Rightarrow> string set" where
  "ServerClients p server = (case p of None \<Rightarrow> {}
     | Some p \<Rightarrow> (case px_proxies p server of None \<Rightarrow> {} | Some s \<Rightarrow> s))"

definition Clients :: "ProxyInfo option \<Rightarrow> string set" where
  "Clients p = (case p of None \<Rightarrow> {} | Some p \<Rightarrow> dom (px_servers p))"

section \<open>What a section says\<close>

text \<open>A client that is local to a replica uses it as a proxy, and \<open>servers\<close> names a replica that it is local to.\<close>

definition proxies_ok :: "ProxyInfo \<Rightarrow> bool" where
  "proxies_ok p \<longleftrightarrow> (\<forall>al. rel_option (\<subseteq>) (px_locals p al) (px_proxies p al))"

lemma add_addr_Some:
  "add_addr al addr m = Some m' \<longleftrightarrow> (\<exists>s. m al = Some s \<and> m' = m(al \<mapsto> insert addr s))"
  by (auto simp: add_addr_def split: option.split)

lemma proxies_ok_update:
  assumes "proxies_ok p" "rel_option (\<subseteq>) x y"
  shows "proxies_ok \<lparr>px_locals = (px_locals p)(al := x), px_proxies = (px_proxies p)(al := y), px_servers = sv\<rparr>"
  using assms by (simp add: proxies_ok_def)

lemma proxy_line_ok:
  assumes "proxy_line clients fin fs al p = Some (al', p', ended)" and ok: "proxies_ok p"
  shows "proxies_ok p'"
proof -
  have at: "rel_option (\<subseteq>) (px_locals p a) (px_proxies p a)" for a
    using ok by (simp add: proxies_ok_def)
  let ?addr = "lookup_string clients (fs ! 0)"
  note run = assms(1) [unfolded proxy_line_def Let_def]
  show ?thesis
  proof (cases "length fs > 1")
    case True
    then have len: "\<not> length fs < 1" by linarith
    consider (server) "fs ! 0 = ''server_alias''" | (loc) "fs ! 0 \<noteq> ''server_alias''" "HasSubstring (fs ! 1) ''local''"
      | (other) "fs ! 0 \<noteq> ''server_alias''" "\<not> HasSubstring (fs ! 1) ''local''" by blast
    then show ?thesis
    proof cases
      case server
      then have "p' = p\<lparr>px_locals := (px_locals p)(fs ! 1 \<mapsto> {}), px_proxies := (px_proxies p)(fs ! 1 \<mapsto> {})\<rparr>"
        using run len True by auto
      then show ?thesis using at by (simp add: proxies_ok_def)
    next
      case loc
      then have "(case add_addr al ?addr (px_locals p) of None \<Rightarrow> None
         | Some ml \<Rightarrow> (case add_addr al ?addr (px_proxies p) of None \<Rightarrow> None
             | Some mp \<Rightarrow> Some (al, \<lparr>px_locals = ml, px_proxies = mp, px_servers = (px_servers p)(?addr \<mapsto> al)\<rparr>, False)))
           = Some (al', p', ended)"
        using run len True by (simp only: if_True if_False)
      then obtain ml mp where "add_addr al ?addr (px_locals p) = Some ml" "add_addr al ?addr (px_proxies p) = Some mp"
        and p': "p' = \<lparr>px_locals = ml, px_proxies = mp, px_servers = (px_servers p)(?addr \<mapsto> al)\<rparr>"
        by (auto split: option.split_asm)
      then obtain l s where s: "px_locals p al = Some l" "ml = (px_locals p)(al \<mapsto> insert ?addr l)"
          "px_proxies p al = Some s" "mp = (px_proxies p)(al \<mapsto> insert ?addr s)"
        by (auto simp: add_addr_Some)
      then have "rel_option (\<subseteq>) (Some (insert ?addr l)) (Some (insert ?addr s))"
        using at [of al] by auto
      then show ?thesis unfolding p' s(2, 4) by (rule proxies_ok_update [OF ok])
    qed (use run len True ok in simp)
  next
    case False
    show ?thesis
    proof (cases "length fs < 1 \<or> fs ! 0 = fin")
      case True
      then show ?thesis using run False ok by (simp split: if_split_asm)
    next
      case other: False
      then obtain mp where "add_addr al ?addr (px_proxies p) = Some mp" and p': "p' = p\<lparr>px_proxies := mp\<rparr>"
        using run False by (auto split: if_split_asm)
      then obtain s where "px_proxies p al = Some s" "mp = (px_proxies p)(al \<mapsto> insert ?addr s)"
        by (auto simp: add_addr_Some)
      moreover obtain l where "px_locals p al = Some l" "l \<subseteq> s"
        using at [of al] calculation(1) by (auto simp: option_rel_Some2)
      ultimately show ?thesis using at p' by (auto simp: proxies_ok_def)
    qed
  qed
qed

lemma read_proxies_ok:
  assumes "read_proxies clients fin al ls p = Some (p', rest)" "proxies_ok p"
  shows "proxies_ok p' \<and> length rest \<le> length ls"
  using assms
proof (induction ls arbitrary: al p)
  case (Cons l ls)
  obtain al1 p1 ended where line: "proxy_line clients fin (Fields l) al p = Some (al1, p1, ended)"
    using Cons.prems(1) by (auto split: option.splits)
  note ok = proxy_line_ok [OF line Cons.prems(2)]
  show ?case
  proof (cases ended)
    case True
    then show ?thesis using Cons.prems(1) line ok by simp
  next
    case False
    then have "read_proxies clients fin al1 ls p1 = Some (p', rest)" using Cons.prems(1) line by simp
    then show ?thesis using Cons.IH ok by fastforce
  qed
qed simp

lemma ReadProxyInfo_ok:
  "ReadProxyInfo clients ls fin = Some (p, rest) \<Longrightarrow> proxies_ok p \<and> length rest \<le> length ls"
  unfolding ReadProxyInfo_def by (erule read_proxies_ok) (simp add: proxies_ok_def)

text \<open>A local client is one of the proxied clients.\<close>

lemma IsLocal_IsProxy:
  assumes "ReadProxyInfo clients ls fin = Some (p, rest)" "IsLocal (Some p) al addr = Some True"
  shows "IsProxy (Some p) al addr = Some True"
proof -
  have "proxies_ok p" using ReadProxyInfo_ok [OF assms(1)] by simp
  moreover obtain l where "px_locals p al = Some l" "addr \<in> l"
    using assms(2) by (auto simp: IsLocal_def split: option.splits)
  ultimately have "rel_option (\<subseteq>) (Some l) (px_proxies p al)"
    unfolding proxies_ok_def by metis
  then show ?thesis using \<open>addr \<in> l\<close> by (auto simp: IsProxy_def option_rel_Some1)
qed

text \<open>A section that names a client before a replica makes the reader panic.\<close>

lemma ReadProxyInfo_no_server: "ReadProxyInfo clients (''client1'' # ls) ''---'' = None"
proof -
  have "Fields ''client1'' = [''client1'']" by code_simp
  then show ?thesis by (simp add: ReadProxyInfo_def proxy_line_def add_addr_def)
qed

end
