(* ===== verification/Config.thy ===== *)
theory Config
  imports Proxy
begin

text \<open>
  The configuration file (\<open>config/config.go\<close>): sections of replicas, clients and proxies, and keys with values.

  The file is the list of its lines.  \<open>float64\<close> and its parser are in \<open>config_floats\<close>, \<open>dur\<close> is \<open>time.ParseDuration\<close>.  A
  result \<open>Inl\<close> is the error that \<open>Read\<close> returns (with the field it names), or the panic of the section of proxies.
\<close>

section \<open>State\<close>

record 'f config_floats =
  ff_parse :: "string \<Rightarrow> 'f option"
  ff_five :: 'f
  ff_skew :: 'f \<comment> \<open>\<open>0.9\<close>\<close>
  ff_zero :: 'f
  ff_less :: "'f \<Rightarrow> 'f \<Rightarrow> bool"
  ff_leq :: "'f \<Rightarrow> 'f \<Rightarrow> bool"
  ff_NaN :: "'f \<Rightarrow> bool"
  ff_Inf :: "'f \<Rightarrow> bool"

datatype config_error = MissingArgument string | InvalidArgument string | NoSection | ApplyArgument
  | OutOfRange string | OpenFails | ProxyPanic

datatype Machine = ClientMachine | ReplicaMachine | MasterMachine

record 'f Config =
  cf_Protocol :: string
  cf_Alias :: string
  cf_MachineType :: Machine
  cf_Port :: int
  cf_ClientAddrs :: "string \<Rightarrow> string option"
  cf_ReplicaAddrs :: "string \<Rightarrow> string option"
  cf_MasterAlias :: string
  cf_MasterPort :: int
  cf_MasterAddr :: string
  cf_Noop :: bool
  cf_Thrifty :: bool
  cf_Optread :: bool
  cf_Leaderless :: bool
  cf_Fast :: bool
  cf_Leader :: "string option"
  cf_Warmup :: int
  cf_Duration :: int
  cf_Repetitions :: int
  cf_Writes :: int
  cf_CommandSize :: int
  cf_Clones :: int
  cf_WaitClosest :: bool
  cf_ArrivalRate :: 'f
  cf_KeyCount :: int
  cf_ZipfSkew :: 'f
  cf_Preload :: bool
  cf_PreloadSeed :: int
  cf_WorkloadSeed :: int
  cf_Pipeline :: bool
  cf_Syncs :: int
  cf_Pendings :: int
  cf_Quorum :: string
  cf_Proxy :: "ProxyInfo option"

definition defaultPort :: int where
  "defaultPort = 7070"

definition default_config :: "'f config_floats \<Rightarrow> string \<Rightarrow> 'f Config" where
  "default_config F al = \<lparr>cf_Protocol = [], cf_Alias = al, cf_MachineType = ClientMachine, cf_Port = defaultPort,
     cf_ClientAddrs = Map.empty, cf_ReplicaAddrs = Map.empty, cf_MasterAlias = [], cf_MasterPort = 0, cf_MasterAddr = [],
     cf_Noop = False, cf_Thrifty = False, cf_Optread = False, cf_Leaderless = False, cf_Fast = False, cf_Leader = None,
     cf_Warmup = 0, cf_Duration = 0, cf_Repetitions = 1, cf_Writes = 0, cf_CommandSize = 0, cf_Clones = 0,
     cf_WaitClosest = False, cf_ArrivalRate = ff_five F, cf_KeyCount = 1000000, cf_ZipfSkew = ff_skew F,
     cf_Preload = False, cf_PreloadSeed = 1, cf_WorkloadSeed = 1, cf_Pipeline = False, cf_Syncs = 0, cf_Pendings = 0,
     cf_Quorum = [], cf_Proxy = None\<rparr>"

section \<open>Arguments of keys\<close>

definition ParseBool :: "string \<Rightarrow> bool option" where
  "ParseBool s =
     (if s \<in> {''1'', ''t'', ''T'', ''TRUE'', ''true'', ''True''} then Some True
      else if s \<in> {''0'', ''f'', ''F'', ''FALSE'', ''false'', ''False''} then Some False else None)"

definition expect :: "string list \<Rightarrow> (string \<Rightarrow> 'a option) \<Rightarrow> config_error + 'a" where
  "expect ws f =
     (if length ws < 1 then Inl (MissingArgument [])
      else if length ws < 2 \<or> HasPrefix (ws ! 1) ''//'' then Inl (MissingArgument (ws ! 0))
      else case f (ws ! 1) of None \<Rightarrow> Inl (InvalidArgument (ws ! 0)) | Some x \<Rightarrow> Inr x)"

definition expectInt :: "string list \<Rightarrow> config_error + int" where
  "expectInt ws = expect ws Atoi"

definition expectFloat :: "'f config_floats \<Rightarrow> string list \<Rightarrow> config_error + 'f" where
  "expectFloat F ws = expect ws (ff_parse F)"

definition expectString :: "string list \<Rightarrow> config_error + string" where
  "expectString ws = expect ws Some"

definition expectBool :: "string list \<Rightarrow> config_error + bool" where
  "expectBool ws = expect ws ParseBool"

definition expectDuration :: "(string \<Rightarrow> int option) \<Rightarrow> string list \<Rightarrow> config_error + int" where
  "expectDuration dur ws = expect ws (\<lambda>s. if s = ''none'' then Some 0 else dur s)"

definition map_ok :: "('a \<Rightarrow> 'b) \<Rightarrow> config_error + 'a \<Rightarrow> config_error + 'b" where
  "map_ok f x = (case x of Inl e \<Rightarrow> Inl e | Inr y \<Rightarrow> Inr (f y))"

text \<open>A leader without a port gets the default port, whatever \<open>port\<close> says.\<close>

definition set_leader :: "string list \<Rightarrow> 'f Config \<Rightarrow> config_error + 'f Config" where
  "set_leader ws c = map_ok (\<lambda>l. c\<lparr>cf_Leader := Some (if HasSubstring l '':'' then l
     else l @ CHR '':'' # show_int defaultPort)\<rparr>) (expectString ws)"

text \<open>The switch over the keys, as a table: \<open>None\<close> if the first word is not a key.\<close>

definition key_table ::
  "'f config_floats \<Rightarrow> (string \<Rightarrow> int option) \<Rightarrow> string list \<Rightarrow> 'f Config \<Rightarrow> (string \<times> (config_error + 'f Config)) list"
where
  "key_table F dur ws c =
     [(''masterport'', map_ok (\<lambda>x. c\<lparr>cf_MasterPort := x\<rparr>) (expectInt ws)),
      (''port'', map_ok (\<lambda>x. c\<lparr>cf_Port := x\<rparr>) (expectInt ws)),
      (''writes'', map_ok (\<lambda>x. c\<lparr>cf_Writes := x\<rparr>) (expectInt ws)),
      (''commandSize'', map_ok (\<lambda>x. c\<lparr>cf_CommandSize := x\<rparr>) (expectInt ws)),
      (''clones'', map_ok (\<lambda>x. c\<lparr>cf_Clones := x\<rparr>) (expectInt ws)),
      (''protocol'', map_ok (\<lambda>x. c\<lparr>cf_Protocol := x\<rparr>) (expectString ws)),
      (''warmup'', map_ok (\<lambda>x. c\<lparr>cf_Warmup := x\<rparr>) (expectDuration dur ws)),
      (''duration'', map_ok (\<lambda>x. c\<lparr>cf_Duration := x\<rparr>) (expectDuration dur ws)),
      (''repetitions'', map_ok (\<lambda>x. c\<lparr>cf_Repetitions := x\<rparr>) (expectInt ws)),
      (''noop'', map_ok (\<lambda>x. c\<lparr>cf_Noop := x\<rparr>) (expectBool ws)),
      (''thrifty'', map_ok (\<lambda>x. c\<lparr>cf_Thrifty := x\<rparr>) (expectBool ws)),
      (''optread'', map_ok (\<lambda>x. c\<lparr>cf_Optread := x\<rparr>) (expectBool ws)),
      (''leaderless'', map_ok (\<lambda>x. c\<lparr>cf_Leaderless := x\<rparr>) (expectBool ws)),
      (''leader'', set_leader ws c),
      (''fast'', map_ok (\<lambda>x. c\<lparr>cf_Fast := x\<rparr>) (expectBool ws)),
      (''waitclosest'', map_ok (\<lambda>x. c\<lparr>cf_WaitClosest := x\<rparr>) (expectBool ws)),
      (''pipeline'', map_ok (\<lambda>x. c\<lparr>cf_Pipeline := x\<rparr>) (expectBool ws)),
      (''arrivalrate'', map_ok (\<lambda>x. c\<lparr>cf_ArrivalRate := x\<rparr>) (expectFloat F ws)),
      (''keycount'', map_ok (\<lambda>x. c\<lparr>cf_KeyCount := x\<rparr>) (expectInt ws)),
      (''zipfskew'', map_ok (\<lambda>x. c\<lparr>cf_ZipfSkew := x\<rparr>) (expectFloat F ws)),
      (''preload'', map_ok (\<lambda>x. c\<lparr>cf_Preload := x\<rparr>) (expectBool ws)),
      (''preloadseed'', map_ok (\<lambda>x. c\<lparr>cf_PreloadSeed := x\<rparr>) (expectInt ws)),
      (''workloadseed'', map_ok (\<lambda>x. c\<lparr>cf_WorkloadSeed := x\<rparr>) (expectInt ws)),
      (''pendings'', map_ok (\<lambda>x. c\<lparr>cf_Pendings := x\<rparr>) (expectInt ws)),
      (''commandsize'', map_ok (\<lambda>x. c\<lparr>cf_CommandSize := x\<rparr>) (expectInt ws))]"

definition set_key ::
  "'f config_floats \<Rightarrow> (string \<Rightarrow> int option) \<Rightarrow> string list \<Rightarrow> 'f Config \<Rightarrow> (config_error + 'f Config) option"
where
  "set_key F dur ws c = map_of (key_table F dur ws c) (hd (split_at CHR '':'' (ws ! 0)))"

section \<open>Lines\<close>

record 'f reader =
  rd_config :: "'f Config"
  rd_apply :: bool
  rd_master :: bool
  rd_clients :: bool
  rd_replicas :: bool

definition no_section :: "'f reader \<Rightarrow> 'f reader" where
  "no_section r = r\<lparr>rd_master := False, rd_clients := False, rd_replicas := False\<rparr>"

text \<open>A line that starts a section, other than the one of the proxies.\<close>

definition section_line :: "string \<Rightarrow> string list \<Rightarrow> 'f reader \<Rightarrow> config_error + 'f reader" where
  "section_line al ws r =
     (let r = (no_section r)\<lparr>rd_apply := True\<rparr>; w = ToLower (ws ! 1) in
      if w = ''master'' then Inr (r\<lparr>rd_master := True\<rparr>)
      else if w = ''clients'' then Inr (r\<lparr>rd_clients := True\<rparr>)
      else if w = ''replicas'' then Inr (r\<lparr>rd_replicas := True\<rparr>)
      else if w = ''apply'' then
        if length ws < 4 \<or> ws ! 2 \<noteq> ''to'' then Inl ApplyArgument
        else Inr (if ws ! 3 \<noteq> al then r\<lparr>rd_apply := False\<rparr> else r)
      else Inr r)"

text \<open>A line that is not a key names a participant and its address.\<close>

definition participant_line :: "string list \<Rightarrow> 'f reader \<Rightarrow> 'f reader" where
  "participant_line ws r =
     (let addr = (case expectString ws of Inl e \<Rightarrow> [] | Inr a \<Rightarrow> a); c = rd_config r in
      if HasPrefix (ws ! 0) ''//'' then r
      else if rd_master r then r\<lparr>rd_config := c\<lparr>cf_MasterAlias := ws ! 0, cf_MasterAddr := addr\<rparr>\<rparr>
      else if rd_replicas r then r\<lparr>rd_config := c\<lparr>cf_ReplicaAddrs := (cf_ReplicaAddrs c)(ws ! 0 \<mapsto> addr)\<rparr>\<rparr>
      else if rd_clients r then r\<lparr>rd_config := c\<lparr>cf_ClientAddrs := (cf_ClientAddrs c)(ws ! 0 \<mapsto> addr)\<rparr>\<rparr>
      else r)"

definition other_line ::
  "'f config_floats \<Rightarrow> (string \<Rightarrow> int option) \<Rightarrow> string list \<Rightarrow> 'f reader \<Rightarrow> config_error + 'f reader" where
  "other_line F dur ws r =
     (if \<not> rd_apply r then Inr r
      else case set_key F dur ws (rd_config r) of
          Some res \<Rightarrow> map_ok (\<lambda>c. (no_section r)\<lparr>rd_config := c\<rparr>) res
        | None \<Rightarrow> Inr (participant_line ws r))"

text \<open>The loop over the lines; the section of the proxies takes its lines from the same scanner, not in lower case.\<close>

function read_lines ::
  "'f config_floats \<Rightarrow> (string \<Rightarrow> int option) \<Rightarrow> string \<Rightarrow> string list \<Rightarrow> 'f reader \<Rightarrow> config_error + 'f reader"
where
  "read_lines F dur al [] r = Inr r"
| "read_lines F dur al (l # ls) r =
     (let ws = Fields (ToLower l) in
      if length ws < 1 \<or> ws ! 0 = ''//'' then read_lines F dur al ls r
      else if ws ! 0 = ''--'' then
        if length ws < 2 then Inl NoSection
        else if ToLower (ws ! 1) = ''proxy'' then
          (case ReadProxyInfo (cf_ClientAddrs (rd_config r)) ls ''---'' of
             None \<Rightarrow> Inl ProxyPanic
           | Some (p, rest) \<Rightarrow> read_lines F dur al rest
               ((no_section r)\<lparr>rd_apply := True, rd_config := (rd_config r)\<lparr>cf_Proxy := Some p\<rparr>\<rparr>))
        else (case section_line al ws r of Inl e \<Rightarrow> Inl e | Inr r \<Rightarrow> read_lines F dur al ls r)
      else (case other_line F dur ws r of Inl e \<Rightarrow> Inl e | Inr r \<Rightarrow> read_lines F dur al ls r))"
  by pat_completeness auto
termination
  by (relation "measure (\<lambda>(F, dur, al, ls, r). length ls)") (auto dest: ReadProxyInfo_ok)

definition validate :: "'f config_floats \<Rightarrow> 'f Config \<Rightarrow> config_error + 'f Config" where
  "validate F c =
     (if ff_leq F (cf_ArrivalRate c) (ff_zero F) \<or> ff_NaN F (cf_ArrivalRate c) \<or> ff_Inf F (cf_ArrivalRate c)
      then Inl (OutOfRange ''arrivalRate'')
      else if cf_KeyCount c \<le> 0 then Inl (OutOfRange ''keyCount'')
      else if ff_less F (cf_ZipfSkew c) (ff_zero F) \<or> ff_NaN F (cf_ZipfSkew c) \<or> ff_Inf F (cf_ZipfSkew c)
      then Inl (OutOfRange ''zipfSkew'')
      else if cf_Warmup c < 0 then Inl (OutOfRange ''warmup'')
      else if cf_Duration c \<le> 0 then Inl (OutOfRange ''duration'')
      else if cf_Repetitions c \<le> 0 then Inl (OutOfRange ''repetitions'')
      else if cf_Preload c \<and> cf_CommandSize c \<le> 0 then Inl (OutOfRange ''commandSize'')
      else if cf_PreloadSeed c < 0 then Inl (OutOfRange ''preloadSeed'')
      else if cf_WorkloadSeed c < 0 then Inl (OutOfRange ''workloadSeed'')
      else Inr c)"

text \<open>\<open>file\<close> is \<open>None\<close> if it cannot be opened.\<close>

definition read_config ::
  "'f config_floats \<Rightarrow> (string \<Rightarrow> int option) \<Rightarrow> string list option \<Rightarrow> string \<Rightarrow> config_error + 'f Config" where
  "read_config F dur file al =
     (case file of
        None \<Rightarrow> Inl OpenFails
      | Some ls \<Rightarrow>
          (case read_lines F dur al ls \<lparr>rd_config = default_config F al, rd_apply = True, rd_master = False,
               rd_clients = False, rd_replicas = False\<rparr> of
             Inl e \<Rightarrow> Inl e
           | Inr r \<Rightarrow> validate F (rd_config r)))"

definition MapClientToIP :: "string \<Rightarrow> string \<Rightarrow> 'f Config \<Rightarrow> 'f Config" where
  "MapClientToIP client ip c =
     (if cf_ClientAddrs c client \<noteq> None then c\<lparr>cf_ClientAddrs := (cf_ClientAddrs c)(client \<mapsto> ip)\<rparr> else c)"

definition MapReplicaToIP :: "string \<Rightarrow> string \<Rightarrow> 'f Config \<Rightarrow> 'f Config" where
  "MapReplicaToIP rep ip c =
     (if cf_ReplicaAddrs c rep \<noteq> None then c\<lparr>cf_ReplicaAddrs := (cf_ReplicaAddrs c)(rep \<mapsto> ip)\<rparr> else c)"

section \<open>What every line keeps\<close>

lemma expect_Inr: "expect ws f = Inr x \<longleftrightarrow> 2 \<le> length ws \<and> \<not> HasPrefix (ws ! 1) ''//'' \<and> f (ws ! 1) = Some x"
  by (auto simp: expect_def split: option.split)

lemma map_ok_Inr [simp]: "map_ok f x = Inr y \<longleftrightarrow> (\<exists>z. x = Inr z \<and> y = f z)"
  by (auto simp: map_ok_def split: sum.split)

lemma all_map_ok: "(\<forall>c. map_ok f x = Inr c \<longrightarrow> P c) \<longleftrightarrow> (\<forall>z. x = Inr z \<longrightarrow> P (f z))"
  by auto

lemma fields_from_chars: "w \<in> set (fields_from v s) \<Longrightarrow> set w \<subseteq> set v \<union> set s"
  by (induction v s rule: fields_from.induct) (auto split: if_split_asm)

lemma Fields_lower:
  assumes "w \<in> set (Fields (ToLower s))"
  shows "ToLower w = w"
proof -
  have "set w \<subseteq> set (ToLower s)" using fields_from_chars [of w "[]"] assms by (simp add: Fields_def)
  then show ?thesis unfolding ToLower_def by (intro map_idI) auto
qed

lemma Atoi_i64: "Atoi s = Some i \<Longrightarrow> i64 i"
  by (auto simp: Atoi_def Let_def split: prod.splits if_splits)

lemma expectInt_i64: "expectInt ws = Inr x \<Longrightarrow> i64 x"
  by (auto simp: expectInt_def expect_Inr dest: Atoi_i64)

text \<open>
  A property of the configuration that the keys keep, and the assignments to the aliases, is one of the result.  The names
  that the reader meets are in lower case.
\<close>

locale config_invariant =
  fixes F :: "'f config_floats" and dur :: "string \<Rightarrow> int option" and I :: "'f Config \<Rightarrow> bool"
  assumes key: "I c \<Longrightarrow> set_key F dur ws c = Some (Inr c') \<Longrightarrow> I c'"
    and master: "I c \<Longrightarrow> I (c\<lparr>cf_MasterAlias := a, cf_MasterAddr := ad\<rparr>)"
    and replica: "I c \<Longrightarrow> ToLower a = a \<Longrightarrow> I (c\<lparr>cf_ReplicaAddrs := (cf_ReplicaAddrs c)(a \<mapsto> ad)\<rparr>)"
    and client: "I c \<Longrightarrow> ToLower a = a \<Longrightarrow> I (c\<lparr>cf_ClientAddrs := (cf_ClientAddrs c)(a \<mapsto> ad)\<rparr>)"
    and proxy: "I c \<Longrightarrow> I (c\<lparr>cf_Proxy := Some p\<rparr>)"
begin

lemma participant_line:
  "I (rd_config r) \<Longrightarrow> ToLower (ws ! 0) = ws ! 0 \<Longrightarrow> I (rd_config (participant_line ws r))"
  by (simp add: participant_line_def Let_def master replica client)

lemma other_line:
  assumes "other_line F dur ws r = Inr r'" "I (rd_config r)" "ToLower (ws ! 0) = ws ! 0"
  shows "I (rd_config r')"
proof (cases "rd_apply r")
  case True
  show ?thesis
  proof (cases "set_key F dur ws (rd_config r)")
    case None
    then show ?thesis using assms True participant_line by (auto simp: other_line_def)
  next
    case (Some res)
    then obtain c where "res = Inr c" "r' = (no_section r)\<lparr>rd_config := c\<rparr>"
      using assms(1) True by (auto simp: other_line_def)
    then show ?thesis using key [OF assms(2)] Some by simp
  qed
qed (use assms in \<open>simp add: other_line_def\<close>)

lemma section_line:
  "section_line al ws r = Inr r' \<Longrightarrow> I (rd_config r) \<Longrightarrow> I (rd_config r')"
  by (auto simp: section_line_def no_section_def Let_def split: if_split_asm)

lemma read_lines:
  assumes "read_lines F dur al ls r = Inr r'" "I (rd_config r)"
  shows "I (rd_config r')"
  using assms
proof (induction ls arbitrary: r rule: length_induct)
  case (1 ls)
  have IH: "I (rd_config r')" if "read_lines F dur al ls' r1 = Inr r'" "I (rd_config r1)" "length ls' < length ls" for ls' r1
    using 1(1) that by blast
  show ?case
  proof (cases ls)
    case (Cons l ls')
    let ?ws = "Fields (ToLower l)"
    note run = 1(2) [unfolded Cons read_lines.simps Let_def]
    consider (empty) "length ?ws < 1 \<or> ?ws ! 0 = ''//''"
      | (proxies) "\<not> (length ?ws < 1 \<or> ?ws ! 0 = ''//'')" "?ws ! 0 = ''--''" "ToLower (?ws ! 1) = ''proxy''"
      | (header) "\<not> (length ?ws < 1 \<or> ?ws ! 0 = ''//'')" "?ws ! 0 = ''--''" "ToLower (?ws ! 1) \<noteq> ''proxy''"
      | (entry) "\<not> (length ?ws < 1 \<or> ?ws ! 0 = ''//'')" "?ws ! 0 \<noteq> ''--''" by blast
    then show ?thesis
    proof cases
      case empty
      then have "read_lines F dur al ls' r = Inr r'" using run by (simp only: if_True)
      then show ?thesis using 1(3) by (rule IH) (simp add: Cons)
    next
      case proxies
      then obtain p rest where px: "ReadProxyInfo (cf_ClientAddrs (rd_config r)) ls' ''---'' = Some (p, rest)"
        and tail: "read_lines F dur al rest
          ((no_section r)\<lparr>rd_apply := True, rd_config := (rd_config r)\<lparr>cf_Proxy := Some p\<rparr>\<rparr>) = Inr r'"
        using run by (simp split: if_split_asm option.split_asm prod.split_asm)
      show ?thesis
        by (rule IH [OF tail]) (use 1(3) ReadProxyInfo_ok [OF px] Cons proxy in auto)
    next
      case header
      then obtain r1 where r1: "section_line al ?ws r = Inr r1" and tail: "read_lines F dur al ls' r1 = Inr r'"
        using run by (simp split: if_split_asm sum.split_asm)
      show ?thesis by (rule IH [OF tail section_line [OF r1 1(3)]]) (simp add: Cons)
    next
      case entry
      then obtain r1 where r1: "other_line F dur ?ws r = Inr r1" and tail: "read_lines F dur al ls' r1 = Inr r'"
        using run by (simp split: if_split_asm sum.split_asm)
      have "ToLower (?ws ! 0) = ?ws ! 0" by (rule Fields_lower [of _ l]) (use entry in simp)
      then show ?thesis by (rule IH [OF tail other_line [OF r1 1(3)]]) (simp add: Cons)
    qed
  qed (use 1 in simp)
qed

lemma Read:
  assumes "read_config F dur file al = Inr c" "I (default_config F al)"
  shows "I c"
proof -
  obtain ls r where "read_lines F dur al ls \<lparr>rd_config = default_config F al, rd_apply = True, rd_master = False,
      rd_clients = False, rd_replicas = False\<rparr> = Inr r" "validate F (rd_config r) = Inr c"
    using assms(1) by (auto simp: read_config_def split: option.splits sum.splits)
  moreover from this(2) have "c = rd_config r" by (simp add: validate_def split: if_split_asm)
  ultimately show ?thesis using read_lines assms(2) by simp
qed

end

section \<open>Types and names\<close>

text \<open>The numbers of a configuration are 64-bit integers.\<close>

definition ints_ok :: "'f Config \<Rightarrow> bool" where
  "ints_ok c \<longleftrightarrow> list_all i64 [cf_Port c, cf_MasterPort c, cf_Warmup c, cf_Duration c, cf_Repetitions c, cf_Writes c,
     cf_CommandSize c, cf_Clones c, cf_KeyCount c, cf_PreloadSeed c, cf_WorkloadSeed c, cf_Syncs c, cf_Pendings c]"

definition names_lower :: "'f Config \<Rightarrow> bool" where
  "names_lower c \<longleftrightarrow> (\<forall>a. cf_ReplicaAddrs c a \<noteq> None \<or> cf_ClientAddrs c a \<noteq> None \<longrightarrow> ToLower a = a)"

lemma set_key_table:
  assumes "set_key F dur ws c = Some (Inr c')" "list_all (\<lambda>(k, res). \<forall>c'. res = Inr c' \<longrightarrow> P c') (key_table F dur ws c)"
  shows "P c'"
  using assms map_of_SomeD [of "key_table F dur ws c"] by (fastforce simp: set_key_def list_all_iff)

lemma set_key_maps:
  assumes "set_key F dur ws c = Some (Inr c')"
  shows "cf_ReplicaAddrs c' = cf_ReplicaAddrs c" "cf_ClientAddrs c' = cf_ClientAddrs c" "cf_Alias c' = cf_Alias c"
    "cf_Proxy c' = cf_Proxy c"
proof -
  have "cf_ReplicaAddrs c' = cf_ReplicaAddrs c \<and> cf_ClientAddrs c' = cf_ClientAddrs c \<and> cf_Alias c' = cf_Alias c
      \<and> cf_Proxy c' = cf_Proxy c"
    by (rule set_key_table [OF assms]) (simp add: key_table_def set_leader_def all_map_ok del: map_ok_Inr)
  then show "cf_ReplicaAddrs c' = cf_ReplicaAddrs c" "cf_ClientAddrs c' = cf_ClientAddrs c" "cf_Alias c' = cf_Alias c"
    "cf_Proxy c' = cf_Proxy c" by auto
qed

lemma set_key_ints:
  assumes "set_key F dur ws c = Some (Inr c')" "ints_ok c" "\<forall>s d. dur s = Some d \<longrightarrow> i64 d"
  shows "ints_ok c'"
proof (rule set_key_table [OF assms(1)])
  have "i64 d" if "expectDuration dur ws = Inr d" for d
    using that assms(3) by (auto simp: expectDuration_def expect_Inr i64_def split: if_split_asm)
  then show "list_all (\<lambda>(k, res). \<forall>c'. res = Inr c' \<longrightarrow> ints_ok c') (key_table F dur ws c)"
    using assms(2) by (simp add: key_table_def set_leader_def all_map_ok ints_ok_def expectInt_i64 del: map_ok_Inr)
qed

interpretation typed: config_invariant F dur "\<lambda>c. (\<forall>s d. dur s = Some d \<longrightarrow> i64 d) \<longrightarrow> ints_ok c" for F dur
proof
  show "(\<forall>s d. dur s = Some d \<longrightarrow> i64 d) \<longrightarrow> ints_ok c'"
    if "(\<forall>s d. dur s = Some d \<longrightarrow> i64 d) \<longrightarrow> ints_ok c" "set_key F dur ws c = Some (Inr c')" for c ws c'
    using that set_key_ints by blast
qed (simp_all add: ints_ok_def)

interpretation names: config_invariant F dur names_lower for F dur
proof
  show "names_lower c'" if "names_lower c" "set_key F dur ws c = Some (Inr c')" for c ws c'
    using that(1) set_key_maps [OF that(2)] by (simp add: names_lower_def)
qed (auto simp: names_lower_def)

interpretation own_alias: config_invariant F dur "\<lambda>c. cf_Alias c = al" for F dur al
proof
  show "cf_Alias c' = al" if "cf_Alias c = al" "set_key F dur ws c = Some (Inr c')" for c ws c'
    using that(1) set_key_maps [OF that(2)] by simp
qed auto

text \<open>
  C33: a configuration that the reader accepts is well-typed: its numbers are 64-bit integers, and those that the client
  divides by, counts with or takes as a seed are in their ranges.
\<close>

theorem config_read_valid:
  assumes "read_config F dur file al = Inr c" "\<forall>s d. dur s = Some d \<longrightarrow> i64 d"
  shows "cf_Alias c = al \<and> ints_ok c \<and> 0 < cf_KeyCount c \<and> 0 \<le> cf_Warmup c \<and> 0 < cf_Duration c \<and>
    0 < cf_Repetitions c \<and> 0 \<le> cf_PreloadSeed c \<and> 0 \<le> cf_WorkloadSeed c \<and>
    (if cf_Preload c then 0 < cf_CommandSize c else True) \<and>
    \<not> ff_leq F (cf_ArrivalRate c) (ff_zero F) \<and> \<not> ff_NaN F (cf_ArrivalRate c) \<and> \<not> ff_Inf F (cf_ArrivalRate c) \<and>
    \<not> ff_less F (cf_ZipfSkew c) (ff_zero F) \<and> \<not> ff_NaN F (cf_ZipfSkew c) \<and> \<not> ff_Inf F (cf_ZipfSkew c)"
proof -
  have "ints_ok c"
    using typed.Read [OF assms(1)] assms(2) by (simp add: default_config_def ints_ok_def defaultPort_def i64_def)
  moreover have "cf_Alias c = al"
    by (rule own_alias.Read [OF assms(1)]) (simp add: default_config_def)
  moreover obtain c' where "validate F c' = Inr c"
    using assms(1) by (auto simp: read_config_def split: option.splits sum.splits)
  then have "validate F c = Inr c" by (simp add: validate_def split: if_split_asm)
  ultimately show ?thesis by (auto simp: validate_def split: if_split_asm)
qed

text \<open>
  C40: a participant whose alias has a capital letter finds no address of its own in the configuration, since the reader
  turns the names into lower case and not the alias; as a replica it would listen at the default port and register
  without an address.
\<close>

theorem config_capital_alias:
  assumes "read_config F dur file al = Inr c" "ToLower al \<noteq> al"
  shows "cf_ReplicaAddrs c al = None \<and> cf_ClientAddrs c al = None \<and>
    replicaEndpoint (lookup_string (cf_ReplicaAddrs c) al) (cf_Port c) = ([], cf_Port c)"
proof -
  have "names_lower c" by (rule names.Read [OF assms(1)]) (simp add: default_config_def names_lower_def)
  then have "cf_ReplicaAddrs c al = None" "cf_ClientAddrs c al = None"
    using assms(2) unfolding names_lower_def by blast+
  then show ?thesis by (simp add: lookup_string_def replicaEndpoint_def SplitHostPort_def)
qed

section \<open>A file\<close>

definition sample_floats :: "int config_floats" where
  "sample_floats = \<lparr>ff_parse = Atoi, ff_five = 5, ff_skew = 1, ff_zero = 0, ff_less = (<), ff_leq = (\<le>),
     ff_NaN = (\<lambda>x. False), ff_Inf = (\<lambda>x. False)\<rparr>"

definition sample_dur :: "string \<Rightarrow> int option" where
  "sample_dur s = (if s = ''20s'' then Some 20000000000 else None)"

definition sample_file :: "string list" where
  "sample_file = [''-- Replicas --'', ''R0 10.0.0.1'', ''-- Clients --'', ''c0 10.0.0.2'', ''Duration: 20s'',
     ''-- Proxy --'', ''server_alias r0'', ''c0 (local)'', ''---'', ''port: 7071'', ''leader: 10.0.0.1'']"

text \<open>The reader accepts it, for every alias.\<close>

definition sample_view :: "'f Config \<Rightarrow> int \<times> string option \<times> string option \<times> string option \<times> string option" where
  "sample_view c = (cf_Port c, cf_Leader c, cf_ReplicaAddrs c ''r0'', cf_ClientAddrs c ''c0'',
     ProxyOf [''r0''] (cf_Proxy c) ''10.0.0.2'')"

lemma sample_read:
  "\<exists>c. read_config sample_floats sample_dur (Some sample_file) ''R0'' = Inr c \<and>
     sample_view c = (7071, Some ''10.0.0.1:7070'', Some ''10.0.0.1'', Some ''10.0.0.2'', Some ''r0'')"
proof -
  have "map_ok sample_view (read_config sample_floats sample_dur (Some sample_file) ''R0'')
      = Inr (7071, Some ''10.0.0.1:7070'', Some ''10.0.0.1'', Some ''10.0.0.2'', Some ''r0'')"
    by code_simp
  then show ?thesis by auto
qed

lemma sample_dur_i64: "\<forall>s d. sample_dur s = Some d \<longrightarrow> i64 d"
  by (simp add: sample_dur_def i64_def)

theorem config_read_valid_witness:
  "\<exists>c. read_config sample_floats sample_dur (Some sample_file) ''R0'' = Inr c \<and> ints_ok c \<and> 0 < cf_Duration c"
  using sample_read config_read_valid [OF _ sample_dur_i64] by blast

theorem config_capital_alias_witness:
  "\<exists>c. read_config sample_floats sample_dur (Some sample_file) ''R0'' = Inr c \<and> cf_ReplicaAddrs c ''r0'' = Some ''10.0.0.1'' \<and>
     cf_ReplicaAddrs c ''R0'' = None"
proof -
  obtain c where c: "read_config sample_floats sample_dur (Some sample_file) ''R0'' = Inr c"
      "sample_view c = (7071, Some ''10.0.0.1:7070'', Some ''10.0.0.1'', Some ''10.0.0.2'', Some ''r0'')"
    using sample_read by blast
  have "ToLower ''R0'' \<noteq> ''R0''" by code_simp
  from config_capital_alias [OF c(1) this] c show ?thesis by (auto simp: sample_view_def)
qed

end
