(* ===== verification/Startup.thy ===== *)
theory Startup
  imports Config Workload
begin

text \<open>
  The start of a participant (\<open>main.go\<close>, \<open>run.go\<close>): the machine that the command line asks for, the replica and its
  registration with the master, and the clients and their clones.

  The flags of the command line are arguments, and so are the answers of the master.  The constructors of the protocols
  are in the theories of the protocols; here is which of them runs and with what.
\<close>

section \<open>Machines\<close>

definition machine_of :: "string \<Rightarrow> Machine option" where
  "machine_of machineType =
     (if machineType = ''replica'' \<or> machineType = ''server'' then Some ReplicaMachine
      else if machineType = ''client'' then Some ClientMachine
      else if machineType = ''master'' then Some MasterMachine else None)"

text \<open>\<open>None\<close> ends the program; otherwise the configuration and \<open>LocalAddr\<close>, which is empty at first.\<close>

definition set_up :: "string \<Rightarrow> string \<Rightarrow> string \<Rightarrow> 'f Config \<Rightarrow> ('f Config \<times> string) option" where
  "set_up protocol machineType quorum c =
     (let c = (if protocol = [] then c else c\<lparr>cf_Protocol := protocol\<rparr>) in
      case machine_of machineType of
        None \<Rightarrow> None
      | Some m \<Rightarrow> Some (c\<lparr>cf_MachineType := m, cf_Quorum := quorum\<rparr>,
          case m of ReplicaMachine \<Rightarrow> lookup_string (cf_ReplicaAddrs c) (cf_Alias c)
          | ClientMachine \<Rightarrow> lookup_string (cf_ClientAddrs c) (cf_Alias c)
          | MasterMachine \<Rightarrow> []))"

section \<open>Replicas\<close>

definition replica_args :: "'f Config \<Rightarrow> RegisterArgs" where
  "replica_args c = (let (addr, port) = replicaEndpoint (lookup_string (cf_ReplicaAddrs c) (cf_Alias c)) (cf_Port c)
     in \<lparr>ra_Addr = addr, ra_Port = port\<rparr>)"

definition master_address :: "'f Config \<Rightarrow> string" where
  "master_address c = cf_MasterAddr c @ CHR '':'' # show_int (cf_MasterPort c)"

definition tolerated :: "'f Config \<Rightarrow> nat" where
  "tolerated c = (card (dom (cf_ReplicaAddrs c)) - 1) div 2"

text \<open>The replicas, with the arguments that do not come from the registration.\<close>

datatype replica_start =
    SwiftReplica (sw_exec: bool) (sw_optread: bool)
  | CurpReplica (cu_exec: bool)
  | FastPaxosReplica (fp_exec: bool)
  | N2PaxosReplica (n2_exec: bool)
  | PaxosReplica (px_isLeader: bool)
  | EPaxosReplica (ep_exec: bool)

definition replica_start :: "bool \<Rightarrow> 'f Config \<Rightarrow> replica_start option" where
  "replica_start isLeader c =
     (let p = ToLower (cf_Protocol c) in
      if p = ''swiftpaxos'' then Some (SwiftReplica (\<not> cf_Noop c) (cf_Optread c))
      else if p = ''curp'' then Some (CurpReplica (\<not> cf_Noop c))
      else if p = ''fastpaxos'' then Some (FastPaxosReplica (\<not> cf_Noop c))
      else if p = ''n2paxos'' then Some (N2PaxosReplica (\<not> cf_Noop c))
      else if p = ''paxos'' then Some (PaxosReplica isLeader)
      else if p = ''epaxos'' then Some (EPaxosReplica (\<not> cf_Noop c))
      else None)"

text \<open>
  The calls of \<open>Register\<close>, in order: no answer, or the answer of the master.  The replica goes on after the first one that
  is ready, and \<open>None\<close> if it still asks.
\<close>

fun registerWithMaster :: "RegisterReply option list \<Rightarrow> (int \<times> string list \<times> bool) option" where
  "registerWithMaster [] = None"
| "registerWithMaster (None # rs) = registerWithMaster rs"
| "registerWithMaster (Some r # rs) =
     (if rr_Ready r then Some (rr_ReplicaId r, rr_NodeList r, rr_IsLeader r) else registerWithMaster rs)"

section \<open>Clients\<close>

text \<open>The empty cases of the switch do nothing: Go does not fall through.\<close>

definition client_protocol :: "'f Config \<Rightarrow> 'f Config" where
  "client_protocol c =
     (let p = ToLower (cf_Protocol c) in
      if p = ''swiftpaxos'' then c
      else if p = ''curp'' then c
      else if p = ''fastpaxos'' then c\<lparr>cf_Fast := True, cf_WaitClosest := True\<rparr>
      else if p = ''n2paxos'' then c\<lparr>cf_Fast := True, cf_WaitClosest := True\<rparr>
      else if p = ''epaxos'' then c\<lparr>cf_Leaderless := True, cf_Fast := False\<rparr>
      else if p = ''paxos'' then c\<lparr>cf_WaitClosest := False, cf_Fast := False\<rparr>
      else c)"

text \<open>The client of a clone, before it connects; \<open>order\<close> is the order of the proxies, and \<open>None\<close> is a panic.\<close>

definition new_client :: "string list \<Rightarrow> int \<Rightarrow> int \<Rightarrow> 'f Config \<Rightarrow> ('c Client \<times> int) option" where
  "new_client order uuid i c =
     (let c = client_protocol c in
      map_option (\<lambda>server. (NewClientLog uuid (lookup_string (cf_ReplicaAddrs c) server) (cf_Fast c) (cf_Leaderless c),
          DeriveWorkloadSeed (cf_WorkloadSeed c) (cf_Alias c) i))
        (ProxyOf order (cf_Proxy c) (lookup_string (cf_ClientAddrs c) (cf_Alias c))))"

text \<open>The loop that the client runs once it is connected: that of a protocol, or replies from one replica.\<close>

datatype client_loop = SwiftLoop nat | CurpLoop nat | RepliesFrom int

definition client_loop :: "'f Config \<Rightarrow> 'c Client \<Rightarrow> client_loop" where
  "client_loop c cl =
     (let p = ToLower (cf_Protocol c); n = card (dom (cf_ReplicaAddrs c)) in
      if p = ''swiftpaxos'' then SwiftLoop n
      else if p = ''curp'' then CurpLoop n
      else RepliesFrom (if cl_Fast cl \<or> cl_Leaderless cl \<or> cf_WaitClosest (client_protocol c)
        then cl_ClosestId cl else cl_LeaderId cl))"

definition clones :: "'f Config \<Rightarrow> int list" where
  "clones c = map int [0..<nat (cf_Clones c + 1)]"

section \<open>The leader of the configuration\<close>

text \<open>If no replica that registers is the leader of the configuration, no replica leads.\<close>

lemma Register_node_other:
  assumes "Register_node F ping a s = Inr (r, s')" "ms_configLeader s = Some e" "addrPort a \<noteq> e" "flags s = {}"
  shows "\<not> rr_IsLeader r \<and> ms_configLeader s' = Some e \<and> flags s' = {}"
proof -
  have answers: "\<not> rr_IsLeader (fst (answer F (addrPort a) i t)) \<and> snd (answer F (addrPort a) i t) = t"
    if "ms_configLeader t = Some e" for i t
    using that assms(3) by (simp add: answer_def leader_index_def)
  show ?thesis
  proof (cases "index_of (addrPort a) (ms_nodeList s) = length (ms_nodeList s)")
    case True
    then obtain t where t: "add_node ping a s = Inr t"
      and ans: "answer F (addrPort a) (length (ms_nodeList s)) t = (r, s')"
      using assms(1) by (simp add: Register_node_def Let_def split: sum.split_asm)
    have conf: "ms_configLeader t = Some e" and leader: "ms_leader t = (ms_leader s)[length (ms_nodeList s) := False]"
      using t assms(2) by (auto simp: add_node_def Let_def split: if_split_asm option.split_asm)
    from leader have "flags t = {}"
      using assms(4) by (cases "length (ms_nodeList s) < length (ms_leader s)") (auto simp: flags_def nth_list_update)
    then show ?thesis using answers [OF conf, of "length (ms_nodeList s)"] ans conf by simp
  next
    case False
    then show ?thesis
      using assms answers [OF assms(2), of "index_of (addrPort a) (ms_nodeList s)"]
      by (simp add: Register_node_def Let_def)
  qed
qed

lemma registers_other:
  assumes "registers F ping as s = Inr (rs, s')" "ms_configLeader s = Some e" "\<forall>a \<in> set as. addrPort a \<noteq> e" "flags s = {}"
  shows "(\<forall>(a, r) \<in> set rs. \<not> rr_IsLeader r) \<and> flags s' = {}"
  using assms
proof (induction as arbitrary: s rs)
  case (Cons a as)
  then obtain r t rs' where one: "Register_node F ping a s = Inr (r, t)" and rest: "registers F ping as t = Inr (rs', s')"
      and rs: "rs = (a, r) # rs'"
    by (auto split: sum.splits)
  have "addrPort a \<noteq> e" using Cons.prems(3) by simp
  from Register_node_other [OF one Cons.prems(2) this Cons.prems(4)] Cons.IH [OF rest] Cons.prems(3) rs
  show ?case by simp
qed simp

lemma after_colon: "CHR '':'' \<notin> set p \<Longrightarrow> takeWhile (\<lambda>c. c \<noteq> CHR '':'') (rev (h @ CHR '':'' # p)) = rev p"
  using takeWhile_append2 [of "rev p" "\<lambda>c. c \<noteq> CHR '':''" "CHR '':'' # rev h"] by auto

lemma colon_suffix:
  assumes "CHR '':'' \<notin> set p" "CHR '':'' \<notin> set q" "h @ CHR '':'' # p = g @ CHR '':'' # q"
  shows "p = q"
  using after_colon [OF assms(1), of h] after_colon [OF assms(2), of g] by (simp only: assms(3) rev_is_rev_conv)

text \<open>
  C34: if the leader of the configuration has no port and the replicas listen at a port other than 7070, no replica that
  registers is told that it leads, and the master marks none: the reader gives the leader the default port and not the
  port of the file.
\<close>

theorem leader_without_port:
  assumes conf: "read_config F dur file al = Inr c" "\<forall>s d. dur s = Some d \<longrightarrow> i64 d"
    and leader: "cf_Leader c = Some (h @ CHR '':'' # show_int defaultPort)" "cf_Port c \<noteq> defaultPort"
    and no_ports: "\<forall>a \<in> set aliases. CHR '':'' \<notin> set (lookup_string (cf_ReplicaAddrs c) a)"
    and run: "registers G ping (map (\<lambda>a. replica_args (c\<lparr>cf_Alias := a\<rparr>)) aliases) (NewMaster G n (cf_Leader c)) = Inr (rs, s)"
  shows "(\<forall>(a, r) \<in> set rs. \<not> rr_IsLeader r) \<and> flags s = {}"
proof (rule registers_other [OF run])
  have "ints_ok c"
    using typed.Read [OF conf(1)] conf(2) by (simp add: default_config_def ints_ok_def defaultPort_def i64_def)
  then have i64: "i64 (cf_Port c)" "i64 defaultPort" by (simp_all add: ints_ok_def defaultPort_def i64_def)
  have port: "show_int (cf_Port c) \<noteq> show_int defaultPort"
  proof
    assume "show_int (cf_Port c) = show_int defaultPort"
    then have "Some (cf_Port c) = Some defaultPort"
      using Atoi_show_int [OF i64(1)] Atoi_show_int [OF i64(2)] by (simp only:)
    with leader(2) show False by simp
  qed
  show "\<forall>a \<in> set (map (\<lambda>a. replica_args (c\<lparr>cf_Alias := a\<rparr>)) aliases). addrPort a \<noteq> h @ CHR '':'' # show_int defaultPort"
  proof safe
    fix x assume "x \<in> set (map (\<lambda>a. replica_args (c\<lparr>cf_Alias := a\<rparr>)) aliases)"
      and eq: "addrPort x = h @ CHR '':'' # show_int defaultPort"
    then obtain a where x: "x = replica_args (c\<lparr>cf_Alias := a\<rparr>)" and "a \<in> set aliases" by auto
    with no_ports have "CHR '':'' \<notin> set (lookup_string (cf_ReplicaAddrs c) a)" by blast
    then have "ra_Port x = cf_Port c" by (simp add: x replica_args_def replicaEndpoint_def SplitHostPort_def)
    with eq have "show_int (cf_Port c) = show_int defaultPort"
      using colon_suffix [OF show_int_no_colon(1) show_int_no_colon(1)] by (simp add: addrPort_def)
    with port show False by simp
  qed
qed (simp_all add: NewMaster_def flags_def leader)

theorem leader_without_port_witness:
  "\<exists>c r s. read_config sample_floats sample_dur (Some sample_file) ''R0'' = Inr c \<and> cf_Port c = 7071 \<and>
     registers int_floats Some_20 [\<lparr>ra_Addr = ''10.0.0.1'', ra_Port = 7071\<rparr>] (NewMaster int_floats 1 (cf_Leader c))
       = Inr ([(\<lparr>ra_Addr = ''10.0.0.1'', ra_Port = 7071\<rparr>, r)], s) \<and> rr_Ready r \<and> \<not> rr_IsLeader r \<and> flags s = {}"
proof -
  let ?arg = "\<lparr>ra_Addr = ''10.0.0.1'', ra_Port = 7071\<rparr>"
  obtain c where c: "read_config sample_floats sample_dur (Some sample_file) ''R0'' = Inr c"
      "sample_view c = (7071, Some ''10.0.0.1:7070'', Some ''10.0.0.1'', Some ''10.0.0.2'', Some ''r0'')"
    using sample_read by blast
  have port: "show_int defaultPort = ''7070''" by code_simp
  have lead: "cf_Leader c = Some (''10.0.0.1'' @ CHR '':'' # show_int defaultPort)"
    using c(2) by (simp add: sample_view_def port)
  have ev: "(case registers int_floats Some_20 [?arg] (NewMaster int_floats 1 (Some ''10.0.0.1:7070'')) of Inl e \<Rightarrow> []
      | Inr x \<Rightarrow> map (\<lambda>(a, r). (a, rr_Ready r)) (fst x)) = [(?arg, True)]"
    by code_simp
  then obtain r s where run: "registers int_floats Some_20 [?arg] (NewMaster int_floats 1 (Some ''10.0.0.1:7070''))
      = Inr ([(?arg, r)], s)" "rr_Ready r"
    by (auto split: sum.split_asm)
  have args: "map (\<lambda>a. replica_args (c\<lparr>cf_Alias := a\<rparr>)) [''r0''] = [?arg]"
    using c(2) by (simp add: sample_view_def replica_args_def lookup_string_def replicaEndpoint_def SplitHostPort_def)
  have "(\<forall>(a, r) \<in> set [(?arg, r)]. \<not> rr_IsLeader r) \<and> flags s = {}"
    by (rule leader_without_port [OF c(1) sample_dur_i64 lead, of "[''r0'']" int_floats Some_20 1])
      (use c(2) run(1) args in \<open>simp_all add: sample_view_def defaultPort_def lookup_string_def\<close>)
  then show ?thesis using c run by (auto simp: sample_view_def)
qed

section \<open>Proxies\<close>

definition proxy_header :: "string \<Rightarrow> bool" where
  "proxy_header l = (let ws = Fields (ToLower l) in 2 \<le> length ws \<and> ws ! 0 = ''--'' \<and> ToLower (ws ! 1) = ''proxy'')"

lemma section_line_proxy: "section_line al ws r = Inr r' \<Longrightarrow> rd_config r' = rd_config r"
  by (auto simp: section_line_def no_section_def Let_def split: if_split_asm)

lemma other_line_proxy: "other_line F dur ws r = Inr r' \<Longrightarrow> cf_Proxy (rd_config r') = cf_Proxy (rd_config r)"
  using set_key_maps(4)
  by (auto simp: other_line_def participant_line_def no_section_def Let_def split: if_split_asm option.split_asm)

lemma read_lines_no_proxy:
  assumes "read_lines F dur al ls r = Inr r'" "\<forall>l \<in> set ls. \<not> proxy_header l"
  shows "cf_Proxy (rd_config r') = cf_Proxy (rd_config r)"
  using assms
proof (induction ls arbitrary: r)
  case (Cons l ls)
  let ?ws = "Fields (ToLower l)"
  have header: "\<not> (2 \<le> length ?ws \<and> ?ws ! 0 = ''--'' \<and> ToLower (?ws ! 1) = ''proxy'')"
    using Cons.prems(2) by (simp add: proxy_header_def Let_def)
  note run = Cons.prems(1) [unfolded read_lines.simps Let_def]
  have "\<exists>t. read_lines F dur al ls t = Inr r' \<and> cf_Proxy (rd_config t) = cf_Proxy (rd_config r)"
  proof (cases "length ?ws < 1 \<or> ?ws ! 0 = ''//''")
    case True
    then show ?thesis using run by auto
  next
    case words: False
    show ?thesis
    proof (cases "?ws ! 0 = ''--''")
      case True
      then obtain t where t: "section_line al ?ws r = Inr t" "read_lines F dur al ls t = Inr r'"
        using run words header by (simp split: if_split_asm sum.split_asm)
      then show ?thesis using section_line_proxy [OF t(1)] by auto
    next
      case False
      then obtain t where t: "other_line F dur ?ws r = Inr t" "read_lines F dur al ls t = Inr r'"
        using run words by (simp split: if_split_asm sum.split_asm)
      then show ?thesis using other_line_proxy [OF t(1)] by auto
    qed
  qed
  then show ?case using Cons.IH Cons.prems(2) by auto
qed simp

text \<open>
  C35: without a section of proxies in the configuration every client panics before it connects, and every replica
  at the first client that connects.
\<close>

theorem proxies_are_required:
  assumes "read_config F dur (Some ls) al = Inr c" "\<forall>l \<in> set ls. \<not> proxy_header l"
  shows "new_client order uuid i c = None \<and> IsProxy (cf_Proxy c) serverAlias addr = None"
proof -
  obtain r where "read_lines F dur al ls \<lparr>rd_config = default_config F al, rd_apply = True, rd_master = False,
      rd_clients = False, rd_replicas = False\<rparr> = Inr r" "validate F (rd_config r) = Inr c"
    using assms(1) by (auto simp: read_config_def split: sum.splits)
  moreover from this(2) have "c = rd_config r" by (simp add: validate_def split: if_split_asm)
  ultimately have "cf_Proxy c = None"
    using read_lines_no_proxy assms(2) by (fastforce simp: default_config_def)
  then show ?thesis by (simp add: new_client_def client_protocol_def Let_def ProxyOf_def IsProxy_def)
qed

theorem proxies_are_required_witness:
  "\<exists>c. read_config sample_floats sample_dur (Some [''duration 20s'', ''protocol EPaxos'']) ''c0'' = Inr c \<and>
     cf_Protocol c = ''epaxos'' \<and> (new_client [] 7 0 c :: (int Client \<times> int) option) = None"
proof -
  have "map_ok cf_Protocol (read_config sample_floats sample_dur (Some [''duration 20s'', ''protocol EPaxos'']) ''c0'') = Inr ''epaxos''"
    by code_simp
  then obtain c where c: "read_config sample_floats sample_dur (Some [''duration 20s'', ''protocol EPaxos'']) ''c0'' = Inr c"
      "cf_Protocol c = ''epaxos''" by auto
  have no_section: "\<forall>l \<in> set [''duration 20s'', ''protocol EPaxos'']. \<not> proxy_header l" by code_simp
  have "(new_client [] 7 0 c :: (int Client \<times> int) option) = None"
    by (rule proxies_are_required [OF c(1) no_section, THEN conjunct1])
  with c show ?thesis by blast
qed

end
