(* ===== verification/PeerSetup.thy ===== *)
theory PeerSetup
  imports Wire GoString
begin

text \<open>
  How the replicas connect to each other (\<open>ConnectToPeers\<close> and \<open>waitForPeerConnections\<close> of \<open>replica/replica.go\<close>): a replica
  dials those with smaller numbers and sends its number, and accepts a connection from each of the others.

  \<open>'c\<close> is the type of connections.  \<open>pe_Links\<close> are the readers and writers of the peers, which the code makes together.
  A dial is repeated until it succeeds, so that only its connection appears; the write of the number, an accept and the
  read of a number can fail.  The two loops run at the same time: their iterations are actions, in any order.
\<close>

section \<open>Model\<close>

record 'c peers =
  pe_Id :: nat
  pe_Peers :: "'c option list"
  pe_Links :: "'c option list"
  pe_Alive :: "bool list"

definition new_peers :: "nat \<Rightarrow> nat \<Rightarrow> 'c peers" where
  "new_peers rid N = \<lparr>pe_Id = rid, pe_Peers = replicate N None, pe_Links = replicate N None, pe_Alive = replicate N False\<rparr>"

text \<open>The part of \<open>PeerAddrList[r.Id]\<close> that the replica listens at; \<open>None\<close> is the panic of an index out of range.\<close>

definition listen_port :: "string \<Rightarrow> string option" where
  "listen_port addr = (case split_at CHR '':'' addr of h # p # _ \<Rightarrow> Some p | _ \<Rightarrow> None)"

definition hello :: "int \<Rightarrow> bytes" where
  "hello rid = put_le 4 rid"

definition dial_peer :: "nat \<Rightarrow> 'c \<Rightarrow> bool \<Rightarrow> 'c peers \<Rightarrow> 'c peers" where
  "dial_peer i conn written r =
     (let r = r\<lparr>pe_Peers := (pe_Peers r)[i := Some conn]\<rparr> in
      if \<not> written then r
      else r\<lparr>pe_Links := (pe_Links r)[i := Some conn], pe_Alive := (pe_Alive r)[i := True]\<rparr>)"

text \<open>An accept fails, or the connection does not give four bytes, or it does.\<close>

definition accept_peer :: "('c \<times> bytes option) option \<Rightarrow> 'c peers \<Rightarrow> 'c peers option" where
  "accept_peer acc r =
     (case acc of
        None \<Rightarrow> Some r
      | Some (conn, None) \<Rightarrow> Some r
      | Some (conn, Some bs) \<Rightarrow>
          (let k = i32_at bs 0; i = nat k in
           if k < 0 \<or> length (pe_Peers r) \<le> i then None
           else Some (r\<lparr>pe_Peers := (pe_Peers r)[i := Some conn], pe_Links := (pe_Links r)[i := Some conn],
                 pe_Alive := (pe_Alive r)[i := True]\<rparr>)))"

datatype 'c setup_act = Dialled nat 'c bool | Accepted "('c \<times> bytes option) option"

fun setup_run :: "'c setup_act list \<Rightarrow> 'c peers \<Rightarrow> 'c peers option" where
  "setup_run [] r = Some r"
| "setup_run (Dialled i conn written # as) r = setup_run as (dial_peer i conn written r)"
| "setup_run (Accepted acc # as) r = (case accept_peer acc r of None \<Rightarrow> None | Some r \<Rightarrow> setup_run as r)"

text \<open>The listeners start on the readers of all other replicas; a nil reader panics.\<close>

definition start_listeners :: "'c peers \<Rightarrow> 'c list option" where
  "start_listeners r = those (map (\<lambda>i. pe_Links r ! i) (filter (\<lambda>i. i \<noteq> pe_Id r) [0..<length (pe_Links r)]))"

section \<open>All replicas are connected\<close>

text \<open>
  \<open>conn i j\<close> is the connection that replica \<open>i\<close> dials to the smaller \<open>j\<close>.  What replica \<open>j\<close> does with replica \<open>i\<close> when nothing
  fails:
\<close>

definition peer_act :: "(nat \<Rightarrow> nat \<Rightarrow> 'c) \<Rightarrow> nat \<Rightarrow> nat \<Rightarrow> 'c setup_act" where
  "peer_act conn j i = (if i < j then Dialled i (conn j i) True else Accepted (Some (conn i j, Some (hello (int i)))))"

definition between :: "(nat \<Rightarrow> nat \<Rightarrow> 'c) \<Rightarrow> nat \<Rightarrow> nat \<Rightarrow> 'c" where
  "between conn i j = conn (max i j) (min i j)"

lemma between_sym: "between conn i j = between conn j i"
  by (simp add: between_def max.commute min.commute)

lemma hello_read: "i < 2 ^ 31 \<Longrightarrow> i32_at (hello (int i)) 0 = int i"
  unfolding hello_def by (rule i32_at_put) (simp add: i32_def)

lemma peer_act_step:
  assumes "i < N" "i \<noteq> j" "N \<le> 2 ^ 31" "length (pe_Peers r) = N"
  shows "setup_run (peer_act conn j i # as) r =
    setup_run as (r\<lparr>pe_Peers := (pe_Peers r)[i := Some (between conn i j)], pe_Links := (pe_Links r)[i := Some (between conn i j)],
      pe_Alive := (pe_Alive r)[i := True]\<rparr>)"
proof (cases "i < j")
  case True
  then show ?thesis by (simp add: peer_act_def dial_peer_def between_def)
next
  case False
  then have "i32_at (hello (int i)) 0 = int i" "max i j = i" "min i j = j"
    using assms by (auto intro!: hello_read)
  then show ?thesis using False assms by (simp add: peer_act_def accept_peer_def between_def Let_def)
qed

lemma setup_run_links:
  assumes "set is \<subseteq> {..<N} - {j}" "N \<le> 2 ^ 31" "length (pe_Peers r) = N" "length (pe_Links r) = N" "length (pe_Alive r) = N"
  shows "\<exists>r'. setup_run (map (peer_act conn j) is) r = Some r' \<and> pe_Id r' = pe_Id r \<and> length (pe_Links r') = N \<and>
    (\<forall>i < N. pe_Links r' ! i = (if i \<in> set is then Some (between conn i j) else pe_Links r ! i) \<and>
      pe_Alive r' ! i = (i \<in> set is \<or> pe_Alive r ! i))"
  using assms
proof (induction "is" arbitrary: r)
  case (Cons i "is")
  let ?r = "r\<lparr>pe_Peers := (pe_Peers r)[i := Some (between conn i j)], pe_Links := (pe_Links r)[i := Some (between conn i j)],
      pe_Alive := (pe_Alive r)[i := True]\<rparr>"
  have i: "i < N" "i \<noteq> j" using Cons.prems(1) by auto
  obtain r' where r': "setup_run (map (peer_act conn j) is) ?r = Some r'" "pe_Id r' = pe_Id r" "length (pe_Links r') = N"
    and links: "\<forall>k < N. pe_Links r' ! k = (if k \<in> set is then Some (between conn k j) else pe_Links ?r ! k) \<and>
      pe_Alive r' ! k = (k \<in> set is \<or> pe_Alive ?r ! k)"
    using Cons.IH [of ?r] Cons.prems by auto
  have "setup_run (map (peer_act conn j) (i # is)) r = Some r'"
    using peer_act_step [OF i Cons.prems(2,3)] r'(1) by simp
  moreover have "pe_Links r' ! k = (if k \<in> set (i # is) then Some (between conn k j) else pe_Links r ! k) \<and>
      pe_Alive r' ! k = (k \<in> set (i # is) \<or> pe_Alive r ! k)" if "k < N" for k
    using links that Cons.prems i by (auto simp: nth_list_update)
  ultimately show ?case using r'(2,3) by blast
qed simp

lemma those_map_Some: "(\<And>x. x \<in> set xs \<Longrightarrow> f x = Some (g x)) \<Longrightarrow> those (map f xs) = Some (map g xs)"
  by (induction xs) auto

text \<open>
  C32: whatever the order in which the connections come, every replica ends with one connection to each of the others,
  the same at both ends, and starts its listeners on them.  \<open>order j\<close> is the order at replica \<open>j\<close>.
\<close>

theorem peers_connected:
  assumes "N \<le> 2 ^ 31" "\<forall>j < N. distinct (order j) \<and> set (order j) = {..<N} - {j}"
  shows "\<exists>rep. \<forall>j < N. setup_run (map (peer_act conn j) (order j)) (new_peers j N) = Some (rep j) \<and>
    start_listeners (rep j) = Some (map (\<lambda>i. between conn i j) (filter (\<lambda>i. i \<noteq> j) [0..<N])) \<and>
    (\<forall>i < N. i \<noteq> j \<longrightarrow> pe_Alive (rep j) ! i \<and> pe_Links (rep j) ! i = pe_Links (rep i) ! j)"
proof -
  have "\<exists>r. setup_run (map (peer_act conn j) (order j)) (new_peers j N) = Some r \<and> pe_Id r = j \<and> length (pe_Links r) = N \<and>
      (\<forall>i < N. i \<noteq> j \<longrightarrow> pe_Links r ! i = Some (between conn i j) \<and> pe_Alive r ! i)" if "j < N" for j
  proof -
    have all: "set (order j) = {..<N} - {j}" using assms(2) that by blast
    then have "set (order j) \<subseteq> {..<N} - {j}" by simp
    from setup_run_links [OF this assms(1), of "new_peers j N" conn] obtain r
      where "setup_run (map (peer_act conn j) (order j)) (new_peers j N) = Some r" "pe_Id r = j" "length (pe_Links r) = N"
        and "\<forall>i < N. pe_Links r ! i = (if i \<in> set (order j) then Some (between conn i j) else pe_Links (new_peers j N) ! i) \<and>
          pe_Alive r ! i = (i \<in> set (order j) \<or> pe_Alive (new_peers j N) ! i)"
      by (auto simp: new_peers_def)
    then show ?thesis using all by (intro exI [of _ r]) simp
  qed
  then obtain rep where run: "\<And>j. j < N \<Longrightarrow> setup_run (map (peer_act conn j) (order j)) (new_peers j N) = Some (rep j)"
    and rep: "\<And>j. j < N \<Longrightarrow> pe_Id (rep j) = j \<and> length (pe_Links (rep j)) = N \<and>
      (\<forall>i < N. i \<noteq> j \<longrightarrow> pe_Links (rep j) ! i = Some (between conn i j) \<and> pe_Alive (rep j) ! i)"
    by metis
  have "start_listeners (rep j) = Some (map (\<lambda>i. between conn i j) (filter (\<lambda>i. i \<noteq> j) [0..<N]))" if "j < N" for j
    using rep [OF that] unfolding start_listeners_def by (intro those_map_Some [THEN trans]) auto
  moreover have "pe_Alive (rep j) ! i \<and> pe_Links (rep j) ! i = pe_Links (rep i) ! j" if "i < N" "j < N" "i \<noteq> j" for i j
    using rep [of i] rep [of j] that between_sym [of conn i j] by simp
  ultimately show ?thesis using run by blast
qed

text \<open>Three replicas; replica 0 accepts the connection of replica 2 first.\<close>

theorem peers_connected_witness:
  "\<exists>rep :: nat \<Rightarrow> (nat \<times> nat) peers. setup_run [peer_act (\<lambda>i j. (i, j)) 0 2, peer_act (\<lambda>i j. (i, j)) 0 1] (new_peers 0 3) = Some (rep 0) \<and>
     start_listeners (rep 0) = Some [(1, 0), (2, 0)] \<and> start_listeners (rep 1) = Some [(1, 0), (2, 1)]"
proof -
  let ?order = "\<lambda>j. if j = 0 then [2, 1] else if j = 1 then [0, 2] else [0, 1 :: nat]"
  have "\<forall>j < 3. distinct (?order j) \<and> set (?order j) = {..<3} - {j}"
  proof (intro allI impI)
    fix j :: nat
    assume "j < 3"
    then consider "j = 0" | "j = 1" | "j = 2" by linarith
    then show "distinct (?order j) \<and> set (?order j) = {..<3} - {j}" by cases auto
  qed
  from peers_connected [OF _ this, of "\<lambda>i j. (i, j)"] obtain rep where
    all: "\<forall>j < 3. setup_run (map (peer_act (\<lambda>i j. (i, j)) j) (?order j)) (new_peers j 3) = Some (rep j) \<and>
      start_listeners (rep j) = Some (map (\<lambda>i. between (\<lambda>i j. (i, j)) i j) (filter (\<lambda>i. i \<noteq> j) [0..<3]))"
    by fastforce
  have "setup_run (map (peer_act (\<lambda>i j. (i, j)) 0) (?order 0)) (new_peers 0 3) = Some (rep 0) \<and>
    start_listeners (rep 0) = Some (map (\<lambda>i. between (\<lambda>i j. (i, j)) i 0) (filter (\<lambda>i. i \<noteq> 0) [0..<3]))"
    using all [THEN spec, of 0] by simp
  moreover have "start_listeners (rep 1) = Some (map (\<lambda>i. between (\<lambda>i j. (i, j)) i 1) (filter (\<lambda>i. i \<noteq> 1) [0..<3]))"
    using all [THEN spec, of 1] by simp
  moreover have "[0..<3] = [0, 1, 2 :: nat]" by code_simp
  ultimately show ?thesis by (intro exI [of _ rep]) (simp add: between_def)
qed

section \<open>When something fails\<close>

text \<open>
  A failed accept counts as a connection, and a peer whose connection is missing makes the listeners panic.
\<close>

lemma failed_accept_panics: "\<exists>r. setup_run [Accepted None] (new_peers 0 2) = Some r \<and> start_listeners r = None"
proof -
  have "[0..<2] = [0, 1 :: nat]" by code_simp
  then show ?thesis by (simp add: accept_peer_def new_peers_def start_listeners_def nth_replicate)
qed

text \<open>The number on a connection is not checked: a stranger whose first bytes are no number of a replica makes it panic.\<close>

lemma stranger_panics: "setup_run [Accepted (Some (conn, Some [1, 2, 3, 4]))] (new_peers 0 3) = None"
proof -
  have "i32_at [1, 2, 3, 4] 0 = 67305985" by code_simp
  then show ?thesis by (simp add: accept_peer_def new_peers_def Let_def)
qed

text \<open>A replica that the master has registered listens at the port of its endpoint.\<close>

lemma split_at_no_sep: "sep \<notin> set s \<Longrightarrow> split_at sep s = [s]"
  by (induction s) auto

lemma split_at_append: "sep \<notin> set h \<Longrightarrow> split_at sep (h @ sep # p) = h # split_at sep p"
  by (induction h) auto

lemma listen_port_endpoint: "CHR '':'' \<notin> set h \<Longrightarrow> listen_port (h @ CHR '':'' # show_int p) = Some (show_int p)"
  by (simp add: listen_port_def split_at_append split_at_no_sep show_int_no_colon)

end
